(* ===== verification/Prelude.thy ===== *)
theory Prelude
  imports Main "HOL-Library.AList" "HOL-Library.Word"
begin

text \<open>
  What every component of the development shares: the exceptions of the program as a
  datatype, fallible results as a sum type with a bind and a list traversal, validation as a
  list of checks of which the first failing one is raised (the shape of a dataclass
  \<open>__post_init__\<close>), Python dictionaries as association lists in insertion order, and
  the lemmas on them that the component theories use. Three collections of rewrite rules are
  filled here and in the component theories: \<open>result_simps\<close> for the result monad,
  \<open>check_simps\<close> for validations, \<open>table_simps\<close> for lookups after updates.
\<close>

named_theorems result_simps \<open>rewriting of fallible results\<close>
named_theorems check_simps \<open>rewriting of validations\<close>
named_theorems table_simps \<open>lookups after updates of dictionaries and tables\<close>

section \<open>Exceptions and fallible results\<close>

text \<open>
  The exceptions the modelled code raises, with the message or code where the code
  distinguishes on it.
\<close>

datatype exn =
    ValueError string
  | RuntimeError string
  | ValidationError string
  | KeyError
  | AssertionError
  | UniqueViolation
  | CheckViolation
  | InteractionConflict string
  | InteractionRunMissing
  | InteractionAuthorityLost
  | InteractionCorrupt
  | UsageIdentityConflict
  | ControlCommandConflict
  | DispatchConflict
  | ChatIdentityConflict
  | StaticRecipeAuthorityLost
  | StaticRecipeIncompatible
  | ProgressPersistenceError string
  | ProgressAuthorityLost string
  | ModelCallAuthorityLost string
  | ModelCallIdentityConflict string
  | ModelCallOrdinalExhausted
  | ModelCallInputInvalid string
  | ModelCallEvidenceInvariantFailed

text \<open>The subclasses of \<open>ValueError\<close> among them, which an \<open>except ValueError\<close> catches.\<close>

fun value_error :: "exn \<Rightarrow> bool" where
  "value_error (ValueError m) = True"
| "value_error (ValidationError m) = True"
| "value_error (InteractionConflict m) = True"
| "value_error InteractionCorrupt = True"
| "value_error (ModelCallInputInvalid m) = True"
| "value_error _ = False"

type_synonym 'a result = "exn + 'a"
type_synonym bytes = "8 word list"

definition bind_r :: "'a result \<Rightarrow> ('a \<Rightarrow> 'b result) \<Rightarrow> 'b result" where
  "bind_r m f = (case m of Inl e \<Rightarrow> Inl e | Inr x \<Rightarrow> f x)"

text \<open>\<open>try: ... except ValueError as error: raise e from error\<close>.\<close>

definition reraise :: "exn \<Rightarrow> 'a result \<Rightarrow> 'a result" where
  "reraise e m = (case m of Inl x \<Rightarrow> if value_error x then Inl e else Inl x | Inr y \<Rightarrow> Inr y)"

lemma reraise_eq_Inr [simp, result_simps]: "reraise e m = Inr y \<longleftrightarrow> m = Inr y"
  by (cases m) (simp_all add: reraise_def)

lemma bind_r_simps [simp, result_simps]:
  "bind_r (Inl e) f = Inl e"
  "bind_r (Inr x) f = f x"
  by (simp_all add: bind_r_def)

lemma bind_r_eq_Inr [simp, result_simps]:
  "bind_r m f = Inr y \<longleftrightarrow> (\<exists>x. m = Inr x \<and> f x = Inr y)"
  by (cases m) simp_all

lemma bind_r_eq_Inl [result_simps]:
  "bind_r m f = Inl e \<longleftrightarrow> m = Inl e \<or> (\<exists>x. m = Inr x \<and> f x = Inl e)"
  by (cases m) simp_all

lemma if_Inl_eq_Inr [simp, result_simps]:
  "(if b then Inl e else m) = Inr y \<longleftrightarrow> \<not> b \<and> m = Inr y"
  by simp

lemma if_Inl_eq_Inl [result_simps]:
  "(if b then Inl e else m) = Inl e' \<longleftrightarrow> b \<and> e = e' \<or> \<not> b \<and> m = Inl e'"
  by simp

fun traverse :: "('a \<Rightarrow> 'b result) \<Rightarrow> 'a list \<Rightarrow> 'b list result" where
  "traverse f [] = Inr []"
| "traverse f (x # xs) = bind_r (f x) (\<lambda>y. bind_r (traverse f xs) (\<lambda>ys. Inr (y # ys)))"

lemma traverse_Inr:
  "traverse f xs = Inr ys \<longleftrightarrow> list_all2 (\<lambda>x y. f x = Inr y) xs ys"
proof (induction xs arbitrary: ys)
  case Nil
  show ?case by (cases ys) auto
next
  case (Cons x xs)
  then show ?case by (cases ys) auto
qed

lemma traverse_Inl:
  "traverse f xs = Inl e \<Longrightarrow> \<exists>x \<in> set xs. f x = Inl e"
  by (induction xs) (auto simp: bind_r_eq_Inl)

lemma traverse_all_Inr:
  "(\<And>x. x \<in> set xs \<Longrightarrow> f x = Inr (g x)) \<Longrightarrow> traverse f xs = Inr (map g xs)"
  by (induction xs) auto

lemma traverse_map:
  "traverse f (map g xs) = traverse (\<lambda>x. f (g x)) xs"
  by (induction xs) auto

section \<open>Validations\<close>

text \<open>
  A validation returns the exception it raises. \<open>first_error\<close> runs validations in
  order and raises the first failure, as consecutive statements of \<open>__post_init__\<close> do;
  \<open>construct\<close> is the constructor call that validates.
\<close>

fun first_error :: "exn option list \<Rightarrow> exn option" where
  "first_error [] = None"
| "first_error (None # cs) = first_error cs"
| "first_error (Some e # cs) = Some e"

lemma first_error_Cons [simp, check_simps]:
  "first_error (c # cs) = None \<longleftrightarrow> c = None \<and> first_error cs = None"
  by (cases c) simp_all

lemma first_error_None_iff:
  "first_error cs = None \<longleftrightarrow> (\<forall>c \<in> set cs. c = None)"
  by (induction cs) auto

definition fail_if :: "bool \<Rightarrow> exn \<Rightarrow> exn option" where
  "fail_if b e = (if b then Some e else None)"

lemma fail_if_None [simp, check_simps]: "fail_if b e = None \<longleftrightarrow> \<not> b"
  by (simp add: fail_if_def)

definition construct :: "('a \<Rightarrow> exn option) \<Rightarrow> 'a \<Rightarrow> 'a result" where
  "construct check x = (case check x of Some e \<Rightarrow> Inl e | None \<Rightarrow> Inr x)"

lemma construct_eq_Inr [simp, check_simps]:
  "construct check x = Inr y \<longleftrightarrow> x = y \<and> check x = None"
  by (auto simp: construct_def split: option.splits)

lemma construct_eq_Inl [check_simps]:
  "construct check x = Inl e \<longleftrightarrow> check x = Some e"
  by (auto simp: construct_def split: option.splits)

lemma construct_None [simp, check_simps]: "check x = None \<Longrightarrow> construct check x = Inr x"
  by simp

section \<open>Dictionaries in insertion order\<close>

type_synonym ('k, 'v) dict = "('k \<times> 'v) list"

text \<open>
  A dict comprehension over a list of values keyed by \<open>key\<close>: a later value replaces an
  earlier one in place (\<^const>\<open>AList.update\<close>), a new key goes to the end.
\<close>

definition dict_of :: "('v \<Rightarrow> 'k) \<Rightarrow> 'v list \<Rightarrow> ('k, 'v) dict" where
  "dict_of key vs = fold (\<lambda>v d. AList.update (key v) v d) vs []"

definition dict_keys :: "('k, 'v) dict \<Rightarrow> 'k list" where
  "dict_keys d = map fst d"

definition dict_eq :: "('k, 'v) dict \<Rightarrow> ('k, 'v) dict \<Rightarrow> bool" where
  "dict_eq a b \<longleftrightarrow> length a = length b \<and> (\<forall>(k, v) \<in> set a. map_of b k = Some v)"

definition dict_get :: "('k, 'v) dict \<Rightarrow> 'k \<Rightarrow> 'v result" where
  "dict_get d k = (case map_of d k of None \<Rightarrow> Inl KeyError | Some v \<Rightarrow> Inr v)"

lemma dict_get_Inr [simp, table_simps]: "dict_get d k = Inr v \<longleftrightarrow> map_of d k = Some v"
  by (auto simp: dict_get_def split: option.splits)

lemma update_fresh: "k \<notin> fst ` set d \<Longrightarrow> AList.update k v d = d @ [(k, v)]"
  by (induction d) auto

lemma fold_update_distinct:
  "distinct (map key vs) \<Longrightarrow> fst ` set d \<inter> key ` set vs = {} \<Longrightarrow>
   fold (\<lambda>v d. AList.update (key v) v d) vs d = d @ map (\<lambda>v. (key v, v)) vs"
  by (induction vs arbitrary: d) (auto simp: update_fresh)

lemma dict_of_distinct:
  "distinct (map key vs) \<Longrightarrow> dict_of key vs = map (\<lambda>v. (key v, v)) vs"
  by (simp add: dict_of_def fold_update_distinct)

lemma keys_fold_update:
  "distinct (map fst d) \<Longrightarrow>
   distinct (map fst (fold (\<lambda>v d. AList.update (key v) v d) vs d)) \<and>
   fst ` set (fold (\<lambda>v d. AList.update (key v) v d) vs d) = fst ` set d \<union> key ` set vs"
proof (induction vs arbitrary: d)
  case Nil
  then show ?case by simp
next
  case (Cons v vs)
  have "distinct (map fst (AList.update (key v) v d))"
    using Cons.prems by (rule distinct_update)
  moreover have "fst ` set (AList.update (key v) v d) = insert (key v) (fst ` set d)"
    using dom_update [of "key v" v d] by auto
  ultimately show ?case using Cons.IH by auto
qed

lemma distinct_dict_of: "distinct (map fst (dict_of key vs))"
  by (simp add: dict_of_def keys_fold_update)

lemma keys_dict_of: "fst ` set (dict_of key vs) = key ` set vs"
  by (simp add: dict_of_def keys_fold_update)

text \<open>The test \<open>len(result) != len(values)\<close> of the code detects a repeated key.\<close>

lemma length_dict_of: "length (dict_of key vs) = length vs \<longleftrightarrow> distinct (map key vs)"
proof
  assume "length (dict_of key vs) = length vs"
  moreover have "length (dict_of key vs) = card (key ` set vs)"
    using distinct_card [OF distinct_dict_of] keys_dict_of by (metis length_map set_map)
  ultimately have "card (set (map key vs)) = length (map key vs)" by simp
  then show "distinct (map key vs)" by (rule card_distinct)
next
  assume "distinct (map key vs)"
  then show "length (dict_of key vs) = length vs" by (simp add: dict_of_distinct)
qed

lemma map_of_keyed:
  "distinct (map key vs) \<Longrightarrow> v \<in> set vs \<Longrightarrow> map_of (map (\<lambda>v. (key v, v)) vs) (key v) = Some v"
  by (induction vs) (auto simp: rev_image_eqI)

lemma map_of_keyed_Some:
  "map_of (map (\<lambda>v. (key v, v)) vs) k = Some v \<Longrightarrow> v \<in> set vs \<and> key v = k"
  by (induction vs) (auto split: if_splits)

text \<open>On dictionaries built from lists with distinct keys, equality ignores the order.\<close>

lemma dict_eq_keyed:
  assumes a: "distinct (map key xs)" and b: "distinct (map key ys)"
  shows "dict_eq (map (\<lambda>v. (key v, v)) xs) (map (\<lambda>v. (key v, v)) ys) \<longleftrightarrow> set xs = set ys"
proof
  assume eq: "dict_eq (map (\<lambda>v. (key v, v)) xs) (map (\<lambda>v. (key v, v)) ys)"
  then have sub: "set xs \<subseteq> set ys"
    by (auto simp: dict_eq_def dest: map_of_keyed_Some)
  have "card (set xs) = card (set ys)"
    using eq a b by (simp add: dict_eq_def distinct_card distinct_map)
  with sub show "set xs = set ys" by (simp add: card_subset_eq)
next
  assume same: "set xs = set ys"
  then have "length xs = length ys"
    using a b by (metis distinct_card distinct_map)
  with same b show "dict_eq (map (\<lambda>v. (key v, v)) xs) (map (\<lambda>v. (key v, v)) ys)"
    by (auto simp: dict_eq_def map_of_keyed)
qed

section \<open>Lists\<close>

lemma list_all2_map_eq: "list_all2 (\<lambda>x y. f x = g y) xs ys \<longleftrightarrow> map f xs = map g ys"
  by (induction xs arbitrary: ys) (auto simp: list_all2_Cons1 Cons_eq_map_conv)

lemma list_all2_set2: "list_all2 P xs ys \<Longrightarrow> y \<in> set ys \<Longrightarrow> \<exists>x \<in> set xs. P x y"
  by (induction rule: list_all2_induct) auto

lemma list_all2_map_map:
  "list_all2 P xs ys \<Longrightarrow> (\<And>x y. P x y \<Longrightarrow> f x = g y) \<Longrightarrow> map f xs = map g ys"
  by (induction rule: list_all2_induct) auto

lemma distinct_concat_map_eq:
  "distinct (concat (map f xs)) \<Longrightarrow> x \<in> set xs \<Longrightarrow> distinct (f x)"
  by (auto simp: distinct_concat_iff)

end
