(* ===== verification/Interactions.thy ===== *)
theory Interactions
  imports Prelude
begin

text \<open>
  The human-in-the-loop rules of \<open>src/kokoro_agent/domain/run/interactions.py\<close>: a run
  pauses on a full set of pending items, one submission answers all of them, the accepted
  intent is dispatched under one attempt, and the pause is reconciled or the run ends.
  Every dataclass is a record; its \<open>__post_init__\<close> is a \<open>_check\<close> definition that returns
  the exception it raises, and \<open>_ok\<close> says that an object and everything inside it passed
  its constructor. The five transitions of \<open>InteractionState\<close> return a new state or the
  exception. Decision kinds and issue codes stay strings because the code validates them at run
  time; the tests \<open>type(x) is ...\<close> are the types of the fields.
\<close>

section \<open>Data and constructors\<close>

datatype phase = PhaseActive | PhaseWaiting | PhaseResuming | PhaseTerminal

datatype intent_status =
    Accepted | DispatchStarted | NativeObserved | UnknownStatus | Reconciled | TerminalIntent

definition decisions_vocabulary :: "string list" where
  "decisions_vocabulary = [''approve'', ''edit'', ''reject'', ''respond'', ''submit'']"

definition text_check :: "string \<Rightarrow> exn option" where
  "text_check value = fail_if (value = []) (ValueError ''expected nonempty identity'')"

definition revision_check :: "int \<Rightarrow> int \<Rightarrow> exn option" where
  "revision_check value minimum = fail_if (value < minimum) (ValueError ''invalid revision'')"

definition tuple_check :: "'a list \<Rightarrow> bool \<Rightarrow> exn option" where
  "tuple_check value nonempty =
     fail_if (nonempty \<and> value = []) (ValueError ''invalid collection'')"

datatype path_part = PathStr string | PathInt int

record validation_issue =
  vi_instance_path :: "path_part list"
  vi_code :: string

definition validation_issue_check :: "validation_issue \<Rightarrow> exn option" where
  "validation_issue_check v = first_error
     [fail_if (vi_code v \<noteq> ''json_schema_invalid'') (ValueError ''invalid validation issue''),
      fail_if (list_ex (\<lambda>part. case part of PathStr _ \<Rightarrow> False | PathInt i \<Rightarrow> i < 0)
                 (vi_instance_path v))
        (ValueError ''invalid instance path'')]"

record pending_item =
  pi_item_id :: string
  pi_request_id :: string
  pi_allowed_decisions :: "string list"
  pi_validation :: "validation_issue option"

definition pending_item_check :: "pending_item \<Rightarrow> exn option" where
  "pending_item_check i = first_error
     [text_check (pi_item_id i),
      text_check (pi_request_id i),
      tuple_check (pi_allowed_decisions i) True,
      fail_if (\<not> distinct (pi_allowed_decisions i)
               \<or> list_ex (\<lambda>kind. \<not> List.member decisions_vocabulary kind) (pi_allowed_decisions i))
        (ValueError ''invalid allowed decisions'')]"

record pending_group =
  pg_group_id :: string
  pg_items :: "pending_item list"

definition pending_group_check :: "pending_group \<Rightarrow> exn option" where
  "pending_group_check g = first_error
     [text_check (pg_group_id g),
      tuple_check (pg_items g) True,
      fail_if (\<not> distinct (map pi_item_id (pg_items g))) (ValueError ''duplicate pending item'')]"

record decision =
  d_item_id :: string
  d_kind :: string
  d_payload :: bytes

definition decision_check :: "decision \<Rightarrow> exn option" where
  "decision_check d = first_error
     [text_check (d_item_id d),
      fail_if (\<not> List.member decisions_vocabulary (d_kind d)) (ValueError ''invalid decision'')]"

record submission =
  sub_command_id :: string
  sub_pause_revision :: int
  sub_pause_ref :: string
  sub_decisions :: "decision list"

definition submission_check :: "submission \<Rightarrow> exn option" where
  "submission_check s = first_error
     [text_check (sub_command_id s),
      text_check (sub_pause_ref s),
      revision_check (sub_pause_revision s) 1,
      tuple_check (sub_decisions s) False]"

record decision_group =
  dg_group_id :: string
  dg_decisions :: "decision list"

definition decision_group_check :: "decision_group \<Rightarrow> exn option" where
  "decision_group_check g = first_error
     [text_check (dg_group_id g),
      tuple_check (dg_decisions g) True,
      fail_if (\<not> distinct (map d_item_id (dg_decisions g))) (ValueError ''duplicate decision'')]"

definition decision_map :: "decision list \<Rightarrow> (string, decision) dict result" where
  "decision_map ds =
     (let result = dict_of d_item_id ds
      in if length result \<noteq> length ds then Inl (InteractionConflict ''duplicate_decision'')
         else Inr result)"

record resume_intent =
  ri_command_id :: string
  ri_pause_revision :: int
  ri_pause_ref :: string
  ri_groups :: "decision_group list"
  ri_status :: intent_status
  ri_attempt_id :: "string option"

definition all_decisions :: "decision_group list \<Rightarrow> decision list" where
  "all_decisions gs = concat (map dg_decisions gs)"

definition resume_intent_check :: "resume_intent \<Rightarrow> exn option" where
  "resume_intent_check r = first_error
     [text_check (ri_command_id r),
      text_check (ri_pause_ref r),
      revision_check (ri_pause_revision r) 1,
      tuple_check (ri_groups r) True,
      fail_if (\<not> distinct (map dg_group_id (ri_groups r))) (ValueError ''duplicate decision group''),
      (case decision_map (all_decisions (ri_groups r)) of Inl e \<Rightarrow> Some e | Inr _ \<Rightarrow> None),
      (case ri_attempt_id r of None \<Rightarrow> None | Some a \<Rightarrow> text_check a),
      fail_if (ri_status r = Accepted \<and> ri_attempt_id r \<noteq> None)
        (ValueError ''accepted intent already dispatched''),
      fail_if (ri_status r \<in> {DispatchStarted, NativeObserved, UnknownStatus, Reconciled}
               \<and> ri_attempt_id r = None)
        (ValueError ''missing dispatch attempt'')]"

definition can_dispatch :: "resume_intent \<Rightarrow> bool" where
  "can_dispatch r \<longleftrightarrow> ri_status r = Accepted"

text \<open>\<open>verify_replay\<close>: unit if the submission repeats this intent, a conflict otherwise.\<close>

definition verify_replay :: "resume_intent \<Rightarrow> submission \<Rightarrow> unit result" where
  "verify_replay r s =
     (if (sub_command_id s, sub_pause_revision s, sub_pause_ref s)
           \<noteq> (ri_command_id r, ri_pause_revision r, ri_pause_ref r)
      then Inl (InteractionConflict ''command_conflict'')
      else case decision_map (sub_decisions s) of
        Inl _ \<Rightarrow> Inl (InteractionConflict ''command_conflict'')
      | Inr incoming \<Rightarrow>
          if \<not> dict_eq incoming (dict_of d_item_id (all_decisions (ri_groups r)))
          then Inl (InteractionConflict ''command_conflict'')
          else Inr ())"

record interaction_state =
  interaction_revision :: int
  pause_revision :: int
  pause_ref :: "string option"
  phase :: phase
  groups :: "pending_group list"
  intent :: "resume_intent option"

definition initial_interaction :: interaction_state where
  "initial_interaction = \<lparr>interaction_revision = 0, pause_revision = 0, pause_ref = None,
     phase = PhaseActive, groups = [], intent = None\<rparr>"

definition all_items :: "pending_group list \<Rightarrow> pending_item list" where
  "all_items gs = concat (map pg_items gs)"

text \<open>
  The two halves of the intent checks: an unresolved intent in phase \<open>resuming\<close> answers
  exactly the pending set, in order, with allowed kinds; in any other phase the intent is
  settled.
\<close>

definition resuming_check :: "interaction_state \<Rightarrow> exn option" where
  "resuming_check s =
     (if interaction_revision s \<le> pause_revision s
      then Some (ValueError ''resuming requires accepted revision'')
      else case intent s of
        None \<Rightarrow> Some (ValueError ''resuming requires unresolved intent'')
      | Some i \<Rightarrow> first_error
          [fail_if (ri_status i \<notin> {Accepted, DispatchStarted, NativeObserved, UnknownStatus})
             (ValueError ''resuming requires unresolved intent''),
           fail_if ((ri_pause_revision i, Some (ri_pause_ref i)) \<noteq> (pause_revision s, pause_ref s))
             (ValueError ''intent and pause disagree''),
           fail_if (map (\<lambda>g. (pg_group_id g, map pi_item_id (pg_items g))) (groups s)
                    \<noteq> map (\<lambda>g. (dg_group_id g, map d_item_id (dg_decisions g))) (ri_groups i))
             (ValueError ''intent and pending collection disagree''),
           fail_if (list_ex (\<lambda>(grp, decided).
                      list_ex (\<lambda>(item, d). \<not> List.member (pi_allowed_decisions item) (d_kind d))
                        (zip (pg_items grp) (dg_decisions decided)))
                      (zip (groups s) (ri_groups i)))
             (ValueError ''intent decision not allowed'')])"

definition settled_check :: "interaction_state \<Rightarrow> resume_intent \<Rightarrow> exn option" where
  "settled_check s i = first_error
     [fail_if (ri_status i \<noteq> (if phase s = PhaseTerminal then TerminalIntent else Reconciled))
        (ValueError ''intent and phase disagree''),
      fail_if (phase s = PhaseWaiting \<and> pause_revision s \<le> ri_pause_revision i)
        (ValueError ''reconciled intent must precede new pause'')]"

definition interaction_state_check :: "interaction_state \<Rightarrow> exn option" where
  "interaction_state_check s = first_error
     [revision_check (interaction_revision s) 0,
      revision_check (pause_revision s) 0,
      fail_if (interaction_revision s < pause_revision s) (ValueError ''invalid interaction state''),
      tuple_check (groups s) False,
      (case pause_ref s of None \<Rightarrow> None | Some p \<Rightarrow> text_check p),
      fail_if ((pause_revision s = 0) \<noteq> (pause_ref s = None)) (ValueError ''pause identity mismatch''),
      fail_if ((groups s \<noteq> []) \<noteq> (phase s \<in> {PhaseWaiting, PhaseResuming}))
        (ValueError ''phase and collection disagree''),
      fail_if (groups s \<noteq> [] \<and> pause_ref s = None) (ValueError ''missing pause identity''),
      fail_if (\<not> distinct (map pg_group_id (groups s))
               \<or> \<not> distinct (map pi_item_id (all_items (groups s))))
        (ValueError ''duplicate pending identity''),
      (case intent s of None \<Rightarrow> None | Some i \<Rightarrow>
         first_error
          [fail_if (pause_revision s < ri_pause_revision i)
             (ValueError ''intent references future pause''),
           fail_if (ri_pause_revision i = pause_revision s \<and> Some (ri_pause_ref i) \<noteq> pause_ref s)
             (ValueError ''intent pause identity mismatch'')]),
      (if phase s = PhaseResuming then resuming_check s
       else case intent s of None \<Rightarrow> None | Some i \<Rightarrow> settled_check s i)]"

section \<open>Transitions\<close>

definition pause :: "interaction_state \<Rightarrow> string \<Rightarrow> pending_group list \<Rightarrow> interaction_state result" where
  "pause s new_ref new_groups =
     (if phase s = PhaseTerminal then Inr s
      else if phase s = PhaseWaiting then
        (if (Some new_ref, new_groups) = (pause_ref s, groups s) then Inr s
         else Inl (InteractionConflict ''pause_conflict''))
      else bind_r
        (if phase s = PhaseResuming then
           (case intent s of
              None \<Rightarrow> Inl (InteractionConflict ''pause_conflict'')
            | Some i \<Rightarrow>
                if ri_status i \<notin> {DispatchStarted, NativeObserved, UnknownStatus}
                   \<or> Some new_ref = pause_ref s
                then Inl (InteractionConflict ''pause_conflict'')
                else bind_r (construct resume_intent_check (i\<lparr>ri_status := Reconciled\<rparr>))
                       (\<lambda>i'. Inr (Some i')))
         else Inr (intent s))
        (\<lambda>new_intent. construct interaction_state_check
           \<lparr>interaction_revision = interaction_revision s + 1,
            pause_revision = pause_revision s + 1,
            pause_ref = Some new_ref, phase = PhaseWaiting,
            groups = new_groups, intent = new_intent\<rparr>))"

text \<open>One group of \<open>accept\<close>'s loop: order the decisions by the pending items and check them.\<close>

definition normalize_group :: "(string, decision) dict \<Rightarrow> pending_group \<Rightarrow> decision_group result" where
  "normalize_group decisions grp =
     bind_r (traverse (\<lambda>item. dict_get decisions (pi_item_id item)) (pg_items grp))
       (\<lambda>ordered.
          if list_ex (\<lambda>(item, d). \<not> List.member (pi_allowed_decisions item) (d_kind d))
               (zip (pg_items grp) ordered)
          then Inl (InteractionConflict ''decision_not_allowed'')
          else construct decision_group_check
                 \<lparr>dg_group_id = pg_group_id grp, dg_decisions = ordered\<rparr>)"

definition accept :: "interaction_state \<Rightarrow> submission \<Rightarrow> interaction_state result" where
  "accept s sub =
     (if (case intent s of None \<Rightarrow> False | Some i \<Rightarrow> ri_command_id i = sub_command_id sub)
      then (case intent s of None \<Rightarrow> Inr s
            | Some i \<Rightarrow> bind_r (verify_replay i sub) (\<lambda>_. Inr s))
      else if phase s \<noteq> PhaseWaiting then Inl (InteractionConflict ''not_waiting'')
      else if (sub_pause_revision sub, Some (sub_pause_ref sub)) \<noteq> (pause_revision s, pause_ref s)
      then Inl (InteractionConflict ''stale_pause'')
      else bind_r (decision_map (sub_decisions sub)) (\<lambda>decisions.
        if set (dict_keys decisions) \<noteq> set (map pi_item_id (all_items (groups s)))
        then Inl (InteractionConflict ''incomplete_collection'')
        else bind_r (traverse (normalize_group decisions) (groups s)) (\<lambda>normalized.
          bind_r (construct resume_intent_check
             \<lparr>ri_command_id = sub_command_id sub, ri_pause_revision = sub_pause_revision sub,
              ri_pause_ref = sub_pause_ref sub, ri_groups = normalized,
              ri_status = Accepted, ri_attempt_id = None\<rparr>) (\<lambda>new_intent.
            construct interaction_state_check
              (s\<lparr>phase := PhaseResuming,
                 interaction_revision := interaction_revision s + 1,
                 intent := Some new_intent\<rparr>)))))"

definition unresolved :: "interaction_state \<Rightarrow> string \<Rightarrow> resume_intent result" where
  "unresolved s command_id =
     (case intent s of
        None \<Rightarrow> Inl (InteractionConflict ''intent_conflict'')
      | Some i \<Rightarrow>
          if phase s \<noteq> PhaseResuming \<or> ri_command_id i \<noteq> command_id
          then Inl (InteractionConflict ''intent_conflict'')
          else Inr i)"

definition start :: "interaction_state \<Rightarrow> string \<Rightarrow> string \<Rightarrow> interaction_state result" where
  "start s command_id attempt_id =
     (case text_check attempt_id of Some e \<Rightarrow> Inl e | None \<Rightarrow>
      bind_r (unresolved s command_id) (\<lambda>i.
        if ri_status i = DispatchStarted \<and> ri_attempt_id i = Some attempt_id then Inr s
        else if \<not> can_dispatch i then Inl (InteractionConflict ''dispatch_forbidden'')
        else bind_r (construct resume_intent_check
               (i\<lparr>ri_status := DispatchStarted, ri_attempt_id := Some attempt_id\<rparr>)) (\<lambda>i'.
          construct interaction_state_check (s\<lparr>intent := Some i'\<rparr>))))"

definition unknown :: "interaction_state \<Rightarrow> string \<Rightarrow> interaction_state result" where
  "unknown s command_id =
     (if phase s = PhaseTerminal then Inr s
      else bind_r (unresolved s command_id) (\<lambda>i.
        if ri_status i = UnknownStatus then Inr s
        else if ri_status i \<noteq> DispatchStarted then Inl (InteractionConflict ''not_dispatched'')
        else bind_r (construct resume_intent_check (i\<lparr>ri_status := UnknownStatus\<rparr>)) (\<lambda>i'.
          construct interaction_state_check (s\<lparr>intent := Some i'\<rparr>))))"

definition terminal :: "interaction_state \<Rightarrow> interaction_state result" where
  "terminal s =
     (if phase s = PhaseTerminal then Inr s
      else bind_r
        (case intent s of None \<Rightarrow> Inr None
         | Some i \<Rightarrow> bind_r (construct resume_intent_check (i\<lparr>ri_status := TerminalIntent\<rparr>))
                      (\<lambda>i'. Inr (Some i')))
        (\<lambda>new_intent. construct interaction_state_check
           (s\<lparr>phase := PhaseTerminal, groups := [], intent := new_intent,
              interaction_revision := interaction_revision s + 1\<rparr>)))"

section \<open>Well-formed objects\<close>

definition pending_item_ok :: "pending_item \<Rightarrow> bool" where
  "pending_item_ok i \<longleftrightarrow> pending_item_check i = None
     \<and> (case pi_validation i of None \<Rightarrow> True | Some v \<Rightarrow> validation_issue_check v = None)"

definition pending_group_ok :: "pending_group \<Rightarrow> bool" where
  "pending_group_ok g \<longleftrightarrow> pending_group_check g = None \<and> list_all pending_item_ok (pg_items g)"

definition decision_ok :: "decision \<Rightarrow> bool" where
  "decision_ok d \<longleftrightarrow> decision_check d = None"

definition submission_ok :: "submission \<Rightarrow> bool" where
  "submission_ok s \<longleftrightarrow> submission_check s = None \<and> list_all decision_ok (sub_decisions s)"

definition decision_group_ok :: "decision_group \<Rightarrow> bool" where
  "decision_group_ok g \<longleftrightarrow> decision_group_check g = None \<and> list_all decision_ok (dg_decisions g)"

definition resume_intent_ok :: "resume_intent \<Rightarrow> bool" where
  "resume_intent_ok r \<longleftrightarrow> resume_intent_check r = None \<and> list_all decision_group_ok (ri_groups r)"

definition interaction_state_ok :: "interaction_state \<Rightarrow> bool" where
  "interaction_state_ok s \<longleftrightarrow> interaction_state_check s = None
     \<and> list_all pending_group_ok (groups s)
     \<and> (case intent s of None \<Rightarrow> True | Some i \<Rightarrow> resume_intent_ok i)"


section \<open>Facts shared by the proofs\<close>

lemmas base_checks = text_check_def revision_check_def tuple_check_def

lemmas ok_defs = pending_group_ok_def decision_ok_def submission_ok_def decision_group_ok_def
  resume_intent_ok_def interaction_state_ok_def

lemma decision_map_Inr [table_simps]:
  "decision_map ds = Inr m \<longleftrightarrow>
     distinct (map d_item_id ds) \<and> m = map (\<lambda>d. (d_item_id d, d)) ds"
  by (auto simp: decision_map_def Let_def length_dict_of dict_of_distinct)

lemma decision_map_Inl [table_simps]:
  "decision_map ds = Inl e \<longleftrightarrow>
     \<not> distinct (map d_item_id ds) \<and> e = InteractionConflict ''duplicate_decision''"
  by (auto simp: decision_map_def Let_def length_dict_of)

lemma resume_intent_ok_iff:
  "resume_intent_ok r \<longleftrightarrow>
     ri_command_id r \<noteq> [] \<and> ri_pause_ref r \<noteq> [] \<and> 1 \<le> ri_pause_revision r \<and> ri_groups r \<noteq> []
     \<and> distinct (map dg_group_id (ri_groups r))
     \<and> distinct (map d_item_id (all_decisions (ri_groups r)))
     \<and> ri_attempt_id r \<noteq> Some []
     \<and> (ri_status r = Accepted \<longrightarrow> ri_attempt_id r = None)
     \<and> (ri_status r \<in> {DispatchStarted, NativeObserved, UnknownStatus, Reconciled}
          \<longrightarrow> ri_attempt_id r \<noteq> None)
     \<and> list_all decision_group_ok (ri_groups r)"
  by (auto simp: resume_intent_ok_def resume_intent_check_def base_checks decision_map_Inl decision_map_Inr
      split: option.splits sum.splits)

lemma resume_intent_check_iff:
  "list_all decision_group_ok (ri_groups r) \<Longrightarrow> resume_intent_check r = None \<longleftrightarrow> resume_intent_ok r"
  by (simp add: resume_intent_ok_def)

lemma interaction_state_check_iff:
  "list_all pending_group_ok (groups s) \<Longrightarrow> (\<And>i. intent s = Some i \<Longrightarrow> resume_intent_ok i) \<Longrightarrow>
   interaction_state_check s = None \<longleftrightarrow> interaction_state_ok s"
  by (auto simp: interaction_state_ok_def split: option.splits)

text \<open>The state invariant, clause by clause.\<close>

lemma interaction_state_ok_iff:
  "interaction_state_ok s \<longleftrightarrow>
     0 \<le> pause_revision s \<and> pause_revision s \<le> interaction_revision s
     \<and> pause_ref s \<noteq> Some [] \<and> (pause_revision s = 0 \<longleftrightarrow> pause_ref s = None)
     \<and> (groups s \<noteq> [] \<longleftrightarrow> phase s \<in> {PhaseWaiting, PhaseResuming})
     \<and> (groups s \<noteq> [] \<longrightarrow> pause_ref s \<noteq> None)
     \<and> distinct (map pg_group_id (groups s)) \<and> distinct (map pi_item_id (all_items (groups s)))
     \<and> (\<forall>i. intent s = Some i \<longrightarrow> ri_pause_revision i \<le> pause_revision s
           \<and> (ri_pause_revision i = pause_revision s \<longrightarrow> Some (ri_pause_ref i) = pause_ref s))
     \<and> (phase s = PhaseResuming \<longrightarrow> resuming_check s = None)
     \<and> (phase s \<noteq> PhaseResuming \<longrightarrow> (\<forall>i. intent s = Some i \<longrightarrow> settled_check s i = None))
     \<and> list_all pending_group_ok (groups s)
     \<and> (\<forall>i. intent s = Some i \<longrightarrow> resume_intent_ok i)"
  by (auto simp: interaction_state_ok_def interaction_state_check_def base_checks
      split: option.splits)

lemma ok_facts:
  assumes "interaction_state_ok s"
  shows "0 \<le> pause_revision s" and "pause_revision s \<le> interaction_revision s"
    and "pause_ref s \<noteq> Some []" and "pause_revision s = 0 \<longleftrightarrow> pause_ref s = None"
    and "groups s \<noteq> [] \<longleftrightarrow> phase s \<in> {PhaseWaiting, PhaseResuming}"
    and "distinct (map pg_group_id (groups s))" and "distinct (map pi_item_id (all_items (groups s)))"
    and "list_all pending_group_ok (groups s)"
    and "phase s \<in> {PhaseWaiting, PhaseResuming} \<Longrightarrow> pause_ref s \<noteq> None"
    and "phase s = PhaseResuming \<Longrightarrow> resuming_check s = None"
  using assms unfolding interaction_state_ok_iff by blast+

lemma ok_intent_facts:
  assumes "interaction_state_ok s" and "intent s = Some i"
  shows "ri_pause_revision i \<le> pause_revision s"
    and "ri_pause_revision i = pause_revision s \<Longrightarrow> pause_ref s = Some (ri_pause_ref i)"
    and "resume_intent_ok i"
    and "phase s \<noteq> PhaseResuming \<Longrightarrow> settled_check s i = None"
  using assms unfolding interaction_state_ok_iff by (metis)+

lemma interaction_state_okI:
  assumes "0 \<le> pause_revision s" and "pause_revision s \<le> interaction_revision s"
    and "pause_ref s \<noteq> Some []" and "pause_revision s = 0 \<longleftrightarrow> pause_ref s = None"
    and "groups s \<noteq> [] \<longleftrightarrow> phase s \<in> {PhaseWaiting, PhaseResuming}"
    and "distinct (map pg_group_id (groups s))" and "distinct (map pi_item_id (all_items (groups s)))"
    and "list_all pending_group_ok (groups s)"
    and "groups s \<noteq> [] \<Longrightarrow> pause_ref s \<noteq> None"
    and "phase s = PhaseResuming \<Longrightarrow> resuming_check s = None"
    and "\<And>i. intent s = Some i \<Longrightarrow> ri_pause_revision i \<le> pause_revision s
           \<and> (ri_pause_revision i = pause_revision s \<longrightarrow> pause_ref s = Some (ri_pause_ref i))
           \<and> resume_intent_ok i \<and> (phase s \<noteq> PhaseResuming \<longrightarrow> settled_check s i = None)"
  shows "interaction_state_ok s"
  unfolding interaction_state_ok_iff using assms by simp

lemma resuming_check_iff:
  "resuming_check s = None \<longleftrightarrow>
     pause_revision s < interaction_revision s \<and>
     (\<exists>i. intent s = Some i
        \<and> ri_status i \<in> {Accepted, DispatchStarted, NativeObserved, UnknownStatus}
        \<and> ri_pause_revision i = pause_revision s \<and> Some (ri_pause_ref i) = pause_ref s
        \<and> map (\<lambda>g. (pg_group_id g, map pi_item_id (pg_items g))) (groups s)
            = map (\<lambda>g. (dg_group_id g, map d_item_id (dg_decisions g))) (ri_groups i)
        \<and> (\<forall>(grp, decided) \<in> set (zip (groups s) (ri_groups i)).
             \<forall>(item, d) \<in> set (zip (pg_items grp) (dg_decisions decided)).
               d_kind d \<in> set (pi_allowed_decisions item)))"
  by (auto simp: resuming_check_def list_ex_iff case_prod_beta not_less split: option.splits)

lemma settled_check_iff:
  "settled_check s i = None \<longleftrightarrow>
     ri_status i = (if phase s = PhaseTerminal then TerminalIntent else Reconciled)
     \<and> (phase s = PhaseWaiting \<longrightarrow> ri_pause_revision i < pause_revision s)"
  by (auto simp: settled_check_def not_le)


section \<open>The transitions as one step function\<close>

datatype hitl_event =
    EvPause string "pending_group list"
  | EvAccept submission
  | EvStart string string
  | EvUnknown string
  | EvTerminal

fun hitl_apply :: "interaction_state \<Rightarrow> hitl_event \<Rightarrow> interaction_state result" where
  "hitl_apply s (EvPause r gs) = pause s r gs"
| "hitl_apply s (EvAccept sub) = accept s sub"
| "hitl_apply s (EvStart c a) = start s c a"
| "hitl_apply s (EvUnknown c) = unknown s c"
| "hitl_apply s EvTerminal = terminal s"

text \<open>The arguments of a call are objects that passed their own constructors.\<close>

fun hitl_event_ok :: "hitl_event \<Rightarrow> bool" where
  "hitl_event_ok (EvPause r gs) \<longleftrightarrow> list_all pending_group_ok gs"
| "hitl_event_ok (EvAccept sub) \<longleftrightarrow> submission_ok sub"
| "hitl_event_ok (EvStart c a) \<longleftrightarrow> True"
| "hitl_event_ok (EvUnknown c) \<longleftrightarrow> True"
| "hitl_event_ok EvTerminal \<longleftrightarrow> True"

text \<open>A failed call leaves the caller with the state it had.\<close>

definition hitl_exec :: "interaction_state \<Rightarrow> hitl_event \<Rightarrow> interaction_state" where
  "hitl_exec s e = (case hitl_apply s e of Inl _ \<Rightarrow> s | Inr s' \<Rightarrow> s')"

definition hitl_run :: "interaction_state \<Rightarrow> hitl_event list \<Rightarrow> interaction_state" where
  "hitl_run s es = fold (\<lambda>e s. hitl_exec s e) es s"

lemma hitl_run_simps [simp]:
  "hitl_run s [] = s"
  "hitl_run s (e # es) = hitl_run (hitl_exec s e) es"
  by (simp_all add: hitl_run_def)

section \<open>Every transition keeps the invariant\<close>

lemma construct_state_ok:
  "construct interaction_state_check t = Inr s' \<Longrightarrow> list_all pending_group_ok (groups t) \<Longrightarrow>
   (\<And>i. intent t = Some i \<Longrightarrow> resume_intent_ok i) \<Longrightarrow> interaction_state_ok s'"
  using interaction_state_check_iff by fastforce

lemma ok_groups: "interaction_state_ok s \<Longrightarrow> list_all pending_group_ok (groups s)"
  by (simp add: interaction_state_ok_iff)

lemma ok_intent: "interaction_state_ok s \<Longrightarrow> intent s = Some i \<Longrightarrow> resume_intent_ok i"
  by (simp add: interaction_state_ok_iff)

lemma ok_intent_groups:
  "interaction_state_ok s \<Longrightarrow> intent s = Some i \<Longrightarrow> list_all decision_group_ok (ri_groups i)"
  using ok_intent by (simp add: resume_intent_ok_def)

lemma construct_intent_ok:
  "construct resume_intent_check r = Inr i \<Longrightarrow> list_all decision_group_ok (ri_groups r) \<Longrightarrow>
   resume_intent_ok i \<and> i = r"
  using resume_intent_check_iff by fastforce

lemma unresolved_Inr:
  "unresolved s c = Inr i \<longleftrightarrow> intent s = Some i \<and> phase s = PhaseResuming \<and> ri_command_id i = c"
  by (auto simp: unresolved_def split: option.splits)

lemma pause_keeps_ok:
  assumes ok: "interaction_state_ok s" and gs: "list_all pending_group_ok gs"
    and run: "pause s r gs = Inr s'"
  shows "interaction_state_ok s'"
proof (cases "phase s \<in> {PhaseTerminal, PhaseWaiting}")
  case True
  with ok run show ?thesis by (auto simp: pause_def split: if_splits)
next
  case False
  with run obtain ni where
    ni: "(if phase s = PhaseResuming then
           (case intent s of
              None \<Rightarrow> Inl (InteractionConflict ''pause_conflict'')
            | Some i \<Rightarrow>
                if ri_status i \<notin> {DispatchStarted, NativeObserved, UnknownStatus}
                   \<or> Some r = pause_ref s
                then Inl (InteractionConflict ''pause_conflict'')
                else bind_r (construct resume_intent_check (i\<lparr>ri_status := Reconciled\<rparr>))
                       (\<lambda>i'. Inr (Some i')))
         else Inr (intent s)) = Inr ni"
    and st: "construct interaction_state_check
           \<lparr>interaction_revision = interaction_revision s + 1,
            pause_revision = pause_revision s + 1,
            pause_ref = Some r, phase = PhaseWaiting,
            groups = gs, intent = ni\<rparr> = Inr s'"
    unfolding pause_def by auto
  have "\<And>i. ni = Some i \<Longrightarrow> resume_intent_ok i"
    using ni ok_intent [OF ok] ok_intent_groups [OF ok]
    by (auto simp: resume_intent_ok_def split: if_splits option.splits)
  with st gs show ?thesis by (auto intro: construct_state_ok)
qed

lemma dict_get_decision_ok:
  "decision_map ds = Inr m \<Longrightarrow> list_all decision_ok ds \<Longrightarrow> dict_get m k = Inr d \<Longrightarrow>
   decision_ok d \<and> d_item_id d = k \<and> d \<in> set ds"
  by (auto simp: decision_map_Inr list_all_iff dest: map_of_keyed_Some)

lemma normalize_group_Inr:
  assumes m: "decision_map ds = Inr m" and ds: "list_all decision_ok ds"
    and n: "normalize_group m grp = Inr dg"
  shows "decision_group_ok dg \<and> dg_group_id dg = pg_group_id grp
    \<and> map d_item_id (dg_decisions dg) = map pi_item_id (pg_items grp)
    \<and> set (dg_decisions dg) \<subseteq> set ds
    \<and> (\<forall>(item, d) \<in> set (zip (pg_items grp) (dg_decisions dg)).
          d_kind d \<in> set (pi_allowed_decisions item))"
proof -
  from n obtain ordered where
    ord: "list_all2 (\<lambda>item d. dict_get m (pi_item_id item) = Inr d) (pg_items grp) ordered"
    and kinds: "\<forall>(item, d) \<in> set (zip (pg_items grp) ordered). d_kind d \<in> set (pi_allowed_decisions item)"
    and dg: "dg = \<lparr>dg_group_id = pg_group_id grp, dg_decisions = ordered\<rparr>"
    and chk: "decision_group_check dg = None"
    unfolding normalize_group_def by (auto simp: traverse_Inr list_ex_iff split: if_splits)
  have "list_all2 (\<lambda>item d. pi_item_id item = d_item_id d \<and> decision_ok d \<and> d \<in> set ds)
      (pg_items grp) ordered"
    using ord by (rule list_all2_mono) (use dict_get_decision_ok [OF m ds] in metis)
  then have "map d_item_id ordered = map pi_item_id (pg_items grp)"
    and "\<forall>d \<in> set ordered. decision_ok d \<and> d \<in> set ds"
    by (auto simp: list_all2_conv_all_nth in_set_conv_nth intro!: nth_equalityI)
  with dg chk kinds show ?thesis by (auto simp: decision_group_ok_def list_all_iff)
qed

lemma accept_new_cases:
  assumes "accept s sub = Inr s'"
    and "\<And>i. intent s = Some i \<Longrightarrow> ri_command_id i \<noteq> sub_command_id sub"
  obtains m normalized ni where "phase s = PhaseWaiting"
    and "sub_pause_revision sub = pause_revision s" and "pause_ref s = Some (sub_pause_ref sub)"
    and "decision_map (sub_decisions sub) = Inr m"
    and "set (map d_item_id (sub_decisions sub)) = set (map pi_item_id (all_items (groups s)))"
    and "traverse (normalize_group m) (groups s) = Inr normalized"
    and "ni = \<lparr>ri_command_id = sub_command_id sub, ri_pause_revision = sub_pause_revision sub,
              ri_pause_ref = sub_pause_ref sub, ri_groups = normalized,
              ri_status = Accepted, ri_attempt_id = None\<rparr>"
    and "resume_intent_check ni = None"
    and "s' = s\<lparr>phase := PhaseResuming, interaction_revision := interaction_revision s + 1,
                 intent := Some ni\<rparr>"
    and "interaction_state_check s' = None"
proof -
  have neq: "(case intent s of None \<Rightarrow> False | Some i \<Rightarrow> ri_command_id i = sub_command_id sub) = False"
    using assms(2) by (auto split: option.splits)
  from assms(1) have "phase s = PhaseWaiting
     \<and> (sub_pause_revision sub, Some (sub_pause_ref sub)) = (pause_revision s, pause_ref s)
     \<and> (\<exists>m. decision_map (sub_decisions sub) = Inr m
        \<and> set (dict_keys m) = set (map pi_item_id (all_items (groups s)))
        \<and> (\<exists>n. traverse (normalize_group m) (groups s) = Inr n
           \<and> (\<exists>ni. construct resume_intent_check
             \<lparr>ri_command_id = sub_command_id sub, ri_pause_revision = sub_pause_revision sub,
              ri_pause_ref = sub_pause_ref sub, ri_groups = n,
              ri_status = Accepted, ri_attempt_id = None\<rparr> = Inr ni
             \<and> construct interaction_state_check
              (s\<lparr>phase := PhaseResuming,
                 interaction_revision := interaction_revision s + 1,
                 intent := Some ni\<rparr>) = Inr s')))"
    unfolding accept_def neq if_False by (simp only: if_Inl_eq_Inr bind_r_eq_Inr not_not simp_thms)
  then obtain m normalized ni where wait: "phase s = PhaseWaiting"
    and rev: "(sub_pause_revision sub, Some (sub_pause_ref sub)) = (pause_revision s, pause_ref s)"
    and m: "decision_map (sub_decisions sub) = Inr m"
    and keys: "set (dict_keys m) = set (map pi_item_id (all_items (groups s)))"
    and norm: "traverse (normalize_group m) (groups s) = Inr normalized"
    and rest: "construct resume_intent_check
             \<lparr>ri_command_id = sub_command_id sub, ri_pause_revision = sub_pause_revision sub,
              ri_pause_ref = sub_pause_ref sub, ri_groups = normalized,
              ri_status = Accepted, ri_attempt_id = None\<rparr> = Inr ni"
        "construct interaction_state_check
              (s\<lparr>phase := PhaseResuming,
                 interaction_revision := interaction_revision s + 1,
                 intent := Some ni\<rparr>) = Inr s'"
    by (elim exE conjE)
  show thesis
  proof (rule that [OF wait _ _ m _ norm refl])
    show "set (map d_item_id (sub_decisions sub)) = set (map pi_item_id (all_items (groups s)))"
      using m keys by (simp add: decision_map_Inr dict_keys_def comp_def)
  qed (use rev rest in auto)
qed


lemma normalize_groups_Inr:
  assumes m: "decision_map ds = Inr m" and ds: "list_all decision_ok ds"
    and t: "traverse (normalize_group m) gs = Inr n"
  shows "list_all decision_group_ok n"
    and "map (\<lambda>g. (pg_group_id g, map pi_item_id (pg_items g))) gs
         = map (\<lambda>g. (dg_group_id g, map d_item_id (dg_decisions g))) n"
    and "set (all_decisions n) \<subseteq> set ds"
    and "\<forall>(grp, decided) \<in> set (zip gs n). \<forall>(item, d) \<in> set (zip (pg_items grp) (dg_decisions decided)).
           d_kind d \<in> set (pi_allowed_decisions item)"
proof -
  have all: "list_all2 (\<lambda>grp dg. decision_group_ok dg
      \<and> (pg_group_id grp, map pi_item_id (pg_items grp)) = (dg_group_id dg, map d_item_id (dg_decisions dg))
      \<and> set (dg_decisions dg) \<subseteq> set ds
      \<and> (\<forall>(item, d) \<in> set (zip (pg_items grp) (dg_decisions dg)).
          d_kind d \<in> set (pi_allowed_decisions item))) gs n"
    using t [unfolded traverse_Inr]
    by (rule list_all2_mono) (use normalize_group_Inr [OF m ds] in auto)
  show "list_all decision_group_ok n" and "set (all_decisions n) \<subseteq> set ds"
    using list_all2_set2 [OF all] by (fastforce simp: list_all_iff all_decisions_def)+
  show "map (\<lambda>g. (pg_group_id g, map pi_item_id (pg_items g))) gs
         = map (\<lambda>g. (dg_group_id g, map d_item_id (dg_decisions g))) n"
    using all by (rule list_all2_map_map) blast
  show "\<forall>(grp, decided) \<in> set (zip gs n). \<forall>(item, d) \<in> set (zip (pg_items grp) (dg_decisions decided)).
           d_kind d \<in> set (pi_allowed_decisions item)"
    using all by (auto simp: list_all2_iff)
qed

lemma accept_replay:
  "intent s = Some i \<Longrightarrow> ri_command_id i = sub_command_id sub \<Longrightarrow>
   accept s sub = bind_r (verify_replay i sub) (\<lambda>_. Inr s)"
  by (simp add: accept_def)

lemma accept_keeps_ok:
  assumes ok: "interaction_state_ok s" and sub: "submission_ok sub" and run: "accept s sub = Inr s'"
  shows "interaction_state_ok s'"
proof (cases "\<exists>i. intent s = Some i \<and> ri_command_id i = sub_command_id sub")
  case True
  with ok run show ?thesis by (auto simp: accept_replay)
next
  case False
  then have fresh: "\<And>i. intent s = Some i \<Longrightarrow> ri_command_id i \<noteq> sub_command_id sub" by blast
  show ?thesis
  proof (rule accept_new_cases [OF run fresh])
    fix m n ni
    assume m: "decision_map (sub_decisions sub) = Inr m"
      and n: "traverse (normalize_group m) (groups s) = Inr n"
      and ni: "ni = \<lparr>ri_command_id = sub_command_id sub, ri_pause_revision = sub_pause_revision sub,
              ri_pause_ref = sub_pause_ref sub, ri_groups = n,
              ri_status = Accepted, ri_attempt_id = None\<rparr>" "resume_intent_check ni = None"
      and s': "s' = s\<lparr>phase := PhaseResuming, interaction_revision := interaction_revision s + 1,
                 intent := Some ni\<rparr>" "interaction_state_check s' = None"
    have "list_all decision_group_ok n"
      using normalize_groups_Inr(1) [OF m _ n] sub by (simp add: submission_ok_def)
    with ni s' ok_groups [OF ok] show ?thesis
      by (simp add: interaction_state_ok_def resume_intent_ok_def)
  qed
qed

lemma start_keeps_ok:
  assumes ok: "interaction_state_ok s" and run: "start s c a = Inr s'"
  shows "interaction_state_ok s'"
proof -
  from run obtain i where i: "intent s = Some i"
    and s': "s' = s \<or> (s' = s\<lparr>intent := Some (i\<lparr>ri_status := DispatchStarted, ri_attempt_id := Some a\<rparr>)\<rparr>
        \<and> resume_intent_check (i\<lparr>ri_status := DispatchStarted, ri_attempt_id := Some a\<rparr>) = None
        \<and> interaction_state_check s' = None)"
    unfolding start_def by (auto simp: unresolved_Inr split: option.splits if_splits)
  then show ?thesis
    using ok ok_groups [OF ok] ok_intent_groups [OF ok i]
    by (auto simp: interaction_state_ok_def resume_intent_ok_def)
qed

lemma unknown_keeps_ok:
  assumes ok: "interaction_state_ok s" and run: "unknown s c = Inr s'"
  shows "interaction_state_ok s'"
proof (cases "s' = s")
  case False
  with run obtain i where i: "intent s = Some i"
    and s': "s' = s\<lparr>intent := Some (i\<lparr>ri_status := UnknownStatus\<rparr>)\<rparr>"
      "resume_intent_check (i\<lparr>ri_status := UnknownStatus\<rparr>) = None" "interaction_state_check s' = None"
    unfolding unknown_def by (auto simp: unresolved_Inr split: option.splits if_splits)
  then show ?thesis
    using ok_groups [OF ok] ok_intent_groups [OF ok i]
    by (auto simp: interaction_state_ok_def resume_intent_ok_def)
qed (use ok in simp)

text \<open>The terminal transition always succeeds, with this state.\<close>

definition terminal_form :: "interaction_state \<Rightarrow> interaction_state" where
  "terminal_form s = s\<lparr>phase := PhaseTerminal, groups := [],
     intent := map_option (\<lambda>i. i\<lparr>ri_status := TerminalIntent\<rparr>) (intent s),
     interaction_revision := interaction_revision s + 1\<rparr>"

lemma terminal_intent_ok:
  "resume_intent_ok i \<Longrightarrow> resume_intent_ok (i\<lparr>ri_status := TerminalIntent\<rparr>)"
  by (simp add: resume_intent_ok_iff)

lemma terminal_form_ok:
  assumes ok: "interaction_state_ok s"
  shows "interaction_state_ok (terminal_form s)"
proof (rule interaction_state_okI)
  fix i assume "intent (terminal_form s) = Some i"
  then obtain j where j: "intent s = Some j" and i: "i = j\<lparr>ri_status := TerminalIntent\<rparr>"
    by (auto simp: terminal_form_def)
  show "ri_pause_revision i \<le> pause_revision (terminal_form s)
           \<and> (ri_pause_revision i = pause_revision (terminal_form s)
               \<longrightarrow> pause_ref (terminal_form s) = Some (ri_pause_ref i))
           \<and> resume_intent_ok i
           \<and> (phase (terminal_form s) \<noteq> PhaseResuming \<longrightarrow> settled_check (terminal_form s) i = None)"
    using ok_intent_facts [OF ok j]
    by (simp add: i terminal_form_def settled_check_iff terminal_intent_ok)
qed (use ok_facts(1-4) [OF ok] in \<open>simp_all add: terminal_form_def all_items_def\<close>)

lemma terminal_eq:
  assumes ok: "interaction_state_ok s" and p: "phase s \<noteq> PhaseTerminal"
  shows "terminal s = Inr (terminal_form s)"
proof -
  have ic: "resume_intent_check (i\<lparr>ri_status := TerminalIntent\<rparr>) = None" if "intent s = Some i" for i
    using terminal_intent_ok [OF ok_intent [OF ok that]] by (simp add: resume_intent_ok_def)
  have "interaction_state_check (terminal_form s) = None"
    using terminal_form_ok [OF ok] by (simp add: interaction_state_ok_def)
  then show ?thesis using p ic by (cases "intent s") (simp_all add: terminal_def terminal_form_def)
qed

lemma terminal_keeps_ok:
  assumes ok: "interaction_state_ok s" and run: "terminal s = Inr s'"
  shows "interaction_state_ok s'"
proof (cases "phase s = PhaseTerminal")
  case True
  with ok run show ?thesis by (simp add: terminal_def)
next
  case False
  with run have "s' = terminal_form s" by (simp add: terminal_eq [OF ok])
  with ok show ?thesis by (simp add: terminal_form_ok)
qed

lemma hitl_apply_keeps_ok:
  assumes "interaction_state_ok s" and "hitl_event_ok e" and "hitl_apply s e = Inr s'"
  shows "interaction_state_ok s'"
proof (cases e)
  case (EvPause r gs)
  with assms show ?thesis by (simp add: pause_keeps_ok)
next
  case (EvAccept sub)
  with assms show ?thesis by (simp add: accept_keeps_ok)
next
  case (EvStart c a)
  with assms show ?thesis by (simp add: start_keeps_ok)
next
  case (EvUnknown c)
  with assms show ?thesis by (simp add: unknown_keeps_ok)
next
  case EvTerminal
  with assms show ?thesis by (simp add: terminal_keeps_ok)
qed

lemma hitl_exec_keeps_ok:
  "interaction_state_ok s \<Longrightarrow> hitl_event_ok e \<Longrightarrow> interaction_state_ok (hitl_exec s e)"
  by (simp add: hitl_exec_def hitl_apply_keeps_ok split: sum.split)

lemma hitl_run_keeps_ok:
  "interaction_state_ok s \<Longrightarrow> list_all hitl_event_ok es \<Longrightarrow> interaction_state_ok (hitl_run s es)"
  by (induction es arbitrary: s) (simp_all add: hitl_exec_keeps_ok)

lemma initial_interaction_ok [simp]: "interaction_state_ok initial_interaction"
  by (simp add: interaction_state_ok_iff initial_interaction_def all_items_def)

section \<open>Accepting a submission: success and failure\<close>

text \<open>
  The contract of \<open>accept\<close> on a new command: the submission names the current pause,
  repeats no item, answers exactly the pending items, and every decision is allowed.
\<close>

definition acceptable :: "interaction_state \<Rightarrow> submission \<Rightarrow> bool" where
  "acceptable s sub \<longleftrightarrow>
     phase s = PhaseWaiting
     \<and> sub_pause_revision sub = pause_revision s \<and> pause_ref s = Some (sub_pause_ref sub)
     \<and> distinct (map d_item_id (sub_decisions sub))
     \<and> set (map d_item_id (sub_decisions sub)) = set (map pi_item_id (all_items (groups s)))
     \<and> (\<forall>item \<in> set (all_items (groups s)). \<forall>d \<in> set (sub_decisions sub).
          d_item_id d = pi_item_id item \<longrightarrow> d_kind d \<in> set (pi_allowed_decisions item))"

lemma pending_group_okD:
  "pending_group_ok g \<Longrightarrow> pg_group_id g \<noteq> [] \<and> pg_items g \<noteq> [] \<and> distinct (map pi_item_id (pg_items g))"
  by (simp add: pending_group_ok_def pending_group_check_def base_checks)

lemma dict_get_present:
  assumes "decision_map ds = Inr m" and "k \<in> d_item_id ` set ds"
  shows "\<exists>d \<in> set ds. d_item_id d = k \<and> dict_get m k = Inr d"
proof -
  from assms(2) obtain d where "d \<in> set ds" "d_item_id d = k" by auto
  with assms(1) show ?thesis
    by (auto simp: decision_map_Inr intro!: bexI [of _ d] map_of_keyed [of d_item_id ds d, simplified])
qed

lemma normalize_group_total:
  assumes m: "decision_map ds = Inr m" and g: "pending_group_ok grp"
    and cover: "set (map pi_item_id (pg_items grp)) \<subseteq> d_item_id ` set ds"
  shows "(\<exists>dg. normalize_group m grp = Inr dg)
     \<or> normalize_group m grp = Inl (InteractionConflict ''decision_not_allowed'')
       \<and> (\<exists>item \<in> set (pg_items grp). \<exists>d \<in> set ds. d_item_id d = pi_item_id item
            \<and> d_kind d \<notin> set (pi_allowed_decisions item))"
proof -
  define pick :: "pending_item \<Rightarrow> decision" where "pick item = the (map_of m (pi_item_id item))" for item
  have pick: "dict_get m (pi_item_id item) = Inr (pick item)"
    if "item \<in> set (pg_items grp)" for item
  proof -
    have "pi_item_id item \<in> d_item_id ` set ds" using cover that by auto
    from dict_get_present [OF m this] show ?thesis by (auto simp: pick_def)
  qed
  then have ord: "traverse (\<lambda>item. dict_get m (pi_item_id item)) (pg_items grp)
      = Inr (map pick (pg_items grp))"
    by (rule traverse_all_Inr)
  have ids: "map (d_item_id \<circ> pick) (pg_items grp) = map pi_item_id (pg_items grp)"
    using pick m by (auto simp: decision_map_Inr dest!: map_of_keyed_Some)
  have "distinct (map (d_item_id \<circ> pick) (pg_items grp))"
    unfolding ids using pending_group_okD [OF g] by blast
  then have "decision_group_check \<lparr>dg_group_id = pg_group_id grp, dg_decisions = map pick (pg_items grp)\<rparr> = None"
    using pending_group_okD [OF g] by (simp add: decision_group_check_def base_checks)
  moreover have "pick item \<in> set ds \<and> d_item_id (pick item) = pi_item_id item"
    if "item \<in> set (pg_items grp)" for item
    using pick [OF that] m by (auto simp: decision_map_Inr dest!: map_of_keyed_Some)
  ultimately show ?thesis
    unfolding normalize_group_def ord by (fastforce simp: list_ex_iff zip_map2 zip_same_conv_map)
qed


lemma all_ids_eq:
  assumes "map (\<lambda>g. (pg_group_id g, map pi_item_id (pg_items g))) gs
         = map (\<lambda>g. (dg_group_id g, map d_item_id (dg_decisions g))) n"
  shows "map d_item_id (all_decisions n) = map pi_item_id (all_items gs)"
    and "map dg_group_id n = map pg_group_id gs"
proof -
  from assms have "map (map d_item_id \<circ> dg_decisions) n = map (map pi_item_id \<circ> pg_items) gs"
    by (auto simp: list_eq_iff_nth_eq)
  then show "map d_item_id (all_decisions n) = map pi_item_id (all_items gs)"
    by (simp add: all_decisions_def all_items_def map_concat comp_def)
  from assms show "map dg_group_id n = map pg_group_id gs" by (auto simp: list_eq_iff_nth_eq)
qed

text \<open>
  The two constructor calls at the end of \<open>accept\<close> cannot fail: the normalised groups
  answer the pending set.
\<close>

definition fresh_intent :: "submission \<Rightarrow> decision_group list \<Rightarrow> resume_intent" where
  "fresh_intent sub n = \<lparr>ri_command_id = sub_command_id sub, ri_pause_revision = sub_pause_revision sub,
     ri_pause_ref = sub_pause_ref sub, ri_groups = n, ri_status = Accepted, ri_attempt_id = None\<rparr>"

definition resuming_form :: "interaction_state \<Rightarrow> resume_intent \<Rightarrow> interaction_state" where
  "resuming_form s i = s\<lparr>phase := PhaseResuming, interaction_revision := interaction_revision s + 1,
     intent := Some i\<rparr>"

lemma fresh_intent_ok:
  assumes ok: "interaction_state_ok s" and sub: "submission_ok sub" and w: "phase s = PhaseWaiting"
    and m: "decision_map (sub_decisions sub) = Inr m"
    and n: "traverse (normalize_group m) (groups s) = Inr n"
  shows "resume_intent_ok (fresh_intent sub n)"
proof -
  have ds: "list_all decision_ok (sub_decisions sub)" using sub by (simp add: submission_ok_def)
  note norm = normalize_groups_Inr [OF m ds n]
  note ids = all_ids_eq [OF norm(2)]
  have "n \<noteq> []" using ok_facts(5) [OF ok] w norm(2) by auto
  moreover have "distinct (map dg_group_id n)" using ids(2) ok_facts(6) [OF ok] by simp
  moreover have "distinct (map d_item_id (all_decisions n))" using ids(1) ok_facts(7) [OF ok] by simp
  ultimately show ?thesis
    using norm(1) sub
    by (simp add: resume_intent_ok_iff fresh_intent_def submission_ok_def submission_check_def base_checks)
qed

lemma resuming_form_ok:
  assumes ok: "interaction_state_ok s" and sub: "submission_ok sub" and w: "phase s = PhaseWaiting"
    and rev: "sub_pause_revision sub = pause_revision s" "pause_ref s = Some (sub_pause_ref sub)"
    and m: "decision_map (sub_decisions sub) = Inr m"
    and n: "traverse (normalize_group m) (groups s) = Inr n"
  shows "interaction_state_ok (resuming_form s (fresh_intent sub n))"
proof (rule interaction_state_okI)
  have ds: "list_all decision_ok (sub_decisions sub)" using sub by (simp add: submission_ok_def)
  note norm = normalize_groups_Inr [OF m ds n]
  show "resuming_check (resuming_form s (fresh_intent sub n)) = None"
    using norm(2,4) rev ok_facts(2) [OF ok]
    by (simp add: resuming_check_iff resuming_form_def fresh_intent_def)
qed (use ok_facts [OF ok] w rev fresh_intent_ok [OF ok sub w m n]
     in \<open>simp_all add: resuming_form_def, simp_all add: fresh_intent_def\<close>)

lemma accept_complete:
  assumes ok: "interaction_state_ok s" and sub: "submission_ok sub"
    and fresh: "\<And>i. intent s = Some i \<Longrightarrow> ri_command_id i \<noteq> sub_command_id sub"
    and w: "phase s = PhaseWaiting"
    and rev: "sub_pause_revision sub = pause_revision s" "pause_ref s = Some (sub_pause_ref sub)"
    and m: "decision_map (sub_decisions sub) = Inr m"
    and keys: "set (map d_item_id (sub_decisions sub)) = set (map pi_item_id (all_items (groups s)))"
    and n: "traverse (normalize_group m) (groups s) = Inr n"
  shows "accept s sub = Inr (resuming_form s (fresh_intent sub n))"
proof -
  have ic: "resume_intent_check (fresh_intent sub n) = None"
    using fresh_intent_ok [OF ok sub w m n] by (simp add: resume_intent_ok_def)
  have sc: "interaction_state_check (resuming_form s (fresh_intent sub n)) = None"
    using resuming_form_ok [OF ok sub w rev m n] by (simp add: interaction_state_ok_def)
  have neq: "(case intent s of None \<Rightarrow> False | Some i \<Rightarrow> ri_command_id i = sub_command_id sub) = False"
    using fresh by (auto split: option.splits)
  have dk: "set (dict_keys m) = set (map pi_item_id (all_items (groups s)))"
    using m keys by (simp add: decision_map_Inr dict_keys_def comp_def)
  show ?thesis
    unfolding accept_def neq if_False m bind_r_simps n
    using w rev dk construct_None [of resume_intent_check, OF ic]
      construct_None [of interaction_state_check, OF sc]
    by (simp add: fresh_intent_def resuming_form_def)
qed

lemma normalize_groups_total:
  assumes m: "decision_map ds = Inr m" and gs: "list_all pending_group_ok gs"
    and cover: "set (map pi_item_id (all_items gs)) \<subseteq> d_item_id ` set ds"
  shows "(\<exists>n. traverse (normalize_group m) gs = Inr n)
     \<or> traverse (normalize_group m) gs = Inl (InteractionConflict ''decision_not_allowed'')
       \<and> (\<exists>item \<in> set (all_items gs). \<exists>d \<in> set ds. d_item_id d = pi_item_id item
            \<and> d_kind d \<notin> set (pi_allowed_decisions item))"
  using gs cover
proof (induction gs)
  case Nil
  then show ?case by simp
next
  case (Cons g gs)
  have "(\<exists>dg. normalize_group m g = Inr dg)
     \<or> normalize_group m g = Inl (InteractionConflict ''decision_not_allowed'')
       \<and> (\<exists>item \<in> set (pg_items g). \<exists>d \<in> set ds. d_item_id d = pi_item_id item
            \<and> d_kind d \<notin> set (pi_allowed_decisions item))"
    by (rule normalize_group_total [OF m]) (use Cons.prems in \<open>auto simp: all_items_def\<close>)
  moreover have "(\<exists>n. traverse (normalize_group m) gs = Inr n)
     \<or> traverse (normalize_group m) gs = Inl (InteractionConflict ''decision_not_allowed'')
       \<and> (\<exists>item \<in> set (all_items gs). \<exists>d \<in> set ds. d_item_id d = pi_item_id item
            \<and> d_kind d \<notin> set (pi_allowed_decisions item))"
    by (rule Cons.IH) (use Cons.prems in \<open>auto simp: all_items_def\<close>)
  ultimately show ?case by (auto simp: all_items_def)
qed

lemma zip_lookup:
  assumes "map f xs = map g ys" and "x \<in> set xs"
  obtains y where "(x, y) \<in> set (zip xs ys)" and "y \<in> set ys" and "g y = f x"
proof -
  from assms(2) obtain k where k: "k < length xs" "xs ! k = x" by (auto simp: in_set_conv_nth)
  have "length xs = length ys" using assms(1) map_eq_imp_length_eq by blast
  with k assms(1) show thesis
    by (intro that [of "ys ! k"]) (auto simp: in_set_zip list_eq_iff_nth_eq)
qed

text \<open>A successful normalisation means that every decision was allowed.\<close>

lemma normalize_groups_allowed:
  assumes m: "decision_map ds = Inr m" and ds: "list_all decision_ok ds"
    and n: "traverse (normalize_group m) gs = Inr n"
    and item: "item \<in> set (all_items gs)" and d: "d \<in> set ds" "d_item_id d = pi_item_id item"
  shows "d_kind d \<in> set (pi_allowed_decisions item)"
proof -
  note norm = normalize_groups_Inr [OF m ds n]
  from item obtain g where g: "g \<in> set gs" "item \<in> set (pg_items g)" by (auto simp: all_items_def)
  obtain dg where dg: "(g, dg) \<in> set (zip gs n)" "dg \<in> set n"
    and ids: "map pi_item_id (pg_items g) = map d_item_id (dg_decisions dg)"
    by (rule zip_lookup [OF norm(2) g(1)]) auto
  obtain d' where d': "(item, d') \<in> set (zip (pg_items g) (dg_decisions dg))"
      "d' \<in> set (dg_decisions dg)" "d_item_id d' = pi_item_id item"
    by (rule zip_lookup [OF ids g(2)]) auto
  have "d' \<in> set ds" using norm(3) dg(2) d'(2) by (auto simp: all_decisions_def)
  with d d'(3) m have "d' = d" by (auto simp: decision_map_Inr distinct_map inj_on_def)
  with norm(4) dg(1) d'(1) show ?thesis by blast
qed

text \<open>C3: A submission with a new command id is accepted exactly when it names the current pause of
  a waiting run, repeats no item, answers the full pending set and uses only decisions the items
  allow; no constructor call inside \<open>accept\<close> can reject such a submission.\<close>

theorem accept_iff_acceptable:
  assumes ok: "interaction_state_ok s" and sub: "submission_ok sub"
    and fresh: "\<forall>i. intent s = Some i \<longrightarrow> ri_command_id i \<noteq> sub_command_id sub"
  shows "(\<exists>s'. accept s sub = Inr s') \<longleftrightarrow> acceptable s sub"
proof
  assume "\<exists>s'. accept s sub = Inr s'"
  then obtain s' where run: "accept s sub = Inr s'" ..
  have ds: "list_all decision_ok (sub_decisions sub)" using sub by (simp add: submission_ok_def)
  show "acceptable s sub"
  proof (rule accept_new_cases [OF run])
    show "ri_command_id i \<noteq> sub_command_id sub" if "intent s = Some i" for i using fresh that by blast
  next
    fix m n
    assume "phase s = PhaseWaiting" "sub_pause_revision sub = pause_revision s"
      "pause_ref s = Some (sub_pause_ref sub)" and m: "decision_map (sub_decisions sub) = Inr m"
      and "set (map d_item_id (sub_decisions sub)) = set (map pi_item_id (all_items (groups s)))"
      and n: "traverse (normalize_group m) (groups s) = Inr n"
    then show ?thesis
      using normalize_groups_allowed [OF m ds n] by (simp add: acceptable_def decision_map_Inr)
  qed
next
  assume a: "acceptable s sub"
  then obtain m where m: "decision_map (sub_decisions sub) = Inr m"
    by (simp add: acceptable_def decision_map_Inr)
  have "set (map pi_item_id (all_items (groups s))) \<subseteq> d_item_id ` set (sub_decisions sub)"
    using a by (simp add: acceptable_def)
  from normalize_groups_total [OF m ok_groups [OF ok] this]
  obtain n where n: "traverse (normalize_group m) (groups s) = Inr n"
    using a by (auto simp: acceptable_def)
  have "accept s sub = Inr (resuming_form s (fresh_intent sub n))"
    by (rule accept_complete [OF ok sub _ _ _ _ m _ n]) (use a fresh in \<open>auto simp: acceptable_def\<close>)
  then show "\<exists>s'. accept s sub = Inr s'" ..
qed

text \<open>The conflict codes of \<open>accept\<close>.\<close>

definition accept_codes :: "string list" where
  "accept_codes = [''command_conflict'', ''not_waiting'', ''stale_pause'', ''duplicate_decision'',
     ''incomplete_collection'', ''decision_not_allowed'']"

text \<open>C4: On a well-formed state \<open>accept\<close> fails only with one of its six conflict codes: it never
  raises a ValueError or KeyError of a constructor or dictionary it calls.\<close>

theorem accept_fails_with_conflict:
  assumes ok: "interaction_state_ok s" and sub: "submission_ok sub" and e: "accept s sub = Inl e"
  shows "\<exists>c \<in> set accept_codes. e = InteractionConflict c"
proof (rule ccontr)
  assume no: "\<not> ?thesis"
  have neq: "(case intent s of None \<Rightarrow> False | Some i \<Rightarrow> ri_command_id i = sub_command_id sub) = False"
    using e no by (auto simp: accept_def verify_replay_def accept_codes_def bind_r_eq_Inl
        split: option.splits if_splits sum.splits)
  then have fresh: "\<And>i. intent s = Some i \<Longrightarrow> ri_command_id i \<noteq> sub_command_id sub" by auto
  have w: "phase s = PhaseWaiting"
    and rev: "(sub_pause_revision sub, Some (sub_pause_ref sub)) = (pause_revision s, pause_ref s)"
    using e no unfolding accept_def neq if_False
    by (auto simp: accept_codes_def if_Inl_eq_Inl simp del: Pair_inject)
  obtain m where m: "decision_map (sub_decisions sub) = Inr m"
    using e no w rev unfolding accept_def neq if_False
    by (cases "decision_map (sub_decisions sub)") (auto simp: accept_codes_def decision_map_Inl)
  have dk: "set (dict_keys m) = set (map pi_item_id (all_items (groups s)))"
    using e no w rev unfolding accept_def neq if_False m bind_r_simps
    by (auto simp: accept_codes_def if_Inl_eq_Inl simp del: set_map)
  have keys: "set (map d_item_id (sub_decisions sub)) = set (map pi_item_id (all_items (groups s)))"
    using m dk by (simp add: decision_map_Inr dict_keys_def comp_def)
  have "set (map pi_item_id (all_items (groups s))) \<subseteq> d_item_id ` set (sub_decisions sub)"
    using keys by simp
  from normalize_groups_total [OF m ok_groups [OF ok] this]
  obtain n where n: "traverse (normalize_group m) (groups s) = Inr n"
    using e no w rev dk unfolding accept_def neq if_False m bind_r_simps by (auto simp: accept_codes_def)
  have "accept s sub = Inr (resuming_form s (fresh_intent sub n))"
    by (rule accept_complete [OF ok sub fresh w _ _ m keys n]) (use rev in auto)
  with e show False by simp
qed

text \<open>C5: An accepted new command moves the run to \<open>resuming\<close> with one more revision and the same
  pause, and its intent answers the pending groups in their own order with exactly the submitted
  decisions, not yet dispatched.\<close>

theorem accept_answers_pending_set:
  assumes ok: "interaction_state_ok s" and sub: "submission_ok sub"
    and fresh: "\<forall>i. intent s = Some i \<longrightarrow> ri_command_id i \<noteq> sub_command_id sub"
    and run: "accept s sub = Inr s'"
  shows "phase s' = PhaseResuming \<and> interaction_revision s' = interaction_revision s + 1
     \<and> pause_revision s' = pause_revision s \<and> pause_ref s' = pause_ref s \<and> groups s' = groups s
     \<and> (\<exists>i. intent s' = Some i \<and> can_dispatch i \<and> ri_attempt_id i = None
          \<and> ri_command_id i = sub_command_id sub
          \<and> map (\<lambda>g. (dg_group_id g, map d_item_id (dg_decisions g))) (ri_groups i)
            = map (\<lambda>g. (pg_group_id g, map pi_item_id (pg_items g))) (groups s)
          \<and> set (all_decisions (ri_groups i)) = set (sub_decisions sub))"
proof (rule accept_new_cases [OF run])
  show "ri_command_id i \<noteq> sub_command_id sub" if "intent s = Some i" for i using fresh that by blast
next
  fix m n ni
  assume m: "decision_map (sub_decisions sub) = Inr m"
    and keys: "set (map d_item_id (sub_decisions sub)) = set (map pi_item_id (all_items (groups s)))"
    and n: "traverse (normalize_group m) (groups s) = Inr n"
    and ni: "ni = \<lparr>ri_command_id = sub_command_id sub, ri_pause_revision = sub_pause_revision sub,
              ri_pause_ref = sub_pause_ref sub, ri_groups = n,
              ri_status = Accepted, ri_attempt_id = None\<rparr>"
    and s': "s' = s\<lparr>phase := PhaseResuming, interaction_revision := interaction_revision s + 1,
                 intent := Some ni\<rparr>"
  have ds: "list_all decision_ok (sub_decisions sub)" using sub by (simp add: submission_ok_def)
  note norm = normalize_groups_Inr [OF m ds n]
  have ids: "set (map d_item_id (all_decisions n)) = set (map d_item_id (sub_decisions sub))"
    using all_ids_eq(1) [OF norm(2)] keys by simp
  have "set (sub_decisions sub) \<subseteq> set (all_decisions n)"
  proof
    fix d assume d: "d \<in> set (sub_decisions sub)"
    then obtain d' where d': "d' \<in> set (all_decisions n)" "d_item_id d' = d_item_id d" using ids by force
    with norm(3) d m have "d' = d" by (auto simp: decision_map_Inr distinct_map inj_on_def)
    with d' show "d \<in> set (all_decisions n)" by simp
  qed
  with norm(2,3) ni s' show ?thesis by (simp add: can_dispatch_def)
qed

text \<open>C6: Submitting an accepted submission again, with its decisions in any order, is recognised as
  a replay: it returns the state unchanged, whether or not the dispatch has started since.\<close>

theorem accept_replay_any_order:
  assumes ok: "interaction_state_ok s'" and i: "intent s' = Some i"
    and same: "sub_command_id sub = ri_command_id i" "sub_pause_revision sub = ri_pause_revision i"
      "sub_pause_ref sub = ri_pause_ref i"
    and ds: "distinct (map d_item_id (sub_decisions sub))"
      "set (sub_decisions sub) = set (all_decisions (ri_groups i))"
  shows "accept s' sub = Inr s'"
proof -
  have "distinct (map d_item_id (all_decisions (ri_groups i)))"
    using ok_intent [OF ok i] by (simp add: resume_intent_ok_iff)
  then have "dict_eq (map (\<lambda>d. (d_item_id d, d)) (sub_decisions sub))
      (dict_of d_item_id (all_decisions (ri_groups i)))"
    using ds by (simp add: dict_of_distinct dict_eq_keyed)
  moreover have "decision_map (sub_decisions sub) = Inr (map (\<lambda>d. (d_item_id d, d)) (sub_decisions sub))"
    using ds(1) by (simp add: decision_map_Inr)
  ultimately have "verify_replay i sub = Inr ()"
    using same by (simp add: verify_replay_def)
  with i same(1) show ?thesis by (simp add: accept_replay)
qed

section \<open>Progress of the intent along a run\<close>

fun status_rank :: "intent_status \<Rightarrow> nat" where
  "status_rank Accepted = 0"
| "status_rank DispatchStarted = 1"
| "status_rank NativeObserved = 2"
| "status_rank UnknownStatus = 3"
| "status_rank Reconciled = 4"
| "status_rank TerminalIntent = 5"

text \<open>
  How an intent may change: either it answers a later pause, or it is the same command with the
  same decisions, an attempt that was never exchanged, and a status that did not go back.
\<close>

definition intent_succeeds :: "resume_intent \<Rightarrow> resume_intent \<Rightarrow> bool" where
  "intent_succeeds i j \<longleftrightarrow>
     ri_pause_revision i < ri_pause_revision j
     \<or> ri_pause_revision i = ri_pause_revision j \<and> ri_command_id i = ri_command_id j
       \<and> ri_pause_ref i = ri_pause_ref j \<and> ri_groups i = ri_groups j
       \<and> (ri_attempt_id i = None \<or> ri_attempt_id i = ri_attempt_id j)
       \<and> status_rank (ri_status i) \<le> status_rank (ri_status j)"

definition interaction_progress :: "interaction_state \<Rightarrow> interaction_state \<Rightarrow> bool" where
  "interaction_progress s t \<longleftrightarrow>
     interaction_revision s \<le> interaction_revision t \<and> pause_revision s \<le> pause_revision t
     \<and> (\<forall>i. intent s = Some i \<longrightarrow> (\<exists>j. intent t = Some j \<and> intent_succeeds i j))"

lemma intent_succeeds_refl [simp]: "intent_succeeds i i"
  by (simp add: intent_succeeds_def)

lemma intent_succeeds_trans: "intent_succeeds i j \<Longrightarrow> intent_succeeds j k \<Longrightarrow> intent_succeeds i k"
  unfolding intent_succeeds_def by (elim disjE conjE) simp_all

lemma interaction_progress_refl [simp]: "interaction_progress s s"
  by (simp add: interaction_progress_def)

lemma interaction_progress_trans:
  assumes "interaction_progress s t" and "interaction_progress t u"
  shows "interaction_progress s u"
proof -
  have "\<exists>k. intent u = Some k \<and> intent_succeeds i k" if "intent s = Some i" for i
    using assms that intent_succeeds_trans unfolding interaction_progress_def by metis
  with assms show ?thesis by (simp add: interaction_progress_def)
qed

lemma pause_progress:
  assumes ok: "interaction_state_ok s" and run: "pause s r gs = Inr s'"
  shows "interaction_progress s s'"
proof (cases "phase s \<in> {PhaseTerminal, PhaseWaiting}")
  case True
  with run show ?thesis by (auto simp: pause_def split: if_splits)
next
  case False
  with run have "interaction_revision s' = interaction_revision s + 1"
      "pause_revision s' = pause_revision s + 1"
      "intent s' = intent s \<or> (\<exists>i. intent s = Some i \<and> phase s = PhaseResuming
         \<and> ri_status i \<in> {DispatchStarted, NativeObserved, UnknownStatus}
         \<and> intent s' = Some (i\<lparr>ri_status := Reconciled\<rparr>))"
    by (auto simp: pause_def split: option.splits if_splits)
  then show ?thesis by (auto simp: interaction_progress_def intent_succeeds_def)
qed

lemma accept_progress:
  assumes ok: "interaction_state_ok s" and run: "accept s sub = Inr s'"
  shows "interaction_progress s s'"
proof (cases "\<exists>i. intent s = Some i \<and> ri_command_id i = sub_command_id sub")
  case True
  with run show ?thesis by (auto simp: accept_replay)
next
  case False
  show ?thesis
  proof (rule accept_new_cases [OF run])
    show "ri_command_id i \<noteq> sub_command_id sub" if "intent s = Some i" for i using False that by blast
  next
    fix m n ni
    assume w: "phase s = PhaseWaiting" and rev: "sub_pause_revision sub = pause_revision s"
      and ni: "ni = \<lparr>ri_command_id = sub_command_id sub, ri_pause_revision = sub_pause_revision sub,
              ri_pause_ref = sub_pause_ref sub, ri_groups = n, ri_status = Accepted, ri_attempt_id = None\<rparr>"
      and s': "s' = s\<lparr>phase := PhaseResuming, interaction_revision := interaction_revision s + 1,
                 intent := Some ni\<rparr>"
    have "ri_pause_revision i < pause_revision s" if "intent s = Some i" for i
      using ok_intent_facts(4) [OF ok that] w by (simp add: settled_check_iff)
    with s' ni rev show ?thesis by (simp add: interaction_progress_def intent_succeeds_def)
  qed
qed

lemma start_cases:
  assumes "start s c a = Inr s'"
  shows "s' = s \<or> (\<exists>i. intent s = Some i \<and> can_dispatch i \<and> ri_command_id i = c \<and> a \<noteq> []
     \<and> phase s = PhaseResuming
     \<and> s' = s\<lparr>intent := Some (i\<lparr>ri_status := DispatchStarted, ri_attempt_id := Some a\<rparr>)\<rparr>)"
  using assms unfolding start_def text_check_def
  by (auto simp: unresolved_Inr fail_if_def split: if_splits)

lemma unknown_cases:
  assumes "unknown s c = Inr s'"
  shows "s' = s \<or> (\<exists>i. intent s = Some i \<and> ri_status i = DispatchStarted \<and> ri_command_id i = c
     \<and> phase s = PhaseResuming
     \<and> s' = s\<lparr>intent := Some (i\<lparr>ri_status := UnknownStatus\<rparr>)\<rparr>)"
  using assms unfolding unknown_def by (auto simp: unresolved_Inr split: if_splits)

lemma start_progress:
  assumes ok: "interaction_state_ok s" and run: "start s c a = Inr s'"
  shows "interaction_progress s s'"
  using start_cases [OF run] ok_intent [OF ok]
  by (auto simp: interaction_progress_def intent_succeeds_def resume_intent_ok_iff can_dispatch_def)

lemma unknown_progress: "unknown s c = Inr s' \<Longrightarrow> interaction_progress s s'"
  by (drule unknown_cases) (auto simp: interaction_progress_def intent_succeeds_def)

lemma terminal_progress:
  assumes ok: "interaction_state_ok s" and run: "terminal s = Inr s'"
  shows "interaction_progress s s'"
proof (cases "phase s = PhaseTerminal")
  case True
  with run show ?thesis by (simp add: terminal_def)
next
  case False
  with run have s': "s' = terminal_form s" by (simp add: terminal_eq [OF ok])
  have "status_rank x \<le> 5" for x by (cases x) simp_all
  then show ?thesis unfolding s' by (auto simp: interaction_progress_def intent_succeeds_def terminal_form_def)
qed

lemma hitl_exec_progress:
  assumes ok: "interaction_state_ok s"
  shows "interaction_progress s (hitl_exec s e)"
proof (cases "hitl_apply s e")
  case (Inr s')
  then have "interaction_progress s s'"
    by (cases e) (simp_all add: pause_progress [OF ok] accept_progress [OF ok] start_progress [OF ok]
        unknown_progress terminal_progress [OF ok])
  with Inr show ?thesis by (simp add: hitl_exec_def)
qed (simp add: hitl_exec_def)

lemma hitl_run_progress:
  "interaction_state_ok s \<Longrightarrow> list_all hitl_event_ok es \<Longrightarrow> interaction_progress s (hitl_run s es)"
proof (induction es arbitrary: s)
  case Nil
  show ?case by simp
next
  case (Cons e es)
  have "interaction_progress (hitl_exec s e) (hitl_run (hitl_exec s e) es)"
    by (rule Cons.IH) (use Cons.prems hitl_exec_keeps_ok in simp_all)
  with hitl_exec_progress [OF Cons.prems(1)] show ?case
    by (auto intro: interaction_progress_trans)
qed

section \<open>Properties of whole runs\<close>

text \<open>
  The states a run can be in: the initial one, and whatever a successful transition with
  well-formed arguments makes of a reachable one.
\<close>

inductive hitl_reachable :: "interaction_state \<Rightarrow> bool" where
  hitl_start: "hitl_reachable initial_interaction"
| hitl_step: "hitl_reachable s \<Longrightarrow> hitl_event_ok e \<Longrightarrow> hitl_apply s e = Inr t \<Longrightarrow> hitl_reachable t"

inductive_cases hitl_reachableE: "hitl_reachable s"

lemma hitl_reachable_invariant: "hitl_reachable s \<Longrightarrow> interaction_state_ok s"
proof (induction rule: hitl_reachable.induct)
  case hitl_start
  show ?case by simp
next
  case (hitl_step s e t)
  then show ?case by (blast intro: hitl_apply_keeps_ok)
qed


text \<open>C2: A pause is answered by one command under one dispatch attempt: however calls are
  interleaved and whichever of them fail, as long as the intent answers the same pause it is the same
  command with the same decisions, its attempt is never exchanged and its status never goes back.\<close>

theorem one_dispatch_per_pause:
  assumes "interaction_state_ok s" and "list_all hitl_event_ok es"
    and "intent s = Some i" and "intent (hitl_run s es) = Some j"
    and "ri_pause_revision j = ri_pause_revision i"
  shows "ri_command_id j = ri_command_id i \<and> ri_groups j = ri_groups i
     \<and> (\<forall>a. ri_attempt_id i = Some a \<longrightarrow> ri_attempt_id j = Some a)
     \<and> status_rank (ri_status i) \<le> status_rank (ri_status j)"
  using hitl_run_progress [OF assms(1,2)] assms(3-5)
  by (auto simp: interaction_progress_def intent_succeeds_def)

text \<open>C7: \<open>start\<close> grants a dispatch exactly to the current unresolved command: for the first time
  while the intent is merely accepted, and again only to the very attempt that already started;
  after an unknown outcome nothing is dispatched again.\<close>

theorem start_grants_iff:
  assumes ok: "interaction_state_ok s"
  shows "(\<exists>s'. start s c a = Inr s') \<longleftrightarrow>
     a \<noteq> [] \<and> phase s = PhaseResuming
     \<and> (\<exists>i. intent s = Some i \<and> ri_command_id i = c
          \<and> (ri_status i = Accepted \<or> ri_status i = DispatchStarted \<and> ri_attempt_id i = Some a))"
    (is "?L \<longleftrightarrow> ?R")
proof
  assume ?L
  then show ?R unfolding start_def text_check_def
    by (auto simp: unresolved_Inr fail_if_def can_dispatch_def split: if_splits)
next
  assume R: ?R
  then obtain i where p: "a \<noteq> []" "phase s = PhaseResuming" and i: "intent s = Some i" "ri_command_id i = c"
    and st: "ri_status i = Accepted \<or> ri_status i = DispatchStarted \<and> ri_attempt_id i = Some a" by blast
  let ?i = "i\<lparr>ri_status := DispatchStarted, ri_attempt_id := Some a\<rparr>" and ?s = "s\<lparr>intent := Some (i\<lparr>ri_status := DispatchStarted, ri_attempt_id := Some a\<rparr>)\<rparr>"
  have io: "resume_intent_ok ?i" using ok_intent [OF ok i(1)] p(1) by (simp add: resume_intent_ok_iff)
  have "interaction_state_ok ?s"
  proof (rule interaction_state_okI)
    show "resuming_check ?s = None"
      using ok_facts(10) [OF ok p(2)] i(1) unfolding resuming_check_iff by simp
  qed (use ok_facts [OF ok] ok_intent_facts [OF ok i(1)] io p(2) in simp_all)
  then have "interaction_state_check ?s = None" by (simp add: interaction_state_ok_def)
  moreover have "unresolved s c = Inr i" using i p(2) by (simp add: unresolved_Inr)
  moreover have "resume_intent_check ?i = None" using io by (simp add: resume_intent_ok_def)
  ultimately show ?L using st p(1) by (auto simp: start_def text_check_def fail_if_def can_dispatch_def)
qed

lemma terminal_phase_absorbing:
  assumes "phase s = PhaseTerminal"
  shows "hitl_exec s e = s"
proof (cases e)
  case (EvAccept sub)
  with assms show ?thesis
    by (auto simp: hitl_exec_def accept_def bind_r_def split: sum.splits option.splits)
next
  case (EvStart c a)
  with assms show ?thesis
    by (auto simp: hitl_exec_def start_def unresolved_def split: sum.splits option.splits)
qed (use assms in \<open>simp_all add: hitl_exec_def pause_def unknown_def terminal_def\<close>)

text \<open>C8: From every well-formed state the terminal transition succeeds (no constructor check can stop
  it), drops the pending items, settles the intent, and no later call changes the state.\<close>

theorem terminal_always_and_final:
  assumes ok: "interaction_state_ok s"
  shows "\<exists>t. terminal s = Inr t \<and> phase t = PhaseTerminal \<and> groups t = []
    \<and> (\<forall>i. intent t = Some i \<longrightarrow> ri_status i = TerminalIntent) \<and> (\<forall>es. hitl_run t es = t)"
proof -
  obtain t where t: "terminal s = Inr t" and p: "phase t = PhaseTerminal"
  proof (cases "phase s = PhaseTerminal")
    case True
    then show thesis using that [of s] by (simp add: terminal_def)
  next
    case False
    then show thesis using that [of "terminal_form s"] by (simp add: terminal_eq [OF ok] terminal_form_def)
  qed
  have okt: "interaction_state_ok t" by (rule terminal_keeps_ok [OF ok t])
  have "hitl_run t es = t" for es
    by (induction es) (simp_all add: terminal_phase_absorbing [OF p])
  moreover have "ri_status i = TerminalIntent" if "intent t = Some i" for i
    using ok_intent_facts(4) [OF okt that] p by (simp add: settled_check_iff)
  ultimately show ?thesis using t p ok_facts(5) [OF okt] by auto
qed

section \<open>Concrete runs\<close>

text \<open>
  A run waiting on two groups, a submission that answers them out of order, and the states after
  accepting and dispatching it.
\<close>

definition demo_groups :: "pending_group list" where
  "demo_groups =
    [\<lparr>pg_group_id = ''g1'', pg_items =
        [\<lparr>pi_item_id = ''t1'', pi_request_id = ''r1'',
          pi_allowed_decisions = [''approve'', ''edit'', ''reject''], pi_validation = None\<rparr>]\<rparr>,
     \<lparr>pg_group_id = ''g2'', pg_items =
        [\<lparr>pi_item_id = ''t2'', pi_request_id = ''r2'',
          pi_allowed_decisions = [''respond''], pi_validation = None\<rparr>]\<rparr>]"

definition demo_waiting :: interaction_state where
  "demo_waiting = \<lparr>interaction_revision = 1, pause_revision = 1, pause_ref = Some ''p1'',
     phase = PhaseWaiting, groups = demo_groups, intent = None\<rparr>"

definition demo_submission :: submission where
  "demo_submission = \<lparr>sub_command_id = ''c1'', sub_pause_revision = 1, sub_pause_ref = ''p1'',
     sub_decisions = [\<lparr>d_item_id = ''t2'', d_kind = ''respond'', d_payload = [1]\<rparr>,
                      \<lparr>d_item_id = ''t1'', d_kind = ''approve'', d_payload = []\<rparr>]\<rparr>"

definition demo_intent :: resume_intent where
  "demo_intent = \<lparr>ri_command_id = ''c1'', ri_pause_revision = 1, ri_pause_ref = ''p1'',
     ri_groups = [\<lparr>dg_group_id = ''g1'', dg_decisions = [\<lparr>d_item_id = ''t1'', d_kind = ''approve'', d_payload = []\<rparr>]\<rparr>,
                  \<lparr>dg_group_id = ''g2'', dg_decisions = [\<lparr>d_item_id = ''t2'', d_kind = ''respond'', d_payload = [1]\<rparr>]\<rparr>],
     ri_status = Accepted, ri_attempt_id = None\<rparr>"

definition demo_resuming :: interaction_state where
  "demo_resuming = demo_waiting\<lparr>phase := PhaseResuming, interaction_revision := 2, intent := Some demo_intent\<rparr>"

definition demo_started :: interaction_state where
  "demo_started = demo_resuming\<lparr>intent := Some (demo_intent\<lparr>ri_status := DispatchStarted, ri_attempt_id := Some ''a1''\<rparr>)\<rparr>"

lemmas demo_defs = demo_groups_def demo_waiting_def demo_submission_def demo_intent_def
  demo_resuming_def demo_started_def

lemmas check_defs = base_checks validation_issue_check_def pending_item_check_def
  pending_group_check_def decision_check_def submission_check_def decision_group_check_def
  decisions_vocabulary_def pending_item_ok_def pending_group_ok_def decision_ok_def
  submission_ok_def decision_group_ok_def all_items_def all_decisions_def

lemma demo_groups_ok: "list_all pending_group_ok demo_groups"
  by (simp add: demo_groups_def check_defs)

lemma demo_waiting_ok: "interaction_state_ok demo_waiting"
  by (rule interaction_state_okI)
     (use demo_groups_ok in \<open>simp_all add: demo_waiting_def demo_groups_def all_items_def\<close>)

lemma demo_submission_ok: "submission_ok demo_submission"
  by (simp add: demo_submission_def check_defs)

lemma demo_intent_ok: "resume_intent_ok demo_intent"
  by (simp add: resume_intent_ok_iff demo_intent_def check_defs)

lemma demo_resuming_ok: "interaction_state_ok demo_resuming"
proof (rule interaction_state_okI)
  show "resuming_check demo_resuming = None"
    by (simp add: resuming_check_iff demo_resuming_def demo_waiting_def demo_groups_def demo_intent_def)
qed (use demo_groups_ok demo_intent_ok in
     \<open>simp_all add: demo_resuming_def demo_waiting_def\<close>,
     simp_all add: demo_groups_def demo_intent_def all_items_def)

lemma demo_accept: "accept demo_waiting demo_submission = Inr demo_resuming"
proof -
  have m: "decision_map (sub_decisions demo_submission)
      = Inr (map (\<lambda>d. (d_item_id d, d)) (sub_decisions demo_submission))"
    by (simp add: decision_map_Inr demo_submission_def)
  have "accept demo_waiting demo_submission
      = Inr (resuming_form demo_waiting (fresh_intent demo_submission (ri_groups demo_intent)))"
  proof (rule accept_complete [OF demo_waiting_ok demo_submission_ok _ _ _ _ m])
    show "traverse (normalize_group (map (\<lambda>d. (d_item_id d, d)) (sub_decisions demo_submission)))
        (groups demo_waiting) = Inr (ri_groups demo_intent)"
      by (simp add: demo_defs normalize_group_def dict_get_def decision_group_check_def base_checks)
  qed (auto simp: demo_defs all_items_def)
  then show ?thesis by (simp add: resuming_form_def fresh_intent_def demo_defs)
qed

lemma demo_started_ok: "interaction_state_ok demo_started"
  by (rule start_keeps_ok [OF demo_resuming_ok, of "''c1''" "''a1''"])
     (simp add: start_def unresolved_def can_dispatch_def text_check_def fail_if_def demo_defs
       resume_intent_check_def interaction_state_check_def resuming_check_def base_checks
       decision_map_def dict_of_def all_decisions_def all_items_def construct_def)

text \<open>The properties at these states.\<close>

theorem accept_iff_acceptable_witness:
  "(\<exists>s'. accept demo_waiting demo_submission = Inr s') \<and> acceptable demo_waiting demo_submission"
  using accept_iff_acceptable [OF demo_waiting_ok demo_submission_ok] demo_accept
  by (simp add: demo_waiting_def)

theorem accept_fails_with_conflict_witness:
  "\<exists>c \<in> set accept_codes.
     InteractionConflict ''stale_pause'' = InteractionConflict c
     \<and> accept demo_waiting (demo_submission\<lparr>sub_pause_ref := ''p0''\<rparr>) = Inl (InteractionConflict ''stale_pause'')"
proof -
  have e: "accept demo_waiting (demo_submission\<lparr>sub_pause_ref := ''p0''\<rparr>) = Inl (InteractionConflict ''stale_pause'')"
    by (simp add: accept_def demo_waiting_def demo_submission_def)
  have "submission_ok (demo_submission\<lparr>sub_pause_ref := ''p0''\<rparr>)"
    by (simp add: demo_submission_def check_defs)
  from accept_fails_with_conflict [OF demo_waiting_ok this e] e show ?thesis by blast
qed

theorem accept_answers_pending_set_witness:
  "phase demo_resuming = PhaseResuming \<and> interaction_revision demo_resuming = interaction_revision demo_waiting + 1"
  using accept_answers_pending_set [OF demo_waiting_ok demo_submission_ok _ demo_accept]
  by (simp add: demo_waiting_def)

theorem accept_replay_any_order_witness: "accept demo_started demo_submission = Inr demo_started"
proof -
  have i: "intent demo_started = Some (demo_intent\<lparr>ri_status := DispatchStarted, ri_attempt_id := Some ''a1''\<rparr>)"
    by (simp add: demo_started_def)
  show ?thesis
    by (rule accept_replay_any_order [OF demo_started_ok i])
       (auto simp: demo_submission_def demo_intent_def all_decisions_def)
qed

lemma demo_pause: "hitl_apply initial_interaction (EvPause ''p1'' demo_groups) = Inr demo_waiting"
proof -
  have "interaction_state_check demo_waiting = None"
    using demo_waiting_ok by (simp add: interaction_state_ok_def)
  then show ?thesis
    by (simp add: pause_def initial_interaction_def demo_waiting_def construct_def)
qed


theorem one_dispatch_per_pause_witness:
  "ri_command_id demo_intent = ''c1''
   \<and> (\<exists>j. intent (hitl_run demo_started [EvStart ''c1'' ''a2'']) = Some j \<and> ri_attempt_id j = Some ''a1'')"
proof -
  have run: "hitl_run demo_started [EvStart ''c1'' ''a2''] = demo_started"
    by (simp add: hitl_exec_def start_def unresolved_def can_dispatch_def text_check_def fail_if_def demo_defs)
  have i: "intent demo_started = Some (demo_intent\<lparr>ri_status := DispatchStarted, ri_attempt_id := Some ''a1''\<rparr>)"
    by (simp add: demo_started_def)
  have "intent (hitl_run demo_started [EvStart ''c1'' ''a2''])
      = Some (demo_intent\<lparr>ri_status := DispatchStarted, ri_attempt_id := Some ''a1''\<rparr>)"
    unfolding run by (rule i)
  from one_dispatch_per_pause [OF demo_started_ok _ i this] this show ?thesis
    by (simp add: demo_intent_def)
qed

theorem start_grants_iff_witness:
  "(\<exists>s'. start demo_resuming ''c1'' ''a1'' = Inr s') \<and> \<not> (\<exists>s'. start demo_started ''c1'' ''a2'' = Inr s')"
  using start_grants_iff [OF demo_resuming_ok, of "''c1''" "''a1''"]
    start_grants_iff [OF demo_started_ok, of "''c1''" "''a2''"]
  by (simp add: demo_resuming_def demo_started_def demo_waiting_def demo_intent_def)

theorem terminal_always_and_final_witness:
  "\<exists>t. terminal demo_started = Inr t \<and> hitl_run t [EvAccept demo_submission] = t"
  using terminal_always_and_final [OF demo_started_ok] by blast

end
