(* ===== verification/Tables.thy ===== *)
theory Tables
  imports Prelude "HOL-Library.Char_ord" "HOL-Library.List_Lexorder" "HOL-Library.Product_Lexorder"
begin

text \<open>
  Database tables as association lists from primary keys to rows, with the SQL statements the
  repositories issue: \<open>INSERT ... ON CONFLICT DO NOTHING\<close> is \<open>insert_new\<close>, an
  \<open>UPDATE\<close> of one row is \<open>update_at\<close>, of many rows \<open>update_where\<close>, a
  \<open>DELETE\<close> is \<open>delete_where\<close>, a \<open>SELECT ... ORDER BY\<close> is a sort of a filter.
  The locale \<open>keep_first\<close> is the contract of a ledger that keeps the first value stored
  under a key; the tables of the store are its providers.
\<close>

type_synonym ('k, 'v) table = "('k \<times> 'v) list"

definition insert_new :: "'k \<Rightarrow> 'v \<Rightarrow> ('k, 'v) table \<Rightarrow> ('k, 'v) table" where
  "insert_new k v t = (case map_of t k of None \<Rightarrow> t @ [(k, v)] | Some _ \<Rightarrow> t)"

definition update_at :: "'k \<Rightarrow> ('v \<Rightarrow> 'v) \<Rightarrow> ('k, 'v) table \<Rightarrow> ('k, 'v) table" where
  "update_at k f t = map (\<lambda>(k', v). (k', if k' = k then f v else v)) t"

definition update_where :: "('k \<Rightarrow> 'v \<Rightarrow> bool) \<Rightarrow> ('v \<Rightarrow> 'v) \<Rightarrow> ('k, 'v) table \<Rightarrow> ('k, 'v) table" where
  "update_where p f t = map (\<lambda>(k, v). (k, if p k v then f v else v)) t"

definition delete_where :: "('k \<Rightarrow> 'v \<Rightarrow> bool) \<Rightarrow> ('k, 'v) table \<Rightarrow> ('k, 'v) table" where
  "delete_where p t = filter (\<lambda>(k, v). \<not> p k v) t"

definition select_where :: "('k \<Rightarrow> 'v \<Rightarrow> bool) \<Rightarrow> ('k, 'v) table \<Rightarrow> ('k \<times> 'v) list" where
  "select_where p t = filter (\<lambda>(k, v). p k v) t"

definition keys_ok :: "('k, 'v) table \<Rightarrow> bool" where
  "keys_ok t \<longleftrightarrow> distinct (map fst t)"

section \<open>Lookups after updates\<close>

lemma map_of_insert_new [simp, table_simps]:
  "map_of (insert_new k v t) k' =
     (if k' = k then Some (case map_of t k of None \<Rightarrow> v | Some w \<Rightarrow> w) else map_of t k')"
  by (auto simp: insert_new_def map_add_def split: option.splits)

lemma map_of_update_at [simp, table_simps]:
  "map_of (update_at k f t) k' = (if k' = k then map_option f (map_of t k) else map_of t k')"
  by (induction t) (auto simp: update_at_def)

lemma map_of_update_where [simp, table_simps]:
  "map_of (update_where p f t) k = map_option (\<lambda>v. if p k v then f v else v) (map_of t k)"
  by (induction t) (auto simp: update_where_def)

lemma map_of_delete_where [simp, table_simps]:
  assumes "keys_ok t"
  shows "map_of (delete_where p t) k =
    (case map_of t k of None \<Rightarrow> None | Some v \<Rightarrow> if p k v then None else Some v)"
  using assms
  by (induction t) (auto simp: delete_where_def keys_ok_def map_of_eq_None_iff split: option.splits)

lemma keys_update_at [simp, table_simps]: "map fst (update_at k f t) = map fst t"
  by (auto simp: update_at_def)

lemma keys_update_where [simp, table_simps]: "map fst (update_where p f t) = map fst t"
  by (auto simp: update_where_def)

lemma keys_ok_update_at [simp, table_simps]: "keys_ok (update_at k f t) = keys_ok t"
  by (simp add: keys_ok_def)

lemma keys_ok_update_where [simp, table_simps]: "keys_ok (update_where p f t) = keys_ok t"
  by (simp add: keys_ok_def)

lemma keys_ok_insert_new [simp, table_simps]: "keys_ok t \<Longrightarrow> keys_ok (insert_new k v t)"
  by (auto simp: keys_ok_def insert_new_def map_of_eq_None_iff split: option.splits)

lemma keys_ok_delete_where [simp, table_simps]: "keys_ok t \<Longrightarrow> keys_ok (delete_where p t)"
  by (auto simp: keys_ok_def delete_where_def distinct_map inj_on_def)

lemma keys_ok_Nil [simp]: "keys_ok []"
  by (simp add: keys_ok_def)

lemma set_update_at: "(k', v) \<in> set (update_at k f t) \<Longrightarrow>
    (\<exists>w. (k', w) \<in> set t \<and> v = (if k' = k then f w else w))"
  by (auto simp: update_at_def)

lemma set_update_where: "(k, v) \<in> set (update_where p f t) \<Longrightarrow>
    (\<exists>w. (k, w) \<in> set t \<and> v = (if p k w then f w else w))"
  by (auto simp: update_where_def)

lemma set_insert_new: "(k', w) \<in> set (insert_new k v t) \<Longrightarrow> (k', w) \<in> set t \<or> k' = k \<and> w = v"
  by (auto simp: insert_new_def split: option.splits)

lemma set_delete_where: "x \<in> set (delete_where p t) \<longleftrightarrow> x \<in> set t \<and> \<not> p (fst x) (snd x)"
  by (auto simp: delete_where_def)

lemma set_select_where: "x \<in> set (select_where p t) \<longleftrightarrow> x \<in> set t \<and> p (fst x) (snd x)"
  by (auto simp: select_where_def)

lemma map_of_in_table: "keys_ok t \<Longrightarrow> (k, v) \<in> set t \<longleftrightarrow> map_of t k = Some v"
  by (auto simp: keys_ok_def dest: map_of_SomeD)

text \<open>A property of every row of a table.\<close>

definition rows_ok :: "('v \<Rightarrow> bool) \<Rightarrow> ('k, 'v) table \<Rightarrow> bool" where
  "rows_ok p t \<longleftrightarrow> list_all (\<lambda>(k, v). p v) t"

lemma rows_ok_simps [simp, table_simps]:
  "rows_ok p []"
  "(\<And>v. p v \<Longrightarrow> p (f v)) \<Longrightarrow> rows_ok p t \<Longrightarrow> rows_ok p (update_at k f t)"
  "rows_ok p t \<Longrightarrow> p v \<Longrightarrow> rows_ok p (insert_new k v t)"
  "rows_ok p t \<Longrightarrow> rows_ok p (delete_where q t)"
  by (auto simp: rows_ok_def list_all_iff update_at_def insert_new_def delete_where_def split: option.splits)

lemma rows_ok_update_where:
  "rows_ok p t \<Longrightarrow> (\<And>k v. q k v \<Longrightarrow> p v \<Longrightarrow> p (f v)) \<Longrightarrow> rows_ok p (update_where q f t)"
  by (auto simp: rows_ok_def list_all_iff update_where_def)

lemma rows_okD: "rows_ok p t \<Longrightarrow> map_of t k = Some v \<Longrightarrow> p v"
  by (auto simp: rows_ok_def list_all_iff dest!: map_of_SomeD)

lemma rows_ok_iff: "rows_ok p t \<longleftrightarrow> (\<forall>k v. (k, v) \<in> set t \<longrightarrow> p v)"
  by (auto simp: rows_ok_def list_all_iff)

lemma rows_ok_update_one:
  assumes "rows_ok p t" and "keys_ok t" and "map_of t k = Some v" and "p (f v)"
  shows "rows_ok p (update_at k f t)"
  unfolding rows_ok_iff
proof (intro allI impI)
  fix k' w assume "(k', w) \<in> set (update_at k f t)"
  then obtain u where u: "(k', u) \<in> set t" and w: "w = (if k' = k then f u else u)"
    by (auto dest: set_update_at)
  show "p w"
  proof (cases "k' = k")
    case True
    with u assms(2,3) have "u = v" by (simp add: map_of_in_table)
    with True w assms(4) show ?thesis by simp
  next
    case False
    with u w assms(1) show ?thesis by (auto simp: rows_ok_iff)
  qed
qed

section \<open>Keep-first ledgers\<close>

locale keep_first =
  fixes put :: "'k \<Rightarrow> 'v \<Rightarrow> 't \<Rightarrow> 't"
    and get :: "'t \<Rightarrow> 'k \<Rightarrow> 'v option"
  assumes put_new: "get t k = None \<Longrightarrow> get (put k v t) k = Some v"
    and put_old: "get t k = Some w \<Longrightarrow> get (put k v t) k = Some w"
    and put_other: "k' \<noteq> k \<Longrightarrow> get (put k v t) k' = get t k'"
begin

lemma put_present: "\<exists>w. get (put k v t) k = Some w"
  using put_new put_old by (cases "get t k") auto

lemma stored_stays: "get t k = Some w \<Longrightarrow> get (put k' v t) k = Some w"
  using put_old put_other by (cases "k' = k") auto

lemma stored_stays_fold: "get t k = Some w \<Longrightarrow> get (fold (\<lambda>(k, v). put k v) kvs t) k = Some w"
  by (induction kvs arbitrary: t) (auto simp: stored_stays)

text \<open>Whatever is put later, the first value under a key is the one that is read.\<close>

lemma first_wins:
  "get t k = None \<Longrightarrow> get (fold (\<lambda>(k, v). put k v) kvs t) k = map_of kvs k"
proof (induction kvs arbitrary: t)
  case Nil
  then show ?case by simp
next
  case (Cons kv kvs)
  obtain k1 v1 where kv: "kv = (k1, v1)" by (cases kv)
  show ?case
  proof (cases "k1 = k")
    case True
    with Cons.prems have "get (put k1 v1 t) k = Some v1" by (simp add: put_new)
    with kv True show ?thesis by (simp add: stored_stays_fold)
  next
    case False
    with Cons.prems have "get (put k1 v1 t) k = None" by (simp add: put_other)
    with Cons.IH kv False show ?thesis by simp
  qed
qed

end

interpretation table_ledger: keep_first insert_new map_of
  by unfold_locales auto

end
