(* ===== verification/Json.thy ===== *)
theory Json
  imports Prelude
begin

text \<open>
  JSON values as the code sees them after \<open>json.loads\<close>: a \<open>dict\<close> is the list of its items
  in insertion order, an integer is unbounded, a float is the text of its \<open>repr\<close>. The
  equality \<open>==\<close> of Python on such values is \<open>py_eq\<close> (dictionaries compare without order,
  \<open>True == 1\<close>); \<open>json_exact\<close> is \<open>_json_exact\<close> of
  \<open>src/kokoro_agent/infrastructure/postgres_run_effects.py\<close>, which also compares the types.
  \<open>dumps\<close> prints a value as \<open>json.dumps\<close> does. Characters are code points below 256.
\<close>

datatype json =
    JNull
  | JBool bool
  | JInt int
  | JFloat string
  | JStr string
  | JList "json list"
  | JObj "(string \<times> json) list"

text \<open>\<open>type(left) is type(right)\<close>.\<close>

fun same_type :: "json \<Rightarrow> json \<Rightarrow> bool" where
  "same_type JNull JNull = True"
| "same_type (JBool _) (JBool _) = True"
| "same_type (JInt _) (JInt _) = True"
| "same_type (JFloat _) (JFloat _) = True"
| "same_type (JStr _) (JStr _) = True"
| "same_type (JList _) (JList _) = True"
| "same_type (JObj _) (JObj _) = True"
| "same_type _ _ = False"

text \<open>\<open>==\<close> on numbers: a bool is the integer 0 or 1.\<close>

fun as_int :: "json \<Rightarrow> int option" where
  "as_int (JInt i) = Some i"
| "as_int (JBool b) = Some (if b then 1 else 0)"
| "as_int _ = None"

definition same_keys :: "(string \<times> 'a) list \<Rightarrow> (string \<times> 'b) list \<Rightarrow> bool" where
  "same_keys a b \<longleftrightarrow> set (map fst a) = set (map fst b)"

lemma size_in_items [simp, termination_simp]:
  "(k, v) \<in> set kvs \<Longrightarrow> size v < Suc (size_list (size_prod (\<lambda>_. 0) size) kvs)"
  by (induction kvs) auto

lemma size_in_zip [simp, termination_simp]:
  "(x, y) \<in> set (zip a b) \<Longrightarrow> size x < Suc (size_list size a)"
  by (induction a b rule: list_induct2') auto

function py_eq :: "json \<Rightarrow> json \<Rightarrow> bool" where
  "py_eq left right =
     (case (left, right) of
        (JNull, JNull) \<Rightarrow> True
      | (JStr a, JStr b) \<Rightarrow> a = b
      | (JFloat a, JFloat b) \<Rightarrow> a = b
      | (JList a, JList b) \<Rightarrow> length a = length b \<and> list_all (\<lambda>(x, y). py_eq x y) (zip a b)
      | (JObj a, JObj b) \<Rightarrow> same_keys a b
          \<and> list_all (\<lambda>(k, v). case map_of b k of None \<Rightarrow> False | Some w \<Rightarrow> py_eq v w) a
      | _ \<Rightarrow> (case (as_int left, as_int right) of (Some i, Some j) \<Rightarrow> i = j | _ \<Rightarrow> False))"
  by pat_completeness auto
termination
  by (relation "measure (\<lambda>(l, r). size l)") auto

declare py_eq.simps [simp del]

function json_exact :: "json \<Rightarrow> json \<Rightarrow> bool" where
  "json_exact left right =
     (if \<not> same_type left right then False
      else case (left, right) of
        (JObj a, JObj b) \<Rightarrow> same_keys a b
          \<and> list_all (\<lambda>(k, v). case map_of b k of None \<Rightarrow> False | Some w \<Rightarrow> json_exact v w) a
      | (JList a, JList b) \<Rightarrow> length a = length b \<and> list_all (\<lambda>(x, y). json_exact x y) (zip a b)
      | _ \<Rightarrow> left = right)"
  by pat_completeness auto
termination
  by (relation "measure (\<lambda>(l, r). size l)") auto

declare json_exact.simps [simp del]

section \<open>Printing\<close>

fun digits :: "nat \<Rightarrow> string" where
  "digits n = (if n < 10 then [char_of (48 + n)] else digits (n div 10) @ [char_of (48 + n mod 10)])"

declare digits.simps [simp del]

text \<open>\<open>str(n)\<close> of an integer.\<close>

definition show_int :: "int \<Rightarrow> string" where
  "show_int i = (if i < 0 then ''-'' @ digits (nat (- i)) else digits (nat i))"

definition hex_digit :: "nat \<Rightarrow> char" where
  "hex_digit n = (if n < 10 then char_of (48 + n) else char_of (87 + n))"

text \<open>The escapes of \<open>json.dumps\<close>; \<open>ascii\<close> is its \<open>ensure_ascii\<close>.\<close>

definition escape_char :: "bool \<Rightarrow> char \<Rightarrow> string" where
  "escape_char ascii c =
     (let n = of_char c :: nat in
      if n = 34 then [char_of (92::nat), char_of (34::nat)]
      else if n = 92 then [char_of (92::nat), char_of (92::nat)]
      else if n = 10 then char_of (92::nat) # ''n''
      else if n = 13 then char_of (92::nat) # ''r''
      else if n = 9 then char_of (92::nat) # ''t''
      else if n = 8 then char_of (92::nat) # ''b''
      else if n = 12 then char_of (92::nat) # ''f''
      else if n < 32 \<or> (ascii \<and> 126 < n)
      then char_of (92::nat) # ''u00'' @ [hex_digit (n div 16), hex_digit (n mod 16)]
      else [c])"

definition quote :: "bool \<Rightarrow> string \<Rightarrow> string" where
  "quote ascii s = [char_of (34::nat)] @ concat (map (escape_char ascii) s) @ [char_of (34::nat)]"

fun join :: "string \<Rightarrow> string list \<Rightarrow> string" where
  "join sep [] = []"
| "join sep [x] = x"
| "join sep (x # y # xs) = x @ sep @ join sep (y # xs)"

fun dumps :: "bool \<Rightarrow> string \<Rightarrow> string \<Rightarrow> json \<Rightarrow> string" where
  "dumps ascii isep ksep JNull = ''null''"
| "dumps ascii isep ksep (JBool b) = (if b then ''true'' else ''false'')"
| "dumps ascii isep ksep (JInt i) = show_int i"
| "dumps ascii isep ksep (JFloat t) = t"
| "dumps ascii isep ksep (JStr s) = quote ascii s"
| "dumps ascii isep ksep (JList xs) = ''['' @ join isep (map (dumps ascii isep ksep) xs) @ '']''"
| "dumps ascii isep ksep (JObj kvs) =
     ''{'' @ join isep (map (\<lambda>(k, v). quote ascii k @ ksep @ dumps ascii isep ksep v) kvs) @ ''}''"

text \<open>Compact canonical form of a value whose keys are already sorted.\<close>

definition dumps_compact :: "bool \<Rightarrow> json \<Rightarrow> string" where
  "dumps_compact ascii v = dumps ascii '','' '':'' v"

section \<open>Printed text determines the value\<close>

text \<open>
  The digests, namespaces and opaque identifiers of the program hash a printed JSON value, so
  they separate what the printed text separates. \<open>printable\<close> asks of a value only that
  the text of a float is one \<open>repr\<close> prints for a finite float: number characters, with a
  point or an exponent.
\<close>

definition is_digit :: "char \<Rightarrow> bool" where
  "is_digit c \<longleftrightarrow> 48 \<le> (of_char c :: nat) \<and> (of_char c :: nat) < 58"

definition num_char :: "char \<Rightarrow> bool" where
  "num_char c \<longleftrightarrow> is_digit c \<or> c = CHR ''-'' \<or> c = CHR ''+'' \<or> c = CHR ''.'' \<or> c = CHR ''e''"

definition float_text :: "string \<Rightarrow> bool" where
  "float_text t \<longleftrightarrow> list_all num_char t \<and> (List.member t (CHR ''.'') \<or> List.member t (CHR ''e''))
     \<and> hd t \<noteq> CHR ''e''"

fun printable :: "json \<Rightarrow> bool" where
  "printable (JFloat t) = float_text t"
| "printable (JList xs) = list_all printable xs"
| "printable (JObj kvs) = list_all (\<lambda>(k, v). printable v) kvs"
| "printable _ = True"

definition closes :: "string \<Rightarrow> bool" where
  "closes x \<longleftrightarrow> x = [] \<or> hd x = CHR '','' \<or> hd x = CHR '']'' \<or> hd x = CHR ''}''"

lemma closes_simps [simp]:
  "closes []"
  "closes (CHR '','' # x)"
  "closes (CHR '']'' # x)"
  "closes (CHR ''}'' # x)"
  by (simp_all add: closes_def)

subsection \<open>Strings\<close>

definition hex_value :: "char \<Rightarrow> nat option" where
  "hex_value c = (let n = of_char c in
     if 48 \<le> n \<and> n < 58 then Some (n - 48)
     else if 97 \<le> n \<and> n < 103 then Some (n - 87)
     else if 65 \<le> n \<and> n < 71 then Some (n - 55) else None)"

lemma hex_value_digit: "n < 16 \<Longrightarrow> hex_value (hex_digit n) = Some n"
  by (simp add: hex_value_def hex_digit_def Let_def)

text \<open>
  Reading one character of a JSON string. An escape \<open>\u\<close> beyond the modelled code points
  is rejected.
\<close>

fun read_char :: "string \<Rightarrow> (char \<times> string) option" where
  "read_char [] = None"
| "read_char (c # cs) =
     (if c \<noteq> char_of (92::nat) then (if (of_char c :: nat) < 32 then None else Some (c, cs))
      else case cs of
        [] \<Rightarrow> None
      | d # ds \<Rightarrow>
          (if d = CHR ''n'' then Some (char_of (10::nat), ds)
           else if d = CHR ''r'' then Some (char_of (13::nat), ds)
           else if d = CHR ''t'' then Some (char_of (9::nat), ds)
           else if d = CHR ''b'' then Some (char_of (8::nat), ds)
           else if d = CHR ''f'' then Some (char_of (12::nat), ds)
           else if d = char_of (34::nat) \<or> d = char_of (92::nat) \<or> d = CHR ''/'' then Some (d, ds)
           else if d = CHR ''u'' then
             (case ds of
                h3 # h2 # h1 # h0 # r \<Rightarrow>
                  (case (hex_value h3, hex_value h2, hex_value h1, hex_value h0) of
                     (Some 0, Some 0, Some a, Some b) \<Rightarrow> Some (char_of (16 * a + b), r)
                   | _ \<Rightarrow> None)
              | _ \<Rightarrow> None)
           else None))"

lemma char_of_number: "of_char c = n \<Longrightarrow> c = char_of (n::nat)"
  by (metis char_of_char)

lemma read_escape: "read_char (escape_char a c @ x) = Some (c, x)"
proof -
  define n where "n = (of_char c :: nat)"
  have c: "c = char_of n" by (simp add: n_def)
  have lt: "n < 256" unfolding n_def by (rule nat_of_char_less_256)
  consider "n \<in> {34, 92, 10, 13, 9, 8, 12}" | "n \<notin> {34, 92, 10, 13, 9, 8, 12}" "n < 32 \<or> a \<and> 126 < n"
    | "n \<notin> {34, 92, 10, 13, 9, 8, 12}" "\<not> (n < 32 \<or> a \<and> 126 < n)" by blast
  then show ?thesis
  proof cases
    case 1
    then show ?thesis by (auto simp: escape_char_def c char_of_eq_iff)
  next
    case 2
    have "16 * (n div 16) + n mod 16 = n" by simp
    moreover have "n div 16 < 16" and "n mod 16 < 16" using lt by auto
    moreover have "hex_value (CHR ''0'') = Some 0" by (simp add: hex_value_def)
    moreover have "char_of (34::nat) \<noteq> CHR ''u''" and "char_of (92::nat) \<noteq> CHR ''u''"
      by (simp_all add: char_of_eq_iff)
    then have "CHR ''u'' \<noteq> char_of (34::nat)" and "CHR ''u'' \<noteq> char_of (92::nat)" by metis+
    moreover have "escape_char a c = [char_of (92::nat), CHR ''u'', CHR ''0'', CHR ''0'', hex_digit (n div 16), hex_digit (n mod 16)]"
      using 2 by (simp add: escape_char_def n_def Let_def)
    ultimately show ?thesis by (simp add: hex_value_digit c)
  next
    case 3
    then have "escape_char a c = [c]" by (simp add: escape_char_def n_def Let_def)
    moreover have "c \<noteq> char_of (92::nat)" using 3 by (auto simp: n_def)
    ultimately show ?thesis using 3 by (simp add: n_def)
  qed
qed

lemma escape_char_not_quote: "\<exists>d ds. escape_char a c = d # ds \<and> d \<noteq> char_of (34::nat)"
proof (cases "of_char c = (34::nat)")
  case True
  then show ?thesis by (simp add: escape_char_def)
next
  case False
  then have "c \<noteq> char_of (34::nat)" by auto
  then show ?thesis by (auto simp: escape_char_def Let_def)
qed

lemma escaped_body_inject:
  "concat (map (escape_char a) s) @ char_of (34::nat) # x = concat (map (escape_char a) t) @ char_of (34::nat) # y
   \<Longrightarrow> s = t \<and> x = y"
proof (induction s arbitrary: t)
  case Nil
  then show ?case
    using escape_char_not_quote [of a "hd t"] by (cases t) auto
next
  case (Cons c s)
  show ?case
  proof (cases t)
    case Nil
    with Cons.prems show ?thesis using escape_char_not_quote [of a c] by auto
  next
    case (Cons d t')
    with Cons.prems have eq: "escape_char a c @ concat (map (escape_char a) s) @ char_of (34::nat) # x
        = escape_char a d @ concat (map (escape_char a) t') @ char_of (34::nat) # y"
      by simp
    from arg_cong [OF eq, of read_char] Cons.IH [of t'] Cons show ?thesis
      by (simp add: read_escape)
  qed
qed

lemma quote_inject: "quote a s @ x = quote a t @ y \<Longrightarrow> s = t \<and> x = y"
  using escaped_body_inject [of a s x t y] by (simp add: quote_def)

subsection \<open>Numbers\<close>

definition undigits :: "string \<Rightarrow> nat" where
  "undigits s = foldl (\<lambda>n c. n * 10 + (of_char c - 48)) 0 s"

lemma undigits_digits: "undigits (digits n) = n"
proof (induction n rule: digits.induct)
  case (1 n)
  show ?case
  proof (cases "n < 10")
    case True
    then show ?thesis by (subst digits.simps) (simp add: undigits_def)
  next
    case False
    with 1 have "undigits (digits (n div 10)) = n div 10" by simp
    with False show ?thesis by (subst digits.simps) (simp add: undigits_def)
  qed
qed

lemma digits_chars: "digits n \<noteq> [] \<and> list_all is_digit (digits n)"
proof (induction n rule: digits.induct)
  case (1 n)
  show ?case
  proof (cases "n < 10")
    case True
    then have "digits n = [char_of (48 + n)]" by (simp add: digits.simps)
    with True show ?thesis by (simp add: is_digit_def)
  next
    case False
    then have "digits n = digits (n div 10) @ [char_of (48 + n mod 10)]" by (simp add: digits.simps)
    with 1 False show ?thesis by (simp add: is_digit_def)
  qed
qed

lemma digits_inject: "digits m = digits n \<Longrightarrow> m = n"
  by (metis undigits_digits)

lemma digits_hd: "is_digit (hd (digits n))"
  using digits_chars [of n] by (cases "digits n") simp_all

lemma is_digit_special [simp]:
  "\<not> is_digit (CHR ''-'')" "\<not> is_digit (CHR ''.'')" "\<not> is_digit (CHR ''e'')"
  "\<not> is_digit (CHR '','')" "\<not> is_digit (CHR '']'')" "\<not> is_digit (CHR ''}'')"
  by (simp_all add: is_digit_def)

lemma show_int_inject: "show_int i = show_int j \<Longrightarrow> i = j"
proof -
  assume eq: "show_int i = show_int j"
  have h: "digits k \<noteq> CHR ''-'' # w" for k w
    using digits_hd [of k] by auto
  show ?thesis
  proof (cases "i < 0"; cases "j < 0")
    assume "i < 0" and "j < 0"
    with eq digits_inject [of "nat (- i)" "nat (- j)"] show ?thesis by (simp add: show_int_def)
  next
    assume "\<not> i < 0" and "\<not> j < 0"
    with eq digits_inject [of "nat i" "nat j"] show ?thesis by (simp add: show_int_def)
  next
    assume "i < 0" and "\<not> j < 0"
    with eq h [of "nat j"] show ?thesis by (simp add: show_int_def) metis
  next
    assume "\<not> i < 0" and "j < 0"
    with eq h [of "nat i"] show ?thesis by (simp add: show_int_def)
  qed
qed

text \<open>A number is read up to the first character that no number contains.\<close>

definition number_text :: "string \<Rightarrow> bool" where
  "number_text t \<longleftrightarrow> t \<noteq> [] \<and> list_all num_char t"

lemma closes_takeWhile: "closes x \<Longrightarrow> takeWhile num_char x = []"
  by (cases x) (auto simp: closes_def num_char_def)

lemma number_inject:
  assumes "number_text s" and "number_text t" and "s @ x = t @ y" and "closes x" and "closes y"
  shows "s = t \<and> x = y"
proof -
  have t: "takeWhile num_char (s @ x) = s" if "number_text s" "closes x" for s x
    using that by (simp add: number_text_def list_all_iff closes_takeWhile)
  have "s = t"
    using t [OF assms(1,4)] t [OF assms(2,5)] assms(3) by simp
  with assms(3) show ?thesis by simp
qed

lemma number_text_int: "number_text (show_int i)"
  using digits_chars [of "nat i"] digits_chars [of "nat (- i)"]
  by (auto simp: number_text_def show_int_def num_char_def list_all_iff)

lemma number_text_float: "float_text t \<Longrightarrow> number_text t"
  by (auto simp: float_text_def number_text_def)

lemma digits_digit: "c \<in> set (digits n) \<Longrightarrow> is_digit c"
  using digits_chars [of n] by (simp add: list_all_iff)

lemma show_int_not_float: "float_text t \<Longrightarrow> show_int i \<noteq> t"
proof -
  have "CHR ''.'' \<notin> set (digits n)" and "CHR ''e'' \<notin> set (digits n)" for n
    using digits_digit [of _ n] is_digit_special by blast+
  then show "float_text t \<Longrightarrow> show_int i \<noteq> t" by (auto simp: float_text_def show_int_def)
qed

subsection \<open>Values\<close>

text \<open>The first character of a printed value tells its kind.\<close>

lemma number_hd: "number_text t \<Longrightarrow> num_char (hd t) \<and> t \<noteq> []"
  by (cases t) (auto simp: number_text_def)

lemma join_inject:
  assumes entry: "\<And>v w x y. v \<in> set xs \<Longrightarrow> w \<in> set ys \<Longrightarrow> f v @ x = f w @ y \<Longrightarrow> closes x \<Longrightarrow> closes y
      \<Longrightarrow> v = w \<and> x = y"
    and lead: "\<And>v. v \<in> set xs \<union> set ys \<Longrightarrow> f v \<noteq> [] \<and> hd (f v) \<noteq> c"
    and c: "c = CHR '']'' \<or> c = CHR ''}''"
    and eq: "join '','' (map f xs) @ c # x = join '','' (map f ys) @ c # y"
  shows "xs = ys \<and> x = y"
  using entry lead eq
proof (induction xs arbitrary: ys)
  case Nil
  show ?case
  proof (cases ys)
    case Nil
    with Nil.prems(3) show ?thesis by simp
  next
    case (Cons w ws)
    then obtain d ds where "f w = d # ds" "d \<noteq> c" using Nil.prems(2) [of w] by (cases "f w") auto
    with Cons Nil.prems(3) show ?thesis by (cases ws) auto
  qed
next
  case (Cons v vs)
  have closing: "closes (c # z)" for z using c by auto
  show ?case
  proof (cases ys)
    case Nil
    obtain d ds where "f v = d # ds" "d \<noteq> c" using Cons.prems(2) [of v] by (cases "f v") auto
    with Nil Cons.prems(3) show ?thesis by (cases vs) auto
  next
    case (Cons w ws)
    define p where "p = (if vs = [] then c # x else CHR '','' # join '','' (map f vs) @ c # x)"
    define q where "q = (if ws = [] then c # y else CHR '','' # join '','' (map f ws) @ c # y)"
    have "f v @ p = f w @ q"
      using Cons.prems(3) Cons by (cases vs; cases ws) (auto simp: p_def q_def)
    moreover have "closes p" and "closes q" by (simp_all add: p_def q_def closing)
    ultimately have vw: "v = w" and pq: "p = q"
      using Cons.prems(1) [of v w p q] Cons by auto
    have "c \<noteq> CHR '',''" using c by auto
    with pq have "(vs = []) = (ws = [])" by (auto simp: p_def q_def split: if_splits)
    show ?thesis
    proof (cases "vs = []")
      case True
      with pq \<open>(vs = []) = (ws = [])\<close> vw Cons show ?thesis by (simp add: p_def q_def)
    next
      case False
      with pq \<open>(vs = []) = (ws = [])\<close>
      have "join '','' (map f vs) @ c # x = join '','' (map f ws) @ c # y"
        by (simp add: p_def q_def)
      then have "vs = ws \<and> x = y"
        using Cons.IH [of ws] Cons.prems(1,2) Cons by auto
      with vw Cons show ?thesis by simp
    qed
  qed
qed

fun json_class :: "json \<Rightarrow> nat" where
  "json_class JNull = 0"
| "json_class (JBool _) = 1"
| "json_class (JInt _) = 2"
| "json_class (JFloat _) = 2"
| "json_class (JStr _) = 3"
| "json_class (JList _) = 4"
| "json_class (JObj _) = 5"

definition lead_class :: "char \<Rightarrow> nat" where
  "lead_class c =
     (if c = CHR ''n'' then 0 else if c = CHR ''t'' \<or> c = CHR ''f'' then 1 else if num_char c then 2
      else if c = char_of (34::nat) then 3 else if c = CHR ''['' then 4 else 5)"

lemma not_num_char [simp]:
  "\<not> num_char (CHR ''n'')" "\<not> num_char (CHR ''t'')" "\<not> num_char (CHR ''f'')"
  "\<not> num_char (CHR ''['')" "\<not> num_char (CHR ''{'')" "\<not> num_char (CHR '']'')" "\<not> num_char (CHR ''}'')"
  by (simp_all add: num_char_def is_digit_def)

lemma quote_char [simp]: "char_of (34::nat) = CHR 0x22"
  by (simp add: char_of_eq_iff)

lemma not_num_quote [simp]: "\<not> num_char (CHR 0x22)"
  by (simp add: num_char_def is_digit_def)

lemma num_char_class: "num_char c \<Longrightarrow> lead_class c = 2"
  by (auto simp: lead_class_def)

lemma dumps_lead:
  "printable v \<Longrightarrow> dumps a isep ksep v \<noteq> [] \<and> lead_class (hd (dumps a isep ksep v)) = json_class v"
proof (cases v)
  case (JInt i)
  then show ?thesis using number_hd [OF number_text_int [of i]] by (simp add: num_char_class)
next
  case (JFloat t)
  assume "printable v"
  with JFloat have "number_text t" by (simp add: number_text_float)
  from number_hd [OF this] JFloat show ?thesis by (simp add: num_char_class)
qed (simp_all add: lead_class_def quote_def)

lemma dumps_lead_not:
  "printable v \<Longrightarrow> c = CHR '']'' \<Longrightarrow> hd (dumps a isep ksep v) \<noteq> c"
  using dumps_lead [of v a isep ksep]
  by (cases v) (auto simp: lead_class_def quote_def split: if_splits)

lemma same_class:
  assumes "printable v" and "printable w" and "dumps a i k v @ x = dumps a i k w @ y"
  shows "json_class v = json_class w"
proof -
  have "hd (dumps a i k v) = hd (dumps a i k w)"
    using assms dumps_lead [of v a i k] dumps_lead [of w a i k] by (metis hd_append2)
  with assms dumps_lead show ?thesis by metis
qed

lemma dumps_inject:
  "printable v \<Longrightarrow> printable w \<Longrightarrow> dumps a '','' '':'' v @ x = dumps a '','' '':'' w @ y
   \<Longrightarrow> closes x \<Longrightarrow> closes y \<Longrightarrow> v = w \<and> x = y"
proof (induction v arbitrary: w x y)
  case JNull
  with same_class [OF JNull.prems(1-3)] show ?case by (cases w) auto
next
  case (JBool b)
  with same_class [OF JBool.prems(1-3)] show ?case by (cases w) (auto split: if_splits)
next
  case (JInt i)
  from same_class [OF JInt.prems(1-3)] consider j where "w = JInt j" | t where "w = JFloat t"
    by (cases w) auto
  then show ?case
  proof cases
    case 1
    with JInt.prems number_inject [OF number_text_int number_text_int, of i x j y] show ?thesis
      by (auto dest: show_int_inject)
  next
    case 2
    with JInt.prems number_inject [OF number_text_int number_text_float, of t i x y] show ?thesis
      by (auto dest: show_int_not_float)
  qed
next
  case (JFloat s)
  from same_class [OF JFloat.prems(1-3)] consider j where "w = JInt j" | t where "w = JFloat t"
    by (cases w) auto
  then show ?case
  proof cases
    case 1
    with JFloat.prems number_inject [OF number_text_float number_text_int, of s x j y] show ?thesis
      by (auto dest: show_int_not_float)
  next
    case 2
    with JFloat.prems number_inject [OF number_text_float number_text_float, of s t x y] show ?thesis
      by auto
  qed
next
  case (JStr s)
  with same_class [OF JStr.prems(1-3)] obtain t where "w = JStr t" by (cases w) auto
  with JStr.prems quote_inject [of a s x t y] show ?case by simp
next
  case (JList xs)
  with same_class [OF JList.prems(1-3)] obtain ys where w: "w = JList ys" by (cases w) auto
  have "xs = ys \<and> x = y"
  proof (rule join_inject [where f = "dumps a '','' '':''" and c = "CHR '']''"])
    show "join '','' (map (dumps a '','' '':'') xs) @ CHR '']'' # x
        = join '','' (map (dumps a '','' '':'') ys) @ CHR '']'' # y"
      using JList.prems(3) w by simp
    fix v w' x' y' assume "v \<in> set xs" "w' \<in> set ys" "dumps a '','' '':'' v @ x' = dumps a '','' '':'' w' @ y'"
      "closes x'" "closes y'"
    then show "v = w' \<and> x' = y'" using JList.IH [of v w' x' y'] JList.prems(1,2) w by (simp add: list_all_iff)
  next
    fix v assume "v \<in> set xs \<union> set ys"
    then have "printable v" using JList.prems(1,2) w by (auto simp: list_all_iff)
    then show "dumps a '','' '':'' v \<noteq> [] \<and> hd (dumps a '','' '':'' v) \<noteq> CHR '']''"
      using dumps_lead dumps_lead_not by blast
  qed simp
  with w show ?case by simp
next
  case (JObj kvs)
  with same_class [OF JObj.prems(1-3)] obtain lvs where w: "w = JObj lvs" by (cases w) auto
  let ?f = "\<lambda>(k, v). quote a k @ '':'' @ dumps a '','' '':'' v"
  have "kvs = lvs \<and> x = y"
  proof (rule join_inject [where f = ?f and c = "CHR ''}''"])
    show "join '','' (map ?f kvs) @ CHR ''}'' # x = join '','' (map ?f lvs) @ CHR ''}'' # y"
      using JObj.prems(3) w by simp
    fix v w' x' y' assume v: "v \<in> set kvs" "w' \<in> set lvs" and eq: "?f v @ x' = ?f w' @ y'"
      and c: "closes x'" "closes y'"
    obtain k1 v1 k2 v2 where p: "v = (k1, v1)" "w' = (k2, v2)" by (cases v; cases w')
    with eq have "quote a k1 @ CHR '':'' # dumps a '','' '':'' v1 @ x' = quote a k2 @ CHR '':'' # dumps a '','' '':'' v2 @ y'"
      by simp
    then have "k1 = k2" and rest: "dumps a '','' '':'' v1 @ x' = dumps a '','' '':'' v2 @ y'"
      by (auto dest: quote_inject)
    moreover have "printable v1" and "printable v2"
      using v p JObj.prems(1,2) w by (auto simp: list_all_iff)
    moreover have "v1 \<in> Basic_BNFs.snds v" using p by simp
    ultimately have "v1 = v2 \<and> x' = y'" using JObj.IH [OF v(1), of v1 v2 x' y'] c by simp
    with \<open>k1 = k2\<close> p show "v = w' \<and> x' = y'" by simp
  next
    fix v assume "v \<in> set kvs \<union> set lvs"
    show "?f v \<noteq> [] \<and> hd (?f v) \<noteq> CHR ''}''" by (cases v) (simp add: quote_def)
  qed simp
  with w show ?case by simp
qed

text \<open>Two values with the same compact text are the same value.\<close>

lemma dumps_compact_inject:
  "printable v \<Longrightarrow> printable w \<Longrightarrow> dumps_compact a v = dumps_compact a w \<Longrightarrow> v = w"
  using dumps_inject [of v w a "[]" "[]"] by (simp add: dumps_compact_def)

section \<open>Facts about the comparisons\<close>

lemma json_exact_atoms [simp]:
  "json_exact (JInt i) w \<longleftrightarrow> w = JInt i"
  "json_exact (JBool b) w \<longleftrightarrow> w = JBool b"
  "json_exact (JStr s) w \<longleftrightarrow> w = JStr s"
  "json_exact JNull w \<longleftrightarrow> w = JNull"
  by (cases w; auto simp: json_exact.simps)+

end
