(* ===== verification/Json_Parse.thy ===== *)
theory Json_Parse
  imports Json
begin

text \<open>
  \<open>json.loads\<close>: text columns of the store hold JSON text, which the code parses back to compare or
  validate it. \<open>loads\<close> is a recursive-descent reader of the JSON grammar as Python accepts it (white
  space, a repeated key keeps its last value), with the length of the text as fuel, which suffices
  because every call consumes a character. A number with a fraction or exponent is kept as its text;
  the constants \<open>NaN\<close> and \<open>Infinity\<close> are not read. The round trip \<open>loads_dumps\<close> covers every
  value the code prints.
\<close>

section \<open>The reader\<close>

definition json_space :: "char \<Rightarrow> bool" where
  "json_space c \<longleftrightarrow> (let n = of_char c :: nat in n = 32 \<or> n = 9 \<or> n = 10 \<or> n = 13)"

definition skip_ws :: "string \<Rightarrow> string" where
  "skip_ws s = dropWhile json_space s"

fun read_string :: "nat \<Rightarrow> string \<Rightarrow> (string \<times> string) option" where
  "read_string 0 s = None"
| "read_string (Suc n) s = (case s of
      [] \<Rightarrow> None
    | c # cs \<Rightarrow> if c = char_of (34::nat) then Some ([], cs)
        else (case read_char s of None \<Rightarrow> None
          | Some (d, r) \<Rightarrow> map_option (\<lambda>(t, r'). (d # t, r')) (read_string n r)))"

text \<open>The longest prefix that is a number: its text, whether it is a float, and the rest.\<close>

definition scan_sign :: "string \<Rightarrow> string \<times> string" where
  "scan_sign s = (case s of c # cs \<Rightarrow> if c = CHR ''-'' then ([c], cs) else ([], s) | [] \<Rightarrow> ([], []))"

definition scan_int :: "string \<Rightarrow> (string \<times> string) option" where
  "scan_int s = (let ds = takeWhile is_digit s; r = dropWhile is_digit s in
     if ds = [] then None
     else if hd ds = CHR ''0'' then Some ([hd ds], tl ds @ r) else Some (ds, r))"

definition scan_frac :: "string \<Rightarrow> string \<times> string" where
  "scan_frac s = (case s of c # cs \<Rightarrow>
      if c = CHR ''.'' \<and> takeWhile is_digit cs \<noteq> []
      then (c # takeWhile is_digit cs, dropWhile is_digit cs) else ([], s)
    | [] \<Rightarrow> ([], []))"

definition scan_exp :: "string \<Rightarrow> string \<times> string" where
  "scan_exp s = (case s of c # cs \<Rightarrow>
      if c = CHR ''e'' \<or> c = CHR ''E'' then
        (let (sg, r) = (case cs of d # ds \<Rightarrow>
             if d = CHR ''-'' \<or> d = CHR ''+'' then ([d], ds) else ([], cs) | [] \<Rightarrow> ([], [])) in
         if takeWhile is_digit r \<noteq> [] then (c # sg @ takeWhile is_digit r, dropWhile is_digit r) else ([], s))
      else ([], s)
    | [] \<Rightarrow> ([], []))"

definition scan_number :: "string \<Rightarrow> (string \<times> bool \<times> string) option" where
  "scan_number s = (let (sg, s1) = scan_sign s in
     case scan_int s1 of None \<Rightarrow> None
     | Some (ip, s2) \<Rightarrow>
         let (fr, s3) = scan_frac s2; (ex, s4) = scan_exp s3 in
         Some (sg @ ip @ fr @ ex, fr @ ex \<noteq> [], s4))"

definition int_of_text :: "string \<Rightarrow> int" where
  "int_of_text t = (case t of c # cs \<Rightarrow> if c = CHR ''-'' then - int (undigits cs) else int (undigits t) | [] \<Rightarrow> 0)"

definition read_number :: "string \<Rightarrow> (json \<times> string) option" where
  "read_number s = (case scan_number s of None \<Rightarrow> None
     | Some (t, fl, r) \<Rightarrow> Some (if fl then JFloat t else JInt (int_of_text t), r))"

definition strip_prefix :: "string \<Rightarrow> string \<Rightarrow> string option" where
  "strip_prefix p s = (if take (length p) s = p then Some (drop (length p) s) else None)"

text \<open>A dictionary from its items in reading order.\<close>

definition json_dict :: "(string \<times> json) list \<Rightarrow> (string \<times> json) list" where
  "json_dict kvs = fold (\<lambda>(k, v) d. AList.update k v d) kvs []"

fun read_value :: "nat \<Rightarrow> string \<Rightarrow> (json \<times> string) option"
  and read_items :: "nat \<Rightarrow> string \<Rightarrow> (json list \<times> string) option"
  and read_members :: "nat \<Rightarrow> string \<Rightarrow> ((string \<times> json) list \<times> string) option" where
  "read_value 0 s = None"
| "read_value (Suc n) s = (case s of
      [] \<Rightarrow> None
    | c # cs \<Rightarrow>
        if c = char_of (34::nat) then map_option (\<lambda>(t, r). (JStr t, r)) (read_string (length cs) cs)
        else if c = CHR ''['' then
          (case skip_ws cs of
             d # ds \<Rightarrow> if d = CHR '']'' then Some (JList [], ds)
               else map_option (\<lambda>(vs, r). (JList vs, r)) (read_items n (skip_ws cs))
           | [] \<Rightarrow> None)
        else if c = CHR ''{'' then
          (case skip_ws cs of
             d # ds \<Rightarrow> if d = CHR ''}'' then Some (JObj [], ds)
               else map_option (\<lambda>(kvs, r). (JObj (json_dict kvs), r)) (read_members n (skip_ws cs))
           | [] \<Rightarrow> None)
        else if c = CHR ''n'' then map_option (\<lambda>r. (JNull, r)) (strip_prefix ''null'' s)
        else if c = CHR ''t'' then map_option (\<lambda>r. (JBool True, r)) (strip_prefix ''true'' s)
        else if c = CHR ''f'' then map_option (\<lambda>r. (JBool False, r)) (strip_prefix ''false'' s)
        else read_number s)"
| "read_items 0 s = None"
| "read_items (Suc n) s = (case read_value n s of None \<Rightarrow> None
    | Some (v, r) \<Rightarrow>
        (case skip_ws r of
           c # cs \<Rightarrow> if c = CHR '']'' then Some ([v], cs)
             else if c = CHR '','' then map_option (\<lambda>(vs, r'). (v # vs, r')) (read_items n (skip_ws cs))
             else None
         | [] \<Rightarrow> None))"
| "read_members 0 s = None"
| "read_members (Suc n) s = (case s of
      [] \<Rightarrow> None
    | q # cs \<Rightarrow>
        if q \<noteq> char_of (34::nat) then None
        else (case read_string (length cs) cs of None \<Rightarrow> None
          | Some (k, r) \<Rightarrow>
              (case skip_ws r of
                 c # cs' \<Rightarrow>
                   if c \<noteq> CHR '':'' then None
                   else (case read_value n (skip_ws cs') of None \<Rightarrow> None
                     | Some (v, r') \<Rightarrow>
                         (case skip_ws r' of
                            d # ds \<Rightarrow> if d = CHR ''}'' then Some ([(k, v)], ds)
                              else if d = CHR '','' then
                                map_option (\<lambda>(kvs, x). ((k, v) # kvs, x)) (read_members n (skip_ws ds))
                              else None
                          | [] \<Rightarrow> None))
               | [] \<Rightarrow> None)))"

definition loads :: "string \<Rightarrow> json option" where
  "loads s = (case read_value (length s) (skip_ws s) of None \<Rightarrow> None
     | Some (v, r) \<Rightarrow> if skip_ws r = [] then Some v else None)"

section \<open>Reading back what was printed\<close>

text \<open>Values with distinct keys and with floats whose text is a number with a fraction or exponent.\<close>

fun readable :: "json \<Rightarrow> bool" where
  "readable (JFloat t) \<longleftrightarrow> scan_number t = Some (t, True, [])"
| "readable (JList xs) \<longleftrightarrow> list_all readable xs"
| "readable (JObj kvs) \<longleftrightarrow> distinct (map fst kvs) \<and> list_all (\<lambda>(k, v). readable v) kvs"
| "readable _ \<longleftrightarrow> True"

lemma read_string_body:
  "length (concat (map (escape_char a) s)) < n \<Longrightarrow>
   read_string n (concat (map (escape_char a) s) @ char_of (34::nat) # x) = Some (s, x)"
proof (induction s arbitrary: n)
  case Nil
  then show ?case by (cases n) simp_all
next
  case (Cons c s)
  obtain d ds where d: "escape_char a c = d # ds" "d \<noteq> char_of (34::nat)"
    using escape_char_not_quote by blast
  from Cons.prems d obtain m where m: "n = Suc m" "length (concat (map (escape_char a) s)) < m"
    by (cases n) auto
  have "read_char (escape_char a c @ concat (map (escape_char a) s) @ char_of (34::nat) # x)
      = Some (c, concat (map (escape_char a) s) @ char_of (34::nat) # x)"
    by (rule read_escape)
  with Cons.IH [OF m(2)] m(1) d show ?case by simp
qed

declare read_string.simps [simp del]

lemma quote_shape: "quote a s @ x = char_of (34::nat) # concat (map (escape_char a) s) @ char_of (34::nat) # x"
  by (simp add: quote_def)

lemma read_quote:
  "length (concat (map (escape_char a) s) @ char_of (34::nat) # x) \<le> n \<Longrightarrow>
   read_string n (concat (map (escape_char a) s) @ char_of (34::nat) # x) = Some (s, x)"
  by (rule read_string_body) simp

text \<open>Scanning stops at the text that follows a value.\<close>

lemma closes_head: "closes (c # x) \<Longrightarrow> \<not> is_digit c \<and> c \<noteq> CHR ''.'' \<and> c \<noteq> CHR ''e'' \<and> c \<noteq> CHR ''E''
    \<and> c \<noteq> CHR ''-'' \<and> c \<noteq> CHR ''+'' \<and> \<not> json_space c"
  by (auto simp: closes_def json_space_def)

lemma digits_append:
  assumes "closes x"
  shows "takeWhile is_digit (s @ x) = takeWhile is_digit s" and "dropWhile is_digit (s @ x) = dropWhile is_digit s @ x"
proof -
  have x: "takeWhile is_digit x = []" "dropWhile is_digit x = x"
    using assms closes_head by (cases x; fastforce)+
  show "takeWhile is_digit (s @ x) = takeWhile is_digit s" using x by (induction s) auto
  show "dropWhile is_digit (s @ x) = dropWhile is_digit s @ x" using x by (induction s) auto
qed

lemma scan_sign_append: "s \<noteq> [] \<Longrightarrow> scan_sign (s @ x) = apsnd (\<lambda>r. r @ x) (scan_sign s)"
  by (cases s) (auto simp: scan_sign_def)

lemma scan_int_append: "closes x \<Longrightarrow> scan_int (s @ x) = map_option (apsnd (\<lambda>r. r @ x)) (scan_int s)"
  by (simp add: scan_int_def Let_def digits_append)

lemma scan_frac_append: "closes x \<Longrightarrow> scan_frac (s @ x) = apsnd (\<lambda>r. r @ x) (scan_frac s)"
proof (cases s)
  case Nil
  moreover assume "closes x"
  ultimately show ?thesis by (cases x) (auto simp: scan_frac_def dest: closes_head)
qed (auto simp: scan_frac_def digits_append)

lemma scan_exp_append: "closes x \<Longrightarrow> scan_exp (s @ x) = apsnd (\<lambda>r. r @ x) (scan_exp s)"
proof -
  assume x: "closes x"
  show ?thesis
  proof (cases s)
    case Nil
    with x show ?thesis by (cases x) (auto simp: scan_exp_def dest: closes_head)
  next
    case (Cons c cs)
    show ?thesis
    proof (cases cs)
      case Nil
      with x Cons have "takeWhile is_digit x = []" using digits_append(1) [OF x, of "[]"] by simp
      with x Cons Nil show ?thesis by (cases x) (auto simp: scan_exp_def dest: closes_head)
    next
      case (Cons d ds)
      with \<open>s = c # cs\<close> x show ?thesis
        using digits_append [OF x, of ds] digits_append [OF x, of "d # ds"]
        by (auto simp: scan_exp_def split: prod.splits)
    qed
  qed
qed

lemma scan_number_append:
  assumes x: "closes x" and s: "scan_number s = Some (t, fl, r)"
  shows "scan_number (s @ x) = Some (t, fl, r @ x)"
proof -
  have ne: "s \<noteq> []"
  proof
    assume "s = []"
    with s show False by (simp add: scan_number_def scan_sign_def scan_int_def)
  qed
  obtain sg s1 where 1: "scan_sign s = (sg, s1)" by fastforce
  from s 1 obtain ip s2 where 2: "scan_int s1 = Some (ip, s2)"
    by (auto simp: scan_number_def split: option.splits)
  obtain fr s3 where 3: "scan_frac s2 = (fr, s3)" by fastforce
  obtain ex s4 where 4: "scan_exp s3 = (ex, s4)" by fastforce
  from s 1 2 3 4 show ?thesis
    by (simp add: scan_number_def scan_sign_append [OF ne] scan_int_append [OF x] scan_frac_append [OF x]
        scan_exp_append [OF x])
qed

lemma digits_zero_head: "hd (digits n) = CHR ''0'' \<Longrightarrow> n = 0"
proof (induction n rule: digits.induct)
  case (1 n)
  show ?case
  proof (cases "n < 10")
    case True
    with 1(2) have "char_of (48 + n) = CHR ''0''" by (simp add: digits.simps)
    with True show ?thesis by (simp add: char_of_eq_iff take_bit_eq_mod)
  next
    case False
    then have "digits n = digits (n div 10) @ [char_of (48 + n mod 10)]" by (simp add: digits.simps)
    with 1 False digits_chars [of "n div 10"] show ?thesis by (simp add: hd_append)
  qed
qed

lemma digits_0: "digits 0 = ''0''"
  by (simp add: digits.simps char_of_eq_iff)

lemma scan_int_digits: "scan_int (digits n) = Some (digits n, [])"
proof -
  have d: "takeWhile is_digit (digits n) = digits n" "dropWhile is_digit (digits n) = []"
    using digits_chars [of n] by (auto simp: list_all_iff)
  show ?thesis
  proof (cases "hd (digits n) = CHR ''0''")
    case True
    then have "n = 0" by (rule digits_zero_head)
    then show ?thesis using d digits_0 by (simp add: scan_int_def)
  next
    case False
    then show ?thesis using digits_chars [of n] unfolding scan_int_def Let_def d by simp
  qed
qed

lemma scan_show_int: "scan_number (show_int i) = Some (show_int i, False, [])"
proof -
  have "scan_sign (digits n) = ([], digits n)" for n
    using digits_chars [of n] digits_hd [of n] by (cases "digits n") (auto simp: scan_sign_def)
  then show ?thesis
    by (simp add: scan_number_def show_int_def scan_int_digits scan_frac_def scan_exp_def scan_sign_def [of "_ # _"])
qed

lemma int_of_show: "int_of_text (show_int i) = i"
proof -
  have "digits n \<noteq> CHR ''-'' # w" for n w using digits_hd [of n] by auto
  then have "int_of_text (digits n) = int n" for n
    using digits_chars [of n] undigits_digits [of n]
    by (cases "digits n") (auto simp: int_of_text_def)
  moreover have "int_of_text (CHR ''-'' # digits n) = - int n" for n
    by (simp add: int_of_text_def undigits_digits)
  ultimately show ?thesis by (simp add: show_int_def)
qed

text \<open>White space is skipped only where there is some.\<close>

lemma skip_ws_head: "s \<noteq> [] \<Longrightarrow> \<not> json_space (hd s) \<Longrightarrow> skip_ws (s @ x) = s @ x"
  by (cases s) (simp_all add: skip_ws_def)

lemma skip_ws_Cons [simp]: "\<not> json_space c \<Longrightarrow> skip_ws (c # x) = c # x"
  by (simp add: skip_ws_def)

lemma json_space_special [simp]:
  "\<not> json_space (CHR '','')" "\<not> json_space (CHR '']'')" "\<not> json_space (CHR ''}'')" "\<not> json_space (CHR '':'')"
  "\<not> json_space (CHR ''['')" "\<not> json_space (CHR ''{'')" "\<not> json_space (CHR 0x22)" "\<not> json_space (CHR ''n'')"
  "\<not> json_space (CHR ''t'')" "\<not> json_space (CHR ''f'')"
  by (simp_all add: json_space_def)

lemma num_char_not_space: "num_char c \<Longrightarrow> \<not> json_space c"
  by (auto simp: num_char_def is_digit_def json_space_def Let_def)

lemma dumps_head:
  assumes "printable v"
  obtains c cs where "dumps a i k v = c # cs" and "\<not> json_space c" and "c \<noteq> CHR '']''" and "c \<noteq> CHR ''}''"
proof -
  obtain c cs where c: "dumps a i k v = c # cs" using dumps_lead [OF assms, of a i k] by (cases "dumps a i k v") auto
  have "\<not> json_space c \<and> c \<noteq> CHR '']'' \<and> c \<noteq> CHR ''}''"
  proof (cases v)
    case (JInt n)
    with c have "num_char c" using number_hd [OF number_text_int [of n]] by simp
    then show ?thesis using num_char_not_space by auto
  next
    case (JFloat t)
    with c assms have "num_char c" using number_hd [OF number_text_float, of t] by simp
    then show ?thesis using num_char_not_space by auto
  qed (use c in \<open>auto simp: quote_def split: if_splits\<close>)
  with c that show ?thesis by blast
qed

lemma skip_ws_spaces [simp]: "list_all json_space sp \<Longrightarrow> skip_ws (sp @ s) = skip_ws s"
  by (induction sp) (simp_all add: skip_ws_def)

lemma read_items_join:
  assumes sp: "list_all json_space sp"
    and elem: "\<And>v y m. v \<in> set xs \<Longrightarrow> closes y \<Longrightarrow> length (f v) \<le> m \<Longrightarrow> read_value m (f v @ y) = Some (v, y)"
    and lead: "\<And>v. v \<in> set xs \<Longrightarrow> f v \<noteq> [] \<and> \<not> json_space (hd (f v))"
    and "xs \<noteq> []" and "length (join (CHR '','' # sp) (map f xs)) < n"
  shows "read_items n (join (CHR '','' # sp) (map f xs) @ CHR '']'' # x) = Some (xs, x)"
  using assms(2-)
proof (induction xs arbitrary: n)
  case (Cons v vs)
  then obtain m where n: "n = Suc m" by (cases n) auto
  show ?case
  proof (cases vs)
    case Nil
    have "read_value m (f v @ CHR '']'' # x) = Some (v, CHR '']'' # x)"
      using Cons.prems(1,4) n Nil by simp
    with Nil n show ?thesis by simp
  next
    case (Cons w zs)
    have len: "length (join (CHR '','' # sp) (map f vs)) < m" and lv: "length (f v) \<le> m"
      using Cons.prems(4) n Cons by simp_all
    have "read_items m (join (CHR '','' # sp) (map f vs) @ CHR '']'' # x) = Some (vs, x)"
      using Cons.IH [of m] Cons.prems(1,2) len Cons by simp
    moreover have "skip_ws (join (CHR '','' # sp) (map f vs) @ CHR '']'' # x) = join (CHR '','' # sp) (map f vs) @ CHR '']'' # x"
    proof (rule skip_ws_head)
      have "f w \<noteq> [] \<and> \<not> json_space (hd (f w))" using Cons.prems(2) Cons by simp
      then show "join (CHR '','' # sp) (map f vs) \<noteq> []" "\<not> json_space (hd (join (CHR '','' # sp) (map f vs)))"
        using Cons by (cases zs; simp)+
    qed
    moreover have "read_value m (f v @ CHR '','' # sp @ join (CHR '','' # sp) (map f vs) @ CHR '']'' # x)
        = Some (v, CHR '','' # sp @ join (CHR '','' # sp) (map f vs) @ CHR '']'' # x)"
      using Cons.prems(1) lv by simp
    ultimately show ?thesis using n Cons sp by simp
  qed
qed simp

lemma read_members_join:
  assumes sp: "list_all json_space sp" and us: "list_all json_space us"
    and elem: "\<And>k v y m. (k, v) \<in> set xs \<Longrightarrow> closes y \<Longrightarrow> length (f v) \<le> m \<Longrightarrow> read_value m (f v @ y) = Some (v, y)"
    and lead: "\<And>k v. (k, v) \<in> set xs \<Longrightarrow> f v \<noteq> [] \<and> \<not> json_space (hd (f v))"
    and "xs \<noteq> []" and "length (join (CHR '','' # sp) (map (\<lambda>(k, v). quote a k @ (CHR '':'' # us) @ f v) xs)) < n"
  shows "read_members n (join (CHR '','' # sp) (map (\<lambda>(k, v). quote a k @ (CHR '':'' # us) @ f v) xs) @ CHR ''}'' # x) = Some (xs, x)"
  using assms(3-)
proof (induction xs arbitrary: n)
  case (Cons p vs)
  obtain k v where p: "p = (k, v)" by fastforce
  from Cons.prems(4) obtain m where n: "n = Suc m" by (cases n) auto
  let ?g = "\<lambda>(k, v). quote a k @ (CHR '':'' # us) @ f v"
  have key: "read_members (Suc m) (quote a k @ CHR '':'' # us @ f v @ y)
     = (case read_value m (f v @ y) of None \<Rightarrow> None
        | Some (v, r') \<Rightarrow>
            (case skip_ws r' of
               d # ds \<Rightarrow> if d = CHR ''}'' then Some ([(k, v)], ds)
                 else if d = CHR '','' then map_option (\<lambda>(kvs, x). ((k, v) # kvs, x)) (read_members m (skip_ws ds))
                 else None
             | [] \<Rightarrow> None))" for y
  proof -
    have "f v \<noteq> [] \<and> \<not> json_space (hd (f v))" using Cons.prems(2) [of k v] p by simp
    then have "skip_ws (us @ f v @ y) = f v @ y" using us skip_ws_head by simp
    then show ?thesis
      using read_quote [of a k "CHR '':'' # us @ f v @ y"] unfolding quote_shape by simp
  qed
  show ?case
  proof (cases vs)
    case Nil
    have "read_value m (f v @ CHR ''}'' # x) = Some (v, CHR ''}'' # x)"
      by (rule Cons.prems(1) [of k]) (use Cons.prems(4) n Nil p in simp_all)
    with key [of "CHR ''}'' # x"] Nil n p show ?thesis by simp
  next
    case (Cons w zs)
    have len: "length (join (CHR '','' # sp) (map ?g vs)) < m" and lv: "length (f v) \<le> m"
      using Cons.prems(4) n Cons p by simp_all
    have "read_members m (join (CHR '','' # sp) (map ?g vs) @ CHR ''}'' # x) = Some (vs, x)"
    proof (rule Cons.IH)
      fix k v y l assume "(k, v) \<in> set vs" and "closes y" and "length (f v) \<le> l"
      then show "read_value l (f v @ y) = Some (v, y)" by (intro Cons.prems(1) [of k]) simp_all
    next
      fix k v assume "(k, v) \<in> set vs"
      then show "f v \<noteq> [] \<and> \<not> json_space (hd (f v))" by (intro Cons.prems(2) [of k]) simp
    next
      show "vs \<noteq> []" using Cons by simp
    qed (rule len)
    moreover have "skip_ws (join (CHR '','' # sp) (map ?g vs) @ CHR ''}'' # x) = join (CHR '','' # sp) (map ?g vs) @ CHR ''}'' # x"
    proof (rule skip_ws_head)
      have "?g w \<noteq> [] \<and> hd (?g w) = CHR 0x22" by (cases w) (simp add: quote_def)
      then show "join (CHR '','' # sp) (map ?g vs) \<noteq> []" "\<not> json_space (hd (join (CHR '','' # sp) (map ?g vs)))"
        using Cons by (cases zs; simp)+
    qed
    moreover have "read_value m (f v @ CHR '','' # sp @ join (CHR '','' # sp) (map ?g vs) @ CHR ''}'' # x)
        = Some (v, CHR '','' # sp @ join (CHR '','' # sp) (map ?g vs) @ CHR ''}'' # x)"
      by (rule Cons.prems(1) [of k]) (simp_all add: lv p)
    ultimately show ?thesis
      using key [of "CHR '','' # sp @ join (CHR '','' # sp) (map ?g vs) @ CHR ''}'' # x"] n Cons p sp by simp
  qed
qed simp

lemma fold_update_items:
  "distinct (map fst (d @ kvs)) \<Longrightarrow> fold (\<lambda>(k, v) d. AList.update k v d) kvs d = d @ kvs"
proof (induction kvs arbitrary: d)
  case (Cons p kvs)
  obtain k v where p: "p = (k, v)" by fastforce
  have "AList.update k v d = d @ [(k, v)]" using Cons.prems p by (intro update_fresh) auto
  with Cons.IH [of "d @ [(k, v)]"] Cons.prems p show ?case by simp
qed simp

lemma json_dict_distinct: "distinct (map fst kvs) \<Longrightarrow> json_dict kvs = kvs"
  using fold_update_items [of "[]" kvs] by (simp add: json_dict_def)

lemma join_nonempty: "xs \<noteq> [] \<Longrightarrow> (\<And>v. v \<in> set xs \<Longrightarrow> f v \<noteq> []) \<Longrightarrow>
    \<exists>v \<in> set xs. hd (join s (map f xs)) = hd (f v) \<and> join s (map f xs) \<noteq> []"
  by (cases xs rule: remdups_adj.cases) auto

lemma read_value_dumps:
  assumes sp: "list_all json_space sp" and us: "list_all json_space us"
  shows "printable v \<Longrightarrow> readable v \<Longrightarrow> closes x \<Longrightarrow> length (dumps a (CHR '','' # sp) (CHR '':'' # us) v) \<le> n
   \<Longrightarrow> read_value n (dumps a (CHR '','' # sp) (CHR '':'' # us) v @ x) = Some (v, x)"
proof (induction v arbitrary: n x)
  case JNull
  then show ?case by (cases n) (simp_all add: strip_prefix_def)
next
  case (JBool b)
  then show ?case by (cases n; cases b) (simp_all add: strip_prefix_def)
next
  case (JInt i)
  obtain c cs where c: "show_int i = c # cs" "num_char c"
    using number_hd [OF number_text_int [of i]] by (cases "show_int i") auto
  have "read_number (show_int i @ x) = Some (JInt i, x)"
    using scan_number_append [OF JInt.prems(3) scan_show_int] by (simp add: read_number_def int_of_show)
  moreover obtain m where "n = Suc m" using JInt.prems(4) c by (cases n) auto
  moreover have "c \<noteq> CHR 0x22 \<and> c \<noteq> CHR ''['' \<and> c \<noteq> CHR ''{'' \<and> c \<noteq> CHR ''n'' \<and> c \<noteq> CHR ''t'' \<and> c \<noteq> CHR ''f''"
    using c(2) by auto
  ultimately show ?case using c by simp
next
  case (JFloat t)
  then have "float_text t" and t: "scan_number t = Some (t, True, [])" by simp_all
  then obtain c cs where c: "t = c # cs" "num_char c"
    using number_hd [OF number_text_float [of t]] by (cases t) auto
  have "read_number (t @ x) = Some (JFloat t, x)"
    using scan_number_append [OF JFloat.prems(3) t] by (simp add: read_number_def)
  moreover obtain m where "n = Suc m" using JFloat.prems(4) c by (cases n) auto
  moreover have "c \<noteq> CHR 0x22 \<and> c \<noteq> CHR ''['' \<and> c \<noteq> CHR ''{'' \<and> c \<noteq> CHR ''n'' \<and> c \<noteq> CHR ''t'' \<and> c \<noteq> CHR ''f''"
    using c(2) by auto
  ultimately show ?case using c by simp
next
  case (JStr s)
  then obtain m where "n = Suc m" by (cases n) (auto simp: quote_def)
  then show ?case using read_quote [of a s x] by (simp add: quote_shape)
next
  case (JList xs)
  let ?f = "dumps a (CHR '','' # sp) (CHR '':'' # us)"
  obtain m where n: "n = Suc m" using JList.prems(4) by (cases n) auto
  show ?case
  proof (cases "xs = []")
    case True
    with n show ?thesis by simp
  next
    case False
    have head: "?f v \<noteq> [] \<and> \<not> json_space (hd (?f v)) \<and> hd (?f v) \<noteq> CHR '']''" if "v \<in> set xs" for v
    proof -
      have "printable v" using JList.prems(1) that by (simp add: list_all_iff)
      then show ?thesis by (rule dumps_head [of v a "CHR '','' # sp" "CHR '':'' # us"]) simp
    qed
    have "read_items m (join (CHR '','' # sp) (map ?f xs) @ CHR '']'' # x) = Some (xs, x)"
    proof (rule read_items_join [OF sp _ _ False])
      show "length (join (CHR '','' # sp) (map ?f xs)) < m" using JList.prems(4) n by simp
      fix v y k assume "v \<in> set xs" "closes y" "length (?f v) \<le> k"
      then show "read_value k (?f v @ y) = Some (v, y)"
        using JList.IH [of v y k] JList.prems(1,2) by (simp add: list_all_iff)
    qed (use head in blast)
    moreover have "?f v \<noteq> []" if "v \<in> set xs" for v using head [OF that] by simp
    from join_nonempty [where f = ?f and s = "CHR '','' # sp", OF False this]
    obtain v where v: "v \<in> set xs" "hd (join (CHR '','' # sp) (map ?f xs)) = hd (?f v)" "join (CHR '','' # sp) (map ?f xs) \<noteq> []"
      by blast
    then obtain d ds where j: "join (CHR '','' # sp) (map ?f xs) = d # ds" "\<not> json_space d" "d \<noteq> CHR '']''"
      using head [OF v(1)] by (cases "join (CHR '','' # sp) (map ?f xs)") auto
    ultimately show ?thesis using n by simp
  qed
next
  case (JObj kvs)
  let ?f = "dumps a (CHR '','' # sp) (CHR '':'' # us)"
  let ?g = "\<lambda>(k, v). quote a k @ (CHR '':'' # us) @ ?f v"
  obtain m where n: "n = Suc m" using JObj.prems(4) by (cases n) auto
  show ?case
  proof (cases "kvs = []")
    case True
    with n show ?thesis by simp
  next
    case False
    have head: "?f v \<noteq> [] \<and> \<not> json_space (hd (?f v))" if "(k, v) \<in> set kvs" for k v
    proof -
      have "printable v" using JObj.prems(1) that by (auto simp: list_all_iff)
      then show ?thesis by (rule dumps_head [of v a "CHR '','' # sp" "CHR '':'' # us"]) simp
    qed
    have "read_members m (join (CHR '','' # sp) (map ?g kvs) @ CHR ''}'' # x) = Some (kvs, x)"
    proof (rule read_members_join [OF sp us _ _ False])
      show "length (join (CHR '','' # sp) (map ?g kvs)) < m" using JObj.prems(4) n by simp
      fix k v y l assume v: "(k, v) \<in> set kvs" "closes y" "length (?f v) \<le> l"
      moreover have "printable v" "readable v" using JObj.prems(1,2) v(1) by (auto simp: list_all_iff)
      moreover have "v \<in> Basic_BNFs.snds (k, v)" by simp
      ultimately show "read_value l (?f v @ y) = Some (v, y)"
        using JObj.IH [of "(k, v)" v y l] by blast
    qed (use head in blast)
    moreover have "?g p \<noteq> [] \<and> hd (?g p) = CHR 0x22" for p by (cases p) (simp add: quote_def)
    then obtain v where v: "hd (join (CHR '','' # sp) (map ?g kvs)) = CHR 0x22" "join (CHR '','' # sp) (map ?g kvs) \<noteq> []"
      using join_nonempty [OF False, of ?g "CHR '','' # sp"] by auto
    then obtain ds where j: "join (CHR '','' # sp) (map ?g kvs) = CHR 0x22 # ds"
      by (cases "join (CHR '','' # sp) (map ?g kvs)") auto
    ultimately show ?thesis using n JObj.prems(2) by (simp add: json_dict_distinct)
  qed
qed

text \<open>What \<open>dumps\<close> prints, \<open>loads\<close> reads, whatever blanks the separators carry.\<close>

lemma loads_spaced:
  assumes "printable v" and "readable v" and "list_all json_space sp" and "list_all json_space us"
  shows "loads (dumps a (CHR '','' # sp) (CHR '':'' # us) v) = Some v"
proof -
  let ?t = "dumps a (CHR '','' # sp) (CHR '':'' # us) v"
  obtain c cs where c: "?t = c # cs" "\<not> json_space c"
    using dumps_head [OF assms(1)] by metis
  then have "skip_ws ?t = ?t" by simp
  moreover have "read_value (length ?t) ?t = Some (v, [])"
    using read_value_dumps [OF assms(3,4,1,2), of "[]"] by simp
  ultimately show ?thesis by (simp add: loads_def skip_ws_def)
qed

lemma loads_dumps: "printable v \<Longrightarrow> readable v \<Longrightarrow> loads (dumps_compact a v) = Some v"
  using loads_spaced [of v "[]" "[]" a] by (simp add: dumps_compact_def)

end
