(* ===== verification/Protocol.thy ===== *)
theory Protocol
  imports Json
begin

text \<open>
  The event wire of \<open>src/kokoro_agent/protocol/events.py\<close>: one record per payload class,
  its \<open>model_dump(exclude_none=True)\<close> as \<open>enc_\<close>, its strict validation
  (\<open>strict=True, extra='forbid'\<close>) as \<open>dec_\<close>, and the values its constructor admits as
  \<open>_ok\<close>. The event envelope is discriminated by its kind. Every payload survives the wire:
  decoding what was encoded gives the payload back, so a frame replayed from the outbox is the
  frame that was staged.
\<close>

section \<open>Field codecs\<close>

text \<open>\<open>model_dump(exclude_none=True)\<close> keeps the fields whose value is not None, in class order.\<close>

fun items :: "(string \<times> json option) list \<Rightarrow> (string \<times> json) list" where
  "items [] = []"
| "items ((k, None) # fs) = items fs"
| "items ((k, Some v) # fs) = (k, v) # items fs"

definition invalid :: "'a result" where
  "invalid = Inl (ValidationError ''strict'')"

text \<open>\<open>extra='forbid'\<close>: the value is an object and has no other keys.\<close>

definition strict_fields :: "string list \<Rightarrow> json \<Rightarrow> (string \<times> json) list result" where
  "strict_fields allowed j =
     (case j of
        JObj kvs \<Rightarrow> if list_all (\<lambda>(k, v). List.member allowed k) kvs then Inr kvs else invalid
      | _ \<Rightarrow> invalid)"

definition required :: "(json \<Rightarrow> 'a result) \<Rightarrow> string \<Rightarrow> (string \<times> json) list \<Rightarrow> 'a result" where
  "required f k kvs = (case map_of kvs k of None \<Rightarrow> invalid | Some v \<Rightarrow> f v)"

definition optional :: "(json \<Rightarrow> 'a result) \<Rightarrow> string \<Rightarrow> (string \<times> json) list \<Rightarrow> 'a option result" where
  "optional f k kvs =
     (case map_of kvs k of
        None \<Rightarrow> Inr None
      | Some v \<Rightarrow> if v = JNull then Inr None else bind_r (f v) (\<lambda>x. Inr (Some x)))"

fun as_str :: "json \<Rightarrow> string result" where
  "as_str (JStr s) = Inr s"
| "as_str _ = invalid"

fun as_integer :: "json \<Rightarrow> int result" where
  "as_integer (JInt i) = Inr i"
| "as_integer _ = invalid"

fun as_bool :: "json \<Rightarrow> bool result" where
  "as_bool (JBool b) = Inr b"
| "as_bool _ = invalid"

fun as_dict :: "json \<Rightarrow> (string \<times> json) list result" where
  "as_dict (JObj kvs) = Inr kvs"
| "as_dict _ = invalid"

fun as_list :: "(json \<Rightarrow> 'a result) \<Rightarrow> json \<Rightarrow> 'a list result" where
  "as_list f (JList xs) = traverse f xs"
| "as_list f _ = invalid"

definition as_nonempty :: "json \<Rightarrow> string result" where
  "as_nonempty j = bind_r (as_str j) (\<lambda>s. if s = [] then invalid else Inr s)"

definition as_int_from :: "int \<Rightarrow> json \<Rightarrow> int result" where
  "as_int_from lo j = bind_r (as_integer j) (\<lambda>i. if i < lo then invalid else Inr i)"

definition as_literal :: "string list \<Rightarrow> json \<Rightarrow> string result" where
  "as_literal vs j = bind_r (as_str j) (\<lambda>s. if List.member vs s then Inr s else invalid)"

definition enc_list :: "('a \<Rightarrow> json) \<Rightarrow> 'a list \<Rightarrow> json" where
  "enc_list e xs = JList (map e xs)"

lemma fst_items: "fst ` set (items fs) \<subseteq> fst ` set fs"
  by (induction fs rule: items.induct) auto

lemma map_of_items:
  "distinct (map fst fs) \<Longrightarrow> map_of (items fs) k = (case map_of fs k of Some (Some v) \<Rightarrow> Some v | _ \<Rightarrow> None)"
proof (induction fs rule: items.induct)
  case (2 k' fs)
  have "map_of (items fs) k' = None"
    using 2 fst_items [of fs] by (auto simp: map_of_eq_None_iff simp del: not_None_eq)
  with 2 show ?case by auto
qed auto

lemma strict_items:
  "set (map fst fs) \<subseteq> set allowed \<Longrightarrow> strict_fields allowed (JObj (items fs)) = Inr (items fs)"
  using fst_items [of fs] by (force simp: strict_fields_def list_all_iff)

lemma required_items:
  "distinct (map fst fs) \<Longrightarrow>
   required f k (items fs) = (case map_of fs k of Some (Some v) \<Rightarrow> f v | _ \<Rightarrow> invalid)"
  by (simp add: required_def map_of_items split: option.split)

lemma optional_items:
  "distinct (map fst fs) \<Longrightarrow>
   optional f k (items fs) =
     (case map_of fs k of
        Some (Some v) \<Rightarrow> if v = JNull then Inr None else bind_r (f v) (\<lambda>x. Inr (Some x))
      | _ \<Rightarrow> Inr None)"
  by (simp add: optional_def map_of_items split: option.split)

lemma as_list_enc_list:
  "as_list f (enc_list e xs) = traverse (\<lambda>x. f (e x)) xs"
  by (simp add: enc_list_def traverse_map)

lemma traverse_id:
  "list_all (\<lambda>x. f x = Inr x) xs \<Longrightarrow> traverse f xs = Inr xs"
  using traverse_all_Inr [of xs f "\<lambda>x. x"] by (auto simp: list_all_iff)

lemma as_list_round_trip:
  "list_all (\<lambda>x. f (e x) = Inr x) xs \<Longrightarrow> as_list f (enc_list e xs) = Inr xs"
  by (simp add: as_list_enc_list traverse_id)

lemma enc_list_object [simp]: "enc_list e xs \<noteq> JNull"
  by (simp add: enc_list_def)

lemma list_all_weaken: "list_all p xs \<Longrightarrow> (\<And>x. p x \<Longrightarrow> q x) \<Longrightarrow> list_all q xs"
  by (auto simp: list_all_iff)

lemma list_all_true [simp]: "list_all (\<lambda>x. True) xs"
  by (simp add: list_all_iff)

declare items.simps [simp del]

lemmas codec_simps = strict_items required_items optional_items as_list_round_trip
  as_nonempty_def as_int_from_def as_literal_def list_all_iff

section \<open>Literal types\<close>

definition todo_status_values :: "string list" where
  "todo_status_values = [''pending'', ''in_progress'', ''completed'']"

definition allowed_decision_values :: "string list" where
  "allowed_decision_values = [''approve'', ''edit'', ''reject'', ''respond'', ''submit'']"

definition awaiting_kind_values :: "string list" where
  "awaiting_kind_values = [''tool_approval'', ''ask_user_question'', ''result_review'', ''input'']"

definition subagent_source_values :: "string list" where
  "subagent_source_values = [''built-in'', ''config-custom'', ''runtime-custom'']"

definition control_receipt_status_values :: "string list" where
  "control_receipt_status_values = [''persisted'', ''applied'']"

definition run_completed_status_values :: "string list" where
  "run_completed_status_values = [''completed'', ''cancelled'']"

definition artifact_kind_values :: "string list" where
  "artifact_kind_values = [''document'', ''code'', ''image'', ''audio'', ''video'', ''data'', ''archive'', ''other'']"

section \<open>Payload classes\<close>

text \<open>Todo content: 1 to 1024 characters.\<close>

definition as_todo_content :: "json \<Rightarrow> string result" where
  "as_todo_content j = bind_r (as_str j) (\<lambda>s. if s = [] \<or> 1024 < length s then invalid else Inr s)"

lemmas codec_todo [simp] = as_todo_content_def

record risk =
  risk_level :: string
  risk_source :: string
  risk_reason :: string

definition enc_risk :: "risk \<Rightarrow> json" where
  "enc_risk p = JObj (items
     [(''level'', Some (JStr (risk_level p))),
      (''source'', Some (JStr (risk_source p))),
      (''reason'', Some (JStr (risk_reason p)))])"

definition dec_risk :: "json \<Rightarrow> risk result" where
  "dec_risk j = bind_r (strict_fields [''level'', ''source'', ''reason''] j) (\<lambda>kvs.
     bind_r (required as_nonempty ''level'' kvs) (\<lambda>v_level.
     bind_r (required as_nonempty ''source'' kvs) (\<lambda>v_source.
     bind_r (required as_nonempty ''reason'' kvs) (\<lambda>v_reason.
     Inr \<lparr>risk_level = v_level, risk_source = v_source, risk_reason = v_reason\<rparr>))))"

definition risk_ok :: "risk \<Rightarrow> bool" where
  "risk_ok p \<longleftrightarrow> (risk_level p) \<noteq> []
     \<and> (risk_source p) \<noteq> []
     \<and> (risk_reason p) \<noteq> []"

lemma risk_round_trip [simp]: "risk_ok p \<Longrightarrow> dec_risk (enc_risk p) = Inr p"
  by (cases p) (auto simp: enc_risk_def dec_risk_def risk_ok_def codec_simps split: option.split)

lemma enc_risk_object [simp]: "enc_risk p \<noteq> JNull"
  by (simp add: enc_risk_def)

record token_usage =
  tu_input_tokens :: int
  tu_output_tokens :: int

definition enc_token_usage :: "token_usage \<Rightarrow> json" where
  "enc_token_usage p = JObj (items
     [(''input_tokens'', Some (JInt (tu_input_tokens p))),
      (''output_tokens'', Some (JInt (tu_output_tokens p)))])"

definition dec_token_usage :: "json \<Rightarrow> token_usage result" where
  "dec_token_usage j = bind_r (strict_fields [''input_tokens'', ''output_tokens''] j) (\<lambda>kvs.
     bind_r (required as_integer ''input_tokens'' kvs) (\<lambda>v_input_tokens.
     bind_r (required as_integer ''output_tokens'' kvs) (\<lambda>v_output_tokens.
     Inr \<lparr>tu_input_tokens = v_input_tokens, tu_output_tokens = v_output_tokens\<rparr>)))"

definition token_usage_ok :: "token_usage \<Rightarrow> bool" where
  "token_usage_ok p \<longleftrightarrow> True"

lemma token_usage_round_trip [simp]: "token_usage_ok p \<Longrightarrow> dec_token_usage (enc_token_usage p) = Inr p"
  by (cases p) (auto simp: enc_token_usage_def dec_token_usage_def token_usage_ok_def codec_simps split: option.split)

lemma enc_token_usage_object [simp]: "enc_token_usage p \<noteq> JNull"
  by (simp add: enc_token_usage_def)

record todo =
  todo_content :: string
  todo_status :: string

definition enc_todo :: "todo \<Rightarrow> json" where
  "enc_todo p = JObj (items
     [(''content'', Some (JStr (todo_content p))),
      (''status'', Some (JStr (todo_status p)))])"

definition dec_todo :: "json \<Rightarrow> todo result" where
  "dec_todo j = bind_r (strict_fields [''content'', ''status''] j) (\<lambda>kvs.
     bind_r (required as_todo_content ''content'' kvs) (\<lambda>v_content.
     bind_r (required (as_literal todo_status_values) ''status'' kvs) (\<lambda>v_status.
     Inr \<lparr>todo_content = v_content, todo_status = v_status\<rparr>)))"

definition todo_ok :: "todo \<Rightarrow> bool" where
  "todo_ok p \<longleftrightarrow> (todo_content p) \<noteq> [] \<and> length (todo_content p) \<le> 1024
     \<and> (todo_status p) \<in> set todo_status_values"

lemma todo_round_trip [simp]: "todo_ok p \<Longrightarrow> dec_todo (enc_todo p) = Inr p"
  by (cases p) (auto simp: enc_todo_def dec_todo_def todo_ok_def codec_simps split: option.split)

lemma enc_todo_object [simp]: "enc_todo p \<noteq> JNull"
  by (simp add: enc_todo_def)

record thinking_delta_payload =
  thd_segment_id :: string
  thd_delta :: string

definition enc_thinking_delta_payload :: "thinking_delta_payload \<Rightarrow> json" where
  "enc_thinking_delta_payload p = JObj (items
     [(''segment_id'', Some (JStr (thd_segment_id p))),
      (''delta'', Some (JStr (thd_delta p)))])"

definition dec_thinking_delta_payload :: "json \<Rightarrow> thinking_delta_payload result" where
  "dec_thinking_delta_payload j = bind_r (strict_fields [''segment_id'', ''delta''] j) (\<lambda>kvs.
     bind_r (required as_nonempty ''segment_id'' kvs) (\<lambda>v_segment_id.
     bind_r (required as_str ''delta'' kvs) (\<lambda>v_delta.
     Inr \<lparr>thd_segment_id = v_segment_id, thd_delta = v_delta\<rparr>)))"

definition thinking_delta_payload_ok :: "thinking_delta_payload \<Rightarrow> bool" where
  "thinking_delta_payload_ok p \<longleftrightarrow> (thd_segment_id p) \<noteq> []"

lemma thinking_delta_payload_round_trip [simp]: "thinking_delta_payload_ok p \<Longrightarrow> dec_thinking_delta_payload (enc_thinking_delta_payload p) = Inr p"
  by (cases p) (auto simp: enc_thinking_delta_payload_def dec_thinking_delta_payload_def thinking_delta_payload_ok_def codec_simps split: option.split)

lemma enc_thinking_delta_payload_object [simp]: "enc_thinking_delta_payload p \<noteq> JNull"
  by (simp add: enc_thinking_delta_payload_def)

record message_delta_payload =
  md_segment_id :: string
  md_delta :: string

definition enc_message_delta_payload :: "message_delta_payload \<Rightarrow> json" where
  "enc_message_delta_payload p = JObj (items
     [(''segment_id'', Some (JStr (md_segment_id p))),
      (''delta'', Some (JStr (md_delta p)))])"

definition dec_message_delta_payload :: "json \<Rightarrow> message_delta_payload result" where
  "dec_message_delta_payload j = bind_r (strict_fields [''segment_id'', ''delta''] j) (\<lambda>kvs.
     bind_r (required as_nonempty ''segment_id'' kvs) (\<lambda>v_segment_id.
     bind_r (required as_str ''delta'' kvs) (\<lambda>v_delta.
     Inr \<lparr>md_segment_id = v_segment_id, md_delta = v_delta\<rparr>)))"

definition message_delta_payload_ok :: "message_delta_payload \<Rightarrow> bool" where
  "message_delta_payload_ok p \<longleftrightarrow> (md_segment_id p) \<noteq> []"

lemma message_delta_payload_round_trip [simp]: "message_delta_payload_ok p \<Longrightarrow> dec_message_delta_payload (enc_message_delta_payload p) = Inr p"
  by (cases p) (auto simp: enc_message_delta_payload_def dec_message_delta_payload_def message_delta_payload_ok_def codec_simps split: option.split)

lemma enc_message_delta_payload_object [simp]: "enc_message_delta_payload p \<noteq> JNull"
  by (simp add: enc_message_delta_payload_def)

record message_completed_payload =
  mc_segment_id :: string
  mc_content :: string

definition enc_message_completed_payload :: "message_completed_payload \<Rightarrow> json" where
  "enc_message_completed_payload p = JObj (items
     [(''segment_id'', Some (JStr (mc_segment_id p))),
      (''content'', Some (JStr (mc_content p)))])"

definition dec_message_completed_payload :: "json \<Rightarrow> message_completed_payload result" where
  "dec_message_completed_payload j = bind_r (strict_fields [''segment_id'', ''content''] j) (\<lambda>kvs.
     bind_r (required as_nonempty ''segment_id'' kvs) (\<lambda>v_segment_id.
     bind_r (required as_str ''content'' kvs) (\<lambda>v_content.
     Inr \<lparr>mc_segment_id = v_segment_id, mc_content = v_content\<rparr>)))"

definition message_completed_payload_ok :: "message_completed_payload \<Rightarrow> bool" where
  "message_completed_payload_ok p \<longleftrightarrow> (mc_segment_id p) \<noteq> []"

lemma message_completed_payload_round_trip [simp]: "message_completed_payload_ok p \<Longrightarrow> dec_message_completed_payload (enc_message_completed_payload p) = Inr p"
  by (cases p) (auto simp: enc_message_completed_payload_def dec_message_completed_payload_def message_completed_payload_ok_def codec_simps split: option.split)

lemma enc_message_completed_payload_object [simp]: "enc_message_completed_payload p \<noteq> JNull"
  by (simp add: enc_message_completed_payload_def)

record tool_invoked_payload =
  tin_segment_id :: string
  tin_tool_id :: string
  tin_name :: string
  tin_args :: "(string \<times> json) list"

definition enc_tool_invoked_payload :: "tool_invoked_payload \<Rightarrow> json" where
  "enc_tool_invoked_payload p = JObj (items
     [(''segment_id'', Some (JStr (tin_segment_id p))),
      (''tool_id'', Some (JStr (tin_tool_id p))),
      (''name'', Some (JStr (tin_name p))),
      (''args'', Some (JObj (tin_args p)))])"

definition dec_tool_invoked_payload :: "json \<Rightarrow> tool_invoked_payload result" where
  "dec_tool_invoked_payload j = bind_r (strict_fields [''segment_id'', ''tool_id'', ''name'', ''args''] j) (\<lambda>kvs.
     bind_r (required as_nonempty ''segment_id'' kvs) (\<lambda>v_segment_id.
     bind_r (required as_nonempty ''tool_id'' kvs) (\<lambda>v_tool_id.
     bind_r (required as_nonempty ''name'' kvs) (\<lambda>v_name.
     bind_r (required as_dict ''args'' kvs) (\<lambda>v_args.
     Inr \<lparr>tin_segment_id = v_segment_id, tin_tool_id = v_tool_id, tin_name = v_name, tin_args = v_args\<rparr>)))))"

definition tool_invoked_payload_ok :: "tool_invoked_payload \<Rightarrow> bool" where
  "tool_invoked_payload_ok p \<longleftrightarrow> (tin_segment_id p) \<noteq> []
     \<and> (tin_tool_id p) \<noteq> []
     \<and> (tin_name p) \<noteq> []
     \<and> distinct (map fst (tin_args p))"

lemma tool_invoked_payload_round_trip [simp]: "tool_invoked_payload_ok p \<Longrightarrow> dec_tool_invoked_payload (enc_tool_invoked_payload p) = Inr p"
  by (cases p) (auto simp: enc_tool_invoked_payload_def dec_tool_invoked_payload_def tool_invoked_payload_ok_def codec_simps split: option.split)

lemma enc_tool_invoked_payload_object [simp]: "enc_tool_invoked_payload p \<noteq> JNull"
  by (simp add: enc_tool_invoked_payload_def)

record tool_output_delta_payload =
  tod_segment_id :: string
  tod_tool_id :: string
  tod_name :: string
  tod_delta :: string

definition enc_tool_output_delta_payload :: "tool_output_delta_payload \<Rightarrow> json" where
  "enc_tool_output_delta_payload p = JObj (items
     [(''segment_id'', Some (JStr (tod_segment_id p))),
      (''tool_id'', Some (JStr (tod_tool_id p))),
      (''name'', Some (JStr (tod_name p))),
      (''delta'', Some (JStr (tod_delta p)))])"

definition dec_tool_output_delta_payload :: "json \<Rightarrow> tool_output_delta_payload result" where
  "dec_tool_output_delta_payload j = bind_r (strict_fields [''segment_id'', ''tool_id'', ''name'', ''delta''] j) (\<lambda>kvs.
     bind_r (required as_nonempty ''segment_id'' kvs) (\<lambda>v_segment_id.
     bind_r (required as_nonempty ''tool_id'' kvs) (\<lambda>v_tool_id.
     bind_r (required as_nonempty ''name'' kvs) (\<lambda>v_name.
     bind_r (required as_str ''delta'' kvs) (\<lambda>v_delta.
     Inr \<lparr>tod_segment_id = v_segment_id, tod_tool_id = v_tool_id, tod_name = v_name, tod_delta = v_delta\<rparr>)))))"

definition tool_output_delta_payload_ok :: "tool_output_delta_payload \<Rightarrow> bool" where
  "tool_output_delta_payload_ok p \<longleftrightarrow> (tod_segment_id p) \<noteq> []
     \<and> (tod_tool_id p) \<noteq> []
     \<and> (tod_name p) \<noteq> []"

lemma tool_output_delta_payload_round_trip [simp]: "tool_output_delta_payload_ok p \<Longrightarrow> dec_tool_output_delta_payload (enc_tool_output_delta_payload p) = Inr p"
  by (cases p) (auto simp: enc_tool_output_delta_payload_def dec_tool_output_delta_payload_def tool_output_delta_payload_ok_def codec_simps split: option.split)

lemma enc_tool_output_delta_payload_object [simp]: "enc_tool_output_delta_payload p \<noteq> JNull"
  by (simp add: enc_tool_output_delta_payload_def)

record tool_awaiting_approval_payload =
  taa_segment_id :: string
  taa_tool_id :: string
  taa_name :: string
  taa_args :: "(string \<times> json) list"
  taa_description :: string
  taa_allowed_decisions :: "string list"
  taa_kind :: string
  taa_risk :: "risk option"
  taa_editable :: bool
  taa_input_schema :: "((string \<times> json) list) option"
  taa_pending_tool_ids :: "string list"
  taa_result :: "string option"

definition enc_tool_awaiting_approval_payload :: "tool_awaiting_approval_payload \<Rightarrow> json" where
  "enc_tool_awaiting_approval_payload p = JObj (items
     [(''segment_id'', Some (JStr (taa_segment_id p))),
      (''tool_id'', Some (JStr (taa_tool_id p))),
      (''name'', Some (JStr (taa_name p))),
      (''args'', Some (JObj (taa_args p))),
      (''description'', Some (JStr (taa_description p))),
      (''allowed_decisions'', Some ((enc_list JStr) (taa_allowed_decisions p))),
      (''kind'', Some (JStr (taa_kind p))),
      (''risk'', map_option enc_risk (taa_risk p)),
      (''editable'', Some (JBool (taa_editable p))),
      (''input_schema'', map_option JObj (taa_input_schema p)),
      (''pending_tool_ids'', Some ((enc_list JStr) (taa_pending_tool_ids p))),
      (''result'', map_option JStr (taa_result p))])"

definition dec_tool_awaiting_approval_payload :: "json \<Rightarrow> tool_awaiting_approval_payload result" where
  "dec_tool_awaiting_approval_payload j = bind_r (strict_fields [''segment_id'', ''tool_id'', ''name'', ''args'', ''description'', ''allowed_decisions'', ''kind'', ''risk'', ''editable'', ''input_schema'', ''pending_tool_ids'', ''result''] j) (\<lambda>kvs.
     bind_r (required as_nonempty ''segment_id'' kvs) (\<lambda>v_segment_id.
     bind_r (required as_nonempty ''tool_id'' kvs) (\<lambda>v_tool_id.
     bind_r (required as_nonempty ''name'' kvs) (\<lambda>v_name.
     bind_r (required as_dict ''args'' kvs) (\<lambda>v_args.
     bind_r (required as_str ''description'' kvs) (\<lambda>v_description.
     bind_r (required (as_list (as_literal allowed_decision_values)) ''allowed_decisions'' kvs) (\<lambda>v_allowed_decisions.
     bind_r (required (as_literal awaiting_kind_values) ''kind'' kvs) (\<lambda>v_kind.
     bind_r (optional dec_risk ''risk'' kvs) (\<lambda>v_risk.
     bind_r (required as_bool ''editable'' kvs) (\<lambda>v_editable.
     bind_r (optional as_dict ''input_schema'' kvs) (\<lambda>v_input_schema.
     bind_r (required (as_list as_nonempty) ''pending_tool_ids'' kvs) (\<lambda>v_pending_tool_ids.
     bind_r (optional as_str ''result'' kvs) (\<lambda>v_result.
     Inr \<lparr>taa_segment_id = v_segment_id, taa_tool_id = v_tool_id, taa_name = v_name, taa_args = v_args, taa_description = v_description, taa_allowed_decisions = v_allowed_decisions, taa_kind = v_kind, taa_risk = v_risk, taa_editable = v_editable, taa_input_schema = v_input_schema, taa_pending_tool_ids = v_pending_tool_ids, taa_result = v_result\<rparr>)))))))))))))"

definition tool_awaiting_approval_payload_ok :: "tool_awaiting_approval_payload \<Rightarrow> bool" where
  "tool_awaiting_approval_payload_ok p \<longleftrightarrow> (taa_segment_id p) \<noteq> []
     \<and> (taa_tool_id p) \<noteq> []
     \<and> (taa_name p) \<noteq> []
     \<and> distinct (map fst (taa_args p))
     \<and> list_all (\<lambda>x. x \<in> set allowed_decision_values) (taa_allowed_decisions p)
     \<and> (taa_kind p) \<in> set awaiting_kind_values
     \<and> (\<forall>v. taa_risk p = Some v \<longrightarrow> risk_ok v)
     \<and> (\<forall>v. taa_input_schema p = Some v \<longrightarrow> distinct (map fst v))
     \<and> list_all (\<lambda>x. x \<noteq> []) (taa_pending_tool_ids p)"

lemma tool_awaiting_approval_payload_round_trip [simp]: "tool_awaiting_approval_payload_ok p \<Longrightarrow> dec_tool_awaiting_approval_payload (enc_tool_awaiting_approval_payload p) = Inr p"
  by (cases p) (auto simp: enc_tool_awaiting_approval_payload_def dec_tool_awaiting_approval_payload_def tool_awaiting_approval_payload_ok_def codec_simps split: option.split)

lemma enc_tool_awaiting_approval_payload_object [simp]: "enc_tool_awaiting_approval_payload p \<noteq> JNull"
  by (simp add: enc_tool_awaiting_approval_payload_def)

record tool_returned_payload =
  tr_segment_id :: string
  tr_tool_id :: string
  tr_name :: string
  tr_result :: string
  tr_is_error :: bool
  tr_truncated :: "bool option"
  tr_rejected :: "bool option"
  tr_reject_reason :: "string option"
  tr_responded :: "bool option"
  tr_summary :: "((string \<times> json) list) option"

definition enc_tool_returned_payload :: "tool_returned_payload \<Rightarrow> json" where
  "enc_tool_returned_payload p = JObj (items
     [(''segment_id'', Some (JStr (tr_segment_id p))),
      (''tool_id'', Some (JStr (tr_tool_id p))),
      (''name'', Some (JStr (tr_name p))),
      (''result'', Some (JStr (tr_result p))),
      (''is_error'', Some (JBool (tr_is_error p))),
      (''truncated'', map_option JBool (tr_truncated p)),
      (''rejected'', map_option JBool (tr_rejected p)),
      (''reject_reason'', map_option JStr (tr_reject_reason p)),
      (''responded'', map_option JBool (tr_responded p)),
      (''summary'', map_option JObj (tr_summary p))])"

definition dec_tool_returned_payload :: "json \<Rightarrow> tool_returned_payload result" where
  "dec_tool_returned_payload j = bind_r (strict_fields [''segment_id'', ''tool_id'', ''name'', ''result'', ''is_error'', ''truncated'', ''rejected'', ''reject_reason'', ''responded'', ''summary''] j) (\<lambda>kvs.
     bind_r (required as_nonempty ''segment_id'' kvs) (\<lambda>v_segment_id.
     bind_r (required as_nonempty ''tool_id'' kvs) (\<lambda>v_tool_id.
     bind_r (required as_nonempty ''name'' kvs) (\<lambda>v_name.
     bind_r (required as_str ''result'' kvs) (\<lambda>v_result.
     bind_r (required as_bool ''is_error'' kvs) (\<lambda>v_is_error.
     bind_r (optional as_bool ''truncated'' kvs) (\<lambda>v_truncated.
     bind_r (optional as_bool ''rejected'' kvs) (\<lambda>v_rejected.
     bind_r (optional as_str ''reject_reason'' kvs) (\<lambda>v_reject_reason.
     bind_r (optional as_bool ''responded'' kvs) (\<lambda>v_responded.
     bind_r (optional as_dict ''summary'' kvs) (\<lambda>v_summary.
     Inr \<lparr>tr_segment_id = v_segment_id, tr_tool_id = v_tool_id, tr_name = v_name, tr_result = v_result, tr_is_error = v_is_error, tr_truncated = v_truncated, tr_rejected = v_rejected, tr_reject_reason = v_reject_reason, tr_responded = v_responded, tr_summary = v_summary\<rparr>)))))))))))"

definition tool_returned_payload_ok :: "tool_returned_payload \<Rightarrow> bool" where
  "tool_returned_payload_ok p \<longleftrightarrow> (tr_segment_id p) \<noteq> []
     \<and> (tr_tool_id p) \<noteq> []
     \<and> (tr_name p) \<noteq> []
     \<and> (\<forall>v. tr_summary p = Some v \<longrightarrow> distinct (map fst v))"

lemma tool_returned_payload_round_trip [simp]: "tool_returned_payload_ok p \<Longrightarrow> dec_tool_returned_payload (enc_tool_returned_payload p) = Inr p"
  by (cases p) (auto simp: enc_tool_returned_payload_def dec_tool_returned_payload_def tool_returned_payload_ok_def codec_simps split: option.split)

lemma enc_tool_returned_payload_object [simp]: "enc_tool_returned_payload p \<noteq> JNull"
  by (simp add: enc_tool_returned_payload_def)

record subagent_started_payload =
  sst_segment_id :: string
  sst_subagent_id :: string
  sst_name :: string
  sst_description :: string
  sst_subagent_type :: string
  sst_source :: string

definition enc_subagent_started_payload :: "subagent_started_payload \<Rightarrow> json" where
  "enc_subagent_started_payload p = JObj (items
     [(''segment_id'', Some (JStr (sst_segment_id p))),
      (''subagent_id'', Some (JStr (sst_subagent_id p))),
      (''name'', Some (JStr (sst_name p))),
      (''description'', Some (JStr (sst_description p))),
      (''subagent_type'', Some (JStr (sst_subagent_type p))),
      (''source'', Some (JStr (sst_source p)))])"

definition dec_subagent_started_payload :: "json \<Rightarrow> subagent_started_payload result" where
  "dec_subagent_started_payload j = bind_r (strict_fields [''segment_id'', ''subagent_id'', ''name'', ''description'', ''subagent_type'', ''source''] j) (\<lambda>kvs.
     bind_r (required as_nonempty ''segment_id'' kvs) (\<lambda>v_segment_id.
     bind_r (required as_nonempty ''subagent_id'' kvs) (\<lambda>v_subagent_id.
     bind_r (required as_nonempty ''name'' kvs) (\<lambda>v_name.
     bind_r (required as_str ''description'' kvs) (\<lambda>v_description.
     bind_r (required as_nonempty ''subagent_type'' kvs) (\<lambda>v_subagent_type.
     bind_r (required (as_literal subagent_source_values) ''source'' kvs) (\<lambda>v_source.
     Inr \<lparr>sst_segment_id = v_segment_id, sst_subagent_id = v_subagent_id, sst_name = v_name, sst_description = v_description, sst_subagent_type = v_subagent_type, sst_source = v_source\<rparr>)))))))"

definition subagent_started_payload_ok :: "subagent_started_payload \<Rightarrow> bool" where
  "subagent_started_payload_ok p \<longleftrightarrow> (sst_segment_id p) \<noteq> []
     \<and> (sst_subagent_id p) \<noteq> []
     \<and> (sst_name p) \<noteq> []
     \<and> (sst_subagent_type p) \<noteq> []
     \<and> (sst_source p) \<in> set subagent_source_values"

lemma subagent_started_payload_round_trip [simp]: "subagent_started_payload_ok p \<Longrightarrow> dec_subagent_started_payload (enc_subagent_started_payload p) = Inr p"
  by (cases p) (auto simp: enc_subagent_started_payload_def dec_subagent_started_payload_def subagent_started_payload_ok_def codec_simps split: option.split)

lemma enc_subagent_started_payload_object [simp]: "enc_subagent_started_payload p \<noteq> JNull"
  by (simp add: enc_subagent_started_payload_def)

record subagent_finished_payload =
  sfin_segment_id :: string
  sfin_subagent_id :: string
  sfin_name :: string
  sfin_subagent_type :: string
  sfin_source :: string
  sfin_failed :: "bool option"
  sfin_error :: "string option"

definition enc_subagent_finished_payload :: "subagent_finished_payload \<Rightarrow> json" where
  "enc_subagent_finished_payload p = JObj (items
     [(''segment_id'', Some (JStr (sfin_segment_id p))),
      (''subagent_id'', Some (JStr (sfin_subagent_id p))),
      (''name'', Some (JStr (sfin_name p))),
      (''subagent_type'', Some (JStr (sfin_subagent_type p))),
      (''source'', Some (JStr (sfin_source p))),
      (''failed'', map_option JBool (sfin_failed p)),
      (''error'', map_option JStr (sfin_error p))])"

definition dec_subagent_finished_payload :: "json \<Rightarrow> subagent_finished_payload result" where
  "dec_subagent_finished_payload j = bind_r (strict_fields [''segment_id'', ''subagent_id'', ''name'', ''subagent_type'', ''source'', ''failed'', ''error''] j) (\<lambda>kvs.
     bind_r (required as_nonempty ''segment_id'' kvs) (\<lambda>v_segment_id.
     bind_r (required as_nonempty ''subagent_id'' kvs) (\<lambda>v_subagent_id.
     bind_r (required as_nonempty ''name'' kvs) (\<lambda>v_name.
     bind_r (required as_nonempty ''subagent_type'' kvs) (\<lambda>v_subagent_type.
     bind_r (required (as_literal subagent_source_values) ''source'' kvs) (\<lambda>v_source.
     bind_r (optional as_bool ''failed'' kvs) (\<lambda>v_failed.
     bind_r (optional as_str ''error'' kvs) (\<lambda>v_error.
     Inr \<lparr>sfin_segment_id = v_segment_id, sfin_subagent_id = v_subagent_id, sfin_name = v_name, sfin_subagent_type = v_subagent_type, sfin_source = v_source, sfin_failed = v_failed, sfin_error = v_error\<rparr>))))))))"

definition subagent_finished_payload_ok :: "subagent_finished_payload \<Rightarrow> bool" where
  "subagent_finished_payload_ok p \<longleftrightarrow> (sfin_segment_id p) \<noteq> []
     \<and> (sfin_subagent_id p) \<noteq> []
     \<and> (sfin_name p) \<noteq> []
     \<and> (sfin_subagent_type p) \<noteq> []
     \<and> (sfin_source p) \<in> set subagent_source_values"

lemma subagent_finished_payload_round_trip [simp]: "subagent_finished_payload_ok p \<Longrightarrow> dec_subagent_finished_payload (enc_subagent_finished_payload p) = Inr p"
  by (cases p) (auto simp: enc_subagent_finished_payload_def dec_subagent_finished_payload_def subagent_finished_payload_ok_def codec_simps split: option.split)

lemma enc_subagent_finished_payload_object [simp]: "enc_subagent_finished_payload p \<noteq> JNull"
  by (simp add: enc_subagent_finished_payload_def)

record subagent_thinking_delta_payload =
  sthd_segment_id :: string
  sthd_subagent_id :: string
  sthd_delta :: string

definition enc_subagent_thinking_delta_payload :: "subagent_thinking_delta_payload \<Rightarrow> json" where
  "enc_subagent_thinking_delta_payload p = JObj (items
     [(''segment_id'', Some (JStr (sthd_segment_id p))),
      (''subagent_id'', Some (JStr (sthd_subagent_id p))),
      (''delta'', Some (JStr (sthd_delta p)))])"

definition dec_subagent_thinking_delta_payload :: "json \<Rightarrow> subagent_thinking_delta_payload result" where
  "dec_subagent_thinking_delta_payload j = bind_r (strict_fields [''segment_id'', ''subagent_id'', ''delta''] j) (\<lambda>kvs.
     bind_r (required as_nonempty ''segment_id'' kvs) (\<lambda>v_segment_id.
     bind_r (required as_nonempty ''subagent_id'' kvs) (\<lambda>v_subagent_id.
     bind_r (required as_str ''delta'' kvs) (\<lambda>v_delta.
     Inr \<lparr>sthd_segment_id = v_segment_id, sthd_subagent_id = v_subagent_id, sthd_delta = v_delta\<rparr>))))"

definition subagent_thinking_delta_payload_ok :: "subagent_thinking_delta_payload \<Rightarrow> bool" where
  "subagent_thinking_delta_payload_ok p \<longleftrightarrow> (sthd_segment_id p) \<noteq> []
     \<and> (sthd_subagent_id p) \<noteq> []"

lemma subagent_thinking_delta_payload_round_trip [simp]: "subagent_thinking_delta_payload_ok p \<Longrightarrow> dec_subagent_thinking_delta_payload (enc_subagent_thinking_delta_payload p) = Inr p"
  by (cases p) (auto simp: enc_subagent_thinking_delta_payload_def dec_subagent_thinking_delta_payload_def subagent_thinking_delta_payload_ok_def codec_simps split: option.split)

lemma enc_subagent_thinking_delta_payload_object [simp]: "enc_subagent_thinking_delta_payload p \<noteq> JNull"
  by (simp add: enc_subagent_thinking_delta_payload_def)

record subagent_text_delta_payload =
  std_segment_id :: string
  std_subagent_id :: string
  std_text :: string

definition enc_subagent_text_delta_payload :: "subagent_text_delta_payload \<Rightarrow> json" where
  "enc_subagent_text_delta_payload p = JObj (items
     [(''segment_id'', Some (JStr (std_segment_id p))),
      (''subagent_id'', Some (JStr (std_subagent_id p))),
      (''text'', Some (JStr (std_text p)))])"

definition dec_subagent_text_delta_payload :: "json \<Rightarrow> subagent_text_delta_payload result" where
  "dec_subagent_text_delta_payload j = bind_r (strict_fields [''segment_id'', ''subagent_id'', ''text''] j) (\<lambda>kvs.
     bind_r (required as_nonempty ''segment_id'' kvs) (\<lambda>v_segment_id.
     bind_r (required as_nonempty ''subagent_id'' kvs) (\<lambda>v_subagent_id.
     bind_r (required as_str ''text'' kvs) (\<lambda>v_text.
     Inr \<lparr>std_segment_id = v_segment_id, std_subagent_id = v_subagent_id, std_text = v_text\<rparr>))))"

definition subagent_text_delta_payload_ok :: "subagent_text_delta_payload \<Rightarrow> bool" where
  "subagent_text_delta_payload_ok p \<longleftrightarrow> (std_segment_id p) \<noteq> []
     \<and> (std_subagent_id p) \<noteq> []"

lemma subagent_text_delta_payload_round_trip [simp]: "subagent_text_delta_payload_ok p \<Longrightarrow> dec_subagent_text_delta_payload (enc_subagent_text_delta_payload p) = Inr p"
  by (cases p) (auto simp: enc_subagent_text_delta_payload_def dec_subagent_text_delta_payload_def subagent_text_delta_payload_ok_def codec_simps split: option.split)

lemma enc_subagent_text_delta_payload_object [simp]: "enc_subagent_text_delta_payload p \<noteq> JNull"
  by (simp add: enc_subagent_text_delta_payload_def)

record subagent_text_completed_payload =
  stc_segment_id :: string
  stc_subagent_id :: string
  stc_text :: string

definition enc_subagent_text_completed_payload :: "subagent_text_completed_payload \<Rightarrow> json" where
  "enc_subagent_text_completed_payload p = JObj (items
     [(''segment_id'', Some (JStr (stc_segment_id p))),
      (''subagent_id'', Some (JStr (stc_subagent_id p))),
      (''text'', Some (JStr (stc_text p)))])"

definition dec_subagent_text_completed_payload :: "json \<Rightarrow> subagent_text_completed_payload result" where
  "dec_subagent_text_completed_payload j = bind_r (strict_fields [''segment_id'', ''subagent_id'', ''text''] j) (\<lambda>kvs.
     bind_r (required as_nonempty ''segment_id'' kvs) (\<lambda>v_segment_id.
     bind_r (required as_nonempty ''subagent_id'' kvs) (\<lambda>v_subagent_id.
     bind_r (required as_str ''text'' kvs) (\<lambda>v_text.
     Inr \<lparr>stc_segment_id = v_segment_id, stc_subagent_id = v_subagent_id, stc_text = v_text\<rparr>))))"

definition subagent_text_completed_payload_ok :: "subagent_text_completed_payload \<Rightarrow> bool" where
  "subagent_text_completed_payload_ok p \<longleftrightarrow> (stc_segment_id p) \<noteq> []
     \<and> (stc_subagent_id p) \<noteq> []"

lemma subagent_text_completed_payload_round_trip [simp]: "subagent_text_completed_payload_ok p \<Longrightarrow> dec_subagent_text_completed_payload (enc_subagent_text_completed_payload p) = Inr p"
  by (cases p) (auto simp: enc_subagent_text_completed_payload_def dec_subagent_text_completed_payload_def subagent_text_completed_payload_ok_def codec_simps split: option.split)

lemma enc_subagent_text_completed_payload_object [simp]: "enc_subagent_text_completed_payload p \<noteq> JNull"
  by (simp add: enc_subagent_text_completed_payload_def)

record subagent_tool_invoked_payload =
  sti_segment_id :: string
  sti_subagent_id :: string
  sti_tool_id :: string
  sti_name :: string
  sti_args :: "(string \<times> json) list"

definition enc_subagent_tool_invoked_payload :: "subagent_tool_invoked_payload \<Rightarrow> json" where
  "enc_subagent_tool_invoked_payload p = JObj (items
     [(''segment_id'', Some (JStr (sti_segment_id p))),
      (''subagent_id'', Some (JStr (sti_subagent_id p))),
      (''tool_id'', Some (JStr (sti_tool_id p))),
      (''name'', Some (JStr (sti_name p))),
      (''args'', Some (JObj (sti_args p)))])"

definition dec_subagent_tool_invoked_payload :: "json \<Rightarrow> subagent_tool_invoked_payload result" where
  "dec_subagent_tool_invoked_payload j = bind_r (strict_fields [''segment_id'', ''subagent_id'', ''tool_id'', ''name'', ''args''] j) (\<lambda>kvs.
     bind_r (required as_nonempty ''segment_id'' kvs) (\<lambda>v_segment_id.
     bind_r (required as_nonempty ''subagent_id'' kvs) (\<lambda>v_subagent_id.
     bind_r (required as_nonempty ''tool_id'' kvs) (\<lambda>v_tool_id.
     bind_r (required as_nonempty ''name'' kvs) (\<lambda>v_name.
     bind_r (required as_dict ''args'' kvs) (\<lambda>v_args.
     Inr \<lparr>sti_segment_id = v_segment_id, sti_subagent_id = v_subagent_id, sti_tool_id = v_tool_id, sti_name = v_name, sti_args = v_args\<rparr>))))))"

definition subagent_tool_invoked_payload_ok :: "subagent_tool_invoked_payload \<Rightarrow> bool" where
  "subagent_tool_invoked_payload_ok p \<longleftrightarrow> (sti_segment_id p) \<noteq> []
     \<and> (sti_subagent_id p) \<noteq> []
     \<and> (sti_tool_id p) \<noteq> []
     \<and> (sti_name p) \<noteq> []
     \<and> distinct (map fst (sti_args p))"

lemma subagent_tool_invoked_payload_round_trip [simp]: "subagent_tool_invoked_payload_ok p \<Longrightarrow> dec_subagent_tool_invoked_payload (enc_subagent_tool_invoked_payload p) = Inr p"
  by (cases p) (auto simp: enc_subagent_tool_invoked_payload_def dec_subagent_tool_invoked_payload_def subagent_tool_invoked_payload_ok_def codec_simps split: option.split)

lemma enc_subagent_tool_invoked_payload_object [simp]: "enc_subagent_tool_invoked_payload p \<noteq> JNull"
  by (simp add: enc_subagent_tool_invoked_payload_def)

record subagent_tool_returned_payload =
  str_segment_id :: string
  str_subagent_id :: string
  str_tool_id :: string
  str_name :: string
  str_result :: string
  str_is_error :: bool
  str_truncated :: "bool option"

definition enc_subagent_tool_returned_payload :: "subagent_tool_returned_payload \<Rightarrow> json" where
  "enc_subagent_tool_returned_payload p = JObj (items
     [(''segment_id'', Some (JStr (str_segment_id p))),
      (''subagent_id'', Some (JStr (str_subagent_id p))),
      (''tool_id'', Some (JStr (str_tool_id p))),
      (''name'', Some (JStr (str_name p))),
      (''result'', Some (JStr (str_result p))),
      (''is_error'', Some (JBool (str_is_error p))),
      (''truncated'', map_option JBool (str_truncated p))])"

definition dec_subagent_tool_returned_payload :: "json \<Rightarrow> subagent_tool_returned_payload result" where
  "dec_subagent_tool_returned_payload j = bind_r (strict_fields [''segment_id'', ''subagent_id'', ''tool_id'', ''name'', ''result'', ''is_error'', ''truncated''] j) (\<lambda>kvs.
     bind_r (required as_nonempty ''segment_id'' kvs) (\<lambda>v_segment_id.
     bind_r (required as_nonempty ''subagent_id'' kvs) (\<lambda>v_subagent_id.
     bind_r (required as_nonempty ''tool_id'' kvs) (\<lambda>v_tool_id.
     bind_r (required as_nonempty ''name'' kvs) (\<lambda>v_name.
     bind_r (required as_str ''result'' kvs) (\<lambda>v_result.
     bind_r (required as_bool ''is_error'' kvs) (\<lambda>v_is_error.
     bind_r (optional as_bool ''truncated'' kvs) (\<lambda>v_truncated.
     Inr \<lparr>str_segment_id = v_segment_id, str_subagent_id = v_subagent_id, str_tool_id = v_tool_id, str_name = v_name, str_result = v_result, str_is_error = v_is_error, str_truncated = v_truncated\<rparr>))))))))"

definition subagent_tool_returned_payload_ok :: "subagent_tool_returned_payload \<Rightarrow> bool" where
  "subagent_tool_returned_payload_ok p \<longleftrightarrow> (str_segment_id p) \<noteq> []
     \<and> (str_subagent_id p) \<noteq> []
     \<and> (str_tool_id p) \<noteq> []
     \<and> (str_name p) \<noteq> []"

lemma subagent_tool_returned_payload_round_trip [simp]: "subagent_tool_returned_payload_ok p \<Longrightarrow> dec_subagent_tool_returned_payload (enc_subagent_tool_returned_payload p) = Inr p"
  by (cases p) (auto simp: enc_subagent_tool_returned_payload_def dec_subagent_tool_returned_payload_def subagent_tool_returned_payload_ok_def codec_simps split: option.split)

lemma enc_subagent_tool_returned_payload_object [simp]: "enc_subagent_tool_returned_payload p \<noteq> JNull"
  by (simp add: enc_subagent_tool_returned_payload_def)

record delivery_created_payload =
  dc_tool_call_id :: string
  dc_artifact_id :: string
  dc_asset_id :: string
  dc_artifact_kind :: string
  dc_path :: string
  dc_title :: string
  dc_mime :: string
  dc_size :: int
  dc_content_hash :: string
  dc_note :: "string option"

definition enc_delivery_created_payload :: "delivery_created_payload \<Rightarrow> json" where
  "enc_delivery_created_payload p = JObj (items
     [(''tool_call_id'', Some (JStr (dc_tool_call_id p))),
      (''artifact_id'', Some (JStr (dc_artifact_id p))),
      (''asset_id'', Some (JStr (dc_asset_id p))),
      (''artifact_kind'', Some (JStr (dc_artifact_kind p))),
      (''path'', Some (JStr (dc_path p))),
      (''title'', Some (JStr (dc_title p))),
      (''mime'', Some (JStr (dc_mime p))),
      (''size'', Some (JInt (dc_size p))),
      (''content_hash'', Some (JStr (dc_content_hash p))),
      (''note'', map_option JStr (dc_note p))])"

definition dec_delivery_created_payload :: "json \<Rightarrow> delivery_created_payload result" where
  "dec_delivery_created_payload j = bind_r (strict_fields [''tool_call_id'', ''artifact_id'', ''asset_id'', ''artifact_kind'', ''path'', ''title'', ''mime'', ''size'', ''content_hash'', ''note''] j) (\<lambda>kvs.
     bind_r (required as_nonempty ''tool_call_id'' kvs) (\<lambda>v_tool_call_id.
     bind_r (required as_nonempty ''artifact_id'' kvs) (\<lambda>v_artifact_id.
     bind_r (required as_nonempty ''asset_id'' kvs) (\<lambda>v_asset_id.
     bind_r (required (as_literal artifact_kind_values) ''artifact_kind'' kvs) (\<lambda>v_artifact_kind.
     bind_r (required as_nonempty ''path'' kvs) (\<lambda>v_path.
     bind_r (required as_nonempty ''title'' kvs) (\<lambda>v_title.
     bind_r (required as_nonempty ''mime'' kvs) (\<lambda>v_mime.
     bind_r (required as_integer ''size'' kvs) (\<lambda>v_size.
     bind_r (required as_nonempty ''content_hash'' kvs) (\<lambda>v_content_hash.
     bind_r (optional as_str ''note'' kvs) (\<lambda>v_note.
     Inr \<lparr>dc_tool_call_id = v_tool_call_id, dc_artifact_id = v_artifact_id, dc_asset_id = v_asset_id, dc_artifact_kind = v_artifact_kind, dc_path = v_path, dc_title = v_title, dc_mime = v_mime, dc_size = v_size, dc_content_hash = v_content_hash, dc_note = v_note\<rparr>)))))))))))"

definition delivery_created_payload_ok :: "delivery_created_payload \<Rightarrow> bool" where
  "delivery_created_payload_ok p \<longleftrightarrow> (dc_tool_call_id p) \<noteq> []
     \<and> (dc_artifact_id p) \<noteq> []
     \<and> (dc_asset_id p) \<noteq> []
     \<and> (dc_artifact_kind p) \<in> set artifact_kind_values
     \<and> (dc_path p) \<noteq> []
     \<and> (dc_title p) \<noteq> []
     \<and> (dc_mime p) \<noteq> []
     \<and> (dc_content_hash p) \<noteq> []"

lemma delivery_created_payload_round_trip [simp]: "delivery_created_payload_ok p \<Longrightarrow> dec_delivery_created_payload (enc_delivery_created_payload p) = Inr p"
  by (cases p) (auto simp: enc_delivery_created_payload_def dec_delivery_created_payload_def delivery_created_payload_ok_def codec_simps split: option.split)

lemma enc_delivery_created_payload_object [simp]: "enc_delivery_created_payload p \<noteq> JNull"
  by (simp add: enc_delivery_created_payload_def)

record run_control_receipt_payload =
  rcr_command_id :: string
  rcr_control_status :: string

definition enc_run_control_receipt_payload :: "run_control_receipt_payload \<Rightarrow> json" where
  "enc_run_control_receipt_payload p = JObj (items
     [(''command_id'', Some (JStr (rcr_command_id p))),
      (''control_status'', Some (JStr (rcr_control_status p)))])"

definition dec_run_control_receipt_payload :: "json \<Rightarrow> run_control_receipt_payload result" where
  "dec_run_control_receipt_payload j = bind_r (strict_fields [''command_id'', ''control_status''] j) (\<lambda>kvs.
     bind_r (required as_nonempty ''command_id'' kvs) (\<lambda>v_command_id.
     bind_r (required (as_literal control_receipt_status_values) ''control_status'' kvs) (\<lambda>v_control_status.
     Inr \<lparr>rcr_command_id = v_command_id, rcr_control_status = v_control_status\<rparr>)))"

definition run_control_receipt_payload_ok :: "run_control_receipt_payload \<Rightarrow> bool" where
  "run_control_receipt_payload_ok p \<longleftrightarrow> (rcr_command_id p) \<noteq> []
     \<and> (rcr_control_status p) \<in> set control_receipt_status_values"

lemma run_control_receipt_payload_round_trip [simp]: "run_control_receipt_payload_ok p \<Longrightarrow> dec_run_control_receipt_payload (enc_run_control_receipt_payload p) = Inr p"
  by (cases p) (auto simp: enc_run_control_receipt_payload_def dec_run_control_receipt_payload_def run_control_receipt_payload_ok_def codec_simps split: option.split)

lemma enc_run_control_receipt_payload_object [simp]: "enc_run_control_receipt_payload p \<noteq> JNull"
  by (simp add: enc_run_control_receipt_payload_def)

record run_completed_payload =
  rc_status :: string
  rc_token_usage :: "token_usage option"

definition enc_run_completed_payload :: "run_completed_payload \<Rightarrow> json" where
  "enc_run_completed_payload p = JObj (items
     [(''status'', Some (JStr (rc_status p))),
      (''token_usage'', map_option enc_token_usage (rc_token_usage p))])"

definition dec_run_completed_payload :: "json \<Rightarrow> run_completed_payload result" where
  "dec_run_completed_payload j = bind_r (strict_fields [''status'', ''token_usage''] j) (\<lambda>kvs.
     bind_r (required (as_literal run_completed_status_values) ''status'' kvs) (\<lambda>v_status.
     bind_r (optional dec_token_usage ''token_usage'' kvs) (\<lambda>v_token_usage.
     Inr \<lparr>rc_status = v_status, rc_token_usage = v_token_usage\<rparr>)))"

definition run_completed_payload_ok :: "run_completed_payload \<Rightarrow> bool" where
  "run_completed_payload_ok p \<longleftrightarrow> (rc_status p) \<in> set run_completed_status_values
     \<and> (\<forall>v. rc_token_usage p = Some v \<longrightarrow> token_usage_ok v)"

lemma run_completed_payload_round_trip [simp]: "run_completed_payload_ok p \<Longrightarrow> dec_run_completed_payload (enc_run_completed_payload p) = Inr p"
  by (cases p) (auto simp: enc_run_completed_payload_def dec_run_completed_payload_def run_completed_payload_ok_def codec_simps split: option.split)

lemma enc_run_completed_payload_object [simp]: "enc_run_completed_payload p \<noteq> JNull"
  by (simp add: enc_run_completed_payload_def)

section \<open>Payloads with their own validators\<close>

text \<open>The UTF-8 length of a string of code points below 256.\<close>

definition utf8_length :: "string \<Rightarrow> nat" where
  "utf8_length s = sum_list (map (\<lambda>c. if (of_char c :: nat) < 128 then 1 else 2) s)"

record todo_updated_payload =
  tup_todos :: "todo list"

definition enc_todo_updated_payload :: "todo_updated_payload \<Rightarrow> json" where
  "enc_todo_updated_payload p = JObj (items [(''todos'', Some (enc_list enc_todo (tup_todos p)))])"

definition canonical_bytes :: "todo_updated_payload \<Rightarrow> string" where
  "canonical_bytes p = dumps_compact False (enc_todo_updated_payload p)"

text \<open>\<open>max_length=100\<close>, then the budget of the complete payload.\<close>

definition todo_updated_payload_ok :: "todo_updated_payload \<Rightarrow> bool" where
  "todo_updated_payload_ok p \<longleftrightarrow> length (tup_todos p) \<le> 100
     \<and> utf8_length (canonical_bytes p) \<le> 65536 \<and> list_all todo_ok (tup_todos p)"

definition dec_todo_updated_payload :: "json \<Rightarrow> todo_updated_payload result" where
  "dec_todo_updated_payload j = bind_r (strict_fields [''todos''] j) (\<lambda>kvs.
     bind_r (required (as_list dec_todo) ''todos'' kvs) (\<lambda>v_todos.
     if 100 < length v_todos then invalid
     else if 65536 < utf8_length (canonical_bytes \<lparr>tup_todos = v_todos\<rparr>) then invalid
     else Inr \<lparr>tup_todos = v_todos\<rparr>))"

lemma todo_updated_payload_round_trip [simp]:
  "todo_updated_payload_ok p \<Longrightarrow> dec_todo_updated_payload (enc_todo_updated_payload p) = Inr p"
  by (cases p) (auto simp: enc_todo_updated_payload_def dec_todo_updated_payload_def
      todo_updated_payload_ok_def codec_simps)

definition skill_phase_values :: "string list" where
  "skill_phase_values = [''resolving'', ''loading'', ''ready'', ''failed'']"

definition skill_error_values :: "string list" where
  "skill_error_values = [''skill_resolve_failed'', ''skill_load_failed'']"

record skill_phase =
  skph_phase :: string
  skph_error_code :: "string option"

record skill_progress_payload =
  skp_phase :: string
  skp_error_code :: "string option"
  skp_anchor_source_index :: int
  skp_source_refs :: "string list"

text \<open>\<open>failure_presence\<close>: the error code is given exactly in phase \<open>failed\<close>.\<close>

definition skill_phase_ok :: "string \<Rightarrow> string option \<Rightarrow> bool" where
  "skill_phase_ok p e \<longleftrightarrow> List.member skill_phase_values p
     \<and> (case e of None \<Rightarrow> p \<noteq> ''failed'' | Some c \<Rightarrow> p = ''failed'' \<and> List.member skill_error_values c)"

definition enc_skill_progress_payload :: "skill_progress_payload \<Rightarrow> json" where
  "enc_skill_progress_payload p = JObj (items
     [(''phase'', Some (JStr (skp_phase p))),
      (''error_code'', map_option JStr (skp_error_code p)),
      (''anchor_source_index'', Some (JInt (skp_anchor_source_index p))),
      (''source_refs'', Some (enc_list JStr (skp_source_refs p)))])"

definition dec_skill_progress_payload :: "json \<Rightarrow> skill_progress_payload result" where
  "dec_skill_progress_payload j =
     bind_r (strict_fields [''phase'', ''error_code'', ''anchor_source_index'', ''source_refs''] j) (\<lambda>kvs.
     bind_r (required (as_literal skill_phase_values) ''phase'' kvs) (\<lambda>v_phase.
     bind_r (optional (as_literal skill_error_values) ''error_code'' kvs) (\<lambda>v_error.
     bind_r (required (as_int_from 0) ''anchor_source_index'' kvs) (\<lambda>v_anchor.
     bind_r (required (as_list as_nonempty) ''source_refs'' kvs) (\<lambda>v_refs.
     if v_refs = [] then invalid
     else if v_phase = ''failed'' \<and> v_error = None then invalid
     else if v_phase \<noteq> ''failed'' \<and> map_of kvs ''error_code'' \<noteq> None then invalid
     else Inr \<lparr>skp_phase = v_phase, skp_error_code = v_error, skp_anchor_source_index = v_anchor,
               skp_source_refs = v_refs\<rparr>)))))"

definition skill_progress_payload_ok :: "skill_progress_payload \<Rightarrow> bool" where
  "skill_progress_payload_ok p \<longleftrightarrow> skill_phase_ok (skp_phase p) (skp_error_code p)
     \<and> 0 \<le> skp_anchor_source_index p \<and> skp_source_refs p \<noteq> []
     \<and> list_all (\<lambda>r. r \<noteq> []) (skp_source_refs p)"

lemma skill_progress_payload_round_trip [simp]:
  "skill_progress_payload_ok p \<Longrightarrow> dec_skill_progress_payload (enc_skill_progress_payload p) = Inr p"
  by (cases p) (auto simp: enc_skill_progress_payload_def dec_skill_progress_payload_def
      skill_progress_payload_ok_def skill_phase_ok_def codec_simps map_of_items split: option.splits)

text \<open>\<open>protocol/run_failure_generated.py\<close>: only two codes may be retryable.\<close>

definition run_error_codes :: "string list" where
  "run_error_codes = [''token_budget_exceeded'', ''recursion_limit_exceeded'', ''assembly_failed'',
     ''enqueue_failed'', ''dispatch_exhausted'', ''contract_incompatible'', ''internal_error'',
     ''model_unavailable'', ''dependency_unavailable'', ''model_access_denied'']"

record run_failed_payload =
  rf_code :: string
  rf_retryable :: bool

definition run_failed_payload_ok :: "run_failed_payload \<Rightarrow> bool" where
  "run_failed_payload_ok p \<longleftrightarrow> List.member run_error_codes (rf_code p)
     \<and> (rf_retryable p \<longrightarrow> rf_code p \<in> {''model_unavailable'', ''dependency_unavailable''})"

definition enc_run_failed_payload :: "run_failed_payload \<Rightarrow> json" where
  "enc_run_failed_payload p = JObj (items
     [(''code'', Some (JStr (rf_code p))), (''retryable'', Some (JBool (rf_retryable p)))])"

definition dec_run_failed_payload :: "json \<Rightarrow> run_failed_payload result" where
  "dec_run_failed_payload j = bind_r (strict_fields [''code'', ''retryable''] j) (\<lambda>kvs.
     bind_r (required (as_literal run_error_codes) ''code'' kvs) (\<lambda>v_code.
     bind_r (required as_bool ''retryable'' kvs) (\<lambda>v_retryable.
     if v_retryable \<and> v_code \<notin> {''model_unavailable'', ''dependency_unavailable''} then invalid
     else Inr \<lparr>rf_code = v_code, rf_retryable = v_retryable\<rparr>)))"

lemma run_failed_payload_round_trip [simp]:
  "run_failed_payload_ok p \<Longrightarrow> dec_run_failed_payload (enc_run_failed_payload p) = Inr p"
  by (cases p) (auto simp: enc_run_failed_payload_def dec_run_failed_payload_def
      run_failed_payload_ok_def codec_simps)

section \<open>Events\<close>

datatype agent_payload =
    RunStartedP
  | ThinkingDeltaP thinking_delta_payload
  | MessageDeltaP message_delta_payload
  | MessageCompletedP message_completed_payload
  | ToolInvokedP tool_invoked_payload
  | ToolOutputDeltaP tool_output_delta_payload
  | ToolAwaitingApprovalP tool_awaiting_approval_payload
  | ToolReturnedP tool_returned_payload
  | TodoUpdatedP todo_updated_payload
  | SkillProgressP skill_progress_payload
  | SubagentStartedP subagent_started_payload
  | SubagentFinishedP subagent_finished_payload
  | SubagentThinkingDeltaP subagent_thinking_delta_payload
  | SubagentTextDeltaP subagent_text_delta_payload
  | SubagentTextCompletedP subagent_text_completed_payload
  | SubagentToolInvokedP subagent_tool_invoked_payload
  | SubagentToolReturnedP subagent_tool_returned_payload
  | DeliveryCreatedP delivery_created_payload
  | RunControlReceiptP run_control_receipt_payload
  | RunCompletedP run_completed_payload
  | RunFailedP run_failed_payload

text \<open>\<open>_KIND_BY_PAYLOAD\<close>.\<close>

fun kind_of :: "agent_payload \<Rightarrow> string" where
  "kind_of RunStartedP = ''run.started''"
| "kind_of (ThinkingDeltaP _) = ''thinking.delta''"
| "kind_of (MessageDeltaP _) = ''message.delta''"
| "kind_of (MessageCompletedP _) = ''message.completed''"
| "kind_of (ToolInvokedP _) = ''tool.invoked''"
| "kind_of (ToolOutputDeltaP _) = ''tool.output.delta''"
| "kind_of (ToolAwaitingApprovalP _) = ''tool.awaiting_approval''"
| "kind_of (ToolReturnedP _) = ''tool.returned''"
| "kind_of (TodoUpdatedP _) = ''todo.updated''"
| "kind_of (SkillProgressP _) = ''skill.progress''"
| "kind_of (SubagentStartedP _) = ''subagent.started''"
| "kind_of (SubagentFinishedP _) = ''subagent.finished''"
| "kind_of (SubagentThinkingDeltaP _) = ''subagent.thinking.delta''"
| "kind_of (SubagentTextDeltaP _) = ''subagent.text.delta''"
| "kind_of (SubagentTextCompletedP _) = ''subagent.text.completed''"
| "kind_of (SubagentToolInvokedP _) = ''subagent.tool.invoked''"
| "kind_of (SubagentToolReturnedP _) = ''subagent.tool.returned''"
| "kind_of (DeliveryCreatedP _) = ''delivery.created''"
| "kind_of (RunControlReceiptP _) = ''run.control.receipt''"
| "kind_of (RunCompletedP _) = ''run.completed''"
| "kind_of (RunFailedP _) = ''run.failed''"

fun enc_payload :: "agent_payload \<Rightarrow> json" where
  "enc_payload RunStartedP = JObj []"
| "enc_payload (ThinkingDeltaP p) = enc_thinking_delta_payload p"
| "enc_payload (MessageDeltaP p) = enc_message_delta_payload p"
| "enc_payload (MessageCompletedP p) = enc_message_completed_payload p"
| "enc_payload (ToolInvokedP p) = enc_tool_invoked_payload p"
| "enc_payload (ToolOutputDeltaP p) = enc_tool_output_delta_payload p"
| "enc_payload (ToolAwaitingApprovalP p) = enc_tool_awaiting_approval_payload p"
| "enc_payload (ToolReturnedP p) = enc_tool_returned_payload p"
| "enc_payload (TodoUpdatedP p) = enc_todo_updated_payload p"
| "enc_payload (SkillProgressP p) = enc_skill_progress_payload p"
| "enc_payload (SubagentStartedP p) = enc_subagent_started_payload p"
| "enc_payload (SubagentFinishedP p) = enc_subagent_finished_payload p"
| "enc_payload (SubagentThinkingDeltaP p) = enc_subagent_thinking_delta_payload p"
| "enc_payload (SubagentTextDeltaP p) = enc_subagent_text_delta_payload p"
| "enc_payload (SubagentTextCompletedP p) = enc_subagent_text_completed_payload p"
| "enc_payload (SubagentToolInvokedP p) = enc_subagent_tool_invoked_payload p"
| "enc_payload (SubagentToolReturnedP p) = enc_subagent_tool_returned_payload p"
| "enc_payload (DeliveryCreatedP p) = enc_delivery_created_payload p"
| "enc_payload (RunControlReceiptP p) = enc_run_control_receipt_payload p"
| "enc_payload (RunCompletedP p) = enc_run_completed_payload p"
| "enc_payload (RunFailedP p) = enc_run_failed_payload p"

fun payload_ok :: "agent_payload \<Rightarrow> bool" where
  "payload_ok RunStartedP \<longleftrightarrow> True"
| "payload_ok (ThinkingDeltaP p) \<longleftrightarrow> thinking_delta_payload_ok p"
| "payload_ok (MessageDeltaP p) \<longleftrightarrow> message_delta_payload_ok p"
| "payload_ok (MessageCompletedP p) \<longleftrightarrow> message_completed_payload_ok p"
| "payload_ok (ToolInvokedP p) \<longleftrightarrow> tool_invoked_payload_ok p"
| "payload_ok (ToolOutputDeltaP p) \<longleftrightarrow> tool_output_delta_payload_ok p"
| "payload_ok (ToolAwaitingApprovalP p) \<longleftrightarrow> tool_awaiting_approval_payload_ok p"
| "payload_ok (ToolReturnedP p) \<longleftrightarrow> tool_returned_payload_ok p"
| "payload_ok (TodoUpdatedP p) \<longleftrightarrow> todo_updated_payload_ok p"
| "payload_ok (SkillProgressP p) \<longleftrightarrow> skill_progress_payload_ok p"
| "payload_ok (SubagentStartedP p) \<longleftrightarrow> subagent_started_payload_ok p"
| "payload_ok (SubagentFinishedP p) \<longleftrightarrow> subagent_finished_payload_ok p"
| "payload_ok (SubagentThinkingDeltaP p) \<longleftrightarrow> subagent_thinking_delta_payload_ok p"
| "payload_ok (SubagentTextDeltaP p) \<longleftrightarrow> subagent_text_delta_payload_ok p"
| "payload_ok (SubagentTextCompletedP p) \<longleftrightarrow> subagent_text_completed_payload_ok p"
| "payload_ok (SubagentToolInvokedP p) \<longleftrightarrow> subagent_tool_invoked_payload_ok p"
| "payload_ok (SubagentToolReturnedP p) \<longleftrightarrow> subagent_tool_returned_payload_ok p"
| "payload_ok (DeliveryCreatedP p) \<longleftrightarrow> delivery_created_payload_ok p"
| "payload_ok (RunControlReceiptP p) \<longleftrightarrow> run_control_receipt_payload_ok p"
| "payload_ok (RunCompletedP p) \<longleftrightarrow> run_completed_payload_ok p"
| "payload_ok (RunFailedP p) \<longleftrightarrow> run_failed_payload_ok p"

definition dec_as :: "('a \<Rightarrow> agent_payload) \<Rightarrow> 'a result \<Rightarrow> agent_payload result" where
  "dec_as c m = bind_r m (\<lambda>p. Inr (c p))"

text \<open>The union discriminated by \<open>kind\<close>; an unknown kind is rejected.\<close>

definition dec_payload :: "string \<Rightarrow> json \<Rightarrow> agent_payload result" where
  "dec_payload k j =
     (if k = ''run.started'' then bind_r (strict_fields [] j) (\<lambda>_. Inr RunStartedP)
      else if k = ''thinking.delta'' then dec_as ThinkingDeltaP (dec_thinking_delta_payload j)
      else if k = ''message.delta'' then dec_as MessageDeltaP (dec_message_delta_payload j)
      else if k = ''message.completed'' then dec_as MessageCompletedP (dec_message_completed_payload j)
      else if k = ''tool.invoked'' then dec_as ToolInvokedP (dec_tool_invoked_payload j)
      else if k = ''tool.output.delta'' then dec_as ToolOutputDeltaP (dec_tool_output_delta_payload j)
      else if k = ''tool.awaiting_approval'' then dec_as ToolAwaitingApprovalP (dec_tool_awaiting_approval_payload j)
      else if k = ''tool.returned'' then dec_as ToolReturnedP (dec_tool_returned_payload j)
      else if k = ''todo.updated'' then dec_as TodoUpdatedP (dec_todo_updated_payload j)
      else if k = ''skill.progress'' then dec_as SkillProgressP (dec_skill_progress_payload j)
      else if k = ''subagent.started'' then dec_as SubagentStartedP (dec_subagent_started_payload j)
      else if k = ''subagent.finished'' then dec_as SubagentFinishedP (dec_subagent_finished_payload j)
      else if k = ''subagent.thinking.delta'' then dec_as SubagentThinkingDeltaP (dec_subagent_thinking_delta_payload j)
      else if k = ''subagent.text.delta'' then dec_as SubagentTextDeltaP (dec_subagent_text_delta_payload j)
      else if k = ''subagent.text.completed'' then dec_as SubagentTextCompletedP (dec_subagent_text_completed_payload j)
      else if k = ''subagent.tool.invoked'' then dec_as SubagentToolInvokedP (dec_subagent_tool_invoked_payload j)
      else if k = ''subagent.tool.returned'' then dec_as SubagentToolReturnedP (dec_subagent_tool_returned_payload j)
      else if k = ''delivery.created'' then dec_as DeliveryCreatedP (dec_delivery_created_payload j)
      else if k = ''run.control.receipt'' then dec_as RunControlReceiptP (dec_run_control_receipt_payload j)
      else if k = ''run.completed'' then dec_as RunCompletedP (dec_run_completed_payload j)
      else if k = ''run.failed'' then dec_as RunFailedP (dec_run_failed_payload j)
      else invalid)"

lemma payload_round_trip: "payload_ok p \<Longrightarrow> dec_payload (kind_of p) (enc_payload p) = Inr p"
  by (cases p) (simp_all add: dec_payload_def dec_as_def strict_fields_def)

lemma enc_payload_object [simp]: "\<exists>kvs. enc_payload p = JObj kvs"
  by (cases p) (simp_all add: enc_risk_def enc_token_usage_def enc_todo_def enc_thinking_delta_payload_def
      enc_message_delta_payload_def enc_message_completed_payload_def enc_tool_invoked_payload_def
      enc_tool_output_delta_payload_def enc_tool_awaiting_approval_payload_def enc_tool_returned_payload_def
      enc_todo_updated_payload_def enc_skill_progress_payload_def enc_subagent_started_payload_def
      enc_subagent_finished_payload_def enc_subagent_thinking_delta_payload_def
      enc_subagent_text_delta_payload_def enc_subagent_text_completed_payload_def
      enc_subagent_tool_invoked_payload_def enc_subagent_tool_returned_payload_def
      enc_delivery_created_payload_def enc_run_control_receipt_payload_def enc_run_completed_payload_def
      enc_run_failed_payload_def)

text \<open>The envelope all event classes share; its \<open>kind\<close> is the one of the payload.\<close>

record agent_event =
  ae_run_id :: string
  ae_index :: int
  ae_timestamp :: int
  ae_durable_seq :: "int option"
  ae_event_id :: "string option"
  ae_payload :: agent_payload

definition agent_event_ok :: "agent_event \<Rightarrow> bool" where
  "agent_event_ok e \<longleftrightarrow> ae_run_id e \<noteq> [] \<and> 0 \<le> ae_index e
     \<and> (\<forall>n. ae_durable_seq e = Some n \<longrightarrow> 1 \<le> n) \<and> ae_event_id e \<noteq> Some []
     \<and> payload_ok (ae_payload e)"

definition enc_event :: "agent_event \<Rightarrow> json" where
  "enc_event e = JObj (items
     [(''kind'', Some (JStr (kind_of (ae_payload e)))),
      (''run_id'', Some (JStr (ae_run_id e))),
      (''index'', Some (JInt (ae_index e))),
      (''timestamp'', Some (JInt (ae_timestamp e))),
      (''durable_seq'', map_option JInt (ae_durable_seq e)),
      (''event_id'', map_option JStr (ae_event_id e)),
      (''payload'', Some (enc_payload (ae_payload e)))])"

definition dec_event :: "json \<Rightarrow> agent_event result" where
  "dec_event j =
     bind_r (strict_fields [''kind'', ''run_id'', ''index'', ''timestamp'', ''durable_seq'', ''event_id'', ''payload''] j) (\<lambda>kvs.
     bind_r (required as_str ''kind'' kvs) (\<lambda>k.
     bind_r (required as_nonempty ''run_id'' kvs) (\<lambda>r.
     bind_r (required (as_int_from 0) ''index'' kvs) (\<lambda>i.
     bind_r (required as_integer ''timestamp'' kvs) (\<lambda>t.
     bind_r (optional (as_int_from 1) ''durable_seq'' kvs) (\<lambda>s.
     bind_r (optional as_nonempty ''event_id'' kvs) (\<lambda>e.
     bind_r (required (dec_payload k) ''payload'' kvs) (\<lambda>p.
     Inr \<lparr>ae_run_id = r, ae_index = i, ae_timestamp = t, ae_durable_seq = s, ae_event_id = e,
          ae_payload = p\<rparr>))))))))"

text \<open>C9: Every event survives the wire: the strict adapter decodes the JSON object that
  \<open>model_dump(exclude_none=True)\<close> makes of a valid event to exactly that event, for all 21 payload
  classes with their optional fields present or absent.\<close>

theorem event_round_trip:
  assumes "agent_event_ok e"
  shows "dec_event (enc_event e) = Inr e"
  using assms payload_round_trip [of "ae_payload e"]
  by (cases e) (auto simp: enc_event_def dec_event_def agent_event_ok_def codec_simps split: option.split)

definition demo_event :: agent_event where
  "demo_event = \<lparr>ae_run_id = ''r1'', ae_index = 3, ae_timestamp = 1700, ae_durable_seq = Some 2,
     ae_event_id = Some ''evt_1'',
     ae_payload = ToolReturnedP \<lparr>tr_segment_id = ''s'', tr_tool_id = ''t'', tr_name = ''ls'', tr_result = ''ok'',
       tr_is_error = False, tr_truncated = Some True, tr_rejected = None, tr_reject_reason = None,
       tr_responded = None, tr_summary = None\<rparr>\<rparr>"

theorem event_round_trip_witness: "agent_event_ok demo_event \<and> dec_event (enc_event demo_event) = Inr demo_event"
proof -
  have ok: "agent_event_ok demo_event"
    by (simp add: demo_event_def agent_event_ok_def tool_returned_payload_ok_def)
  from ok event_round_trip [OF ok] show ?thesis by simp
qed

end
