(* ===== verification/Control.thy ===== *)
theory Control
  imports Protocol "HOL-Library.Char_ord" "HOL-Library.List_Lexorder" "HOL-Library.Multiset"
begin

text \<open>
  The inbound control frames of \<open>src/kokoro_agent/protocol/control.py\<close>: launch requests with
  their identity and skill selection, resume, cancel and steer commands, the union discriminated
  by \<open>kind\<close>, and the digest of a resume command; and the private namespace that
  \<open>src/kokoro_agent/domain/run/scope.py\<close> derives from an identity. The hash function
  (\<open>hashlib.sha256(text.encode()).hexdigest()\<close>) is a parameter of the definitions that use it.
\<close>

section \<open>Values\<close>

record identity_ref =
  ir_kind :: string
  ir_opaque_ref :: string

record execution_identity =
  ei_tenant_ref :: string
  ei_actor :: identity_ref
  ei_subject :: identity_ref
  ei_assertion_ref :: string

record run_input =
  inp_message_id :: string
  inp_content :: string

record run_request =
  rq_request_id :: "string option"
  rq_run_id :: string
  rq_session_id :: string
  rq_feature_key :: string
  rq_project_ref :: "string option"
  rq_skill_refs :: "string list"
  rq_identity :: execution_identity
  rq_input :: run_input
  rq_model_label :: "string option"
  rq_trace :: "(string \<times> json) list option"

datatype resume_decision =
    ApproveD string "(string \<times> json) list option"
  | EditD string "(string \<times> json) list"
  | RejectD string "string option"
  | RespondD string string
  | SubmitD string "(string \<times> json) list"

fun decision_item :: "resume_decision \<Rightarrow> string" where
  "decision_item (ApproveD i _) = i"
| "decision_item (EditD i _) = i"
| "decision_item (RejectD i _) = i"
| "decision_item (RespondD i _) = i"
| "decision_item (SubmitD i _) = i"

record run_resume =
  rs_run_id :: string
  rs_session_id :: string
  rs_command_id :: string
  rs_request_digest :: "string option"
  rs_expected_pause_revision :: int
  rs_pause_ref :: string
  rs_decisions :: "resume_decision list"

record run_cancel =
  rcn_run_id :: string
  rcn_session_id :: string
  rcn_command_id :: string
  rcn_request_digest :: "string option"

record run_steer =
  rst_run_id :: string
  rst_session_id :: string
  rst_command_id :: string
  rst_request_digest :: "string option"
  rst_message_id :: string
  rst_content :: string

datatype inbound_message =
    InRequest run_request
  | InResume run_resume
  | InCancel run_cancel
  | InSteer run_steer

section \<open>Field validators\<close>

definition identity_kinds :: "string list" where
  "identity_kinds = [''user'', ''project'', ''service'']"

text \<open>\<open>[^\s\x00-\x1f\x7f]\<close> on code points below 256.\<close>

definition project_ref_char :: "char \<Rightarrow> bool" where
  "project_ref_char c \<longleftrightarrow> (let n = of_char c :: nat in 32 < n \<and> n \<noteq> 127 \<and> n \<noteq> 133 \<and> n \<noteq> 160)"

definition project_ref_ok :: "string \<Rightarrow> bool" where
  "project_ref_ok r \<longleftrightarrow> r \<noteq> [] \<and> length r \<le> 255 \<and> list_all project_ref_char r"

definition alnum_char :: "char \<Rightarrow> bool" where
  "alnum_char c \<longleftrightarrow> (let n = of_char c :: nat in
     65 \<le> n \<and> n \<le> 90 \<or> 97 \<le> n \<and> n \<le> 122 \<or> 48 \<le> n \<and> n \<le> 57)"

definition ref_char :: "char \<Rightarrow> bool" where
  "ref_char c \<longleftrightarrow> alnum_char c \<or> List.member ''._:-'' c"

definition skill_prefix :: string where
  "skill_prefix = ''skill:''"

definition starts_with :: "string \<Rightarrow> string \<Rightarrow> bool" where
  "starts_with p s \<longleftrightarrow> take (length p) s = p"

text \<open>\<open>_SKILL_SOURCE_REF.fullmatch\<close> and the excluded doubled prefix.\<close>

definition skill_ref_ok :: "string \<Rightarrow> bool" where
  "skill_ref_ok r \<longleftrightarrow>
     starts_with skill_prefix r
     \<and> (case drop 6 r of [] \<Rightarrow> False
        | c # cs \<Rightarrow> alnum_char c \<and> length cs \<le> 190 \<and> list_all ref_char cs)
     \<and> \<not> starts_with (skill_prefix @ skill_prefix) r"

definition skill_refs_check :: "string list \<Rightarrow> exn option" where
  "skill_refs_check refs = first_error
     [fail_if (16 < length refs) (ValidationError ''too many selected_skill_source_refs''),
      fail_if (\<not> distinct refs \<or> \<not> list_all skill_ref_ok refs)
        (ValidationError ''invalid selected_skill_source_refs''),
      fail_if (4096 < length (dumps_compact True (JList (map JStr refs))))
        (ValidationError ''selected_skill_source_refs exceeds byte limit'')]"

section \<open>Codecs\<close>

text \<open>
  A field whose value is None is left out by \<open>exclude_none=True\<close> and printed as null
  otherwise.
\<close>

definition opt_field :: "bool \<Rightarrow> ('a \<Rightarrow> json) \<Rightarrow> 'a option \<Rightarrow> json option" where
  "opt_field excl e v = (case v of Some x \<Rightarrow> Some (e x) | None \<Rightarrow> if excl then None else Some JNull)"

text \<open>A required field that may be null.\<close>

definition nullable :: "(json \<Rightarrow> 'a result) \<Rightarrow> string \<Rightarrow> (string \<times> json) list \<Rightarrow> 'a option result" where
  "nullable f k kvs = (case map_of kvs k of None \<Rightarrow> invalid | Some _ \<Rightarrow> optional f k kvs)"

definition enc_identity_ref :: "identity_ref \<Rightarrow> json" where
  "enc_identity_ref r = JObj [(''kind'', JStr (ir_kind r)), (''opaque_ref'', JStr (ir_opaque_ref r))]"

definition dec_identity_ref :: "json \<Rightarrow> identity_ref result" where
  "dec_identity_ref j = bind_r (strict_fields [''kind'', ''opaque_ref''] j) (\<lambda>kvs.
     bind_r (required (as_literal identity_kinds) ''kind'' kvs) (\<lambda>k.
     bind_r (required as_nonempty ''opaque_ref'' kvs) (\<lambda>r.
     Inr \<lparr>ir_kind = k, ir_opaque_ref = r\<rparr>)))"

definition enc_execution_identity :: "execution_identity \<Rightarrow> json" where
  "enc_execution_identity i = JObj
     [(''tenant_ref'', JStr (ei_tenant_ref i)),
      (''actor'', enc_identity_ref (ei_actor i)),
      (''subject'', enc_identity_ref (ei_subject i)),
      (''identity_assertion_ref'', JStr (ei_assertion_ref i))]"

definition dec_execution_identity :: "json \<Rightarrow> execution_identity result" where
  "dec_execution_identity j =
     bind_r (strict_fields [''tenant_ref'', ''actor'', ''subject'', ''identity_assertion_ref''] j) (\<lambda>kvs.
     bind_r (required as_nonempty ''tenant_ref'' kvs) (\<lambda>t.
     bind_r (required dec_identity_ref ''actor'' kvs) (\<lambda>a.
     bind_r (required dec_identity_ref ''subject'' kvs) (\<lambda>s.
     bind_r (required as_nonempty ''identity_assertion_ref'' kvs) (\<lambda>r.
     Inr \<lparr>ei_tenant_ref = t, ei_actor = a, ei_subject = s, ei_assertion_ref = r\<rparr>)))))"

definition enc_run_input :: "run_input \<Rightarrow> json" where
  "enc_run_input i = JObj [(''message_id'', JStr (inp_message_id i)), (''content'', JStr (inp_content i))]"

definition dec_run_input :: "json \<Rightarrow> run_input result" where
  "dec_run_input j = bind_r (strict_fields [''message_id'', ''content''] j) (\<lambda>kvs.
     bind_r (required as_nonempty ''message_id'' kvs) (\<lambda>m.
     bind_r (required as_nonempty ''content'' kvs) (\<lambda>c.
     Inr \<lparr>inp_message_id = m, inp_content = c\<rparr>)))"

definition as_project_ref :: "json \<Rightarrow> string result" where
  "as_project_ref j = bind_r (as_nonempty j) (\<lambda>r.
     if project_ref_ok r then Inr r else Inl (ValidationError ''invalid project_ref''))"

definition as_skill_refs :: "json \<Rightarrow> string list result" where
  "as_skill_refs j = bind_r (as_list as_str j) (construct skill_refs_check)"

definition enc_run_request :: "bool \<Rightarrow> run_request \<Rightarrow> json" where
  "enc_run_request excl q = JObj (items
     [(''kind'', Some (JStr ''run.request'')),
      (''request_id'', opt_field excl JStr (rq_request_id q)),
      (''run_id'', Some (JStr (rq_run_id q))),
      (''session_id'', Some (JStr (rq_session_id q))),
      (''feature_key'', Some (JStr (rq_feature_key q))),
      (''project_ref'', opt_field excl JStr (rq_project_ref q)),
      (''selected_skill_source_refs'', Some (enc_list JStr (rq_skill_refs q))),
      (''execution_identity'', Some (enc_execution_identity (rq_identity q))),
      (''input'', Some (enc_run_input (rq_input q))),
      (''requested_model_label'', opt_field excl JStr (rq_model_label q)),
      (''trace'', opt_field excl JObj (rq_trace q))])"

definition dec_run_request :: "json \<Rightarrow> run_request result" where
  "dec_run_request j =
     bind_r (strict_fields [''kind'', ''request_id'', ''run_id'', ''session_id'', ''feature_key'',
        ''project_ref'', ''selected_skill_source_refs'', ''execution_identity'', ''input'',
        ''requested_model_label'', ''trace''] j) (\<lambda>kvs.
     bind_r (required (as_literal [''run.request'']) ''kind'' kvs) (\<lambda>_.
     bind_r (optional as_nonempty ''request_id'' kvs) (\<lambda>v_request.
     bind_r (required as_nonempty ''run_id'' kvs) (\<lambda>v_run.
     bind_r (required as_nonempty ''session_id'' kvs) (\<lambda>v_session.
     bind_r (required as_nonempty ''feature_key'' kvs) (\<lambda>v_feature.
     bind_r (nullable as_project_ref ''project_ref'' kvs) (\<lambda>v_project.
     bind_r (required as_skill_refs ''selected_skill_source_refs'' kvs) (\<lambda>v_refs.
     bind_r (required dec_execution_identity ''execution_identity'' kvs) (\<lambda>v_identity.
     bind_r (required dec_run_input ''input'' kvs) (\<lambda>v_input.
     bind_r (optional as_nonempty ''requested_model_label'' kvs) (\<lambda>v_label.
     bind_r (optional as_dict ''trace'' kvs) (\<lambda>v_trace.
     Inr \<lparr>rq_request_id = v_request, rq_run_id = v_run, rq_session_id = v_session,
          rq_feature_key = v_feature, rq_project_ref = v_project, rq_skill_refs = v_refs,
          rq_identity = v_identity, rq_input = v_input, rq_model_label = v_label,
          rq_trace = v_trace\<rparr>))))))))))))"

fun enc_resume_decision :: "bool \<Rightarrow> resume_decision \<Rightarrow> json" where
  "enc_resume_decision excl (ApproveD i args) = JObj (items
     [(''type'', Some (JStr ''approve'')), (''item_id'', Some (JStr i)), (''args'', opt_field excl JObj args)])"
| "enc_resume_decision excl (EditD i args) = JObj (items
     [(''type'', Some (JStr ''edit'')), (''item_id'', Some (JStr i)), (''args'', Some (JObj args))])"
| "enc_resume_decision excl (RejectD i reason) = JObj (items
     [(''type'', Some (JStr ''reject'')), (''item_id'', Some (JStr i)), (''reason'', opt_field excl JStr reason)])"
| "enc_resume_decision excl (RespondD i response) = JObj (items
     [(''type'', Some (JStr ''respond'')), (''item_id'', Some (JStr i)), (''response'', Some (JStr response))])"
| "enc_resume_decision excl (SubmitD i value) = JObj (items
     [(''type'', Some (JStr ''submit'')), (''item_id'', Some (JStr i)), (''value'', Some (JObj value))])"

text \<open>The member of a discriminated union is chosen by the value of one field.\<close>

definition discriminator :: "string \<Rightarrow> json \<Rightarrow> string result" where
  "discriminator k j = (case j of JObj kvs \<Rightarrow> required as_str k kvs | _ \<Rightarrow> invalid)"

definition dec_resume_decision :: "json \<Rightarrow> resume_decision result" where
  "dec_resume_decision j = bind_r (discriminator ''type'' j) (\<lambda>t.
     if t = ''approve'' then
       bind_r (strict_fields [''type'', ''item_id'', ''args''] j) (\<lambda>kvs.
       bind_r (required as_nonempty ''item_id'' kvs) (\<lambda>i.
       bind_r (optional as_dict ''args'' kvs) (\<lambda>a. Inr (ApproveD i a))))
     else if t = ''edit'' then
       bind_r (strict_fields [''type'', ''item_id'', ''args''] j) (\<lambda>kvs.
       bind_r (required as_nonempty ''item_id'' kvs) (\<lambda>i.
       bind_r (required as_dict ''args'' kvs) (\<lambda>a. Inr (EditD i a))))
     else if t = ''reject'' then
       bind_r (strict_fields [''type'', ''item_id'', ''reason''] j) (\<lambda>kvs.
       bind_r (required as_nonempty ''item_id'' kvs) (\<lambda>i.
       bind_r (optional as_str ''reason'' kvs) (\<lambda>r. Inr (RejectD i r))))
     else if t = ''respond'' then
       bind_r (strict_fields [''type'', ''item_id'', ''response''] j) (\<lambda>kvs.
       bind_r (required as_nonempty ''item_id'' kvs) (\<lambda>i.
       bind_r (required as_nonempty ''response'' kvs) (\<lambda>r. Inr (RespondD i r))))
     else if t = ''submit'' then
       bind_r (strict_fields [''type'', ''item_id'', ''value''] j) (\<lambda>kvs.
       bind_r (required as_nonempty ''item_id'' kvs) (\<lambda>i.
       bind_r (required as_dict ''value'' kvs) (\<lambda>v. Inr (SubmitD i v))))
     else invalid)"

definition as_decisions :: "json \<Rightarrow> resume_decision list result" where
  "as_decisions j = bind_r (as_list dec_resume_decision j) (\<lambda>values.
     if values = [] then invalid
     else if \<not> distinct (map decision_item values) then Inl (ValidationError ''duplicate resume item'')
     else Inr values)"

definition enc_run_resume :: "bool \<Rightarrow> run_resume \<Rightarrow> json" where
  "enc_run_resume excl m = JObj (items
     [(''kind'', Some (JStr ''run.resume'')),
      (''run_id'', Some (JStr (rs_run_id m))),
      (''session_id'', Some (JStr (rs_session_id m))),
      (''command_id'', Some (JStr (rs_command_id m))),
      (''request_digest'', opt_field excl JStr (rs_request_digest m)),
      (''expected_pause_revision'', Some (JInt (rs_expected_pause_revision m))),
      (''pause_ref'', Some (JStr (rs_pause_ref m))),
      (''decisions'', Some (enc_list (enc_resume_decision excl) (rs_decisions m)))])"

definition dec_run_resume :: "json \<Rightarrow> run_resume result" where
  "dec_run_resume j =
     bind_r (strict_fields [''kind'', ''run_id'', ''session_id'', ''command_id'', ''request_digest'',
        ''expected_pause_revision'', ''pause_ref'', ''decisions''] j) (\<lambda>kvs.
     bind_r (required (as_literal [''run.resume'']) ''kind'' kvs) (\<lambda>_.
     bind_r (required as_nonempty ''run_id'' kvs) (\<lambda>v_run.
     bind_r (required as_nonempty ''session_id'' kvs) (\<lambda>v_session.
     bind_r (required as_nonempty ''command_id'' kvs) (\<lambda>v_command.
     bind_r (optional as_nonempty ''request_digest'' kvs) (\<lambda>v_digest.
     bind_r (required (as_int_from 1) ''expected_pause_revision'' kvs) (\<lambda>v_revision.
     bind_r (required as_nonempty ''pause_ref'' kvs) (\<lambda>v_pause.
     bind_r (required as_decisions ''decisions'' kvs) (\<lambda>v_decisions.
     Inr \<lparr>rs_run_id = v_run, rs_session_id = v_session, rs_command_id = v_command,
          rs_request_digest = v_digest, rs_expected_pause_revision = v_revision,
          rs_pause_ref = v_pause, rs_decisions = v_decisions\<rparr>)))))))))"

definition enc_run_cancel :: "bool \<Rightarrow> run_cancel \<Rightarrow> json" where
  "enc_run_cancel excl m = JObj (items
     [(''kind'', Some (JStr ''run.cancel'')),
      (''run_id'', Some (JStr (rcn_run_id m))),
      (''session_id'', Some (JStr (rcn_session_id m))),
      (''command_id'', Some (JStr (rcn_command_id m))),
      (''request_digest'', opt_field excl JStr (rcn_request_digest m))])"

definition dec_run_cancel :: "json \<Rightarrow> run_cancel result" where
  "dec_run_cancel j =
     bind_r (strict_fields [''kind'', ''run_id'', ''session_id'', ''command_id'', ''request_digest''] j) (\<lambda>kvs.
     bind_r (required (as_literal [''run.cancel'']) ''kind'' kvs) (\<lambda>_.
     bind_r (required as_nonempty ''run_id'' kvs) (\<lambda>v_run.
     bind_r (required as_nonempty ''session_id'' kvs) (\<lambda>v_session.
     bind_r (required as_nonempty ''command_id'' kvs) (\<lambda>v_command.
     bind_r (optional as_nonempty ''request_digest'' kvs) (\<lambda>v_digest.
     Inr \<lparr>rcn_run_id = v_run, rcn_session_id = v_session, rcn_command_id = v_command,
          rcn_request_digest = v_digest\<rparr>))))))"

definition enc_run_steer :: "bool \<Rightarrow> run_steer \<Rightarrow> json" where
  "enc_run_steer excl m = JObj (items
     [(''kind'', Some (JStr ''run.steer'')),
      (''run_id'', Some (JStr (rst_run_id m))),
      (''session_id'', Some (JStr (rst_session_id m))),
      (''command_id'', Some (JStr (rst_command_id m))),
      (''request_digest'', opt_field excl JStr (rst_request_digest m)),
      (''message_id'', Some (JStr (rst_message_id m))),
      (''content'', Some (JStr (rst_content m)))])"

definition dec_run_steer :: "json \<Rightarrow> run_steer result" where
  "dec_run_steer j =
     bind_r (strict_fields [''kind'', ''run_id'', ''session_id'', ''command_id'', ''request_digest'',
        ''message_id'', ''content''] j) (\<lambda>kvs.
     bind_r (required (as_literal [''run.steer'']) ''kind'' kvs) (\<lambda>_.
     bind_r (required as_nonempty ''run_id'' kvs) (\<lambda>v_run.
     bind_r (required as_nonempty ''session_id'' kvs) (\<lambda>v_session.
     bind_r (required as_nonempty ''command_id'' kvs) (\<lambda>v_command.
     bind_r (optional as_nonempty ''request_digest'' kvs) (\<lambda>v_digest.
     bind_r (required as_nonempty ''message_id'' kvs) (\<lambda>v_message.
     bind_r (required as_nonempty ''content'' kvs) (\<lambda>v_content.
     Inr \<lparr>rst_run_id = v_run, rst_session_id = v_session, rst_command_id = v_command,
          rst_request_digest = v_digest, rst_message_id = v_message, rst_content = v_content\<rparr>))))))))"

text \<open>\<open>inbound_adapter\<close>.\<close>

fun enc_inbound :: "bool \<Rightarrow> inbound_message \<Rightarrow> json" where
  "enc_inbound excl (InRequest q) = enc_run_request excl q"
| "enc_inbound excl (InResume m) = enc_run_resume excl m"
| "enc_inbound excl (InCancel m) = enc_run_cancel excl m"
| "enc_inbound excl (InSteer m) = enc_run_steer excl m"

definition dec_inbound :: "json \<Rightarrow> inbound_message result" where
  "dec_inbound j = bind_r (discriminator ''kind'' j) (\<lambda>k.
     if k = ''run.request'' then bind_r (dec_run_request j) (\<lambda>q. Inr (InRequest q))
     else if k = ''run.resume'' then bind_r (dec_run_resume j) (\<lambda>m. Inr (InResume m))
     else if k = ''run.cancel'' then bind_r (dec_run_cancel j) (\<lambda>m. Inr (InCancel m))
     else if k = ''run.steer'' then bind_r (dec_run_steer j) (\<lambda>m. Inr (InSteer m))
     else invalid)"

section \<open>Digests and scopes\<close>

text \<open>\<open>sort_keys=True\<close>.\<close>

function sort_json :: "json \<Rightarrow> json" where
  "sort_json j = (case j of
      JList xs \<Rightarrow> JList (map sort_json xs)
    | JObj kvs \<Rightarrow> JObj (sort_key fst (map (\<lambda>(k, v). (k, sort_json v)) kvs))
    | _ \<Rightarrow> j)"
  by pat_completeness auto
termination
  by (relation "measure size") (auto simp: less_Suc_eq_le size_list_estimation' dest: size_in_items)

declare sort_json.simps [simp del]

text \<open>The part of a resume command its digest covers: no command id, no digest.\<close>

definition digest_value :: "run_resume \<Rightarrow> json" where
  "digest_value m = JObj (items
     [(''kind'', Some (JStr ''run.resume'')),
      (''run_id'', Some (JStr (rs_run_id m))),
      (''session_id'', Some (JStr (rs_session_id m))),
      (''expected_pause_revision'', Some (JInt (rs_expected_pause_revision m))),
      (''pause_ref'', Some (JStr (rs_pause_ref m))),
      (''decisions'', Some (enc_list (enc_resume_decision True) (rs_decisions m)))])"

definition digest_text :: "run_resume \<Rightarrow> string" where
  "digest_text m = dumps_compact False (sort_json (digest_value m))"

definition control_request_digest :: "(string \<Rightarrow> string) \<Rightarrow> run_resume \<Rightarrow> string" where
  "control_request_digest sha256_hex m = ''sha256:'' @ sha256_hex (digest_text m)"

text \<open>\<open>domain/run/scope.py\<close>.\<close>

definition namespace_text :: "execution_identity \<Rightarrow> string" where
  "namespace_text i = dumps_compact True (sort_json (JObj
     [(''tenant_ref'', JStr (ei_tenant_ref i)), (''subject'', enc_identity_ref (ei_subject i))]))"

definition runtime_namespace :: "(string \<Rightarrow> string) \<Rightarrow> execution_identity \<Rightarrow> string" where
  "runtime_namespace sha256_hex i = ''ga:'' @ take 40 (sha256_hex (namespace_text i))"

record run_scope =
  sc_namespace :: string
  sc_session_id :: string

definition scope_of :: "(string \<Rightarrow> string) \<Rightarrow> run_request \<Rightarrow> run_scope" where
  "scope_of sha256_hex q =
     \<lparr>sc_namespace = runtime_namespace sha256_hex (rq_identity q), sc_session_id = rq_session_id q\<rparr>"

definition scoped_thread_id :: "run_scope \<Rightarrow> string" where
  "scoped_thread_id s = sc_namespace s @ '':'' @ sc_session_id s"

section \<open>Valid messages\<close>

definition identity_ref_ok :: "identity_ref \<Rightarrow> bool" where
  "identity_ref_ok r \<longleftrightarrow> ir_kind r \<in> set identity_kinds \<and> ir_opaque_ref r \<noteq> []"

definition execution_identity_ok :: "execution_identity \<Rightarrow> bool" where
  "execution_identity_ok i \<longleftrightarrow> ei_tenant_ref i \<noteq> [] \<and> identity_ref_ok (ei_actor i)
     \<and> identity_ref_ok (ei_subject i) \<and> ei_assertion_ref i \<noteq> []"

definition run_input_ok :: "run_input \<Rightarrow> bool" where
  "run_input_ok i \<longleftrightarrow> inp_message_id i \<noteq> [] \<and> inp_content i \<noteq> []"

definition run_request_ok :: "run_request \<Rightarrow> bool" where
  "run_request_ok q \<longleftrightarrow> rq_request_id q \<noteq> Some [] \<and> rq_run_id q \<noteq> [] \<and> rq_session_id q \<noteq> []
     \<and> rq_feature_key q \<noteq> [] \<and> (\<forall>r. rq_project_ref q = Some r \<longrightarrow> project_ref_ok r)
     \<and> skill_refs_check (rq_skill_refs q) = None \<and> execution_identity_ok (rq_identity q)
     \<and> run_input_ok (rq_input q) \<and> rq_model_label q \<noteq> Some []"

fun resume_decision_ok :: "resume_decision \<Rightarrow> bool" where
  "resume_decision_ok (RespondD i response) \<longleftrightarrow> i \<noteq> [] \<and> response \<noteq> []"
| "resume_decision_ok d \<longleftrightarrow> decision_item d \<noteq> []"

definition run_resume_ok :: "run_resume \<Rightarrow> bool" where
  "run_resume_ok m \<longleftrightarrow> rs_run_id m \<noteq> [] \<and> rs_session_id m \<noteq> [] \<and> rs_command_id m \<noteq> []
     \<and> rs_request_digest m \<noteq> Some [] \<and> 1 \<le> rs_expected_pause_revision m \<and> rs_pause_ref m \<noteq> []
     \<and> rs_decisions m \<noteq> [] \<and> list_all resume_decision_ok (rs_decisions m)
     \<and> distinct (map decision_item (rs_decisions m))"

definition run_cancel_ok :: "run_cancel \<Rightarrow> bool" where
  "run_cancel_ok m \<longleftrightarrow> rcn_run_id m \<noteq> [] \<and> rcn_session_id m \<noteq> [] \<and> rcn_command_id m \<noteq> []
     \<and> rcn_request_digest m \<noteq> Some []"

definition run_steer_ok :: "run_steer \<Rightarrow> bool" where
  "run_steer_ok m \<longleftrightarrow> rst_run_id m \<noteq> [] \<and> rst_session_id m \<noteq> [] \<and> rst_command_id m \<noteq> []
     \<and> rst_request_digest m \<noteq> Some [] \<and> rst_message_id m \<noteq> [] \<and> rst_content m \<noteq> []"

fun inbound_ok :: "inbound_message \<Rightarrow> bool" where
  "inbound_ok (InRequest q) \<longleftrightarrow> run_request_ok q"
| "inbound_ok (InResume m) \<longleftrightarrow> run_resume_ok m"
| "inbound_ok (InCancel m) \<longleftrightarrow> run_cancel_ok m"
| "inbound_ok (InSteer m) \<longleftrightarrow> run_steer_ok m"

fun is_request :: "inbound_message \<Rightarrow> bool" where
  "is_request (InRequest _) \<longleftrightarrow> True"
| "is_request _ \<longleftrightarrow> False"

section \<open>Round trips\<close>

lemma opt_field_simps [simp]:
  "opt_field excl e (Some x) = Some (e x)"
  "opt_field True e None = None"
  "opt_field False e None = Some JNull"
  by (simp_all add: opt_field_def)

lemma optional_opt_field:
  assumes "distinct (map fst fs)" and "map_of fs k = Some (opt_field excl e v)"
    and "\<And>x. v = Some x \<Longrightarrow> e x \<noteq> JNull \<and> f (e x) = Inr x"
  shows "optional f k (items fs) = Inr v"
  using assms by (cases v; cases excl) (auto simp: optional_items)

lemma nullable_opt_field:
  assumes "distinct (map fst fs)" and "map_of fs k = Some (opt_field False e v)"
    and "\<And>x. v = Some x \<Longrightarrow> e x \<noteq> JNull \<and> f (e x) = Inr x"
  shows "nullable f k (items fs) = Inr v"
  using assms by (cases v) (auto simp: nullable_def map_of_items optional_items)

lemma identity_ref_round_trip [simp]:
  "identity_ref_ok r \<Longrightarrow> dec_identity_ref (enc_identity_ref r) = Inr r"
  by (cases r) (simp add: enc_identity_ref_def dec_identity_ref_def identity_ref_ok_def
      strict_fields_def required_def as_literal_def as_nonempty_def)

lemma execution_identity_round_trip [simp]:
  "execution_identity_ok i \<Longrightarrow> dec_execution_identity (enc_execution_identity i) = Inr i"
  by (cases i) (simp add: enc_execution_identity_def dec_execution_identity_def execution_identity_ok_def
      strict_fields_def required_def as_nonempty_def)

lemma run_input_round_trip [simp]:
  "run_input_ok i \<Longrightarrow> dec_run_input (enc_run_input i) = Inr i"
  by (cases i) (simp add: enc_run_input_def dec_run_input_def run_input_ok_def
      strict_fields_def required_def as_nonempty_def)

lemma skill_refs_round_trip [simp]:
  "skill_refs_check refs = None \<Longrightarrow> as_skill_refs (enc_list JStr refs) = Inr refs"
  by (simp add: as_skill_refs_def as_list_round_trip)

lemma as_nonempty_str [simp]: "s \<noteq> [] \<Longrightarrow> as_nonempty (JStr s) = Inr s"
  by (simp add: as_nonempty_def)

lemma as_project_ref_str [simp]: "project_ref_ok r \<Longrightarrow> as_project_ref (JStr r) = Inr r"
  by (simp add: as_project_ref_def project_ref_ok_def)

lemma run_request_round_trip:
  assumes "run_request_ok q"
  shows "dec_run_request (enc_run_request False q) = Inr q"
proof -
  define fs where "fs =
     [(''kind'', Some (JStr ''run.request'')),
      (''request_id'', opt_field False JStr (rq_request_id q)),
      (''run_id'', Some (JStr (rq_run_id q))),
      (''session_id'', Some (JStr (rq_session_id q))),
      (''feature_key'', Some (JStr (rq_feature_key q))),
      (''project_ref'', opt_field False JStr (rq_project_ref q)),
      (''selected_skill_source_refs'', Some (enc_list JStr (rq_skill_refs q))),
      (''execution_identity'', Some (enc_execution_identity (rq_identity q))),
      (''input'', Some (enc_run_input (rq_input q))),
      (''requested_model_label'', opt_field False JStr (rq_model_label q)),
      (''trace'', opt_field False JObj (rq_trace q))]"
  have d: "distinct (map fst fs)" by (simp add: fs_def)
  have o1: "optional as_nonempty ''request_id'' (items fs) = Inr (rq_request_id q)"
    by (rule optional_opt_field [OF d, where e = JStr and excl = False])
      (use assms in \<open>auto simp: fs_def run_request_ok_def\<close>)
  have o2: "nullable as_project_ref ''project_ref'' (items fs) = Inr (rq_project_ref q)"
    by (rule nullable_opt_field [OF d, where e = JStr])
      (use assms in \<open>auto simp: fs_def run_request_ok_def\<close>)
  have o3: "optional as_nonempty ''requested_model_label'' (items fs) = Inr (rq_model_label q)"
    by (rule optional_opt_field [OF d, where e = JStr and excl = False])
      (use assms in \<open>auto simp: fs_def run_request_ok_def\<close>)
  have o4: "optional as_dict ''trace'' (items fs) = Inr (rq_trace q)"
    by (rule optional_opt_field [OF d, where e = JObj and excl = False]) (auto simp: fs_def)
  have r: "required f k (items fs) = (case map_of fs k of Some (Some v) \<Rightarrow> f v | _ \<Rightarrow> invalid)"
    for f :: "json \<Rightarrow> 'b result" and k
    by (rule required_items [OF d])
  have m: "map_of fs ''kind'' = Some (Some (JStr ''run.request''))"
    "map_of fs ''run_id'' = Some (Some (JStr (rq_run_id q)))"
    "map_of fs ''session_id'' = Some (Some (JStr (rq_session_id q)))"
    "map_of fs ''feature_key'' = Some (Some (JStr (rq_feature_key q)))"
    "map_of fs ''selected_skill_source_refs'' = Some (Some (enc_list JStr (rq_skill_refs q)))"
    "map_of fs ''execution_identity'' = Some (Some (enc_execution_identity (rq_identity q)))"
    "map_of fs ''input'' = Some (Some (enc_run_input (rq_input q)))"
    by (simp_all add: fs_def)
  have s: "strict_fields [''kind'', ''request_id'', ''run_id'', ''session_id'', ''feature_key'',
        ''project_ref'', ''selected_skill_source_refs'', ''execution_identity'', ''input'',
        ''requested_model_label'', ''trace''] (JObj (items fs)) = Inr (items fs)"
    by (rule strict_items) (simp add: fs_def)
  have e: "enc_run_request False q = JObj (items fs)"
    by (simp add: enc_run_request_def fs_def)
  from assms show ?thesis
    by (simp add: e dec_run_request_def s r m o1 o2 o3 o4 as_literal_def run_request_ok_def)
qed

lemma resume_decision_round_trip [simp]:
  "resume_decision_ok d \<Longrightarrow> dec_resume_decision (enc_resume_decision excl d) = Inr d"
proof (cases d)
  case (ApproveD i a)
  then show "resume_decision_ok d \<Longrightarrow> ?thesis"
    by (cases a; cases excl) (simp_all add: dec_resume_decision_def discriminator_def items.simps
        strict_fields_def required_def optional_def)
next
  case (RejectD i r)
  then show "resume_decision_ok d \<Longrightarrow> ?thesis"
    by (cases r; cases excl) (simp_all add: dec_resume_decision_def discriminator_def items.simps
        strict_fields_def required_def optional_def)
qed (simp_all add: dec_resume_decision_def discriminator_def items.simps strict_fields_def required_def)

lemma decisions_round_trip:
  assumes "ds \<noteq> []" and "list_all resume_decision_ok ds" and "distinct (map decision_item ds)"
  shows "as_decisions (enc_list (enc_resume_decision excl) ds) = Inr ds"
proof -
  have "list_all (\<lambda>d. dec_resume_decision (enc_resume_decision excl d) = Inr d) ds"
    using assms(2) by (auto simp: list_all_iff)
  then show ?thesis using assms by (simp add: as_decisions_def as_list_round_trip)
qed

lemma run_resume_round_trip:
  assumes "run_resume_ok m"
  shows "dec_run_resume (enc_run_resume excl m) = Inr m"
proof -
  have "as_decisions (enc_list (enc_resume_decision excl) (rs_decisions m)) = Inr (rs_decisions m)"
    using assms by (simp add: run_resume_ok_def decisions_round_trip)
  with assms show ?thesis
    by (cases "rs_request_digest m"; cases excl)
      (simp_all add: enc_run_resume_def dec_run_resume_def run_resume_ok_def items.simps
        strict_fields_def required_def optional_def as_literal_def as_int_from_def)
qed

lemma run_cancel_round_trip: "run_cancel_ok m \<Longrightarrow> dec_run_cancel (enc_run_cancel excl m) = Inr m"
  by (cases "rcn_request_digest m"; cases excl)
    (simp_all add: enc_run_cancel_def dec_run_cancel_def run_cancel_ok_def items.simps
      strict_fields_def required_def optional_def as_literal_def)

lemma run_steer_round_trip: "run_steer_ok m \<Longrightarrow> dec_run_steer (enc_run_steer excl m) = Inr m"
  by (cases "rst_request_digest m"; cases excl)
    (simp_all add: enc_run_steer_def dec_run_steer_def run_steer_ok_def items.simps
      strict_fields_def required_def optional_def as_literal_def)

lemma discriminator_items:
  "discriminator k (JObj (items ((k, Some (JStr v)) # fs))) = Inr v"
  by (simp add: discriminator_def required_def items.simps)

lemma inbound_discriminator:
  "discriminator ''kind'' (enc_run_request excl q) = Inr ''run.request''"
  "discriminator ''kind'' (enc_run_resume excl m) = Inr ''run.resume''"
  "discriminator ''kind'' (enc_run_cancel excl c) = Inr ''run.cancel''"
  "discriminator ''kind'' (enc_run_steer excl t) = Inr ''run.steer''"
  by (simp_all only: enc_run_request_def enc_run_resume_def enc_run_cancel_def enc_run_steer_def
      discriminator_items)

text \<open>C10: Every valid inbound frame survives the stream: the strict adapter decodes the full dump of
  a launch request, resume, cancel or steer command to that message, and the dump without nulls
  (the form control commands are published in) of every control command as well.\<close>

theorem inbound_round_trip:
  assumes "inbound_ok m"
  shows "dec_inbound (enc_inbound False m) = Inr m
    \<and> (\<not> is_request m \<longrightarrow> dec_inbound (enc_inbound True m) = Inr m)"
  using assms
  by (cases m) (simp_all add: dec_inbound_def inbound_discriminator run_request_round_trip
      run_resume_round_trip run_cancel_round_trip run_steer_round_trip)

definition demo_resume :: run_resume where
  "demo_resume = \<lparr>rs_run_id = ''r1'', rs_session_id = ''s1'', rs_command_id = ''c1'',
     rs_request_digest = None, rs_expected_pause_revision = 1, rs_pause_ref = ''p1'',
     rs_decisions = [ApproveD ''i1'' None, EditD ''i2'' [(''x'', JInt 1)]]\<rparr>"

theorem inbound_round_trip_witness:
  "inbound_ok (InResume demo_resume)
   \<and> dec_inbound (enc_inbound True (InResume demo_resume)) = Inr (InResume demo_resume)"
proof -
  have ok: "inbound_ok (InResume demo_resume)"
    by (simp add: demo_resume_def run_resume_ok_def)
  from ok inbound_round_trip [OF ok] show ?thesis by simp
qed

section \<open>What digests and namespaces separate\<close>

lemma printable_sort_json: "printable v \<Longrightarrow> printable (sort_json v)"
proof (induction v)
  case (JList xs)
  then show ?case by (subst sort_json.simps) (simp add: list_all_iff)
next
  case (JObj kvs)
  then show ?case by (subst sort_json.simps) (fastforce simp: list_all_iff)
qed (simp_all add: sort_json.simps)

lemma sort_json_text_inject:
  assumes "printable v" and "printable w"
    and "dumps_compact a (sort_json v) = dumps_compact a (sort_json w)"
  shows "sort_json v = sort_json w"
  using assms dumps_compact_inject printable_sort_json by blast

definition sorted_items :: "(string \<times> json) list \<Rightarrow> (string \<times> json) list" where
  "sorted_items kvs = map (\<lambda>(k, v). (k, sort_json v)) kvs"

lemma sort_json_obj: "sort_json (JObj kvs) = JObj (sort_key fst (sorted_items kvs))"
  by (subst sort_json.simps) (simp add: sorted_items_def)

lemma map_of_sorted_items: "map_of (sorted_items kvs) k = map_option sort_json (map_of kvs k)"
  by (induction kvs) (auto simp: sorted_items_def)

lemma keys_sorted_items: "map fst (sorted_items kvs) = map fst kvs"
  by (simp add: sorted_items_def case_prod_unfold)

text \<open>Two objects are printed alike exactly when they agree at every key.\<close>

lemma sort_json_obj_iff:
  assumes "distinct (map fst kvs)" and "distinct (map fst lvs)"
  shows "sort_json (JObj kvs) = sort_json (JObj lvs)
    \<longleftrightarrow> (\<forall>k. map_option sort_json (map_of kvs k) = map_option sort_json (map_of lvs k))"
proof -
  have d: "distinct (map fst (sorted_items kvs))" "distinct (map fst (sorted_items lvs))"
    using assms by (simp_all add: keys_sorted_items)
  have "sort_key fst (sorted_items kvs) = sort_key fst (sorted_items lvs)
      \<longleftrightarrow> set (sorted_items kvs) = set (sorted_items lvs)"
  proof
    assume "sort_key fst (sorted_items kvs) = sort_key fst (sorted_items lvs)"
    then show "set (sorted_items kvs) = set (sorted_items lvs)" by (metis set_sort)
  next
    assume "set (sorted_items kvs) = set (sorted_items lvs)"
    then have "mset (sorted_items kvs) = mset (sort_key fst (sorted_items lvs))"
      using d by (simp add: set_eq_iff_mset_eq_distinct distinct_map)
    then show "sort_key fst (sorted_items kvs) = sort_key fst (sorted_items lvs)"
      using d by (intro sort_key_inj_key_eq) (simp_all add: distinct_map)
  qed
  also have "\<dots> \<longleftrightarrow> map_of (sorted_items kvs) = map_of (sorted_items lvs)"
    by (rule map_of_inject_set [OF d, symmetric])
  also have "\<dots> \<longleftrightarrow> (\<forall>k. map_option sort_json (map_of kvs k) = map_option sort_json (map_of lvs k))"
    by (simp add: fun_eq_iff map_of_sorted_items)
  finally show ?thesis by (simp add: sort_json_obj)
qed

lemma sort_json_simps [simp]:
  "sort_json JNull = JNull"
  "sort_json (JBool b) = JBool b"
  "sort_json (JInt i) = JInt i"
  "sort_json (JFloat t) = JFloat t"
  "sort_json (JStr s) = JStr s"
  "sort_json (JList xs) = JList (map sort_json xs)"
  by (simp_all add: sort_json.simps)

text \<open>
  Two decisions are the same answer when they decide the same item the same way, with
  argument dictionaries that differ at most in the order of keys.
\<close>

definition same_dict :: "(string \<times> json) list \<Rightarrow> (string \<times> json) list \<Rightarrow> bool" where
  "same_dict a b \<longleftrightarrow> sort_json (JObj a) = sort_json (JObj b)"

fun same_answer :: "resume_decision \<Rightarrow> resume_decision \<Rightarrow> bool" where
  "same_answer (ApproveD i a) (ApproveD j b) \<longleftrightarrow> i = j \<and> rel_option same_dict a b"
| "same_answer (EditD i a) (EditD j b) \<longleftrightarrow> i = j \<and> same_dict a b"
| "same_answer (RejectD i r) (RejectD j q) \<longleftrightarrow> i = j \<and> r = q"
| "same_answer (RespondD i r) (RespondD j q) \<longleftrightarrow> i = j \<and> r = q"
| "same_answer (SubmitD i a) (SubmitD j b) \<longleftrightarrow> i = j \<and> same_dict a b"
| "same_answer _ _ \<longleftrightarrow> False"

definition same_request :: "run_resume \<Rightarrow> run_resume \<Rightarrow> bool" where
  "same_request m n \<longleftrightarrow> rs_run_id m = rs_run_id n \<and> rs_session_id m = rs_session_id n
     \<and> rs_expected_pause_revision m = rs_expected_pause_revision n \<and> rs_pause_ref m = rs_pause_ref n
     \<and> list_all2 same_answer (rs_decisions m) (rs_decisions n)"

lemma enc_decision_items:
  "enc_resume_decision True (ApproveD i a) = JObj ([(''type'', JStr ''approve''), (''item_id'', JStr i)]
     @ (case a of None \<Rightarrow> [] | Some v \<Rightarrow> [(''args'', JObj v)]))"
  "enc_resume_decision True (EditD i b) = JObj [(''type'', JStr ''edit''), (''item_id'', JStr i), (''args'', JObj b)]"
  "enc_resume_decision True (RejectD i r) = JObj ([(''type'', JStr ''reject''), (''item_id'', JStr i)]
     @ (case r of None \<Rightarrow> [] | Some v \<Rightarrow> [(''reason'', JStr v)]))"
  "enc_resume_decision True (RespondD i s) = JObj [(''type'', JStr ''respond''), (''item_id'', JStr i), (''response'', JStr s)]"
  "enc_resume_decision True (SubmitD i b) = JObj [(''type'', JStr ''submit''), (''item_id'', JStr i), (''value'', JObj b)]"
  by (simp_all add: items.simps split: option.split)

definition answer_items :: "resume_decision \<Rightarrow> (string \<times> json) list" where
  "answer_items d = (case enc_resume_decision True d of JObj kvs \<Rightarrow> kvs | _ \<Rightarrow> [])"

lemma answer_items_simps:
  "answer_items (ApproveD i a) = [(''type'', JStr ''approve''), (''item_id'', JStr i)]
     @ (case a of None \<Rightarrow> [] | Some v \<Rightarrow> [(''args'', JObj v)])"
  "answer_items (EditD i b) = [(''type'', JStr ''edit''), (''item_id'', JStr i), (''args'', JObj b)]"
  "answer_items (RejectD i r) = [(''type'', JStr ''reject''), (''item_id'', JStr i)]
     @ (case r of None \<Rightarrow> [] | Some v \<Rightarrow> [(''reason'', JStr v)])"
  "answer_items (RespondD i s) = [(''type'', JStr ''respond''), (''item_id'', JStr i), (''response'', JStr s)]"
  "answer_items (SubmitD i b) = [(''type'', JStr ''submit''), (''item_id'', JStr i), (''value'', JObj b)]"
  by (simp_all only: answer_items_def enc_decision_items json.case)

lemma answer_items:
  "enc_resume_decision True d = JObj (answer_items d)" "distinct (map fst (answer_items d))"
  by (cases d; simp add: answer_items_simps enc_decision_items del: enc_resume_decision.simps split: option.split)+

fun decision_type :: "resume_decision \<Rightarrow> string" where
  "decision_type (ApproveD _ _) = ''approve''"
| "decision_type (EditD _ _) = ''edit''"
| "decision_type (RejectD _ _) = ''reject''"
| "decision_type (RespondD _ _) = ''respond''"
| "decision_type (SubmitD _ _) = ''submit''"

lemma answer_fields:
  "map_of (answer_items d) ''type'' = Some (JStr (decision_type d))"
  "map_of (answer_items d) ''item_id'' = Some (JStr (decision_item d))"
  "map_of (answer_items (ApproveD i a)) ''args'' = map_option JObj a"
  "map_of (answer_items (EditD i b)) ''args'' = Some (JObj b)"
  "map_of (answer_items (RejectD i r)) ''reason'' = map_option JStr r"
  "map_of (answer_items (RespondD i s)) ''response'' = Some (JStr s)"
  "map_of (answer_items (SubmitD i b)) ''value'' = Some (JObj b)"
proof -
  show "map_of (answer_items d) ''type'' = Some (JStr (decision_type d))"
    by (cases d) (simp_all add: answer_items_simps)
  show "map_of (answer_items d) ''item_id'' = Some (JStr (decision_item d))"
    by (cases d) (simp_all add: answer_items_simps)
qed (simp_all add: answer_items_simps split: option.split)

lemma sort_json_same_items:
  "sorted_items kvs = sorted_items lvs \<Longrightarrow> sort_json (JObj kvs) = sort_json (JObj lvs)"
  by (simp add: sort_json_obj)

lemma sort_json_same_key:
  assumes "sort_json (JObj kvs) = sort_json (JObj lvs)" and "distinct (map fst kvs)" and "distinct (map fst lvs)"
  shows "map_option sort_json (map_of kvs k) = map_option sort_json (map_of lvs k)"
  using assms by (simp add: sort_json_obj_iff)

lemma same_answer_types: "decision_type d = decision_type e \<Longrightarrow> decision_item d = decision_item e \<Longrightarrow>
    (\<And>k. map_option sort_json (map_of (answer_items d) k) = map_option sort_json (map_of (answer_items e) k))
    \<Longrightarrow> same_answer d e"
proof -
  assume t: "decision_type d = decision_type e" "decision_item d = decision_item e"
    and k: "\<And>k. map_option sort_json (map_of (answer_items d) k) = map_option sort_json (map_of (answer_items e) k)"
  show "same_answer d e"
  proof (cases d)
    case (ApproveD i a)
    with t obtain b where e: "e = ApproveD i b" by (cases e) auto
    with k [of "''args''"] ApproveD show ?thesis
      by (cases a; cases b) (simp_all add: answer_fields same_dict_def)
  next
    case (EditD i a)
    with t obtain b where e: "e = EditD i b" by (cases e) auto
    with k [of "''args''"] EditD show ?thesis by (simp add: answer_fields same_dict_def)
  next
    case (RejectD i a)
    with t obtain b where e: "e = RejectD i b" by (cases e) auto
    with k [of "''reason''"] RejectD show ?thesis by (cases a; cases b) (simp_all add: answer_fields)
  next
    case (RespondD i a)
    with t obtain b where e: "e = RespondD i b" by (cases e) auto
    with k [of "''response''"] RespondD show ?thesis by (simp add: answer_fields)
  next
    case (SubmitD i a)
    with t obtain b where e: "e = SubmitD i b" by (cases e) auto
    with k [of "''value''"] SubmitD show ?thesis by (simp add: answer_fields same_dict_def)
  qed
qed

lemma same_answer_items: "same_answer d e \<Longrightarrow> sorted_items (answer_items d) = sorted_items (answer_items e)"
proof (induction d e rule: same_answer.induct)
  case (1 i a j b)
  then show ?case by (cases a; cases b) (simp_all add: answer_items_simps sorted_items_def same_dict_def)
next
  case (3 i r j q)
  then show ?case by simp
qed (simp_all add: answer_items_simps sorted_items_def same_dict_def)

lemma same_answer_iff:
  "sort_json (enc_resume_decision True d) = sort_json (enc_resume_decision True e) \<longleftrightarrow> same_answer d e"
proof
  assume "sort_json (enc_resume_decision True d) = sort_json (enc_resume_decision True e)"
  then have eq: "map_option sort_json (map_of (answer_items d) k) = map_option sort_json (map_of (answer_items e) k)" for k
    using sort_json_same_key [of "answer_items d" "answer_items e" k] by (simp only: answer_items)
  show "same_answer d e"
    using eq [of "''type''"] eq [of "''item_id''"] eq by (intro same_answer_types) (simp_all add: answer_fields)
next
  assume "same_answer d e"
  then show "sort_json (enc_resume_decision True d) = sort_json (enc_resume_decision True e)"
    unfolding answer_items by (intro sort_json_same_items same_answer_items)
qed

definition digest_items :: "run_resume \<Rightarrow> (string \<times> json) list" where
  "digest_items m =
     [(''kind'', JStr ''run.resume''), (''run_id'', JStr (rs_run_id m)), (''session_id'', JStr (rs_session_id m)),
      (''expected_pause_revision'', JInt (rs_expected_pause_revision m)), (''pause_ref'', JStr (rs_pause_ref m)),
      (''decisions'', enc_list (enc_resume_decision True) (rs_decisions m))]"

lemma digest_value_obj: "digest_value m = JObj (digest_items m)"
  by (simp add: digest_value_def digest_items_def items.simps)

lemma digest_fields:
  "distinct (map fst (digest_items m))"
  "map_of (digest_items m) ''run_id'' = Some (JStr (rs_run_id m))"
  "map_of (digest_items m) ''session_id'' = Some (JStr (rs_session_id m))"
  "map_of (digest_items m) ''expected_pause_revision'' = Some (JInt (rs_expected_pause_revision m))"
  "map_of (digest_items m) ''pause_ref'' = Some (JStr (rs_pause_ref m))"
  "map_of (digest_items m) ''decisions'' = Some (enc_list (enc_resume_decision True) (rs_decisions m))"
  by (simp_all add: digest_items_def)

lemma same_decisions:
  "map (\<lambda>d. sort_json (enc_resume_decision True d)) ds = map (\<lambda>d. sort_json (enc_resume_decision True d)) es
   \<longleftrightarrow> list_all2 same_answer ds es"
  unfolding same_answer_iff [symmetric] by (rule list_all2_map_eq [symmetric])

lemma digest_value_same:
  "sort_json (digest_value m) = sort_json (digest_value n) \<longleftrightarrow> same_request m n"
proof
  assume "sort_json (digest_value m) = sort_json (digest_value n)"
  then have eq: "map_option sort_json (map_of (digest_items m) k) = map_option sort_json (map_of (digest_items n) k)" for k
    using sort_json_same_key [of "digest_items m" "digest_items n" k] by (simp add: digest_value_obj digest_fields)
  show "same_request m n"
    using eq [of "''run_id''"] eq [of "''session_id''"] eq [of "''expected_pause_revision''"]
      eq [of "''pause_ref''"] eq [of "''decisions''"] same_decisions [of "rs_decisions m" "rs_decisions n"]
    by (simp add: digest_fields same_request_def enc_list_def comp_def)
next
  assume "same_request m n"
  then have "sorted_items (digest_items m) = sorted_items (digest_items n)"
    using same_decisions [of "rs_decisions m" "rs_decisions n"]
    by (simp add: digest_items_def sorted_items_def same_request_def enc_list_def comp_def)
  then show "sort_json (digest_value m) = sort_json (digest_value n)"
    unfolding digest_value_obj by (rule sort_json_same_items)
qed

text \<open>C11: The digest of a resume command identifies the request it makes: provided the hash does not
  collide on the two texts, two commands have the same digest exactly when they answer the same
  pause of the same run with the same decisions, whatever their command ids, carried digests and
  the key order of argument dictionaries.\<close>

theorem resume_digest_separates:
  assumes "printable (digest_value m)" and "printable (digest_value n)"
    and "h (digest_text m) = h (digest_text n) \<Longrightarrow> digest_text m = digest_text n"
  shows "control_request_digest h m = control_request_digest h n \<longleftrightarrow> same_request m n"
proof
  assume "control_request_digest h m = control_request_digest h n"
  with assms(3) have "digest_text m = digest_text n" by (simp add: control_request_digest_def)
  with assms(1,2) have "sort_json (digest_value m) = sort_json (digest_value n)"
    unfolding digest_text_def by (rule sort_json_text_inject)
  then show "same_request m n" by (simp add: digest_value_same)
next
  assume "same_request m n"
  then have "sort_json (digest_value m) = sort_json (digest_value n)" by (simp add: digest_value_same)
  then show "control_request_digest h m = control_request_digest h n"
    by (simp add: control_request_digest_def digest_text_def)
qed

theorem resume_digest_separates_witness:
  "control_request_digest (\<lambda>t. t) demo_resume
     = control_request_digest (\<lambda>t. t) (demo_resume\<lparr>rs_command_id := ''c2''\<rparr>)"
proof -
  have p: "printable (digest_value m)" if "m = demo_resume \<or> m = demo_resume\<lparr>rs_command_id := ''c2''\<rparr>" for m
    using that by (elim disjE) (simp_all add: digest_value_obj digest_items_def demo_resume_def enc_list_def
        enc_decision_items del: enc_resume_decision.simps)
  have "list_all2 same_answer (rs_decisions demo_resume) (rs_decisions demo_resume)"
    by (simp add: demo_resume_def same_dict_def)
  then have "same_request demo_resume (demo_resume\<lparr>rs_command_id := ''c2''\<rparr>)"
    by (simp add: same_request_def)
  then show ?thesis
    using resume_digest_separates [of demo_resume "demo_resume\<lparr>rs_command_id := ''c2''\<rparr>" "\<lambda>t. t"] p by simp
qed

text \<open>C12: The private namespace of a run is decided by the tenant and the resource owner alone: acting
  principal and assertion can rotate without moving memory or workspace, and (provided the hash
  does not collide on the first 40 digits) two identities share a namespace only when tenant and
  subject are the same.\<close>

theorem namespace_separates:
  assumes "take 40 (h (namespace_text i)) = take 40 (h (namespace_text j)) \<Longrightarrow> namespace_text i = namespace_text j"
  shows "runtime_namespace h i = runtime_namespace h j
    \<longleftrightarrow> ei_tenant_ref i = ei_tenant_ref j \<and> ei_subject i = ei_subject j"
proof -
  define v where "v = (\<lambda>i :: execution_identity. JObj [(''tenant_ref'', JStr (ei_tenant_ref i)), (''subject'', enc_identity_ref (ei_subject i))])"
  have text_v: "namespace_text i = dumps_compact True (sort_json (v i))" for i
    by (simp add: namespace_text_def v_def)
  have same: "sort_json (v i) = sort_json (v j) \<longleftrightarrow> ei_tenant_ref i = ei_tenant_ref j \<and> ei_subject i = ei_subject j"
  proof
    assume eq: "sort_json (v i) = sort_json (v j)"
    from eq have "ei_tenant_ref i = ei_tenant_ref j"
      unfolding v_def using sort_json_same_key [of _ _ "''tenant_ref''"] by fastforce
    moreover from eq have s: "sort_json (enc_identity_ref (ei_subject i)) = sort_json (enc_identity_ref (ei_subject j))"
      unfolding v_def using sort_json_same_key [of _ _ "''subject''"] by fastforce
    then have "ir_kind (ei_subject i) = ir_kind (ei_subject j)"
      unfolding enc_identity_ref_def using sort_json_same_key [of _ _ "''kind''"] by fastforce
    moreover have "ir_opaque_ref (ei_subject i) = ir_opaque_ref (ei_subject j)"
      using s unfolding enc_identity_ref_def using sort_json_same_key [of _ _ "''opaque_ref''"] by fastforce
    ultimately show "ei_tenant_ref i = ei_tenant_ref j \<and> ei_subject i = ei_subject j" by simp
  qed (simp add: v_def)
  have "runtime_namespace h i = runtime_namespace h j \<longleftrightarrow> namespace_text i = namespace_text j"
    using assms by (auto simp: runtime_namespace_def)
  also have "\<dots> \<longleftrightarrow> sort_json (v i) = sort_json (v j)"
    using sort_json_text_inject [of "v i" "v j" True] by (auto simp: text_v v_def enc_identity_ref_def)
  finally show ?thesis using same by simp
qed

definition demo_identity :: execution_identity where
  "demo_identity = \<lparr>ei_tenant_ref = ''t1'', ei_actor = \<lparr>ir_kind = ''user'', ir_opaque_ref = ''u1''\<rparr>,
     ei_subject = \<lparr>ir_kind = ''user'', ir_opaque_ref = ''u1''\<rparr>, ei_assertion_ref = ''a1''\<rparr>"

definition demo_hash :: "string \<Rightarrow> string" where
  "demo_hash t = (if t = namespace_text demo_identity then ''a'' else ''b'')"

theorem namespace_separates_witness:
  "runtime_namespace demo_hash demo_identity \<noteq> runtime_namespace demo_hash (demo_identity\<lparr>ei_tenant_ref := ''t2''\<rparr>)"
proof -
  let ?j = "demo_identity\<lparr>ei_tenant_ref := ''t2''\<rparr>"
  have "take 40 (demo_hash (namespace_text demo_identity)) = take 40 (demo_hash (namespace_text ?j))
      \<Longrightarrow> namespace_text demo_identity = namespace_text ?j"
    by (simp add: demo_hash_def split: if_splits)
  from namespace_separates [OF this] show ?thesis by (simp add: demo_identity_def)
qed

end
