(* ===== verification/Canonical.thy ===== *)
theory Canonical
  imports Control Json_Parse
begin

text \<open>
  Canonical JSON, as the interaction store and the model-call artifacts use it. Two printers occur:
  \<open>json.dumps(sort_keys=True)\<close>, which is \<open>sort_json\<close> followed by \<open>dumps_compact\<close>, and the third-party
  \<open>rfc8785.dumps\<close>, which is a parameter \<open>jcs\<close> of the definitions that call it. \<open>rfc8785_law\<close> is what
  RFC 8785 says of it on values without floats and with integers of at most 53 bits: sorted members, no
  white space, minimal escapes. The lemmas say how the strict decoders read what was so printed.
\<close>

section \<open>Sorted members\<close>

lemma distinct_sort_key: "distinct (map fst kvs) \<Longrightarrow> distinct (map fst (sort_key fst kvs))"
  by (simp add: distinct_map)

lemma map_of_sort_key: "distinct (map fst kvs) \<Longrightarrow> map_of (sort_key fst kvs) = map_of kvs"
  by (rule map_of_inject_set [THEN iffD2]) (simp_all add: distinct_sort_key)

lemma sort_json_idem [simp]: "sort_json (sort_json v) = sort_json v"
proof (induction v)
  case (JObj kvs)
  have "sorted_items (sort_key fst (sorted_items kvs)) = sort_key fst (sorted_items kvs)"
    unfolding sorted_items_def [of "sort_key fst _"]
    by (rule map_idI) (use JObj in \<open>auto simp: sorted_items_def\<close>)
  then show ?case
    by (simp add: sort_json_obj sort_key_id_if_sorted)
qed simp_all

lemma readable_sort_json: "readable v \<Longrightarrow> readable (sort_json v)"
proof (induction v)
  case (JObj kvs)
  then have "list_all (\<lambda>(k, v). readable v) (sorted_items kvs)"
    by (fastforce simp: sorted_items_def list_all_iff)
  with JObj show ?case
    using distinct_sort_key [of "sorted_items kvs"] by (simp add: sort_json_obj keys_sorted_items list_all_iff)
qed (simp_all add: list_all_iff)

lemma loads_sorted: "printable v \<Longrightarrow> readable v \<Longrightarrow> loads (dumps_compact a (sort_json v)) = Some (sort_json v)"
  by (simp add: loads_dumps printable_sort_json readable_sort_json)

lemma strict_sorted:
  assumes "set (map fst kvs) \<subseteq> set allowed"
  shows "strict_fields allowed (sort_json (JObj kvs)) = Inr (sort_key fst (sorted_items kvs))"
proof -
  have "list_all (\<lambda>(k, v). List.member allowed k) (sort_key fst (sorted_items kvs))"
    using assms by (force simp: list_all_iff sorted_items_def)
  then show ?thesis
    by (simp add: sort_json_obj strict_fields_def)
qed

lemma required_sorted:
  "distinct (map fst kvs) \<Longrightarrow> required f k (sort_key fst (sorted_items kvs))
    = (case map_of kvs k of None \<Rightarrow> invalid | Some v \<Rightarrow> f (sort_json v))"
  by (simp add: required_def map_of_sort_key keys_sorted_items map_of_sorted_items split: option.split)

lemma sort_json_null [simp]: "sort_json v = JNull \<longleftrightarrow> v = JNull"
  by (cases v) (simp_all add: sort_json_obj)

lemma nullable_sorted:
  "distinct (map fst kvs) \<Longrightarrow> nullable f k (sort_key fst (sorted_items kvs))
    = (case map_of kvs k of None \<Rightarrow> invalid
       | Some v \<Rightarrow> if v = JNull then Inr None else bind_r (f (sort_json v)) (\<lambda>x. Inr (Some x)))"
  by (simp add: nullable_def optional_def map_of_sort_key keys_sorted_items map_of_sorted_items split: option.split)

lemmas sorted_fields = strict_sorted required_sorted nullable_sorted

lemma sort_enc_list: "sort_json (enc_list e xs) = enc_list (sort_json \<circ> e) xs"
  by (simp add: enc_list_def)

section \<open>RFC 8785\<close>

fun integral :: "json \<Rightarrow> bool" where
  "integral (JFloat t) = False"
| "integral (JInt i) \<longleftrightarrow> \<bar>i\<bar> < 2 ^ 53"
| "integral (JList xs) = list_all integral xs"
| "integral (JObj kvs) = list_all (\<lambda>(k, v). integral v) kvs"
| "integral _ = True"

definition rfc8785_law :: "(json \<Rightarrow> string result) \<Rightarrow> bool" where
  "rfc8785_law jcs \<longleftrightarrow> (\<forall>v. integral v \<longrightarrow> jcs v = Inr (dumps_compact False (sort_json v)))"

lemma rfc8785_dumps: "rfc8785_law jcs \<Longrightarrow> integral v \<Longrightarrow> jcs v = Inr (dumps_compact False (sort_json v))"
  by (simp add: rfc8785_law_def)

lemma rfc8785_satisfiable: "rfc8785_law (\<lambda>v. Inr (dumps_compact False (sort_json v)))"
  by (simp add: rfc8785_law_def)

lemma integral_printable: "integral v \<Longrightarrow> printable v"
  by (induction v) (auto simp: list_all_iff)

lemma integral_sort: "integral v \<Longrightarrow> integral (sort_json v)"
proof (induction v)
  case (JObj kvs)
  then show ?case by (fastforce simp: sort_json_obj sorted_items_def list_all_iff)
qed (simp_all add: list_all_iff)

section \<open>Repeated members\<close>

text \<open>
  \<open>object_pairs_hook=_members\<close> raises on a repeated member. The parser \<open>loads\<close> keeps the last one, so a
  text has a repeated member exactly when it has more colons outside its strings than the value has
  members.
\<close>

fun members :: "json \<Rightarrow> nat" where
  "members (JList xs) = sum_list (map members xs)"
| "members (JObj kvs) = length kvs + sum_list (map (\<lambda>(k, v). members v) kvs)"
| "members _ = 0"

fun colons :: "bool \<Rightarrow> string \<Rightarrow> nat" where
  "colons quoted [] = 0"
| "colons False (c # cs) = (if c = char_of (34::nat) then colons True cs
     else if c = CHR '':'' then Suc (colons False cs) else colons False cs)"
| "colons True (c # cs) = (if c = char_of (92::nat) then (case cs of [] \<Rightarrow> 0 | d # ds \<Rightarrow> colons True ds)
     else if c = char_of (34::nat) then colons False cs else colons True cs)"

definition loads_unique :: "string \<Rightarrow> json option" where
  "loads_unique s = (case loads s of None \<Rightarrow> None | Some v \<Rightarrow> if colons False s = members v then Some v else None)"

lemma colons_escape: "colons True (escape_char a c @ y) = colons True y"
proof -
  have n: "of_char c < (256::nat)" by (rule nat_of_char_less_256)
  have h: "m < 16 \<Longrightarrow> hex_digit m \<noteq> char_of (92::nat) \<and> hex_digit m \<noteq> char_of (34::nat)" for m
    by (auto simp: hex_digit_def char_of_eq_iff take_bit_nat_eq_self)
  have z: "CHR ''0'' \<noteq> char_of (92::nat)" "CHR ''0'' \<noteq> char_of (34::nat)"
    by (auto dest: arg_cong [of _ _ "of_char :: char \<Rightarrow> nat"])
  have "of_char c div 16 < (16::nat)" using less_mult_imp_div_less [of "of_char c" 16 16] n by simp
  moreover have "of_char c mod 16 < (16::nat)" by simp
  ultimately have h': "hex_digit (of_char c div 16) \<noteq> char_of (92::nat)" "hex_digit (of_char c div 16) \<noteq> char_of (34::nat)"
    "hex_digit (of_char c mod 16) \<noteq> char_of (92::nat)" "hex_digit (of_char c mod 16) \<noteq> char_of (34::nat)"
    using h by blast+
  with z show ?thesis
    by (auto simp: escape_char_def Let_def)
qed

lemma colons_quote: "colons False (quote a s @ x) = colons False x"
proof -
  have neq: "CHR 0x22 \<noteq> char_of (92::nat)"
    by (auto dest: arg_cong [of _ _ "of_char :: char \<Rightarrow> nat"])
  have "colons True (concat (map (escape_char a) s) @ char_of (34::nat) # x) = colons False x"
    using neq by (induction s) (simp_all add: colons_escape)
  then show ?thesis using neq by (simp add: quote_def)
qed

lemma colons_number: "list_all num_char t \<Longrightarrow> colons False (t @ x) = colons False x"
  by (induction t) (auto simp: num_char_def is_digit_def)

lemma colons_join:
  assumes "\<And>y x. y \<in> set ys \<Longrightarrow> colons False (f y @ x) = g y + colons False x"
  shows "colons False (join '','' (map f ys) @ x) = sum_list (map g ys) + colons False x"
  using assms
proof (induction ys)
  case (Cons y ys)
  show ?case
  proof (cases ys)
    case (Cons z zs)
    have y: "colons False (f y @ u) = g y + colons False u" for u using Cons.prems by simp
    have "colons False (join '','' (map f ys) @ x) = sum_list (map g ys) + colons False x"
      using Cons.IH Cons.prems by simp
    with Cons show ?thesis by (simp add: y)
  qed (use Cons.prems in simp)
qed simp

lemma colons_dumps: "printable v \<Longrightarrow> colons False (dumps a '','' '':'' v @ x) = members v + colons False x"
proof (induction v arbitrary: x)
  case (JInt i)
  then show ?case using number_text_int [of i] by (simp add: number_text_def colons_number)
next
  case (JFloat t)
  then show ?case by (simp add: float_text_def colons_number)
next
  case (JStr s)
  then show ?case by (simp add: colons_quote)
next
  case (JList xs)
  then have "colons False (join '','' (map (dumps a '','' '':'') xs) @ CHR '']'' # x)
      = sum_list (map members xs) + colons False (CHR '']'' # x)"
    by (intro colons_join) (simp add: list_all_iff)
  then show ?case by simp
next
  case (JObj kvs)
  have "colons False (join '','' (map (\<lambda>(k, v). quote a k @ '':'' @ dumps a '','' '':'' v) kvs) @ CHR ''}'' # x)
      = sum_list (map (\<lambda>(k, v). Suc (members v)) kvs) + colons False (CHR ''}'' # x)"
    using JObj by (intro colons_join) (fastforce simp: list_all_iff colons_quote)
  moreover have "sum_list (map (\<lambda>(k, v). Suc (members v)) kvs) = length kvs + sum_list (map (\<lambda>(k, v). members v) kvs)"
    by (induction kvs) auto
  ultimately show ?case by simp
qed simp_all

text \<open>What was printed has no repeated member.\<close>

lemma loads_unique_dumps:
  assumes "printable v" and "readable v"
  shows "loads_unique (dumps_compact a v) = Some v"
  using colons_dumps [OF assms(1), of a "[]"] loads_dumps [OF assms] by (simp add: loads_unique_def dumps_compact_def)

section \<open>The size of printed text\<close>

text \<open>Every string of a value, its keys included.\<close>

fun all_strings :: "(string \<Rightarrow> bool) \<Rightarrow> json \<Rightarrow> bool" where
  "all_strings p (JStr s) \<longleftrightarrow> p s"
| "all_strings p (JList xs) \<longleftrightarrow> list_all (all_strings p) xs"
| "all_strings p (JObj kvs) \<longleftrightarrow> list_all (\<lambda>(k, v). p k \<and> all_strings p v) kvs"
| "all_strings p _ \<longleftrightarrow> True"

lemma all_strings_mono: "all_strings p v \<Longrightarrow> (\<And>s. p s \<Longrightarrow> q s) \<Longrightarrow> all_strings q v"
  by (induction v) (fastforce simp: list_all_iff)+

lemma all_strings_sort: "all_strings p v \<Longrightarrow> all_strings p (sort_json v)"
proof (induction v)
  case (JObj kvs)
  then show ?case by (fastforce simp: sort_json_obj sorted_items_def list_all_iff)
qed (simp_all add: list_all_iff)

text \<open>A bound of the printed size, from one of the printed strings without their quotes.\<close>

fun size_bound :: "(string \<Rightarrow> nat) \<Rightarrow> json \<Rightarrow> nat" where
  "size_bound f (JStr s) = f s + 2"
| "size_bound f (JList xs) = sum_list (map (\<lambda>x. size_bound f x + 1) xs) + 2"
| "size_bound f (JObj kvs) = sum_list (map (\<lambda>(k, v). f k + 4 + size_bound f v) kvs) + 2"
| "size_bound f v = utf8_length (dumps False '','' '':'' v)"

lemma utf8_length_simps [simp]:
  "utf8_length [] = 0" "utf8_length (c # s) = (if (of_char c :: nat) < 128 then 1 else 2) + utf8_length s"
  "utf8_length (s @ t) = utf8_length s + utf8_length t"
  by (simp_all add: utf8_length_def)

lemma utf8_length_le: "utf8_length s \<le> 2 * length s"
  by (induction s) auto

lemma join_le: "utf8_length (join '','' xs) \<le> sum_list (map (\<lambda>x. utf8_length x + 1) xs)"
  by (induction "'',''" xs rule: join.induct) auto

lemma dumps_le:
  "all_strings (\<lambda>s. utf8_length (quote False s) \<le> f s + 2) v \<Longrightarrow> utf8_length (dumps False '','' '':'' v) \<le> size_bound f v"
proof (induction v)
  case (JList xs)
  have "sum_list (map (\<lambda>x. utf8_length (dumps False '','' '':'' x) + 1) xs) \<le> sum_list (map (\<lambda>x. size_bound f x + 1) xs)"
    by (rule sum_list_mono) (use JList in \<open>simp add: list_all_iff\<close>)
  then show ?case
    using join_le [of "map (dumps False '','' '':'') xs"] by (simp add: comp_def)
next
  case (JObj kvs)
  have "sum_list (map (\<lambda>(k, v). utf8_length (quote False k @ '':'' @ dumps False '','' '':'' v) + 1) kvs)
      \<le> sum_list (map (\<lambda>(k, v). f k + 4 + size_bound f v) kvs)"
  proof (rule sum_list_mono)
    fix kv
    assume kv: "kv \<in> set kvs"
    then have "utf8_length (quote False (fst kv)) \<le> f (fst kv) + 2" "all_strings (\<lambda>s. utf8_length (quote False s) \<le> f s + 2) (snd kv)"
      using JObj.prems by (auto simp: list_all_iff)
    with JObj.IH [of kv "snd kv"] kv
    show "(\<lambda>(k, v). utf8_length (quote False k @ '':'' @ dumps False '','' '':'' v) + 1) kv
        \<le> (\<lambda>(k, v). f k + 4 + size_bound f v) kv"
      by (cases kv) auto
  qed
  then show ?case
    using join_le [of "map (\<lambda>(k, v). quote False k @ '':'' @ dumps False '','' '':'' v) kvs"]
    by (simp add: comp_def case_prod_unfold)
qed simp_all

lemma size_bound_sort: "size_bound f (sort_json v) = size_bound f v"
proof (induction v)
  case (JList xs)
  then show ?case
    by (simp add: comp_def cong: map_cong)
next
  case (JObj kvs)
  let ?g = "\<lambda>(k, v). f k + 4 + size_bound f v"
  have "sum_list (map ?g (sort_key fst (sorted_items kvs))) = sum_list (map ?g (sorted_items kvs))"
    unfolding sum_mset_sum_list [symmetric] by simp
  moreover have "map ?g (sorted_items kvs) = map ?g kvs"
    using JObj by (fastforce simp: sorted_items_def)
  ultimately show ?case
    by (simp add: sort_json_obj)
qed simp_all

text \<open>An escape takes six characters at most, and two where there is no control character.\<close>

lemma quote_le:
  assumes "list_all (\<lambda>c. utf8_length (escape_char False c) \<le> b c) s"
  shows "utf8_length (quote False s) \<le> sum_list (map b s) + 2"
proof -
  have "utf8_length (concat (map (escape_char False) s)) \<le> sum_list (map b s)"
    using assms by (induction s) auto
  then show ?thesis by (simp add: quote_def)
qed

abbreviation text_bound :: "json \<Rightarrow> nat" where
  "text_bound \<equiv> size_bound (\<lambda>s. 12 * length s)"

lemma text_le: "utf8_length (dumps False '','' '':'' v) \<le> text_bound v"
proof (rule dumps_le)
  have "utf8_length (escape_char False c) \<le> 12" for c
  proof -
    have "length (escape_char False c) \<le> 6" by (auto simp: escape_char_def Let_def)
    then show ?thesis using utf8_length_le [of "escape_char False c"] by linarith
  qed
  then have "utf8_length (quote False s) \<le> 12 * length s + 2" for s
    using quote_le [of "\<lambda>_. 12" s] by (simp add: list_all_iff sum_list_triv mult.commute)
  then show "all_strings (\<lambda>s. utf8_length (quote False s) \<le> 12 * length s + 2) v"
    by (induction v) (auto simp: list_all_iff)
qed

definition printing :: "string \<Rightarrow> bool" where
  "printing s \<longleftrightarrow> list_all (\<lambda>c. 32 \<le> (of_char c :: nat)) s"

abbreviation wire_bound :: "json \<Rightarrow> nat" where
  "wire_bound \<equiv> size_bound (\<lambda>s. 2 * utf8_length s)"

lemma wire_le: "all_strings printing v \<Longrightarrow> utf8_length (dumps False '','' '':'' v) \<le> wire_bound v"
proof (rule dumps_le, erule all_strings_mono)
  fix s
  assume "printing s"
  then have "list_all (\<lambda>c. utf8_length (escape_char False c) \<le> 2 * utf8_length [c]) s"
    by (auto simp: printing_def list_all_iff escape_char_def Let_def)
  moreover have "sum_list (map (\<lambda>c. 2 * utf8_length [c]) s) = 2 * utf8_length s" by (induction s) auto
  ultimately show "utf8_length (quote False s) \<le> 2 * utf8_length s + 2" using quote_le by metis
qed

end
