(* ===== verification/Utc_Text.thy ===== *)
theory Utc_Text
  imports Canonical
begin

text \<open>
  Instants as text: \<open>datetime.isoformat(timespec="milliseconds")\<close> in UTC with the suffix \<open>Z\<close>, and
  \<open>datetime.fromisoformat\<close> on text of that shape. Instants are milliseconds since the epoch, in the
  proleptic Gregorian calendar from the year 1 to the year 9999. Printing and reading are inverse.
\<close>

section \<open>Fixed-width decimals\<close>

primrec pad :: "nat \<Rightarrow> nat \<Rightarrow> string" where
  "pad 0 n = []"
| "pad (Suc w) n = pad w (n div 10) @ [char_of (48 + n mod 10)]"

lemma length_pad [simp]: "length (pad w n) = w"
  by (induction w arbitrary: n) simp_all

lemma pad_digits [simp]: "list_all is_digit (pad w n)"
proof (induction w arbitrary: n)
  case (Suc w)
  have "n mod 10 < 10" by simp
  then have "is_digit (char_of (48 + n mod 10))" by (simp add: is_digit_def take_bit_nat_eq_self)
  with Suc show ?case by simp
qed simp

lemma undigits_snoc: "undigits (s @ [c]) = undigits s * 10 + (of_char c - 48)"
  by (simp add: undigits_def)

lemma undigits_pad: "n < 10 ^ w \<Longrightarrow> undigits (pad w n) = n"
proof (induction w arbitrary: n)
  case (Suc w)
  have m: "n mod 10 < 10" by simp
  have "n div 10 < 10 ^ w" using Suc.prems by (simp add: less_mult_imp_div_less)
  then have "undigits (pad w (n div 10)) = n div 10" by (rule Suc.IH)
  with m show ?case by (simp add: undigits_snoc take_bit_nat_eq_self)
qed (simp add: undigits_def)

lemma digit_range: "is_digit c \<Longrightarrow> \<exists>k<10. of_char c = 48 + (k::nat)"
  by (rule exI [of _ "of_char c - 48"]) (auto simp: is_digit_def)

lemma pad_undigits: "list_all is_digit s \<Longrightarrow> pad (length s) (undigits s) = s"
proof (induction s rule: rev_induct)
  case (snoc c s)
  then obtain k where k: "k < 10" "of_char c = 48 + (k::nat)" using digit_range by fastforce
  then have "char_of (48 + k) = c" by (metis char_of_char)
  with snoc k show ?case by (simp add: undigits_snoc)
qed simp

lemma undigits_bound: "list_all is_digit s \<Longrightarrow> undigits s < 10 ^ length s"
proof (induction s rule: rev_induct)
  case (snoc c s)
  then obtain k where k: "k < 10" "of_char c = 48 + (k::nat)" using digit_range by fastforce
  have "undigits s < 10 ^ length s" using snoc by simp
  then have "Suc (undigits s) * 10 \<le> 10 ^ length s * 10" by (intro mult_le_mono1) simp
  with k show ?case by (simp add: undigits_snoc)
qed (simp add: undigits_def)

section \<open>The calendar\<close>

definition leap_year :: "int \<Rightarrow> bool" where
  "leap_year y \<longleftrightarrow> y mod 4 = 0 \<and> (y mod 100 \<noteq> 0 \<or> y mod 400 = 0)"

definition year_days :: "int \<Rightarrow> int" where
  "year_days y = (if leap_year y then 366 else 365)"

text \<open>Days from the first of January of the year 1.\<close>

definition days_before_year :: "int \<Rightarrow> int" where
  "days_before_year y = (let z = y - 1 in z * 365 + z div 4 - z div 100 + z div 400)"

definition month_lengths :: "int \<Rightarrow> int list" where
  "month_lengths y = [31, if leap_year y then 29 else 28, 31, 30, 31, 30, 31, 31, 30, 31, 30, 31]"

fun split_months :: "int list \<Rightarrow> int \<Rightarrow> nat \<times> int" where
  "split_months [] d = (0, d)"
| "split_months (l # ls) d = (if d < l then (0, d) else let (m, e) = split_months ls (d - l) in (Suc m, e))"

function split_years :: "int \<Rightarrow> int \<Rightarrow> int \<times> int" where
  "split_years y d = (if d < year_days y then (y, d) else split_years (y + 1) (d - year_days y))"
  by auto
termination
  by (relation "measure (\<lambda>(y, d). nat d)") (auto simp: year_days_def split: if_splits)

declare split_years.simps [simp del]

text \<open>The civil date of a day; 146097 days make 400 years.\<close>

definition date_of :: "int \<Rightarrow> int \<times> nat \<times> int" where
  "date_of n = (let (y, d) = split_years 1 (n mod 146097);
                    year = 400 * (n div 146097) + y;
                    (m, e) = split_months (month_lengths year) d in (year, Suc m, e + 1))"

definition day_of :: "int \<Rightarrow> nat \<Rightarrow> int \<Rightarrow> int" where
  "day_of y m d = days_before_year y + sum_list (take (m - 1) (month_lengths y)) + (d - 1)"

lemma leap_mod: "leap_year (400 * c + y) = leap_year y"
proof -
  have "(y + c * 100 * 4) mod 4 = y mod 4" "(y + c * 4 * 100) mod 100 = y mod 100" "(y + c * 400) mod 400 = y mod 400"
    by (rule mod_mult_self1)+
  then show ?thesis by (simp add: leap_year_def algebra_simps)
qed

lemma month_lengths_mod: "month_lengths (400 * c + y) = month_lengths y"
  by (simp add: month_lengths_def leap_mod)

lemma length_months: "length (month_lengths y) = 12"
  by (simp add: month_lengths_def)

lemma sum_month_lengths: "sum_list (month_lengths y) = year_days y"
  by (simp add: month_lengths_def year_days_def)

lemma days_before_cycle: "days_before_year (400 * c + y) = 146097 * c + days_before_year y"
proof -
  have "(y - 1 + c * 100 * 4) div 4 = c * 100 + (y - 1) div 4" "(y - 1 + c * 4 * 100) div 100 = c * 4 + (y - 1) div 100"
    "(y - 1 + c * 400) div 400 = c + (y - 1) div 400"
    by (rule div_mult_self1; simp)+
  then show ?thesis by (simp add: days_before_year_def Let_def algebra_simps)
qed

lemma div_next:
  fixes y k :: int
  assumes "0 < k"
  shows "y div k = (y - 1) div k + (if y mod k = 0 then 1 else 0)"
proof (cases "y mod k = 0")
  case True
  have "y = y div k * k + y mod k" by simp
  with True have "y - 1 = k * (y div k - 1) + (k - 1)" by (simp add: algebra_simps)
  then have "(y - 1) div k = y div k - 1" by (rule int_div_pos_eq) (use assms in simp_all)
  with True show ?thesis by simp
next
  case False
  have "y = y div k * k + y mod k" by simp
  then have "y - 1 = k * (y div k) + (y mod k - 1)" by (simp add: algebra_simps)
  moreover have "0 < y mod k" "y mod k < k"
    using False pos_mod_sign [OF assms, of y] pos_mod_bound [OF assms, of y] by simp_all
  ultimately have "(y - 1) div k = y div k" by (intro int_div_pos_eq [where r = "y mod k - 1"]) simp_all
  with False show ?thesis by simp
qed

lemma mod_zero_trans: "y mod (b * a) = 0 \<Longrightarrow> y mod b = (0::int)"
  by (metis dvd_mult_left mod_0_imp_dvd dvd_imp_mod_0)

lemma days_before_next: "days_before_year (y + 1) = days_before_year y + year_days y"
proof -
  define a b c where "a \<longleftrightarrow> y mod 4 = 0" and "b \<longleftrightarrow> y mod 100 = 0" and "c \<longleftrightarrow> y mod 400 = 0"
  have d: "y div 4 = (y - 1) div 4 + (if a then 1 else 0)"
    "y div 100 = (y - 1) div 100 + (if b then 1 else 0)"
    "y div 400 = (y - 1) div 400 + (if c then 1 else 0)"
    unfolding a_def b_def c_def by (rule div_next; simp)+
  have "b" if "c"
    using that mod_zero_trans [of y 100 4] by (simp add: b_def c_def)
  moreover have "a" if "b"
    using that mod_zero_trans [of y 4 25] by (simp add: a_def b_def)
  moreover have "leap_year y \<longleftrightarrow> a \<and> (\<not> b \<or> c)"
    by (simp only: leap_year_def a_def b_def c_def)
  ultimately have "year_days y = 365 + (if a then 1 else 0) - (if b then 1 else 0) + (if c then 1 else 0)"
    unfolding year_days_def by (cases a; cases b; cases c; simp)
  moreover define p q r where "p = (y - 1) div 4" and "q = (y - 1) div 100" and "r = (y - 1) div 400"
  ultimately show ?thesis
    unfolding days_before_year_def Let_def add_diff_cancel_right' d p_def [symmetric] q_def [symmetric] r_def [symmetric]
    by simp
qed

lemma split_years_sum:
  "split_years y d = (y', e) \<Longrightarrow> 0 \<le> d \<Longrightarrow> y \<le> y' \<and> days_before_year y' + e = days_before_year y + d
     \<and> 0 \<le> e \<and> e < year_days y'"
proof (induction y d arbitrary: y' e rule: split_years.induct)
  case (1 y d)
  show ?case
  proof (cases "d < year_days y")
    case True
    with 1 show ?thesis by (simp add: split_years.simps [of y d])
  next
    case False
    with 1 show ?thesis by (fastforce simp: split_years.simps [of y d] days_before_next)
  qed
qed

lemma days_before_mono: "x \<le> y \<Longrightarrow> days_before_year x \<le> days_before_year y"
proof -
  have "days_before_year x \<le> days_before_year (x + int k)" for k
  proof (induction k)
    case (Suc k)
    have "days_before_year (x + int k) \<le> days_before_year (x + int k + 1)"
      unfolding days_before_next by (simp add: year_days_def)
    with Suc show ?case by (simp add: algebra_simps)
  qed simp
  from this [of "nat (y - x)"] show "x \<le> y \<Longrightarrow> ?thesis" by simp
qed

text \<open>The year of a day is determined by the interval it lies in.\<close>

lemma year_unique:
  assumes "days_before_year x + d = days_before_year y + e" and "0 \<le> d" "d < year_days x" and "0 \<le> e" "e < year_days y"
  shows "x = y \<and> d = e"
proof -
  have "\<not> x < y"
    using days_before_mono [of "x + 1" y] assms by (auto simp: days_before_next)
  moreover have "\<not> y < x"
    using days_before_mono [of "y + 1" x] assms by (auto simp: days_before_next)
  ultimately show ?thesis using assms(1) by auto
qed

lemma split_months_sum:
  assumes "split_months ls d = (m, e)" and "0 \<le> d" and "d < sum_list ls"
  shows "m < length ls \<and> sum_list (take m ls) + e = d \<and> 0 \<le> e \<and> e < ls ! m"
  using assms
proof (induction ls d arbitrary: m e rule: split_months.induct)
  case (2 l ls d)
  show ?case
  proof (cases "d < l")
    case False
    obtain m' e' where s: "split_months ls (d - l) = (m', e')" by fastforce
    with 2 False show ?thesis by (fastforce simp: Let_def)
  qed (use 2 in auto)
qed simp

lemma split_months_of:
  assumes "m < length ls" and "0 \<le> e" and "e < ls ! m" and "list_all (\<lambda>l. 0 \<le> l) ls"
  shows "split_months ls (sum_list (take m ls) + e) = (m, e)"
  using assms
proof (induction ls arbitrary: m)
  case (Cons l ls)
  show ?case
  proof (cases m)
    case (Suc k)
    have "0 \<le> sum_list (take k ls)"
      using Cons.prems(4) by (intro sum_list_nonneg) (auto simp: list_all_iff dest: in_set_takeD)
    with Cons Suc show ?thesis by (simp add: algebra_simps)
  qed (use Cons in simp)
qed simp

lemma month_lengths_nonneg: "list_all (\<lambda>l. 0 \<le> l) (month_lengths y)"
  by (simp add: month_lengths_def)

text \<open>A date is valid when \<open>datetime\<close> accepts it.\<close>

definition valid_date :: "int \<Rightarrow> nat \<Rightarrow> int \<Rightarrow> bool" where
  "valid_date y m d \<longleftrightarrow> 1 \<le> y \<and> y \<le> 9999 \<and> 1 \<le> m \<and> m \<le> 12 \<and> 1 \<le> d \<and> d \<le> month_lengths y ! (m - 1)"

lemma date_of_day:
  assumes "date_of n = (y, m, d)" and "0 \<le> n" and "n < 3652059"
  shows "valid_date y m d \<and> day_of y m d = n"
proof -
  obtain y0 e0 where s: "split_years 1 (n mod 146097) = (y0, e0)" by fastforce
  have s': "1 \<le> y0" "days_before_year y0 + e0 = n mod 146097" "0 \<le> e0" "e0 < year_days y0"
    using split_years_sum [OF s] by (auto simp: days_before_year_def)
  define c where "c = n div 146097"
  have y: "y = 400 * c + y0" using assms(1) s by (simp add: date_of_def c_def Let_def split: prod.splits)
  obtain k e where m: "split_months (month_lengths y) e0 = (k, e)" by fastforce
  have md: "m = Suc k" "d = e + 1" using assms(1) s m y by (auto simp: date_of_def c_def Let_def)
  have yd: "year_days y = year_days y0" by (simp add: y year_days_def leap_mod)
  have k: "k < 12" "sum_list (take k (month_lengths y)) + e = e0" "0 \<le> e" "e < month_lengths y ! k"
    using split_months_sum [OF m s'(3)] s'(4) yd by (simp_all add: sum_month_lengths length_months)
  have n: "days_before_year y + e0 = n"
    using s'(2) by (simp add: y days_before_cycle c_def) (metis add.assoc mult.commute div_mult_mod_eq)
  have "0 \<le> c" using assms(2) by (simp add: c_def pos_imp_zdiv_nonneg_iff)
  then have "1 \<le> y" using s'(1) y by simp
  moreover have "y \<le> 9999"
  proof (rule ccontr)
    assume "\<not> y \<le> 9999"
    then have "days_before_year 10000 \<le> days_before_year y" by (intro days_before_mono) simp
    moreover have "days_before_year 10000 = 3652059" by (simp add: days_before_year_def)
    ultimately show False using n s'(3) assms(3) by simp
  qed
  ultimately have "valid_date y m d" using k md by (simp add: valid_date_def)
  moreover have "day_of y m d = n" using k md n by (simp add: day_of_def)
  ultimately show ?thesis by simp
qed

lemma day_of_date:
  assumes "valid_date y m d"
  shows "date_of (day_of y m d) = (y, m, d)"
proof -
  define e0 where "e0 = sum_list (take (m - 1) (month_lengths y)) + (d - 1)"
  define n where "n = day_of y m d"
  have m: "m - 1 < 12" "0 \<le> d - 1" "d - 1 < month_lengths y ! (m - 1)" "Suc (m - 1) = m"
    using assms by (auto simp: valid_date_def)
  note len = length_months [of y]
  have sm: "split_months (month_lengths y) e0 = (m - 1, d - 1)"
    unfolding e0_def using m len by (intro split_months_of) (simp_all add: month_lengths_nonneg)
  have e0: "0 \<le> e0"
    unfolding e0_def using m(2) month_lengths_nonneg [of y]
    by (intro add_nonneg_nonneg sum_list_nonneg) (auto simp: list_all_iff dest: in_set_takeD)
  have e0': "e0 < year_days y"
  proof -
    have "sum_list (take (m - 1) (month_lengths y)) + month_lengths y ! (m - 1)
        = sum_list (take (Suc (m - 1)) (month_lengths y))"
      using m(1) len by (simp add: take_Suc_conv_app_nth)
    also have "\<dots> \<le> sum_list (take (Suc (m - 1)) (month_lengths y)) + sum_list (drop (Suc (m - 1)) (month_lengths y))"
      using month_lengths_nonneg [of y] by (simp add: sum_list_nonneg list_all_iff in_set_dropD)
    also have "\<dots> = year_days y"
      by (metis append_take_drop_id sum_list.append sum_month_lengths)
    finally show ?thesis using m(3) by (simp add: e0_def)
  qed
  have n: "n = days_before_year y + e0" by (simp add: n_def day_of_def e0_def)
  obtain y0 e1 where s: "split_years 1 (n mod 146097) = (y0, e1)" by fastforce
  have s': "days_before_year y0 + e1 = n mod 146097" "0 \<le> e1" "e1 < year_days y0"
    using split_years_sum [OF s] by (auto simp: days_before_year_def)
  define c where "c = n div 146097"
  have "days_before_year (400 * c + y0) + e1 = n"
    using s'(1) by (simp add: days_before_cycle c_def) (metis add.assoc mult.commute div_mult_mod_eq)
  moreover have "year_days (400 * c + y0) = year_days y0" by (simp add: year_days_def leap_mod)
  ultimately have y: "400 * c + y0 = y" "e1 = e0"
    using year_unique [of "400 * c + y0" e1 y e0] s' e0 e0' n by auto
  with s sm m(4) have "date_of n = (y, m, d)" by (simp add: date_of_def c_def Let_def)
  then show ?thesis by (simp add: n_def)
qed

section \<open>Instants\<close>

text \<open>A text has the shape of a template whose nines stand for digits.\<close>

definition fits_template :: "string \<Rightarrow> string \<Rightarrow> bool" where
  "fits_template t s \<longleftrightarrow> list_all2 (\<lambda>t c. if t = CHR ''9'' then is_digit c else c = t) t s"

definition utc_template :: string where
  "utc_template = ''9999-99-99T99:99:99.999Z''"

definition utc_text :: "int \<Rightarrow> string" where
  "utc_text ms = (let s = ms div 1000; (y, m, d) = date_of (s div 86400 + 719162); t = s mod 86400 in
     pad 4 (nat y) @ ''-'' @ pad 2 m @ ''-'' @ pad 2 (nat d) @ ''T'' @ pad 2 (nat (t div 3600)) @ '':''
       @ pad 2 (nat (t div 60 mod 60)) @ '':'' @ pad 2 (nat (t mod 60)) @ ''.'' @ pad 3 (nat (ms mod 1000)) @ ''Z'')"

definition field :: "nat \<Rightarrow> nat \<Rightarrow> string \<Rightarrow> nat" where
  "field i w s = undigits (take w (drop i s))"

text \<open>\<open>_calendar\<close> and \<open>_utc_instant\<close>: the shape, then the ranges that \<open>datetime\<close> checks.\<close>

definition utc_millis :: "string \<Rightarrow> int option" where
  "utc_millis s =
     (if \<not> fits_template utc_template s then None
      else let y = int (field 0 4 s); m = field 5 2 s; d = int (field 8 2 s); h = int (field 11 2 s);
               mi = int (field 14 2 s); se = int (field 17 2 s); f = int (field 20 3 s) in
        if valid_date y m d \<and> h < 24 \<and> mi < 60 \<and> se < 60
        then Some ((((day_of y m d - 719162) * 86400) + h * 3600 + mi * 60 + se) * 1000 + f) else None)"

text \<open>The instants of the calendar.\<close>

definition utc_range :: "int \<Rightarrow> bool" where
  "utc_range ms \<longleftrightarrow> - 62135596800000 \<le> ms \<and> ms < 253402300800000"

lemma fits_Cons: "fits_template (x # t) (c # s) \<longleftrightarrow> (if x = CHR ''9'' then is_digit c else c = x) \<and> fits_template t s"
  by (simp only: fits_template_def list_all2_Cons)

lemma fits_digits: "list_all is_digit s \<Longrightarrow> length s = w \<Longrightarrow> fits_template (replicate w (CHR ''9'') @ t) (s @ r) = fits_template t r"
  by (induction s arbitrary: w) (auto simp: fits_Cons)

lemma fits_parts: "fits_template utc_template
   (a @ ''-'' @ b @ ''-'' @ c @ ''T'' @ d @ '':'' @ e @ '':'' @ f @ ''.'' @ g @ ''Z'')"
  if "list_all is_digit (a @ b @ c @ d @ e @ f @ g)" "length a = 4" "length b = 2" "length c = 2" "length d = 2"
    "length e = 2" "length f = 2" "length g = 3"
proof -
  have t: "utc_template = replicate 4 (CHR ''9'') @ ''-'' @ replicate 2 (CHR ''9'') @ ''-'' @ replicate 2 (CHR ''9'') @ ''T''
      @ replicate 2 (CHR ''9'') @ '':'' @ replicate 2 (CHR ''9'') @ '':'' @ replicate 2 (CHR ''9'') @ ''.''
      @ replicate 3 (CHR ''9'') @ ''Z''"
    by (simp add: utc_template_def numeral_eq_Suc)
  have c: "fits_template (x # ts) (x # r) = fits_template ts r" if "x \<noteq> CHR ''9''" for x ts r
    using that by (simp add: fits_template_def)
  have n: "fits_template [] []" by (simp add: fits_template_def)
  show ?thesis
    unfolding t using that by (simp add: fits_digits c n)
qed

lemma fits_split:
  assumes "fits_template utc_template s"
  obtains a b c d e f g where "s = a @ ''-'' @ b @ ''-'' @ c @ ''T'' @ d @ '':'' @ e @ '':'' @ f @ ''.'' @ g @ ''Z''"
    and "list_all is_digit a" "list_all is_digit b" "list_all is_digit c" "list_all is_digit d" "list_all is_digit e"
      "list_all is_digit f" "list_all is_digit g"
    and "length a = 4" "length b = 2" "length c = 2" "length d = 2" "length e = 2" "length f = 2" "length g = 3"
proof -
  from assms obtain a1 a2 a3 a4 b1 b2 c1 c2 d1 d2 e1 e2 f1 f2 g1 g2 g3 where
    s: "s = [a1, a2, a3, a4, CHR ''-'', b1, b2, CHR ''-'', c1, c2, CHR ''T'', d1, d2, CHR '':'', e1, e2, CHR '':'', f1, f2,
      CHR ''.'', g1, g2, g3, CHR ''Z'']"
    and d: "list_all is_digit [a1, a2, a3, a4]" "list_all is_digit [b1, b2]" "list_all is_digit [c1, c2]"
      "list_all is_digit [d1, d2]" "list_all is_digit [e1, e2]" "list_all is_digit [f1, f2]" "list_all is_digit [g1, g2, g3]"
    unfolding fits_template_def utc_template_def by (auto simp: list_all2_Cons1)
  show ?thesis
    by (rule that [OF _ d]) (simp_all add: s)
qed

lemma fields_parts:
  assumes "length a = 4" "length b = 2" "length c = 2" "length d = 2" "length e = 2" "length f = 2" "length g = 3"
    and s: "s = a @ ''-'' @ b @ ''-'' @ c @ ''T'' @ d @ '':'' @ e @ '':'' @ f @ ''.'' @ g @ ''Z''"
  shows "field 0 4 s = undigits a" "field 5 2 s = undigits b" "field 8 2 s = undigits c" "field 11 2 s = undigits d"
    "field 14 2 s = undigits e" "field 17 2 s = undigits f" "field 20 3 s = undigits g"
  using assms(1-7) unfolding s field_def by simp_all

lemma valid_date_small: "valid_date y m d \<Longrightarrow> 0 \<le> y \<and> nat y < 10 ^ 4 \<and> m < 10 ^ 2 \<and> 0 \<le> d \<and> nat d < 10 ^ 2"
proof -
  assume v: "valid_date y m d"
  then have "month_lengths y ! (m - 1) \<in> set (month_lengths y)"
    by (intro nth_mem) (auto simp: valid_date_def length_months)
  then have "month_lengths y ! (m - 1) \<le> 31" by (auto simp: month_lengths_def split: if_splits)
  with v show ?thesis by (auto simp: valid_date_def)
qed

text \<open>What is printed reads back as the instant.\<close>

lemma utc_millis_text:
  assumes "utc_range ms"
  shows "utc_millis (utc_text ms) = Some ms"
proof -
  define s t f where "s = ms div 1000" and "t = s mod 86400" and "f = ms mod 1000"
  obtain y m d where ymd: "date_of (s div 86400 + 719162) = (y, m, d)" by (metis prod_cases3)
  have "0 \<le> s div 86400 + 719162" "s div 86400 + 719162 < 3652059"
    using assms by (auto simp: utc_range_def s_def zdiv_zmult2_eq [symmetric])
  with ymd have v: "valid_date y m d" and day: "day_of y m d = s div 86400 + 719162"
    using date_of_day by blast+
  have t: "0 \<le> t" "t < 86400" and f: "0 \<le> f" "f < 1000" by (simp_all add: t_def f_def)
  have h: "0 \<le> t div 3600" "t div 3600 < 24"
    using t by (simp_all add: pos_imp_zdiv_nonneg_iff div_less_iff_less_mult)
  have mi: "0 \<le> t div 60 mod 60" "t div 60 mod 60 < 60" and se: "0 \<le> t mod 60" "t mod 60 < 60" by simp_all
  have hm: "t div 3600 * 3600 + t div 60 mod 60 * 60 + t mod 60 = t"
  proof -
    define q h' m' s' where "q = t div 60" and "h' = q div 60" and "m' = q mod 60" and "s' = t mod 60"
    have "h' * 60 + m' = q" unfolding h'_def m'_def by (rule div_mult_mod_eq)
    moreover have "q * 60 + s' = t" unfolding q_def s'_def by (rule div_mult_mod_eq)
    moreover have "t div 3600 = h'" using zdiv_zmult2_eq [of 60 t 60] by (simp add: h'_def q_def)
    ultimately show ?thesis unfolding q_def [symmetric] m'_def [symmetric] s'_def [symmetric] by simp
  qed
  let ?a = "pad 4 (nat y)" and ?b = "pad 2 m" and ?c = "pad 2 (nat d)" and ?d = "pad 2 (nat (t div 3600))"
    and ?e = "pad 2 (nat (t div 60 mod 60))" and ?f = "pad 2 (nat (t mod 60))" and ?g = "pad 3 (nat f)"
  have shown: "utc_text ms = ?a @ ''-'' @ ?b @ ''-'' @ ?c @ ''T'' @ ?d @ '':'' @ ?e @ '':'' @ ?f @ ''.'' @ ?g @ ''Z''"
    using ymd by (simp add: utc_text_def Let_def s_def [symmetric] t_def [symmetric] f_def [symmetric])
  have fit: "fits_template utc_template (utc_text ms)"
    unfolding shown by (rule fits_parts) simp_all
  have pads: "undigits ?a = nat y" "undigits ?b = m" "undigits ?c = nat d" "undigits ?d = nat (t div 3600)"
    "undigits ?e = nat (t div 60 mod 60)" "undigits ?f = nat (t mod 60)" "undigits ?g = nat f"
    using valid_date_small [OF v] h mi se f by (simp_all add: undigits_pad)
  have ints: "int (nat y) = y" "int (nat d) = d" "int (nat (t div 3600)) = t div 3600"
    "int (nat (t div 60 mod 60)) = t div 60 mod 60" "int (nat (t mod 60)) = t mod 60" "int (nat f) = f"
    using valid_date_small [OF v] h(1) mi(1) se(1) f(1) by (auto intro: int_nat_eq [THEN trans])
  have "day_of y m d - 719162 = s div 86400" by (simp add: day)
  then have "((day_of y m d - 719162) * 86400 + t div 3600 * 3600 + t div 60 mod 60 * 60 + t mod 60) * 1000 + f = ms"
    using hm div_mult_mod_eq [of s 86400] div_mult_mod_eq [of ms 1000]
    by (simp only: s_def [symmetric] t_def [symmetric] f_def [symmetric] add.assoc)
  then show ?thesis
    unfolding utc_millis_def Let_def
      fields_parts [OF length_pad length_pad length_pad length_pad length_pad length_pad length_pad shown] pads ints
    using v h(2) mi(2) se(2) fit by (simp only: simp_thms if_True if_False)
qed

text \<open>Conversely, an instant that was read is printed as the text it was read from.\<close>

lemma utc_text_millis:
  assumes "utc_millis s = Some ms"
  shows "utc_text ms = s \<and> utc_range ms"
proof -
  from assms have fit: "fits_template utc_template s" by (simp add: utc_millis_def split: if_splits)
  then obtain a b c d e f g where s: "s = a @ ''-'' @ b @ ''-'' @ c @ ''T'' @ d @ '':'' @ e @ '':'' @ f @ ''.'' @ g @ ''Z''"
    and dig: "list_all is_digit a" "list_all is_digit b" "list_all is_digit c" "list_all is_digit d" "list_all is_digit e"
      "list_all is_digit f" "list_all is_digit g"
    and len: "length a = 4" "length b = 2" "length c = 2" "length d = 2" "length e = 2" "length f = 2" "length g = 3"
    by (rule fits_split)
  define y m da h mi se fr where "y = int (undigits a)" and "m = undigits b" and "da = int (undigits c)"
    and "h = int (undigits d)" and "mi = int (undigits e)" and "se = int (undigits f)" and "fr = int (undigits g)"
  note defs = this
  have v: "valid_date y m da" "h < 24" "mi < 60" "se < 60"
    and ms: "ms = (((day_of y m da - 719162) * 86400) + h * 3600 + mi * 60 + se) * 1000 + fr"
    using assms fit unfolding utc_millis_def fields_parts [OF len s] Let_def defs by (auto split: if_splits)
  have nn: "0 \<le> h" "0 \<le> mi" "0 \<le> se" "0 \<le> fr" by (simp_all add: defs)
  have fr: "fr < 1000" using undigits_bound [OF dig(7)] len by (simp add: defs)
  define t where "t = h * 3600 + mi * 60 + se"
  define D where "D = day_of y m da - 719162"
  have t: "0 \<le> t" "t < 86400" using v nn by (simp_all add: t_def)
  have msD: "ms = (D * 86400 + t) * 1000 + fr" by (simp add: ms D_def t_def)
  have s1: "ms div 1000 = D * 86400 + t"
    by (rule int_div_pos_eq [where r = fr]) (use msD fr nn in simp_all)
  have f1: "ms mod 1000 = fr"
    using s1 msD div_mult_mod_eq [of ms 1000] by simp
  have d1: "(D * 86400 + t) div 86400 = D"
    by (rule int_div_pos_eq [where r = t]) (use t in simp_all)
  have t1: "(D * 86400 + t) mod 86400 = t"
    using d1 div_mult_mod_eq [of "D * 86400 + t" 86400] by simp
  have h1: "t div 3600 = h"
    by (rule int_div_pos_eq [where r = "mi * 60 + se"]) (use v nn in \<open>simp_all add: t_def\<close>)
  have q1: "t div 60 = h * 60 + mi"
    by (rule int_div_pos_eq [where r = se]) (use v nn in \<open>simp_all add: t_def\<close>)
  have q2: "(h * 60 + mi) div 60 = h"
    by (rule int_div_pos_eq [where r = mi]) (use v nn in simp_all)
  have m1: "t div 60 mod 60 = mi"
    using q2 div_mult_mod_eq [of "h * 60 + mi" 60] by (simp add: q1)
  have se1: "t mod 60 = se"
    using q1 div_mult_mod_eq [of t 60] by (simp add: t_def)
  have date: "date_of (D + 719162) = (y, m, da)"
    using day_of_date [OF v(1)] by (simp add: D_def)
  have pads: "pad 4 (nat y) = a" "pad 2 m = b" "pad 2 (nat da) = c" "pad 2 (nat h) = d" "pad 2 (nat mi) = e"
    "pad 2 (nat se) = f" "pad 3 (nat fr) = g"
    using pad_undigits [OF dig(1)] pad_undigits [OF dig(2)] pad_undigits [OF dig(3)] pad_undigits [OF dig(4)]
      pad_undigits [OF dig(5)] pad_undigits [OF dig(6)] pad_undigits [OF dig(7)] len by (simp_all add: defs)
  have "utc_text ms = s"
    unfolding utc_text_def Let_def s1 f1 d1 t1 date s by (simp add: pads h1 m1 se1)
  moreover have "utc_range ms"
  proof -
    have "days_before_year 1 \<le> days_before_year y" "days_before_year (y + 1) \<le> days_before_year 10000"
      using v(1) by (auto simp: valid_date_def intro!: days_before_mono)
    moreover have "days_before_year 1 = 0" "days_before_year 10000 = 3652059" by (simp_all add: days_before_year_def)
    ultimately have yr: "0 \<le> days_before_year y" "days_before_year y + year_days y \<le> 3652059"
      unfolding days_before_next by simp_all
    have l: "length (month_lengths y) = 12" by (rule length_months)
    have mm: "m - 1 < 12" "Suc (m - 1) = m" "1 \<le> da" "da \<le> month_lengths y ! (m - 1)"
      using v(1) by (auto simp: valid_date_def)
    have "sum_list (take m (month_lengths y)) = sum_list (take (m - 1) (month_lengths y)) + month_lengths y ! (m - 1)"
      using take_Suc_conv_app_nth [of "m - 1" "month_lengths y"] mm l by simp
    moreover have "sum_list (take m (month_lengths y)) \<le> year_days y"
    proof -
      have "sum_list (take m (month_lengths y)) + sum_list (drop m (month_lengths y)) = year_days y"
        by (metis append_take_drop_id sum_list.append sum_month_lengths)
      moreover have "0 \<le> sum_list (drop m (month_lengths y))"
        using month_lengths_nonneg [of y] by (intro sum_list_nonneg) (auto simp: list_all_iff dest: in_set_dropD)
      ultimately show ?thesis by simp
    qed
    moreover have "0 \<le> sum_list (take (m - 1) (month_lengths y))"
      using month_lengths_nonneg [of y] by (intro sum_list_nonneg) (auto simp: list_all_iff dest: in_set_takeD)
    ultimately have "0 \<le> day_of y m da" "day_of y m da < 3652059"
      using yr mm by (auto simp: day_of_def)
    then show ?thesis
      using t fr nn by (simp add: utc_range_def msD D_def)
  qed
  ultimately show ?thesis by simp
qed

end
