(* ===== verification/Chat.thy ===== *)
theory Chat
  imports Control
begin

text \<open>
  The user-visible chat facts: their records and validations
  (\<open>src/kokoro_agent/domain/chat/models.py\<close>), UTC timestamps
  (\<open>domain/chat/time.py\<close>), the allowlisted projection of execution payloads to chat facts
  (\<open>domain/chat/projection.py\<close>) and the classification of execution failures
  (\<open>execution/failures.py\<close>). Instants are microseconds since the epoch. The hash functions
  (the hex digest of \<open>hashlib.sha256\<close> and the hex form of \<open>uuid5\<close> in the URL namespace)
  are parameters.
\<close>

section \<open>Timestamps\<close>

datatype datetime = NaiveTime int | AwareTime int

text \<open>\<open>datetime.fromtimestamp\<close> covers the years up to 9999.\<close>

definition epoch_millis_to_utc :: "int \<Rightarrow> int result" where
  "epoch_millis_to_utc value =
     (if value < 0 then Inl (ValueError ''epoch-millisecond timestamp must be non-negative'')
      else let seconds = value div 1000; milliseconds = value mod 1000 in
        if 253402300799 < seconds then Inl (ValueError ''year is out of range'')
        else Inr (seconds * 1000000 + milliseconds * 1000))"

definition normalize_utc_datetime :: "datetime \<Rightarrow> int result" where
  "normalize_utc_datetime value = (case value of
      NaiveTime _ \<Rightarrow> Inl (ValueError ''Chat timestamps must be timezone-aware'')
    | AwareTime us \<Rightarrow>
        let microsecond = us mod 1000000 in Inr (us - microsecond + (microsecond div 1000) * 1000))"

lemma epoch_millis_exact: "epoch_millis_to_utc ms = Inr us \<Longrightarrow> us = ms * 1000"
proof -
  have "ms div 1000 * 1000000 + ms mod 1000 * 1000 = (ms div 1000 * 1000 + ms mod 1000) * 1000"
    by (simp only: distrib_right)
  then show "epoch_millis_to_utc ms = Inr us \<Longrightarrow> us = ms * 1000"
    by (simp add: epoch_millis_to_utc_def Let_def split: if_splits)
qed

lemma normalize_floor: "normalize_utc_datetime (AwareTime us) = Inr (us - us mod 1000)"
proof -
  have "(us mod 1000000) mod 1000 = us mod 1000" by (simp add: mod_mod_cancel)
  moreover have "us mod 1000000 = (us mod 1000000) div 1000 * 1000 + (us mod 1000000) mod 1000" by simp
  ultimately show ?thesis by (simp add: normalize_utc_datetime_def Let_def)
qed

lemma normalize_idem:
  "normalize_utc_datetime d = Inr us \<Longrightarrow> normalize_utc_datetime (AwareTime us) = Inr us"
  by (cases d) (auto simp: normalize_floor normalize_utc_datetime_def [of "NaiveTime _"] mod_diff_eq)

section \<open>Records\<close>

record chat_message_draft =
  cm_id :: string
  cm_tenant :: string
  cm_namespace :: string
  cm_session :: string
  cm_run :: string
  cm_role :: string
  cm_content :: string
  cm_status :: string
  cm_created_at :: int
  cm_updated_at :: int

record chat_message_record = chat_message_draft +
  cm_seq :: int

record chat_session_record =
  cs_tenant :: string
  cs_namespace :: string
  cs_session :: string
  cs_project_ref :: "string option"
  cs_title :: string
  cs_created_at :: int
  cs_updated_at :: int

record chat_event_draft =
  ce_tenant :: string
  ce_namespace :: string
  ce_session :: string
  ce_run :: string
  ce_source_index :: int
  ce_message_id :: "string option"
  ce_type :: string
  ce_payload_json :: string
  ce_created_at :: int

record chat_event_record = chat_event_draft +
  ce_id :: string
  ce_seq :: int

record chat_projection =
  cp_event :: chat_event_draft
  cp_message :: "chat_message_draft option"

definition chat_roles :: "string list" where
  "chat_roles = [''user'', ''assistant'']"

definition chat_message_statuses :: "string list" where
  "chat_message_statuses = [''completed'', ''failed'']"

definition chat_event_types :: "string list" where
  "chat_event_types = [''run.started'', ''assistant.delta'', ''assistant.completed'', ''activity'',
     ''todo.updated'', ''interaction.state'', ''delivery'', ''run.completed'', ''run.failed'']"

definition strict_error :: exn where
  "strict_error = ValidationError ''strict''"

definition chat_message_draft_check :: "chat_message_draft \<Rightarrow> exn option" where
  "chat_message_draft_check m = first_error
     [fail_if (cm_id m = []) strict_error, fail_if (cm_tenant m = []) strict_error,
      fail_if (cm_namespace m = []) strict_error, fail_if (cm_session m = []) strict_error,
      fail_if (cm_run m = []) strict_error, fail_if (cm_role m \<notin> set chat_roles) strict_error,
      fail_if (cm_status m \<notin> set chat_message_statuses) strict_error]"

definition chat_event_draft_check :: "chat_event_draft \<Rightarrow> exn option" where
  "chat_event_draft_check e = first_error
     [fail_if (ce_tenant e = []) strict_error, fail_if (ce_namespace e = []) strict_error,
      fail_if (ce_session e = []) strict_error, fail_if (ce_run e = []) strict_error,
      fail_if (ce_source_index e < 0) strict_error, fail_if (ce_message_id e = Some []) strict_error,
      fail_if (ce_type e \<notin> set chat_event_types) strict_error]"

definition chat_projection_check :: "chat_projection \<Rightarrow> exn option" where
  "chat_projection_check p = (case cp_message p of None \<Rightarrow> None | Some m \<Rightarrow>
     fail_if (cm_tenant m \<noteq> ce_tenant (cp_event p) \<or> cm_namespace m \<noteq> ce_namespace (cp_event p)
              \<or> cm_session m \<noteq> ce_session (cp_event p) \<or> cm_run m \<noteq> ce_run (cp_event p)
              \<or> ce_message_id (cp_event p) \<noteq> Some (cm_id m))
       (ValidationError ''chat projection event and message scope must match''))"

text \<open>A field of type \<open>UtcDateTime\<close> is normalised when the model is built.\<close>

definition utc_field :: "datetime \<Rightarrow> int result" where
  "utc_field d = (case normalize_utc_datetime d of Inl _ \<Rightarrow> Inl strict_error | Inr us \<Rightarrow> Inr us)"

section \<open>Identifiers\<close>

definition assistant_message_id :: "(string \<Rightarrow> string) \<Rightarrow> string \<Rightarrow> string \<Rightarrow> string \<Rightarrow> string" where
  "assistant_message_id uuid5_hex namespace run_id native_segment_id =
     ''msg_'' @ uuid5_hex (''ga-chat/'' @ namespace @ ''/'' @ run_id @ ''/'' @ native_segment_id)"

definition chat_event_id :: "(string \<Rightarrow> string) \<Rightarrow> string \<Rightarrow> string \<Rightarrow> int \<Rightarrow> string" where
  "chat_event_id uuid5_hex namespace run_id source_index =
     ''cev_'' @ uuid5_hex (''ga-chat/'' @ namespace @ ''/'' @ run_id @ ''/event/'' @ show_int source_index)"

text \<open>\<open>opaque(tag, *parts)\<close> of the projection, with the scope it closes over.\<close>

definition opaque_text :: "string \<Rightarrow> string \<Rightarrow> string \<Rightarrow> string \<Rightarrow> string \<Rightarrow> string list \<Rightarrow> string" where
  "opaque_text tenant_id namespace session_id run_id tag parts = dumps_compact False
     (JList (map JStr ([''kokoro-agent.safe-progress.v1'', tag, tenant_id, namespace, session_id, run_id] @ parts)))"

lemma string_list_text:
  "dumps_compact a (JList (map JStr xs)) = dumps_compact a (JList (map JStr ys)) \<longleftrightarrow> xs = ys"
proof
  assume eq: "dumps_compact a (JList (map JStr xs)) = dumps_compact a (JList (map JStr ys))"
  have "printable (JList (map JStr zs))" for zs by (simp add: list_all_iff)
  from dumps_compact_inject [OF this this eq] have "map JStr xs = map JStr ys" by simp
  then show "xs = ys" by (rule map_injective) (simp add: inj_on_def)
qed simp

lemma opaque_text_inject:
  "opaque_text t n s r tag parts = opaque_text t' n' s' r' tag' parts' \<longleftrightarrow>
     t = t' \<and> n = n' \<and> s = s' \<and> r = r' \<and> tag = tag' \<and> parts = parts'"
  unfolding opaque_text_def string_list_text by auto

section \<open>The projection\<close>

text \<open>
  The payload a fact shows: its event type, the message id it belongs to and the safe payload,
  already printed. \<open>None\<close> is a payload that has no chat fact.
\<close>

record chat_view =
  vw_type :: string
  vw_message_id :: "string option"
  vw_json :: string
  vw_content :: "string option"

definition plain_view :: "string \<Rightarrow> (string \<times> json option) list \<Rightarrow> chat_view" where
  "plain_view t fs = \<lparr>vw_type = t, vw_message_id = None, vw_json = dumps_compact False (JObj (items fs)),
     vw_content = None\<rparr>"

definition activity_view :: "string \<Rightarrow> string \<Rightarrow> string \<Rightarrow> string \<Rightarrow> chat_view" where
  "activity_view activity activity_id segment_id status = plain_view ''activity''
     [(''activity'', Some (JStr activity)), (''activity_id'', Some (JStr (''act_'' @ activity_id))),
      (''segment_id'', Some (JStr (''seg_'' @ segment_id))), (''status'', Some (JStr status)),
      (''display_code'', Some (JStr (activity @ ''.execution'')))]"

definition view_payload ::
  "(string \<Rightarrow> string) \<Rightarrow> (string \<Rightarrow> string) \<Rightarrow> string \<Rightarrow> string \<Rightarrow> string \<Rightarrow> string \<Rightarrow> agent_payload
    \<Rightarrow> chat_view option result" where
  "view_payload sha256_hex uuid5_hex tenant_id namespace session_id run_id payload =
     (let opaque = (\<lambda>tag parts. sha256_hex (opaque_text tenant_id namespace session_id run_id tag parts)) in
      case payload of
        TodoUpdatedP p \<Rightarrow>
          bind_r (dec_todo_updated_payload (enc_todo_updated_payload p)) (\<lambda>safe.
          Inr (Some \<lparr>vw_type = ''todo.updated'', vw_message_id = None, vw_json = canonical_bytes safe,
            vw_content = None\<rparr>))
      | SkillProgressP p \<Rightarrow> Inr (Some (plain_view ''activity''
          [(''activity'', Some (JStr ''skill'')),
           (''activity_id'', Some (JStr (''act_'' @ opaque ''skill-activity'' []))),
           (''preflight_id'', Some (JStr (''spf_'' @ opaque ''skill-preflight'' [show_int (skp_anchor_source_index p)]))),
           (''source_refs'', Some (enc_list JStr (skp_source_refs p))),
           (''phase'', Some (JStr (skp_phase p))),
           (''error_code'', map_option JStr (skp_error_code p))]))
      | RunStartedP \<Rightarrow> Inr (Some (plain_view ''run.started'' [(''status'', Some (JStr ''running''))]))
      | MessageDeltaP p \<Rightarrow> Inr (Some (
          (plain_view ''assistant.delta'' [(''delta'', Some (JStr (md_delta p)))])
          \<lparr>vw_message_id := Some (assistant_message_id uuid5_hex namespace run_id (md_segment_id p))\<rparr>))
      | MessageCompletedP p \<Rightarrow> Inr (Some (
          (plain_view ''assistant.completed'' [(''content'', Some (JStr (mc_content p)))])
          \<lparr>vw_message_id := Some (assistant_message_id uuid5_hex namespace run_id (mc_segment_id p)),
           vw_content := Some (mc_content p)\<rparr>))
      | ToolInvokedP p \<Rightarrow> Inr (Some (activity_view ''tool''
          (opaque ''tool-activity'' [tin_segment_id p, tin_tool_id p]) (opaque ''segment'' [tin_segment_id p]) ''running''))
      | ToolReturnedP p \<Rightarrow> Inr (Some (activity_view ''tool''
          (opaque ''tool-activity'' [tr_segment_id p, tr_tool_id p]) (opaque ''segment'' [tr_segment_id p])
          (if tr_is_error p then ''failed'' else ''completed'')))
      | ToolAwaitingApprovalP _ \<Rightarrow>
          Inl (ValueError ''interaction source requires a complete durable pause'')
      | SubagentStartedP p \<Rightarrow> Inr (Some (activity_view ''subagent''
          (opaque ''subagent-activity'' [sst_segment_id p, sst_subagent_id p]) (opaque ''segment'' [sst_segment_id p])
          ''running''))
      | SubagentFinishedP p \<Rightarrow> Inr (Some (activity_view ''subagent''
          (opaque ''subagent-activity'' [sfin_segment_id p, sfin_subagent_id p]) (opaque ''segment'' [sfin_segment_id p])
          (if sfin_failed p = Some True then ''failed'' else ''completed'')))
      | DeliveryCreatedP p \<Rightarrow> Inr (Some \<lparr>vw_type = ''delivery'', vw_message_id = None,
          vw_json = dumps_compact False (enc_delivery_created_payload p), vw_content = None\<rparr>)
      | RunCompletedP p \<Rightarrow> Inr (Some (plain_view ''run.completed''
          [(''status'', Some (JStr (rc_status p))), (''token_usage'', map_option enc_token_usage (rc_token_usage p))]))
      | RunFailedP p \<Rightarrow> Inr (Some (plain_view ''run.failed''
          [(''code'', Some (JStr (rf_code p))), (''retryable'', Some (JBool (rf_retryable p))),
           (''status'', Some (JStr ''failed''))]))
      | _ \<Rightarrow> Inr None)"

definition project_chat_fact ::
  "(string \<Rightarrow> string) \<Rightarrow> (string \<Rightarrow> string) \<Rightarrow> string \<Rightarrow> string \<Rightarrow> string \<Rightarrow> string \<Rightarrow> int \<Rightarrow> datetime
    \<Rightarrow> agent_payload \<Rightarrow> chat_projection option result" where
  "project_chat_fact sha256_hex uuid5_hex tenant_id namespace session_id run_id source_index created_at payload =
     bind_r (view_payload sha256_hex uuid5_hex tenant_id namespace session_id run_id payload) (\<lambda>shown.
     case shown of None \<Rightarrow> Inr None | Some view \<Rightarrow>
       bind_r (utc_field created_at) (\<lambda>t.
       bind_r (case vw_content view of None \<Rightarrow> Inr None | Some content \<Rightarrow>
           bind_r (construct chat_message_draft_check
             \<lparr>cm_id = (case vw_message_id view of None \<Rightarrow> [] | Some i \<Rightarrow> i), cm_tenant = tenant_id,
              cm_namespace = namespace, cm_session = session_id, cm_run = run_id, cm_role = ''assistant'',
              cm_content = content, cm_status = ''completed'', cm_created_at = t, cm_updated_at = t\<rparr>)
             (\<lambda>m. Inr (Some m))) (\<lambda>message.
       bind_r (construct chat_event_draft_check
         \<lparr>ce_tenant = tenant_id, ce_namespace = namespace, ce_session = session_id, ce_run = run_id,
          ce_source_index = source_index, ce_message_id = vw_message_id view, ce_type = vw_type view,
          ce_payload_json = vw_json view, ce_created_at = t\<rparr>) (\<lambda>event.
       bind_r (construct chat_projection_check \<lparr>cp_event = event, cp_message = message\<rparr>) (\<lambda>p.
       Inr (Some p))))))"

section \<open>What the projection shows\<close>

text \<open>
  The parts of a payload a chat fact may show. Tool names, arguments, results, summaries and
  reject reasons, subagent names, descriptions and error texts are not among them, and neither
  are reasoning and the inner text of subagents.
\<close>

datatype public_part =
    PublicTool string string string
  | PublicSubagent string string string
  | PublicPayload agent_payload
  | PublicNothing

fun public_of :: "agent_payload \<Rightarrow> public_part" where
  "public_of (ToolInvokedP p) = PublicTool (tin_segment_id p) (tin_tool_id p) ''running''"
| "public_of (ToolReturnedP p) = PublicTool (tr_segment_id p) (tr_tool_id p)
     (if tr_is_error p then ''failed'' else ''completed'')"
| "public_of (SubagentStartedP p) = PublicSubagent (sst_segment_id p) (sst_subagent_id p) ''running''"
| "public_of (SubagentFinishedP p) = PublicSubagent (sfin_segment_id p) (sfin_subagent_id p)
     (if sfin_failed p = Some True then ''failed'' else ''completed'')"
| "public_of (ThinkingDeltaP _) = PublicNothing"
| "public_of (ToolOutputDeltaP _) = PublicNothing"
| "public_of (SubagentThinkingDeltaP _) = PublicNothing"
| "public_of (SubagentTextDeltaP _) = PublicNothing"
| "public_of (SubagentTextCompletedP _) = PublicNothing"
| "public_of (SubagentToolInvokedP _) = PublicNothing"
| "public_of (SubagentToolReturnedP _) = PublicNothing"
| "public_of (RunControlReceiptP _) = PublicNothing"
| "public_of p = PublicPayload p"

lemma view_payload_public:
  "public_of p = public_of q \<Longrightarrow>
   view_payload sha uuid t n s r p = view_payload sha uuid t n s r q"
  by (cases p; cases q) (simp_all add: view_payload_def Let_def)

text \<open>C13: The projection is a non-interference boundary: two execution payloads whose public parts
  agree give the same chat fact (or the same error), in every scope. So no tool name, argument,
  result or reject reason, no subagent name, description or error text, and no reasoning or inner
  subagent text can reach a chat fact.\<close>

theorem projection_hides_private_parts:
  assumes "public_of p = public_of q"
  shows "project_chat_fact sha uuid t n s r i c p = project_chat_fact sha uuid t n s r i c q"
  unfolding project_chat_fact_def view_payload_public [OF assms] ..

theorem projection_hides_private_parts_witness:
  "project_chat_fact id id ''t'' ''n'' ''s'' ''r'' 3 (AwareTime 5)
     (ToolInvokedP \<lparr>tin_segment_id = ''g'', tin_tool_id = ''k'', tin_name = ''read_file'', tin_args = [(''path'', JStr ''secret'')]\<rparr>)
   = project_chat_fact id id ''t'' ''n'' ''s'' ''r'' 3 (AwareTime 5)
     (ToolInvokedP \<lparr>tin_segment_id = ''g'', tin_tool_id = ''k'', tin_name = ''ls'', tin_args = []\<rparr>)"
  by (rule projection_hides_private_parts) simp

lemma view_payload_total:
  assumes "payload_ok p" and "\<And>a. p \<noteq> ToolAwaitingApprovalP a"
  obtains v where "view_payload sha uuid t n s r p = Inr v"
    and "\<And>w. v = Some w \<Longrightarrow> vw_type w \<in> set chat_event_types
        \<and> (vw_content w \<noteq> None \<longrightarrow> vw_message_id w \<noteq> None) \<and> vw_message_id w \<noteq> Some []"
proof (cases p)
  case (TodoUpdatedP x)
  with assms(1) show ?thesis
    by (intro that [of "Some \<lparr>vw_type = ''todo.updated'', vw_message_id = None, vw_json = canonical_bytes x, vw_content = None\<rparr>"])
      (auto simp: view_payload_def chat_event_types_def)
qed (use that assms in \<open>auto simp: view_payload_def Let_def plain_view_def activity_view_def
      chat_event_types_def assistant_message_id_def\<close>)

definition fact_fits :: "string \<Rightarrow> string \<Rightarrow> string \<Rightarrow> string \<Rightarrow> int \<Rightarrow> int \<Rightarrow> agent_payload
    \<Rightarrow> chat_projection \<Rightarrow> bool" where
  "fact_fits t n s r i us p x \<longleftrightarrow> chat_event_draft_check (cp_event x) = None \<and> chat_projection_check x = None
     \<and> ce_tenant (cp_event x) = t \<and> ce_namespace (cp_event x) = n \<and> ce_session (cp_event x) = s
     \<and> ce_run (cp_event x) = r \<and> ce_source_index (cp_event x) = i
     \<and> ce_created_at (cp_event x) = us - us mod 1000
     \<and> (cp_message x \<noteq> None \<longleftrightarrow> (\<exists>m. p = MessageCompletedP m))"



section \<open>Failures\<close>

text \<open>
  The exceptions \<open>failure_code\<close> distinguishes. The \<open>retryable\<close> attribute of a resolution
  error is any value, as the code itself checks its type.
\<close>

datatype run_error =
    StaticRecipeError
  | CallInputInvalid
  | CallAuthorizationUnavailable
  | ResolutionError string json
  | BudgetExceeded
  | GraphRecursion
  | OtherError

definition model_failure_codes :: "(string \<times> string) list" where
  "model_failure_codes =
     [(''MODEL_UNAVAILABLE'', ''model_unavailable''),
      (''SYSTEM_UNAVAILABLE'', ''dependency_unavailable''),
      (''MODEL_RESOLUTION_UNAVAILABLE'', ''dependency_unavailable''),
      (''POLICY_DENIED'', ''model_access_denied''),
      (''FORBIDDEN'', ''model_access_denied''),
      (''ROUTE_NOT_FOUND'', ''assembly_failed''),
      (''INVALID_ARGUMENT'', ''assembly_failed''),
      (''service_auth_failed'', ''assembly_failed''),
      (''MODEL_RESOLVER_NOT_CONFIGURED'', ''assembly_failed''),
      (''MODEL_REQUEST_INVALID'', ''assembly_failed''),
      (''MODEL_RESPONSE_INVALID'', ''contract_incompatible''),
      (''MODEL_RESPONSE_TOO_LARGE'', ''contract_incompatible''),
      (''MODEL_RESOLUTION_FAILED'', ''internal_error'')]"

fun failure_code :: "run_error \<Rightarrow> string" where
  "failure_code StaticRecipeError = ''contract_incompatible''"
| "failure_code CallInputInvalid = ''contract_incompatible''"
| "failure_code CallAuthorizationUnavailable = ''dependency_unavailable''"
| "failure_code (ResolutionError code _) =
     (case map_of model_failure_codes code of None \<Rightarrow> ''internal_error'' | Some c \<Rightarrow> c)"
| "failure_code BudgetExceeded = ''token_budget_exceeded''"
| "failure_code GraphRecursion = ''recursion_limit_exceeded''"
| "failure_code OtherError = ''internal_error''"

definition new_run_failed :: "string \<Rightarrow> bool \<Rightarrow> run_failed_payload result" where
  "new_run_failed code retryable = construct
     (\<lambda>p. fail_if (\<not> run_failed_payload_ok p) (ValidationError ''invalid failure code/retryable tuple''))
     \<lparr>rf_code = code, rf_retryable = retryable\<rparr>"

text \<open>\<open>run_failed_payload(error, code=code)\<close>: a typed failure keeps its verified classification.\<close>

definition run_failure :: "run_error \<Rightarrow> string option \<Rightarrow> run_failed_payload result" where
  "run_failure error code = (case error of
      StaticRecipeError \<Rightarrow> new_run_failed ''contract_incompatible'' False
    | CallInputInvalid \<Rightarrow> new_run_failed ''contract_incompatible'' False
    | CallAuthorizationUnavailable \<Rightarrow> new_run_failed ''dependency_unavailable'' False
    | ResolutionError _ flag \<Rightarrow>
        let classified = failure_code error in
        (case flag of
           JBool retryable \<Rightarrow>
             if retryable \<and> classified \<notin> {''model_unavailable'', ''dependency_unavailable'', ''internal_error''}
             then new_run_failed ''contract_incompatible'' False
             else new_run_failed classified
               (classified \<in> {''model_unavailable'', ''dependency_unavailable''} \<and> retryable)
         | _ \<Rightarrow> new_run_failed ''contract_incompatible'' False)
    | _ \<Rightarrow> new_run_failed
        (case code of None \<Rightarrow> failure_code error | Some c \<Rightarrow> if c = [] then failure_code error else c) False)"

lemma failure_code_known: "failure_code e \<in> set run_error_codes"
  by (cases e) (auto simp: run_error_codes_def model_failure_codes_def split: option.splits dest!: map_of_SomeD)

lemma new_run_failed_Inr:
  "c \<in> set run_error_codes \<Longrightarrow> (b \<longrightarrow> c \<in> {''model_unavailable'', ''dependency_unavailable''})
   \<Longrightarrow> new_run_failed c b = Inr \<lparr>rf_code = c, rf_retryable = b\<rparr>"
  by (auto simp: new_run_failed_def run_failed_payload_ok_def)

definition asked_retry :: "run_error \<Rightarrow> bool" where
  "asked_retry e = (case e of ResolutionError _ flag \<Rightarrow> flag = JBool True | _ \<Rightarrow> False)"

text \<open>Building the failure payload of a run never fails: for every execution error, whatever its
  retry flag holds, and every default code of the contract, the result is a payload that passes the
  contract's validator; and it is retryable only when the owner of the model resolution asked for
  a retry of an unavailable model or dependency.\<close>

lemma run_failure_valid:
  assumes "code = None \<or> (\<exists>c. code = Some c \<and> c \<in> set run_error_codes)"
  shows "\<exists>p. run_failure e code = Inr p \<and> run_failed_payload_ok p
    \<and> (rf_retryable p \<longrightarrow> asked_retry e \<and> failure_code e \<in> {''model_unavailable'', ''dependency_unavailable''})"
proof -
  have valid: "\<exists>p. new_run_failed c b = Inr p \<and> run_failed_payload_ok p \<and> rf_code p = c \<and> rf_retryable p = b"
    if "c \<in> set run_error_codes" "b \<longrightarrow> c \<in> {''model_unavailable'', ''dependency_unavailable''}" for c b
    using new_run_failed_Inr [OF that] that by (auto simp: run_failed_payload_ok_def)
  have known: "''contract_incompatible'' \<in> set run_error_codes" "''dependency_unavailable'' \<in> set run_error_codes"
    "(case code of None \<Rightarrow> failure_code e | Some c \<Rightarrow> if c = [] then failure_code e else c) \<in> set run_error_codes"
    using assms failure_code_known [of e] by (auto simp: run_error_codes_def)
  show ?thesis
  proof (cases e)
    case (ResolutionError c flag)
    show ?thesis
    proof (cases "\<exists>b. flag = JBool b")
      case True
      then obtain b where b: "flag = JBool b" by blast
      define k where "k = failure_code e"
      have k: "k \<in> set run_error_codes" unfolding k_def by (rule failure_code_known)
      show ?thesis
      proof (cases "b \<and> k \<notin> {''model_unavailable'', ''dependency_unavailable'', ''internal_error''}")
        case True
        then have "run_failure e code = new_run_failed ''contract_incompatible'' False"
          using ResolutionError b k_def by (simp add: run_failure_def Let_def)
        then show ?thesis using valid [OF known(1), of False] by auto
      next
        case False
        let ?r = "k \<in> {''model_unavailable'', ''dependency_unavailable''} \<and> b"
        from False have "run_failure e code = new_run_failed k ?r"
          using ResolutionError b k_def by (auto simp: run_failure_def Let_def)
        moreover obtain p where "new_run_failed k ?r = Inr p" "run_failed_payload_ok p" "rf_retryable p = ?r"
          using valid [OF k, of ?r] by blast
        moreover have "asked_retry e" if ?r using that ResolutionError b by (simp add: asked_retry_def)
        ultimately show ?thesis using k_def by auto
      qed
    next
      case False
      then have "run_failure e code = new_run_failed ''contract_incompatible'' False"
        using ResolutionError by (cases flag) (simp_all add: run_failure_def)
      then show ?thesis using valid [OF known(1), of False] by auto
    qed
  qed (use valid [OF known(1), of False] valid [OF known(2), of False] valid [OF known(3), of False]
      in \<open>auto simp: run_failure_def\<close>)
qed

lemma run_failure_valid_witness:
  "\<exists>p. run_failure (ResolutionError ''MODEL_RESOLUTION_FAILED'' (JBool True)) (Some ''assembly_failed'') = Inr p
    \<and> run_failed_payload_ok p \<and> \<not> rf_retryable p"
  using run_failure_valid [of "Some ''assembly_failed''" "ResolutionError ''MODEL_RESOLUTION_FAILED'' (JBool True)"]
  by (auto simp: run_error_codes_def model_failure_codes_def)

end
