(* ===== verification/Chat_Store.thy ===== *)
theory Chat_Store
  imports Chat Tables
begin

text \<open>
  The chat repository (\<open>src/kokoro_agent/infrastructure/postgres_chat_repository.py\<close> with the
  tables \<open>kokoro_agent_chat_*\<close> of \<open>database/\<close>): sessions, the append-only event log and the
  message log, each numbered per session by a sequence row. An operation maps the tables to an
  error, which rolls its transaction back, or to its result with the new tables. Advisory locks
  and \<open>FOR UPDATE\<close> make an append atomic, so it is one step.
\<close>

section \<open>Numbered logs\<close>

text \<open>
  A store numbers the entries of each log \<open>k\<close> from a counter. \<open>gap_free\<close>: the numbers of a
  log are 1, 2, ... up to its counter, in the order of insertion.
\<close>

definition gap_free :: "('s \<Rightarrow> 'k \<Rightarrow> int list) \<Rightarrow> ('s \<Rightarrow> 'k \<Rightarrow> int) \<Rightarrow> 's \<Rightarrow> bool" where
  "gap_free seqs counter s \<longleftrightarrow> (\<forall>k. 0 \<le> counter s k \<and> seqs s k = [1..counter s k])"

locale sequenced_log =
  fixes seqs :: "'s \<Rightarrow> 'k \<Rightarrow> int list"
    and counter :: "'s \<Rightarrow> 'k \<Rightarrow> int"
    and step :: "'s \<Rightarrow> 's \<Rightarrow> bool"
  assumes step_extends: "step s s' \<Longrightarrow>
      seqs s' k = seqs s k \<and> counter s' k = counter s k
    \<or> seqs s' k = seqs s k @ [counter s k + 1] \<and> counter s' k = counter s k + 1"
begin

lemma step_gap_free:
  assumes "gap_free seqs counter s" and "step s s'"
  shows "gap_free seqs counter s'"
  unfolding gap_free_def
proof
  fix k
  have s: "0 \<le> counter s k" "seqs s k = [1..counter s k]"
    using assms(1) by (simp_all add: gap_free_def)
  then have "[1..counter s k] @ [counter s k + 1] = [1..counter s k + 1]"
    by (simp add: upto_rec2)
  with step_extends [OF assms(2), of k] s show "0 \<le> counter s' k \<and> seqs s' k = [1..counter s' k]"
    by auto
qed

lemma steps_gap_free: "step\<^sup>*\<^sup>* s s' \<Longrightarrow> gap_free seqs counter s \<Longrightarrow> gap_free seqs counter s'"
  by (induction rule: rtranclp_induct) (auto intro: step_gap_free)

lemma steps_prefix: "step\<^sup>*\<^sup>* s s' \<Longrightarrow> \<exists>xs. seqs s' k = seqs s k @ xs"
proof (induction rule: rtranclp_induct)
  case (step t u)
  then show ?case using step_extends [OF step(2), of k] by auto
qed simp

end

section \<open>Tables\<close>

type_synonym session_key = "string \<times> string \<times> string"
type_synonym event_key = "string \<times> string \<times> string \<times> int"

record chat_db =
  chat_sessions :: "(session_key, chat_session_record) table"
  chat_events :: "(event_key, chat_event_record) table"
  chat_messages :: "(string \<times> string, chat_message_record) table"
  chat_sequences :: "(string \<times> session_key, int) table"

definition empty_chat :: chat_db where
  "empty_chat = \<lparr>chat_sessions = [], chat_events = [], chat_messages = [], chat_sequences = []\<rparr>"

text \<open>\<open>str.isspace\<close> and \<open>str.strip\<close> on code points below 256.\<close>

definition py_space :: "char \<Rightarrow> bool" where
  "py_space c \<longleftrightarrow> (let n = of_char c :: nat in 9 \<le> n \<and> n \<le> 13 \<or> 28 \<le> n \<and> n \<le> 32 \<or> n = 133 \<or> n = 160)"

definition py_strip :: "string \<Rightarrow> string" where
  "py_strip s = rev (dropWhile py_space (rev (dropWhile py_space s)))"

text \<open>\<open>CHECK (btrim(tenant_id) <> '')\<close>.\<close>

definition btrim_empty :: "string \<Rightarrow> bool" where
  "btrim_empty s \<longleftrightarrow> list_all (\<lambda>c. c = CHR '' '') s"

definition validate_scope :: "string \<Rightarrow> string \<Rightarrow> string option \<Rightarrow> exn option" where
  "validate_scope tenant_id namespace resource_id = first_error
     [fail_if (py_strip tenant_id = [] \<or> py_strip namespace = []) (ValueError ''tenant_id and namespace are required''),
      (case resource_id of None \<Rightarrow> None
       | Some r \<Rightarrow> fail_if (py_strip r = []) (ValueError ''resource identifier is required''))]"

definition validate_page :: "int \<Rightarrow> int \<Rightarrow> exn option" where
  "validate_page after_seq limit = first_error
     [fail_if (after_seq < 0) (ValueError ''after_seq must be non-negative''),
      fail_if (limit \<le> 0 \<or> 1000 < limit) (ValueError ''limit must be between 1 and 1000'')]"

definition validate_projection :: "chat_projection \<Rightarrow> exn option" where
  "validate_projection p = (case cp_message p of None \<Rightarrow> None | Some m \<Rightarrow>
     fail_if (ce_message_id (cp_event p) \<noteq> Some (cm_id m) \<or> ce_tenant (cp_event p) \<noteq> cm_tenant m
              \<or> ce_namespace (cp_event p) \<noteq> cm_namespace m \<or> ce_session (cp_event p) \<noteq> cm_session m
              \<or> ce_run (cp_event p) \<noteq> cm_run m)
       (ValueError ''chat projection event and message scope must match''))"

text \<open>A guard statement: raise the error of a validation, else go on.\<close>

definition guard_r :: "exn option \<Rightarrow> 'a result \<Rightarrow> 'a result" where
  "guard_r c m = (case c of Some e \<Rightarrow> Inl e | None \<Rightarrow> m)"

lemma guard_r_eq_Inr [simp, result_simps]: "guard_r c m = Inr y \<longleftrightarrow> c = None \<and> m = Inr y"
  by (auto simp: guard_r_def split: option.splits)

lemma guard_r_None [simp]: "guard_r None m = m"
  by (simp add: guard_r_def)

section \<open>Sessions\<close>

definition session_update :: "chat_db \<Rightarrow> session_key \<Rightarrow> int \<Rightarrow> (chat_session_record \<times> chat_db) result" where
  "session_update db k t =
     (let sessions = update_at k (\<lambda>r. r\<lparr>cs_updated_at := max (cs_updated_at r) t\<rparr>) (chat_sessions db) in
      case map_of sessions k of
        None \<Rightarrow> Inl (RuntimeError ''chat session update returned no row'')
      | Some r \<Rightarrow> Inr (r, db\<lparr>chat_sessions := sessions\<rparr>))"

text \<open>
  \<open>ensure_session\<close> runs its statements without a surrounding transaction: \<open>other\<close> is what
  other writers commit between its first SELECT and the statement that follows.
\<close>

definition ensure_session ::
  "(chat_db \<Rightarrow> chat_db) \<Rightarrow> string \<Rightarrow> string \<Rightarrow> string \<Rightarrow> string option \<Rightarrow> string \<Rightarrow> datetime \<Rightarrow> chat_db
    \<Rightarrow> (chat_session_record \<times> chat_db) result" where
  "ensure_session other tenant_id namespace session_id project_ref title updated_at db =
     guard_r (validate_scope tenant_id namespace (Some session_id))
    (guard_r (fail_if (py_strip title = []) (ValueError ''title is required''))
    (guard_r (case project_ref of None \<Rightarrow> None
        | Some p \<Rightarrow> fail_if (py_strip p = []) (ValueError ''project_ref must be non-empty when provided''))
    (bind_r (normalize_utc_datetime updated_at) (\<lambda>t.
     let k = (tenant_id, namespace, session_id); now = other db in
     case map_of (chat_sessions db) k of
       Some existing \<Rightarrow>
         if cs_project_ref existing \<noteq> project_ref then Inl ChatIdentityConflict
         else session_update now k t
     | None \<Rightarrow>
         if btrim_empty tenant_id then Inl CheckViolation
         else case map_of (chat_sessions now) k of
           None \<Rightarrow>
             let r = \<lparr>cs_tenant = tenant_id, cs_namespace = namespace, cs_session = session_id,
                  cs_project_ref = project_ref, cs_title = take 80 (py_strip title),
                  cs_created_at = t, cs_updated_at = t\<rparr> in
             Inr (r, now\<lparr>chat_sessions := insert_new k r (chat_sessions now)\<rparr>)
         | Some raced \<Rightarrow>
             if cs_project_ref raced \<noteq> project_ref then Inl ChatIdentityConflict
             else Inr (raced, now)))))"

definition session_before :: "chat_session_record \<Rightarrow> chat_session_record \<Rightarrow> bool" where
  "session_before a b \<longleftrightarrow> cs_updated_at b < cs_updated_at a
     \<or> cs_updated_at a = cs_updated_at b \<and> cs_session a \<le> cs_session b"

definition list_sessions ::
  "string \<Rightarrow> string \<Rightarrow> string option \<Rightarrow> (datetime \<times> string) option \<Rightarrow> int \<Rightarrow> chat_db
    \<Rightarrow> chat_session_record list result" where
  "list_sessions tenant_id namespace project_ref after limit db =
     guard_r (validate_scope tenant_id namespace None)
    (guard_r (case project_ref of None \<Rightarrow> None
        | Some p \<Rightarrow> fail_if (py_strip p = []) (ValueError ''project_ref must be non-empty when provided''))
    (guard_r (fail_if (limit \<le> 0 \<or> 1001 < limit) (ValueError ''limit must be between 1 and 1001''))
    (bind_r (case after of None \<Rightarrow> Inr None | Some (d, s) \<Rightarrow>
        if py_strip s = [] then Inl (ValueError ''after cursor is invalid'')
        else bind_r (normalize_utc_datetime d) (\<lambda>t. Inr (Some (t, s)))) (\<lambda>cursor.
     let rows = filter (\<lambda>r. cs_tenant r = tenant_id \<and> cs_namespace r = namespace
            \<and> (project_ref = None \<or> cs_project_ref r = project_ref)
            \<and> (case cursor of None \<Rightarrow> True
               | Some (t, s) \<Rightarrow> cs_updated_at r < t \<or> cs_updated_at r = t \<and> s < cs_session r))
          (map snd (chat_sessions db)) in
     Inr (take (nat limit) (sort_key (\<lambda>r. (- cs_updated_at r, cs_session r)) rows))))))"

section \<open>Appending\<close>

definition next_seq :: "string \<Rightarrow> session_key \<Rightarrow> chat_db \<Rightarrow> (int \<times> chat_db) result" where
  "next_seq kind k db =
     (if btrim_empty (fst k) then Inl CheckViolation
      else let t = insert_new (kind, k) 0 (chat_sequences db) in
        case map_of t (kind, k) of
          None \<Rightarrow> Inl (RuntimeError ''failed to lock sequence'')
        | Some n \<Rightarrow> let seq = n + 1 in
            Inr (seq, db\<lparr>chat_sequences := update_at (kind, k) (\<lambda>_. seq) t\<rparr>))"

definition get_message :: "chat_db \<Rightarrow> string \<Rightarrow> string \<Rightarrow> chat_message_record option" where
  "get_message db tenant_id message_id = map_of (chat_messages db) (tenant_id, message_id)"

definition get_event :: "chat_db \<Rightarrow> string \<Rightarrow> string \<Rightarrow> string \<Rightarrow> int \<Rightarrow> chat_event_record option" where
  "get_event db tenant_id namespace run_id source_index =
     map_of (chat_events db) (tenant_id, namespace, run_id, source_index)"

definition same_message :: "chat_message_record \<Rightarrow> chat_message_draft \<Rightarrow> bool" where
  "same_message rec draft \<longleftrightarrow>
     chat_message_draft.truncate rec = draft\<lparr>cm_created_at := cm_created_at rec, cm_updated_at := cm_updated_at rec\<rparr>"

definition message_session :: "'a chat_message_draft_scheme \<Rightarrow> session_key" where
  "message_session m = (cm_tenant m, cm_namespace m, cm_session m)"

definition event_session :: "'a chat_event_draft_scheme \<Rightarrow> session_key" where
  "event_session e = (ce_tenant e, ce_namespace e, ce_session e)"

definition event_key :: "'a chat_event_draft_scheme \<Rightarrow> event_key" where
  "event_key e = (ce_tenant e, ce_namespace e, ce_run e, ce_source_index e)"

text \<open>\<open>INSERT\<close> with the unique constraints of the two logs.\<close>

definition insert_message :: "chat_message_record \<Rightarrow> chat_db \<Rightarrow> chat_db result" where
  "insert_message r db =
     (if list_ex (\<lambda>(k, o'). k = (cm_tenant r, cm_id r)
            \<or> message_session o' = message_session r \<and> cm_seq o' = cm_seq r) (chat_messages db)
      then Inl UniqueViolation
      else Inr (db\<lparr>chat_messages := chat_messages db @ [((cm_tenant r, cm_id r), r)]\<rparr>))"

definition insert_event :: "chat_event_record \<Rightarrow> chat_db \<Rightarrow> chat_db result" where
  "insert_event r db =
     (if list_ex (\<lambda>(k, o'). k = event_key r
            \<or> ce_tenant o' = ce_tenant r \<and> ce_id o' = ce_id r
            \<or> event_session o' = event_session r \<and> ce_seq o' = ce_seq r) (chat_events db)
      then Inl UniqueViolation
      else Inr (db\<lparr>chat_events := chat_events db @ [(event_key r, r)]\<rparr>))"

definition save_message :: "chat_message_draft \<Rightarrow> chat_db \<Rightarrow> (chat_message_record \<times> chat_db) result" where
  "save_message m db =
     (case get_message db (cm_tenant m) (cm_id m) of
        Some existing \<Rightarrow>
          if same_message existing m then Inr (existing, db) else Inl ChatIdentityConflict
      | None \<Rightarrow>
          bind_r (next_seq ''message'' (message_session m) db) (\<lambda>(seq, db).
          let r = chat_message_draft.extend m (chat_message_record.fields seq) in
          bind_r (insert_message r db) (\<lambda>db. Inr (r, db))))"

definition append_projection ::
  "(string \<Rightarrow> string) \<Rightarrow> chat_projection \<Rightarrow> chat_db \<Rightarrow> (chat_event_record \<times> chat_db) result" where
  "append_projection uuid5_hex projection db =
     guard_r (validate_projection projection)
    (let draft = cp_event projection in
     bind_r (case get_event db (ce_tenant draft) (ce_namespace draft) (ce_run draft) (ce_source_index draft) of
         Some existing \<Rightarrow>
           if chat_event_draft.truncate existing = draft then Inr (existing, db)
           else Inl ChatIdentityConflict
       | None \<Rightarrow>
           bind_r (next_seq ''event'' (event_session draft) db) (\<lambda>(seq, db).
           let r = chat_event_draft.extend draft (chat_event_record.fields
                 (chat_event_id uuid5_hex (ce_namespace draft) (ce_run draft) (ce_source_index draft)) seq) in
           bind_r (insert_event r db) (\<lambda>db. Inr (r, db)))) (\<lambda>(r, db).
     case cp_message projection of
       None \<Rightarrow> Inr (r, db)
     | Some m \<Rightarrow> bind_r (save_message m db) (\<lambda>(_, db). Inr (r, db))))"

section \<open>Reading\<close>

definition replay :: "string \<Rightarrow> string \<Rightarrow> string \<Rightarrow> int \<Rightarrow> int \<Rightarrow> chat_db \<Rightarrow> chat_event_record list result" where
  "replay tenant_id namespace session_id after_seq limit db =
     guard_r (validate_scope tenant_id namespace (Some session_id))
    (guard_r (validate_page after_seq limit)
    (Inr (take (nat limit) (sort_key ce_seq (filter
       (\<lambda>r. event_session r = (tenant_id, namespace, session_id) \<and> after_seq < ce_seq r)
       (map snd (chat_events db)))))))"

definition history :: "string \<Rightarrow> string \<Rightarrow> string \<Rightarrow> int \<Rightarrow> int \<Rightarrow> chat_db \<Rightarrow> chat_message_record list result" where
  "history tenant_id namespace session_id after_seq limit db =
     guard_r (validate_scope tenant_id namespace (Some session_id))
    (guard_r (validate_page after_seq limit)
    (Inr (take (nat limit) (sort_key cm_seq (filter
       (\<lambda>r. message_session r = (tenant_id, namespace, session_id) \<and> after_seq < cm_seq r)
       (map snd (chat_messages db)))))))"

text \<open>\<open>SELECT max(...)\<close> is NULL on no rows.\<close>

definition sql_max :: "int list \<Rightarrow> int option" where
  "sql_max xs = (case xs of [] \<Rightarrow> None | y # ys \<Rightarrow> Some (fold max ys y))"

definition next_source_index :: "string \<Rightarrow> string \<Rightarrow> string \<Rightarrow> chat_db \<Rightarrow> int result" where
  "next_source_index tenant_id namespace run_id db =
     guard_r (validate_scope tenant_id namespace (Some run_id))
    (Inr (case sql_max (map ce_source_index (filter
         (\<lambda>r. ce_tenant r = tenant_id \<and> ce_namespace r = namespace \<and> ce_run r = run_id)
         (map snd (chat_events db)))) of None \<Rightarrow> 0 | Some n \<Rightarrow> n + 1))"

definition watermark :: "string \<Rightarrow> string \<Rightarrow> string \<Rightarrow> chat_db \<Rightarrow> int result" where
  "watermark tenant_id namespace session_id db =
     guard_r (validate_scope tenant_id namespace (Some session_id))
    (Inr (case sql_max (map ce_seq (filter
         (\<lambda>r. event_session r = (tenant_id, namespace, session_id)) (map snd (chat_events db)))) of
        None \<Rightarrow> 0 | Some n \<Rightarrow> n))"

section \<open>Effects of the operations\<close>

definition event_seqs :: "chat_db \<Rightarrow> session_key \<Rightarrow> int list" where
  "event_seqs db k = map ce_seq (filter (\<lambda>r. event_session r = k) (map snd (chat_events db)))"

definition message_seqs :: "chat_db \<Rightarrow> session_key \<Rightarrow> int list" where
  "message_seqs db k = map cm_seq (filter (\<lambda>r. message_session r = k) (map snd (chat_messages db)))"

definition seq_value :: "string \<Rightarrow> chat_db \<Rightarrow> session_key \<Rightarrow> int" where
  "seq_value kind db k = (case map_of (chat_sequences db) (kind, k) of None \<Rightarrow> 0 | Some n \<Rightarrow> n)"

lemma next_seq_effect:
  assumes "next_seq kind k db = Inr (n, db')"
  shows "n = seq_value kind db k + 1" and "chat_events db' = chat_events db"
    and "chat_messages db' = chat_messages db" and "chat_sessions db' = chat_sessions db"
    and "seq_value kind' db' k' = (if kind' = kind \<and> k' = k then n else seq_value kind' db k')"
  using assms by (auto simp: next_seq_def Let_def seq_value_def split: if_splits option.splits)

lemma truncate_extend [simp]:
  "chat_event_draft.truncate (chat_event_draft.extend d x) = d"
  "chat_message_draft.truncate (chat_message_draft.extend m y) = m"
  by (simp_all add: chat_event_draft.defs chat_message_draft.defs)

lemma extend_fields [simp]:
  "ce_seq (chat_event_draft.extend d (chat_event_record.fields i n)) = n"
  "ce_id (chat_event_draft.extend d (chat_event_record.fields i n)) = i"
  "event_session (chat_event_draft.extend d e) = event_session d"
  "event_key (chat_event_draft.extend d e) = event_key d"
  "cm_seq (chat_message_draft.extend m (chat_message_record.fields n)) = n"
  "message_session (chat_message_draft.extend m y) = message_session m"
  "cm_tenant (chat_message_draft.extend m y) = cm_tenant m"
  "cm_id (chat_message_draft.extend m y) = cm_id m"
  "cm_created_at (chat_message_draft.extend m y) = cm_created_at m"
  "cm_updated_at (chat_message_draft.extend m y) = cm_updated_at m"
  by (simp_all add: chat_event_draft.defs chat_event_record.defs chat_message_draft.defs
      chat_message_record.defs event_session_def event_key_def message_session_def)

lemma same_message_extend [simp]: "same_message (chat_message_draft.extend m y) m"
  by (simp add: same_message_def)

lemma insert_event_effect:
  "insert_event r db = Inr db' \<Longrightarrow> db' = db\<lparr>chat_events := chat_events db @ [(event_key r, r)]\<rparr>"
  by (auto simp: insert_event_def split: if_splits)

lemma insert_message_effect:
  "insert_message r db = Inr db' \<Longrightarrow> db' = db\<lparr>chat_messages := chat_messages db @ [((cm_tenant r, cm_id r), r)]\<rparr>"
  by (auto simp: insert_message_def split: if_splits)

text \<open>\<open>_save_message\<close> either finds the message or numbers and stores it.\<close>

lemma save_message_cases:
  assumes "save_message m db = Inr (r, db')"
  obtains (found) "get_message db (cm_tenant m) (cm_id m) = Some r" and "same_message r m" and "db' = db"
  | (stored) n db1 where "get_message db (cm_tenant m) (cm_id m) = None"
      and "next_seq ''message'' (message_session m) db = Inr (n, db1)"
      and "r = chat_message_draft.extend m (chat_message_record.fields n)"
      and "db' = db1\<lparr>chat_messages := chat_messages db1 @ [((cm_tenant m, cm_id m), r)]\<rparr>"
  using assms
  by (auto simp: save_message_def Let_def dest!: insert_message_effect split: option.splits if_splits)

lemma append_cases:
  assumes "append_projection u p db = Inr (r, db')"
  obtains (found) "get_event db (ce_tenant (cp_event p)) (ce_namespace (cp_event p)) (ce_run (cp_event p))
        (ce_source_index (cp_event p)) = Some r"
      and "chat_event_draft.truncate r = cp_event p"
      and "validate_projection p = None"
      and "case cp_message p of None \<Rightarrow> db' = db | Some m \<Rightarrow> \<exists>mr. save_message m db = Inr (mr, db')"
  | (stored) n db1 db2 where "get_event db (ce_tenant (cp_event p)) (ce_namespace (cp_event p)) (ce_run (cp_event p))
        (ce_source_index (cp_event p)) = None"
      and "next_seq ''event'' (event_session (cp_event p)) db = Inr (n, db1)"
      and "r = chat_event_draft.extend (cp_event p) (chat_event_record.fields
            (chat_event_id u (ce_namespace (cp_event p)) (ce_run (cp_event p)) (ce_source_index (cp_event p))) n)"
      and "db2 = db1\<lparr>chat_events := chat_events db1 @ [(event_key (cp_event p), r)]\<rparr>"
      and "validate_projection p = None"
      and "case cp_message p of None \<Rightarrow> db' = db2 | Some m \<Rightarrow> \<exists>mr. save_message m db2 = Inr (mr, db')"
proof -
  let ?d = "cp_event p"
  let ?g = "get_event db (ce_tenant ?d) (ce_namespace ?d) (ce_run ?d) (ce_source_index ?d)"
  let ?tail = "\<lambda>db0. case cp_message p of None \<Rightarrow> db' = db0 | Some m \<Rightarrow> \<exists>mr. save_message m db0 = Inr (mr, db')"
  have v: "validate_projection p = None" using assms by (simp add: append_projection_def)
  show ?thesis
  proof (cases ?g)
    case (Some e)
    with assms have "e = r" "chat_event_draft.truncate r = ?d" "?tail db"
      by (auto simp: append_projection_def Let_def split: if_splits option.splits)
    with Some v found show ?thesis by simp
  next
    case None
    with assms obtain n db1 db2 where n: "next_seq ''event'' (event_session ?d) db = Inr (n, db1)"
      and i: "insert_event (chat_event_draft.extend ?d (chat_event_record.fields
            (chat_event_id u (ce_namespace ?d) (ce_run ?d) (ce_source_index ?d)) n)) db1 = Inr db2"
      and r: "r = chat_event_draft.extend ?d (chat_event_record.fields
            (chat_event_id u (ce_namespace ?d) (ce_run ?d) (ce_source_index ?d)) n)"
      and t: "?tail db2"
      by (auto simp: append_projection_def Let_def split: option.splits)
    from insert_event_effect [OF i] r have "db2 = db1\<lparr>chat_events := chat_events db1 @ [(event_key ?d, r)]\<rparr>" by simp
    with None n r v t stored show ?thesis by blast
  qed
qed

lemma ensure_session_effect:
  assumes "ensure_session (\<lambda>_. mid) t n s p title d before = Inr (r, db')"
  shows "chat_events db' = chat_events mid" and "chat_messages db' = chat_messages mid"
    and "chat_sequences db' = chat_sequences mid"
  using assms
  by (auto simp: ensure_session_def session_update_def Let_def split: option.splits if_splits)

text \<open>
  One committed operation on the chat tables. The session statement may act on a state other
  than the one its first SELECT saw.
\<close>

inductive chat_step :: "(string \<Rightarrow> string) \<Rightarrow> chat_db \<Rightarrow> chat_db \<Rightarrow> bool" for uuid5_hex where
  step_append: "append_projection uuid5_hex p db = Inr (r, db') \<Longrightarrow> chat_step uuid5_hex db db'"
| step_save: "save_message m db = Inr (r, db') \<Longrightarrow> chat_step uuid5_hex db db'"
| step_session: "ensure_session (\<lambda>_. mid) t n s p title d before = Inr (r, db') \<Longrightarrow> chat_step uuid5_hex mid db'"

text \<open>One entry of a numbered log is added or none.\<close>

definition log_extends :: "('s \<Rightarrow> 'k \<Rightarrow> int list) \<Rightarrow> ('s \<Rightarrow> 'k \<Rightarrow> int) \<Rightarrow> 's \<Rightarrow> 's \<Rightarrow> 'k \<Rightarrow> bool" where
  "log_extends seqs counter s s' k \<longleftrightarrow>
     seqs s' k = seqs s k \<and> counter s' k = counter s k
   \<or> seqs s' k = seqs s k @ [counter s k + 1] \<and> counter s' k = counter s k + 1"

definition log_same :: "('s \<Rightarrow> 'k \<Rightarrow> int list) \<Rightarrow> ('s \<Rightarrow> 'k \<Rightarrow> int) \<Rightarrow> 's \<Rightarrow> 's \<Rightarrow> 'k \<Rightarrow> bool" where
  "log_same seqs counter s s' k \<longleftrightarrow> seqs s' k = seqs s k \<and> counter s' k = counter s k"

lemma save_message_logs:
  assumes "save_message m db = Inr (r, db')"
  shows "log_same event_seqs (seq_value ''event'') db db' k
    \<and> log_extends message_seqs (seq_value ''message'') db db' k"
  using assms
proof (cases rule: save_message_cases)
  case found
  then show ?thesis by (simp add: log_same_def log_extends_def)
next
  case (stored n db1)
  note eff = next_seq_effect [OF stored(2)]
  have s: "seq_value kind db' k = seq_value kind db1 k" for kind using stored(4) by (simp add: seq_value_def)
  have "event_seqs db' k = event_seqs db k" using stored eff by (simp add: event_seqs_def)
  moreover have "log_extends message_seqs (seq_value ''message'') db db' k"
    using stored eff(1) eff(3) eff(5) [of "''message''" k] s [of "''message''"]
    by (auto simp: message_seqs_def log_extends_def)
  ultimately show ?thesis using s [of "''event''"] eff(5) [of "''event''" k] by (simp add: log_same_def)
qed

lemma save_tail_logs:
  assumes "case mo of None \<Rightarrow> db' = db | Some m \<Rightarrow> \<exists>r. save_message m db = Inr (r, db')"
  shows "log_same event_seqs (seq_value ''event'') db db' k
    \<and> log_extends message_seqs (seq_value ''message'') db db' k"
proof (cases mo)
  case None
  with assms show ?thesis by (simp add: log_same_def log_extends_def)
next
  case (Some m)
  with assms obtain r where "save_message m db = Inr (r, db')" by auto
  then show ?thesis by (rule save_message_logs)
qed

lemma append_logs:
  assumes "append_projection u p db = Inr (r, db')"
  shows "log_extends event_seqs (seq_value ''event'') db db' k
    \<and> log_extends message_seqs (seq_value ''message'') db db' k"
  using assms
proof (cases rule: append_cases)
  case found
  from save_tail_logs [OF found(4), of k] show ?thesis by (auto simp: log_same_def log_extends_def)
next
  case (stored n db1 db2)
  note eff = next_seq_effect [OF stored(2)]
  have s: "seq_value kind db2 k = seq_value kind db1 k" for kind using stored(4) by (simp add: seq_value_def)
  have e: "event_session r = event_session (cp_event p)" "ce_seq r = n" using stored(3) by simp_all
  have "log_extends event_seqs (seq_value ''event'') db db2 k"
    using stored(4) e eff(1) eff(2) eff(5) [of "''event''" k] s [of "''event''"]
    by (auto simp: event_seqs_def log_extends_def)
  moreover have "log_same message_seqs (seq_value ''message'') db db2 k"
    using stored(4) eff(3) eff(5) [of "''message''" k] s [of "''message''"]
    by (simp add: message_seqs_def log_same_def)
  ultimately show ?thesis
    using save_tail_logs [OF stored(6), of k] by (auto simp: log_same_def log_extends_def)
qed

lemma chat_step_logs:
  assumes "chat_step u db db'"
  shows "log_extends event_seqs (seq_value ''event'') db db' k
    \<and> log_extends message_seqs (seq_value ''message'') db db' k"
  using assms
proof cases
  case (step_append p r)
  then show ?thesis by (rule append_logs)
next
  case (step_save m r)
  from save_message_logs [OF this, of k] show ?thesis by (auto simp: log_same_def log_extends_def)
next
  case (step_session t n s p title d before r)
  from ensure_session_effect [OF this] show ?thesis
    by (simp add: log_extends_def event_seqs_def message_seqs_def seq_value_def)
qed

interpretation event_log: sequenced_log event_seqs "seq_value ''event''" "chat_step u" for u
proof unfold_locales
  fix s s' k assume "chat_step u s s'"
  from chat_step_logs [OF this, of k]
  show "event_seqs s' k = event_seqs s k \<and> seq_value ''event'' s' k = seq_value ''event'' s k
    \<or> event_seqs s' k = event_seqs s k @ [seq_value ''event'' s k + 1]
      \<and> seq_value ''event'' s' k = seq_value ''event'' s k + 1"
    by (simp add: log_extends_def)
qed

interpretation message_log: sequenced_log message_seqs "seq_value ''message''" "chat_step u" for u
proof unfold_locales
  fix s s' k assume "chat_step u s s'"
  from chat_step_logs [OF this, of k]
  show "message_seqs s' k = message_seqs s k \<and> seq_value ''message'' s' k = seq_value ''message'' s k
    \<or> message_seqs s' k = message_seqs s k @ [seq_value ''message'' s k + 1]
      \<and> seq_value ''message'' s' k = seq_value ''message'' s k + 1"
    by (simp add: log_extends_def)
qed

lemma empty_chat_gap_free:
  "gap_free event_seqs (seq_value kind) empty_chat" "gap_free message_seqs (seq_value kind) empty_chat"
  by (simp_all add: gap_free_def event_seqs_def message_seqs_def seq_value_def empty_chat_def)

section \<open>Properties\<close>

text \<open>C15: Chat logs have no gaps: after any sequence of committed operations (appends with their
  messages, message saves, session upserts racing with each other) the events of every session are
  numbered 1, 2, ..., n in the order they were stored, n being the value of its sequence row, and
  so are its messages.\<close>

theorem chat_logs_gap_free:
  assumes "(chat_step u)\<^sup>*\<^sup>* empty_chat db"
  shows "gap_free event_seqs (seq_value ''event'') db \<and> gap_free message_seqs (seq_value ''message'') db"
  using event_log.steps_gap_free [OF assms empty_chat_gap_free(1)]
    message_log.steps_gap_free [OF assms empty_chat_gap_free(2)] ..

lemma map_of_append_fresh: "map_of t k = None \<Longrightarrow> map_of (t @ [(k, v)]) k = Some v"
  by (simp add: map_add_def)

lemma save_message_again:
  assumes "save_message m db = Inr (r, db')"
  shows "save_message m db' = Inr (r, db')"
  using assms
proof (cases rule: save_message_cases)
  case found
  then show ?thesis by (simp add: save_message_def)
next
  case (stored n db1)
  from stored(1) next_seq_effect(3) [OF stored(2)]
  have "map_of (chat_messages db1) (cm_tenant m, cm_id m) = None" by (simp add: get_message_def)
  from map_of_append_fresh [OF this, of r] have "get_message db' (cm_tenant m) (cm_id m) = Some r"
    using stored(4) by (simp add: get_message_def del: map_of_append)
  then show ?thesis using stored(3) by (simp add: save_message_def)
qed

lemma save_tail_events:
  assumes "case mo of None \<Rightarrow> db' = db | Some m \<Rightarrow> \<exists>r. save_message m db = Inr (r, db')"
  shows "chat_events db' = chat_events db"
proof (cases mo)
  case (Some m)
  with assms obtain r where "save_message m db = Inr (r, db')" by auto
  then show ?thesis
    by (cases rule: save_message_cases) (auto dest: next_seq_effect(2))
qed (use assms in simp)

text \<open>C16: Appending a fact is idempotent: repeating a successful append, message included, returns
  the stored record with its original number and changes nothing.\<close>

theorem append_idempotent:
  assumes "append_projection u p db = Inr (r, db')"
  shows "append_projection u p db' = Inr (r, db')"
proof -
  let ?d = "cp_event p"
  let ?tail = "\<lambda>db0. case cp_message p of None \<Rightarrow> db' = db0 | Some m \<Rightarrow> \<exists>mr. save_message m db0 = Inr (mr, db')"
  have "validate_projection p = None \<and> chat_event_draft.truncate r = ?d
      \<and> get_event db' (ce_tenant ?d) (ce_namespace ?d) (ce_run ?d) (ce_source_index ?d) = Some r
      \<and> (\<exists>db0. ?tail db0)"
    using assms
  proof (cases rule: append_cases)
    case found
    with save_tail_events [OF found(4)] show ?thesis
      by (auto simp: get_event_def)
  next
    case (stored n db1 db2)
    from stored(1) next_seq_effect(2) [OF stored(2)]
    have "map_of (chat_events db1) (event_key ?d) = None" by (simp add: get_event_def event_key_def)
    from map_of_append_fresh [OF this, of r] have "map_of (chat_events db2) (event_key ?d) = Some r"
      using stored(4) by (simp del: map_of_append)
    then have "map_of (chat_events db') (event_key ?d) = Some r" using save_tail_events [OF stored(6)] by simp
    with stored show ?thesis
      by (auto simp: get_event_def event_key_def)
  qed
  then show ?thesis
    using save_message_again by (auto simp: append_projection_def Let_def split: option.splits)
qed

text \<open>Both logs only grow.\<close>

lemma save_message_grows:
  assumes "save_message m db = Inr (r, db')"
  shows "\<exists>ys. chat_events db' = chat_events db \<and> chat_messages db' = chat_messages db @ ys"
  using assms
proof (cases rule: save_message_cases)
  case (stored n db1)
  with next_seq_effect(2,3) [OF stored(2)] show ?thesis by auto
qed simp

lemma chat_step_grows:
  assumes "chat_step u db db'"
  shows "\<exists>xs ys. chat_events db' = chat_events db @ xs \<and> chat_messages db' = chat_messages db @ ys"
  using assms
proof cases
  case (step_append p r)
  from this show ?thesis
  proof (cases rule: append_cases)
    case found
    then show ?thesis by (auto dest: save_message_grows split: option.splits)
  next
    case (stored n db1 db2)
    from stored(6) have "\<exists>ys. chat_events db' = chat_events db2 \<and> chat_messages db' = chat_messages db2 @ ys"
      by (auto dest: save_message_grows split: option.splits)
    with stored(4) next_seq_effect(2,3) [OF stored(2)] show ?thesis by auto
  qed
next
  case (step_save m r)
  from save_message_grows [OF this] show ?thesis by auto
next
  case (step_session t n s p title d before r)
  from ensure_session_effect [OF this] show ?thesis by auto
qed

text \<open>C17: A stored chat fact is final: whatever operations follow, in any number and interleaving, the
  event stored at a run's source index and the message stored under an id are read back unchanged.\<close>

theorem chat_facts_final:
  assumes "(chat_step u)\<^sup>*\<^sup>* db db'"
  shows "(get_event db t n r i = Some e \<longrightarrow> get_event db' t n r i = Some e)
    \<and> (get_message db t m = Some x \<longrightarrow> get_message db' t m = Some x)"
  using assms
proof (induction rule: rtranclp_induct)
  case (step db1 db2)
  from chat_step_grows [OF step(2)] step(3) show ?case
    by (auto simp: get_event_def get_message_def map_add_def split: option.splits)
qed simp

lemma filter_upto: "0 \<le> a \<Longrightarrow> filter (\<lambda>x. a < x) [1..c] = [a + 1..c]"
  by (rule sorted_distinct_set_unique) (auto simp: sorted_wrt_filter)

lemma take_upto: "take (nat l) [a..c] = [a..min c (a + l - 1)]"
proof (rule nth_equalityI)
  show "length (take (nat l) [a..c]) = length [a..min c (a + l - 1)]" by auto
  fix i assume "i < length (take (nat l) [a..c])"
  then have "int i < l" and "a + int i \<le> c" by auto
  then show "take (nat l) [a..c] ! i = [a..min c (a + l - 1)] ! i" by simp
qed

lemma fold_max_upto: "fold max [a..c] b = (if a \<le> c then max b c else b)" for a b c :: int
proof (induction "nat (c - a + 1)" arbitrary: a b)
  case 0
  then show ?case by simp
next
  case (Suc n)
  then have "a \<le> c" by simp
  moreover have "n = nat (c - (a + 1) + 1)" using Suc.hyps(2) by simp
  ultimately show ?case using Suc.hyps(1) [of "a + 1" "max a b"] by (auto simp: upto_rec1 max_def)
qed

lemma sql_max_upto: "0 \<le> c \<Longrightarrow> (case sql_max [1..c] of None \<Rightarrow> 0 | Some n \<Rightarrow> n) = c"
  by (cases "1 \<le> c") (auto simp: sql_max_def upto_rec1 fold_max_upto)

lemma watermark_counter:
  assumes "gap_free event_seqs (seq_value ''event'') db" and "watermark t n s db = Inr w"
  shows "w = seq_value ''event'' db (t, n, s)"
proof -
  have "0 \<le> seq_value ''event'' db (t, n, s)" and e: "event_seqs db (t, n, s) = [1..seq_value ''event'' db (t, n, s)]"
    using assms(1) by (simp_all add: gap_free_def)
  from sql_max_upto [OF this(1)] e assms(2) show ?thesis
    by (simp add: watermark_def event_seqs_def)
qed

text \<open>A page after \<open>after\<close> holds exactly the session's next events up to the limit or the counter.\<close>

lemma replay_page:
  assumes gap: "gap_free event_seqs (seq_value ''event'') db" and page: "replay t n s after limit db = Inr rs"
  shows "map ce_seq rs = [after + 1..min (seq_value ''event'' db (t, n, s)) (after + limit)]
    \<and> (\<forall>r \<in> set rs. r \<in> set (map snd (chat_events db)) \<and> event_session r = (t, n, s))"
proof -
  let ?k = "(t, n, s)"
  have nonneg: "0 \<le> after" and
    rs: "rs = take (nat limit) (sort_key ce_seq (filter (\<lambda>r. event_session r = ?k \<and> after < ce_seq r)
      (map snd (chat_events db))))"
    using page by (auto simp: replay_def validate_page_def)
  have mem: "r \<in> set (map snd (chat_events db)) \<and> event_session r = ?k" if "r \<in> set rs" for r
    using set_take_subset [of "nat limit"] that unfolding rs by fastforce
  let ?sel = "filter (\<lambda>r. event_session r = ?k \<and> after < ce_seq r) (map snd (chat_events db))"
  have "map ce_seq ?sel = filter (\<lambda>x. after < x) (event_seqs db ?k)"
    by (simp add: event_seqs_def filter_map comp_def conj_commute)
  also have "\<dots> = [after + 1..seq_value ''event'' db ?k]"
    using gap nonneg by (simp add: gap_free_def filter_upto)
  finally have sel: "map ce_seq ?sel = [after + 1..seq_value ''event'' db ?k]" .
  then have "sort_key ce_seq ?sel = ?sel" by (intro sort_key_id_if_sorted) simp
  then have "map ce_seq rs = take (nat limit) [after + 1..seq_value ''event'' db ?k]"
    unfolding rs using sel by (simp only: take_map [symmetric])
  also have "\<dots> = [after + 1..min (seq_value ''event'' db ?k) (after + limit)]" by (simp add: take_upto)
  finally show ?thesis using mem by simp
qed

section \<open>The properties at a concrete store\<close>

definition demo_projection :: chat_projection where
  "demo_projection =
     \<lparr>cp_event = \<lparr>ce_tenant = ''t'', ce_namespace = ''n'', ce_session = ''s'', ce_run = ''r'', ce_source_index = 4,
        ce_message_id = Some ''m'', ce_type = ''assistant.completed'', ce_payload_json = ''{}'', ce_created_at = 1000\<rparr>,
      cp_message = Some \<lparr>cm_id = ''m'', cm_tenant = ''t'', cm_namespace = ''n'', cm_session = ''s'', cm_run = ''r'',
        cm_role = ''assistant'', cm_content = ''hi'', cm_status = ''completed'', cm_created_at = 1000,
        cm_updated_at = 1000\<rparr>\<rparr>"

definition demo_chat :: chat_db where
  "demo_chat = (case append_projection (\<lambda>x. x) demo_projection empty_chat of Inr (r, db) \<Rightarrow> db | Inl _ \<Rightarrow> empty_chat)"

definition demo_record :: chat_event_record where
  "demo_record = chat_event_draft.extend (cp_event demo_projection)
     (chat_event_record.fields (chat_event_id (\<lambda>x. x) ''n'' ''r'' 4) 1)"

lemma demo_append: "append_projection (\<lambda>x. x) demo_projection empty_chat = Inr (demo_record, demo_chat)"
  by code_simp

lemma demo_steps: "(chat_step (\<lambda>x. x))\<^sup>*\<^sup>* empty_chat demo_chat"
  using step_append [OF demo_append] by (rule r_into_rtranclp)

theorem chat_logs_gap_free_witness:
  "gap_free event_seqs (seq_value ''event'') demo_chat \<and> gap_free message_seqs (seq_value ''message'') demo_chat"
  by (rule chat_logs_gap_free [OF demo_steps])

theorem append_idempotent_witness:
  "append_projection (\<lambda>x. x) demo_projection demo_chat = Inr (demo_record, demo_chat)"
  by (rule append_idempotent [OF demo_append])

definition demo_projection2 :: chat_projection where
  "demo_projection2 = \<lparr>cp_event = (cp_event demo_projection)\<lparr>ce_source_index := 7, ce_message_id := None\<rparr>, cp_message = None\<rparr>"

definition demo_chat2 :: chat_db where
  "demo_chat2 = (case append_projection (\<lambda>x. x) demo_projection2 demo_chat of Inr (r, db) \<Rightarrow> db | Inl _ \<Rightarrow> empty_chat)"

lemma demo_append2:
  "(case append_projection (\<lambda>x. x) demo_projection2 demo_chat of Inr (r, db) \<Rightarrow> ce_seq r = 2 | Inl _ \<Rightarrow> False)
   \<and> get_event demo_chat ''t'' ''n'' ''r'' 4 = Some demo_record"
  by code_simp

lemma demo_steps2: "(chat_step (\<lambda>x. x))\<^sup>*\<^sup>* demo_chat demo_chat2"
proof -
  obtain r db where "append_projection (\<lambda>x. x) demo_projection2 demo_chat = Inr (r, db)"
    using demo_append2 by (auto split: sum.splits)
  then have "chat_step (\<lambda>x. x) demo_chat demo_chat2"
    by (intro step_append [where r = r]) (simp add: demo_chat2_def)
  then show ?thesis by (rule r_into_rtranclp)
qed

theorem chat_facts_final_witness:
  "get_event demo_chat2 ''t'' ''n'' ''r'' 4 = Some demo_record"
  using chat_facts_final [OF demo_steps2, of "''t''" "''n''" "''r''" 4 demo_record] demo_append2 by blast

lemma demo_replay:
  "replay ''t'' ''n'' ''s'' 0 10 demo_chat = Inr [demo_record] \<and> watermark ''t'' ''n'' ''s'' demo_chat = Inr 1"
  by code_simp

end
