(* ===== verification/Run_Store.thy ===== *)
theory Run_Store
  imports Chat_Store Interactions Json_Parse
begin

text \<open>
  The tables of the run repository (\<open>kokoro_agent_run*\<close>, \<open>kokoro_agent_tool_*\<close> and
  \<open>kokoro_agent_sandbox_cleanup_intent\<close> of \<open>database/\<close>) and the shared transactional
  primitives of \<open>src/kokoro_agent/infrastructure/postgres_run_context.py\<close>. An operation that
  writes maps the database to an error, which rolls the transaction back, or to its result with
  the new database; row locks serialise the transactions of a run, so a transaction is one step.
  Columns of type \<open>TIMESTAMPTZ(3)\<close> are milliseconds, the wall clock of the database is in
  microseconds, the clock of a worker in milliseconds. A text column that holds JSON is a string.
  The two tables of the model-call repository are one component of the database, as the chat logs are.
\<close>

section \<open>Rows\<close>

record claim =
  cl_tenant :: string
  cl_request :: "string option"
  cl_recipe_bytes :: "string option"
  cl_recipe_fingerprint :: "string option"
  cl_ia_revision :: int
  cl_ia_phase :: phase
  cl_ia_source :: "int option"
  cl_ia_pause_revision :: int
  cl_ia_pause_ref :: "string option"
  cl_ia_groups :: "json list"
  cl_ia_snapshot :: "json option"
  cl_ia_digest :: "string option"
  cl_ia_command :: "string option"
  cl_owner :: "string option"
  cl_generation :: int
  cl_expires :: "int option"
  cl_terminal :: bool
  cl_terminal_at :: "int option"
  cl_durable :: int
  cl_index :: int
  cl_fence_seq :: "int option"
  cl_tokens :: int
  cl_input :: int
  cl_output :: int
  cl_sandbox_id :: "string option"
  cl_sandbox_generation :: "int option"
  cl_sandbox_kind :: "string option"
  cl_sandbox_ref :: "string option"
  cl_model_attempts :: int
  cl_model_dispatched :: int
  cl_model_sealed :: int
  cl_model_unknown :: int
  cl_model_completeness :: string

text \<open>The row an \<open>INSERT\<close> of a claim makes: the listed columns, defaults elsewhere.\<close>

definition new_claim :: "string \<Rightarrow> string \<Rightarrow> string \<Rightarrow> int \<Rightarrow> claim" where
  "new_claim tenant request owner expires =
     \<lparr>cl_tenant = tenant, cl_request = Some request, cl_recipe_bytes = None, cl_recipe_fingerprint = None,
      cl_ia_revision = 0, cl_ia_phase = PhaseActive, cl_ia_source = None, cl_ia_pause_revision = 0,
      cl_ia_pause_ref = None, cl_ia_groups = [], cl_ia_snapshot = None, cl_ia_digest = None, cl_ia_command = None,
      cl_owner = Some owner, cl_generation = 1, cl_expires = Some expires, cl_terminal = False,
      cl_terminal_at = None, cl_durable = 0, cl_index = 0, cl_fence_seq = None, cl_tokens = 0,
      cl_input = 0, cl_output = 0, cl_sandbox_id = None, cl_sandbox_generation = None,
      cl_sandbox_kind = None, cl_sandbox_ref = None, cl_model_attempts = 0, cl_model_dispatched = 0,
      cl_model_sealed = 0, cl_model_unknown = 0, cl_model_completeness = ''none''\<rparr>"

record dispatch_row =
  dp_tenant :: string
  dp_session :: string
  dp_namespace :: string
  dp_request :: string
  dp_fence :: string
  dp_status :: string
  dp_claimed_by :: "string option"
  dp_created :: int
  dp_updated :: int

record dlq_row =
  dl_source :: string
  dl_reason :: string
  dl_occurred :: int

record outbox_row =
  ob_event_id :: string
  ob_kind :: string
  ob_status :: string
  ob_index :: "int option"
  ob_occurred :: int
  ob_payload :: string
  ob_published :: "int option"

record receipt_row =
  rcp_event_id :: string
  rcp_status :: string
  rcp_reason :: "string option"

record manifest_row =
  mf_persisted :: int
  mf_projected :: int
  mf_consumed :: int
  mf_close_requested :: bool
  mf_closed :: bool
  mf_updated :: int

record command_row =
  cc_digest :: string
  cc_fingerprint :: "string option"
  cc_status :: string
  cc_body :: string
  cc_error :: "string option"
  cc_updated :: int
  cc_resume_status :: "string option"
  cc_pause_revision :: "int option"
  cc_pause_ref :: "string option"
  cc_decisions :: "string option"
  cc_decisions_digest :: "string option"
  cc_snapshot :: "json option"
  cc_collection :: "string option"
  cc_accepted_revision :: "int option"
  cc_accepted_source :: "int option"
  cc_accepted_at :: "int option"
  cc_attempt :: "string option"
  cc_attempt_generation :: "int option"
  cc_plan :: "json option"
  cc_started_at :: "int option"
  cc_observation :: "string option"
  cc_result :: "string option"
  cc_result_revision :: "int option"
  cc_result_source :: "int option"
  cc_probe_count :: int
  cc_probe_progress :: "string option"
  cc_probe_quiescence :: "json option"
  cc_probe_read :: "string option"
  cc_probe_checked :: "int option"

text \<open>The row an \<open>INSERT\<close> of a control command makes: no resume intent yet.\<close>

definition new_command :: "string \<Rightarrow> string \<Rightarrow> int \<Rightarrow> command_row" where
  "new_command digest body now =
     \<lparr>cc_digest = digest, cc_fingerprint = None, cc_status = ''admitted'', cc_body = body, cc_error = None,
      cc_updated = now, cc_resume_status = None, cc_pause_revision = None, cc_pause_ref = None,
      cc_decisions = None, cc_decisions_digest = None, cc_snapshot = None, cc_collection = None,
      cc_accepted_revision = None, cc_accepted_source = None, cc_accepted_at = None, cc_attempt = None,
      cc_attempt_generation = None, cc_plan = None, cc_started_at = None, cc_observation = None,
      cc_result = None, cc_result_revision = None, cc_result_source = None, cc_probe_count = 0,
      cc_probe_progress = None, cc_probe_quiescence = None, cc_probe_read = None, cc_probe_checked = None\<rparr>"

record observation_row =
  bs_generation :: int
  bs_command :: "string option"
  bs_attempt :: "string option"
  bs_kind :: string
  bs_disposition :: string
  bs_evidence :: string
  bs_read :: "string option"
  bs_created :: int

record steer_row =
  st_content :: string
  st_created :: int

record segment_row =
  sg_input :: int
  sg_output :: int
  sg_created :: int

record cleanup_row =
  cu_run :: string
  cu_generation :: int
  cu_kind :: string
  cu_sandbox :: string
  cu_ref :: string
  cu_status :: string
  cu_owner :: "string option"
  cu_attempts :: int
  cu_next :: int
  cu_error :: "string option"
  cu_created :: int
  cu_updated :: int

record tool_result_row =
  tl_result :: string
  tl_is_error :: bool

record journal_row =
  tj_name :: string
  tj_status :: string
  tj_result :: string
  tj_is_error :: bool
  tj_created :: int

text \<open>The tables of the model-call repository: attempts by id, evidence by event id.\<close>

record attempt_row =
  ma_tenant :: string
  ma_run :: string
  ma_call :: string
  ma_ordinal :: int
  ma_owner :: string
  ma_generation :: int
  ma_binding :: string
  ma_binding_digest :: string
  ma_planned :: string
  ma_planned_digest :: string
  ma_request_version :: int
  ma_request_digest :: string
  ma_authorization :: string
  ma_authorization_digest :: string
  ma_authorization_state :: string
  ma_status :: string
  ma_prepared :: int
  ma_dispatched :: "int option"
  ma_sealed :: "int option"
  ma_revision :: int
  ma_event :: "string option"
  ma_evidence :: "string option"

record evidence_row =
  me_tenant :: string
  me_run :: string
  me_attempt :: string
  me_call :: string
  me_revision :: int
  me_prior_event :: "string option"
  me_prior_digest :: "string option"
  me_bytes :: string
  me_digest :: string
  me_outcome :: string
  me_usage :: string
  me_totals :: string
  me_classification :: string
  me_sealed :: bool
  me_observed :: int

record model_db =
  attempts :: "(string, attempt_row) table"
  evidences :: "(string, evidence_row) table"

record db =
  claims :: "(string, claim) table"
  dispatches :: "(string, dispatch_row) table"
  dlq :: "(string, dlq_row) table"
  outbox :: "(string \<times> int, outbox_row) table"
  receipts :: "(string \<times> int, receipt_row) table"
  manifests :: "(string, manifest_row) table"
  commands :: "(string \<times> string, command_row) table"
  steers :: "(string \<times> string, steer_row) table"
  segments :: "(string \<times> int, segment_row) table"
  cleanups :: "(string, cleanup_row) table"
  tool_results :: "(string \<times> string, tool_result_row) table"
  tool_journal :: "(string \<times> string, journal_row) table"
  observations :: "(string \<times> string, observation_row) table"
  chat :: chat_db
  models :: model_db

definition empty_db :: db where
  "empty_db = \<lparr>claims = [], dispatches = [], dlq = [], outbox = [], receipts = [], manifests = [],
     commands = [], steers = [], segments = [], cleanups = [], tool_results = [], tool_journal = [],
     observations = [], chat = empty_chat, models = \<lparr>attempts = [], evidences = []\<rparr>\<rparr>"

text \<open>A transaction, and what it leaves behind.\<close>

type_synonym 'a tx = "db \<Rightarrow> ('a \<times> db) result"

definition committed :: "'a tx \<Rightarrow> db \<Rightarrow> db" where
  "committed t db = (case t db of Inl _ \<Rightarrow> db | Inr (_, db') \<Rightarrow> db')"

section \<open>Writing claims\<close>

text \<open>
  The constraints a write of a claim row has to satisfy: the range of its BIGINT columns and the
  CHECK constraints \<open>ck_run_*\<close> and \<open>ck_kokoro_agent_run_*\<close>. In SQL a NULL backend kind makes the last
  one unknown, which passes.
\<close>

definition bigint :: "int \<Rightarrow> bool" where
  "bigint n \<longleftrightarrow> - (2 ^ 63) \<le> n \<and> n < 2 ^ 63"

definition hex64 :: "string \<Rightarrow> bool" where
  "hex64 s \<longleftrightarrow> length s = 64 \<and> list_all (\<lambda>c. c \<in> set ''0123456789abcdef'') s"

fun json_object :: "json \<Rightarrow> bool" where
  "json_object (JObj _) = True"
| "json_object _ = False"

definition claim_interaction_ok :: "claim \<Rightarrow> bool" where
  "claim_interaction_ok c \<longleftrightarrow> 0 \<le> cl_ia_pause_revision c \<and> cl_ia_pause_revision c \<le> cl_ia_revision c
     \<and> (cl_terminal c \<longleftrightarrow> cl_ia_phase c = PhaseTerminal)
     \<and> (cl_ia_groups c \<noteq> [] \<longleftrightarrow> cl_ia_phase c \<in> {PhaseWaiting, PhaseResuming})
     \<and> (if cl_ia_pause_revision c = 0
        then cl_ia_pause_ref c = None \<and> cl_ia_snapshot c = None \<and> cl_ia_digest c = None
        else (case (cl_ia_pause_ref c, cl_ia_snapshot c, cl_ia_digest c) of
            (Some r, Some s, Some d) \<Rightarrow> r \<noteq> [] \<and> json_object s \<and> hex64 d | _ \<Rightarrow> False))
     \<and> cl_ia_command c \<noteq> Some [] \<and> (cl_ia_phase c = PhaseResuming \<longrightarrow> cl_ia_command c \<noteq> None)
     \<and> (case cl_ia_source c of
          None \<Rightarrow> cl_ia_phase c \<notin> {PhaseWaiting, PhaseResuming}
        | Some n \<Rightarrow> 0 \<le> n \<and> cl_ia_revision c \<noteq> 0)"

definition claim_models_ok :: "claim \<Rightarrow> bool" where
  "claim_models_ok c \<longleftrightarrow> 0 \<le> cl_model_attempts c
     \<and> 0 \<le> cl_model_dispatched c \<and> cl_model_dispatched c \<le> cl_model_attempts c
     \<and> 0 \<le> cl_model_sealed c \<and> cl_model_sealed c \<le> cl_model_attempts c
     \<and> 0 \<le> cl_model_unknown c \<and> cl_model_unknown c \<le> cl_model_sealed c
     \<and> (cl_model_completeness c = ''none'' \<and> cl_model_attempts c = 0
        \<or> cl_model_completeness c \<in> {''complete'', ''partial''} \<and> 0 < cl_model_attempts c
          \<and> cl_model_sealed c = cl_model_attempts c \<and> cl_model_unknown c = 0
        \<or> cl_model_completeness c = ''unknown'' \<and> 0 < cl_model_attempts c
          \<and> (cl_model_sealed c < cl_model_attempts c \<or> 0 < cl_model_unknown c))"

definition claim_ok :: "claim \<Rightarrow> bool" where
  "claim_ok c \<longleftrightarrow> claim_interaction_ok c \<and> claim_models_ok c
     \<and> (case (cl_recipe_bytes c, cl_recipe_fingerprint c) of (None, None) \<Rightarrow> True
        | (Some b, Some f) \<Rightarrow> b \<noteq> [] \<and> length b \<le> 8388608 \<and> hex64 f | _ \<Rightarrow> False)
     \<and> \<not> btrim_empty (cl_tenant c) \<and> 0 \<le> cl_generation c
     \<and> 0 \<le> cl_durable c \<and> 0 \<le> cl_index c \<and> 0 \<le> cl_tokens c \<and> 0 \<le> cl_input c \<and> 0 \<le> cl_output c
     \<and> (case cl_sandbox_id c of
          None \<Rightarrow> cl_sandbox_generation c = None \<and> cl_sandbox_kind c = None \<and> cl_sandbox_ref c = None
        | Some _ \<Rightarrow> cl_sandbox_generation c \<noteq> None \<and> cl_sandbox_ref c \<noteq> None
            \<and> (case cl_sandbox_kind c of None \<Rightarrow> True | Some k \<Rightarrow> k \<in> {''docker'', ''e2b'', ''custom''}))"

definition claim_write_error :: "claim \<Rightarrow> exn option" where
  "claim_write_error c = first_error
     [fail_if (\<not> list_all bigint [cl_generation c, cl_durable c, cl_index c, cl_tokens c, cl_input c, cl_output c])
        (ValueError ''bigint out of range''),
      fail_if (\<not> claim_ok c) CheckViolation]"

text \<open>\<open>UPDATE ... WHERE run_id = %s AND cond RETURNING\<close> and \<open>INSERT ... ON CONFLICT DO NOTHING RETURNING\<close>.\<close>

definition update_claim :: "string \<Rightarrow> (claim \<Rightarrow> bool) \<Rightarrow> (claim \<Rightarrow> claim) \<Rightarrow> claim option tx" where
  "update_claim run_id cond f db = (case map_of (claims db) run_id of
      None \<Rightarrow> Inr (None, db)
    | Some c \<Rightarrow>
        if \<not> cond c then Inr (None, db)
        else guard_r (claim_write_error (f c))
          (Inr (Some (f c), db\<lparr>claims := update_at run_id f (claims db)\<rparr>)))"

definition insert_claim :: "string \<Rightarrow> claim \<Rightarrow> claim option tx" where
  "insert_claim run_id c db = guard_r (claim_write_error c)
     (case map_of (claims db) run_id of
        None \<Rightarrow> Inr (Some c, db\<lparr>claims := insert_new run_id c (claims db)\<rparr>)
      | Some _ \<Rightarrow> Inr (None, db))"

text \<open>
  An operation outside a transaction commits each statement; what it computes afterwards from the
  returned rows may still raise, without undoing them.
\<close>

type_synonym 'a act = "db \<Rightarrow> 'a result \<times> db"

definition then_return :: "'a tx \<Rightarrow> ('a \<Rightarrow> 'b result) \<Rightarrow> 'b act" where
  "then_return t f db = (case t db of Inl e \<Rightarrow> (Inl e, db) | Inr (x, db') \<Rightarrow> (f x, db'))"

lemma committed_simps [simp]:
  "t db = Inl e \<Longrightarrow> committed t db = db"
  "t db = Inr (x, db') \<Longrightarrow> committed t db = db'"
  by (simp_all add: committed_def)

lemma snd_then_return [simp]: "snd (then_return t f db) = committed t db"
  by (auto simp: then_return_def committed_def split: sum.splits prod.splits)

lemma update_claim_effect:
  assumes "update_claim run_id cond f db = Inr (r, db')"
  shows "r = None \<and> db' = db
      \<and> (case map_of (claims db) run_id of None \<Rightarrow> True | Some c \<Rightarrow> \<not> cond c)
    \<or> (\<exists>c. map_of (claims db) run_id = Some c \<and> cond c \<and> claim_write_error (f c) = None
      \<and> r = Some (f c) \<and> db' = db\<lparr>claims := update_at run_id f (claims db)\<rparr>)"
  using assms by (auto simp: update_claim_def split: option.splits if_splits)

lemma insert_claim_effect:
  assumes "insert_claim run_id c db = Inr (r, db')"
  shows "r = None \<and> db' = db \<and> map_of (claims db) run_id \<noteq> None
    \<or> r = Some c \<and> map_of (claims db) run_id = None \<and> claim_write_error c = None
      \<and> db' = db\<lparr>claims := insert_new run_id c (claims db)\<rparr>"
  using assms by (auto simp: insert_claim_def split: option.splits)

section \<open>Leases\<close>

record lease_fence =
  lf_owner :: string
  lf_generation :: int

definition lease_fence_check :: "lease_fence \<Rightarrow> exn option" where
  "lease_fence_check l = first_error
     [fail_if (lf_owner l = []) strict_error, fail_if (lf_generation l < 1) strict_error]"

text \<open>\<open>owner = %s AND lease_generation = %s\<close>.\<close>

definition fenced :: "claim \<Rightarrow> lease_fence \<Rightarrow> bool" where
  "fenced c l \<longleftrightarrow> cl_owner c = Some (lf_owner l) \<and> cl_generation c = lf_generation l"

text \<open>The active predicate, with the time in milliseconds or microseconds.\<close>

definition lease_live :: "int \<Rightarrow> claim \<Rightarrow> bool" where
  "lease_live now c \<longleftrightarrow> \<not> cl_terminal c \<and> (case cl_expires c of None \<Rightarrow> False | Some e \<Rightarrow> now < e)"

definition lease_live_us :: "int \<Rightarrow> claim \<Rightarrow> bool" where
  "lease_live_us us c \<longleftrightarrow> \<not> cl_terminal c \<and> (case cl_expires c of None \<Rightarrow> False | Some e \<Rightarrow> us < e * 1000)"

definition lock_active_lease :: "int \<Rightarrow> string \<Rightarrow> lease_fence \<Rightarrow> db \<Rightarrow> bool" where
  "lock_active_lease us run_id lease db = (case map_of (claims db) run_id of
      None \<Rightarrow> False | Some c \<Rightarrow> fenced c lease \<and> lease_live_us us c)"

definition lock_fence :: "string \<Rightarrow> lease_fence \<Rightarrow> db \<Rightarrow> bool" where
  "lock_fence run_id lease db = (case map_of (claims db) run_id of None \<Rightarrow> False | Some c \<Rightarrow> fenced c lease)"

definition is_lease_current :: "int \<Rightarrow> string \<Rightarrow> lease_fence \<Rightarrow> db \<Rightarrow> bool" where
  "is_lease_current now run_id lease db = (case map_of (claims db) run_id of
      None \<Rightarrow> False | Some c \<Rightarrow> fenced c lease \<and> lease_live now c)"

text \<open>\<open>int(timestamp() * 1000)\<close> of the database clock.\<close>

definition to_ms :: "int \<Rightarrow> int" where
  "to_ms us = us div 1000"

section \<open>Shared primitives\<close>

definition ensure_receipt_manifest :: "string \<Rightarrow> int \<Rightarrow> db \<Rightarrow> db" where
  "ensure_receipt_manifest run_id timestamp db = db\<lparr>manifests := insert_new run_id
     \<lparr>mf_persisted = 0, mf_projected = 0, mf_consumed = 0, mf_close_requested = False, mf_closed = False,
      mf_updated = timestamp\<rparr> (manifests db)\<rparr>"

record sandbox_cleanup_intent =
  si_cleanup_id :: string
  si_run :: string
  si_generation :: int
  si_kind :: string
  si_sandbox :: string
  si_ref :: string
  si_attempts :: int
  si_next :: int

definition sandbox_backend_kind :: "string \<Rightarrow> string result" where
  "sandbox_backend_kind v = (if v \<in> {''docker'', ''e2b'', ''custom''} then Inr v
     else Inl (ValueError ''unknown sandbox backend kind''))"

definition sandbox_cleanup_id :: "(string \<Rightarrow> string) \<Rightarrow> string \<Rightarrow> int \<Rightarrow> string \<Rightarrow> string \<Rightarrow> string" where
  "sandbox_cleanup_id sha256_hex run_id lease_generation backend_kind sandbox_id =
     ''scu_'' @ sha256_hex (join [CHR 0x00] [run_id, show_int lease_generation, backend_kind, sandbox_id])"

definition sandbox_cleanup_from_row :: "string \<Rightarrow> cleanup_row \<Rightarrow> sandbox_cleanup_intent result" where
  "sandbox_cleanup_from_row cleanup_id r = bind_r (sandbox_backend_kind (cu_kind r)) (\<lambda>kind.
     construct (\<lambda>i. first_error
         [fail_if (si_cleanup_id i = []) strict_error, fail_if (si_run i = []) strict_error,
          fail_if (si_generation i < 1) strict_error, fail_if (si_sandbox i = []) strict_error,
          fail_if (si_ref i = []) strict_error, fail_if (si_attempts i < 0) strict_error])
       \<lparr>si_cleanup_id = cleanup_id, si_run = cu_run r, si_generation = cu_generation r, si_kind = kind,
        si_sandbox = cu_sandbox r, si_ref = cu_ref r, si_attempts = cu_attempts r, si_next = cu_next r\<rparr>)"

text \<open>
  \<open>ON CONFLICT DO NOTHING\<close> covers the primary key and the unique resource; a row that another
  cleanup id holds makes the following SELECT find nothing.
\<close>

definition insert_sandbox_cleanup ::
  "(string \<Rightarrow> string) \<Rightarrow> string \<Rightarrow> int \<Rightarrow> string \<Rightarrow> string \<Rightarrow> string \<Rightarrow> int \<Rightarrow> sandbox_cleanup_intent tx" where
  "insert_sandbox_cleanup sha256_hex run_id lease_generation backend_kind sandbox_id teardown_ref now db =
     (let cleanup_id = sandbox_cleanup_id sha256_hex run_id lease_generation backend_kind sandbox_id;
          r = \<lparr>cu_run = run_id, cu_generation = lease_generation, cu_kind = backend_kind, cu_sandbox = sandbox_id,
               cu_ref = teardown_ref, cu_status = ''pending'', cu_owner = None, cu_attempts = 0, cu_next = now,
               cu_error = None, cu_created = now, cu_updated = now\<rparr>;
          taken = list_ex (\<lambda>(k, o'). k = cleanup_id \<or> cu_run o' = run_id \<and> cu_generation o' = lease_generation
               \<and> cu_kind o' = backend_kind \<and> cu_sandbox o' = sandbox_id) (cleanups db) in
      if \<not> taken \<and> (lease_generation < 1 \<or> backend_kind \<notin> {''docker'', ''e2b'', ''custom''}) then Inl CheckViolation
      else let db' = (if taken then db else db\<lparr>cleanups := cleanups db @ [(cleanup_id, r)]\<rparr>) in
      case map_of (cleanups db') cleanup_id of
        None \<Rightarrow> Inl (RuntimeError ''sandbox cleanup registration failed'')
      | Some row \<Rightarrow> bind_r (sandbox_cleanup_from_row cleanup_id row) (\<lambda>intent.
          if si_ref intent \<noteq> teardown_ref then Inl (RuntimeError ''sandbox cleanup identity conflict'')
          else Inr (intent, db')))"

definition queue_bound_sandbox_cleanup :: "(string \<Rightarrow> string) \<Rightarrow> string \<Rightarrow> claim \<Rightarrow> int \<Rightarrow> unit tx" where
  "queue_bound_sandbox_cleanup sha256_hex run_id row now db = (case cl_sandbox_id row of
      None \<Rightarrow> Inr ((), db)
    | Some sandbox_id \<Rightarrow>
        (case (cl_sandbox_generation row, cl_sandbox_kind row, cl_sandbox_ref row) of
           (Some generation, Some kind, Some ref) \<Rightarrow>
             if kind \<notin> {''docker'', ''e2b'', ''custom''} \<or> ref = []
             then Inl (RuntimeError ''terminal sandbox binding has incomplete cleanup identity'')
             else bind_r (insert_sandbox_cleanup sha256_hex run_id generation kind sandbox_id ref now db)
               (\<lambda>(_, db). Inr ((), db))
         | _ \<Rightarrow> Inl (RuntimeError ''terminal sandbox binding has incomplete cleanup identity'')))"

definition run_open :: "string \<Rightarrow> db \<Rightarrow> bool" where
  "run_open run_id db = (case map_of (claims db) run_id of None \<Rightarrow> False | Some c \<Rightarrow> \<not> cl_terminal c)"

definition update_control_status :: "int \<Rightarrow> string \<Rightarrow> string \<Rightarrow> string \<Rightarrow> unit tx" where
  "update_control_status us run_id command_id status db =
     (if \<not> run_open run_id db then Inr ((), db)
      else Inr ((), db\<lparr>commands := update_where
          (\<lambda>k c. k = (run_id, command_id) \<and> cc_status c = ''persisted'')
          (\<lambda>c. c\<lparr>cc_status := status, cc_updated := to_ms us\<rparr>) (commands db)\<rparr>))"

definition update_control_command_status ::
  "int \<Rightarrow> string \<Rightarrow> string \<Rightarrow> string \<Rightarrow> string option \<Rightarrow> unit tx" where
  "update_control_command_status us run_id command_id status error_code db =
     (if \<not> run_open run_id db then Inr ((), db)
      else Inr ((), db\<lparr>commands := update_where
          (\<lambda>k c. k = (run_id, command_id) \<and> cc_status c \<in> {''admitted'', ''persisted'', ''applied''})
          (\<lambda>c. c\<lparr>cc_status := status, cc_error := error_code, cc_updated := to_ms us\<rparr>) (commands db)\<rparr>))"

record outbox_frame =
  fr_run :: string
  fr_seq :: int
  fr_event_id :: string
  fr_kind :: string
  fr_index :: int
  fr_timestamp :: int
  fr_payload :: string

text \<open>\<open>int(row["index_value"])\<close> fails on NULL.\<close>

definition outbox_row_to_frame :: "(string \<times> int) \<times> outbox_row \<Rightarrow> outbox_frame result" where
  "outbox_row_to_frame kr = (case kr of ((run_id, seq), r) \<Rightarrow> (case ob_index r of
      None \<Rightarrow> Inl (ValueError ''index_value'')
    | Some i \<Rightarrow> Inr \<lparr>fr_run = run_id, fr_seq = seq, fr_event_id = ob_event_id r, fr_kind = ob_kind r,
        fr_index = i, fr_timestamp = ob_occurred r, fr_payload = ob_payload r\<rparr>))"

definition fetch_queued_outbox :: "db \<Rightarrow> ((string \<times> int) \<times> outbox_row) list" where
  "fetch_queued_outbox db = sort_key fst (select_where (\<lambda>k r. ob_status r = ''queued'') (outbox db))"

section \<open>Retention\<close>

definition of_runs :: "string list \<Rightarrow> string \<Rightarrow> bool" where
  "of_runs run_ids r = List.member run_ids r"

definition delete_run_rows :: "string list \<Rightarrow> db \<Rightarrow> db" where
  "delete_run_rows run_ids db = db\<lparr>
     observations := delete_where (\<lambda>k _. of_runs run_ids (fst k)) (observations db),
     outbox := delete_where (\<lambda>k _. of_runs run_ids (fst k)) (outbox db),
     receipts := delete_where (\<lambda>k _. of_runs run_ids (fst k)) (receipts db),
     manifests := delete_where (\<lambda>k _. of_runs run_ids k) (manifests db),
     commands := delete_where (\<lambda>k _. of_runs run_ids (fst k)) (commands db),
     steers := delete_where (\<lambda>k _. of_runs run_ids (fst k)) (steers db),
     segments := delete_where (\<lambda>k _. of_runs run_ids (fst k)) (segments db),
     cleanups := delete_where (\<lambda>_ c. of_runs run_ids (cu_run c)) (cleanups db),
     tool_results := delete_where (\<lambda>k _. of_runs run_ids (fst k)) (tool_results db),
     tool_journal := delete_where (\<lambda>k _. of_runs run_ids (fst k)) (tool_journal db),
     dispatches := delete_where (\<lambda>k _. of_runs run_ids k) (dispatches db)\<rparr>"

definition purgeable :: "int \<Rightarrow> int \<Rightarrow> db \<Rightarrow> string \<Rightarrow> claim \<Rightarrow> bool" where
  "purgeable us max_age_ms db run_id c \<longleftrightarrow> cl_terminal c \<and> cl_ia_phase c = PhaseTerminal
     \<and> (case cl_terminal_at c of None \<Rightarrow> False | Some t \<Rightarrow> t * 1000 \<le> us - max_age_ms * 1000)
     \<and> \<not> list_ex (\<lambda>(_, u). cu_run u = run_id \<and> cu_status u \<noteq> ''completed'') (cleanups db)
     \<and> \<not> list_ex (\<lambda>((r, _), m). r = run_id \<and> cc_resume_status m \<noteq> None
            \<and> cc_resume_status m \<noteq> Some ''terminal'') (commands db)"

definition purge_terminal :: "int \<Rightarrow> int \<Rightarrow> nat tx" where
  "purge_terminal us max_age_ms db =
     (if max_age_ms < 0 then Inl (ValueError ''negative retention'')
      else let run_ids = map fst (select_where (purgeable us max_age_ms db) (claims db)) in
        if run_ids = [] then Inr (0, db)
        else let db' = delete_run_rows run_ids db in
          Inr (length run_ids, db'\<lparr>claims := delete_where (\<lambda>k _. of_runs run_ids k) (claims db')\<rparr>))"

end
