(* ===== verification/Run_Leases.thy ===== *)
theory Run_Leases
  imports Run_Store Control
begin

text \<open>
  The lease operations of \<open>src/kokoro_agent/infrastructure/postgres_run_leases.py\<close> and the fenced
  chat append of \<open>postgres_chat_repository.py\<close>: renewing, pausing, adopting and reclaiming the
  lease of a run, counting tokens, and accounting usage once per lease generation. \<open>now\<close> is the
  clock of the worker in milliseconds, \<open>us\<close> the wall clock of the database in microseconds.
\<close>

section \<open>Requests in the store\<close>

text \<open>\<open>request.model_dump_json()\<close> and \<open>RunRequest.model_validate_json\<close>.\<close>

definition request_text :: "run_request \<Rightarrow> string" where
  "request_text q = dumps_compact False (enc_run_request False q)"

definition parse_request :: "string \<Rightarrow> run_request result" where
  "parse_request s = (case loads s of None \<Rightarrow> Inl (ValidationError ''json'') | Some v \<Rightarrow> dec_run_request v)"

record leased_run =
  lr_request :: run_request
  lr_lease :: lease_fence

definition new_fence :: "string \<Rightarrow> int \<Rightarrow> lease_fence result" where
  "new_fence owner generation = construct lease_fence_check \<lparr>lf_owner = owner, lf_generation = generation\<rparr>"

section \<open>The lease of a run\<close>

definition renew :: "int \<Rightarrow> int \<Rightarrow> string \<Rightarrow> lease_fence \<Rightarrow> bool tx" where
  "renew now ttl_ms run_id lease db =
     bind_r (update_claim run_id (\<lambda>c. fenced c lease \<and> lease_live now c)
         (\<lambda>c. c\<lparr>cl_expires := Some (now + ttl_ms)\<rparr>) db)
       (\<lambda>(r, db). Inr (r \<noteq> None, db))"

definition lease_pause :: "int \<Rightarrow> string \<Rightarrow> lease_fence \<Rightarrow> bool tx" where
  "lease_pause now run_id lease db =
     bind_r (update_claim run_id (\<lambda>c. fenced c lease \<and> lease_live now c)
         (\<lambda>c. c\<lparr>cl_expires := None\<rparr>) db)
       (\<lambda>(r, db). Inr (r \<noteq> None, db))"

definition take_over :: "string \<Rightarrow> int \<Rightarrow> claim \<Rightarrow> claim" where
  "take_over owner expires c =
     c\<lparr>cl_owner := Some owner, cl_generation := cl_generation c + 1, cl_expires := Some expires\<rparr>"

definition adopt :: "int \<Rightarrow> int \<Rightarrow> string \<Rightarrow> string \<Rightarrow> lease_fence option act" where
  "adopt now ttl_ms run_id owner = then_return
     (update_claim run_id (\<lambda>c. \<not> cl_terminal c \<and> cl_expires c = None) (take_over owner (now + ttl_ms)))
     (\<lambda>r. case r of None \<Rightarrow> Inr None
        | Some c \<Rightarrow> bind_r (new_fence owner (cl_generation c)) (\<lambda>l. Inr (Some l)))"

definition expired :: "int \<Rightarrow> claim \<Rightarrow> bool" where
  "expired now c \<longleftrightarrow> \<not> cl_terminal c \<and> (case cl_expires c of None \<Rightarrow> False | Some e \<Rightarrow> e \<le> now)"

definition reclaim_rows :: "int \<Rightarrow> int \<Rightarrow> string \<Rightarrow> claim list tx" where
  "reclaim_rows now ttl_ms owner db =
     (let f = take_over owner (now + ttl_ms);
          rows = map (f \<circ> snd) (select_where (\<lambda>_. expired now) (claims db)) in
      guard_r (first_error (map claim_write_error rows))
        (Inr (rows, db\<lparr>claims := update_where (\<lambda>_. expired now) f (claims db)\<rparr>)))"

definition reclaim_expired :: "int \<Rightarrow> int \<Rightarrow> string \<Rightarrow> leased_run list act" where
  "reclaim_expired now ttl_ms owner = then_return (reclaim_rows now ttl_ms owner)
     (\<lambda>rows. traverse (\<lambda>c. case cl_request c of
          None \<Rightarrow> Inl (ValidationError ''json'')
        | Some s \<Rightarrow> bind_r (parse_request s) (\<lambda>q. bind_r (new_fence owner (cl_generation c))
            (\<lambda>l. Inr \<lparr>lr_request = q, lr_lease = l\<rparr>)))
        (filter (\<lambda>c. cl_request c \<noteq> None) rows))"

definition is_fence_current :: "string \<Rightarrow> lease_fence \<Rightarrow> db \<Rightarrow> bool" where
  "is_fence_current run_id lease db =
     (case map_of (claims db) run_id of None \<Rightarrow> False | Some c \<Rightarrow> fenced c lease)"

definition get_fence :: "string \<Rightarrow> db \<Rightarrow> lease_fence option result" where
  "get_fence run_id db = (case map_of (claims db) run_id of None \<Rightarrow> Inr None | Some c \<Rightarrow>
     (case cl_owner c of None \<Rightarrow> Inr None | Some owner \<Rightarrow>
        if cl_generation c < 1 then Inr None
        else bind_r (new_fence owner (cl_generation c)) (\<lambda>l. Inr (Some l))))"

definition get_request :: "string \<Rightarrow> db \<Rightarrow> run_request option result" where
  "get_request run_id db = (case map_of (claims db) run_id of None \<Rightarrow> Inr None | Some c \<Rightarrow>
     (case cl_request c of None \<Rightarrow> Inr None | Some s \<Rightarrow> map_sum id Some (parse_request s)))"

definition get_request_scoped :: "string \<Rightarrow> string \<Rightarrow> string \<Rightarrow> db \<Rightarrow> run_request option result" where
  "get_request_scoped run_id tenant_ref namespace db =
     (case (map_of (claims db) run_id, map_of (dispatches db) run_id) of
        (Some c, Some d) \<Rightarrow>
          if dp_tenant d = cl_tenant c \<and> cl_tenant c = tenant_ref \<and> dp_namespace d = namespace
          then (case cl_request c of None \<Rightarrow> Inr None | Some s \<Rightarrow> map_sum id Some (parse_request s))
          else Inr None
      | _ \<Rightarrow> Inr None)"

definition list_paused :: "db \<Rightarrow> string list" where
  "list_paused db = sort (map fst (select_where
     (\<lambda>_ c. \<not> cl_terminal c \<and> cl_expires c = None \<and> cl_request c \<noteq> None) (claims db)))"

definition is_terminal :: "string \<Rightarrow> db \<Rightarrow> bool" where
  "is_terminal run_id db = (case map_of (claims db) run_id of None \<Rightarrow> False | Some c \<Rightarrow> cl_terminal c)"

section \<open>Tokens and usage\<close>

definition add_tokens :: "int \<Rightarrow> string \<Rightarrow> lease_fence \<Rightarrow> int \<Rightarrow> int option tx" where
  "add_tokens now run_id lease amount db =
     bind_r (update_claim run_id (\<lambda>c. fenced c lease \<and> lease_live now c)
         (\<lambda>c. c\<lparr>cl_tokens := cl_tokens c + amount\<rparr>) db)
       (\<lambda>(r, db). Inr (map_option cl_tokens r, db))"

definition usage_totals :: "claim \<Rightarrow> int \<times> int" where
  "usage_totals c = (cl_input c, cl_output c)"

definition add_usage_rows ::
  "int \<Rightarrow> string \<Rightarrow> lease_fence \<Rightarrow> int \<Rightarrow> int \<Rightarrow> (int \<times> int) option tx" where
  "add_usage_rows us run_id lease input_tokens output_tokens db =
     (case map_of (claims db) run_id of None \<Rightarrow> Inr (None, db) | Some c \<Rightarrow>
      if \<not> fenced c lease then Inr (None, db)
      else if \<not> cl_terminal c \<and> \<not> lease_live_us us c then Inr (None, db)
      else case map_of (segments db) (run_id, lf_generation lease) of
        Some s \<Rightarrow>
          if sg_input s \<noteq> input_tokens \<or> sg_output s \<noteq> output_tokens then Inl UsageIdentityConflict
          else Inr (Some (usage_totals c), db)
      | None \<Rightarrow>
          if cl_terminal c then Inr (None, db)
          else if \<not> bigint input_tokens \<or> \<not> bigint output_tokens then Inl (ValueError ''bigint out of range'')
          else if input_tokens < 0 \<or> output_tokens < 0 then Inl CheckViolation
          else bind_r (update_claim run_id (\<lambda>_. True)
                (\<lambda>c. c\<lparr>cl_input := cl_input c + input_tokens, cl_output := cl_output c + output_tokens\<rparr>)
                (db\<lparr>segments := insert_new (run_id, lf_generation lease)
                   \<lparr>sg_input = input_tokens, sg_output = output_tokens, sg_created = to_ms us\<rparr> (segments db)\<rparr>))
              (\<lambda>(r, db). case r of
                  None \<Rightarrow> Inl (RuntimeError ''usage aggregate disappeared'')
                | Some c \<Rightarrow> Inr (Some (usage_totals c), db)))"

definition add_usage :: "int \<Rightarrow> string \<Rightarrow> lease_fence \<Rightarrow> int \<Rightarrow> int \<Rightarrow> (int \<times> int) option tx" where
  "add_usage us run_id lease input_tokens output_tokens db =
     (if input_tokens < 0 \<or> output_tokens < 0
      then Inl (ValueError ''usage token counts must be non-negative'')
      else add_usage_rows us run_id lease input_tokens output_tokens db)"

section \<open>The fenced chat append\<close>

definition append_fenced ::
  "(string \<Rightarrow> string) \<Rightarrow> int \<Rightarrow> chat_projection \<Rightarrow> lease_fence \<Rightarrow> string \<Rightarrow> chat_event_record option tx" where
  "append_fenced uuid5_hex us projection lease mode db =
     guard_r (validate_projection projection)
    (if mode \<notin> {''active'', ''current_generation''} then Inl (ValueError ''unsupported chat fence mode'')
     else case map_of (claims db) (ce_run (cp_event projection)) of None \<Rightarrow> Inr (None, db) | Some c \<Rightarrow>
       if \<not> fenced c lease \<or> mode = ''active'' \<and> \<not> lease_live_us us c then Inr (None, db)
       else bind_r (append_projection uuid5_hex projection (chat db))
         (\<lambda>(r, chat'). Inr (Some r, db\<lparr>chat := chat'\<rparr>)))"

end
