(* ===== verification/Run_Dispatch.thy ===== *)
theory Run_Dispatch
  imports Run_Leases
begin

text \<open>
  Admission and dispatch (\<open>src/kokoro_agent/infrastructure/postgres_run_admission.py\<close> and
  \<open>postgres_run_dispatch.py\<close>): a launch request becomes a pending dispatch row, a worker turns it
  into a claim of the run, control commands are admitted and delivered once per identity.
\<close>

section \<open>Dispatch admission\<close>

record dispatch_admission =
  da_replayed :: bool
  da_publish :: bool

definition new_dispatch :: "int \<Rightarrow> run_request \<Rightarrow> string \<Rightarrow> string \<Rightarrow> dispatch_row" where
  "new_dispatch now q namespace fence =
     \<lparr>dp_tenant = ei_tenant_ref (rq_identity q), dp_session = rq_session_id q, dp_namespace = namespace,
      dp_request = request_text q, dp_fence = fence, dp_status = ''pending'', dp_claimed_by = None,
      dp_created = now, dp_updated = now\<rparr>"

definition enqueue_dispatch :: "int \<Rightarrow> run_request \<Rightarrow> string \<Rightarrow> string \<Rightarrow> dispatch_admission tx" where
  "enqueue_dispatch now q namespace fence db =
     (if btrim_empty (ei_tenant_ref (rq_identity q)) then Inl CheckViolation
      else case map_of (dispatches db) (rq_run_id q) of
        None \<Rightarrow> Inr (\<lparr>da_replayed = False, da_publish = True\<rparr>,
          db\<lparr>dispatches := insert_new (rq_run_id q) (new_dispatch now q namespace fence) (dispatches db)\<rparr>)
      | Some row \<Rightarrow>
          if dp_fence row \<noteq> fence then Inl DispatchConflict
          else Inr (\<lparr>da_replayed = True, da_publish = dp_status row = ''pending''\<rparr>, db))"

section \<open>Claims\<close>

definition request_claim :: "run_request \<Rightarrow> string \<Rightarrow> int \<Rightarrow> claim" where
  "request_claim q owner expires = new_claim (ei_tenant_ref (rq_identity q)) (request_text q) owner expires"

definition try_claim :: "int \<Rightarrow> int \<Rightarrow> run_request \<Rightarrow> string \<Rightarrow> lease_fence option act" where
  "try_claim now ttl_ms q owner = then_return
     (insert_claim (rq_run_id q) (request_claim q owner (now + ttl_ms)))
     (\<lambda>r. case r of None \<Rightarrow> Inr None
        | Some c \<Rightarrow> bind_r (new_fence owner (cl_generation c)) (\<lambda>l. Inr (Some l)))"

text \<open>A lost claim race raises through the transaction, which rolls the dispatch back.\<close>

definition claim_dispatch :: "int \<Rightarrow> int \<Rightarrow> run_request \<Rightarrow> string \<Rightarrow> lease_fence option tx" where
  "claim_dispatch now ttl_ms q consumer db =
     (case map_of (dispatches db) (rq_run_id q) of None \<Rightarrow> Inr (None, db) | Some row \<Rightarrow>
      if dp_status row \<noteq> ''pending'' \<or> dp_request row \<noteq> request_text q then Inr (None, db)
      else bind_r (insert_claim (rq_run_id q) (request_claim q consumer (now + ttl_ms))
          (db\<lparr>dispatches := update_at (rq_run_id q)
             (\<lambda>d. d\<lparr>dp_status := ''claimed'', dp_claimed_by := Some consumer, dp_updated := now\<rparr>)
             (dispatches db)\<rparr>))
        (\<lambda>(r, db'). case r of
            None \<Rightarrow> Inr (None, db)
          | Some c \<Rightarrow> bind_r (new_fence consumer (cl_generation c)) (\<lambda>l. Inr (Some l, db'))))"

definition get_pending_dispatch :: "string \<Rightarrow> db \<Rightarrow> run_request option result" where
  "get_pending_dispatch run_id db = (case map_of (dispatches db) run_id of
      None \<Rightarrow> Inr None
    | Some row \<Rightarrow> if dp_status row \<noteq> ''pending'' then Inr None
        else map_sum id Some (parse_request (dp_request row)))"

definition list_pending_dispatches :: "int \<Rightarrow> db \<Rightarrow> run_request list result" where
  "list_pending_dispatches limit db =
     (if limit < 1 \<or> 1000 < limit then Inl (ValueError ''limit must be between 1 and 1000'')
      else traverse (\<lambda>(_, row). parse_request (dp_request row))
        (take (nat limit) (sort_key (\<lambda>(run_id, row). (dp_created row, run_id))
          (select_where (\<lambda>_ row. dp_status row = ''pending'') (dispatches db)))))"

definition quarantine_dispatch :: "int \<Rightarrow> string \<Rightarrow> string \<Rightarrow> string \<Rightarrow> unit tx" where
  "quarantine_dispatch now raw_hash source reason db =
     Inr ((), db\<lparr>dlq := insert_new raw_hash
        \<lparr>dl_source = source, dl_reason = reason, dl_occurred = now\<rparr> (dlq db)\<rparr>)"

section \<open>Control commands\<close>

definition receipt_status :: "string \<Rightarrow> string result" where
  "receipt_status s = (if s \<in> {''admitted'', ''persisted''} then Inr ''pending''
     else if s \<in> {''applied'', ''succeeded''} then Inr ''succeeded''
     else if s \<in> {''failed'', ''superseded''} then Inr ''failed''
     else Inl (RuntimeError ''unknown control command status''))"

record control_receipt =
  cr_run :: string
  cr_command :: string
  cr_digest :: string
  cr_status :: string
  cr_error :: "string option"

record control_admission =
  ca_receipt :: control_receipt
  ca_replayed :: bool
  ca_publish :: bool

definition admit_control :: "int \<Rightarrow> string \<Rightarrow> string \<Rightarrow> string \<Rightarrow> string \<Rightarrow> control_admission tx" where
  "admit_control us run_id command_id request_digest body db =
     (if map_of (claims db) run_id = None then Inl InteractionRunMissing
      else case map_of (commands db) (run_id, command_id) of
        None \<Rightarrow> Inr (\<lparr>ca_receipt = \<lparr>cr_run = run_id, cr_command = command_id, cr_digest = request_digest,
              cr_status = ''pending'', cr_error = None\<rparr>, ca_replayed = False, ca_publish = True\<rparr>,
            db\<lparr>commands := insert_new (run_id, command_id) (new_command request_digest body (to_ms us)) (commands db)\<rparr>)
      | Some row \<Rightarrow>
          if cc_digest row \<noteq> request_digest then Inl ControlCommandConflict
          else bind_r (receipt_status (cc_status row)) (\<lambda>s.
            Inr (\<lparr>ca_receipt = \<lparr>cr_run = run_id, cr_command = command_id, cr_digest = cc_digest row,
                cr_status = s, cr_error = cc_error row\<rparr>, ca_replayed = True,
                ca_publish = cc_status row \<in> {''admitted'', ''persisted''}\<rparr>, db)))"

definition mark_control_succeeded :: "int \<Rightarrow> string \<Rightarrow> string \<Rightarrow> unit tx" where
  "mark_control_succeeded us run_id command_id =
     update_control_command_status us run_id command_id ''succeeded'' None"

definition mark_control_failed :: "int \<Rightarrow> string \<Rightarrow> string \<Rightarrow> string option \<Rightarrow> unit tx" where
  "mark_control_failed us run_id command_id error_code =
     update_control_command_status us run_id command_id ''failed'' error_code"

definition mark_control_applied :: "int \<Rightarrow> string \<Rightarrow> string \<Rightarrow> unit tx" where
  "mark_control_applied us run_id command_id = update_control_status us run_id command_id ''applied''"

definition mark_control_superseded :: "int \<Rightarrow> string \<Rightarrow> string \<Rightarrow> unit tx" where
  "mark_control_superseded us run_id command_id = update_control_status us run_id command_id ''superseded''"

text \<open>The \<open>body\<close> argument of a delivery is not used.\<close>

definition record_control_delivery ::
  "int \<Rightarrow> string \<Rightarrow> string \<Rightarrow> string option \<Rightarrow> string option \<Rightarrow> string \<Rightarrow> bool tx" where
  "record_control_delivery us run_id command_id request_digest fingerprint body db =
     (if \<not> run_open run_id db then Inr (False, db)
      else case map_of (commands db) (run_id, command_id) of None \<Rightarrow> Inr (False, db) | Some row \<Rightarrow>
        if request_digest \<noteq> None \<and> Some (cc_digest row) \<noteq> request_digest then Inl ControlCommandConflict
        else if cc_status row \<noteq> ''admitted'' then Inr (False, db)
        else Inr (True, db\<lparr>commands := update_at (run_id, command_id)
           (\<lambda>c. c\<lparr>cc_status := ''persisted'', cc_fingerprint := fingerprint, cc_updated := to_ms us\<rparr>)
           (commands db)\<rparr>))"

record control_record =
  ctl_run :: string
  ctl_command :: string
  ctl_digest :: "string option"
  ctl_fingerprint :: "string option"
  ctl_body :: string

definition list_pending_control_delivery :: "db \<Rightarrow> control_record list" where
  "list_pending_control_delivery db =
     map (\<lambda>((run_id, command_id), c). \<lparr>ctl_run = run_id, ctl_command = command_id, ctl_digest = Some (cc_digest c),
         ctl_fingerprint = cc_fingerprint c, ctl_body = cc_body c\<rparr>)
       (sort_key fst (select_where (\<lambda>(run_id, _) c. cc_status c = ''persisted'' \<and> run_open run_id db) (commands db)))"

end
