(* ===== verification/Run_Events.thy ===== *)
theory Run_Events
  imports Run_Leases
begin

text \<open>
  The durable events of a run (\<open>src/kokoro_agent/infrastructure/postgres_run_events.py\<close>): critical
  frames are numbered and indexed from the counters of the claim and put into the outbox, receipts
  of the transport move the consumed watermark, and terminal facts are verified against the chat
  log. The sequence and index numbers of a run are allocated nowhere else while it is active.
\<close>

section \<open>The outbox\<close>

text \<open>\<open>json.loads(a) != json.loads(b)\<close>, which may raise.\<close>

definition json_text :: "string \<Rightarrow> json result" where
  "json_text s = (case loads s of None \<Rightarrow> Inl (ValueError ''json'') | Some v \<Rightarrow> Inr v)"

definition same_json_text :: "string \<Rightarrow> string \<Rightarrow> bool result" where
  "same_json_text a b = bind_r (json_text a) (\<lambda>x. bind_r (json_text b) (\<lambda>y. Inr (py_eq x y)))"

record staged_frame =
  sf_seq :: int
  sf_event_id :: string
  sf_index :: int
  sf_timestamp :: int
  sf_published :: bool
  sf_new :: bool

text \<open>\<open>INSERT\<close> with the primary key, the unique event id and the unique index per run.\<close>

definition insert_outbox :: "string \<times> int \<Rightarrow> outbox_row \<Rightarrow> db \<Rightarrow> db result" where
  "insert_outbox k r db =
     (if list_ex (\<lambda>(k', o'). k' = k \<or> ob_event_id o' = ob_event_id r
          \<or> fst k' = fst k \<and> ob_index r \<noteq> None \<and> ob_index o' = ob_index r
            \<and> ob_status r \<noteq> ''superseded'' \<and> ob_status o' \<noteq> ''superseded'') (outbox db)
      then Inl UniqueViolation
      else Inr (db\<lparr>outbox := outbox db @ [(k, r)]\<rparr>))"

definition insert_frame :: "outbox_frame \<Rightarrow> bool \<Rightarrow> db \<Rightarrow> db result" where
  "insert_frame f superseded = insert_outbox (fr_run f, fr_seq f)
     \<lparr>ob_event_id = fr_event_id f, ob_kind = fr_kind f,
      ob_status = (if superseded then ''superseded'' else ''queued''),
      ob_index = (if superseded then None else Some (fr_index f)),
      ob_occurred = fr_timestamp f, ob_payload = fr_payload f, ob_published = None\<rparr>"

section \<open>Staging a frame\<close>

definition replayed_frame :: "int \<Rightarrow> outbox_row \<Rightarrow> int \<Rightarrow> staged_frame" where
  "replayed_frame seq r index = \<lparr>sf_seq = seq, sf_event_id = ob_event_id r, sf_index = index,
     sf_timestamp = ob_occurred r, sf_published = ob_status r = ''published'', sf_new = False\<rparr>"

text \<open>The first \<open>run.started\<close> fact of a run, when it was staged before.\<close>

definition started_before :: "string \<Rightarrow> string \<Rightarrow> db \<Rightarrow> staged_frame option result" where
  "started_before run_id payload db =
     (case take 2 (sort_key fst (select_where (\<lambda>(r, _) o'. r = run_id \<and> ob_kind o' = ''run.started''
          \<and> ob_status o' \<in> {''queued'', ''published''}) (outbox db))) of
        [] \<Rightarrow> Inr None
      | [((_, seq), r)] \<Rightarrow>
          (case ob_index r of None \<Rightarrow> Inl (RuntimeError ''run.started identity drift'')
           | Some i \<Rightarrow> bind_r (same_json_text (ob_payload r) payload) (\<lambda>same.
               if \<not> same then Inl (RuntimeError ''run.started identity drift'')
               else Inr (Some (replayed_frame seq r i))))
      | _ \<Rightarrow> Inl (RuntimeError ''duplicate durable run.started facts''))"

definition delivery_before :: "string \<Rightarrow> string \<Rightarrow> string \<Rightarrow> db \<Rightarrow> staged_frame option result" where
  "delivery_before run_id event_id payload db =
     (case filter (\<lambda>(_, r). ob_event_id r = event_id) (outbox db) of
        [] \<Rightarrow> Inr None
      | ((run', seq), r) # _ \<Rightarrow>
          if run' \<noteq> run_id \<or> ob_kind r \<noteq> ''delivery.created'' \<or> ob_payload r \<noteq> payload
          then Inl (RuntimeError ''delivery event identity drift'')
          else (case ob_index r of None \<Rightarrow> Inl (RuntimeError ''delivery event identity drift'')
            | Some i \<Rightarrow> Inr (Some (replayed_frame seq r i))))"

text \<open>
  A fresh frame: the next sequence number, and the next event index unless the run's terminal
  fence is behind, in which case the frame is only kept as superseded. The keyword argument
  \<open>terminal\<close> is False here, since a terminal call is rejected at the start.
\<close>

definition stage_new ::
  "string \<Rightarrow> string \<Rightarrow> string \<Rightarrow> int \<Rightarrow> string \<Rightarrow> claim \<Rightarrow> staged_frame option tx" where
  "stage_new run_id event_id kind timestamp payload c db =
     (let seq = cl_durable c + 1; index = cl_index c;
          frame = \<lparr>fr_run = run_id, fr_seq = seq, fr_event_id = event_id, fr_kind = kind,
                   fr_index = index, fr_timestamp = timestamp, fr_payload = payload\<rparr> in
      if (case cl_fence_seq c of None \<Rightarrow> False | Some fence \<Rightarrow> fence < seq)
      then bind_r (update_claim run_id (\<lambda>_. True) (\<lambda>c. c\<lparr>cl_durable := seq\<rparr>) db) (\<lambda>(_, db).
           bind_r (insert_frame frame True db) (\<lambda>db. Inr (None, db)))
      else bind_r (update_claim run_id (\<lambda>_. True) (\<lambda>c. c\<lparr>cl_durable := seq, cl_index := index + 1\<rparr>) db)
           (\<lambda>(_, db).
           bind_r (insert_frame frame False (ensure_receipt_manifest run_id timestamp db)) (\<lambda>db.
           Inr (Some \<lparr>sf_seq = seq, sf_event_id = event_id, sf_index = index, sf_timestamp = timestamp,
                      sf_published = False, sf_new = True\<rparr>, db))))"

definition stage_critical_frame ::
  "int \<Rightarrow> string \<Rightarrow> string \<Rightarrow> lease_fence \<Rightarrow> string \<Rightarrow> int \<Rightarrow> string \<Rightarrow> bool \<Rightarrow> string option
    \<Rightarrow> staged_frame option tx" where
  "stage_critical_frame us uuid_hex run_id lease kind timestamp payload is_terminal_call event_id db =
     (if is_terminal_call \<or> kind \<in> {''run.completed'', ''run.failed''}
      then Inl (ValueError ''terminal facts must use finalize_terminal'')
      else let event_id = (case event_id of None \<Rightarrow> ''evt_'' @ uuid_hex
               | Some e \<Rightarrow> if e = [] then ''evt_'' @ uuid_hex else e) in
      if \<not> (if kind = ''run.started'' then lock_active_lease us run_id lease db else lock_fence run_id lease db)
      then Inr (None, db)
      else bind_r (if kind = ''run.started'' then started_before run_id payload db
                   else if kind = ''delivery.created'' then delivery_before run_id event_id payload db
                   else Inr None) (\<lambda>before.
        case before of
          Some f \<Rightarrow> Inr (Some f, db)
        | None \<Rightarrow> (case map_of (claims db) run_id of
              None \<Rightarrow> Inl AssertionError
            | Some c \<Rightarrow> stage_new run_id event_id kind timestamp payload c db)))"

definition next_event_index :: "string \<Rightarrow> db \<Rightarrow> int" where
  "next_event_index run_id db = (case map_of (claims db) run_id of None \<Rightarrow> 0 | Some c \<Rightarrow> cl_index c)"

definition reserve_event_index :: "int \<Rightarrow> string \<Rightarrow> lease_fence \<Rightarrow> int option tx" where
  "reserve_event_index us run_id lease db =
     (if \<not> lock_active_lease us run_id lease db then Inr (None, db)
      else bind_r (update_claim run_id (\<lambda>_. True) (\<lambda>c. c\<lparr>cl_index := cl_index c + 1\<rparr>) db) (\<lambda>(r, db).
        case r of None \<Rightarrow> Inl (RuntimeError ''failed to reserve an event index'')
        | Some c \<Rightarrow> Inr (Some (cl_index c - 1), db)))"

definition mark_critical_published :: "int \<Rightarrow> string \<Rightarrow> int \<Rightarrow> unit tx" where
  "mark_critical_published now run_id durable_seq db = Inr ((), db\<lparr>outbox := update_where
     (\<lambda>k r. k = (run_id, durable_seq) \<and> ob_status r = ''queued'')
     (\<lambda>r. r\<lparr>ob_status := ''published'', ob_published := Some now\<rparr>) (outbox db)\<rparr>)"

definition list_unpublished_outbox :: "db \<Rightarrow> outbox_frame list result" where
  "list_unpublished_outbox db = traverse outbox_row_to_frame (fetch_queued_outbox db)"

definition open_frames :: "string \<Rightarrow> db \<Rightarrow> ((string \<times> int) \<times> outbox_row) list" where
  "open_frames run_id db =
     select_where (\<lambda>(r, _) o'. r = run_id \<and> ob_status o' \<in> {''queued'', ''published''}) (outbox db)"

definition list_open_outbox_runs :: "db \<Rightarrow> string list" where
  "list_open_outbox_runs db = sort (remdups (map (fst \<circ> fst)
     (select_where (\<lambda>_ r. ob_status r \<in> {''queued'', ''published''}) (outbox db))))"


section \<open>Receipts\<close>

record receipt_reconcile =
  rr_rejected :: "int option"
  rr_lost :: bool
  rr_consumed :: "int option"
  rr_close :: bool

definition reconciled :: receipt_reconcile where
  "reconciled = \<lparr>rr_rejected = None, rr_lost = False, rr_consumed = None, rr_close = False\<rparr>"

definition run_receipts :: "string \<Rightarrow> db \<Rightarrow> (int, receipt_row) table" where
  "run_receipts run_id db = map (\<lambda>((_, seq), r). (seq, r)) (select_where (\<lambda>(r, _) _. r = run_id) (receipts db))"

text \<open>
  The \<open>while True\<close> loop: the watermark moves over consecutive sequence numbers whose receipt is
  persisted and names the event of the live frame. Every round passes one more receipt.
\<close>

function advance_consumed :: "(int, receipt_row) table \<Rightarrow> (int, string) table \<Rightarrow> int \<Rightarrow> int" where
  "advance_consumed rs live advanced =
     (case map_of rs (advanced + 1) of None \<Rightarrow> advanced | Some receipt \<Rightarrow>
        if rcp_status receipt \<noteq> ''persisted'' then advanced
        else case map_of live (advanced + 1) of None \<Rightarrow> advanced | Some event_id \<Rightarrow>
          if event_id \<noteq> rcp_event_id receipt then advanced
          else advance_consumed rs live (advanced + 1))"
  by pat_completeness auto
termination
proof (relation "measure (\<lambda>(rs, _, a). length (filter (\<lambda>(s, _). a < s) rs))")
  fix rs :: "(int, receipt_row) table" and live :: "(int, string) table" and a :: int and receipt event_id
  assume "map_of rs (a + 1) = Some receipt"
  then have "(a + 1, receipt) \<in> set rs"
    by (rule map_of_SomeD)
  moreover have "length (filter (\<lambda>(s, _). b < s) ts) \<le> length (filter (\<lambda>(s, _). a < s) ts)"
    if "a \<le> b" for b and ts :: "(int, receipt_row) table"
    using that by (induction ts) auto
  ultimately show "((rs, live, a + 1), (rs, live, a)) \<in> measure (\<lambda>(rs, _, a). length (filter (\<lambda>(s, _). a < s) rs))"
    by (induction rs) (auto simp: less_Suc_eq_le)
qed simp

declare advance_consumed.simps [simp del]

text \<open>
  The manifest exists when the upsert runs, so only its \<open>DO UPDATE\<close> part takes effect.
\<close>

definition consumed_garbage :: "string \<Rightarrow> int \<Rightarrow> db \<Rightarrow> string \<times> int \<Rightarrow> outbox_row \<Rightarrow> bool" where
  "consumed_garbage run_id advanced db k r \<longleftrightarrow> fst k = run_id \<and> snd k \<le> advanced
     \<and> (ob_kind r \<noteq> ''delivery.created'' \<or> is_terminal run_id db)"

definition reconcile_manifest :: "int \<Rightarrow> string \<Rightarrow> claim \<Rightarrow> manifest_row \<Rightarrow> receipt_reconcile tx" where
  "reconcile_manifest now run_id c m db =
     (let live = map (\<lambda>((_, seq), r). (seq, ob_event_id r)) (open_frames run_id db);
          advanced = advance_consumed (run_receipts run_id db) live (mf_consumed m);
          moved = mf_consumed m < advanced;
          ms = (if moved then update_at run_id (\<lambda>m. m\<lparr>mf_consumed := advanced, mf_updated := now\<rparr>) (manifests db)
                else manifests db);
          frames = delete_where (consumed_garbage run_id advanced db) (outbox db);
          close = (case cl_fence_seq c of None \<Rightarrow> False
            | Some fence \<Rightarrow> fence \<le> advanced \<and> open_frames run_id (db\<lparr>outbox := frames\<rparr>) = []);
          ms' = (if close then update_where (\<lambda>k m. k = run_id \<and> \<not> mf_close_requested m)
                   (\<lambda>m. m\<lparr>mf_close_requested := True, mf_updated := now\<rparr>) ms
                 else ms) in
      Inr (reconciled\<lparr>rr_consumed := (if moved then Some advanced else None), rr_close := close\<rparr>,
           db\<lparr>manifests := ms', outbox := frames\<rparr>))"

definition reconcile_receipts :: "int \<Rightarrow> string \<Rightarrow> receipt_reconcile tx" where
  "reconcile_receipts now run_id db =
     (case map_of (claims db) run_id of
        None \<Rightarrow> Inr (reconciled\<lparr>rr_lost := True\<rparr>, db)
      | Some c \<Rightarrow>
        if open_frames run_id db = [] then Inr (reconciled, db)
        else let rs = run_receipts run_id db;
                 rejected = map fst (filter (\<lambda>(_, r). rcp_status r = ''rejected'') rs) in
        if rejected \<noteq> [] then Inr (reconciled\<lparr>rr_rejected := Some (hd (sort rejected))\<rparr>, db)
        else case map_of (manifests db) run_id of
          None \<Rightarrow> Inr (reconciled\<lparr>rr_lost := rs \<noteq> []\<rparr>, db)
        | Some m \<Rightarrow> reconcile_manifest now run_id c m db)"

section \<open>Delivery and terminal facts\<close>

definition delivery_event_id :: "(string \<Rightarrow> string) \<Rightarrow> string \<Rightarrow> string \<Rightarrow> string" where
  "delivery_event_id sha256_hex run_id tool_id =
     ''evt_'' @ sha256_hex (join [CHR 0x00] [''delivery'', run_id, tool_id])"

definition terminal_event_id :: "(string \<Rightarrow> string) \<Rightarrow> string \<Rightarrow> string" where
  "terminal_event_id sha256_hex run_id = ''evt_'' @ sha256_hex (join [CHR 0x00] [''terminal'', run_id])"

definition delivery_journal :: "string \<Rightarrow> db \<Rightarrow> (string \<times> string \<times> string) list" where
  "delivery_journal run_id db = map (\<lambda>((_, tool_id), r). (tool_id, tj_status r, tj_result r))
     (sort_key (\<lambda>((_, tool_id), r). (tj_created r, tool_id))
       (select_where (\<lambda>(r, _) j. r = run_id \<and> tj_name j = ''deliver'') (tool_journal db)))"

text \<open>One delivered tool call: its outbox frame and its chat fact agree.\<close>

definition delivered_ok ::
  "(string \<Rightarrow> string) \<Rightarrow> (string \<Rightarrow> string) \<Rightarrow> run_request \<Rightarrow> db \<Rightarrow> string \<Rightarrow> bool result" where
  "delivered_ok sha256_hex uuid5_hex q db tool_id =
     (let run_id = rq_run_id q; tenant = ei_tenant_ref (rq_identity q);
          namespace = sc_namespace (scope_of sha256_hex q) in
      case filter (\<lambda>((r, _), o'). r = run_id \<and> ob_event_id o' = delivery_event_id sha256_hex run_id tool_id
          \<and> ob_kind o' = ''delivery.created'') (open_frames run_id db) of
        [] \<Rightarrow> Inr False
      | (_, o') # _ \<Rightarrow> (case ob_index o' of None \<Rightarrow> Inr False | Some i \<Rightarrow>
          (case get_event (chat db) tenant namespace run_id i of None \<Rightarrow> Inr False | Some e \<Rightarrow>
            if ce_session e \<noteq> rq_session_id q \<or> ce_type e \<noteq> ''delivery''
               \<or> ce_id e \<noteq> chat_event_id uuid5_hex namespace run_id i then Inr False
            else same_json_text (ob_payload o') (ce_payload_json e))))"

fun all_delivered :: "(string \<Rightarrow> bool result) \<Rightarrow> (string \<times> string \<times> string) list \<Rightarrow> bool result" where
  "all_delivered check [] = Inr True"
| "all_delivered check ((tool_id, status, _) # xs) =
     (if status \<noteq> ''succeeded'' then all_delivered check xs
      else bind_r (check tool_id) (\<lambda>ok. if ok then all_delivered check xs else Inr False))"

definition delivery_ready ::
  "(string \<Rightarrow> string) \<Rightarrow> (string \<Rightarrow> string) \<Rightarrow> run_request \<Rightarrow> (string \<times> string \<times> string) list \<Rightarrow> db \<Rightarrow> bool result" where
  "delivery_ready sha256_hex uuid5_hex q snapshot db =
     (let observed = delivery_journal (rq_run_id q) db in
      if observed \<noteq> snapshot \<or> list_ex (\<lambda>(_, status, _). status = ''started'') observed then Inr False
      else all_delivered (delivered_ok sha256_hex uuid5_hex q db) observed)"

definition terminal_chat ::
  "(string \<Rightarrow> string) \<Rightarrow> (string \<Rightarrow> string) \<Rightarrow> run_request \<Rightarrow> claim \<Rightarrow> db \<Rightarrow> chat_event_record result" where
  "terminal_chat sha256_hex uuid5_hex q row db =
     (let index = cl_index row - 1; namespace = sc_namespace (scope_of sha256_hex q) in
      case get_event (chat db) (ei_tenant_ref (rq_identity q)) namespace (rq_run_id q) index of
        None \<Rightarrow> Inl (RuntimeError ''terminal Chat identity is missing or corrupt'')
      | Some e \<Rightarrow>
          if ce_session e = rq_session_id q \<and> ce_id e = chat_event_id uuid5_hex namespace (rq_run_id q) index
             \<and> ce_type e \<in> {''run.completed'', ''run.failed''}
             \<and> Some (ce_created_at e) = map_option (\<lambda>t. t * 1000) (cl_terminal_at row)
          then Inr e
          else Inl (RuntimeError ''terminal Chat identity is missing or corrupt''))"

text \<open>The \<open>except (TypeError, ValueError)\<close> makes a failing comparison False.\<close>

definition quarantine_audit_matches :: "claim \<Rightarrow> (int \<times> outbox_row) option \<Rightarrow> agent_payload \<Rightarrow> bool" where
  "quarantine_audit_matches row audit payload = (case audit of None \<Rightarrow> False | Some (seq, a) \<Rightarrow>
     ob_status a = ''superseded'' \<and> ob_kind a = ''run.failed'' \<and> ob_index a = None \<and> ob_published a = None
     \<and> cl_terminal_at row = Some (ob_occurred a) \<and> seq = cl_durable row
     \<and> (case cl_fence_seq row of None \<Rightarrow> False | Some fence \<Rightarrow> fence < seq)
     \<and> (case loads (ob_payload a) of None \<Rightarrow> False | Some v \<Rightarrow> py_eq v (enc_payload payload)))"

definition parse_terminal_payload :: "string \<Rightarrow> string \<Rightarrow> agent_payload result" where
  "parse_terminal_payload kind s = (case loads s of None \<Rightarrow> Inl (ValidationError ''json'') | Some v \<Rightarrow>
     if kind = ''run.completed'' then map_sum id RunCompletedP (dec_run_completed_payload v)
     else map_sum id RunFailedP (dec_run_failed_payload v))"

definition verify_terminal_frame ::
  "(string \<Rightarrow> string) \<Rightarrow> (string \<Rightarrow> string) \<Rightarrow> outbox_frame \<Rightarrow> db \<Rightarrow> unit result" where
  "verify_terminal_frame sha256_hex uuid5_hex frame db =
     (case map_of (claims db) (fr_run frame) of
        None \<Rightarrow> Inl (RuntimeError ''terminal frame has no committed Run'')
      | Some row \<Rightarrow>
        if \<not> cl_terminal row then Inl (RuntimeError ''terminal frame has no committed Run'')
        else if Some (fr_seq frame) \<noteq> cl_fence_seq row \<or> fr_index frame \<noteq> cl_index row - 1
          \<or> fr_event_id frame \<noteq> terminal_event_id sha256_hex (fr_run frame)
        then Inl (RuntimeError ''terminal frame identity drift'')
        else case cl_terminal_at row of None \<Rightarrow> Inl (ValueError ''terminal_at'') | Some terminal_at \<Rightarrow>
        if fr_timestamp frame \<noteq> terminal_at then Inl (RuntimeError ''terminal frame identity drift'')
        else bind_r (case map_of (open_frames (fr_run frame) db) (fr_run frame, fr_seq frame) of
            None \<Rightarrow> Inl (RuntimeError ''terminal frame is not retained'')
          | Some r \<Rightarrow> outbox_row_to_frame ((fr_run frame, fr_seq frame), r)) (\<lambda>stored.
        if stored \<noteq> frame then Inl (RuntimeError ''terminal frame is not retained'')
        else bind_r (case cl_request row of None \<Rightarrow> Inl (ValidationError ''json'') | Some s \<Rightarrow> parse_request s) (\<lambda>q.
        bind_r (terminal_chat sha256_hex uuid5_hex q row db) (\<lambda>fact.
        bind_r (parse_terminal_payload (fr_kind frame) (fr_payload frame)) (\<lambda>payload.
        bind_r (project_chat_fact sha256_hex uuid5_hex (ei_tenant_ref (rq_identity q))
            (sc_namespace (scope_of sha256_hex q)) (rq_session_id q) (fr_run frame) (fr_index frame)
            (AwareTime (terminal_at * 1000)) payload) (\<lambda>projection.
        case projection of None \<Rightarrow> Inl AssertionError | Some p \<Rightarrow>
          if ce_type fact \<noteq> ce_type (cp_event p) then Inl (RuntimeError ''terminal Chat payload drift'')
          else bind_r (same_json_text (ce_payload_json fact) (ce_payload_json (cp_event p))) (\<lambda>same.
            if same then Inr () else Inl (RuntimeError ''terminal Chat payload drift''))))))))"

end
