(* ===== verification/Run_Effects.thy ===== *)
theory Run_Effects
  imports Run_Events
begin

text \<open>
  The effects of an execution (\<open>src/kokoro_agent/infrastructure/postgres_run_effects.py\<close>): steering
  messages, tool results kept first, and the tool journal with the staged delivery intent. Every
  write of an execution is made under its active lease.
\<close>

section \<open>Delivery intents\<close>

definition delivery_base_keys :: "string list" where
  "delivery_base_keys = [''version'', ''run_id'', ''session_id'', ''tenant_ref'', ''subject_ref'', ''tool_call_id'',
     ''path'', ''title'', ''note'', ''mime_type'', ''size_bytes'', ''content_sha256'']"

definition delivery_admitted_keys :: "string list" where
  "delivery_admitted_keys = delivery_base_keys @ [''upload_id'']"

definition delivery_selected_keys :: "string list" where
  "delivery_selected_keys = delivery_admitted_keys
     @ [''source_version_id'', ''complete_command_id'', ''complete_request_digest'']"

definition delivery_text_keys :: "string list" where
  "delivery_text_keys = filter (\<lambda>k. k \<notin> {''version'', ''size_bytes''}) delivery_base_keys"

definition delivery_digest :: "(string \<Rightarrow> string) \<Rightarrow> json \<Rightarrow> string" where
  "delivery_digest sha256_hex v = sha256_hex (dumps_compact True (sort_json v))"

definition key_stage :: "(string \<times> json) list \<Rightarrow> nat option" where
  "key_stage v = (let keys = set (map fst v) in
     if keys = set delivery_base_keys then Some 0
     else if keys = set delivery_admitted_keys then Some 1
     else if keys = set delivery_selected_keys then Some 2 else None)"

definition as_text :: "json option \<Rightarrow> string option" where
  "as_text v = (case v of Some (JStr s) \<Rightarrow> Some s | _ \<Rightarrow> None)"

definition source_version_ok :: "string \<Rightarrow> bool" where
  "source_version_ok s \<longleftrightarrow> s \<noteq> [] \<and> length s \<le> 512 \<and> s \<noteq> ''null'' \<and> py_strip s \<noteq> []
     \<and> list_all (\<lambda>c. let n = of_char c :: nat in 32 \<le> n \<and> n \<noteq> 127) s"

definition selected_ok :: "(string \<Rightarrow> string) \<Rightarrow> (string \<times> json) list \<Rightarrow> bool" where
  "selected_ok sha256_hex v \<longleftrightarrow> (let at = (\<lambda>k. case map_of v k of None \<Rightarrow> JNull | Some x \<Rightarrow> x);
       seed = delivery_digest sha256_hex (JList [at ''run_id'', at ''tool_call_id'']);
       fields = JList [at ''upload_id'', at ''content_sha256'', at ''size_bytes'', at ''source_version_id''] in
     (case as_text (map_of v ''source_version_id'') of None \<Rightarrow> False | Some s \<Rightarrow> source_version_ok s)
     \<and> at ''complete_command_id''
         = JStr (delivery_digest sha256_hex (JList [JStr ''delivery-v2'', JStr seed, JStr ''complete_upload'']))
     \<and> at ''complete_request_digest''
         = JStr (delivery_digest sha256_hex (JList [JStr ''delivery-v2'', JStr ''complete_upload'', fields])))"

definition delivery_stage :: "(string \<Rightarrow> string) \<Rightarrow> (string \<times> json) list \<Rightarrow> nat option" where
  "delivery_stage sha256_hex v =
     (if map_of v ''version'' \<noteq> Some (JInt 2) then None
      else case key_stage v of None \<Rightarrow> None | Some stage \<Rightarrow>
        if \<not> list_all (\<lambda>k. as_text (map_of v k) \<noteq> None) delivery_text_keys then None
        else if \<not> (case map_of v ''size_bytes'' of Some (JInt n) \<Rightarrow> 0 \<le> n | _ \<Rightarrow> False)
          \<or> \<not> (case as_text (map_of v ''content_sha256'') of None \<Rightarrow> False | Some d \<Rightarrow> hex64 d) then None
        else if 1 \<le> stage \<and> as_text (map_of v ''upload_id'') \<in> {None, Some []} then None
        else if stage = 2 \<and> \<not> selected_ok sha256_hex v then None
        else Some stage)"

text \<open>\<open>_INTENT.validate_json\<close>.\<close>

definition parse_intent :: "string \<Rightarrow> (string \<times> json) list option" where
  "parse_intent s = (case loads s of Some (JObj v) \<Rightarrow> Some v | _ \<Rightarrow> None)"

section \<open>Steering\<close>

text \<open>
  \<open>add_steer\<close> reads the claim in one transaction and inserts in another: \<open>other\<close> is what other
  transactions commit in between.
\<close>

definition insert_steer :: "int \<Rightarrow> string \<Rightarrow> string \<Rightarrow> string \<Rightarrow> db \<Rightarrow> db" where
  "insert_steer now run_id message_id content db =
     db\<lparr>steers := insert_new (run_id, message_id) \<lparr>st_content = content, st_created = now\<rparr> (steers db)\<rparr>"

definition add_steer :: "(db \<Rightarrow> db) \<Rightarrow> int \<Rightarrow> string \<Rightarrow> string \<Rightarrow> string \<Rightarrow> db \<Rightarrow> db" where
  "add_steer other now run_id message_id content db =
     (if \<not> run_open run_id db then db
      else insert_steer now run_id message_id content (other db))"

definition peek_steers :: "string \<Rightarrow> db \<Rightarrow> (string \<times> string) list" where
  "peek_steers run_id db = map (\<lambda>((_, message_id), s). (message_id, st_content s))
     (sort_key (\<lambda>((_, message_id), s). (st_created s, message_id)) (select_where (\<lambda>(r, _) _. r = run_id) (steers db)))"

definition ack_steers :: "int \<Rightarrow> int \<Rightarrow> string \<Rightarrow> lease_fence \<Rightarrow> string list \<Rightarrow> bool tx" where
  "ack_steers now us run_id lease message_ids db =
     (if message_ids = [] then Inr (is_lease_current now run_id lease db, db)
      else if \<not> lock_active_lease us run_id lease db then Inr (False, db)
      else Inr (True, db\<lparr>steers := delete_where
          (\<lambda>(r, m) _. r = run_id \<and> List.member message_ids m) (steers db)\<rparr>))"

section \<open>Tool results\<close>

definition put_tool_result ::
  "int \<Rightarrow> string \<Rightarrow> lease_fence \<Rightarrow> string \<Rightarrow> string \<Rightarrow> bool \<Rightarrow> (string \<times> bool) option tx" where
  "put_tool_result us run_id lease tool_id result is_error db =
     (if \<not> lock_active_lease us run_id lease db then Inr (None, db)
      else let t = insert_new (run_id, tool_id) \<lparr>tl_result = result, tl_is_error = is_error\<rparr> (tool_results db) in
        case map_of t (run_id, tool_id) of
          None \<Rightarrow> Inl (RuntimeError ''tool result missing after insert'')
        | Some r \<Rightarrow> Inr (Some (tl_result r, tl_is_error r), db\<lparr>tool_results := t\<rparr>))"

definition get_tool_result :: "string \<Rightarrow> string \<Rightarrow> db \<Rightarrow> (string \<times> bool) option" where
  "get_tool_result run_id tool_id db =
     map_option (\<lambda>r. (tl_result r, tl_is_error r)) (map_of (tool_results db) (run_id, tool_id))"

section \<open>The tool journal\<close>

text \<open>\<open>created\<close> is the start of the transaction, which dates the row.\<close>

definition journal_tool_started :: "int \<Rightarrow> int \<Rightarrow> string \<Rightarrow> lease_fence \<Rightarrow> string \<Rightarrow> string \<Rightarrow> bool tx" where
  "journal_tool_started created us run_id lease tool_call_id name db =
     (if \<not> lock_active_lease us run_id lease db then Inr (False, db)
      else case map_of (tool_journal db) (run_id, tool_call_id) of
        Some _ \<Rightarrow> Inr (False, db)
      | None \<Rightarrow> Inr (True, db\<lparr>tool_journal := insert_new (run_id, tool_call_id)
          \<lparr>tj_name = name, tj_status = ''started'', tj_result = [], tj_is_error = False, tj_created = created\<rparr>
          (tool_journal db)\<rparr>))"

definition intent_follows :: "(string \<Rightarrow> string) \<Rightarrow> string \<Rightarrow> (string \<times> json) list \<Rightarrow> nat \<Rightarrow> bool" where
  "intent_follows sha256_hex previous proposed proposed_stage \<longleftrightarrow>
     (if previous = [] then proposed_stage = 0
      else case parse_intent previous of None \<Rightarrow> False | Some prior \<Rightarrow>
        (case delivery_stage sha256_hex prior of None \<Rightarrow> False | Some prior_stage \<Rightarrow>
           prior_stage \<le> proposed_stage \<and> proposed_stage \<le> prior_stage + 1
           \<and> set (map fst prior) \<subseteq> set (map fst proposed)
           \<and> list_all (\<lambda>(k, v). case map_of proposed k of None \<Rightarrow> False | Some w \<Rightarrow> json_exact w v) prior))"

definition journal_delivery_intent ::
  "(string \<Rightarrow> string) \<Rightarrow> int \<Rightarrow> string \<Rightarrow> lease_fence \<Rightarrow> string \<Rightarrow> string \<Rightarrow> bool tx" where
  "journal_delivery_intent sha256_hex us run_id lease tool_call_id intent_text db =
     (case parse_intent intent_text of None \<Rightarrow> Inr (False, db) | Some proposed \<Rightarrow>
     (case delivery_stage sha256_hex proposed of None \<Rightarrow> Inr (False, db) | Some stage \<Rightarrow>
      if \<not> lock_active_lease us run_id lease db then Inr (False, db)
      else case map_of (tool_journal db) (run_id, tool_call_id) of None \<Rightarrow> Inr (False, db) | Some row \<Rightarrow>
        if tj_name row \<noteq> ''deliver'' \<or> tj_status row \<noteq> ''started''
          \<or> \<not> intent_follows sha256_hex (tj_result row) proposed stage then Inr (False, db)
        else Inr (True, db\<lparr>tool_journal := update_where
            (\<lambda>k j. k = (run_id, tool_call_id) \<and> tj_status j = ''started'')
            (\<lambda>j. j\<lparr>tj_result := intent_text\<rparr>) (tool_journal db)\<rparr>)))"

definition journal_tool_finished ::
  "int \<Rightarrow> string \<Rightarrow> lease_fence \<Rightarrow> string \<Rightarrow> string \<Rightarrow> bool \<Rightarrow> bool tx" where
  "journal_tool_finished us run_id lease tool_call_id result is_error db =
     (if \<not> lock_active_lease us run_id lease db then Inr (False, db)
      else case map_of (tool_journal db) (run_id, tool_call_id) of None \<Rightarrow> Inr (False, db) | Some row \<Rightarrow>
        if tj_status row \<noteq> ''started'' then Inr (False, db)
        else Inr (True, db\<lparr>tool_journal := update_at (run_id, tool_call_id)
            (\<lambda>j. j\<lparr>tj_status := (if is_error then ''failed'' else ''succeeded''), tj_result := result,
                  tj_is_error := is_error\<rparr>) (tool_journal db)\<rparr>))"

definition clear_tool_journal :: "int \<Rightarrow> string \<Rightarrow> lease_fence \<Rightarrow> string \<Rightarrow> bool tx" where
  "clear_tool_journal us run_id lease tool_call_id db =
     (if \<not> lock_active_lease us run_id lease db then Inr (False, db)
      else Inr (True, db\<lparr>tool_journal := delete_where (\<lambda>k _. k = (run_id, tool_call_id)) (tool_journal db)\<rparr>))"

definition get_tool_journal :: "string \<Rightarrow> string \<Rightarrow> db \<Rightarrow> journal_row option" where
  "get_tool_journal run_id tool_call_id db = map_of (tool_journal db) (run_id, tool_call_id)"

end
