(* ===== verification/Run_Sandbox.thy ===== *)
theory Run_Sandbox
  imports Run_Leases
begin

text \<open>
  The sandbox of a run (\<open>src/kokoro_agent/infrastructure/postgres_run_sandbox.py\<close>): binding a
  sandbox to the current lease generation by compare and set, and the durable queue of cleanup
  intents that workers claim, complete or reschedule. \<open>_insert_sandbox_cleanup\<close> of this file is a
  copy of the one in \<open>postgres_run_context.py\<close> and has the same model.
\<close>

definition sandbox_kinds :: "string list" where
  "sandbox_kinds = [''docker'', ''e2b'', ''custom'']"

definition bind_sandbox_id ::
  "int \<Rightarrow> string \<Rightarrow> lease_fence \<Rightarrow> string option \<Rightarrow> string \<Rightarrow> string \<Rightarrow> string \<Rightarrow> string option tx" where
  "bind_sandbox_id us run_id lease expected sandbox_id backend_kind teardown_ref db =
     (if py_strip sandbox_id = [] then Inl (ValueError ''sandbox_id must be non-empty'')
      else if backend_kind \<notin> set sandbox_kinds
      then Inl (ValueError ''sandbox backend must have a managed lifecycle'')
      else if py_strip teardown_ref = [] then Inl (ValueError ''sandbox teardown_ref must be non-empty'')
      else if \<not> lock_active_lease us run_id lease db then Inr (None, db)
      else case map_of (claims db) run_id of None \<Rightarrow> Inr (None, db) | Some c \<Rightarrow>
        if cl_sandbox_id c \<noteq> None \<and> cl_sandbox_generation c = Some (lf_generation lease)
        then Inr (cl_sandbox_id c, db)
        else if cl_sandbox_id c \<noteq> expected then Inr (cl_sandbox_id c, db)
        else bind_r (update_claim run_id (\<lambda>c. fenced c lease)
            (if cl_sandbox_id c = Some sandbox_id
             then (\<lambda>c. c\<lparr>cl_sandbox_generation := Some (lf_generation lease)\<rparr>)
             else (\<lambda>c. c\<lparr>cl_sandbox_id := Some sandbox_id, cl_sandbox_generation := Some (lf_generation lease),
                        cl_sandbox_kind := Some backend_kind, cl_sandbox_ref := Some teardown_ref\<rparr>)) db)
          (\<lambda>(r, db). Inr (case r of None \<Rightarrow> None | Some c \<Rightarrow> cl_sandbox_id c, db)))"

definition get_sandbox_id :: "string \<Rightarrow> db \<Rightarrow> string option" where
  "get_sandbox_id run_id db = (case map_of (claims db) run_id of None \<Rightarrow> None | Some c \<Rightarrow> cl_sandbox_id c)"

definition register_sandbox_cleanup ::
  "(string \<Rightarrow> string) \<Rightarrow> int \<Rightarrow> string \<Rightarrow> int \<Rightarrow> string \<Rightarrow> string \<Rightarrow> string \<Rightarrow> sandbox_cleanup_intent tx" where
  "register_sandbox_cleanup sha256_hex now run_id lease_generation backend_kind sandbox_id teardown_ref db =
     (if lease_generation < 1 then Inl (ValueError ''sandbox cleanup lease_generation must be positive'')
      else if backend_kind \<notin> set sandbox_kinds
      then Inl (ValueError ''sandbox cleanup backend must have a managed lifecycle'')
      else if py_strip sandbox_id = [] \<or> py_strip teardown_ref = []
      then Inl (ValueError ''sandbox cleanup identity must be non-empty'')
      else insert_sandbox_cleanup sha256_hex run_id lease_generation backend_kind sandbox_id teardown_ref now db)"

text \<open>\<open>FOR UPDATE SKIP LOCKED\<close>: the rows that another transaction holds are passed over.\<close>

definition cleanup_due :: "int \<Rightarrow> string option \<Rightarrow> (string \<Rightarrow> bool) \<Rightarrow> string \<Rightarrow> cleanup_row \<Rightarrow> bool" where
  "cleanup_due now run_id locked k r \<longleftrightarrow> cu_status r \<in> {''pending'', ''processing''} \<and> cu_next r \<le> now
     \<and> (run_id = None \<or> run_id = Some (cu_run r)) \<and> \<not> locked k"

definition due_cleanups ::
  "int \<Rightarrow> string option \<Rightarrow> (string \<Rightarrow> bool) \<Rightarrow> int \<Rightarrow> db \<Rightarrow> string list" where
  "due_cleanups now run_id locked limit db = take (nat limit) (map fst
     (sort_key (\<lambda>(k, r). (cu_next r, cu_created r, k)) (select_where (cleanup_due now run_id locked) (cleanups db))))"

definition claim_cleanup_rows ::
  "int \<Rightarrow> string \<Rightarrow> string option \<Rightarrow> (string \<Rightarrow> bool) \<Rightarrow> int \<Rightarrow> int \<Rightarrow> (string \<times> cleanup_row) list tx" where
  "claim_cleanup_rows now owner run_id locked limit lease_ms db =
     (if py_strip owner = [] then Inl (ValueError ''sandbox cleanup owner must be non-empty'')
      else if limit < 1 \<or> 1000 < limit
      then Inl (ValueError ''sandbox cleanup claim limit must be between 1 and 1000'')
      else if lease_ms < 1 then Inl (ValueError ''sandbox cleanup claim lease must be positive'')
      else let due = due_cleanups now run_id locked limit db;
               t = update_where (\<lambda>k _. List.member due k)
                 (\<lambda>r. r\<lparr>cu_status := ''processing'', cu_owner := Some owner, cu_attempts := cu_attempts r + 1,
                       cu_next := now + lease_ms, cu_updated := now\<rparr>) (cleanups db) in
        Inr (select_where (\<lambda>k _. List.member due k) t, db\<lparr>cleanups := t\<rparr>))"

definition claim_sandbox_cleanups ::
  "int \<Rightarrow> string \<Rightarrow> string option \<Rightarrow> (string \<Rightarrow> bool) \<Rightarrow> int \<Rightarrow> int \<Rightarrow> sandbox_cleanup_intent list act" where
  "claim_sandbox_cleanups now owner run_id locked limit lease_ms =
     then_return (claim_cleanup_rows now owner run_id locked limit lease_ms)
       (traverse (\<lambda>(k, r). sandbox_cleanup_from_row k r))"

definition complete_sandbox_cleanup :: "int \<Rightarrow> string \<Rightarrow> bool tx" where
  "complete_sandbox_cleanup now cleanup_id db =
     (case map_of (cleanups db) cleanup_id of None \<Rightarrow> Inr (False, db) | Some r \<Rightarrow>
      if cu_status r = ''completed'' then Inr (False, db)
      else Inr (True, db\<lparr>cleanups := update_at cleanup_id
        (\<lambda>r. r\<lparr>cu_status := ''completed'', cu_owner := None, cu_error := None, cu_updated := now\<rparr>) (cleanups db)\<rparr>))"

definition reschedule_sandbox_cleanup :: "int \<Rightarrow> string \<Rightarrow> string \<Rightarrow> int \<Rightarrow> bool tx" where
  "reschedule_sandbox_cleanup now cleanup_id error_text retry_delay_ms db =
     (if retry_delay_ms < 0 then Inl (ValueError ''sandbox cleanup retry delay must be non-negative'')
      else case map_of (cleanups db) cleanup_id of None \<Rightarrow> Inr (False, db) | Some r \<Rightarrow>
      if cu_status r = ''completed'' then Inr (False, db)
      else Inr (True, db\<lparr>cleanups := update_at cleanup_id
        (\<lambda>r. r\<lparr>cu_status := ''pending'', cu_owner := None, cu_next := now + retry_delay_ms,
              cu_error := Some (take 1000 error_text), cu_updated := now\<rparr>) (cleanups db)\<rparr>))"

end
