(* ===== verification/Run_Fences.thy ===== *)
theory Run_Fences
  imports Run_Dispatch Run_Effects Run_Sandbox
begin

text \<open>
  Every write of an execution carries the lease fence (owner and generation) it was granted. The
  locale \<open>fenced_operation\<close> states the contract of such a write: without the fence it refuses and
  leaves the store as it is. All fenced operations of the repository are its instances, and a
  worker that was superseded is inert whatever it tries.
\<close>

section \<open>The contract\<close>

locale guarded_operation =
  fixes op :: "'a tx" and holds :: "db \<Rightarrow> bool" and nothing :: 'a
  assumes refuses: "\<not> holds db \<Longrightarrow> op db = Inr (nothing, db) \<or> (\<exists>e. op db = Inl e)"
begin

lemma inert: "\<not> holds db \<Longrightarrow> committed op db = db"
  using refuses [of db] by auto

lemma authority: "committed op db \<noteq> db \<Longrightarrow> holds db"
  using inert by blast

lemma answer: "op db = Inr (x, db') \<Longrightarrow> x \<noteq> nothing \<Longrightarrow> holds db"
  using refuses [of db] by fastforce

end

locale fenced_operation = guarded_operation op holds nothing
  for op :: "'a tx" and holds :: "db \<Rightarrow> bool" and nothing :: 'a +
  fixes run_id :: string and lease :: lease_fence
  assumes needs_fence: "holds db \<Longrightarrow> is_fence_current run_id lease db"
begin

lemma fence_inert: "\<not> is_fence_current run_id lease db \<Longrightarrow> committed op db = db"
  using inert needs_fence by blast

lemma fence_answer: "op db = Inr (x, db') \<Longrightarrow> x \<noteq> nothing \<Longrightarrow> is_fence_current run_id lease db"
  using answer needs_fence by blast

end

section \<open>The fenced operations\<close>

lemma active_needs_fence: "lock_active_lease us run_id lease db \<Longrightarrow> is_fence_current run_id lease db"
  by (auto simp: lock_active_lease_def is_fence_current_def split: option.splits)

lemma without_fence: "\<not> is_fence_current run_id lease db \<Longrightarrow> \<not> lock_active_lease us run_id lease db"
  using active_needs_fence by blast

lemma current_needs_fence: "is_lease_current now run_id lease db \<Longrightarrow> is_fence_current run_id lease db"
  by (auto simp: is_lease_current_def is_fence_current_def split: option.splits)

lemma lock_fence_is_current: "lock_fence run_id lease db = is_fence_current run_id lease db"
  by (simp add: lock_fence_def is_fence_current_def)

lemma update_claim_refuses:
  "\<not> is_lease_current now run_id lease db \<Longrightarrow>
   update_claim run_id (\<lambda>c. fenced c lease \<and> lease_live now c) f db = Inr (None, db)"
  by (auto simp: update_claim_def is_lease_current_def split: option.splits)

interpretation renew: fenced_operation "renew now ttl_ms run_id lease" "is_lease_current now run_id lease"
    False run_id lease for now ttl_ms run_id lease
  by unfold_locales (auto simp: renew_def update_claim_refuses current_needs_fence)

interpretation pause: fenced_operation "lease_pause now run_id lease" "is_lease_current now run_id lease"
    False run_id lease for now run_id lease
  by unfold_locales (auto simp: lease_pause_def update_claim_refuses current_needs_fence)

interpretation tokens: fenced_operation "add_tokens now run_id lease amount" "is_lease_current now run_id lease"
    None run_id lease for now run_id lease amount
  by unfold_locales (auto simp: add_tokens_def update_claim_refuses current_needs_fence)

interpretation usage: fenced_operation "add_usage us run_id lease i out" "is_fence_current run_id lease"
    None run_id lease for us run_id lease i out
  by unfold_locales (auto simp: add_usage_def add_usage_rows_def is_fence_current_def split: option.splits)

interpretation reserve: fenced_operation "reserve_event_index us run_id lease" "lock_active_lease us run_id lease"
    None run_id lease for us run_id lease
  by unfold_locales (auto simp: reserve_event_index_def active_needs_fence)

interpretation stage: fenced_operation
    "stage_critical_frame us uuid_hex run_id lease kind timestamp payload t event_id" "is_fence_current run_id lease"
    None run_id lease for us uuid_hex run_id lease kind timestamp payload t event_id
  by unfold_locales (simp_all add: stage_critical_frame_def Let_def lock_fence_is_current without_fence)

interpretation tool_result: fenced_operation "put_tool_result us run_id lease tool_id result is_error"
    "lock_active_lease us run_id lease" None run_id lease for us run_id lease tool_id result is_error
  by unfold_locales (auto simp: put_tool_result_def active_needs_fence)

interpretation journal_start: fenced_operation "journal_tool_started created us run_id lease tool_id name"
    "lock_active_lease us run_id lease" False run_id lease for created us run_id lease tool_id name
  by unfold_locales (auto simp: journal_tool_started_def active_needs_fence)

interpretation journal_intent: fenced_operation "journal_delivery_intent sha us run_id lease tool_id body"
    "lock_active_lease us run_id lease" False run_id lease for sha us run_id lease tool_id body
  by unfold_locales (auto simp: journal_delivery_intent_def active_needs_fence split: option.splits)

interpretation journal_finish: fenced_operation "journal_tool_finished us run_id lease tool_id result is_error"
    "lock_active_lease us run_id lease" False run_id lease for us run_id lease tool_id result is_error
  by unfold_locales (auto simp: journal_tool_finished_def active_needs_fence)

interpretation journal_clear: fenced_operation "clear_tool_journal us run_id lease tool_id"
    "lock_active_lease us run_id lease" False run_id lease for us run_id lease tool_id
  by unfold_locales (auto simp: clear_tool_journal_def active_needs_fence)

interpretation steer_ack: fenced_operation "ack_steers now us run_id lease ids"
    "\<lambda>db. if ids = [] then is_lease_current now run_id lease db else lock_active_lease us run_id lease db"
    False run_id lease for now us run_id lease ids
  by unfold_locales (auto simp: ack_steers_def current_needs_fence active_needs_fence split: if_splits)

interpretation sandbox: fenced_operation
    "bind_sandbox_id us run_id lease expected sandbox_id kind ref" "lock_active_lease us run_id lease"
    None run_id lease for us run_id lease expected sandbox_id kind ref
  by unfold_locales (auto simp: bind_sandbox_id_def active_needs_fence)

interpretation chat_append: fenced_operation "append_fenced uuid5_hex us projection lease mode"
    "is_fence_current (ce_run (cp_event projection)) lease" None "ce_run (cp_event projection)" lease
    for uuid5_hex us projection lease mode
  by unfold_locales
    (auto simp: append_fenced_def is_fence_current_def guard_r_def split: option.splits)

section \<open>Workers\<close>

text \<open>What an execution asks of the store, with the times its transactions see.\<close>

datatype worker_op =
    Renew int int
  | PauseLease int
  | AddTokens int int
  | AddUsage int int int
  | StageFrame int string string int string bool "string option"
  | ReserveIndex int
  | AckSteers int int "string list"
  | PutToolResult int string string bool
  | ToolStarted int int string string
  | DeliveryIntent int string string
  | ToolFinished int string string bool
  | ClearJournal int string
  | BindSandbox int "string option" string string string
  | AppendChat int chat_projection string

fun perform :: "(string \<Rightarrow> string) \<Rightarrow> (string \<Rightarrow> string) \<Rightarrow> string \<Rightarrow> lease_fence \<Rightarrow> worker_op \<Rightarrow> db \<Rightarrow> db" where
  "perform sha uuid r l (Renew now ttl_ms) = committed (renew now ttl_ms r l)"
| "perform sha uuid r l (PauseLease now) = committed (lease_pause now r l)"
| "perform sha uuid r l (AddTokens now amount) = committed (add_tokens now r l amount)"
| "perform sha uuid r l (AddUsage us i out) = committed (add_usage us r l i out)"
| "perform sha uuid r l (StageFrame us hex kind timestamp payload t e) =
     committed (stage_critical_frame us hex r l kind timestamp payload t e)"
| "perform sha uuid r l (ReserveIndex us) = committed (reserve_event_index us r l)"
| "perform sha uuid r l (AckSteers now us ids) = committed (ack_steers now us r l ids)"
| "perform sha uuid r l (PutToolResult us tool result is_error) = committed (put_tool_result us r l tool result is_error)"
| "perform sha uuid r l (ToolStarted created us tool name) = committed (journal_tool_started created us r l tool name)"
| "perform sha uuid r l (DeliveryIntent us tool body) = committed (journal_delivery_intent sha us r l tool body)"
| "perform sha uuid r l (ToolFinished us tool result is_error) =
     committed (journal_tool_finished us r l tool result is_error)"
| "perform sha uuid r l (ClearJournal us tool) = committed (clear_tool_journal us r l tool)"
| "perform sha uuid r l (BindSandbox us expected sandbox_id kind ref) =
     committed (bind_sandbox_id us r l expected sandbox_id kind ref)"
| "perform sha uuid r l (AppendChat us projection mode) = committed (append_fenced uuid us projection l mode)"

text \<open>A chat projection names its run itself.\<close>

fun op_for :: "string \<Rightarrow> worker_op \<Rightarrow> bool" where
  "op_for r (AppendChat us projection mode) \<longleftrightarrow> ce_run (cp_event projection) = r"
| "op_for r _ \<longleftrightarrow> True"

lemma perform_without_fence:
  assumes "\<not> is_fence_current r l db" and "op_for r op"
  shows "perform sha uuid r l op db = db"
  using assms
  by (cases op)
    (simp_all add: renew.fence_inert pause.fence_inert tokens.fence_inert usage.fence_inert stage.fence_inert
      reserve.fence_inert steer_ack.fence_inert tool_result.fence_inert journal_start.fence_inert
      journal_intent.fence_inert journal_finish.fence_inert journal_clear.fence_inert sandbox.fence_inert
      chat_append.fence_inert)

definition superseded :: "string \<Rightarrow> lease_fence \<Rightarrow> db \<Rightarrow> bool" where
  "superseded r l db \<longleftrightarrow> (case map_of (claims db) r of None \<Rightarrow> True | Some c \<Rightarrow> lf_generation l < cl_generation c)"

lemma superseded_not_current: "superseded r l db \<Longrightarrow> \<not> is_fence_current r l db"
  by (auto simp: superseded_def is_fence_current_def fenced_def split: option.splits)


definition demo_claim :: claim where
  "demo_claim = (new_claim ''t'' ''{}'' ''w2'' 1000)\<lparr>cl_generation := 2\<rparr>"


end
