(* ===== verification/Run_System.thy ===== *)
theory Run_System
  imports Run_Fences
begin

text \<open>
  The run store as a transition system: workers with leases, the dispatcher, the control plane,
  the outbox publisher, the sandbox reaper and the transport that writes receipts interleave at
  the granularity of transactions. Runs that are removed by the retention are treated apart.
\<close>

section \<open>Steps\<close>

datatype run_op =
    Worker string lease_fence worker_op
  | Adopt int int string string
  | Reclaim int int string
  | TryClaim int int run_request string
  | ClaimDispatch int int run_request string
  | EnqueueDispatch int run_request string string
  | QuarantineDispatch int string string string
  | AdmitControl int string string string string
  | RecordDelivery int string string "string option" "string option" string
  | ControlSucceeded int string string
  | ControlFailed int string string "string option"
  | ControlApplied int string string
  | ControlSuperseded int string string
  | InsertSteer int string string string
  | MarkPublished int string int
  | ReconcileReceipts int string
  | RegisterCleanup int string int string string string
  | ClaimCleanups int string "string option" "string list" int int
  | CompleteCleanup int string
  | RescheduleCleanup int string string int
  | ChatAppend chat_projection
  | TransportReceipts "(string \<times> int, receipt_row) table"

definition chat_tx :: "(chat_db \<Rightarrow> ('a \<times> chat_db) result) \<Rightarrow> 'a tx" where
  "chat_tx t db = bind_r (t (chat db)) (\<lambda>(x, chat'). Inr (x, db\<lparr>chat := chat'\<rparr>))"

fun run_effect :: "(string \<Rightarrow> string) \<Rightarrow> (string \<Rightarrow> string) \<Rightarrow> run_op \<Rightarrow> db \<Rightarrow> db" where
  "run_effect sha uuid (Worker r l op) = perform sha uuid r l op"
| "run_effect sha uuid (Adopt now ttl_ms r owner) = snd \<circ> adopt now ttl_ms r owner"
| "run_effect sha uuid (Reclaim now ttl_ms owner) = snd \<circ> reclaim_expired now ttl_ms owner"
| "run_effect sha uuid (TryClaim now ttl_ms q owner) = snd \<circ> try_claim now ttl_ms q owner"
| "run_effect sha uuid (ClaimDispatch now ttl_ms q consumer) = committed (claim_dispatch now ttl_ms q consumer)"
| "run_effect sha uuid (EnqueueDispatch now q namespace fence) = committed (enqueue_dispatch now q namespace fence)"
| "run_effect sha uuid (QuarantineDispatch now hash source reason) = committed (quarantine_dispatch now hash source reason)"
| "run_effect sha uuid (AdmitControl us r cmd digest body) = committed (admit_control us r cmd digest body)"
| "run_effect sha uuid (RecordDelivery us r cmd digest fp body) = committed (record_control_delivery us r cmd digest fp body)"
| "run_effect sha uuid (ControlSucceeded us r cmd) = committed (mark_control_succeeded us r cmd)"
| "run_effect sha uuid (ControlFailed us r cmd e) = committed (mark_control_failed us r cmd e)"
| "run_effect sha uuid (ControlApplied us r cmd) = committed (mark_control_applied us r cmd)"
| "run_effect sha uuid (ControlSuperseded us r cmd) = committed (mark_control_superseded us r cmd)"
| "run_effect sha uuid (InsertSteer now r m content) = insert_steer now r m content"
| "run_effect sha uuid (MarkPublished now r seq) = committed (mark_critical_published now r seq)"
| "run_effect sha uuid (ReconcileReceipts now r) = committed (reconcile_receipts now r)"
| "run_effect sha uuid (RegisterCleanup now r g kind sandbox_id ref) =
     committed (register_sandbox_cleanup sha now r g kind sandbox_id ref)"
| "run_effect sha uuid (ClaimCleanups now owner r locked limit lease_ms) =
     snd \<circ> claim_sandbox_cleanups now owner r (List.member locked) limit lease_ms"
| "run_effect sha uuid (CompleteCleanup now i) = committed (complete_sandbox_cleanup now i)"
| "run_effect sha uuid (RescheduleCleanup now i e delay) = committed (reschedule_sandbox_cleanup now i e delay)"
| "run_effect sha uuid (ChatAppend p) = committed (chat_tx (append_projection uuid p))"
| "run_effect sha uuid (TransportReceipts rs) = (\<lambda>db. db\<lparr>receipts := rs\<rparr>)"

inductive run_step :: "(string \<Rightarrow> string) \<Rightarrow> (string \<Rightarrow> string) \<Rightarrow> db \<Rightarrow> db \<Rightarrow> bool" for sha uuid where
  run: "run_step sha uuid db (run_effect sha uuid op db)"

inductive_simps run_step_iff: "run_step sha uuid db db'"

section \<open>How claims evolve\<close>

text \<open>
  A claim that is not removed keeps its request, its generation and its counters only grow, its
  owner changes only together with the generation, as does a sandbox bound in the generation, and a
  terminal claim stays so.
\<close>

definition sandbox_bound :: "claim \<Rightarrow> bool" where
  "sandbox_bound c \<longleftrightarrow> cl_sandbox_id c \<noteq> None \<and> cl_sandbox_generation c = Some (cl_generation c)"

definition claim_evolves :: "claim \<Rightarrow> claim \<Rightarrow> bool" where
  "claim_evolves c c' \<longleftrightarrow> cl_tenant c' = cl_tenant c \<and> cl_request c' = cl_request c
     \<and> cl_generation c \<le> cl_generation c' \<and> (cl_generation c' = cl_generation c \<longrightarrow> cl_owner c' = cl_owner c)
     \<and> cl_durable c \<le> cl_durable c' \<and> cl_index c \<le> cl_index c'
     \<and> cl_input c \<le> cl_input c' \<and> cl_output c \<le> cl_output c'
     \<and> (cl_terminal c \<longrightarrow> cl_terminal c')
     \<and> (cl_generation c' = cl_generation c \<and> sandbox_bound c \<longrightarrow>
          cl_sandbox_id c' = cl_sandbox_id c \<and> cl_sandbox_generation c' = cl_sandbox_generation c)"

definition evolves :: "db \<Rightarrow> db \<Rightarrow> bool" where
  "evolves db db' \<longleftrightarrow> (\<forall>r c. map_of (claims db) r = Some c \<longrightarrow>
     (\<exists>c'. map_of (claims db') r = Some c' \<and> claim_evolves c c'))"

lemma claim_evolves_refl [simp]: "claim_evolves c c"
  by (simp add: claim_evolves_def)

lemma claim_evolves_trans: "claim_evolves c c' \<Longrightarrow> claim_evolves c' c'' \<Longrightarrow> claim_evolves c c''"
  unfolding claim_evolves_def sandbox_bound_def by (smt (verit) order.trans order_antisym)

lemma evolves_same_claims [simp]: "claims db' = claims db \<Longrightarrow> evolves db db'"
  by (simp add: evolves_def)

lemma evolves_trans: "evolves db db' \<Longrightarrow> evolves db' db'' \<Longrightarrow> evolves db db''"
  unfolding evolves_def using claim_evolves_trans by meson

text \<open>The locale of a store whose steps follow a preorder: so do all its runs.\<close>

locale monotone_steps =
  fixes step :: "'s \<Rightarrow> 's \<Rightarrow> bool" and le :: "'s \<Rightarrow> 's \<Rightarrow> bool"
  assumes refl: "le s s" and trans: "le s t \<Longrightarrow> le t u \<Longrightarrow> le s u"
    and step: "step s t \<Longrightarrow> le s t"
begin

lemma steps: "step\<^sup>*\<^sup>* s t \<Longrightarrow> le s t"
  by (induction rule: rtranclp_induct) (auto intro: refl trans step)

end

locale invariant_steps =
  fixes step :: "'s \<Rightarrow> 's \<Rightarrow> bool" and inv :: "'s \<Rightarrow> bool"
  assumes keeps: "inv s \<Longrightarrow> step s t \<Longrightarrow> inv t"
begin

lemma steps_keep: "step\<^sup>*\<^sup>* s t \<Longrightarrow> inv s \<Longrightarrow> inv t"
  by (induction rule: rtranclp_induct) (auto intro: keeps)

end


lemma evolves_committed:
  "(\<And>x db'. t db = Inr (x, db') \<Longrightarrow> evolves db db') \<Longrightarrow> evolves db (committed t db)"
  by (auto simp: committed_def split: sum.splits)

lemma evolves_update:
  assumes "claims db' = update_at r f (claims db)"
    and "\<And>c. map_of (claims db) r = Some c \<Longrightarrow> claim_evolves c (f c)"
  shows "evolves db db'"
  using assms by (auto simp: evolves_def)

lemma evolves_update_claim:
  assumes "update_claim r cond f db = Inr (x, db')"
    and "\<And>c. map_of (claims db) r = Some c \<Longrightarrow> cond c \<Longrightarrow> claim_evolves c (f c)"
  shows "evolves db db'"
  using update_claim_effect [OF assms(1)]
proof (elim disjE exE conjE)
  fix c
  assume "map_of (claims db) r = Some c" "cond c" "db' = db\<lparr>claims := update_at r f (claims db)\<rparr>"
  then show ?thesis
    using assms(2) by (intro evolves_update [of _ r f]) simp_all
qed simp

lemma evolves_insert_claim:
  "insert_claim r c db = Inr (x, db') \<Longrightarrow> evolves db db'"
  by (auto dest!: insert_claim_effect simp: evolves_def)

lemma claims_of_updates:
  "insert_frame f b db = Inr db1 \<Longrightarrow> claims db1 = claims db"
  "claims (ensure_receipt_manifest r t db) = claims db"
  "claims (insert_steer now r m content db) = claims db"
  by (auto simp: insert_frame_def insert_outbox_def ensure_receipt_manifest_def insert_steer_def split: if_splits)

lemma evolves_stage_new:
  assumes "stage_new r e kind t payload c db = Inr (x, db')" and "map_of (claims db) r = Some c"
  shows "evolves db db'"
proof -
  obtain y db1 f where "update_claim r (\<lambda>_. True) f db = Inr (y, db1)" "claims db' = claims db1"
    and "claim_evolves c (f c)"
    using assms(1)
    by (fastforce simp: stage_new_def Let_def claims_of_updates claim_evolves_def split: if_splits)
  then show ?thesis
    using assms(2) evolves_update_claim by (metis evolves_same_claims evolves_trans option.inject)
qed

lemma evolves_stage:
  assumes "stage_critical_frame us hex r l kind t payload term e db = Inr (x, db')"
  shows "evolves db db'"
  using assms by (auto simp: stage_critical_frame_def Let_def split: if_splits option.splits
      dest: evolves_stage_new)

lemma evolves_usage:
  assumes "add_usage us r l i out db = Inr (x, db')"
  shows "evolves db db'"
  using assms
  by (fastforce simp: add_usage_def add_usage_rows_def evolves_def claim_evolves_def
      dest!: update_claim_effect split: if_splits option.splits)

lemma bound_fenced: "fenced c l \<Longrightarrow> sandbox_bound c \<longleftrightarrow>
    cl_sandbox_id c \<noteq> None \<and> cl_sandbox_generation c = Some (lf_generation l)"
  by (auto simp: sandbox_bound_def fenced_def)

lemma evolves_lease_writes:
  "renew now ttl_ms r l db = Inr (b, db') \<Longrightarrow> evolves db db'"
  "lease_pause now r l db = Inr (b, db') \<Longrightarrow> evolves db db'"
  "add_tokens now r l amount db = Inr (n, db') \<Longrightarrow> evolves db db'"
  "reserve_event_index us r l db = Inr (i, db') \<Longrightarrow> evolves db db'"
  "bind_sandbox_id us r l expected sandbox_id kind ref db = Inr (s, db') \<Longrightarrow> evolves db db'"
  by (auto simp: renew_def lease_pause_def add_tokens_def reserve_event_index_def bind_sandbox_id_def
      claim_evolves_def bound_fenced elim!: evolves_update_claim split: if_splits option.splits)

lemma evolves_effects:
  "ack_steers now us r l ids db = Inr (b, db') \<Longrightarrow> evolves db db'"
  "put_tool_result us r l tool result err db = Inr (tr, db') \<Longrightarrow> evolves db db'"
  "journal_tool_started created us r l tool name db = Inr (b, db') \<Longrightarrow> evolves db db'"
  "journal_delivery_intent sha us r l tool body db = Inr (b, db') \<Longrightarrow> evolves db db'"
  "journal_tool_finished us r l tool result err db = Inr (b, db') \<Longrightarrow> evolves db db'"
  "clear_tool_journal us r l tool db = Inr (b, db') \<Longrightarrow> evolves db db'"
  "append_fenced uuid us p l mode db = Inr (ev, db') \<Longrightarrow> evolves db db'"
  by (auto simp: ack_steers_def put_tool_result_def journal_tool_started_def journal_delivery_intent_def
      journal_tool_finished_def clear_tool_journal_def append_fenced_def Let_def split: if_splits option.splits)

lemma evolves_perform: "evolves db (perform sha uuid r l op db)"
  by (cases op) (auto intro!: evolves_committed dest: evolves_lease_writes evolves_effects evolves_usage evolves_stage)

lemma evolves_take_over:
  "claims db' = update_where p (take_over owner e) (claims db) \<Longrightarrow> evolves db db'"
  by (auto simp: evolves_def claim_evolves_def take_over_def)

lemma evolves_reclaim: "reclaim_rows now ttl_ms owner db = Inr (x, db') \<Longrightarrow> evolves db db'"
  by (auto simp: reclaim_rows_def Let_def intro: evolves_take_over)

lemma evolves_adopt: "evolves db (snd (adopt now ttl_ms r owner db))"
  by (auto simp: adopt_def intro!: evolves_committed elim!: evolves_update_claim
      simp: claim_evolves_def take_over_def)

lemma evolves_try_claim: "evolves db (snd (try_claim now ttl_ms q owner db))"
  by (auto simp: try_claim_def intro!: evolves_committed elim!: evolves_insert_claim)

lemma evolves_claim_dispatch:
  assumes "claim_dispatch now ttl_ms q consumer db = Inr (x, db')"
  shows "evolves db db'"
  using assms
  by (auto simp: claim_dispatch_def evolves_def dest!: insert_claim_effect split: if_splits option.splits)

lemma evolves_others:
  "enqueue_dispatch now q namespace fence db = Inr (a, db') \<Longrightarrow> evolves db db'"
  "quarantine_dispatch now hash source reason db = Inr (u, db') \<Longrightarrow> evolves db db'"
  "admit_control us r cmd digest body db = Inr (ad, db') \<Longrightarrow> evolves db db'"
  "record_control_delivery us r cmd d fp body db = Inr (b, db') \<Longrightarrow> evolves db db'"
  "update_control_status us r cmd s db = Inr (u, db') \<Longrightarrow> evolves db db'"
  "update_control_command_status us r cmd s e db = Inr (u, db') \<Longrightarrow> evolves db db'"
  "mark_critical_published now r seq db = Inr (u, db') \<Longrightarrow> evolves db db'"
  "reconcile_receipts now r db = Inr (rr, db') \<Longrightarrow> evolves db db'"
  by (auto simp: enqueue_dispatch_def quarantine_dispatch_def admit_control_def record_control_delivery_def
      update_control_status_def update_control_command_status_def mark_critical_published_def
      reconcile_receipts_def reconcile_manifest_def Let_def split: if_splits option.splits)

lemma evolves_cleanups:
  "register_sandbox_cleanup sha now r g kind sandbox_id ref db = Inr (si, db') \<Longrightarrow> evolves db db'"
  "claim_cleanup_rows now owner ro locked limit lease_ms db = Inr (rows, db') \<Longrightarrow> evolves db db'"
  "complete_sandbox_cleanup now i db = Inr (b, db') \<Longrightarrow> evolves db db'"
  "reschedule_sandbox_cleanup now i msg delay db = Inr (b, db') \<Longrightarrow> evolves db db'"
  "chat_tx t db = Inr (y, db') \<Longrightarrow> evolves db db'"
  by (auto simp: register_sandbox_cleanup_def insert_sandbox_cleanup_def claim_cleanup_rows_def
      complete_sandbox_cleanup_def reschedule_sandbox_cleanup_def chat_tx_def Let_def split: if_splits option.splits)

lemmas evolution = evolves_others evolves_cleanups evolves_claim_dispatch evolves_reclaim

lemma run_effect_evolves: "evolves db (run_effect sha uuid op db)"
  by (cases op)
    (auto simp: reclaim_expired_def claim_sandbox_cleanups_def mark_control_succeeded_def mark_control_failed_def
      mark_control_applied_def mark_control_superseded_def claims_of_updates evolves_perform evolves_adopt
      evolves_try_claim intro!: evolves_committed dest: evolution)

interpretation claim_order: monotone_steps "run_step sha uuid" evolves for sha uuid
  by unfold_locales (auto simp: run_step_iff run_effect_evolves intro: evolves_trans)


section \<open>The rows of the claim table\<close>

text \<open>One row per run, and every row satisfies the constraints of the table.\<close>

definition claims_ok :: "db \<Rightarrow> bool" where
  "claims_ok db \<longleftrightarrow> keys_ok (claims db) \<and> rows_ok (\<lambda>c. claim_write_error c = None) (claims db)"

definition keeps_claims :: "db \<Rightarrow> db \<Rightarrow> bool" where
  "keeps_claims db db' \<longleftrightarrow> (claims_ok db \<longrightarrow> claims_ok db')"

lemma keeps_same_claims [simp]: "claims db' = claims db \<Longrightarrow> keeps_claims db db'"
  by (simp add: keeps_claims_def claims_ok_def)

lemma keeps_trans: "keeps_claims db db' \<Longrightarrow> keeps_claims db' db'' \<Longrightarrow> keeps_claims db db''"
  by (simp add: keeps_claims_def)

lemma keeps_committed:
  "(\<And>x db'. t db = Inr (x, db') \<Longrightarrow> keeps_claims db db') \<Longrightarrow> keeps_claims db (committed t db)"
  by (auto simp: committed_def split: sum.splits)

lemma keeps_update_claim:
  assumes "update_claim r cond f db = Inr (x, db')"
  shows "keeps_claims db db'"
  using update_claim_effect [OF assms]
proof (elim disjE exE conjE)
  fix c
  assume "map_of (claims db) r = Some c" "claim_write_error (f c) = None" "db' = db\<lparr>claims := update_at r f (claims db)\<rparr>"
  then show ?thesis
    by (auto simp: keeps_claims_def claims_ok_def intro: rows_ok_update_one)
qed simp

lemma keeps_insert_claim: "insert_claim r c db = Inr (x, db') \<Longrightarrow> keeps_claims db db'"
  by (auto dest!: insert_claim_effect simp: keeps_claims_def claims_ok_def)

lemma keeps_reclaim:
  assumes "reclaim_rows now ttl_ms owner db = Inr (x, db')"
  shows "keeps_claims db db'"
proof -
  have "\<forall>y \<in> set (select_where (\<lambda>_. expired now) (claims db)).
      claim_write_error (take_over owner (now + ttl_ms) (snd y)) = None"
    using assms by (auto simp: reclaim_rows_def Let_def first_error_None_iff)
  then have "\<forall>k c. (k, c) \<in> set (claims db) \<longrightarrow> expired now c \<longrightarrow> claim_write_error (take_over owner (now + ttl_ms) c) = None"
    by (simp add: Ball_def set_select_where)
  moreover have "claims db' = update_where (\<lambda>_. expired now) (take_over owner (now + ttl_ms)) (claims db)"
    using assms by (auto simp: reclaim_rows_def Let_def)
  ultimately show ?thesis
    by (auto simp: keeps_claims_def claims_ok_def rows_ok_iff dest!: set_update_where)
qed

lemma keeps_stage:
  assumes "stage_critical_frame us hex r l kind t payload term e db = Inr (x, db')"
  shows "keeps_claims db db'"
  using assms
  by (auto simp: stage_critical_frame_def stage_new_def Let_def claims_of_updates split: if_splits option.splits
      dest!: keeps_update_claim elim!: keeps_trans)

lemma keeps_segments:
  "keeps_claims (db\<lparr>segments := s\<rparr>) db' \<Longrightarrow> keeps_claims db db'"
  "keeps_claims (db\<lparr>dispatches := d\<rparr>) db' \<Longrightarrow> keeps_claims db db'"
  by (simp_all add: keeps_claims_def claims_ok_def)

lemma keeps_usage: "add_usage us r l i out db = Inr (x, db') \<Longrightarrow> keeps_claims db db'"
  by (auto simp: add_usage_def add_usage_rows_def dest!: keeps_update_claim keeps_segments split: if_splits option.splits)

lemma keeps_lease_writes:
  "renew now ttl_ms r l db = Inr (b, db') \<Longrightarrow> keeps_claims db db'"
  "lease_pause now r l db = Inr (b, db') \<Longrightarrow> keeps_claims db db'"
  "add_tokens now r l amount db = Inr (n, db') \<Longrightarrow> keeps_claims db db'"
  "reserve_event_index us r l db = Inr (i, db') \<Longrightarrow> keeps_claims db db'"
  "bind_sandbox_id us r l expected sandbox_id kind ref db = Inr (s, db') \<Longrightarrow> keeps_claims db db'"
  by (auto simp: renew_def lease_pause_def add_tokens_def reserve_event_index_def bind_sandbox_id_def
      intro: keeps_update_claim split: if_splits option.splits)

lemma keeps_effects:
  "ack_steers now us r l ids db = Inr (b, db') \<Longrightarrow> keeps_claims db db'"
  "put_tool_result us r l tool result err db = Inr (tr, db') \<Longrightarrow> keeps_claims db db'"
  "journal_tool_started created us r l tool name db = Inr (b, db') \<Longrightarrow> keeps_claims db db'"
  "journal_delivery_intent sha us r l tool body db = Inr (b, db') \<Longrightarrow> keeps_claims db db'"
  "journal_tool_finished us r l tool result err db = Inr (b, db') \<Longrightarrow> keeps_claims db db'"
  "clear_tool_journal us r l tool db = Inr (b, db') \<Longrightarrow> keeps_claims db db'"
  "append_fenced uuid us p l mode db = Inr (ev, db') \<Longrightarrow> keeps_claims db db'"
  by (auto simp: ack_steers_def put_tool_result_def journal_tool_started_def journal_delivery_intent_def
      journal_tool_finished_def clear_tool_journal_def append_fenced_def Let_def split: if_splits option.splits)

lemma keeps_perform: "keeps_claims db (perform sha uuid r l op db)"
  by (cases op) (auto intro!: keeps_committed dest: keeps_lease_writes keeps_effects keeps_usage keeps_stage)

lemma keeps_take_over:
  "keeps_claims db (snd (adopt now ttl_ms r owner db))"
  "keeps_claims db (snd (try_claim now ttl_ms q owner db))"
  "keeps_claims db (snd (reclaim_expired now ttl_ms owner db))"
  by (auto simp: adopt_def try_claim_def reclaim_expired_def intro!: keeps_committed
      intro: keeps_update_claim keeps_insert_claim keeps_reclaim)

lemma keeps_claim_dispatch:
  assumes "claim_dispatch now ttl_ms q consumer db = Inr (x, db')"
  shows "keeps_claims db db'"
  using assms
  by (auto simp: claim_dispatch_def dest!: keeps_insert_claim keeps_segments split: if_splits option.splits)

lemma keeps_others:
  "enqueue_dispatch now q namespace fence db = Inr (a, db') \<Longrightarrow> keeps_claims db db'"
  "quarantine_dispatch now hash source reason db = Inr (u, db') \<Longrightarrow> keeps_claims db db'"
  "admit_control us r cmd digest body db = Inr (ad, db') \<Longrightarrow> keeps_claims db db'"
  "record_control_delivery us r cmd d fp body db = Inr (b, db') \<Longrightarrow> keeps_claims db db'"
  "update_control_status us r cmd s db = Inr (u, db') \<Longrightarrow> keeps_claims db db'"
  "update_control_command_status us r cmd s e db = Inr (u, db') \<Longrightarrow> keeps_claims db db'"
  "mark_critical_published now r seq db = Inr (u, db') \<Longrightarrow> keeps_claims db db'"
  "reconcile_receipts now r db = Inr (rr, db') \<Longrightarrow> keeps_claims db db'"
  "register_sandbox_cleanup sha now r g kind sandbox_id ref db = Inr (si, db') \<Longrightarrow> keeps_claims db db'"
  "claim_cleanup_rows now owner ro locked limit lease_ms db = Inr (rows, db') \<Longrightarrow> keeps_claims db db'"
  "complete_sandbox_cleanup now i db = Inr (b, db') \<Longrightarrow> keeps_claims db db'"
  "reschedule_sandbox_cleanup now i msg delay db = Inr (b, db') \<Longrightarrow> keeps_claims db db'"
  "chat_tx t db = Inr (y, db') \<Longrightarrow> keeps_claims db db'"
  by (auto simp: enqueue_dispatch_def quarantine_dispatch_def admit_control_def record_control_delivery_def
      update_control_status_def update_control_command_status_def mark_critical_published_def
      reconcile_receipts_def reconcile_manifest_def register_sandbox_cleanup_def insert_sandbox_cleanup_def claim_cleanup_rows_def
      complete_sandbox_cleanup_def reschedule_sandbox_cleanup_def chat_tx_def Let_def split: if_splits option.splits)

lemma run_effect_keeps_claims: "keeps_claims db (run_effect sha uuid op db)"
  by (cases op)
    (auto simp: claim_sandbox_cleanups_def mark_control_succeeded_def mark_control_failed_def
      mark_control_applied_def mark_control_superseded_def claims_of_updates keeps_perform keeps_take_over
      intro!: keeps_committed dest: keeps_others keeps_claim_dispatch)

text \<open>The whole store: the operations and the retention.\<close>

inductive store_step :: "(string \<Rightarrow> string) \<Rightarrow> (string \<Rightarrow> string) \<Rightarrow> db \<Rightarrow> db \<Rightarrow> bool" for sha uuid where
  op: "run_step sha uuid db db' \<Longrightarrow> store_step sha uuid db db'"
| retention: "store_step sha uuid db (committed (purge_terminal us max_age_ms) db)"

inductive_cases store_stepE: "store_step sha uuid db db'"

definition reachable_store :: "(string \<Rightarrow> string) \<Rightarrow> (string \<Rightarrow> string) \<Rightarrow> db \<Rightarrow> bool" where
  "reachable_store sha uuid db \<longleftrightarrow> (store_step sha uuid)\<^sup>*\<^sup>* empty_db db"

lemma purge_claims:
  assumes "purge_terminal us max_age_ms db = Inr (n, db')"
  shows "db' = db \<or> (\<exists>ids. claims db' = delete_where (\<lambda>k _. of_runs ids k) (claims db)
    \<and> outbox db' = delete_where (\<lambda>k _. of_runs ids (fst k)) (outbox db)
    \<and> segments db' = delete_where (\<lambda>k _. of_runs ids (fst k)) (segments db)
    \<and> manifests db' = delete_where (\<lambda>k _. of_runs ids k) (manifests db))"
  using assms by (auto simp: purge_terminal_def delete_run_rows_def Let_def split: if_splits)

lemma keeps_purge: "keeps_claims db (committed (purge_terminal us max_age_ms) db)"
  by (rule keeps_committed) (auto simp: keeps_claims_def claims_ok_def dest!: purge_claims)

interpretation claim_rows: invariant_steps "store_step sha uuid" claims_ok for sha uuid
  by unfold_locales
    (metis keeps_claims_def keeps_purge run_effect_keeps_claims run_step.cases store_stepE)

lemma run_steps_keep_claims: "(run_step sha uuid)\<^sup>*\<^sup>* db db' \<Longrightarrow> claims_ok db \<Longrightarrow> claims_ok db'"
  by (induction rule: rtranclp_induct) (auto simp: run_step_iff run_effect_keeps_claims [unfolded keeps_claims_def])


section \<open>Losing and gaining a lease\<close>

lemma superseded_kept:
  assumes "superseded r l db" and "map_of (claims db) r \<noteq> None" and "evolves db db'"
  shows "superseded r l db' \<and> map_of (claims db') r \<noteq> None"
  using assms by (fastforce simp: superseded_def evolves_def claim_evolves_def)

text \<open>C22: A lease that was superseded while its run is retained never becomes current again: after
  any interleaving of transactions the fence does not hold, and the worker that still has it can
  change nothing.\<close>

theorem lost_fence_stays_lost:
  assumes "superseded r l db" and "map_of (claims db) r \<noteq> None" and "(run_step sha uuid)\<^sup>*\<^sup>* db db'"
    and "op_for r op"
  shows "\<not> is_fence_current r l db' \<and> perform sha uuid r l op db' = db'"
  using superseded_kept [OF assms(1,2) claim_order.steps [OF assms(3)]] assms(4)
  by (simp add: superseded_not_current perform_without_fence)

text \<open>The leases an operation hands out.\<close>

fun grants :: "run_op \<Rightarrow> db \<Rightarrow> (string \<times> lease_fence) list" where
  "grants (Adopt now ttl_ms r owner) db =
     (case fst (adopt now ttl_ms r owner db) of Inr (Some l) \<Rightarrow> [(r, l)] | _ \<Rightarrow> [])"
| "grants (Reclaim now ttl_ms owner) db =
     (case reclaim_rows now ttl_ms owner db of Inl _ \<Rightarrow> [] | Inr _ \<Rightarrow>
        map (\<lambda>(r, c). (r, \<lparr>lf_owner = owner, lf_generation = cl_generation c + 1\<rparr>))
          (select_where (\<lambda>_. expired now) (claims db)))"
| "grants (TryClaim now ttl_ms q owner) db =
     (case fst (try_claim now ttl_ms q owner db) of Inr (Some l) \<Rightarrow> [(rq_run_id q, l)] | _ \<Rightarrow> [])"
| "grants (ClaimDispatch now ttl_ms q consumer) db =
     (case claim_dispatch now ttl_ms q consumer db of Inr (Some l, _) \<Rightarrow> [(rq_run_id q, l)] | _ \<Rightarrow> [])"
| "grants _ db = []"

definition generation_of :: "string \<Rightarrow> db \<Rightarrow> int" where
  "generation_of r db = (case map_of (claims db) r of None \<Rightarrow> 0 | Some c \<Rightarrow> cl_generation c)"

lemma new_fence_Inr [simp]:
  "new_fence owner g = Inr l \<longleftrightarrow> l = \<lparr>lf_owner = owner, lf_generation = g\<rparr> \<and> owner \<noteq> [] \<and> 1 \<le> g"
  by (auto simp: new_fence_def lease_fence_check_def)

lemma Inr_eq_bind_r: "Inr y = bind_r m f \<longleftrightarrow> (\<exists>x. m = Inr x \<and> f x = Inr y)"
  using bind_r_eq_Inr by (metis (no_types))

lemma claim_dispatch_Some:
  assumes "claim_dispatch now ttl_ms q consumer db = Inr (Some l, db')"
  shows "l = \<lparr>lf_owner = consumer, lf_generation = 1\<rparr> \<and> map_of (claims db) (rq_run_id q) = None
    \<and> (\<exists>row. map_of (dispatches db) (rq_run_id q) = Some row \<and> dp_status row = ''pending'' \<and> dp_request row = request_text q)
    \<and> claims db' = insert_new (rq_run_id q) (request_claim q consumer (now + ttl_ms)) (claims db)
    \<and> dispatches db' = update_at (rq_run_id q)
       (\<lambda>d. d\<lparr>dp_status := ''claimed'', dp_claimed_by := Some consumer, dp_updated := now\<rparr>) (dispatches db)"
  using assms
  by (auto simp: claim_dispatch_def insert_claim_def request_claim_def new_claim_def
      split: if_splits option.splits)

lemma grant_effect:
  assumes "(r, l) \<in> set (grants op db)" and "keys_ok (claims db)"
  shows "lf_generation l = generation_of r db + 1 \<and> is_fence_current r l (run_effect sha uuid op db)"
proof (cases op)
  case (Adopt now ttl_ms r' owner)
  then obtain c where "r' = r" "map_of (claims db) r = Some c"
    "lf_generation l = cl_generation c + 1" "lf_owner l = owner"
    "snd (adopt now ttl_ms r owner db) = db\<lparr>claims := update_at r (take_over owner (now + ttl_ms)) (claims db)\<rparr>"
    using assms(1)
    by (auto simp: adopt_def then_return_def update_claim_def guard_r_def take_over_def committed_def
        Inr_eq_bind_r split: sum.splits option.splits if_splits)
  then show ?thesis using Adopt
    by (simp add: generation_of_def is_fence_current_def fenced_def take_over_def)
next
  case (Reclaim now ttl_ms owner)
  then obtain x where x: "reclaim_rows now ttl_ms owner db = Inr x"
    using assms(1) by (cases "reclaim_rows now ttl_ms owner db") simp_all
  with Reclaim assms(1) obtain c where "(r, c) \<in> set (claims db)" "expired now c"
    "l = \<lparr>lf_owner = owner, lf_generation = cl_generation c + 1\<rparr>"
    by (cases x) (auto simp: set_select_where)
  moreover from this(1) have "map_of (claims db) r = Some c"
    using assms(2) by (simp add: map_of_in_table)
  ultimately show ?thesis using Reclaim x
    by (cases x) (auto simp: generation_of_def is_fence_current_def fenced_def take_over_def reclaim_expired_def
        reclaim_rows_def Let_def)
next
  case (TryClaim now ttl_ms q owner)
  then have "rq_run_id q = r" "map_of (claims db) r = None" "l = \<lparr>lf_owner = owner, lf_generation = 1\<rparr>"
    "snd (try_claim now ttl_ms q owner db) =
       db\<lparr>claims := insert_new r (request_claim q owner (now + ttl_ms)) (claims db)\<rparr>"
    using assms(1)
    by (auto simp: try_claim_def then_return_def insert_claim_def guard_r_def request_claim_def new_claim_def
        committed_def Inr_eq_bind_r split: sum.splits option.splits if_splits)
  then show ?thesis using TryClaim
    by (simp add: generation_of_def is_fence_current_def fenced_def request_claim_def new_claim_def)
next
  case (ClaimDispatch now ttl_ms q consumer)
  then obtain x where "rq_run_id q = r" "claim_dispatch now ttl_ms q consumer db = Inr (Some l, x)"
    using assms(1) by (auto simp: eq_commute [of "Inr _"] split: sum.splits option.splits)
  then show ?thesis using ClaimDispatch claim_dispatch_Some [of now ttl_ms q consumer db l x]
    by (simp add: generation_of_def is_fence_current_def fenced_def request_claim_def new_claim_def)
qed (use assms in simp_all)

lemma generation_grows: "evolves db db' \<Longrightarrow> map_of (claims db) r \<noteq> None \<Longrightarrow> generation_of r db \<le> generation_of r db'"
  by (fastforce simp: generation_of_def evolves_def claim_evolves_def)


section \<open>A concrete run\<close>

lemma fold_run_steps: "(run_step sha uuid)\<^sup>*\<^sup>* db (fold (run_effect sha uuid) ops db)"
proof (induction ops arbitrary: db)
  case (Cons op ops)
  then show ?case
    by (auto intro: converse_rtranclp_into_rtranclp run)
qed simp

lemma run_steps_store: "(run_step sha uuid)\<^sup>*\<^sup>* db db' \<Longrightarrow> (store_step sha uuid)\<^sup>*\<^sup>* db db'"
  by (induction rule: rtranclp_induct) (auto intro: store_step.op rtranclp.rtrancl_into_rtrancl)

lemma fold_reachable: "reachable_store sha uuid (fold (run_effect sha uuid) ops empty_db)"
  by (simp add: reachable_store_def run_steps_store fold_run_steps)

definition demo_request :: run_request where
  "demo_request = \<lparr>rq_request_id = Some ''q1'', rq_run_id = ''r1'', rq_session_id = ''s1'',
     rq_feature_key = ''chat'', rq_project_ref = None, rq_skill_refs = [], rq_identity = demo_identity,
     rq_input = \<lparr>inp_message_id = ''m1'', inp_content = ''hi''\<rparr>, rq_model_label = None, rq_trace = None\<rparr>"

definition demo_lease :: "int \<Rightarrow> lease_fence" where
  "demo_lease n = (if n = 1 then \<lparr>lf_owner = ''w1'', lf_generation = 1\<rparr> else \<lparr>lf_owner = ''w2'', lf_generation = 2\<rparr>)"

definition demo_claimed :: db where
  "demo_claimed = fold (run_effect id id)
     [EnqueueDispatch 1 demo_request ''n'' ''f'', ClaimDispatch 2 100 demo_request ''w1''] empty_db"

definition demo_retaken :: db where
  "demo_retaken = run_effect id id (Reclaim 200 100 ''w2'') demo_claimed"


lemma demo_request_simps [simp]:
  "rq_run_id demo_request = ''r1''" "ei_tenant_ref (rq_identity demo_request) = ''t1''"
  "rq_session_id demo_request = ''s1''"
  by (simp_all add: demo_request_def demo_identity_def)

lemma request_claim_fields [simp]:
  "cl_generation (request_claim q owner e) = 1" "cl_owner (request_claim q owner e) = Some owner"
  "cl_terminal (request_claim q owner e) = False" "cl_expires (request_claim q owner e) = Some e"
  "cl_durable (request_claim q owner e) = 0" "cl_index (request_claim q owner e) = 0"
  "cl_fence_seq (request_claim q owner e) = None" "usage_totals (request_claim q owner e) = (0, 0)"
  by (simp_all add: request_claim_def new_claim_def usage_totals_def)

lemma demo_claim_storable [simp]:
  "claim_write_error (request_claim demo_request owner e) = None"
  "claim_write_error (take_over owner' e' (request_claim demo_request owner e)) = None"
  by (simp_all add: claim_write_error_def claim_ok_def claim_interaction_ok_def claim_models_ok_def request_claim_def new_claim_def
      bigint_def btrim_empty_def take_over_def)

lemma demo_claims:
  "claims demo_claimed = [(''r1'', request_claim demo_request ''w1'' 102)]"
  "claims demo_retaken = [(''r1'', take_over ''w2'' 300 (request_claim demo_request ''w1'' 102))]"
proof -
  show c: "claims demo_claimed = [(''r1'', request_claim demo_request ''w1'' 102)]"
    by (simp add: demo_claimed_def empty_db_def enqueue_dispatch_def new_dispatch_def btrim_empty_def committed_def
        claim_dispatch_def insert_claim_def insert_new_def update_at_def lease_fence_check_def new_fence_def
        del: new_fence_Inr)
  have "expired 200 (request_claim demo_request ''w1'' 102)"
    by (simp add: expired_def)
  then show "claims demo_retaken = [(''r1'', take_over ''w2'' 300 (request_claim demo_request ''w1'' 102))]"
    by (simp add: demo_retaken_def reclaim_expired_def reclaim_rows_def committed_def select_where_def update_where_def
        Let_def c)
qed


theorem lost_fence_stays_lost_witness:
  "\<not> is_fence_current ''r1'' (demo_lease 1) (run_effect id id (MarkPublished 5 ''r1'' 1) demo_retaken)"
proof -
  have "superseded ''r1'' (demo_lease 1) demo_retaken" "map_of (claims demo_retaken) ''r1'' \<noteq> None"
    by (simp_all add: superseded_def demo_claims demo_lease_def take_over_def)
  moreover have "op_for ''r1'' (Renew 300 100)"
    by simp
  ultimately show ?thesis
    using lost_fence_stays_lost [of "''r1''" "demo_lease 1" demo_retaken id id
        "run_effect id id (MarkPublished 5 ''r1'' 1) demo_retaken" "Renew 300 100"] run [of id id demo_retaken]
    by blast
qed


end
