(* ===== verification/Run_Frames.thy ===== *)
theory Run_Frames
  imports Run_System
begin

text \<open>
  Which tables an operation of the run store may write, and what it leaves alone: the frame
  conditions the invariants of the single tables rest on.
\<close>

datatype table_name =
    TClaims | TDispatches | TDlq | TOutbox | TReceipts | TManifests | TCommands | TSteers | TSegments
  | TCleanups | TToolResults | TToolJournal | TObservations | TChat | TModels

fun same_table :: "table_name \<Rightarrow> db \<Rightarrow> db \<Rightarrow> bool" where
  "same_table TClaims db db' \<longleftrightarrow> claims db' = claims db"
| "same_table TDispatches db db' \<longleftrightarrow> dispatches db' = dispatches db"
| "same_table TDlq db db' \<longleftrightarrow> dlq db' = dlq db"
| "same_table TOutbox db db' \<longleftrightarrow> outbox db' = outbox db"
| "same_table TReceipts db db' \<longleftrightarrow> receipts db' = receipts db"
| "same_table TManifests db db' \<longleftrightarrow> manifests db' = manifests db"
| "same_table TCommands db db' \<longleftrightarrow> commands db' = commands db"
| "same_table TSteers db db' \<longleftrightarrow> steers db' = steers db"
| "same_table TSegments db db' \<longleftrightarrow> segments db' = segments db"
| "same_table TCleanups db db' \<longleftrightarrow> cleanups db' = cleanups db"
| "same_table TToolResults db db' \<longleftrightarrow> tool_results db' = tool_results db"
| "same_table TToolJournal db db' \<longleftrightarrow> tool_journal db' = tool_journal db"
| "same_table TObservations db db' \<longleftrightarrow> observations db' = observations db"
| "same_table TChat db db' \<longleftrightarrow> chat db' = chat db"
| "same_table TModels db db' \<longleftrightarrow> models db' = models db"

definition frame :: "table_name set \<Rightarrow> db \<Rightarrow> db \<Rightarrow> bool" where
  "frame ts db db' \<longleftrightarrow> (\<forall>t. t \<notin> ts \<longrightarrow> same_table t db db')"

fun worker_touches :: "worker_op \<Rightarrow> table_name set" where
  "worker_touches (Renew now ttl_ms) = {TClaims}"
| "worker_touches (PauseLease now) = {TClaims}"
| "worker_touches (AddTokens now amount) = {TClaims}"
| "worker_touches (AddUsage us i out) = {TClaims, TSegments}"
| "worker_touches (StageFrame us hex kind timestamp payload t e) = {TClaims, TOutbox, TManifests}"
| "worker_touches (ReserveIndex us) = {TClaims}"
| "worker_touches (AckSteers now us ids) = {TSteers}"
| "worker_touches (PutToolResult us tool result err) = {TToolResults}"
| "worker_touches (ToolStarted created us tool name) = {TToolJournal}"
| "worker_touches (DeliveryIntent us tool body) = {TToolJournal}"
| "worker_touches (ToolFinished us tool result err) = {TToolJournal}"
| "worker_touches (ClearJournal us tool) = {TToolJournal}"
| "worker_touches (BindSandbox us expected sandbox_id kind ref) = {TClaims}"
| "worker_touches (AppendChat us projection mode) = {TChat}"

fun touches :: "run_op \<Rightarrow> table_name set" where
  "touches (Worker r l op) = worker_touches op"
| "touches (Adopt now ttl_ms r owner) = {TClaims}"
| "touches (Reclaim now ttl_ms owner) = {TClaims}"
| "touches (TryClaim now ttl_ms q owner) = {TClaims}"
| "touches (ClaimDispatch now ttl_ms q consumer) = {TClaims, TDispatches}"
| "touches (EnqueueDispatch now q namespace fence) = {TDispatches}"
| "touches (QuarantineDispatch now hash source reason) = {TDlq}"
| "touches (AdmitControl us r cmd digest body) = {TCommands}"
| "touches (RecordDelivery us r cmd digest fp body) = {TCommands}"
| "touches (ControlSucceeded us r cmd) = {TCommands}"
| "touches (ControlFailed us r cmd e) = {TCommands}"
| "touches (ControlApplied us r cmd) = {TCommands}"
| "touches (ControlSuperseded us r cmd) = {TCommands}"
| "touches (InsertSteer now r m content) = {TSteers}"
| "touches (MarkPublished now r seq) = {TOutbox}"
| "touches (ReconcileReceipts now r) = {TManifests, TOutbox}"
| "touches (RegisterCleanup now r g kind sandbox_id ref) = {TCleanups}"
| "touches (ClaimCleanups now owner r locked limit lease_ms) = {TCleanups}"
| "touches (CompleteCleanup now i) = {TCleanups}"
| "touches (RescheduleCleanup now i e delay) = {TCleanups}"
| "touches (ChatAppend p) = {TChat}"
| "touches (TransportReceipts rs) = {TReceipts}"

lemma same_table_refl [simp]: "same_table t db db"
  by (cases t) simp_all

lemma same_table_trans: "same_table t db db' \<Longrightarrow> same_table t db' db'' \<Longrightarrow> same_table t db db''"
  by (cases t) simp_all

lemma frame_refl [simp]: "frame ts db db"
  by (simp add: frame_def)

lemma frameD: "frame ts db db' \<Longrightarrow> t \<notin> ts \<Longrightarrow> same_table t db db'"
  by (simp add: frame_def)

lemma same_table_update [simp]:
  "t \<noteq> TClaims \<Longrightarrow> same_table t db (d\<lparr>claims := x0\<rparr>) = same_table t db d"
  "t \<noteq> TDispatches \<Longrightarrow> same_table t db (d\<lparr>dispatches := x1\<rparr>) = same_table t db d"
  "t \<noteq> TDlq \<Longrightarrow> same_table t db (d\<lparr>dlq := x2\<rparr>) = same_table t db d"
  "t \<noteq> TOutbox \<Longrightarrow> same_table t db (d\<lparr>outbox := x3\<rparr>) = same_table t db d"
  "t \<noteq> TReceipts \<Longrightarrow> same_table t db (d\<lparr>receipts := x4\<rparr>) = same_table t db d"
  "t \<noteq> TManifests \<Longrightarrow> same_table t db (d\<lparr>manifests := x5\<rparr>) = same_table t db d"
  "t \<noteq> TCommands \<Longrightarrow> same_table t db (d\<lparr>commands := x6\<rparr>) = same_table t db d"
  "t \<noteq> TSteers \<Longrightarrow> same_table t db (d\<lparr>steers := x7\<rparr>) = same_table t db d"
  "t \<noteq> TSegments \<Longrightarrow> same_table t db (d\<lparr>segments := x8\<rparr>) = same_table t db d"
  "t \<noteq> TCleanups \<Longrightarrow> same_table t db (d\<lparr>cleanups := x9\<rparr>) = same_table t db d"
  "t \<noteq> TToolResults \<Longrightarrow> same_table t db (d\<lparr>tool_results := x10\<rparr>) = same_table t db d"
  "t \<noteq> TToolJournal \<Longrightarrow> same_table t db (d\<lparr>tool_journal := x11\<rparr>) = same_table t db d"
  "t \<noteq> TObservations \<Longrightarrow> same_table t db (d\<lparr>observations := x12\<rparr>) = same_table t db d"
  "t \<noteq> TChat \<Longrightarrow> same_table t db (d\<lparr>chat := x13\<rparr>) = same_table t db d"
  "t \<noteq> TModels \<Longrightarrow> same_table t db (d\<lparr>models := x14\<rparr>) = same_table t db d"
  by (cases t; simp)+

lemma frame_update [simp]:
  "TClaims \<in> ts \<Longrightarrow> frame ts db d \<Longrightarrow> frame ts db (d\<lparr>claims := x0\<rparr>)"
  "TDispatches \<in> ts \<Longrightarrow> frame ts db d \<Longrightarrow> frame ts db (d\<lparr>dispatches := x1\<rparr>)"
  "TDlq \<in> ts \<Longrightarrow> frame ts db d \<Longrightarrow> frame ts db (d\<lparr>dlq := x2\<rparr>)"
  "TOutbox \<in> ts \<Longrightarrow> frame ts db d \<Longrightarrow> frame ts db (d\<lparr>outbox := x3\<rparr>)"
  "TReceipts \<in> ts \<Longrightarrow> frame ts db d \<Longrightarrow> frame ts db (d\<lparr>receipts := x4\<rparr>)"
  "TManifests \<in> ts \<Longrightarrow> frame ts db d \<Longrightarrow> frame ts db (d\<lparr>manifests := x5\<rparr>)"
  "TCommands \<in> ts \<Longrightarrow> frame ts db d \<Longrightarrow> frame ts db (d\<lparr>commands := x6\<rparr>)"
  "TSteers \<in> ts \<Longrightarrow> frame ts db d \<Longrightarrow> frame ts db (d\<lparr>steers := x7\<rparr>)"
  "TSegments \<in> ts \<Longrightarrow> frame ts db d \<Longrightarrow> frame ts db (d\<lparr>segments := x8\<rparr>)"
  "TCleanups \<in> ts \<Longrightarrow> frame ts db d \<Longrightarrow> frame ts db (d\<lparr>cleanups := x9\<rparr>)"
  "TToolResults \<in> ts \<Longrightarrow> frame ts db d \<Longrightarrow> frame ts db (d\<lparr>tool_results := x10\<rparr>)"
  "TToolJournal \<in> ts \<Longrightarrow> frame ts db d \<Longrightarrow> frame ts db (d\<lparr>tool_journal := x11\<rparr>)"
  "TObservations \<in> ts \<Longrightarrow> frame ts db d \<Longrightarrow> frame ts db (d\<lparr>observations := x12\<rparr>)"
  "TChat \<in> ts \<Longrightarrow> frame ts db d \<Longrightarrow> frame ts db (d\<lparr>chat := x13\<rparr>)"
  "TModels \<in> ts \<Longrightarrow> frame ts db d \<Longrightarrow> frame ts db (d\<lparr>models := x14\<rparr>)"
  unfolding frame_def by (metis same_table_update)+

lemma frame_committed:
  "(\<And>x db'. t db = Inr (x, db') \<Longrightarrow> frame ts db db') \<Longrightarrow> frame ts db (committed t db)"
  by (auto simp: committed_def split: sum.splits)

lemma frame_update_claim: "update_claim r cond f db = Inr (x, db') \<Longrightarrow> frame {TClaims} db db'"
  by (auto dest!: update_claim_effect)

lemma frame_insert_claim: "insert_claim r c db = Inr (x, db') \<Longrightarrow> frame {TClaims} db db'"
  by (auto dest!: insert_claim_effect)

lemma frame_mono: "frame ts db db' \<Longrightarrow> ts \<subseteq> us \<Longrightarrow> frame us db db'"
  unfolding frame_def by blast

lemma frame_trans: "frame ts db db' \<Longrightarrow> frame us db' db'' \<Longrightarrow> frame (ts \<union> us) db db''"
  unfolding frame_def using same_table_trans by (metis Un_iff)

lemma frame_after: "frame ts db db' \<Longrightarrow> frame ts db' db'' \<Longrightarrow> frame ts db db''"
  using frame_trans [of ts db db' ts db''] by simp

lemma frame_stage_new:
  assumes "stage_new r e kind t payload c db = Inr (x, db')"
  shows "frame {TClaims, TOutbox, TManifests} db db'"
proof -
  have ins: "frame {TClaims, TOutbox, TManifests} db1 db2" if "insert_frame f b db1 = Inr db2" for f b db1 db2
    using that by (auto simp: insert_frame_def insert_outbox_def split: if_splits)
  have man: "frame {TClaims, TOutbox, TManifests} db1 (ensure_receipt_manifest r t db1)" for db1
    by (simp add: ensure_receipt_manifest_def)
  have upd: "frame {TClaims, TOutbox, TManifests} db1 db2" if "update_claim r (\<lambda>_. True) f db1 = Inr (y, db2)" for f y db1 db2
    by (rule frame_mono [OF frame_update_claim [OF that]]) simp
  from assms show ?thesis
    by (auto simp: stage_new_def Let_def split: if_splits dest!: upd ins intro: frame_after [OF frame_after [OF _ man]]
        intro: frame_after)
qed

lemma frame_stage:
  "stage_critical_frame us hex r l kind t payload term e db = Inr (x, db') \<Longrightarrow> frame {TClaims, TOutbox, TManifests} db db'"
  by (auto simp: stage_critical_frame_def Let_def split: if_splits option.splits dest: frame_stage_new)

lemma frame_usage:
  assumes "add_usage us r l i out db = Inr (x, db')"
  shows "frame {TClaims, TSegments} db db'"
proof -
  have upd: "frame {TClaims, TSegments} db db2" if "update_claim r' cond f (db\<lparr>segments := s\<rparr>) = Inr (y, db2)"
    for r' cond f s y db2
    using update_claim_effect [OF that] by auto
  show ?thesis
    using assms by (auto simp: add_usage_def add_usage_rows_def split: if_splits option.splits dest!: upd)
qed

lemma frame_lease_writes:
  "renew now ttl_ms r l db = Inr (b, db') \<Longrightarrow> frame {TClaims} db db'"
  "lease_pause now r l db = Inr (b, db') \<Longrightarrow> frame {TClaims} db db'"
  "add_tokens now r l amount db = Inr (n, db') \<Longrightarrow> frame {TClaims} db db'"
  "reserve_event_index us r l db = Inr (i, db') \<Longrightarrow> frame {TClaims} db db'"
  "bind_sandbox_id us r l expected sandbox_id kind ref db = Inr (s, db') \<Longrightarrow> frame {TClaims} db db'"
  by (auto simp: renew_def lease_pause_def add_tokens_def reserve_event_index_def bind_sandbox_id_def
      intro: frame_update_claim split: if_splits option.splits)

lemma frame_effects:
  "ack_steers now us r l ids db = Inr (b, db') \<Longrightarrow> frame {TSteers} db db'"
  "put_tool_result us r l tool result err db = Inr (tr, db') \<Longrightarrow> frame {TToolResults} db db'"
  "journal_tool_started created us r l tool name db = Inr (b, db') \<Longrightarrow> frame {TToolJournal} db db'"
  "journal_delivery_intent sha us r l tool body db = Inr (b, db') \<Longrightarrow> frame {TToolJournal} db db'"
  "journal_tool_finished us r l tool result err db = Inr (b, db') \<Longrightarrow> frame {TToolJournal} db db'"
  "clear_tool_journal us r l tool db = Inr (b, db') \<Longrightarrow> frame {TToolJournal} db db'"
  "append_fenced uuid us p l mode db = Inr (ev, db') \<Longrightarrow> frame {TChat} db db'"
  by (auto simp: ack_steers_def put_tool_result_def journal_tool_started_def journal_delivery_intent_def
      journal_tool_finished_def clear_tool_journal_def append_fenced_def Let_def split: if_splits option.splits)

lemma perform_frame: "frame (worker_touches op) db (perform sha uuid r l op db)"
  by (cases op) (auto intro!: frame_committed dest: frame_lease_writes frame_effects frame_usage frame_stage)

lemma frame_claim_dispatch:
  assumes "claim_dispatch now ttl_ms q consumer db = Inr (x, db')"
  shows "frame {TClaims, TDispatches} db db'"
proof -
  have ins: "frame {TClaims, TDispatches} db db2" if "insert_claim r c (db\<lparr>dispatches := d\<rparr>) = Inr (y, db2)" for r c d y db2
    using insert_claim_effect [OF that] by auto
  show ?thesis
    using assms by (auto simp: claim_dispatch_def dest!: ins split: if_splits option.splits)
qed

lemma frame_takeovers:
  "frame {TClaims} db (snd (adopt now ttl_ms r owner db))"
  "frame {TClaims} db (snd (try_claim now ttl_ms q owner db))"
  "frame {TClaims} db (snd (reclaim_expired now ttl_ms owner db))"
  by (auto simp: adopt_def try_claim_def reclaim_expired_def reclaim_rows_def Let_def intro!: frame_committed
      intro: frame_update_claim frame_insert_claim)

lemma frame_others:
  "enqueue_dispatch now q namespace fence db = Inr (a, db') \<Longrightarrow> frame {TDispatches} db db'"
  "quarantine_dispatch now hash source reason db = Inr (u, db') \<Longrightarrow> frame {TDlq} db db'"
  "admit_control us r cmd digest body db = Inr (ad, db') \<Longrightarrow> frame {TCommands} db db'"
  "record_control_delivery us r cmd d fp body db = Inr (b, db') \<Longrightarrow> frame {TCommands} db db'"
  "update_control_status us r cmd s db = Inr (u, db') \<Longrightarrow> frame {TCommands} db db'"
  "update_control_command_status us r cmd s e db = Inr (u, db') \<Longrightarrow> frame {TCommands} db db'"
  "mark_critical_published now r seq db = Inr (u, db') \<Longrightarrow> frame {TOutbox} db db'"
  "reconcile_receipts now r db = Inr (rr, db') \<Longrightarrow> frame {TManifests, TOutbox} db db'"
  "register_sandbox_cleanup sha now r g kind sandbox_id ref db = Inr (si, db') \<Longrightarrow> frame {TCleanups} db db'"
  "claim_cleanup_rows now owner ro locked limit lease_ms db = Inr (rows, db') \<Longrightarrow> frame {TCleanups} db db'"
  "complete_sandbox_cleanup now i db = Inr (b, db') \<Longrightarrow> frame {TCleanups} db db'"
  "reschedule_sandbox_cleanup now i msg delay db = Inr (b, db') \<Longrightarrow> frame {TCleanups} db db'"
  "chat_tx t db = Inr (y, db') \<Longrightarrow> frame {TChat} db db'"
  by (auto simp: enqueue_dispatch_def quarantine_dispatch_def admit_control_def record_control_delivery_def
      update_control_status_def update_control_command_status_def mark_critical_published_def
      reconcile_receipts_def reconcile_manifest_def register_sandbox_cleanup_def insert_sandbox_cleanup_def claim_cleanup_rows_def
      complete_sandbox_cleanup_def reschedule_sandbox_cleanup_def chat_tx_def Let_def split: if_splits option.splits)

lemma run_effect_frame: "frame (touches op) db (run_effect sha uuid op db)"
  by (cases op)
    (auto simp: claim_sandbox_cleanups_def mark_control_succeeded_def mark_control_failed_def
      mark_control_applied_def mark_control_superseded_def insert_steer_def perform_frame frame_takeovers
      intro!: frame_committed dest: frame_others frame_claim_dispatch)

end
