(* ===== verification/Run_Invariants.thy ===== *)
theory Run_Invariants
  imports Run_Frames
begin

text \<open>
  Invariants that tie the counters of a claim to the rows of other tables: the usage totals are the
  sums of the usage segments, the sequence and index counters are above every frame of the outbox,
  and the consumed watermark of the receipts is below the sequence counter.
\<close>

section \<open>Operations that leave the counters alone\<close>

definition counters :: "claim \<Rightarrow> (int \<times> int \<times> int option) \<times> int \<times> int" where
  "counters c = ((cl_durable c, cl_index c, cl_fence_seq c), usage_totals c)"

definition fresh_counters :: "(int \<times> int \<times> int option) \<times> int \<times> int" where
  "fresh_counters = ((0, 0, None), 0, 0)"

definition counters_kept :: "db \<Rightarrow> db \<Rightarrow> bool" where
  "counters_kept db db' \<longleftrightarrow> (\<forall>r. case map_of (claims db) r of
      None \<Rightarrow> (case map_of (claims db') r of None \<Rightarrow> True | Some c' \<Rightarrow> counters c' = fresh_counters)
    | Some c \<Rightarrow> map_option counters (map_of (claims db') r) = Some (counters c))"

lemma counters_kept_same [simp]: "claims db' = claims db \<Longrightarrow> counters_kept db db'"
  by (auto simp: counters_kept_def split: option.splits)

lemma counters_kept_committed:
  "(\<And>x db'. t db = Inr (x, db') \<Longrightarrow> counters_kept db db') \<Longrightarrow> counters_kept db (committed t db)"
  by (auto simp: committed_def split: sum.splits)

lemma counters_kept_update_claim:
  assumes "update_claim r cond f db = Inr (x, db')"
    and "\<And>c. map_of (claims db) r = Some c \<Longrightarrow> cond c \<Longrightarrow> counters (f c) = counters c"
  shows "counters_kept db db'"
  using update_claim_effect [OF assms(1)] assms(2)
  by (auto simp: counters_kept_def split: option.splits if_splits)

lemma counters_kept_insert_claim:
  assumes "insert_claim r c db = Inr (x, db')" and "counters c = fresh_counters"
  shows "counters_kept db db'"
  using insert_claim_effect [OF assms(1)] assms(2) by (auto simp: counters_kept_def split: option.splits if_splits)

lemma counters_lease [simp]:
  "counters (take_over owner e c) = counters c"
  "counters (request_claim q owner e) = fresh_counters"
  "counters (c\<lparr>cl_expires := x\<rparr>) = counters c"
  "counters (c\<lparr>cl_tokens := n\<rparr>) = counters c"
  "counters (c\<lparr>cl_sandbox_generation := g\<rparr>) = counters c"
  "counters (c\<lparr>cl_sandbox_id := s, cl_sandbox_generation := g, cl_sandbox_kind := k, cl_sandbox_ref := rf\<rparr>) = counters c"
  by (simp_all add: counters_def take_over_def usage_totals_def fresh_counters_def request_claim_def new_claim_def)

lemma counters_kept_lease_writes:
  "renew now ttl_ms r l db = Inr (b, db') \<Longrightarrow> counters_kept db db'"
  "lease_pause now r l db = Inr (b, db') \<Longrightarrow> counters_kept db db'"
  "add_tokens now r l amount db = Inr (n, db') \<Longrightarrow> counters_kept db db'"
  "bind_sandbox_id us r l expected sandbox_id kind ref db = Inr (s, db') \<Longrightarrow> counters_kept db db'"
  by (auto simp: renew_def lease_pause_def add_tokens_def bind_sandbox_id_def
      elim!: counters_kept_update_claim split: if_splits option.splits)

lemma counters_kept_takeovers:
  "counters_kept db (snd (adopt now ttl_ms r owner db))"
  "counters_kept db (snd (try_claim now ttl_ms q owner db))"
  "counters_kept db (snd (reclaim_expired now ttl_ms owner db))"
proof -
  show "counters_kept db (snd (adopt now ttl_ms r owner db))" "counters_kept db (snd (try_claim now ttl_ms q owner db))"
    by (auto simp: adopt_def try_claim_def intro!: counters_kept_committed
        elim!: counters_kept_update_claim counters_kept_insert_claim)
  show "counters_kept db (snd (reclaim_expired now ttl_ms owner db))"
    unfolding reclaim_expired_def snd_then_return
    by (rule counters_kept_committed) (auto simp: reclaim_rows_def Let_def counters_kept_def split: option.splits)
qed

lemma counters_kept_claim_dispatch:
  assumes "claim_dispatch now ttl_ms q consumer db = Inr (x, db')"
  shows "counters_kept db db'"
proof -
  have ins: "counters_kept db db2" if "insert_claim r (request_claim q o' e) (db\<lparr>dispatches := d\<rparr>) = Inr (y, db2)"
    for r o' e d y db2
    using counters_kept_insert_claim [OF that] by (simp add: counters_kept_def)
  show ?thesis
    using assms by (auto simp: claim_dispatch_def dest!: ins split: if_splits option.splits)
qed

fun counting_op :: "run_op \<Rightarrow> bool" where
  "counting_op (Worker r l (AddUsage us i out)) = True"
| "counting_op (Worker r l (StageFrame us hex kind timestamp payload t e)) = True"
| "counting_op (Worker r l (ReserveIndex us)) = True"
| "counting_op _ = False"

lemma run_effect_counters: "counting_op op \<or> counters_kept db (run_effect sha uuid op db)"
proof (cases "TClaims \<in> touches op")
  case False
  then show ?thesis
    using frameD [OF run_effect_frame] by (metis counters_kept_same same_table.simps(1))
next
  case True
  then show ?thesis
  proof (cases op)
    case (Worker r l w)
    with True show ?thesis
      by (cases w) (auto intro!: counters_kept_committed dest: counters_kept_lease_writes)
  qed (auto intro!: counters_kept_committed simp: counters_kept_takeovers dest: counters_kept_claim_dispatch)
qed

section \<open>Usage totals\<close>

definition segment_rows :: "string \<Rightarrow> db \<Rightarrow> segment_row list" where
  "segment_rows r db = map snd (filter (\<lambda>(k, _). fst k = r) (segments db))"

definition usage_ok :: "db \<Rightarrow> bool" where
  "usage_ok db \<longleftrightarrow> (\<forall>r. case map_of (claims db) r of
      None \<Rightarrow> segment_rows r db = []
    | Some c \<Rightarrow> usage_totals c = (sum_list (map sg_input (segment_rows r db)), sum_list (map sg_output (segment_rows r db))))"

lemma usage_ok_kept:
  assumes "usage_ok db" and "counters_kept db db'" and "segments db' = segments db"
  shows "usage_ok db'"
  unfolding usage_ok_def
proof
  fix r
  have rows: "segment_rows r db' = segment_rows r db"
    by (simp add: segment_rows_def assms(3))
  show "case map_of (claims db') r of None \<Rightarrow> segment_rows r db' = []
    | Some c \<Rightarrow> usage_totals c = (sum_list (map sg_input (segment_rows r db')), sum_list (map sg_output (segment_rows r db')))"
    using assms(1,2) [unfolded usage_ok_def counters_kept_def, rule_format, of r] rows
    by (auto simp: counters_def fresh_counters_def split: option.splits)
qed

lemma usage_ok_add_usage:
  assumes ok: "usage_ok db" and op: "add_usage us r l i out db = Inr (x, db')"
  shows "usage_ok db'"
proof (cases "db' = db")
  case True
  with ok show ?thesis by simp
next
  case False
  define f where "f = (\<lambda>c :: claim. c\<lparr>cl_input := cl_input c + i, cl_output := cl_output c + out\<rparr>)"
  from False op obtain c row where c: "map_of (claims db) r = Some c"
    and none: "map_of (segments db) (r, lf_generation l) = None" and row: "sg_input row = i" "sg_output row = out"
    and cl: "claims db' = update_at r f (claims db)"
    and seg: "segments db' = segments db @ [((r, lf_generation l), row)]"
    by (fastforce simp: add_usage_def add_usage_rows_def f_def insert_new_def dest!: update_claim_effect
        split: if_splits option.splits)
  have rows: "segment_rows k db' = segment_rows k db @ (if k = r then [row] else [])" for k
    by (simp add: segment_rows_def seg)
  show ?thesis
    unfolding usage_ok_def
  proof
    fix k
    from ok [unfolded usage_ok_def, rule_format, of k] c
    show "case map_of (claims db') k of None \<Rightarrow> segment_rows k db' = []
      | Some c \<Rightarrow> usage_totals c = (sum_list (map sg_input (segment_rows k db')), sum_list (map sg_output (segment_rows k db')))"
      by (auto simp: rows row cl f_def usage_totals_def split: option.splits)
  qed
qed

lemma usage_totals_index [simp]: "usage_totals (c\<lparr>cl_durable := s, cl_index := i\<rparr>) = usage_totals c"
  "usage_totals (c\<lparr>cl_durable := s\<rparr>) = usage_totals c" "usage_totals (c\<lparr>cl_index := i\<rparr>) = usage_totals c"
  by (simp_all add: usage_totals_def)

text \<open>Staging and reserving change one claim's sequence and index counters only.\<close>

lemma stage_claims:
  assumes "stage_critical_frame us hex r l kind t payload term e db = Inr (x, db')"
  shows "claims db' = claims db \<or> (\<exists>c. map_of (claims db) r = Some c
    \<and> (claims db' = update_at r (\<lambda>c'. c'\<lparr>cl_durable := cl_durable c + 1\<rparr>) (claims db)
     \<or> claims db' = update_at r (\<lambda>c'. c'\<lparr>cl_durable := cl_durable c + 1, cl_index := cl_index c + 1\<rparr>) (claims db)))"
  using assms
  by (auto simp: stage_critical_frame_def stage_new_def Let_def claims_of_updates split: if_splits option.splits
      dest!: update_claim_effect)

lemma usage_ok_totals:
  assumes "usage_ok db" and "segments db' = segments db"
    and "\<And>r. map_option usage_totals (map_of (claims db') r) = map_option usage_totals (map_of (claims db) r)"
  shows "usage_ok db'"
  unfolding usage_ok_def
proof
  fix r
  have "segment_rows r db' = segment_rows r db"
    by (simp add: segment_rows_def assms(2))
  then show "case map_of (claims db') r of None \<Rightarrow> segment_rows r db' = []
    | Some c \<Rightarrow> usage_totals c = (sum_list (map sg_input (segment_rows r db')), sum_list (map sg_output (segment_rows r db')))"
    using assms(1) [unfolded usage_ok_def, rule_format, of r] assms(3) [of r] by (auto split: option.splits)
qed

lemma usage_ok_stage:
  assumes "usage_ok db" and "stage_critical_frame us hex r l kind t payload term e db = Inr (x, db')"
  shows "usage_ok db'"
proof (rule usage_ok_totals [OF assms(1)])
  show "segments db' = segments db"
    using frameD [OF frame_stage [OF assms(2)], of TSegments] by simp
  show "map_option usage_totals (map_of (claims db') k) = map_option usage_totals (map_of (claims db) k)" for k
    using stage_claims [OF assms(2)] by (auto simp: option.map_comp comp_def)
qed

lemma usage_ok_reserve:
  assumes "usage_ok db" and "reserve_event_index us r l db = Inr (x, db')"
  shows "usage_ok db'"
proof (rule usage_ok_totals [OF assms(1)])
  show "segments db' = segments db"
    using frameD [OF frame_lease_writes(4) [OF assms(2)], of TSegments] by simp
  show "map_option usage_totals (map_of (claims db') k) = map_option usage_totals (map_of (claims db) k)" for k
    using assms(2) by (auto simp: reserve_event_index_def dest!: update_claim_effect split: if_splits option.splits)
qed

lemma usage_ok_run_effect:
  assumes "usage_ok db"
  shows "usage_ok (run_effect sha uuid op db)"
proof (cases op rule: counting_op.cases)
  case (1 r l us i out)
  then show ?thesis
    using assms usage_ok_add_usage by (auto simp: committed_def split: sum.splits)
next
  case (2 r l us hex kind timestamp payload t e)
  then show ?thesis
    using assms usage_ok_stage by (auto simp: committed_def split: sum.splits)
next
  case (3 r l us)
  then show ?thesis
    using assms usage_ok_reserve by (auto simp: committed_def split: sum.splits)
qed (use assms usage_ok_kept run_effect_counters [of op db sha uuid] frameD [OF run_effect_frame, of TSegments op db sha uuid]
  in \<open>auto\<close>)

section \<open>The outbox\<close>

text \<open>
  A frame carries a sequence number the claim has counted, and a live frame an index it has counted.
\<close>

definition frame_fits :: "claim \<Rightarrow> int \<Rightarrow> outbox_row \<Rightarrow> bool" where
  "frame_fits c seq row \<longleftrightarrow> 1 \<le> seq \<and> seq \<le> cl_durable c
     \<and> (case ob_index row of None \<Rightarrow> ob_status row = ''superseded''
        | Some i \<Rightarrow> ob_status row \<in> {''queued'', ''published''} \<and> 0 \<le> i \<and> i < cl_index c)"

definition outbox_ok :: "db \<Rightarrow> bool" where
  "outbox_ok db \<longleftrightarrow> keys_ok (outbox db) \<and> (\<forall>r seq row. ((r, seq), row) \<in> set (outbox db) \<longrightarrow>
     (\<exists>c. map_of (claims db) r = Some c \<and> frame_fits c seq row))"

lemma frame_fits_evolves: "frame_fits c seq row \<Longrightarrow> claim_evolves c c' \<Longrightarrow> frame_fits c' seq row"
  by (auto simp: frame_fits_def claim_evolves_def split: option.splits)

lemma outbox_ok_evolves:
  assumes "outbox_ok db" and "evolves db db'" and "keys_ok (outbox db')"
    and "\<And>k row. (k, row) \<in> set (outbox db') \<Longrightarrow> \<exists>row0. (k, row0) \<in> set (outbox db)
      \<and> (\<forall>c. frame_fits c (snd k) row0 \<longrightarrow> frame_fits c (snd k) row)"
  shows "outbox_ok db'"
  unfolding outbox_ok_def
proof (intro conjI allI impI)
  show "keys_ok (outbox db')" by (rule assms(3))
  fix r seq row
  assume "((r, seq), row) \<in> set (outbox db')"
  then obtain row0 where row0: "((r, seq), row0) \<in> set (outbox db)" "\<forall>c. frame_fits c seq row0 \<longrightarrow> frame_fits c seq row"
    using assms(4) [of "(r, seq)" row] by auto
  then obtain c where "map_of (claims db) r = Some c" "frame_fits c seq row0"
    using assms(1) unfolding outbox_ok_def by blast
  moreover then obtain c' where "map_of (claims db') r = Some c'" "claim_evolves c c'"
    using assms(2) unfolding evolves_def by blast
  ultimately show "\<exists>c. map_of (claims db') r = Some c \<and> frame_fits c seq row"
    using row0(2) frame_fits_evolves by blast
qed

lemma outbox_ok_same:
  "outbox_ok db \<Longrightarrow> evolves db db' \<Longrightarrow> outbox db' = outbox db \<Longrightarrow> outbox_ok db'"
  by (rule outbox_ok_evolves) (auto simp: outbox_ok_def)

lemma insert_outbox_effect:
  assumes "insert_outbox k row db = Inr db'"
  shows "db' = db\<lparr>outbox := outbox db @ [(k, row)]\<rparr> \<and> (keys_ok (outbox db) \<longrightarrow> keys_ok (outbox db'))"
  using assms by (force simp: insert_outbox_def keys_ok_def list_ex_iff split: if_splits)

text \<open>What staging a fresh frame does.\<close>

lemma stage_new_effect:
  assumes st: "stage_new r e kind t payload c db = Inr (x, db')" and c: "map_of (claims db) r = Some c"
  obtains row c' where "outbox db' = outbox db @ [((r, cl_durable c + 1), row)]"
    "keys_ok (outbox db) \<longrightarrow> keys_ok (outbox db')"
    "map_of (claims db') r = Some c'" "cl_durable c' = cl_durable c + 1"
    "ob_event_id row = e" "ob_kind row = kind" "ob_payload row = payload"
    "x = None \<and> ob_index row = None \<and> ob_status row = ''superseded'' \<and> cl_index c' = cl_index c
     \<or> x = Some \<lparr>sf_seq = cl_durable c + 1, sf_event_id = e, sf_index = cl_index c, sf_timestamp = t,
          sf_published = False, sf_new = True\<rparr>
       \<and> ob_index row = Some (cl_index c) \<and> ob_status row = ''queued'' \<and> cl_index c' = cl_index c + 1"
proof (cases "case cl_fence_seq c of None \<Rightarrow> False | Some fence \<Rightarrow> fence < cl_durable c + 1")
  case True
  with st obtain y db1 where u: "update_claim r (\<lambda>_. True) (\<lambda>c'. c'\<lparr>cl_durable := cl_durable c + 1\<rparr>) db = Inr (y, db1)"
    and i: "insert_frame \<lparr>fr_run = r, fr_seq = cl_durable c + 1, fr_event_id = e, fr_kind = kind, fr_index = cl_index c,
          fr_timestamp = t, fr_payload = payload\<rparr> True db1 = Inr db'" and x: "x = None"
    by (auto simp: stage_new_def Let_def)
  from update_claim_effect [OF u] c have "claims db1 = update_at r (\<lambda>c'. c'\<lparr>cl_durable := cl_durable c + 1\<rparr>) (claims db)"
    "outbox db1 = outbox db" by auto
  with insert_outbox_effect [OF i [unfolded insert_frame_def]] c x show ?thesis
    by (intro that [of "\<lparr>ob_event_id = e, ob_kind = kind, ob_status = ''superseded'', ob_index = None, ob_occurred = t,
        ob_payload = payload, ob_published = None\<rparr>" "c\<lparr>cl_durable := cl_durable c + 1\<rparr>"]) auto
next
  case False
  let ?f = "\<lambda>c'. c'\<lparr>cl_durable := cl_durable c + 1, cl_index := cl_index c + 1\<rparr>"
  from False st obtain y db1 where u: "update_claim r (\<lambda>_. True) ?f db = Inr (y, db1)"
    and i: "insert_frame \<lparr>fr_run = r, fr_seq = cl_durable c + 1, fr_event_id = e, fr_kind = kind, fr_index = cl_index c,
          fr_timestamp = t, fr_payload = payload\<rparr> False (ensure_receipt_manifest r t db1) = Inr db'"
    and x: "x = Some \<lparr>sf_seq = cl_durable c + 1, sf_event_id = e, sf_index = cl_index c, sf_timestamp = t,
          sf_published = False, sf_new = True\<rparr>"
    by (auto simp: stage_new_def Let_def)
  from update_claim_effect [OF u] c have "claims (ensure_receipt_manifest r t db1) = update_at r ?f (claims db)"
    "outbox (ensure_receipt_manifest r t db1) = outbox db" by (auto simp: ensure_receipt_manifest_def)
  with insert_outbox_effect [OF i [unfolded insert_frame_def]] c x show ?thesis
    by (intro that [of "\<lparr>ob_event_id = e, ob_kind = kind, ob_status = ''queued'', ob_index = Some (cl_index c), ob_occurred = t,
        ob_payload = payload, ob_published = None\<rparr>" "?f c"]) auto
qed

lemma outbox_ok_stage:
  assumes ok: "outbox_ok db" "claims_ok db" and st: "stage_critical_frame us hex r l kind t payload term e db = Inr (x, db')"
  shows "outbox_ok db'"
proof (cases "db' = db")
  case True
  with ok show ?thesis by simp
next
  case False
  with st obtain c e' y where c: "map_of (claims db) r = Some c" and n: "stage_new r e' kind t payload c db = Inr (y, db')"
    by (auto simp: stage_critical_frame_def Let_def split: if_splits option.splits)
  from c ok(2) have nonneg: "0 \<le> cl_durable c" "0 \<le> cl_index c"
    by (auto simp: claims_ok_def claim_write_error_def claim_ok_def dest: rows_okD)
  obtain row c' where o: "outbox db' = outbox db @ [((r, cl_durable c + 1), row)]" "keys_ok (outbox db) \<longrightarrow> keys_ok (outbox db')"
    and c': "map_of (claims db') r = Some c'" and fit: "frame_fits c' (cl_durable c + 1) row"
    using nonneg by (rule_tac stage_new_effect [OF n c]) (auto simp: frame_fits_def)
  have ev: "evolves db db'"
    by (rule evolves_stage [OF st])
  show ?thesis
    unfolding outbox_ok_def
  proof (intro conjI allI impI)
    show "keys_ok (outbox db')"
      using ok(1) o(2) by (simp add: outbox_ok_def)
    fix k seq row'
    assume "((k, seq), row') \<in> set (outbox db')"
    then consider "((k, seq), row') \<in> set (outbox db)" | "k = r" "seq = cl_durable c + 1" "row' = row"
      by (auto simp: o(1))
    then show "\<exists>c. map_of (claims db') k = Some c \<and> frame_fits c seq row'"
    proof cases
      case 1
      with ok(1) obtain d where "map_of (claims db) k = Some d" "frame_fits d seq row'"
        unfolding outbox_ok_def by blast
      with ev show ?thesis
        unfolding evolves_def using frame_fits_evolves by blast
    next
      case 2
      with c' fit show ?thesis by blast
    qed
  qed
qed

lemma outbox_ok_published:
  assumes ok: "outbox_ok db" and m: "mark_critical_published now r seq db = Inr (u, db')"
  shows "outbox_ok db'"
proof (rule outbox_ok_evolves [OF ok evolves_others(7) [OF m]])
  show "keys_ok (outbox db')"
    using ok m by (auto simp: mark_critical_published_def outbox_ok_def)
  fix k row
  assume "(k, row) \<in> set (outbox db')"
  then obtain row0 where row0: "(k, row0) \<in> set (outbox db)"
    and upd: "row = (if k = (r, seq) \<and> ob_status row0 = ''queued''
      then row0\<lparr>ob_status := ''published'', ob_published := Some now\<rparr> else row0)"
    using m by (auto simp: mark_critical_published_def dest!: set_update_where)
  have "frame_fits c (snd k) row" if "frame_fits c (snd k) row0" for c
    using that unfolding upd by (auto simp: frame_fits_def split: option.splits)
  with row0 show "\<exists>row0. (k, row0) \<in> set (outbox db) \<and> (\<forall>c. frame_fits c (snd k) row0 \<longrightarrow> frame_fits c (snd k) row)"
    by blast
qed

lemma reconcile_outbox:
  assumes "reconcile_receipts now r db = Inr (rr, db')"
  shows "outbox db' = outbox db \<or> (\<exists>p. outbox db' = delete_where p (outbox db))"
  using assms by (auto simp: reconcile_receipts_def reconcile_manifest_def Let_def split: if_splits option.splits)

lemma outbox_ok_reconcile:
  assumes "outbox_ok db" and "reconcile_receipts now r db = Inr (rr, db')"
  shows "outbox_ok db'"
  using reconcile_outbox [OF assms(2)]
  by (intro outbox_ok_evolves [OF assms(1) evolves_others(8) [OF assms(2)]])
    (use assms(1) in \<open>auto simp: outbox_ok_def set_delete_where\<close>)

section \<open>The consumed watermark\<close>

text \<open>A sequence number is acknowledged when its receipt is persisted and names the live frame's event.\<close>

definition acknowledged :: "(int, receipt_row) table \<Rightarrow> (int, string) table \<Rightarrow> int \<Rightarrow> bool" where
  "acknowledged rs live s \<longleftrightarrow> (case (map_of rs s, map_of live s) of
      (Some receipt, Some event_id) \<Rightarrow> rcp_status receipt = ''persisted'' \<and> rcp_event_id receipt = event_id
    | _ \<Rightarrow> False)"

lemma advance_step:
  "advance_consumed rs live a = (if acknowledged rs live (a + 1) then advance_consumed rs live (a + 1) else a)"
  by (subst advance_consumed.simps) (auto simp: acknowledged_def split: option.splits)

lemma advance_spec:
  "a \<le> advance_consumed rs live a \<and> (\<forall>s. a < s \<and> s \<le> advance_consumed rs live a \<longrightarrow> acknowledged rs live s)
   \<and> \<not> acknowledged rs live (advance_consumed rs live a + 1)"
proof (induction rs live a rule: advance_consumed.induct)
  case (1 rs live a)
  show ?case
  proof (cases "acknowledged rs live (a + 1)")
    case True
    then obtain receipt event_id where "map_of rs (a + 1) = Some receipt" "\<not> rcp_status receipt \<noteq> ''persisted''"
      "map_of live (a + 1) = Some event_id" "\<not> event_id \<noteq> rcp_event_id receipt"
      by (auto simp: acknowledged_def split: option.splits)
    note IH = 1 [OF this]
    have eq: "advance_consumed rs live a = advance_consumed rs live (a + 1)"
      using True by (subst advance_step) simp
    have "acknowledged rs live s" if "a < s" "s \<le> advance_consumed rs live (a + 1)" for s
      using that IH True by (cases "s = a + 1") auto
    then show ?thesis
      using IH unfolding eq by auto
  next
    case False
    then have "advance_consumed rs live a = a"
      by (subst advance_step) simp
    with False show ?thesis by auto
  qed
qed

definition live_events :: "string \<Rightarrow> db \<Rightarrow> (int, string) table" where
  "live_events r db = map (\<lambda>((_, seq), row). (seq, ob_event_id row)) (open_frames r db)"

lemma live_events_key:
  assumes "map_of (live_events r db) s = Some e"
  shows "\<exists>row. ((r, s), row) \<in> set (outbox db) \<and> ob_event_id row = e \<and> ob_status row \<in> {''queued'', ''published''}"
  using map_of_SomeD [OF assms] by (auto simp: live_events_def open_frames_def select_where_def)

text \<open>What \<open>reconcile_receipts\<close> does to the manifest and the outbox of its run.\<close>

lemma reconcile_manifest_effect:
  assumes op: "reconcile_manifest now r c m db = Inr (rr, db')" and m: "map_of (manifests db) r = Some m"
    and n: "n = advance_consumed (run_receipts r db) (live_events r db) (mf_consumed m)"
  shows "rr_consumed rr = (if mf_consumed m < n then Some n else None)
    \<and> map_option mf_consumed (map_of (manifests db') r) = Some n
    \<and> (\<forall>k. k \<noteq> r \<longrightarrow> map_of (manifests db') k = map_of (manifests db) k)
    \<and> map fst (manifests db') = map fst (manifests db)
    \<and> outbox db' = delete_where (consumed_garbage r n db) (outbox db)"
proof -
  have le: "mf_consumed m \<le> n"
    using advance_spec n by blast
  have comp: "mf_consumed \<circ> (\<lambda>v. if \<not> mf_close_requested v then v\<lparr>mf_close_requested := True, mf_updated := now\<rparr> else v)
      = mf_consumed"
    by auto
  show ?thesis
    using op le m unfolding reconcile_manifest_def Let_def live_events_def [symmetric] n [symmetric]
    by (auto simp: option.map_comp comp option.map_ident)
qed

lemma reconcile_effect:
  assumes "reconcile_receipts now r db = Inr (rr, db')"
  obtains "db' = db" "rr_consumed rr = None"
  | m c where "map_of (claims db) r = Some c" "map_of (manifests db) r = Some m"
    "reconcile_manifest now r c m db = Inr (rr, db')"
  using assms by (auto simp: reconcile_receipts_def reconciled_def Let_def split: if_splits option.splits)

definition manifests_ok :: "db \<Rightarrow> bool" where
  "manifests_ok db \<longleftrightarrow> keys_ok (manifests db) \<and> (\<forall>r m. map_of (manifests db) r = Some m \<longrightarrow>
     (\<exists>c. map_of (claims db) r = Some c \<and> 0 \<le> mf_consumed m \<and> mf_consumed m \<le> cl_durable c))"

lemma manifests_ok_evolves:
  assumes "manifests_ok db" and "evolves db db'" and "manifests db' = manifests db"
  shows "manifests_ok db'"
  using assms unfolding manifests_ok_def evolves_def by (fastforce simp: claim_evolves_def)

lemma advance_within:
  assumes "outbox_ok db" and "map_of (claims db) r = Some c" and "a \<le> cl_durable c"
  shows "advance_consumed rs (live_events r db) a \<le> cl_durable c"
proof (rule ccontr)
  let ?n = "advance_consumed rs (live_events r db) a"
  assume "\<not> ?n \<le> cl_durable c"
  with assms(3) have "acknowledged rs (live_events r db) ?n"
    using advance_spec [of a rs "live_events r db"] by auto
  then obtain e where "map_of (live_events r db) ?n = Some e"
    by (auto simp: acknowledged_def split: option.splits)
  from live_events_key [OF this] assms(1,2) have "?n \<le> cl_durable c"
    by (fastforce simp: outbox_ok_def frame_fits_def)
  with \<open>\<not> ?n \<le> cl_durable c\<close> show False by simp
qed

lemma manifests_ok_reconcile:
  assumes ok: "manifests_ok db" "outbox_ok db" and op: "reconcile_receipts now r db = Inr (rr, db')"
  shows "manifests_ok db'"
  using op
proof (rule reconcile_effect)
  assume "db' = db"
  with ok show ?thesis by simp
next
  fix m c
  assume c: "map_of (claims db) r = Some c" and m: "map_of (manifests db) r = Some m"
    and e: "reconcile_manifest now r c m db = Inr (rr, db')"
  define n where "n = advance_consumed (run_receipts r db) (live_events r db) (mf_consumed m)"
  from ok(1) m c have bounds: "0 \<le> mf_consumed m" "mf_consumed m \<le> cl_durable c"
    unfolding manifests_ok_def by fastforce+
  have n: "0 \<le> n" "n \<le> cl_durable c"
    using advance_within [OF ok(2) c bounds(2)] advance_spec [of "mf_consumed m" "run_receipts r db" "live_events r db"] bounds(1)
    by (simp_all add: n_def)
  have cl: "claims db' = claims db"
    using frameD [OF frame_others(8) [OF op], of TClaims] by simp
  note eff = reconcile_manifest_effect [OF e m n_def]
  have keys: "keys_ok (manifests db')"
    using eff ok(1) unfolding manifests_ok_def keys_ok_def by metis
  have at: "map_option mf_consumed (map_of (manifests db') r) = Some n"
    and other: "\<And>k. k \<noteq> r \<Longrightarrow> map_of (manifests db') k = map_of (manifests db) k"
    using eff by blast+
  show ?thesis
    unfolding manifests_ok_def
  proof (intro conjI allI impI keys)
    fix k m'
    assume "map_of (manifests db') k = Some m'"
    then show "\<exists>c. map_of (claims db') k = Some c \<and> 0 \<le> mf_consumed m' \<and> mf_consumed m' \<le> cl_durable c"
      using ok(1) at other [of k] c n unfolding cl manifests_ok_def by (cases "k = r") auto
  qed
qed

definition new_manifest :: "int \<Rightarrow> manifest_row" where
  "new_manifest t = \<lparr>mf_persisted = 0, mf_projected = 0, mf_consumed = 0, mf_close_requested = False, mf_closed = False,
     mf_updated = t\<rparr>"

lemma manifests_of_updates:
  "update_claim r cond f db = Inr (y, db1) \<Longrightarrow> manifests db1 = manifests db"
  "insert_frame fr b db = Inr db1 \<Longrightarrow> manifests db1 = manifests db"
  by (auto simp: insert_frame_def insert_outbox_def dest: update_claim_effect split: if_splits)

lemma stage_manifests:
  assumes "stage_critical_frame us hex r l kind t payload term e db = Inr (x, db')"
  shows "manifests db' = manifests db
    \<or> manifests db' = insert_new r (new_manifest t) (manifests db) \<and> map_of (claims db) r \<noteq> None"
proof (cases "db' = db")
  case False
  with assms obtain c e' y where c: "map_of (claims db) r = Some c" and n: "stage_new r e' kind t payload c db = Inr (y, db')"
    by (auto simp: stage_critical_frame_def Let_def split: if_splits option.splits)
  from n show ?thesis
    by (auto simp: stage_new_def Let_def manifests_of_updates c ensure_receipt_manifest_def new_manifest_def split: if_splits)
qed simp

lemma manifests_ok_stage:
  assumes ok: "manifests_ok db" "claims_ok db" and st: "stage_critical_frame us hex r l kind t payload term e db = Inr (x, db')"
  shows "manifests_ok db'"
  using stage_manifests [OF st]
proof (elim disjE conjE)
  assume "manifests db' = manifests db"
  with ok(1) evolves_stage [OF st] show ?thesis
    using manifests_ok_evolves by blast
next
  assume row: "manifests db' = insert_new r (new_manifest t) (manifests db)" "map_of (claims db) r \<noteq> None"
  have ev: "evolves db db'" by (rule evolves_stage [OF st])
  show ?thesis
    unfolding manifests_ok_def
  proof (intro conjI allI impI)
    show "keys_ok (manifests db')"
      using ok(1) row(1) by (simp add: manifests_ok_def)
    fix k m
    assume m: "map_of (manifests db') k = Some m"
    have "\<exists>c. map_of (claims db) k = Some c \<and> 0 \<le> mf_consumed m \<and> mf_consumed m \<le> cl_durable c"
    proof (cases "map_of (manifests db) k")
      case None
      with m row(1) have "k = r" "mf_consumed m = 0"
        by (auto simp: new_manifest_def split: if_splits)
      moreover from row(2) obtain c where c: "map_of (claims db) r = Some c" by auto
      moreover have "0 \<le> cl_durable c"
        using rows_okD [OF conjunct2 [OF ok(2) [unfolded claims_ok_def]] c] by (simp add: claim_write_error_def claim_ok_def)
      ultimately show ?thesis by simp
    next
      case (Some m0)
      with m row(1) have "m = m0"
        by (auto split: if_splits)
      with Some ok(1) show ?thesis
        unfolding manifests_ok_def by blast
    qed
    then show "\<exists>c. map_of (claims db') k = Some c \<and> 0 \<le> mf_consumed m \<and> mf_consumed m \<le> cl_durable c"
      using ev unfolding evolves_def by (fastforce simp: claim_evolves_def)
  qed
qed

section \<open>The invariant of the store\<close>

definition store_ok :: "db \<Rightarrow> bool" where
  "store_ok db \<longleftrightarrow> claims_ok db \<and> usage_ok db \<and> outbox_ok db \<and> manifests_ok db"

fun outbox_op :: "run_op \<Rightarrow> bool" where
  "outbox_op (Worker r l (StageFrame us hex kind timestamp payload t e)) = True"
| "outbox_op (MarkPublished now r seq) = True"
| "outbox_op (ReconcileReceipts now r) = True"
| "outbox_op _ = False"

lemma frames_ok_run_effect:
  assumes ok: "claims_ok db" "outbox_ok db" "manifests_ok db"
  shows "outbox_ok (run_effect sha uuid op db) \<and> manifests_ok (run_effect sha uuid op db)"
proof (cases op rule: outbox_op.cases)
  case (1 r l us hex kind timestamp payload t e)
  then show ?thesis
    using ok outbox_ok_stage [OF ok(2,1)] manifests_ok_stage [OF ok(3,1)] by (auto simp: committed_def split: sum.splits)
next
  case (2 now r seq)
  then show ?thesis
    using ok outbox_ok_published [OF ok(2)] manifests_ok_evolves [OF ok(3) evolves_others(7)]
    by (auto simp: committed_def mark_critical_published_def split: sum.splits)
next
  case (3 now r)
  then show ?thesis
    using ok outbox_ok_reconcile [OF ok(2)] manifests_ok_reconcile [OF ok(3,2)] by (auto simp: committed_def split: sum.splits)
qed (use outbox_ok_same [OF ok(2) run_effect_evolves [of db sha uuid op]] manifests_ok_evolves [OF ok(3) run_effect_evolves [of db sha uuid op]]
    frameD [OF run_effect_frame, of TOutbox op db sha uuid] frameD [OF run_effect_frame, of TManifests op db sha uuid]
  in \<open>auto\<close>)

lemma segment_rows_delete:
  "segments db' = delete_where (\<lambda>k _. of_runs ids (fst k)) (segments db) \<Longrightarrow>
   segment_rows r db' = (if of_runs ids r then [] else segment_rows r db)"
proof -
  have "filter (\<lambda>(k, _). fst k = r) (delete_where (\<lambda>k _. of_runs ids (fst k)) t)
      = (if of_runs ids r then [] else filter (\<lambda>(k, _). fst k = r) t)" for t :: "(string \<times> int, segment_row) table"
    by (induction t) (auto simp: delete_where_def)
  then show "segments db' = delete_where (\<lambda>k _. of_runs ids (fst k)) (segments db) \<Longrightarrow>
      segment_rows r db' = (if of_runs ids r then [] else segment_rows r db)"
    by (simp add: segment_rows_def)
qed

lemma store_ok_purge:
  assumes ok: "store_ok db" and p: "purge_terminal us max_age db = Inr (n, db')"
  shows "store_ok db'"
  using purge_claims [OF p]
proof (elim disjE exE conjE)
  assume "db' = db"
  with ok show ?thesis by simp
next
  fix ids
  assume cl: "claims db' = delete_where (\<lambda>k _. of_runs ids k) (claims db)"
    and ob: "outbox db' = delete_where (\<lambda>k _. of_runs ids (fst k)) (outbox db)"
    and sg: "segments db' = delete_where (\<lambda>k _. of_runs ids (fst k)) (segments db)"
    and mf: "manifests db' = delete_where (\<lambda>k _. of_runs ids k) (manifests db)"
  have keys: "keys_ok (claims db)" "keys_ok (outbox db)" "keys_ok (manifests db)"
    using ok by (simp_all add: store_ok_def claims_ok_def outbox_ok_def manifests_ok_def)
  have look: "map_of (claims db') r = (if of_runs ids r then None else map_of (claims db) r)"
    "map_of (manifests db') r = (if of_runs ids r then None else map_of (manifests db) r)" for r
    using keys by (auto simp: cl mf split: option.splits)
  have "claims_ok db'"
    using keeps_purge [of db us max_age] ok p by (simp add: keeps_claims_def store_ok_def)
  moreover have "usage_ok db'"
    unfolding usage_ok_def
  proof
    fix r
    have "case map_of (claims db) r of None \<Rightarrow> segment_rows r db = []
      | Some c \<Rightarrow> usage_totals c = (sum_list (map sg_input (segment_rows r db)), sum_list (map sg_output (segment_rows r db)))"
      using ok by (simp add: store_ok_def usage_ok_def)
    then show "case map_of (claims db') r of None \<Rightarrow> segment_rows r db' = []
      | Some c \<Rightarrow> usage_totals c = (sum_list (map sg_input (segment_rows r db')), sum_list (map sg_output (segment_rows r db')))"
      by (simp add: look segment_rows_delete [OF sg] split: option.splits)
  qed
  moreover have "outbox_ok db'"
    unfolding outbox_ok_def
  proof (intro conjI allI impI)
    show "keys_ok (outbox db')"
      using keys(2) by (simp add: ob)
    fix r seq row
    assume "((r, seq), row) \<in> set (outbox db')"
    then have "((r, seq), row) \<in> set (outbox db)" "\<not> of_runs ids r"
      by (auto simp: ob set_delete_where)
    then show "\<exists>c. map_of (claims db') r = Some c \<and> frame_fits c seq row"
      using ok unfolding store_ok_def outbox_ok_def look by simp
  qed
  moreover have "manifests_ok db'"
    unfolding manifests_ok_def
  proof (intro conjI allI impI)
    show "keys_ok (manifests db')"
      using keys(3) by (simp add: mf)
    fix r m
    assume "map_of (manifests db') r = Some m"
    then have "\<not> of_runs ids r" "map_of (manifests db) r = Some m"
      by (auto simp: look split: if_splits)
    then show "\<exists>c. map_of (claims db') r = Some c \<and> 0 \<le> mf_consumed m \<and> mf_consumed m \<le> cl_durable c"
      using ok unfolding store_ok_def manifests_ok_def look by simp
  qed
  ultimately show ?thesis
    by (simp add: store_ok_def)
qed

lemma store_ok_run_effect: "store_ok db \<Longrightarrow> store_ok (run_effect sha uuid op db)"
  using run_effect_keeps_claims [of db sha uuid op] usage_ok_run_effect [of db sha uuid op]
    frames_ok_run_effect [of db sha uuid op]
  by (simp add: store_ok_def keeps_claims_def)

interpretation store: invariant_steps "store_step sha uuid" store_ok for sha uuid
proof
  fix db db'
  assume ok: "store_ok db" and "store_step sha uuid db db'"
  from this(2) show "store_ok db'"
    by (cases rule: store_stepE)
      (use ok store_ok_run_effect store_ok_purge in \<open>auto simp: run_step_iff committed_def split: sum.splits\<close>)
qed

lemma reachable_store_ok: "reachable_store sha uuid db \<Longrightarrow> store_ok db"
  using store.steps_keep
  by (auto simp: reachable_store_def store_ok_def claims_ok_def usage_ok_def outbox_ok_def manifests_ok_def empty_db_def
      segment_rows_def)

section \<open>Usage is counted once per lease generation\<close>

text \<open>C24: In every reachable store the usage totals of a run are exactly the sums of its usage segments,
  of which there is one for each lease generation that reported.\<close>

theorem usage_totals_exact:
  assumes "reachable_store sha uuid db" and "map_of (claims db) r = Some c"
  shows "cl_input c = sum_list (map sg_input (segment_rows r db))
    \<and> cl_output c = sum_list (map sg_output (segment_rows r db))"
  using reachable_store_ok [OF assms(1)] assms(2)
  by (auto simp: store_ok_def usage_ok_def usage_totals_def dest!: spec [of _ r])

text \<open>Reporting the usage of a lease generation again, with the same counts, while the lease is live or
  after the run is terminal, returns the totals and adds nothing; other counts are a conflict.\<close>

lemma usage_report_idempotent:
  assumes "add_usage us r l i out db = Inr (Some t, db')"
    and "case map_of (claims db') r of None \<Rightarrow> False | Some c \<Rightarrow> cl_terminal c \<or> lease_live_us us' c"
  shows "add_usage us' r l i out db' = Inr (Some t, db')
    \<and> (0 \<le> i' \<and> 0 \<le> out' \<and> (i', out') \<noteq> (i, out) \<longrightarrow> add_usage us' r l i' out' db' = Inl UsageIdentityConflict)"
proof -
  from assms(1) obtain s c where c: "map_of (claims db') r = Some c" "fenced c l" "usage_totals c = t"
    and s: "map_of (segments db') (r, lf_generation l) = Some s" "sg_input s = i" "sg_output s = out" and pos: "0 \<le> i" "0 \<le> out"
    by (fastforce simp: add_usage_def add_usage_rows_def fenced_def usage_totals_def dest!: update_claim_effect
        split: if_splits option.splits)
  show ?thesis
    using assms(2) c s pos by (auto simp: add_usage_def add_usage_rows_def)
qed

section \<open>Frames and their numbers\<close>


text \<open>The event indexes an operation hands out.\<close>

fun stamped :: "run_op \<Rightarrow> db \<Rightarrow> (string \<times> int) list" where
  "stamped (Worker r l (StageFrame us hex kind timestamp payload t e)) db =
     (case stage_critical_frame us hex r l kind timestamp payload t e db of
        Inr (Some f, _) \<Rightarrow> if sf_new f then [(r, sf_index f)] else [] | _ \<Rightarrow> [])"
| "stamped (Worker r l (ReserveIndex us)) db =
     (case reserve_event_index us r l db of Inr (Some i, _) \<Rightarrow> [(r, i)] | _ \<Rightarrow> [])"
| "stamped _ db = []"

lemma before_not_new:
  "started_before r payload db = Inr (Some f) \<Longrightarrow> \<not> sf_new f"
  "delivery_before r e payload db = Inr (Some f) \<Longrightarrow> \<not> sf_new f"
  by (auto simp: started_before_def delivery_before_def replayed_frame_def split: list.splits option.splits if_splits)

lemma stage_new_index:
  assumes "stage_new r e kind t payload c db = Inr (Some f, db')" and "map_of (claims db) r = Some c"
  shows "\<exists>c'. map_of (claims db') r = Some c' \<and> cl_index c' = cl_index c + 1 \<and> sf_index f = cl_index c"
  by (rule stage_new_effect [OF assms]) auto

lemma stamped_reserve:
  assumes "(r, i) \<in> set (stamped (Worker r' l (ReserveIndex us)) db)"
  shows "r' = r \<and> (\<exists>db'. reserve_event_index us r l db = Inr (Some i, db'))"
  using assms by (cases "reserve_event_index us r' l db") (auto split: prod.splits option.splits)

lemma stamped_effect:
  assumes "(r, i) \<in> set (stamped op db)"
  shows "i = next_event_index r db \<and> next_event_index r (run_effect sha uuid op db) = i + 1
    \<and> map_of (claims (run_effect sha uuid op db)) r \<noteq> None"
proof (cases "(op, db)" rule: stamped.cases)
  case (1 r' l us hex kind timestamp payload t e d)
  with assms obtain f db' where st: "stage_critical_frame us hex r l kind timestamp payload t e db = Inr (Some f, db')"
    and f: "sf_new f" "sf_index f = i" and r': "r' = r"
    by (auto simp: eq_commute [of "Inr _"] split: sum.splits option.splits if_splits)
  from st f(1) obtain c e' where c: "map_of (claims db) r = Some c"
    and n: "stage_new r e' kind timestamp payload c db = Inr (Some f, db')"
    by (auto simp: stage_critical_frame_def Let_def dest: before_not_new split: if_splits option.splits)
  obtain c' where "map_of (claims db') r = Some c'" "cl_index c' = cl_index c + 1" "i = cl_index c"
    using stage_new_index [OF n c] f(2) by blast
  with 1 st c r' show ?thesis
    by (simp add: next_event_index_def)
next
  case (2 r' l us d)
  then obtain db' where e: "reserve_event_index us r l db = Inr (Some i, db')" and r': "r' = r"
    using assms stamped_reserve [of r i r' l us db] by blast
  then obtain y where "update_claim r (\<lambda>_. True) (\<lambda>c. c\<lparr>cl_index := cl_index c + 1\<rparr>) db = Inr (Some y, db')"
    "i = cl_index y - 1"
    by (auto simp: reserve_event_index_def split: if_splits option.splits)
  with 2 e r' show ?thesis
    by (auto simp: next_event_index_def dest!: update_claim_effect)
qed (use assms in auto)

lemma next_event_index_grows:
  "evolves db db' \<Longrightarrow> map_of (claims db) r \<noteq> None \<Longrightarrow> next_event_index r db \<le> next_event_index r db'"
  by (fastforce simp: next_event_index_def evolves_def claim_evolves_def)

text \<open>C26: The event indexes of a run, handed out to staged frames and to live events alike, strictly
  increase along every interleaving, so no two events of a run share an index.\<close>

theorem event_indexes_increase:
  assumes "(r, i) \<in> set (stamped op db)" and "(run_step sha uuid)\<^sup>*\<^sup>* (run_effect sha uuid op db) db'"
    and "(r, j) \<in> set (stamped op' db')"
  shows "i < j"
  using stamped_effect [OF assms(1), of sha uuid] stamped_effect [OF assms(3), of sha uuid]
    next_event_index_grows [OF claim_order.steps [OF assms(2)], of r] by linarith

section \<open>A concrete run with usage and frames\<close>

lemma demo_claim_storable2 [simp]:
  "claim_write_error ((request_claim demo_request owner e)\<lparr>cl_input := 7, cl_output := 3\<rparr>) = None"
  "claim_write_error ((request_claim demo_request owner e)\<lparr>cl_durable := 1, cl_index := 1\<rparr>) = None"
  "claim_write_error ((request_claim demo_request owner e)\<lparr>cl_durable := 1, cl_index := 2\<rparr>) = None"
  by (simp_all add: claim_write_error_def claim_ok_def claim_interaction_ok_def claim_models_ok_def request_claim_def new_claim_def
      bigint_def btrim_empty_def)

lemma request_claim_usage [simp]: "cl_input (request_claim q owner e) = 0" "cl_output (request_claim q owner e) = 0"
  by (simp_all add: request_claim_def new_claim_def)

lemma demo_claimed_frame:
  assumes "t \<notin> {TClaims, TDispatches}"
  shows "same_table t empty_db demo_claimed"
proof -
  let ?e = "EnqueueDispatch 1 demo_request ''n'' ''f''" and ?c = "ClaimDispatch 2 100 demo_request ''w1''"
  have "same_table t empty_db (run_effect id id ?e empty_db)" "same_table t (run_effect id id ?e empty_db) demo_claimed"
    using assms frameD [OF run_effect_frame, of t ?e empty_db id id] frameD [OF run_effect_frame, of t ?c "run_effect id id ?e empty_db" id id]
    by (simp_all add: demo_claimed_def del: run_effect.simps)
  then show ?thesis by (rule same_table_trans)
qed

lemma demo_claimed_empty [simp]:
  "outbox demo_claimed = []" "segments demo_claimed = []" "manifests demo_claimed = []"
  using demo_claimed_frame [of TOutbox] demo_claimed_frame [of TSegments] demo_claimed_frame [of TManifests]
  by (simp_all add: empty_db_def)

lemma demo_fence [simp]: "fenced (request_claim q ''w1'' e) (demo_lease 1)" "lf_generation (demo_lease 1) = 1"
  by (simp_all add: fenced_def demo_lease_def)

definition demo_used :: db where
  "demo_used = run_effect id id (Worker ''r1'' (demo_lease 1) (AddUsage 50000 7 3)) demo_claimed"

definition demo_staged :: db where
  "demo_staged = run_effect id id (Worker ''r1'' (demo_lease 1) (StageFrame 50000 ''ab'' ''todo.updated'' 5 ''{}'' False None)) demo_claimed"

lemma demo_usage: "add_usage 50000 ''r1'' (demo_lease 1) 7 3 demo_claimed = Inr (Some (7, 3), demo_used)"
  by (simp add: demo_used_def add_usage_def add_usage_rows_def demo_claims lease_live_us_def committed_def bigint_def
      update_claim_def usage_totals_def)

lemma demo_stage:
  "stage_critical_frame 50000 ''ab'' ''r1'' (demo_lease 1) ''todo.updated'' 5 ''{}'' False None demo_claimed
   = Inr (Some \<lparr>sf_seq = 1, sf_event_id = ''evt_ab'', sf_index = 0, sf_timestamp = 5, sf_published = False, sf_new = True\<rparr>, demo_staged)"
  by (simp add: demo_staged_def stage_critical_frame_def lock_fence_def demo_claims stage_new_def update_claim_def
      insert_frame_def insert_outbox_def ensure_receipt_manifest_def committed_def Let_def)

lemma demo_used_reachable: "reachable_store id id demo_used" and demo_staged_reachable: "reachable_store id id demo_staged"
  using fold_reachable [of id id "[EnqueueDispatch 1 demo_request ''n'' ''f'', ClaimDispatch 2 100 demo_request ''w1'',
      Worker ''r1'' (demo_lease 1) (AddUsage 50000 7 3)]"]
    fold_reachable [of id id "[EnqueueDispatch 1 demo_request ''n'' ''f'', ClaimDispatch 2 100 demo_request ''w1'',
      Worker ''r1'' (demo_lease 1) (StageFrame 50000 ''ab'' ''todo.updated'' 5 ''{}'' False None)]"]
  by (simp_all add: demo_used_def demo_staged_def demo_claimed_def)

lemma demo_used_claim: "claims demo_used = [(''r1'', (request_claim demo_request ''w1'' 102)\<lparr>cl_input := 7, cl_output := 3\<rparr>)]"
  by (simp add: demo_used_def add_usage_def add_usage_rows_def demo_claims lease_live_us_def committed_def bigint_def
      update_claim_def update_at_def)

lemma demo_staged_rows:
  "claims demo_staged = [(''r1'', (request_claim demo_request ''w1'' 102)\<lparr>cl_durable := 1, cl_index := 1\<rparr>)]"
  "outbox demo_staged = [((''r1'', 1), \<lparr>ob_event_id = ''evt_ab'', ob_kind = ''todo.updated'', ob_status = ''queued'',
     ob_index = Some 0, ob_occurred = 5, ob_payload = ''{}'', ob_published = None\<rparr>)]"
  "manifests demo_staged = [(''r1'', new_manifest 5)]"
  by (simp_all add: demo_staged_def stage_critical_frame_def lock_fence_def demo_claims stage_new_def update_claim_def
      insert_frame_def insert_outbox_def ensure_receipt_manifest_def committed_def update_at_def insert_new_def new_manifest_def Let_def)

theorem usage_totals_exact_witness:
  "sum_list (map sg_input (segment_rows ''r1'' demo_used)) = 7 \<and> sum_list (map sg_output (segment_rows ''r1'' demo_used)) = 3"
  using usage_totals_exact [OF demo_used_reachable, of "''r1''"] by (simp add: demo_used_claim)

lemma usage_report_idempotent_witness:
  "add_usage 60000 ''r1'' (demo_lease 1) 7 3 demo_used = Inr (Some (7, 3), demo_used)
   \<and> add_usage 60000 ''r1'' (demo_lease 1) 8 3 demo_used = Inl UsageIdentityConflict"
  using usage_report_idempotent [OF demo_usage, of 60000 8 3] by (simp add: demo_used_claim lease_live_us_def)


theorem event_indexes_increase_witness:
  "(''r1'', 1) \<in> set (stamped (Worker ''r1'' (demo_lease 1) (ReserveIndex 50000)) demo_staged) \<and> (0::int) < 1"
proof -
  have "(''r1'', 0) \<in> set (stamped (Worker ''r1'' (demo_lease 1) (StageFrame 50000 ''ab'' ''todo.updated'' 5 ''{}'' False None)) demo_claimed)"
    by (simp add: demo_stage)
  moreover have "(''r1'', 1) \<in> set (stamped (Worker ''r1'' (demo_lease 1) (ReserveIndex 50000)) demo_staged)"
    by (simp add: reserve_event_index_def lock_active_lease_def demo_staged_rows fenced_def demo_lease_def lease_live_us_def
        update_claim_def)
  ultimately show ?thesis
    using event_indexes_increase [of "''r1''" 0 _ demo_claimed id id demo_staged 1] by (simp add: demo_staged_def)
qed

end
