(* ===== verification/Interaction_Wire.thy ===== *)
theory Interaction_Wire
  imports Run_Leases
begin

text \<open>
  The wire models of a durable pause: the candidate collection and the chat snapshot of
  \<open>src/kokoro_agent/protocol/events.py\<close> (\<open>InteractionGroup\<close>, \<open>ChatInteractionState\<close>) and the private
  codecs of \<open>src/kokoro_agent/infrastructure/postgres_run_interactions.py\<close>, which keep pauses,
  decisions, dispatch plans and checkpoint observations as canonical JSON. Text stands for its UTF-8
  bytes. \<open>model_dump(exclude_unset=True)\<close> keeps an optional field exactly when the input had it, so
  such a field is \<open>None\<close> when it was not set and \<open>Some None\<close> when it was null.
\<close>

section \<open>Fields that remember whether they were set\<close>

definition set_field :: "(json \<Rightarrow> 'a result) \<Rightarrow> string \<Rightarrow> (string \<times> json) list \<Rightarrow> 'a option option result" where
  "set_field f k kvs = (case map_of kvs k of None \<Rightarrow> Inr None
     | Some v \<Rightarrow> if v = JNull then Inr (Some None) else bind_r (f v) (\<lambda>x. Inr (Some (Some x))))"

definition dump_field :: "('a \<Rightarrow> json) \<Rightarrow> 'a option option \<Rightarrow> json option" where
  "dump_field e v = map_option (\<lambda>x. case x of None \<Rightarrow> JNull | Some y \<Rightarrow> e y) v"

abbreviation value_of :: "'a option option \<Rightarrow> 'a option" where
  "value_of v \<equiv> Option.bind v (\<lambda>x. x)"

definition as_nonempty_list :: "(json \<Rightarrow> 'a result) \<Rightarrow> json \<Rightarrow> 'a list result" where
  "as_nonempty_list f j = bind_r (as_list f j) (\<lambda>xs. if xs = [] then invalid else Inr xs)"

section \<open>The candidate collection\<close>

record interaction_validation =
  iv_path :: "path_part list"

record interaction_display =
  id_name :: string
  id_description :: string
  id_editable :: bool
  id_schema :: "(string \<times> json) list"
  id_preview :: "string option option"
  id_truncated :: "bool option option"
  id_source :: "string option option"

record interaction_item =
  ii_item_id :: string
  ii_request_id :: string
  ii_kind :: string
  ii_allowed :: "string list"
  ii_display :: interaction_display
  ii_validation :: "interaction_validation option option"

record interaction_group =
  ig_group_id :: string
  ig_items :: "interaction_item list"

fun as_path_part :: "json \<Rightarrow> path_part result" where
  "as_path_part (JStr s) = Inr (PathStr s)"
| "as_path_part (JInt i) = Inr (PathInt i)"
| "as_path_part _ = invalid"

fun enc_path_part :: "path_part \<Rightarrow> json" where
  "enc_path_part (PathStr s) = JStr s"
| "enc_path_part (PathInt i) = JInt i"

definition dec_interaction_validation :: "json \<Rightarrow> interaction_validation result" where
  "dec_interaction_validation j = bind_r (strict_fields [''code'', ''instance_path''] j) (\<lambda>kvs.
     bind_r (required (as_literal [''json_schema_invalid'']) ''code'' kvs) (\<lambda>_.
     bind_r (required (as_list as_path_part) ''instance_path'' kvs) (\<lambda>v_path.
     Inr \<lparr>iv_path = v_path\<rparr>)))"

definition enc_interaction_validation :: "interaction_validation \<Rightarrow> json" where
  "enc_interaction_validation v =
     JObj [(''code'', JStr ''json_schema_invalid''), (''instance_path'', enc_list enc_path_part (iv_path v))]"

definition interaction_preview_ok :: "interaction_display \<Rightarrow> bool" where
  "interaction_preview_ok d \<longleftrightarrow> value_of (id_preview d) \<noteq> None
     \<longrightarrow> value_of (id_truncated d) \<noteq> None \<and> value_of (id_source d) \<notin> {None, Some []}"

definition dec_interaction_display :: "json \<Rightarrow> interaction_display result" where
  "dec_interaction_display j =
     bind_r (strict_fields [''name'', ''description'', ''editable'', ''input_schema'', ''result_preview'', ''truncated'',
        ''source''] j) (\<lambda>kvs.
     bind_r (required as_nonempty ''name'' kvs) (\<lambda>v_name.
     bind_r (required as_str ''description'' kvs) (\<lambda>v_description.
     bind_r (required as_bool ''editable'' kvs) (\<lambda>v_editable.
     bind_r (required as_dict ''input_schema'' kvs) (\<lambda>v_schema.
     bind_r (set_field as_str ''result_preview'' kvs) (\<lambda>v_preview.
     bind_r (set_field as_bool ''truncated'' kvs) (\<lambda>v_truncated.
     bind_r (set_field as_str ''source'' kvs) (\<lambda>v_source.
     let d = \<lparr>id_name = v_name, id_description = v_description, id_editable = v_editable, id_schema = v_schema,
              id_preview = v_preview, id_truncated = v_truncated, id_source = v_source\<rparr> in
     if \<not> interaction_preview_ok d then invalid else Inr d))))))))"

definition enc_interaction_display :: "interaction_display \<Rightarrow> json" where
  "enc_interaction_display d = JObj (items
     [(''name'', Some (JStr (id_name d))), (''description'', Some (JStr (id_description d))),
      (''editable'', Some (JBool (id_editable d))), (''input_schema'', Some (JObj (id_schema d))),
      (''result_preview'', dump_field JStr (id_preview d)), (''truncated'', dump_field JBool (id_truncated d)),
      (''source'', dump_field JStr (id_source d))])"

definition dec_interaction_item :: "json \<Rightarrow> interaction_item result" where
  "dec_interaction_item j =
     bind_r (strict_fields [''item_id'', ''request_id'', ''kind'', ''allowed_decisions'', ''display'', ''validation''] j) (\<lambda>kvs.
     bind_r (required as_nonempty ''item_id'' kvs) (\<lambda>v_item.
     bind_r (required as_nonempty ''request_id'' kvs) (\<lambda>v_request.
     bind_r (required (as_literal awaiting_kind_values) ''kind'' kvs) (\<lambda>v_kind.
     bind_r (required (as_nonempty_list (as_literal allowed_decision_values)) ''allowed_decisions'' kvs) (\<lambda>v_allowed.
     bind_r (required dec_interaction_display ''display'' kvs) (\<lambda>v_display.
     bind_r (set_field dec_interaction_validation ''validation'' kvs) (\<lambda>v_validation.
     if \<not> distinct v_allowed then invalid
     else Inr \<lparr>ii_item_id = v_item, ii_request_id = v_request, ii_kind = v_kind, ii_allowed = v_allowed,
               ii_display = v_display, ii_validation = v_validation\<rparr>)))))))"

definition enc_interaction_item :: "interaction_item \<Rightarrow> json" where
  "enc_interaction_item i = JObj (items
     [(''item_id'', Some (JStr (ii_item_id i))), (''request_id'', Some (JStr (ii_request_id i))),
      (''kind'', Some (JStr (ii_kind i))), (''allowed_decisions'', Some (enc_list JStr (ii_allowed i))),
      (''display'', Some (enc_interaction_display (ii_display i))),
      (''validation'', dump_field enc_interaction_validation (ii_validation i))])"

definition dec_interaction_group :: "json \<Rightarrow> interaction_group result" where
  "dec_interaction_group j = bind_r (strict_fields [''group_id'', ''items''] j) (\<lambda>kvs.
     bind_r (required as_nonempty ''group_id'' kvs) (\<lambda>v_group.
     bind_r (required (as_nonempty_list dec_interaction_item) ''items'' kvs) (\<lambda>v_items.
     Inr \<lparr>ig_group_id = v_group, ig_items = v_items\<rparr>)))"

definition enc_interaction_group :: "interaction_group \<Rightarrow> json" where
  "enc_interaction_group g =
     JObj [(''group_id'', JStr (ig_group_id g)), (''items'', enc_list enc_interaction_item (ig_items g))]"

section \<open>The chat snapshot\<close>

definition result_kinds :: "string list" where
  "result_kinds = [''accepted'', ''native_consumed'', ''validation_failed'', ''unknown'', ''cancelled'']"

record action_result =
  ar_command_id :: string
  ar_pause_revision :: int
  ar_kind :: string

definition action_result_check :: "action_result \<Rightarrow> exn option" where
  "action_result_check a = first_error
     [fail_if (ar_command_id a = []) strict_error, fail_if (ar_pause_revision a < 1) strict_error,
      fail_if (\<not> List.member result_kinds (ar_kind a)) strict_error]"

fun phase_value :: "phase \<Rightarrow> string" where
  "phase_value PhaseActive = ''active''"
| "phase_value PhaseWaiting = ''waiting''"
| "phase_value PhaseResuming = ''resuming''"
| "phase_value PhaseTerminal = ''terminal''"

record chat_interaction_state =
  ci_interaction_revision :: int
  ci_pause_revision :: int
  ci_pause_ref :: "string option"
  ci_phase :: phase
  ci_groups :: "interaction_group list"
  ci_action :: "action_result option"

definition chat_action_check :: "chat_interaction_state \<Rightarrow> exn option" where
  "chat_action_check s = (case ci_action s of
      None \<Rightarrow> fail_if (ci_phase s = PhaseResuming) (ValidationError ''resuming requires an accepted action'')
    | Some a \<Rightarrow> first_error
        [fail_if (ci_pause_revision s < ar_pause_revision a) (ValidationError ''action references a future pause''),
         fail_if (ci_phase s = PhaseResuming
             \<and> (ar_kind a \<notin> {''accepted'', ''unknown''} \<or> ar_pause_revision a \<noteq> ci_pause_revision s))
           (ValidationError ''resuming action disagrees with original round''),
         fail_if (ar_kind a = ''validation_failed'' \<and> ci_phase s = PhaseWaiting
             \<and> ci_pause_revision s \<le> ar_pause_revision a)
           (ValidationError ''validation result requires a new pause round'')])"

definition chat_interaction_check :: "chat_interaction_state \<Rightarrow> exn option" where
  "chat_interaction_check s = (let waiting = ci_phase s \<in> {PhaseWaiting, PhaseResuming} in first_error
     [fail_if (ci_interaction_revision s < 1 \<or> ci_pause_revision s < 0 \<or> ci_pause_ref s = Some []) strict_error,
      fail_if (ci_interaction_revision s < ci_pause_revision s)
        (ValidationError ''pause revision exceeds interaction revision''),
      fail_if ((ci_pause_revision s = 0) \<noteq> (ci_pause_ref s = None)) (ValidationError ''pause identity is incomplete''),
      fail_if (waiting \<noteq> (ci_groups s \<noteq> []) \<or> waiting \<and> ci_pause_revision s = 0)
        (ValidationError ''phase and complete collection disagree''),
      chat_action_check s,
      fail_if (\<not> distinct (map ig_group_id (ci_groups s))
          \<or> \<not> distinct (map ii_item_id (concat (map ig_items (ci_groups s)))))
        (ValidationError ''duplicate group or item'')])"

definition enc_action_result :: "action_result \<Rightarrow> json" where
  "enc_action_result a = JObj [(''command_id'', JStr (ar_command_id a)), (''pause_revision'', JInt (ar_pause_revision a)),
     (''kind'', JStr (ar_kind a))]"

definition enc_chat_interaction :: "chat_interaction_state \<Rightarrow> json" where
  "enc_chat_interaction s = JObj
     [(''interaction_revision'', JInt (ci_interaction_revision s)),
      (''pause_revision'', JInt (ci_pause_revision s)),
      (''pause_ref'', case ci_pause_ref s of None \<Rightarrow> JNull | Some r \<Rightarrow> JStr r),
      (''phase'', JStr (phase_value (ci_phase s))),
      (''groups'', enc_list enc_interaction_group (ci_groups s)),
      (''action_result'', case ci_action s of None \<Rightarrow> JNull | Some a \<Rightarrow> enc_action_result a)]"

end
