(* ===== verification/Interaction_Codec.thy ===== *)
theory Interaction_Codec
  imports Interaction_Wire
begin

text \<open>
  The private codecs of \<open>src/kokoro_agent/infrastructure/postgres_run_interactions.py\<close>: canonical
  interaction bytes, stored pauses with their locators, stored decisions (base64), dispatch plans and
  checkpoint observations. Each decoder checks what it read against the identity it was asked for.
  \<open>sha\<close> is \<open>hashlib.sha256(text.encode()).hexdigest()\<close>.
\<close>

section \<open>Bytes\<close>

definition utf8 :: "string \<Rightarrow> bytes" where
  "utf8 s = concat (map (\<lambda>c. let n = of_char c :: nat in
     if n < 128 then [of_nat n] else [of_nat (192 + n div 64), of_nat (128 + n mod 64)]) s)"

definition base64_alphabet :: string where
  "base64_alphabet = ''ABCDEFGHIJKLMNOPQRSTUVWXYZabcdefghijklmnopqrstuvwxyz0123456789+/''"

definition base64_char :: "nat \<Rightarrow> char" where
  "base64_char n = base64_alphabet ! n"

definition base64_value :: "char \<Rightarrow> nat option" where
  "base64_value c = (let i = length (takeWhile (\<lambda>d. d \<noteq> c) base64_alphabet) in if i < 64 then Some i else None)"

fun b64encode :: "bytes \<Rightarrow> string" where
  "b64encode [] = []"
| "b64encode [a] = (let n = unat a * 16 in [base64_char (n div 64), base64_char (n mod 64), CHR ''='', CHR ''=''])"
| "b64encode [a, b] = (let n = (unat a * 256 + unat b) * 4 in
     [base64_char (n div 4096), base64_char (n div 64 mod 64), base64_char (n mod 64), CHR ''=''])"
| "b64encode (a # b # c # bs) = (let n = (unat a * 256 + unat b) * 256 + unat c in
     [base64_char (n div 262144), base64_char (n div 4096 mod 64), base64_char (n div 64 mod 64), base64_char (n mod 64)]
     @ b64encode bs)"

text \<open>\<open>b64decode(text, validate=True)\<close>: groups of four characters of the alphabet, padding in the last only.\<close>

fun b64decode :: "string \<Rightarrow> bytes option" where
  "b64decode [] = Some []"
| "b64decode (p # q # r # s # cs) =
     (case (base64_value p, base64_value q) of
        (Some i, Some j) \<Rightarrow>
          if r = CHR ''='' \<and> s = CHR ''='' then (if cs = [] then Some [of_nat ((i * 64 + j) div 16)] else None)
          else (case base64_value r of None \<Rightarrow> None | Some k \<Rightarrow>
            if s = CHR ''='' then
              (if cs = [] then let n = ((i * 64 + j) * 64 + k) div 4 in Some [of_nat (n div 256), of_nat (n mod 256)] else None)
            else (case base64_value s of None \<Rightarrow> None | Some l \<Rightarrow>
              let n = ((i * 64 + j) * 64 + k) * 64 + l in
              map_option (\<lambda>bs. of_nat (n div 65536) # of_nat (n div 256 mod 256) # of_nat (n mod 256) # bs) (b64decode cs)))
      | _ \<Rightarrow> None)"
| "b64decode _ = None"

section \<open>Canonical interaction bytes\<close>

definition interaction_limit :: nat where
  "interaction_limit = 8388608"

definition byte_limit_ok :: "string \<Rightarrow> bool" where
  "byte_limit_ok raw \<longleftrightarrow> 1 \<le> utf8_length raw \<and> utf8_length raw \<le> interaction_limit"

definition canonical_interaction_bytes :: "json \<Rightarrow> string result" where
  "canonical_interaction_bytes v = (let raw = dumps_compact False (sort_json v) in
     if \<not> byte_limit_ok raw then Inl InteractionCorrupt else Inr raw)"

text \<open>
  A repeated field or a nonfinite constant raises \<open>InteractionCorrupt\<close> in the hooks of \<open>json.loads\<close>; here
  the first makes the text noncanonical, which is the same error, and the second is no JSON, which is
  the \<open>ValueError\<close> that \<open>InteractionCorrupt\<close> extends.
\<close>

definition decode_interaction_bytes :: "string \<Rightarrow> json result" where
  "decode_interaction_bytes raw =
     (if \<not> byte_limit_ok raw then Inl InteractionCorrupt
      else case loads raw of None \<Rightarrow> Inl (ValueError ''json'') | Some v \<Rightarrow>
        if \<not> json_object v then Inl strict_error
        else bind_r (canonical_interaction_bytes v) (\<lambda>again. if again \<noteq> raw then Inl InteractionCorrupt else Inr v))"

section \<open>Stored pauses\<close>

record task_locator =
  tk_task :: string
  tk_interrupt :: string
  tk_items :: "string list"

record group_locator =
  gl_group :: string
  gl_thread :: string
  gl_ns :: string
  gl_checkpoint :: string
  gl_tasks :: "task_locator list"

record pause_collection =
  pc_groups :: "interaction_group list"
  pc_locator :: "group_locator list"

definition dec_task_locator :: "json \<Rightarrow> task_locator result" where
  "dec_task_locator j = bind_r (strict_fields [''task_id'', ''interrupt_id'', ''item_ids''] j) (\<lambda>kvs.
     bind_r (required as_nonempty ''task_id'' kvs) (\<lambda>v_task.
     bind_r (required as_nonempty ''interrupt_id'' kvs) (\<lambda>v_interrupt.
     bind_r (required (as_nonempty_list as_nonempty) ''item_ids'' kvs) (\<lambda>v_items.
     Inr \<lparr>tk_task = v_task, tk_interrupt = v_interrupt, tk_items = v_items\<rparr>))))"

definition dec_group_locator :: "json \<Rightarrow> group_locator result" where
  "dec_group_locator j =
     bind_r (strict_fields [''group_id'', ''thread_id'', ''checkpoint_ns'', ''checkpoint_id'', ''tasks''] j) (\<lambda>kvs.
     bind_r (required as_nonempty ''group_id'' kvs) (\<lambda>v_group.
     bind_r (required as_nonempty ''thread_id'' kvs) (\<lambda>v_thread.
     bind_r (required as_str ''checkpoint_ns'' kvs) (\<lambda>v_ns.
     bind_r (required as_nonempty ''checkpoint_id'' kvs) (\<lambda>v_checkpoint.
     bind_r (required (as_nonempty_list dec_task_locator) ''tasks'' kvs) (\<lambda>v_tasks.
     Inr \<lparr>gl_group = v_group, gl_thread = v_thread, gl_ns = v_ns, gl_checkpoint = v_checkpoint,
          gl_tasks = v_tasks\<rparr>))))))"

definition dec_locator :: "json \<Rightarrow> group_locator list result" where
  "dec_locator j = bind_r (strict_fields [''groups''] j)
     (required (as_nonempty_list dec_group_locator) ''groups'')"

definition dec_pause :: "json \<Rightarrow> pause_collection result" where
  "dec_pause j = bind_r (strict_fields [''format'', ''groups'', ''locator''] j) (\<lambda>kvs.
     bind_r (required (as_literal [''kokoro-agent:pause-collection:1'']) ''format'' kvs) (\<lambda>_.
     bind_r (required (as_nonempty_list dec_interaction_group) ''groups'' kvs) (\<lambda>v_groups.
     bind_r (required dec_locator ''locator'' kvs) (\<lambda>v_locator.
     Inr \<lparr>pc_groups = v_groups, pc_locator = v_locator\<rparr>))))"

definition enc_task_locator :: "task_locator \<Rightarrow> json" where
  "enc_task_locator t = JObj [(''task_id'', JStr (tk_task t)), (''interrupt_id'', JStr (tk_interrupt t)),
     (''item_ids'', enc_list JStr (tk_items t))]"

definition enc_group_locator :: "group_locator \<Rightarrow> json" where
  "enc_group_locator g = JObj [(''group_id'', JStr (gl_group g)), (''thread_id'', JStr (gl_thread g)),
     (''checkpoint_ns'', JStr (gl_ns g)), (''checkpoint_id'', JStr (gl_checkpoint g)),
     (''tasks'', enc_list enc_task_locator (gl_tasks g))]"

definition enc_pause :: "pause_collection \<Rightarrow> json" where
  "enc_pause p = JObj [(''format'', JStr ''kokoro-agent:pause-collection:1''),
     (''groups'', enc_list enc_interaction_group (pc_groups p)),
     (''locator'', JObj [(''groups'', enc_list enc_group_locator (pc_locator p))])]"

record pause_snapshot =
  ps_ref :: string
  ps_bytes :: string
  ps_digest :: string

definition pause_snapshot_check :: "pause_snapshot \<Rightarrow> exn option" where
  "pause_snapshot_check p = first_error
     [text_check (ps_ref p), fail_if (\<not> byte_limit_ok (ps_bytes p)) (ValueError ''invalid pause bytes''),
      text_check (ps_digest p)]"

text \<open>\<open>_groups\<close>: the domain's pending set of a stored pause.\<close>

definition pending_of :: "interaction_item \<Rightarrow> pending_item result" where
  "pending_of i = bind_r
     (case value_of (ii_validation i) of None \<Rightarrow> Inr None
      | Some v \<Rightarrow> map_sum id Some (construct validation_issue_check
          \<lparr>vi_instance_path = iv_path v, vi_code = ''json_schema_invalid''\<rparr>))
     (\<lambda>validation. construct pending_item_check
       \<lparr>pi_item_id = ii_item_id i, pi_request_id = ii_request_id i, pi_allowed_decisions = ii_allowed i,
        pi_validation = validation\<rparr>)"

definition groups_of :: "pause_collection \<Rightarrow> pending_group list result" where
  "groups_of p = traverse (\<lambda>g. bind_r (traverse pending_of (ig_items g)) (\<lambda>its.
     construct pending_group_check \<lparr>pg_group_id = ig_group_id g, pg_items = its\<rparr>)) (pc_groups p)"

definition task_ids :: "task_locator list \<Rightarrow> (string \<times> string) list" where
  "task_ids ts = map (\<lambda>t. (tk_task t, tk_interrupt t)) ts"

definition locator_covers :: "interaction_group \<Rightarrow> group_locator \<Rightarrow> bool" where
  "locator_covers g l \<longleftrightarrow> ig_group_id g = gl_group l
     \<and> concat (map tk_items (gl_tasks l)) = map ii_item_id (ig_items g)
     \<and> distinct (task_ids (gl_tasks l))"

definition decode_pause_snapshot :: "(string \<Rightarrow> string) \<Rightarrow> pause_snapshot \<Rightarrow> pause_collection result" where
  "decode_pause_snapshot sha p =
     bind_r (decode_interaction_bytes (ps_bytes p)) (\<lambda>raw.
     if sha (ps_bytes p) \<noteq> ps_digest p then Inl InteractionCorrupt
     else bind_r (dec_pause raw) (\<lambda>c.
       if length (pc_groups c) \<noteq> length (pc_locator c) then Inl InteractionCorrupt
       else if \<not> list_all2 locator_covers (pc_groups c) (pc_locator c) then Inl InteractionCorrupt
       else bind_r (groups_of c) (\<lambda>gs. bind_r (pause initial_interaction (ps_ref p) gs) (\<lambda>_. Inr c))))"

section \<open>Resume commands\<close>

definition decision_payload :: "resume_decision \<Rightarrow> json" where
  "decision_payload d = JObj (case d of
      ApproveD _ args \<Rightarrow> items [(''args'', opt_field True JObj args)]
    | EditD _ args \<Rightarrow> [(''args'', JObj args)]
    | RejectD _ reason \<Rightarrow> items [(''reason'', opt_field True JStr reason)]
    | RespondD _ response \<Rightarrow> [(''response'', JStr response)]
    | SubmitD _ v \<Rightarrow> [(''value'', JObj v)])"

fun decision_type :: "resume_decision \<Rightarrow> string" where
  "decision_type (ApproveD _ _) = ''approve''"
| "decision_type (EditD _ _) = ''edit''"
| "decision_type (RejectD _ _) = ''reject''"
| "decision_type (RespondD _ _) = ''respond''"
| "decision_type (SubmitD _ _) = ''submit''"

definition decision_of :: "resume_decision \<Rightarrow> decision result" where
  "decision_of d = bind_r (canonical_interaction_bytes (decision_payload d)) (\<lambda>raw.
     construct decision_check \<lparr>d_item_id = decision_item d, d_kind = decision_type d, d_payload = utf8 raw\<rparr>)"

definition decode_resume_command ::
  "(string \<Rightarrow> string) \<Rightarrow> string \<Rightarrow> string \<Rightarrow> string \<Rightarrow> string \<Rightarrow> string \<Rightarrow> submission result" where
  "decode_resume_command sha body digest run_id session_id command_id =
     (case loads body of None \<Rightarrow> Inl (ValidationError ''json'') | Some j \<Rightarrow>
      bind_r (dec_run_resume j) (\<lambda>m.
      if dumps_compact False (enc_run_resume False m) \<noteq> body \<or> rs_run_id m \<noteq> run_id \<or> rs_session_id m \<noteq> session_id
         \<or> rs_command_id m \<noteq> command_id \<or> rs_request_digest m \<noteq> Some digest
         \<or> control_request_digest sha m \<noteq> digest
      then Inl InteractionCorrupt
      else bind_r (traverse decision_of (rs_decisions m)) (\<lambda>ds.
        construct submission_check \<lparr>sub_command_id = rs_command_id m, sub_pause_revision = rs_expected_pause_revision m,
          sub_pause_ref = rs_pause_ref m, sub_decisions = ds\<rparr>)))"

section \<open>Stored decisions and plans\<close>

definition enc_decisions :: "resume_intent \<Rightarrow> json" where
  "enc_decisions i = JObj [(''format'', JStr ''kokoro-agent:resume-decisions:1''),
     (''groups'', enc_list (\<lambda>g. JObj [(''group_id'', JStr (dg_group_id g)),
        (''decisions'', enc_list (\<lambda>d. JObj [(''item_id'', JStr (d_item_id d)), (''kind'', JStr (d_kind d)),
           (''payload_b64'', JStr (b64encode (d_payload d)))]) (dg_decisions g))]) (ri_groups i))]"

definition decision_bytes :: "resume_intent \<Rightarrow> string result" where
  "decision_bytes i = canonical_interaction_bytes (enc_decisions i)"

text \<open>The stored decision, with its payload still in base64.\<close>

type_synonym stored_decision = "string \<times> string \<times> string"

definition dec_stored_decision :: "json \<Rightarrow> stored_decision result" where
  "dec_stored_decision j = bind_r (strict_fields [''item_id'', ''kind'', ''payload_b64''] j) (\<lambda>kvs.
     bind_r (required as_nonempty ''item_id'' kvs) (\<lambda>v_item.
     bind_r (required (as_literal decisions_vocabulary) ''kind'' kvs) (\<lambda>v_kind.
     bind_r (required as_str ''payload_b64'' kvs) (\<lambda>v_payload. Inr (v_item, v_kind, v_payload)))))"

definition dec_stored_group :: "json \<Rightarrow> (string \<times> stored_decision list) result" where
  "dec_stored_group j = bind_r (strict_fields [''group_id'', ''decisions''] j) (\<lambda>kvs.
     bind_r (required as_nonempty ''group_id'' kvs) (\<lambda>v_group.
     bind_r (required (as_nonempty_list dec_stored_decision) ''decisions'' kvs) (\<lambda>v_decisions.
     Inr (v_group, v_decisions))))"

definition dec_decisions :: "json \<Rightarrow> (string \<times> stored_decision list) list result" where
  "dec_decisions j = bind_r (strict_fields [''format'', ''groups''] j) (\<lambda>kvs.
     bind_r (required (as_literal [''kokoro-agent:resume-decisions:1'']) ''format'' kvs) (\<lambda>_.
     required (as_nonempty_list dec_stored_group) ''groups'' kvs))"

definition stored_to_decision :: "stored_decision \<Rightarrow> decision result" where
  "stored_to_decision d = (case d of (item, kind, text64) \<Rightarrow>
     (case b64decode text64 of None \<Rightarrow> Inl (ValueError ''base64'') | Some payload \<Rightarrow>
        if b64encode payload \<noteq> text64 then Inl InteractionCorrupt
        else construct decision_check \<lparr>d_item_id = item, d_kind = kind, d_payload = payload\<rparr>))"

definition stored_to_group :: "string \<times> stored_decision list \<Rightarrow> decision_group result" where
  "stored_to_group g = bind_r (traverse stored_to_decision (snd g)) (\<lambda>ds.
     construct decision_group_check \<lparr>dg_group_id = fst g, dg_decisions = ds\<rparr>)"

record task_plan =
  tp_task :: string
  tp_interrupt :: string
  tp_length :: int
  tp_digest :: string
  tp_append :: string

record group_plan =
  gp_group :: string
  gp_tasks :: "task_plan list"

record resume_plan =
  rp_attempt :: string
  rp_groups :: "group_plan list"

definition as_hex_digest :: "json \<Rightarrow> string result" where
  "as_hex_digest j = bind_r (as_str j) (\<lambda>s. if hex64 s then Inr s else invalid)"

definition dec_task_plan :: "json \<Rightarrow> task_plan result" where
  "dec_task_plan j = bind_r (strict_fields [''task_id'', ''interrupt_id'', ''pre_resume_length'', ''pre_resume_digest'',
        ''expected_append_digest''] j) (\<lambda>kvs.
     bind_r (required as_nonempty ''task_id'' kvs) (\<lambda>v_task.
     bind_r (required as_nonempty ''interrupt_id'' kvs) (\<lambda>v_interrupt.
     bind_r (required (as_int_from 0) ''pre_resume_length'' kvs) (\<lambda>v_length.
     bind_r (required as_hex_digest ''pre_resume_digest'' kvs) (\<lambda>v_digest.
     bind_r (required as_hex_digest ''expected_append_digest'' kvs) (\<lambda>v_append.
     Inr \<lparr>tp_task = v_task, tp_interrupt = v_interrupt, tp_length = v_length, tp_digest = v_digest,
          tp_append = v_append\<rparr>))))))"

definition dec_group_plan :: "json \<Rightarrow> group_plan result" where
  "dec_group_plan j = bind_r (strict_fields [''group_id'', ''tasks''] j) (\<lambda>kvs.
     bind_r (required as_nonempty ''group_id'' kvs) (\<lambda>v_group.
     bind_r (required (as_nonempty_list dec_task_plan) ''tasks'' kvs) (\<lambda>v_tasks.
     Inr \<lparr>gp_group = v_group, gp_tasks = v_tasks\<rparr>)))"

definition dec_resume_plan :: "json \<Rightarrow> resume_plan result" where
  "dec_resume_plan j = bind_r (strict_fields [''format'', ''attempt_id'', ''groups''] j) (\<lambda>kvs.
     bind_r (required (as_literal [''kokoro-agent:resume-dispatch:1'']) ''format'' kvs) (\<lambda>_.
     bind_r (required as_nonempty ''attempt_id'' kvs) (\<lambda>v_attempt.
     bind_r (required (as_nonempty_list dec_group_plan) ''groups'' kvs) (\<lambda>v_groups.
     Inr \<lparr>rp_attempt = v_attempt, rp_groups = v_groups\<rparr>))))"

text \<open>What a plan and the locator of a pause have to share.\<close>

definition locator_targets :: "group_locator list \<Rightarrow> (string \<times> (string \<times> string) list) list" where
  "locator_targets gs = map (\<lambda>g. (gl_group g, task_ids (gl_tasks g))) gs"

definition plan_targets :: "resume_plan \<Rightarrow> (string \<times> (string \<times> string) list) list" where
  "plan_targets p = map (\<lambda>g. (gp_group g, map (\<lambda>t. (tp_task t, tp_interrupt t)) (gp_tasks g))) (rp_groups p)"

record dispatch_plan =
  dpl_attempt :: string
  dpl_bytes :: string

definition dispatch_plan_check :: "dispatch_plan \<Rightarrow> exn option" where
  "dispatch_plan_check p = first_error
     [text_check (dpl_attempt p), fail_if (\<not> byte_limit_ok (dpl_bytes p)) (ValueError ''invalid dispatch plan bytes'')]"

end
