(* ===== verification/Interaction_Evidence.thy ===== *)
theory Interaction_Evidence
  imports Interaction_Codec
begin

text \<open>
  Checkpoint observations of \<open>src/kokoro_agent/infrastructure/postgres_run_interactions.py\<close>: the
  canonical record of what a worker read from the native checkpoints of a run, kept as evidence that
  a resume was consumed, and the checks that tie an observation to its run, its target and its pause.
\<close>

section \<open>Codecs\<close>

record observed_task =
  ot_task :: string
  ot_interrupt :: string
  ot_items :: "string list"
  ot_length :: int
  ot_digest :: string
  ot_error :: bool
  ot_interrupt_digest :: string

record successor =
  sx_checkpoint :: string
  sx_parent :: "string option"
  sx_tasks :: "string list"
  sx_interrupts :: "string list"

record observed_group =
  og_group :: string
  og_thread :: string
  og_ns :: string
  og_checkpoint :: string
  og_parent :: "string option"
  og_tasks :: "observed_task list"
  og_successors :: "successor list"

record quiescence =
  qs_boot :: string
  qs_invocation :: string

record observation =
  on_run :: string
  on_generation :: int
  on_command :: "string option"
  on_attempt :: "string option"
  on_kind :: string
  on_read_id :: "string option"
  on_facts :: "observed_group list"
  on_pause :: "pause_collection option"
  on_pause_ref :: "string option"
  on_pause_revision :: "int option"
  on_collection :: "string option"
  on_next_pause :: "pause_collection option"
  on_next_ref :: "string option"
  on_quiescence :: "quiescence option"
  on_progress :: "string option"

definition dec_observed_task :: "json \<Rightarrow> observed_task result" where
  "dec_observed_task j = bind_r (strict_fields [''task_id'', ''interrupt_id'', ''item_ids'', ''resume_length'',
        ''resume_digest'', ''error'', ''interrupt_digest''] j) (\<lambda>kvs.
     bind_r (required as_nonempty ''task_id'' kvs) (\<lambda>v_task.
     bind_r (required as_nonempty ''interrupt_id'' kvs) (\<lambda>v_interrupt.
     bind_r (required (as_nonempty_list as_nonempty) ''item_ids'' kvs) (\<lambda>v_items.
     bind_r (required (as_int_from 0) ''resume_length'' kvs) (\<lambda>v_length.
     bind_r (required as_hex_digest ''resume_digest'' kvs) (\<lambda>v_digest.
     bind_r (required as_bool ''error'' kvs) (\<lambda>v_error.
     bind_r (required as_hex_digest ''interrupt_digest'' kvs) (\<lambda>v_idigest.
     Inr \<lparr>ot_task = v_task, ot_interrupt = v_interrupt, ot_items = v_items, ot_length = v_length, ot_digest = v_digest,
          ot_error = v_error, ot_interrupt_digest = v_idigest\<rparr>))))))))"

definition dec_successor :: "json \<Rightarrow> successor result" where
  "dec_successor j = bind_r (strict_fields [''checkpoint_id'', ''parent_checkpoint_id'', ''current_task_ids'',
        ''current_interrupt_ids''] j) (\<lambda>kvs.
     bind_r (required as_nonempty ''checkpoint_id'' kvs) (\<lambda>v_checkpoint.
     bind_r (nullable as_str ''parent_checkpoint_id'' kvs) (\<lambda>v_parent.
     bind_r (required (as_list as_nonempty) ''current_task_ids'' kvs) (\<lambda>v_tasks.
     bind_r (required (as_list as_nonempty) ''current_interrupt_ids'' kvs) (\<lambda>v_interrupts.
     Inr \<lparr>sx_checkpoint = v_checkpoint, sx_parent = v_parent, sx_tasks = v_tasks, sx_interrupts = v_interrupts\<rparr>)))))"

definition dec_observed_group :: "json \<Rightarrow> observed_group result" where
  "dec_observed_group j = bind_r (strict_fields [''group_id'', ''thread_id'', ''checkpoint_ns'', ''checkpoint_id'',
        ''parent_checkpoint_id'', ''tasks'', ''successors''] j) (\<lambda>kvs.
     bind_r (required as_nonempty ''group_id'' kvs) (\<lambda>v_group.
     bind_r (required as_nonempty ''thread_id'' kvs) (\<lambda>v_thread.
     bind_r (required as_str ''checkpoint_ns'' kvs) (\<lambda>v_ns.
     bind_r (required as_nonempty ''checkpoint_id'' kvs) (\<lambda>v_checkpoint.
     bind_r (nullable as_str ''parent_checkpoint_id'' kvs) (\<lambda>v_parent.
     bind_r (required (as_nonempty_list dec_observed_task) ''tasks'' kvs) (\<lambda>v_tasks.
     bind_r (required (as_list dec_successor) ''successors'' kvs) (\<lambda>v_successors.
     Inr \<lparr>og_group = v_group, og_thread = v_thread, og_ns = v_ns, og_checkpoint = v_checkpoint, og_parent = v_parent,
          og_tasks = v_tasks, og_successors = v_successors\<rparr>))))))))"

definition dec_quiescence :: "json \<Rightarrow> quiescence result" where
  "dec_quiescence j = bind_r (strict_fields [''kind'', ''worker_boot_id'', ''invocation_id''] j) (\<lambda>kvs.
     bind_r (required (as_literal [''local_drained'']) ''kind'' kvs) (\<lambda>_.
     bind_r (required as_nonempty ''worker_boot_id'' kvs) (\<lambda>v_boot.
     bind_r (required as_nonempty ''invocation_id'' kvs) (\<lambda>v_invocation.
     Inr \<lparr>qs_boot = v_boot, qs_invocation = v_invocation\<rparr>))))"

definition enc_quiescence :: "quiescence \<Rightarrow> json" where
  "enc_quiescence q = JObj [(''kind'', JStr ''local_drained''), (''worker_boot_id'', JStr (qs_boot q)),
     (''invocation_id'', JStr (qs_invocation q))]"

definition observation_fields :: "string list" where
  "observation_fields = [''format'', ''run_id'', ''generation'', ''command_id'', ''attempt_id'', ''kind'', ''probe_read_id'',
     ''facts'', ''pause'', ''pause_ref'', ''pause_revision'', ''collection_digest'', ''next_pause'', ''next_pause_ref'',
     ''quiescence'', ''progress_digest'']"

definition observation_kinds :: "string list" where
  "observation_kinds = [''pause'', ''read'', ''resume'', ''probe'']"

definition dec_observation :: "json \<Rightarrow> observation result" where
  "dec_observation j = bind_r (strict_fields observation_fields j) (\<lambda>kvs.
     bind_r (required (as_literal [''kokoro-agent:checkpoint-observation:1'']) ''format'' kvs) (\<lambda>_.
     bind_r (required as_nonempty ''run_id'' kvs) (\<lambda>v_run.
     bind_r (required (as_int_from 1) ''generation'' kvs) (\<lambda>v_generation.
     bind_r (nullable as_str ''command_id'' kvs) (\<lambda>v_command.
     bind_r (nullable as_str ''attempt_id'' kvs) (\<lambda>v_attempt.
     bind_r (required (as_literal observation_kinds) ''kind'' kvs) (\<lambda>v_kind.
     bind_r (nullable as_str ''probe_read_id'' kvs) (\<lambda>v_read.
     bind_r (required (as_list dec_observed_group) ''facts'' kvs) (\<lambda>v_facts.
     bind_r (optional dec_pause ''pause'' kvs) (\<lambda>v_pause.
     bind_r (optional as_str ''pause_ref'' kvs) (\<lambda>v_ref.
     bind_r (optional as_integer ''pause_revision'' kvs) (\<lambda>v_revision.
     bind_r (optional as_str ''collection_digest'' kvs) (\<lambda>v_collection.
     bind_r (optional dec_pause ''next_pause'' kvs) (\<lambda>v_next.
     bind_r (optional as_str ''next_pause_ref'' kvs) (\<lambda>v_nextref.
     bind_r (optional dec_quiescence ''quiescence'' kvs) (\<lambda>v_quiescence.
     bind_r (optional as_str ''progress_digest'' kvs) (\<lambda>v_progress.
     Inr \<lparr>on_run = v_run, on_generation = v_generation, on_command = v_command, on_attempt = v_attempt,
          on_kind = v_kind, on_read_id = v_read, on_facts = v_facts, on_pause = v_pause, on_pause_ref = v_ref,
          on_pause_revision = v_revision, on_collection = v_collection, on_next_pause = v_next, on_next_ref = v_nextref,
          on_quiescence = v_quiescence, on_progress = v_progress\<rparr>)))))))))))))))))"

section \<open>Targets\<close>

record observation_target =
  tg_generation :: int
  tg_command :: "string option"
  tg_attempt :: "string option"

definition observation_target_check :: "observation_target \<Rightarrow> exn option" where
  "observation_target_check t = first_error
     [revision_check (tg_generation t) 1,
      fail_if ((tg_command t = None) \<noteq> (tg_attempt t = None)) (ValueError ''incomplete observation target''),
      (case tg_command t of None \<Rightarrow> None | Some c \<Rightarrow> first_error
         [text_check c, case tg_attempt t of None \<Rightarrow> None | Some a \<Rightarrow> text_check a])]"

record checkpoint_observation =
  co_target :: observation_target
  co_kind :: string
  co_bytes :: string
  co_digest :: string

text \<open>What the facts of a pause and its locator agree on.\<close>

type_synonym group_place = "string \<times> string \<times> string \<times> string \<times> (string \<times> string \<times> string list) list"

definition locator_places :: "group_locator list \<Rightarrow> group_place list" where
  "locator_places gs = map (\<lambda>g. (gl_group g, gl_thread g, gl_ns g, gl_checkpoint g,
     map (\<lambda>t. (tk_task t, tk_interrupt t, tk_items t)) (gl_tasks g))) gs"

definition fact_places :: "observed_group list \<Rightarrow> group_place list" where
  "fact_places gs = map (\<lambda>g. (og_group g, og_thread g, og_ns g, og_checkpoint g,
     map (\<lambda>t. (ot_task t, ot_interrupt t, ot_items t)) (og_tasks g))) gs"

definition blank :: "string option \<Rightarrow> bool" where
  "blank v \<longleftrightarrow> v = None \<or> v = Some []"

definition observation_identity_ok ::
  "(string \<Rightarrow> string) \<Rightarrow> checkpoint_observation \<Rightarrow> run_request \<Rightarrow> observation \<Rightarrow> bool" where
  "observation_identity_ok sha value q o' \<longleftrightarrow>
     sha (co_bytes value) = co_digest value
     \<and> (on_run o', on_generation o', on_command o', on_attempt o', on_kind o')
       = (rq_run_id q, tg_generation (co_target value), tg_command (co_target value), tg_attempt (co_target value), co_kind value)
     \<and> (on_command o' = None \<longleftrightarrow> on_attempt o' = None)
     \<and> (on_command o' \<noteq> None \<longrightarrow> \<not> blank (on_command o') \<and> \<not> blank (on_attempt o'))
     \<and> (on_kind o' = ''pause'' \<longrightarrow> on_command o' = None)
     \<and> (on_kind o' \<in> {''resume'', ''probe''} \<longrightarrow> on_command o' \<noteq> None)
     \<and> (on_kind o' = ''probe'' \<longleftrightarrow> on_read_id o' \<noteq> None)
     \<and> (on_kind o' = ''probe'' \<longrightarrow> \<not> blank (on_read_id o') \<and> on_quiescence o' \<noteq> None \<and> on_progress o' \<noteq> None)
     \<and> (on_kind o' \<noteq> ''probe'' \<longrightarrow> on_quiescence o' = None \<and> on_progress o' = None)"

text \<open>The successors of a group form a chain from its checkpoint.\<close>

fun causal :: "string \<Rightarrow> successor list \<Rightarrow> bool" where
  "causal prior [] = True"
| "causal prior (s # ss) \<longleftrightarrow> sx_parent s = Some prior \<and> sx_checkpoint s \<noteq> prior \<and> causal (sx_checkpoint s) ss"

definition observed_group_ok :: "string \<Rightarrow> observed_group \<Rightarrow> bool" where
  "observed_group_ok thread g \<longleftrightarrow> og_thread g = thread
     \<and> distinct (map (\<lambda>t. (ot_task t, ot_interrupt t)) (og_tasks g))
     \<and> distinct (concat (map ot_items (og_tasks g)))
     \<and> causal (og_checkpoint g) (og_successors g)"

text \<open>The snapshot of a decoded collection: its canonical bytes and their digest.\<close>

definition snapshot_of :: "(string \<Rightarrow> string) \<Rightarrow> string \<Rightarrow> pause_collection \<Rightarrow> pause_snapshot result" where
  "snapshot_of sha ref p = bind_r (canonical_interaction_bytes (enc_pause p)) (\<lambda>raw.
     construct pause_snapshot_check \<lparr>ps_ref = ref, ps_bytes = raw, ps_digest = sha raw\<rparr>)"

definition pause_observation_ok :: "(string \<Rightarrow> string) \<Rightarrow> observation \<Rightarrow> unit result" where
  "pause_observation_ok sha o' =
     (if on_kind o' = ''pause'' then
        (case (on_pause o', on_pause_ref o') of
          (Some p, Some ref) \<Rightarrow>
            if ref = [] then Inl InteractionCorrupt
            else bind_r (snapshot_of sha ref p) (\<lambda>snap.
              bind_r (decode_pause_snapshot sha snap) (\<lambda>original.
              if locator_places (pc_locator original) \<noteq> fact_places (on_facts o') then Inl InteractionCorrupt else Inr ()))
        | _ \<Rightarrow> Inl InteractionCorrupt)
      else if on_pause o' \<noteq> None then Inl InteractionCorrupt else Inr ())"

definition resume_observation_ok :: "observation \<Rightarrow> unit result" where
  "resume_observation_ok o' =
     (if on_kind o' = ''resume'' then
        (if blank (on_pause_ref o') \<or> on_pause_revision o' \<in> {None, Some 0} \<or> blank (on_collection o') \<or> on_facts o' = []
         then Inl InteractionCorrupt else Inr ())
      else if on_pause_revision o' \<noteq> None \<or> on_collection o' \<noteq> None \<or> on_next_pause o' \<noteq> None \<or> on_next_ref o' \<noteq> None
      then Inl InteractionCorrupt else Inr ())"

definition decode_checkpoint_observation ::
  "(string \<Rightarrow> string) \<Rightarrow> checkpoint_observation \<Rightarrow> run_request \<Rightarrow> observation result" where
  "decode_checkpoint_observation sha value q =
     bind_r (decode_interaction_bytes (co_bytes value)) (\<lambda>raw.
     bind_r (dec_observation raw) (\<lambda>o'.
     if \<not> observation_identity_ok sha value q o' then Inl InteractionCorrupt
     else if \<not> distinct (map og_group (on_facts o')) then Inl InteractionCorrupt
     else if \<not> list_all (observed_group_ok (scoped_thread_id (scope_of sha q))) (on_facts o') then Inl InteractionCorrupt
     else bind_r (pause_observation_ok sha o') (\<lambda>_.
       bind_r (resume_observation_ok o') (\<lambda>_.
       if on_kind o' \<in> {''read'', ''probe''} \<and> on_pause_ref o' \<noteq> None then Inl InteractionCorrupt
       else if (on_next_pause o' = None) \<noteq> (on_next_ref o' = None) then Inl InteractionCorrupt
       else Inr o'))))"

end
