(* ===== verification/Run_Interactions.thy ===== *)
theory Run_Interactions
  imports Interaction_Evidence Run_Effects
begin

text \<open>
  The human-in-the-loop transactions of
  \<open>src/kokoro_agent/infrastructure/postgres_run_interactions.py\<close>. The claim row holds the head of the
  interaction (revision, phase, pause), the command row of a resume holds its intent; every transaction
  decodes both into the \<open>InteractionState\<close> of the domain, applies one transition of it and writes the
  result back. JSONB columns hold the parsed value. \<open>us\<close> is the database clock in microseconds; an
  operation that reads it twice has two of them.
\<close>

section \<open>Command rows\<close>

definition intent_statuses :: "string list" where
  "intent_statuses = [''accepted'', ''dispatch_started'', ''native_observed'', ''unknown'', ''reconciled'', ''terminal'']"

fun status_value :: "intent_status \<Rightarrow> string" where
  "status_value Accepted = ''accepted''"
| "status_value DispatchStarted = ''dispatch_started''"
| "status_value NativeObserved = ''native_observed''"
| "status_value UnknownStatus = ''unknown''"
| "status_value Reconciled = ''reconciled''"
| "status_value TerminalIntent = ''terminal''"

definition intent_status_of :: "string \<Rightarrow> intent_status result" where
  "intent_status_of s = (if s = ''accepted'' then Inr Accepted else if s = ''dispatch_started'' then Inr DispatchStarted
     else if s = ''native_observed'' then Inr NativeObserved else if s = ''unknown'' then Inr UnknownStatus
     else if s = ''reconciled'' then Inr Reconciled else if s = ''terminal'' then Inr TerminalIntent
     else Inl (ValueError ''IntentStatus''))"

definition object_or_null :: "json option \<Rightarrow> bool" where
  "object_or_null v = (case v of None \<Rightarrow> True | Some j \<Rightarrow> json_object j)"

text \<open>\<open>_CommandRow.model_validate\<close>.\<close>

definition command_row_check :: "command_row \<Rightarrow> exn option" where
  "command_row_check c = first_error
     [fail_if (case cc_resume_status c of None \<Rightarrow> False | Some s \<Rightarrow> \<not> List.member intent_statuses s) strict_error,
      fail_if (case cc_result c of None \<Rightarrow> False | Some k \<Rightarrow> \<not> List.member result_kinds k) strict_error,
      fail_if (\<not> list_all object_or_null [cc_snapshot c, cc_plan c, cc_probe_quiescence c]) strict_error]"

text \<open>The CHECK constraints \<open>ck_control_resume_*\<close>.\<close>

definition count_set :: "bool list \<Rightarrow> nat" where
  "count_set bs = length (filter (\<lambda>b. b) bs)"

definition command_intent_ok :: "command_row \<Rightarrow> bool" where
  "command_intent_ok c \<longleftrightarrow> (let required_fields = [cc_pause_revision c \<noteq> None, cc_pause_ref c \<noteq> None, cc_decisions c \<noteq> None,
       cc_decisions_digest c \<noteq> None, cc_snapshot c \<noteq> None, cc_collection c \<noteq> None, cc_accepted_revision c \<noteq> None,
       cc_accepted_source c \<noteq> None, cc_accepted_at c \<noteq> None] in
     (case cc_resume_status c of
        None \<Rightarrow> count_set required_fields = 0 \<and> cc_attempt c = None \<and> cc_attempt_generation c = None
          \<and> cc_plan c = None \<and> cc_started_at c = None
      | Some s \<Rightarrow> List.member intent_statuses s \<and> count_set required_fields = 9
          \<and> 0 < the (cc_pause_revision c) \<and> the (cc_pause_ref c) \<noteq> [] \<and> byte_limit_ok (the (cc_decisions c))
          \<and> hex64 (the (cc_decisions_digest c)) \<and> hex64 (the (cc_collection c)) \<and> json_object (the (cc_snapshot c))
          \<and> the (cc_pause_revision c) < the (cc_accepted_revision c) \<and> 0 \<le> the (cc_accepted_source c)))"

definition command_attempt_ok :: "command_row \<Rightarrow> bool" where
  "command_attempt_ok c \<longleftrightarrow>
     (case (cc_attempt c, cc_attempt_generation c, cc_plan c, cc_started_at c) of
        (None, None, None, None) \<Rightarrow> cc_resume_status c \<in> {None, Some ''accepted'', Some ''terminal''}
      | (Some a, Some g, Some p, Some t) \<Rightarrow>
          cc_resume_status c \<in> {Some ''dispatch_started'', Some ''native_observed'', Some ''unknown'', Some ''reconciled'',
            Some ''terminal''}
          \<and> a \<noteq> [] \<and> 0 < g \<and> json_object p \<and> (case cc_accepted_at c of None \<Rightarrow> True | Some t' \<Rightarrow> t' \<le> t)
      | _ \<Rightarrow> False)"

definition command_probe_ok :: "command_row \<Rightarrow> bool" where
  "command_probe_ok c \<longleftrightarrow> 0 \<le> cc_probe_count c \<and> cc_probe_count c \<le> 3
     \<and> (case (cc_probe_progress c, cc_probe_quiescence c, cc_probe_read c, cc_probe_checked c) of
          (None, None, None, None) \<Rightarrow> cc_probe_count c = 0
        | (Some p, Some q, Some r, Some _) \<Rightarrow> hex64 p \<and> json_object q \<and> r \<noteq> [] \<and> cc_attempt c \<noteq> None
        | _ \<Rightarrow> False)"

definition command_result_ok :: "command_row \<Rightarrow> bool" where
  "command_result_ok c \<longleftrightarrow>
     (case (cc_result c, cc_result_revision c, cc_result_source c) of
        (None, None, None) \<Rightarrow> True
      | (Some k, Some r, Some n) \<Rightarrow> List.member result_kinds k \<and> 0 < r \<and> 0 \<le> n \<and> cc_resume_status c \<noteq> None
      | _ \<Rightarrow> False)"

definition command_observation_ok :: "command_row \<Rightarrow> bool" where
  "command_observation_ok c \<longleftrightarrow> (case cc_observation c of
      None \<Rightarrow> cc_resume_status c \<noteq> Some ''native_observed'' | Some d \<Rightarrow> hex64 d)"

definition command_ok :: "command_row \<Rightarrow> bool" where
  "command_ok c \<longleftrightarrow> command_intent_ok c \<and> command_attempt_ok c \<and> command_probe_ok c
     \<and> command_result_ok c \<and> command_observation_ok c"

text \<open>The partial unique indexes on the pause revision and on the attempt of a run.\<close>

definition command_clash :: "string \<Rightarrow> string \<Rightarrow> command_row \<Rightarrow> db \<Rightarrow> bool" where
  "command_clash r cmd c db \<longleftrightarrow> list_ex (\<lambda>((r', cmd'), d). r' = r \<and> cmd' \<noteq> cmd
     \<and> (cc_resume_status c \<noteq> None \<and> cc_resume_status d \<noteq> None \<and> cc_pause_revision c = cc_pause_revision d
        \<or> cc_attempt c \<noteq> None \<and> cc_attempt c = cc_attempt d)) (commands db)"

definition command_write_error :: "string \<Rightarrow> string \<Rightarrow> command_row \<Rightarrow> db \<Rightarrow> exn option" where
  "command_write_error r cmd c db = first_error
     [fail_if (\<not> command_ok c) CheckViolation, fail_if (command_clash r cmd c db) UniqueViolation]"

definition update_command :: "string \<Rightarrow> string \<Rightarrow> (command_row \<Rightarrow> command_row) \<Rightarrow> unit tx" where
  "update_command r cmd f db = (case map_of (commands db) (r, cmd) of None \<Rightarrow> Inr ((), db)
     | Some c \<Rightarrow> guard_r (command_write_error r cmd (f c) db)
         (Inr ((), db\<lparr>commands := update_at (r, cmd) f (commands db)\<rparr>)))"

section \<open>Reading the stored state\<close>

text \<open>\<open>_RunRow.model_validate\<close>: the pending groups of the row.\<close>

definition run_row_groups :: "claim \<Rightarrow> interaction_group list result" where
  "run_row_groups c = (if cl_request c = None \<or> \<not> object_or_null (cl_ia_snapshot c) then Inl strict_error
     else traverse dec_interaction_group (cl_ia_groups c))"

text \<open>\<open>_run\<close>: the claim and its decoded pending groups.\<close>

definition run_row :: "run_request \<Rightarrow> db \<Rightarrow> (claim \<times> interaction_group list) result" where
  "run_row q db = (case map_of (claims db) (rq_run_id q) of None \<Rightarrow> Inl InteractionRunMissing | Some c \<Rightarrow>
     if cl_tenant c \<noteq> ei_tenant_ref (rq_identity q) then Inl InteractionRunMissing
     else bind_r (run_row_groups c) (\<lambda>gs.
       if cl_request c \<noteq> Some (request_text q) then Inl InteractionCorrupt else Inr (c, gs)))"

definition stored_command :: "string \<Rightarrow> string \<Rightarrow> db \<Rightarrow> command_row result" where
  "stored_command r cmd db = (case map_of (commands db) (r, cmd) of
      None \<Rightarrow> Inl (InteractionConflict ''command_missing'')
    | Some c \<Rightarrow> construct command_row_check c)"

text \<open>The pause a row keeps, from its JSONB column.\<close>

definition row_snapshot :: "string \<Rightarrow> json \<Rightarrow> string \<Rightarrow> pause_snapshot result" where
  "row_snapshot ref snap digest = bind_r (canonical_interaction_bytes snap) (\<lambda>raw.
     construct pause_snapshot_check \<lparr>ps_ref = ref, ps_bytes = raw, ps_digest = digest\<rparr>)"

text \<open>\<open>_intent\<close>: the accepted decisions, replayed from the admitted command.\<close>

definition accepted_groups ::
  "(string \<Rightarrow> string) \<Rightarrow> run_request \<Rightarrow> string \<Rightarrow> command_row \<Rightarrow> int \<Rightarrow> string \<Rightarrow> int \<Rightarrow> pause_collection
    \<Rightarrow> string \<Rightarrow> string \<Rightarrow> decision_group list result" where
  "accepted_groups sha q cmd c revision ref accepted p decided digest =
     bind_r (decode_interaction_bytes decided) (\<lambda>j.
     bind_r (dec_decisions j) (\<lambda>stored.
     if sha decided \<noteq> digest then Inl InteractionCorrupt
     else bind_r (traverse stored_to_group stored) (\<lambda>gs.
       bind_r (decode_resume_command sha (cc_body c) (cc_digest c) (rq_run_id q) (rq_session_id q) cmd) (\<lambda>sub.
       bind_r (groups_of p) (\<lambda>pending.
       bind_r (construct interaction_state_check \<lparr>interaction_revision = accepted - 1, pause_revision = revision,
          pause_ref = Some ref, phase = PhaseWaiting, groups = pending, intent = None\<rparr>) (\<lambda>waiting.
       bind_r (accept waiting sub) (\<lambda>original.
       if map_option ri_groups (intent original) \<noteq> Some gs then Inl InteractionCorrupt else Inr gs)))))))"

definition attempt_error :: "command_row \<Rightarrow> intent_status \<Rightarrow> exn option" where
  "attempt_error c st = (let started = [cc_attempt c \<noteq> None, cc_attempt_generation c \<noteq> None, cc_plan c \<noteq> None,
       cc_started_at c \<noteq> None] in first_error
     [fail_if (list_ex (\<lambda>b. b) started \<and> \<not> list_all (\<lambda>b. b) started) InteractionCorrupt,
      fail_if (st = Accepted \<and> cc_attempt c \<noteq> None
        \<or> st \<in> {DispatchStarted, NativeObserved, UnknownStatus, Reconciled} \<and> cc_attempt c = None) InteractionCorrupt])"

definition plan_agrees :: "command_row \<Rightarrow> pause_collection \<Rightarrow> unit result" where
  "plan_agrees c p = (case cc_plan c of None \<Rightarrow> Inr () | Some j \<Rightarrow>
     bind_r (canonical_interaction_bytes j) (\<lambda>raw.
     bind_r (decode_interaction_bytes raw) (\<lambda>v.
     bind_r (dec_resume_plan v) (\<lambda>plan.
     if Some (rp_attempt plan) \<noteq> cc_attempt c \<or> locator_targets (pc_locator p) \<noteq> plan_targets plan
     then Inl InteractionCorrupt else Inr ()))))"

definition stored_intent ::
  "(string \<Rightarrow> string) \<Rightarrow> run_request \<Rightarrow> string \<Rightarrow> command_row \<Rightarrow> resume_intent result" where
  "stored_intent sha q cmd c =
     (case (cc_resume_status c, cc_pause_revision c, cc_pause_ref c, cc_decisions c, cc_decisions_digest c) of
       (Some status, Some revision, Some ref, Some decided, Some digest) \<Rightarrow>
         (case (cc_snapshot c, cc_collection c, cc_accepted_revision c, cc_accepted_source c, cc_accepted_at c) of
           (Some snap, Some collection, Some accepted, Some _, Some _) \<Rightarrow>
             bind_r (row_snapshot ref snap collection) (\<lambda>ps.
             bind_r (decode_pause_snapshot sha ps) (\<lambda>p.
             bind_r (accepted_groups sha q cmd c revision ref accepted p decided digest) (\<lambda>gs.
             bind_r (intent_status_of status) (\<lambda>st.
             guard_r (attempt_error c st)
             (bind_r (plan_agrees c p) (\<lambda>_.
              construct resume_intent_check \<lparr>ri_command_id = cmd, ri_pause_revision = revision, ri_pause_ref = ref,
                ri_groups = gs, ri_status = st, ri_attempt_id = cc_attempt c\<rparr>))))))
         | _ \<Rightarrow> Inl InteractionCorrupt)
     | _ \<Rightarrow> Inl InteractionCorrupt)"

record interaction_snapshot =
  sn_state :: interaction_state
  sn_pause :: "pause_snapshot option"
  sn_source :: "int option"

text \<open>The pause of the head and the pending set its phase shows.\<close>

definition head_pause ::
  "(string \<Rightarrow> string) \<Rightarrow> claim \<Rightarrow> interaction_group list \<Rightarrow> (pause_snapshot option \<times> pending_group list) result" where
  "head_pause sha c gs =
     (if cl_ia_pause_revision c \<noteq> 0 then
        (case (cl_ia_pause_ref c, cl_ia_snapshot c, cl_ia_digest c) of
          (Some ref, Some snap, Some digest) \<Rightarrow>
            bind_r (row_snapshot ref snap digest) (\<lambda>ps.
            bind_r (decode_pause_snapshot sha ps) (\<lambda>p.
            if cl_ia_phase c \<in> {PhaseWaiting, PhaseResuming} then
              (if \<not> py_eq (enc_list enc_interaction_group gs) (enc_list enc_interaction_group (pc_groups p))
               then Inl InteractionCorrupt
               else bind_r (groups_of p) (\<lambda>pending. Inr (Some ps, pending)))
            else if gs \<noteq> [] then Inl InteractionCorrupt
            else Inr (Some ps, [])))
        | _ \<Rightarrow> Inl InteractionCorrupt)
      else if cl_ia_pause_ref c \<noteq> None \<or> cl_ia_snapshot c \<noteq> None \<or> cl_ia_digest c \<noteq> None \<or> gs \<noteq> []
      then Inl InteractionCorrupt
      else Inr (None, []))"

definition read_snapshot ::
  "(string \<Rightarrow> string) \<Rightarrow> run_request \<Rightarrow> claim \<Rightarrow> interaction_group list \<Rightarrow> db \<Rightarrow> interaction_snapshot result" where
  "read_snapshot sha q c gs db =
     (if cl_terminal c \<noteq> (cl_ia_phase c = PhaseTerminal) then Inl InteractionCorrupt
      else bind_r (head_pause sha c gs) (\<lambda>(ps, pending).
        bind_r (case cl_ia_command c of None \<Rightarrow> Inr None
          | Some cmd \<Rightarrow> bind_r (stored_command (rq_run_id q) cmd db) (\<lambda>row.
              map_sum id Some (stored_intent sha q cmd row))) (\<lambda>i.
        bind_r (construct interaction_state_check \<lparr>interaction_revision = cl_ia_revision c,
           pause_revision = cl_ia_pause_revision c, pause_ref = cl_ia_pause_ref c, phase = cl_ia_phase c,
           groups = pending, intent = i\<rparr>) (\<lambda>s.
        Inr \<lparr>sn_state = s, sn_pause = ps, sn_source = cl_ia_source c\<rparr>))))"

definition read_interaction :: "(string \<Rightarrow> string) \<Rightarrow> run_request \<Rightarrow> db \<Rightarrow> interaction_snapshot option result" where
  "read_interaction sha q db = (case run_row q db of
      Inl InteractionRunMissing \<Rightarrow> Inr None
    | Inl e \<Rightarrow> Inl e
    | Inr (c, gs) \<Rightarrow> map_sum id Some (read_snapshot sha q c gs db))"

definition active_authority :: "int \<Rightarrow> claim \<Rightarrow> lease_fence \<Rightarrow> exn option" where
  "active_authority us c l = fail_if (\<not> (fenced c l \<and> lease_live_us us c)) InteractionAuthorityLost"

section \<open>Writing the head\<close>

definition parsed_column :: "string \<Rightarrow> json result" where
  "parsed_column s = (case loads s of None \<Rightarrow> Inl (ValueError ''invalid input syntax for type json'') | Some v \<Rightarrow> Inr v)"

text \<open>The action a chat snapshot reports, and the copy kept with its command.\<close>

definition write_action ::
  "run_request \<Rightarrow> interaction_state \<Rightarrow> int \<Rightarrow> bool \<Rightarrow> string option \<Rightarrow> action_result option tx" where
  "write_action q s index visible result_kind db = (case intent s of None \<Rightarrow> Inr (None, db) | Some i \<Rightarrow>
     bind_r (stored_command (rq_run_id q) (ri_command_id i) db) (\<lambda>row.
     case (case result_kind of None \<Rightarrow> cc_result row | Some k \<Rightarrow> Some k) of None \<Rightarrow> Inr (None, db) | Some kind \<Rightarrow>
       bind_r (construct action_result_check
         \<lparr>ar_command_id = ri_command_id i, ar_pause_revision = ri_pause_revision i, ar_kind = kind\<rparr>) (\<lambda>action.
       if \<not> visible then Inr (Some action, db)
       else bind_r (update_command (rq_run_id q) (ri_command_id i)
           (\<lambda>c. c\<lparr>cc_result := Some kind, cc_result_revision := Some (interaction_revision s),
                 cc_result_source := Some index\<rparr>) db) (\<lambda>(_, db). Inr (Some action, db)))))"

definition head_columns ::
  "int \<Rightarrow> interaction_state \<Rightarrow> int \<Rightarrow> bool \<Rightarrow> interaction_group list \<Rightarrow> pause_snapshot option \<Rightarrow> json option \<Rightarrow> claim \<Rightarrow> claim" where
  "head_columns us s index visible gs ps snap c = c\<lparr>
     cl_ia_revision := interaction_revision s, cl_ia_phase := phase s,
     cl_ia_source := (if visible then Some index else None), cl_ia_pause_revision := pause_revision s,
     cl_ia_pause_ref := pause_ref s, cl_ia_groups := map enc_interaction_group gs, cl_ia_snapshot := snap,
     cl_ia_digest := map_option ps_digest ps, cl_ia_command := map_option ri_command_id (intent s),
     cl_index := index + (if visible then 1 else 0),
     cl_terminal := (phase s = PhaseTerminal \<or> cl_terminal c),
     cl_terminal_at := (if phase s = PhaseTerminal then Some (to_ms us) else cl_terminal_at c)\<rparr>"

definition interaction_fact ::
  "(string \<Rightarrow> string) \<Rightarrow> int \<Rightarrow> run_request \<Rightarrow> int \<Rightarrow> chat_interaction_state \<Rightarrow> chat_projection result" where
  "interaction_fact sha us q index payload = (let scope = scope_of sha q in
     bind_r (utc_field (AwareTime us)) (\<lambda>t.
     bind_r (construct chat_event_draft_check
       \<lparr>ce_tenant = ei_tenant_ref (rq_identity q), ce_namespace = sc_namespace scope, ce_session = rq_session_id q,
        ce_run = rq_run_id q, ce_source_index = index, ce_message_id = None, ce_type = ''interaction.state'',
        ce_payload_json = dumps_compact False (enc_chat_interaction payload), ce_created_at = t\<rparr>) (\<lambda>event.
     construct chat_projection_check \<lparr>cp_event = event, cp_message = None\<rparr>)))"

definition chat_state_of ::
  "interaction_state \<Rightarrow> interaction_group list \<Rightarrow> action_result option \<Rightarrow> chat_interaction_state" where
  "chat_state_of s gs action = \<lparr>ci_interaction_revision = interaction_revision s, ci_pause_revision = pause_revision s,
     ci_pause_ref = pause_ref s, ci_phase = phase s, ci_groups = gs, ci_action = action\<rparr>"

definition shown_groups :: "interaction_state \<Rightarrow> pause_collection option \<Rightarrow> interaction_group list" where
  "shown_groups s v = (case v of None \<Rightarrow> []
     | Some p \<Rightarrow> if phase s \<in> {PhaseWaiting, PhaseResuming} then pc_groups p else [])"

text \<open>\<open>_write\<close>; \<open>index\<close> is the event counter of the locked row.\<close>

definition write_head ::
  "(string \<Rightarrow> string) \<Rightarrow> (string \<Rightarrow> string) \<Rightarrow> int \<Rightarrow> run_request \<Rightarrow> int \<Rightarrow> interaction_state \<Rightarrow> pause_snapshot option
    \<Rightarrow> bool \<Rightarrow> string option \<Rightarrow> interaction_snapshot tx" where
  "write_head sha uuid us q index s ps visible result_kind db =
     bind_r (case ps of None \<Rightarrow> Inr None | Some p \<Rightarrow> map_sum id Some (decode_pause_snapshot sha p)) (\<lambda>v.
     let gs = shown_groups s v in
     bind_r (write_action q s index visible result_kind db) (\<lambda>(action, db).
     bind_r (construct chat_interaction_check (chat_state_of s gs action)) (\<lambda>payload.
     bind_r (canonical_interaction_bytes (enc_list enc_interaction_group gs)) (\<lambda>_.
     bind_r (case ps of None \<Rightarrow> Inr None | Some p \<Rightarrow> map_sum id Some (parsed_column (ps_bytes p))) (\<lambda>snap.
     bind_r (update_claim (rq_run_id q) (\<lambda>_. True) (head_columns us s index visible gs ps snap) db) (\<lambda>(_, db).
     bind_r (if \<not> visible then Inr ((), db)
             else bind_r (interaction_fact sha us q index payload) (\<lambda>p.
               bind_r (append_projection uuid p (chat db)) (\<lambda>(_, chat'). Inr ((), db\<lparr>chat := chat'\<rparr>)))) (\<lambda>(_, db).
     Inr (\<lparr>sn_state = s, sn_pause = ps, sn_source = (if visible then Some index else None)\<rparr>, db))))))))"

end
