(* ===== verification/Run_Resume.thy ===== *)
theory Run_Resume
  imports Run_Interactions
begin

text \<open>
  The operations of \<open>PostgresRunInteractions\<close>: record a pause, accept a resume command, start its one
  dispatch, mark it unknown, store checkpoint observations as evidence, reconcile the resume with them,
  count quiescent probes, and end the interaction with its run.
\<close>

datatype resume_result =
    Committed interaction_snapshot
  | Replayed interaction_snapshot "resume_intent option" "int option"
  | AcceptedResume interaction_snapshot lease_fence
  | StartedResume interaction_snapshot string

text \<open>The interaction of a locked run.\<close>

definition locked_interaction ::
  "(string \<Rightarrow> string) \<Rightarrow> run_request \<Rightarrow> db \<Rightarrow> (claim \<times> interaction_snapshot) result" where
  "locked_interaction sha q db = bind_r (run_row q db) (\<lambda>(c, gs).
     bind_r (read_snapshot sha q c gs db) (\<lambda>sn. Inr (c, sn)))"

text \<open>The same, with the command locked in between.\<close>

definition locked_command ::
  "(string \<Rightarrow> string) \<Rightarrow> run_request \<Rightarrow> string \<Rightarrow> db \<Rightarrow> (claim \<times> command_row \<times> interaction_snapshot) result" where
  "locked_command sha q cmd db = bind_r (run_row q db) (\<lambda>(c, gs).
     bind_r (stored_command (rq_run_id q) cmd db) (\<lambda>row.
     bind_r (read_snapshot sha q c gs db) (\<lambda>sn. Inr (c, row, sn))))"

definition set_status :: "int \<Rightarrow> string \<Rightarrow> command_row \<Rightarrow> command_row" where
  "set_status us s c = c\<lparr>cc_resume_status := Some s, cc_updated := to_ms us\<rparr>"

definition release_lease :: "string \<Rightarrow> unit tx" where
  "release_lease r db = bind_r (update_claim r (\<lambda>_. True) (\<lambda>c. c\<lparr>cl_expires := None\<rparr>) db) (\<lambda>(_, db). Inr ((), db))"

section \<open>Pausing\<close>

definition record_pause ::
  "(string \<Rightarrow> string) \<Rightarrow> (string \<Rightarrow> string) \<Rightarrow> int \<Rightarrow> int \<Rightarrow> run_request \<Rightarrow> lease_fence \<Rightarrow> pause_snapshot \<Rightarrow> resume_result tx" where
  "record_pause sha uuid us us' q l ps db =
     bind_r (decode_pause_snapshot sha ps) (\<lambda>v.
     if list_ex (\<lambda>g. gl_thread g \<noteq> scoped_thread_id (scope_of sha q)) (pc_locator v) then Inl InteractionCorrupt
     else bind_r (locked_interaction sha q db) (\<lambda>(c, sn).
     if \<not> cl_terminal c \<and> fenced c l \<and> phase (sn_state sn) = PhaseWaiting \<and> sn_pause sn = Some ps
     then Inr (Replayed sn (intent (sn_state sn)) (sn_source sn), db)
     else guard_r (active_authority us c l)
     (bind_r (groups_of v) (\<lambda>gs.
      bind_r (pause (sn_state sn) (ps_ref ps) gs) (\<lambda>s.
      bind_r (case intent s of None \<Rightarrow> Inr ((), db)
         | Some i \<Rightarrow> update_command (rq_run_id q) (ri_command_id i) (set_status us ''reconciled'') db) (\<lambda>(_, db).
      bind_r (write_head sha uuid us q (cl_index c) s (Some ps) True None db) (\<lambda>(sn', db).
      guard_r (active_authority us' c l)
      (bind_r (release_lease (rq_run_id q) db) (\<lambda>(_, db). Inr (Committed sn', db))))))))))"

section \<open>Resuming\<close>

definition accepted_columns ::
  "int \<Rightarrow> interaction_state \<Rightarrow> string \<Rightarrow> string \<Rightarrow> pause_snapshot \<Rightarrow> json \<Rightarrow> int \<Rightarrow> command_row \<Rightarrow> command_row" where
  "accepted_columns us s encoded digest ps snap index c = c\<lparr>
     cc_pause_revision := Some (pause_revision s), cc_pause_ref := pause_ref s, cc_decisions := Some encoded,
     cc_decisions_digest := Some digest, cc_resume_status := Some ''accepted'', cc_snapshot := Some snap,
     cc_collection := Some (ps_digest ps), cc_accepted_revision := Some (interaction_revision s),
     cc_accepted_source := Some index, cc_accepted_at := Some (to_ms us), cc_updated := to_ms us\<rparr>"

definition take_resume :: "int \<Rightarrow> lease_fence \<Rightarrow> claim \<Rightarrow> claim" where
  "take_resume expires l c =
     c\<lparr>cl_owner := Some (lf_owner l), cl_generation := lf_generation l, cl_expires := Some expires\<rparr>"

definition accept_new ::
  "(string \<Rightarrow> string) \<Rightarrow> (string \<Rightarrow> string) \<Rightarrow> int \<Rightarrow> int \<Rightarrow> int \<Rightarrow> run_request \<Rightarrow> string \<Rightarrow> string \<Rightarrow> submission \<Rightarrow> claim
    \<Rightarrow> interaction_snapshot \<Rightarrow> resume_result tx" where
  "accept_new sha uuid us us' ttl_ms q cmd owner sub c sn db =
     (if cl_terminal c \<or> phase (sn_state sn) \<noteq> PhaseWaiting \<or> cl_expires c \<noteq> None
      then Inl (InteractionConflict ''not_waiting'')
      else bind_r (accept (sn_state sn) sub) (\<lambda>s.
        (case (intent s, sn_pause sn) of (Some i, Some ps) \<Rightarrow>
           bind_r (decision_bytes i) (\<lambda>encoded.
           bind_r (new_fence owner (cl_generation c + 1)) (\<lambda>l.
           bind_r (parsed_column (ps_bytes ps)) (\<lambda>snap.
           bind_r (update_command (rq_run_id q) cmd (accepted_columns us s encoded (sha encoded) ps snap (cl_index c)) db)
             (\<lambda>(_, db).
           bind_r (write_head sha uuid us q (cl_index c) s (Some ps) True (Some ''accepted'') db) (\<lambda>(sn', db).
           bind_r (update_claim (rq_run_id q) (\<lambda>_. True) (take_resume (to_ms us' + ttl_ms) l) db) (\<lambda>(_, db).
           Inr (AcceptedResume sn' l, db)))))))
         | _ \<Rightarrow> Inl InteractionCorrupt)))"

definition accept_resume ::
  "(string \<Rightarrow> string) \<Rightarrow> (string \<Rightarrow> string) \<Rightarrow> int \<Rightarrow> int \<Rightarrow> int \<Rightarrow> run_request \<Rightarrow> string \<Rightarrow> string \<Rightarrow> resume_result tx" where
  "accept_resume sha uuid us us' ttl_ms q cmd owner db =
     (if owner = [] then Inl (ValueError ''empty interaction owner'')
      else bind_r (locked_command sha q cmd db) (\<lambda>(c, row, sn).
      bind_r (decode_resume_command sha (cc_body row) (cc_digest row) (rq_run_id q) (rq_session_id q) cmd) (\<lambda>sub.
      if cc_resume_status row \<noteq> None then
        bind_r (stored_intent sha q cmd row) (\<lambda>original.
        bind_r (verify_replay original sub) (\<lambda>_.
        Inr (Replayed sn (Some original) (cc_accepted_source row), db)))
      else accept_new sha uuid us us' ttl_ms q cmd owner sub c sn db)))"

definition started_columns :: "int \<Rightarrow> lease_fence \<Rightarrow> dispatch_plan \<Rightarrow> json \<Rightarrow> command_row \<Rightarrow> command_row" where
  "started_columns us l plan column c = c\<lparr>cc_resume_status := Some ''dispatch_started'', cc_attempt := Some (dpl_attempt plan),
     cc_attempt_generation := Some (lf_generation l), cc_plan := Some column, cc_started_at := Some (to_ms us),
     cc_updated := to_ms us\<rparr>"

text \<open>The attempt was started before: a replay only repeats the same plan under the same generation.\<close>

definition replays_attempt :: "lease_fence \<Rightarrow> dispatch_plan \<Rightarrow> command_row \<Rightarrow> unit result" where
  "replays_attempt l plan row = (case cc_plan row of None \<Rightarrow> Inl (InteractionConflict ''attempt_conflict'') | Some p \<Rightarrow>
     if cc_attempt_generation row \<noteq> Some (lf_generation l) then Inl (InteractionConflict ''attempt_conflict'')
     else bind_r (canonical_interaction_bytes p) (\<lambda>raw.
       if raw \<noteq> dpl_bytes plan then Inl (InteractionConflict ''attempt_conflict'') else Inr ()))"

definition start_resume ::
  "(string \<Rightarrow> string) \<Rightarrow> int \<Rightarrow> run_request \<Rightarrow> lease_fence \<Rightarrow> string \<Rightarrow> dispatch_plan \<Rightarrow> resume_result tx" where
  "start_resume sha us q l cmd plan db =
     bind_r (decode_interaction_bytes (dpl_bytes plan)) (\<lambda>column.
     bind_r (dec_resume_plan column) (\<lambda>v.
     if rp_attempt v \<noteq> dpl_attempt plan then Inl InteractionCorrupt
     else bind_r (locked_command sha q cmd db) (\<lambda>(c, row, sn).
     guard_r (active_authority us c l)
     (case (sn_pause sn, intent (sn_state sn)) of (Some ps, Some i) \<Rightarrow>
        if ri_command_id i \<noteq> cmd then Inl (InteractionConflict ''intent_conflict'')
        else bind_r (decode_pause_snapshot sha ps) (\<lambda>original.
          if locator_targets (pc_locator original) \<noteq> plan_targets v then Inl InteractionCorrupt
          else if cc_resume_status row = Some ''dispatch_started'' \<and> cc_attempt row = Some (dpl_attempt plan)
          then bind_r (replays_attempt l plan row) (\<lambda>_. Inr (Replayed sn (Some i) (cc_accepted_source row), db))
          else bind_r (start (sn_state sn) cmd (dpl_attempt plan)) (\<lambda>s.
            bind_r (update_command (rq_run_id q) cmd (started_columns us l plan column) db) (\<lambda>(_, db).
            Inr (StartedResume \<lparr>sn_state = s, sn_pause = Some ps, sn_source = sn_source sn\<rparr> (dpl_attempt plan), db))))
      | _ \<Rightarrow> Inl (InteractionConflict ''intent_conflict'')))))"

definition mark_resume_unknown ::
  "(string \<Rightarrow> string) \<Rightarrow> int \<Rightarrow> run_request \<Rightarrow> lease_fence \<Rightarrow> string \<Rightarrow> string \<Rightarrow> resume_result tx" where
  "mark_resume_unknown sha us q l cmd attempt db =
     bind_r (locked_command sha q cmd db) (\<lambda>(c, row, sn).
     guard_r (active_authority us c l)
     (if cc_attempt row \<noteq> Some attempt \<or> cc_attempt_generation row \<noteq> Some (lf_generation l)
      then Inl (InteractionConflict ''attempt_conflict'')
      else bind_r (unknown (sn_state sn) cmd) (\<lambda>s.
        if s = sn_state sn then Inr (Replayed sn (intent s) (cc_accepted_source row), db)
        else bind_r (update_command (rq_run_id q) cmd (set_status us ''unknown'') db) (\<lambda>(_, db).
          Inr (Committed \<lparr>sn_state = s, sn_pause = sn_pause sn, sn_source = sn_source sn\<rparr>, db)))))"

record resume_context =
  rx_snapshot :: interaction_snapshot
  rx_pause :: pause_snapshot
  rx_intent :: resume_intent
  rx_plan :: "dispatch_plan option"
  rx_generation :: "int option"
  rx_observation :: "string option"

definition read_resume_context ::
  "(string \<Rightarrow> string) \<Rightarrow> run_request \<Rightarrow> string \<Rightarrow> db \<Rightarrow> resume_context option result" where
  "read_resume_context sha q cmd db = (case run_row q db of
      Inl InteractionRunMissing \<Rightarrow> Inr None
    | Inl e \<Rightarrow> Inl e
    | Inr (c, gs) \<Rightarrow>
        bind_r (stored_command (rq_run_id q) cmd db) (\<lambda>row.
        if cc_resume_status row = None then Inr None
        else bind_r (stored_intent sha q cmd row) (\<lambda>i.
          case (cc_snapshot row, cc_pause_ref row, cc_collection row) of (Some snap, Some ref, Some digest) \<Rightarrow>
            bind_r (read_snapshot sha q c gs db) (\<lambda>sn.
            bind_r (row_snapshot ref snap digest) (\<lambda>ps.
            bind_r (case (cc_attempt row, cc_plan row) of
                (Some a, Some p) \<Rightarrow> bind_r (canonical_interaction_bytes p) (\<lambda>raw.
                   map_sum id Some (construct dispatch_plan_check \<lparr>dpl_attempt = a, dpl_bytes = raw\<rparr>))
              | _ \<Rightarrow> Inr None) (\<lambda>plan.
            Inr (Some \<lparr>rx_snapshot = sn, rx_pause = ps, rx_intent = i, rx_plan = plan,
              rx_generation = cc_attempt_generation row, rx_observation = cc_observation row\<rparr>))))
          | _ \<Rightarrow> Inl InteractionCorrupt)))"

section \<open>The end of the run\<close>

text \<open>Only the finalizer of a run calls this, under its authority; \<open>index\<close> is the next event index.\<close>

definition settle_commands :: "int \<Rightarrow> string \<Rightarrow> db \<Rightarrow> db" where
  "settle_commands us r db = db\<lparr>commands := update_where
     (\<lambda>k c. fst k = r \<and> cc_resume_status c \<noteq> None \<and> cc_resume_status c \<noteq> Some ''terminal'') (set_status us ''terminal'')
     (commands db)\<rparr>"

definition terminal_on_cursor ::
  "(string \<Rightarrow> string) \<Rightarrow> (string \<Rightarrow> string) \<Rightarrow> int \<Rightarrow> run_request \<Rightarrow> claim \<Rightarrow> int \<Rightarrow> bool \<Rightarrow> int tx" where
  "terminal_on_cursor sha uuid us q c index visible db =
     bind_r (run_row_groups c) (\<lambda>gs.
     bind_r (read_snapshot sha q c gs db) (\<lambda>sn.
     bind_r (terminal (sn_state sn)) (\<lambda>s.
     bind_r (write_head sha uuid us q index s (sn_pause sn) visible
       (case intent (sn_state sn) of None \<Rightarrow> None
        | Some i \<Rightarrow> if ri_status i \<in> {Reconciled, TerminalIntent} then None else Some ''cancelled'')
       (settle_commands us (rq_run_id q) db)) (\<lambda>(_, db).
     Inr (index + (if visible then 1 else 0), db)))))"

section \<open>Checkpoint observations\<close>

definition resume_vector_ok :: "observed_group list \<Rightarrow> resume_plan \<Rightarrow> bool" where
  "resume_vector_ok facts plan \<longleftrightarrow> list_all2 (\<lambda>g p. list_all2 (\<lambda>t e. \<not> ot_error t
     \<and> ot_length t = tp_length e + 1 \<and> ot_digest t = tp_append e) (og_tasks g) (gp_tasks p)) facts (rp_groups plan)"

definition stable_successor :: "observed_group \<Rightarrow> bool" where
  "stable_successor g \<longleftrightarrow> og_successors g \<noteq> []
     \<and> sx_tasks (last (og_successors g)) = [] \<and> sx_interrupts (last (og_successors g)) = []"

definition consumption_ok :: "(string \<Rightarrow> string) \<Rightarrow> observation \<Rightarrow> command_row \<Rightarrow> unit result" where
  "consumption_ok sha o' row =
     (if (on_pause_revision o', on_pause_ref o', on_collection o') \<noteq> (cc_pause_revision row, cc_pause_ref row, cc_collection row)
      then Inl InteractionCorrupt
      else case cc_plan row of None \<Rightarrow> Inl InteractionCorrupt | Some j \<Rightarrow>
        bind_r (dec_resume_plan j) (\<lambda>plan.
        if \<not> resume_vector_ok (on_facts o') plan then Inl InteractionCorrupt
        else if on_next_pause o' = None \<and> \<not> list_all stable_successor (on_facts o') then Inl InteractionCorrupt
        else (case on_next_pause o' of None \<Rightarrow> Inr () | Some p \<Rightarrow>
          bind_r (snapshot_of sha (case on_next_ref o' of None \<Rightarrow> [] | Some r \<Rightarrow> r) p) (\<lambda>ps.
          bind_r (decode_pause_snapshot sha ps) (\<lambda>_. Inr ())))))"

text \<open>\<open>_observation_command\<close>: an observation belongs to the attempt and the pause of its command.\<close>

definition observation_fits ::
  "(string \<Rightarrow> string) \<Rightarrow> run_request \<Rightarrow> string \<Rightarrow> observation \<Rightarrow> command_row \<Rightarrow> unit result" where
  "observation_fits sha q cmd o' row =
     bind_r (stored_intent sha q cmd row) (\<lambda>_.
     if (on_attempt o', Some (on_generation o')) \<noteq> (cc_attempt row, cc_attempt_generation row) then Inl InteractionCorrupt
     else case cc_snapshot row of None \<Rightarrow> Inl InteractionCorrupt | Some snap \<Rightarrow>
       bind_r (dec_pause snap) (\<lambda>original.
       if locator_places (pc_locator original) \<noteq> fact_places (on_facts o') then Inl InteractionCorrupt
       else if on_kind o' = ''resume'' then consumption_ok sha o' row else Inr ()))"

record observation_stored =
  os_digest :: string
  os_disposition :: string
  os_inserted :: bool

text \<open>The CHECK constraints \<open>ck_checkpoint_observation_*\<close> and the unique index on probe reads.\<close>

definition observation_row_ok :: "string \<times> string \<Rightarrow> observation_row \<Rightarrow> bool" where
  "observation_row_ok k r \<longleftrightarrow> fst k \<noteq> [] \<and> 0 < bs_generation r \<and> hex64 (snd k)
     \<and> (case (bs_command r, bs_attempt r) of (None, None) \<Rightarrow> True | (Some c, Some a) \<Rightarrow> c \<noteq> [] \<and> a \<noteq> [] | _ \<Rightarrow> False)
     \<and> (bs_kind r = ''pause'' \<longrightarrow> bs_command r = None) \<and> (bs_kind r \<in> {''resume'', ''probe''} \<longrightarrow> bs_command r \<noteq> None)
     \<and> List.member observation_kinds (bs_kind r) \<and> bs_disposition r \<in> {''current'', ''audit''}
     \<and> byte_limit_ok (bs_evidence r)
     \<and> (if bs_kind r = ''probe'' then bs_read r \<notin> {None, Some []} else bs_read r = None)"

definition insert_observation :: "string \<times> string \<Rightarrow> observation_row \<Rightarrow> unit tx" where
  "insert_observation k r db =
     (if \<not> observation_row_ok k r then Inl CheckViolation
      else if map_of (observations db) k \<noteq> None
        \<or> bs_kind r = ''probe'' \<and> list_ex (\<lambda>((r', _), o'). r' = fst k \<and> bs_kind o' = ''probe''
             \<and> bs_command o' = bs_command r \<and> bs_attempt o' = bs_attempt r \<and> bs_read o' = bs_read r) (observations db)
      then Inl UniqueViolation
      else Inr ((), db\<lparr>observations := insert_new k r (observations db)\<rparr>))"

text \<open>A current observation that a resume was consumed advances its command.\<close>

definition observe_resume :: "int \<Rightarrow> string \<Rightarrow> string \<Rightarrow> command_row \<Rightarrow> string \<Rightarrow> unit tx" where
  "observe_resume us r cmd row digest db =
     (if cc_resume_status row \<notin> {Some ''dispatch_started'', Some ''unknown'', Some ''native_observed''}
      then Inl (InteractionConflict ''observation_not_unsettled'')
      else if cc_observation row \<notin> {None, Some digest} then Inl (InteractionConflict ''observation_conflict'')
      else update_command r cmd (\<lambda>c. (set_status us ''native_observed'' c)\<lparr>cc_observation := Some digest\<rparr>) db)"

definition store_observation ::
  "(string \<Rightarrow> string) \<Rightarrow> int \<Rightarrow> run_request \<Rightarrow> lease_fence \<Rightarrow> claim \<Rightarrow> checkpoint_observation
    \<Rightarrow> (string \<times> command_row) option \<Rightarrow> observation_stored tx" where
  "store_observation sha us q l c ob command db =
     bind_r (decode_checkpoint_observation sha ob q) (\<lambda>v.
     if on_generation v \<noteq> lf_generation l then Inl InteractionCorrupt
     else bind_r (case command of
         Some (cmd, row) \<Rightarrow> observation_fits sha q cmd v row
       | None \<Rightarrow> if on_command v \<noteq> None \<or> on_generation v \<noteq> cl_generation c then Inl InteractionCorrupt else Inr ()) (\<lambda>_.
     case map_of (observations db) (rq_run_id q, co_digest ob) of
       Some existing \<Rightarrow>
         if bs_evidence existing \<noteq> co_bytes ob then Inl InteractionCorrupt
         else Inr (\<lparr>os_digest = co_digest ob, os_disposition = bs_disposition existing, os_inserted = False\<rparr>, db)
     | None \<Rightarrow>
         let current = fenced c l \<and> lease_live_us us c;
             disposition = (if current then ''current'' else ''audit'') in
         bind_r (insert_observation (rq_run_id q, co_digest ob)
           \<lparr>bs_generation = on_generation v, bs_command = on_command v, bs_attempt = on_attempt v, bs_kind = on_kind v,
            bs_disposition = disposition, bs_evidence = co_bytes ob, bs_read = on_read_id v, bs_created = to_ms us\<rparr> db)
           (\<lambda>(_, db).
         bind_r (case command of
             Some (cmd, row) \<Rightarrow>
               if current \<and> on_kind v = ''resume'' then observe_resume us (rq_run_id q) cmd row (co_digest ob) db else Inr ((), db)
           | None \<Rightarrow> Inr ((), db)) (\<lambda>(_, db).
         Inr (\<lparr>os_digest = co_digest ob, os_disposition = disposition, os_inserted = True\<rparr>, db)))))"

definition record_checkpoint_observation ::
  "(string \<Rightarrow> string) \<Rightarrow> int \<Rightarrow> run_request \<Rightarrow> lease_fence \<Rightarrow> checkpoint_observation \<Rightarrow> observation_stored tx" where
  "record_checkpoint_observation sha us q l ob db =
     bind_r (run_row q db) (\<lambda>(c, _).
     bind_r (case tg_command (co_target ob) of None \<Rightarrow> Inr None
       | Some cmd \<Rightarrow> bind_r (stored_command (rq_run_id q) cmd db) (\<lambda>row. Inr (Some (cmd, row)))) (\<lambda>command.
     store_observation sha us q l c ob command db))"

definition read_checkpoint_observations ::
  "(string \<Rightarrow> string) \<Rightarrow> run_request \<Rightarrow> observation_target \<Rightarrow> db \<Rightarrow> checkpoint_observation list result" where
  "read_checkpoint_observations sha q t db =
     bind_r (run_row q db) (\<lambda>_.
     bind_r (case tg_command t of None \<Rightarrow> Inr ()
       | Some cmd \<Rightarrow> bind_r (stored_command (rq_run_id q) cmd db) (\<lambda>row.
           if (cc_attempt row, cc_attempt_generation row) \<noteq> (tg_attempt t, Some (tg_generation t))
           then Inl (InteractionConflict ''attempt_conflict'') else Inr ())) (\<lambda>_.
     traverse (\<lambda>((_, digest), r).
         let ob = \<lparr>co_target = t, co_kind = bs_kind r, co_bytes = bs_evidence r, co_digest = digest\<rparr> in
         bind_r (decode_checkpoint_observation sha ob q) (\<lambda>_. Inr ob))
       (sort_key (snd \<circ> fst) (select_where (\<lambda>(r', _) o'. r' = rq_run_id q \<and> bs_generation o' = tg_generation t
          \<and> bs_command o' = tg_command t \<and> bs_attempt o' = tg_attempt t) (observations db)))))"

end
