(* ===== verification/Run_Reconcile.thy ===== *)
theory Run_Reconcile
  imports Run_Resume
begin

text \<open>
  Settling a resume, the rest of \<open>PostgresRunInteractions\<close>: \<open>reconcile_resume\<close> takes stored
  observations as evidence that the pause was consumed, or reports the resume as unknown;
  \<open>record_reconcile_probe\<close> counts probes that saw no progress, up to three in a row.
\<close>

section \<open>Reconciling\<close>

datatype reconcile_outcome = ConsumedPause string "pause_snapshot option" | UnknownResume

record resume_evidence =
  ev_command :: string
  ev_attempt :: string
  ev_generation :: int
  ev_pause_revision :: int
  ev_pause_ref :: string
  ev_collection :: string
  ev_observations :: "string list"
  ev_outcome :: reconcile_outcome

definition evidence_matches :: "resume_evidence \<Rightarrow> command_row \<Rightarrow> bool" where
  "evidence_matches ev row \<longleftrightarrow> (Some (ev_attempt ev), Some (ev_generation ev), Some (ev_pause_revision ev),
       Some (ev_pause_ref ev), Some (ev_collection ev))
     = (cc_attempt row, cc_attempt_generation row, cc_pause_revision row, cc_pause_ref row, cc_collection row)"

text \<open>One referenced observation; it is positive when the command recorded it as its consumption.\<close>

definition check_evidence ::
  "(string \<Rightarrow> string) \<Rightarrow> run_request \<Rightarrow> resume_evidence \<Rightarrow> command_row \<Rightarrow> db \<Rightarrow> string \<Rightarrow> observation option result" where
  "check_evidence sha q ev row db digest =
     (case map_of (observations db) (rq_run_id q, digest) of None \<Rightarrow> Inl InteractionCorrupt | Some r \<Rightarrow>
      bind_r (construct observation_target_check
        \<lparr>tg_generation = ev_generation ev, tg_command = Some (ev_command ev), tg_attempt = Some (ev_attempt ev)\<rparr>) (\<lambda>t.
      bind_r (decode_checkpoint_observation sha
        \<lparr>co_target = t, co_kind = bs_kind r, co_bytes = bs_evidence r, co_digest = digest\<rparr> q) (\<lambda>v.
      bind_r (observation_fits sha q (ev_command ev) v row) (\<lambda>_.
      if bs_disposition r \<noteq> ''current'' then Inl InteractionAuthorityLost
      else Inr (if on_kind v = ''resume'' \<and> cc_observation row = Some digest then Some v else None)))))"

definition last_positive :: "observation option list \<Rightarrow> observation option" where
  "last_positive os = (case filter (\<lambda>x. x \<noteq> None) os of [] \<Rightarrow> None | xs \<Rightarrow> last xs)"

text \<open>The next state of the interaction, its pause and the result kind.\<close>

definition unknown_outcome ::
  "interaction_snapshot \<Rightarrow> resume_intent \<Rightarrow> (interaction_state \<times> pause_snapshot option \<times> string) result" where
  "unknown_outcome sn original =
     bind_r (construct resume_intent_check (original\<lparr>ri_status := UnknownStatus\<rparr>)) (\<lambda>i.
     bind_r (construct interaction_state_check ((sn_state sn)\<lparr>intent := Some i,
        interaction_revision := interaction_revision (sn_state sn) + 1\<rparr>)) (\<lambda>s.
     Inr (s, sn_pause sn, ''unknown'')))"

definition waiting_outcome ::
  "(string \<Rightarrow> string) \<Rightarrow> interaction_snapshot \<Rightarrow> observation \<Rightarrow> pause_snapshot
    \<Rightarrow> (interaction_state \<times> pause_snapshot option \<times> string) result" where
  "waiting_outcome sha sn positive ps =
     (case on_next_pause positive of None \<Rightarrow> Inl InteractionCorrupt | Some p \<Rightarrow>
      if on_next_ref positive \<noteq> Some (ps_ref ps) then Inl InteractionCorrupt
      else bind_r (canonical_interaction_bytes (enc_pause p)) (\<lambda>raw.
        if raw \<noteq> ps_bytes ps then Inl InteractionCorrupt
        else bind_r (decode_pause_snapshot sha ps) (\<lambda>v.
          bind_r (groups_of v) (\<lambda>gs.
          bind_r (pause (sn_state sn) (ps_ref ps) gs) (\<lambda>s.
          Inr (s, Some ps, if list_ex (\<lambda>i. pi_validation i \<noteq> None) (all_items (groups s))
                           then ''validation_failed'' else ''native_consumed''))))))"

definition active_outcome ::
  "interaction_snapshot \<Rightarrow> resume_intent \<Rightarrow> observation \<Rightarrow> (interaction_state \<times> pause_snapshot option \<times> string) result" where
  "active_outcome sn original positive =
     (if on_next_pause positive \<noteq> None then Inl InteractionCorrupt
      else bind_r (construct resume_intent_check (original\<lparr>ri_status := Reconciled\<rparr>)) (\<lambda>i.
        bind_r (construct interaction_state_check ((sn_state sn)\<lparr>phase := PhaseActive, groups := [], intent := Some i,
           interaction_revision := interaction_revision (sn_state sn) + 1\<rparr>)) (\<lambda>s.
        Inr (s, sn_pause sn, ''native_consumed''))))"

definition consumed_outcome ::
  "(string \<Rightarrow> string) \<Rightarrow> interaction_snapshot \<Rightarrow> resume_intent \<Rightarrow> observation option \<Rightarrow> string \<Rightarrow> pause_snapshot option
    \<Rightarrow> (interaction_state \<times> pause_snapshot option \<times> string) result" where
  "consumed_outcome sha sn original positive disposition next_pause =
     (case positive of None \<Rightarrow> Inl InteractionCorrupt | Some v \<Rightarrow>
      if ri_status original \<noteq> NativeObserved then Inl InteractionCorrupt
      else if (disposition = ''waiting'') \<noteq> (next_pause \<noteq> None) then Inl InteractionCorrupt
      else (case next_pause of Some ps \<Rightarrow> waiting_outcome sha sn v ps | None \<Rightarrow> active_outcome sn original v))"

definition settle_resume ::
  "(string \<Rightarrow> string) \<Rightarrow> (string \<Rightarrow> string) \<Rightarrow> int \<Rightarrow> int \<Rightarrow> run_request \<Rightarrow> lease_fence \<Rightarrow> string \<Rightarrow> claim
    \<Rightarrow> interaction_state \<times> pause_snapshot option \<times> string \<Rightarrow> resume_result tx" where
  "settle_resume sha uuid us us' q l cmd c outcome db = (case outcome of (s, ps, kind) \<Rightarrow>
     bind_r (update_command (rq_run_id q) cmd
       (\<lambda>d. d\<lparr>cc_resume_status := map_option (status_value \<circ> ri_status) (intent s), cc_updated := to_ms us\<rparr>) db) (\<lambda>(_, db).
     bind_r (write_head sha uuid us q (cl_index c) s ps True (Some kind) db) (\<lambda>(sn', db).
     guard_r (active_authority us' c l)
     (bind_r (if phase s = PhaseWaiting then release_lease (rq_run_id q) db else Inr ((), db)) (\<lambda>(_, db).
      Inr (Committed sn', db))))))"

definition reconcile_resume ::
  "(string \<Rightarrow> string) \<Rightarrow> (string \<Rightarrow> string) \<Rightarrow> int \<Rightarrow> int \<Rightarrow> run_request \<Rightarrow> lease_fence \<Rightarrow> resume_evidence \<Rightarrow> resume_result tx" where
  "reconcile_resume sha uuid us us' q l ev db =
     bind_r (locked_command sha q (ev_command ev) db) (\<lambda>(c, row, sn).
     bind_r (stored_intent sha q (ev_command ev) row) (\<lambda>original.
     if \<not> evidence_matches ev row then Inl InteractionCorrupt
     else if cl_terminal c \<or> ri_status original \<in> {Reconciled, TerminalIntent}
     then Inr (Replayed sn (Some original) (cc_accepted_source row), db)
     else if cl_ia_command c \<noteq> Some (ev_command ev) \<or> ev_generation ev \<noteq> lf_generation l
     then Inl InteractionAuthorityLost
     else if ev_observations ev = [] \<or> sort (remdups (ev_observations ev)) \<noteq> ev_observations ev
     then Inl InteractionCorrupt
     else bind_r (traverse (check_evidence sha q ev row db) (ev_observations ev)) (\<lambda>seen.
       guard_r (active_authority us c l)
       (case ev_outcome ev of
          UnknownResume \<Rightarrow>
            if ri_status original \<notin> {DispatchStarted, UnknownStatus} then Inl (InteractionConflict ''not_dispatched'')
            else if cc_result row = Some ''unknown'' then Inr (Replayed sn (Some original) (cc_accepted_source row), db)
            else bind_r (unknown_outcome sn original)
              (\<lambda>outcome. settle_resume sha uuid us us' q l (ev_command ev) c outcome db)
        | ConsumedPause disposition next_pause \<Rightarrow>
            bind_r (consumed_outcome sha sn original (last_positive seen) disposition next_pause)
              (\<lambda>outcome. settle_resume sha uuid us us' q l (ev_command ev) c outcome db)))))"

section \<open>Recovery and probes\<close>

definition unsettled_statuses :: "string list" where
  "unsettled_statuses = [''accepted'', ''dispatch_started'', ''native_observed'', ''unknown'']"

definition list_unsettled_interactions :: "int \<Rightarrow> db \<Rightarrow> (string \<times> string) list result" where
  "list_unsettled_interactions limit db =
     (if limit < 1 \<or> 1000 < limit then Inl (ValueError ''invalid recovery limit'')
      else Inr (take (nat limit) (sort (map fst (select_where
        (\<lambda>_ c. case cc_resume_status c of None \<Rightarrow> False | Some s \<Rightarrow> List.member unsettled_statuses s) (commands db))))))"

definition cleared_probe :: "command_row \<Rightarrow> command_row" where
  "cleared_probe c = c\<lparr>cc_probe_count := 0, cc_probe_progress := None, cc_probe_quiescence := None, cc_probe_read := None,
     cc_probe_checked := None\<rparr>"

definition reset_reconcile_probe :: "int \<Rightarrow> run_request \<Rightarrow> lease_fence \<Rightarrow> string \<Rightarrow> string \<Rightarrow> unit tx" where
  "reset_reconcile_probe us q l cmd attempt db =
     bind_r (run_row q db) (\<lambda>(c, _).
     bind_r (stored_command (rq_run_id q) cmd db) (\<lambda>row.
     guard_r (active_authority us c l)
     (if (cc_attempt row, cc_attempt_generation row) \<noteq> (Some attempt, Some (lf_generation l))
      then Inl (InteractionConflict ''attempt_conflict'')
      else update_command (rq_run_id q) cmd cleared_probe db)))"

record quiescent_probe =
  qp_read_id :: string
  qp_observation :: checkpoint_observation
  qp_progress :: string
  qp_quiescence :: quiescence

record probe_result =
  pr_count :: int
  pr_exhausted :: bool
  pr_snapshot :: interaction_snapshot

definition quiescence_check :: "quiescence \<Rightarrow> exn option" where
  "quiescence_check s = fail_if (qs_boot s = [] \<or> qs_invocation s = []) strict_error"

text \<open>Probes that saw the same progress under the same quiescence count up to three.\<close>

definition probe_count :: "command_row \<Rightarrow> quiescent_probe \<Rightarrow> int" where
  "probe_count row p =
     (if cc_probe_progress row = None then 1
      else if cc_probe_progress row = Some (qp_progress p)
        \<and> (case cc_probe_quiescence row of None \<Rightarrow> False | Some j \<Rightarrow> py_eq j (enc_quiescence (qp_quiescence p)))
      then min 3 (cc_probe_count row + 1)
      else 0)"

definition probe_columns :: "int \<Rightarrow> int \<Rightarrow> quiescent_probe \<Rightarrow> json \<Rightarrow> command_row \<Rightarrow> command_row" where
  "probe_columns us n p column c = c\<lparr>cc_probe_count := n, cc_probe_progress := Some (qp_progress p),
     cc_probe_quiescence := Some column, cc_probe_read := Some (qp_read_id p), cc_probe_checked := Some (to_ms us)\<rparr>"

definition count_probe ::
  "int \<Rightarrow> run_request \<Rightarrow> lease_fence \<Rightarrow> string \<Rightarrow> quiescent_probe \<Rightarrow> claim \<Rightarrow> command_row \<Rightarrow> interaction_snapshot \<Rightarrow> probe_result tx" where
  "count_probe us q l cmd p c row sn db =
     guard_r (active_authority us c l)
     (bind_r (canonical_interaction_bytes (enc_quiescence (qp_quiescence p))) (\<lambda>raw.
      bind_r (parsed_column raw) (\<lambda>column.
      let n = probe_count row p in
      bind_r (update_command (rq_run_id q) cmd (probe_columns us n p column) db) (\<lambda>(_, db).
      Inr (\<lparr>pr_count = n, pr_exhausted = (n = 3), pr_snapshot = sn\<rparr>, db)))))"

definition record_reconcile_probe ::
  "(string \<Rightarrow> string) \<Rightarrow> int \<Rightarrow> int \<Rightarrow> int \<Rightarrow> run_request \<Rightarrow> lease_fence \<Rightarrow> quiescent_probe \<Rightarrow> probe_result tx" where
  "record_reconcile_probe sha us us' us'' q l p db =
     bind_r (decode_checkpoint_observation sha (qp_observation p) q) (\<lambda>v.
     bind_r (construct quiescence_check (qp_quiescence p)) (\<lambda>quiet.
     case on_command v of None \<Rightarrow> Inl InteractionCorrupt | Some cmd \<Rightarrow>
     if on_kind v \<noteq> ''probe'' \<or> on_read_id v \<noteq> Some (qp_read_id p) \<or> on_progress v \<noteq> Some (qp_progress p)
        \<or> on_quiescence v \<noteq> Some quiet
     then Inl InteractionCorrupt
     else bind_r (locked_command sha q cmd db) (\<lambda>(c, row, sn).
       if cc_resume_status row \<notin> {Some ''dispatch_started'', Some ''unknown''} \<or> cl_ia_command c \<noteq> Some cmd
       then Inl (InteractionConflict ''probe_not_unsettled'')
       else guard_r (active_authority us c l)
       (bind_r (store_observation sha us' q l c (qp_observation p) (Some (cmd, row)) db) (\<lambda>(stored, db).
        if \<not> os_inserted stored
        then Inr (\<lparr>pr_count = cc_probe_count row, pr_exhausted = (cc_probe_count row = 3), pr_snapshot = sn\<rparr>, db)
        else count_probe us'' q l cmd p c row sn db)))))"

end
