(* ===== verification/Resume_Codecs.thy ===== *)
theory Resume_Codecs
  imports Run_Reconcile Canonical
begin

text \<open>
  What the codecs of the interaction store preserve: base64 and canonical bytes read back as what was
  written, the pending groups survive their JSONB column, and the stored decisions of an intent decode
  to the decisions of that intent.
\<close>

section \<open>Base64\<close>

lemma base64_char_value: "n < 64 \<Longrightarrow> base64_value (base64_char n) = Some n \<and> base64_char n \<noteq> CHR ''=''"
proof -
  have "list_all (\<lambda>n. base64_value (base64_char n) = Some n \<and> base64_char n \<noteq> CHR ''='') [0..<64]"
    by code_simp
  then show "n < 64 \<Longrightarrow> ?thesis" by (simp add: list_all_iff)
qed

lemma base64_char_simps [simp]:
  "n < 64 \<Longrightarrow> base64_value (base64_char n) = Some n"
  "n < 64 \<Longrightarrow> base64_char n \<noteq> CHR ''=''"
  using base64_char_value by blast+

lemma unat_byte: "unat (a :: 8 word) < 256"
  by (rule order_less_le_trans [OF unsigned_less]) simp

lemma sextet_split: "n div 64 * 64 + n mod 64 = (n::nat)"
  by (rule div_mult_mod_eq)

lemma nested_div: "n div 4096 = n div 64 div (64::nat)" "n div 262144 = n div 64 div 64 div (64::nat)"
  "n div 65536 = n div 256 div (256::nat)"
  by (simp_all add: div_mult2_eq [symmetric])

lemma sextets3:
  fixes a b c :: nat
  assumes "a < 256" "b < 256" "c < 256" and n: "n = (a * 256 + b) * 256 + c"
  shows "n div 262144 < 64" and "((n div 262144 * 64 + n div 4096 mod 64) * 64 + n div 64 mod 64) * 64 + n mod 64 = n"
    and "n div 65536 = a" and "n div 256 mod 256 = b" and "n mod 256 = c"
proof -
  have n256: "n div 256 = a * 256 + b" "n mod 256 = c"
    using assms(3) unfolding n by (simp, metis mod_less mod_mult_self3)
  then show "n div 65536 = a" "n div 256 mod 256 = b" "n mod 256 = c"
    using assms(1,2) by (simp_all add: nested_div(3))
  show "((n div 262144 * 64 + n div 4096 mod 64) * 64 + n div 64 mod 64) * 64 + n mod 64 = n"
    unfolding nested_div by (simp only: sextet_split)
  have "n < 16777216"
    using assms by simp
  then show "n div 262144 < 64"
    by (simp add: less_mult_imp_div_less)
qed

lemma sextets2:
  fixes a b :: nat
  assumes "a < 256" "b < 256" and n: "n = (a * 256 + b) * 4"
  shows "n div 4096 < 64" and "((n div 4096 * 64 + n div 64 mod 64) * 64 + n mod 64) div 4 = a * 256 + b"
    and "(a * 256 + b) div 256 = a" and "(a * 256 + b) mod 256 = b"
proof -
  have "(n div 4096 * 64 + n div 64 mod 64) * 64 + n mod 64 = n"
    unfolding nested_div by (simp only: sextet_split)
  then show "((n div 4096 * 64 + n div 64 mod 64) * 64 + n mod 64) div 4 = a * 256 + b"
    using n by simp
  have "n < 262144"
    using assms by simp
  then show "n div 4096 < 64"
    by (simp add: less_mult_imp_div_less)
  show "(a * 256 + b) div 256 = a" "(a * 256 + b) mod 256 = b"
    using assms(1,2) by simp_all
qed

lemma sextets1:
  fixes a :: nat
  assumes "a < 256" and n: "n = a * 16"
  shows "n div 64 < 64" and "(n div 64 * 64 + n mod 64) div 16 = a"
proof -
  show "(n div 64 * 64 + n mod 64) div 16 = a"
    using n by (simp only: sextet_split)
  show "n div 64 < 64"
    using assms by (simp add: less_mult_imp_div_less)
qed

text \<open>Every payload survives its base64 column.\<close>

lemma b64_round_trip: "b64decode (b64encode bs) = Some bs"
proof (induction bs rule: b64encode.induct)
  case (2 a)
  then show ?case
    using sextets1 [OF unat_byte [of a] refl] by (simp add: Let_def)
next
  case (3 a b)
  then show ?case
    using sextets2 [OF unat_byte [of a] unat_byte [of b] refl] by (simp add: Let_def)
next
  case (4 a b c bs)
  then show ?case
    using sextets3 [OF unat_byte [of a] unat_byte [of b] unat_byte [of c] refl] by (simp add: Let_def)
qed simp

section \<open>Values that were read have distinct keys\<close>

fun plain :: "json \<Rightarrow> bool" where
  "plain (JList xs) \<longleftrightarrow> list_all plain xs"
| "plain (JObj kvs) \<longleftrightarrow> distinct (map fst kvs) \<and> list_all (\<lambda>(k, v). plain v) kvs"
| "plain _ \<longleftrightarrow> True"

lemma plain_update:
  "distinct (map fst d) \<Longrightarrow> list_all (\<lambda>(k, v). plain v) d \<Longrightarrow> plain v
    \<Longrightarrow> distinct (map fst (AList.update k v d)) \<and> list_all (\<lambda>(k, v). plain v) (AList.update k v d)"
  by (induction d) (auto simp: dom_update distinct_update AList.update_keys)

lemma plain_json_dict:
  assumes "list_all (\<lambda>(k, v). plain v) kvs"
  shows "plain (JObj (json_dict kvs))"
proof -
  have "distinct (map fst d) \<and> list_all (\<lambda>(k, v). plain v) d \<Longrightarrow> list_all (\<lambda>(k, v). plain v) kvs
      \<Longrightarrow> plain (JObj (fold (\<lambda>(k, v) d. AList.update k v d) kvs d))" for d
  proof (induction kvs arbitrary: d)
    case (Cons kv kvs)
    then show ?case
      using plain_update [of d "snd kv" "fst kv"] by (cases kv) auto
  qed simp
  from this [of "[]"] show ?thesis
    using assms by (simp add: json_dict_def)
qed

lemma plain_number: "read_number s = Some (v, r) \<Longrightarrow> plain v"
  by (auto simp: read_number_def split: option.splits if_splits)

lemma plain_read:
  "read_value n s = Some (v, r) \<Longrightarrow> plain v"
  "read_items n s = Some (vs, r) \<Longrightarrow> list_all plain vs"
  "read_members n s = Some (kvs, r) \<Longrightarrow> list_all (\<lambda>(k, v). plain v) kvs"
proof (induction n s and n s and n s arbitrary: v r and vs r and kvs r rule: read_value_read_items_read_members.induct)
  case (2 n s)
  then show ?case
    by (auto simp: plain_json_dict [simplified] plain_number split: list.splits if_splits)
next
  case (4 n s)
  then show ?case by (auto split: option.splits list.splits if_splits)
next
  case (6 n s)
  then show ?case by (auto split: option.splits list.splits if_splits)
qed simp_all

lemma plain_loads: "loads s = Some v \<Longrightarrow> plain v"
  by (auto simp: loads_def dest: plain_read split: option.splits if_splits)

lemma py_eq_refl: "plain v \<Longrightarrow> py_eq v v"
proof (induction v)
  case (JList xs)
  have "list_all (\<lambda>(x, y). py_eq x y) (zip xs xs)"
    using JList by (auto simp: list_all_iff zip_same)
  then show ?case by (subst py_eq.simps) simp
next
  case (JObj kvs)
  have "list_all (\<lambda>(k, v). case map_of kvs k of None \<Rightarrow> False | Some w \<Rightarrow> py_eq v w) kvs"
    using JObj by (fastforce simp: list_all_iff)
  then show ?case by (subst py_eq.simps) (simp add: same_keys_def)
qed (simp_all add: py_eq.simps)

section \<open>Canonical text\<close>

lemma json_object_sort [simp]: "json_object (sort_json v) = json_object v"
  by (cases v) (simp_all add: sort_json_obj)

lemma decode_bytes_Inr:
  assumes "decode_interaction_bytes raw = Inr v"
  shows "parsed_column raw = Inr v" and "canonical_interaction_bytes v = Inr raw" and "json_object v" and "plain v"
  using assms plain_loads [of raw]
  by (auto simp: decode_interaction_bytes_def parsed_column_def split: if_splits option.splits)

text \<open>Canonical text of a printable value reads back as the sorted value.\<close>

lemma decode_canonical:
  assumes "canonical_interaction_bytes v = Inr raw" and "printable v" and "readable v" and "json_object v"
  shows "decode_interaction_bytes raw = Inr (sort_json v)"
proof -
  have raw: "raw = dumps_compact False (sort_json v)" "byte_limit_ok raw"
    using assms(1) by (auto simp: canonical_interaction_bytes_def Let_def split: if_splits)
  then have "loads raw = Some (sort_json v)"
    using loads_dumps [OF printable_sort_json readable_sort_json, OF assms(2,3)] by simp
  with raw assms(4) show ?thesis
    by (simp add: decode_interaction_bytes_def canonical_interaction_bytes_def Let_def)
qed

section \<open>Stored decisions\<close>

lemma enc_decisions_readable:
  "printable (enc_decisions i) \<and> readable (enc_decisions i) \<and> json_object (enc_decisions i)"
  by (simp add: enc_decisions_def enc_list_def list_all_iff)

definition stored_form :: "decision_group \<Rightarrow> string \<times> stored_decision list" where
  "stored_form g = (dg_group_id g, map (\<lambda>d. (d_item_id d, d_kind d, b64encode (d_payload d))) (dg_decisions g))"

lemma nonempty_list_enc:
  "as_nonempty_list f (enc_list e xs) = (if xs = [] then invalid else traverse (\<lambda>x. f (e x)) xs)"
proof (cases "traverse (\<lambda>x. f (e x)) xs")
  case (Inr ys)
  then have "length ys = length xs"
    by (auto simp: traverse_Inr dest: list_all2_lengthD)
  with Inr show ?thesis
    by (auto simp: as_nonempty_list_def as_list_enc_list)
qed (auto simp: as_nonempty_list_def as_list_enc_list)

lemma dec_stored_decision_enc:
  assumes "decision_ok d"
  shows "dec_stored_decision (sort_json (JObj [(''item_id'', JStr (d_item_id d)), (''kind'', JStr (d_kind d)),
      (''payload_b64'', JStr (b64encode (d_payload d)))])) = Inr (d_item_id d, d_kind d, b64encode (d_payload d))"
  using assms
  by (simp add: dec_stored_decision_def strict_sorted required_sorted as_literal_def decision_ok_def decision_check_def base_checks)

lemma dec_decisions_enc:
  assumes "ri_groups i \<noteq> []" and "list_all decision_group_ok (ri_groups i)"
  shows "dec_decisions (sort_json (enc_decisions i)) = Inr (map stored_form (ri_groups i))"
proof -
  have group: "dec_stored_group (sort_json (JObj [(''group_id'', JStr (dg_group_id g)),
      (''decisions'', enc_list (\<lambda>d. JObj [(''item_id'', JStr (d_item_id d)), (''kind'', JStr (d_kind d)),
        (''payload_b64'', JStr (b64encode (d_payload d)))]) (dg_decisions g))])) = Inr (stored_form g)"
    if "g \<in> set (ri_groups i)" for g
  proof -
    from that assms(2) have ok: "decision_group_ok g" by (simp add: list_all_iff)
    then have "traverse (\<lambda>d. dec_stored_decision (sort_json (JObj [(''item_id'', JStr (d_item_id d)), (''kind'', JStr (d_kind d)),
        (''payload_b64'', JStr (b64encode (d_payload d)))]))) (dg_decisions g)
        = Inr (map (\<lambda>d. (d_item_id d, d_kind d, b64encode (d_payload d))) (dg_decisions g))"
      by (intro traverse_all_Inr) (simp add: dec_stored_decision_enc decision_group_ok_def list_all_iff)
    with ok show ?thesis
      by (simp add: dec_stored_group_def strict_sorted required_sorted sort_enc_list nonempty_list_enc stored_form_def
          decision_group_ok_def decision_group_check_def base_checks)
  qed
  have "traverse (\<lambda>g. dec_stored_group (sort_json (JObj [(''group_id'', JStr (dg_group_id g)),
      (''decisions'', enc_list (\<lambda>d. JObj [(''item_id'', JStr (d_item_id d)), (''kind'', JStr (d_kind d)),
        (''payload_b64'', JStr (b64encode (d_payload d)))]) (dg_decisions g))]))) (ri_groups i)
      = Inr (map stored_form (ri_groups i))"
    by (intro traverse_all_Inr) (use group in blast)
  with assms(1) show ?thesis
    by (simp add: dec_decisions_def enc_decisions_def strict_sorted required_sorted as_literal_def sort_enc_list nonempty_list_enc)
qed

lemma decision_eta [simp]: "\<lparr>d_item_id = d_item_id d, d_kind = d_kind d, d_payload = d_payload d\<rparr> = d"
  by (cases d) simp

lemma decision_group_eta [simp]: "\<lparr>dg_group_id = dg_group_id g, dg_decisions = dg_decisions g\<rparr> = g"
  by (cases g) simp

lemma stored_form_decoded:
  assumes "decision_group_ok g"
  shows "stored_to_group (stored_form g) = Inr g"
proof -
  have "traverse (\<lambda>d. stored_to_decision (d_item_id d, d_kind d, b64encode (d_payload d))) (dg_decisions g) = Inr (dg_decisions g)"
    using assms by (intro traverse_id) (simp add: list_all_iff decision_group_ok_def decision_ok_def stored_to_decision_def b64_round_trip)
  then show ?thesis
    using assms by (simp add: stored_to_group_def stored_form_def traverse_map decision_group_ok_def)
qed

text \<open>The decisions column of an accepted intent decodes to its decisions.\<close>

lemma decision_bytes_round_trip:
  assumes "decision_bytes i = Inr raw" and "ri_groups i \<noteq> []" and "list_all decision_group_ok (ri_groups i)"
  shows "\<exists>j. decode_interaction_bytes raw = Inr j \<and> dec_decisions j = Inr (map stored_form (ri_groups i))
    \<and> traverse stored_to_group (map stored_form (ri_groups i)) = Inr (ri_groups i)"
proof -
  have "decode_interaction_bytes raw = Inr (sort_json (enc_decisions i))"
    using assms(1) enc_decisions_readable by (intro decode_canonical) (simp_all add: decision_bytes_def)
  moreover have "traverse stored_to_group (map stored_form (ri_groups i)) = Inr (ri_groups i)"
    using assms(3) by (simp add: traverse_map traverse_id list_all_iff stored_form_decoded)
  ultimately show ?thesis
    using dec_decisions_enc [OF assms(2,3)] by blast
qed

section \<open>The pending groups in their column\<close>

lemma required_Inr: "required f k kvs = Inr x \<Longrightarrow> \<exists>j. f j = Inr x"
  by (auto simp: required_def invalid_def split: option.splits)

lemma as_nonempty_Inr: "as_nonempty j = Inr s \<Longrightarrow> s \<noteq> []"
  by (auto simp: as_nonempty_def invalid_def split: if_splits)

lemma as_literal_Inr: "as_literal vs j = Inr s \<Longrightarrow> List.member vs s"
  by (auto simp: as_literal_def invalid_def split: if_splits)

lemma as_nonempty_list_Inr:
  assumes "as_nonempty_list f j = Inr xs"
  shows "xs \<noteq> [] \<and> (\<forall>x \<in> set xs. \<exists>i. f i = Inr x)"
proof -
  from assms have "as_list f j = Inr xs" "xs \<noteq> []"
    by (auto simp: as_nonempty_list_def invalid_def split: if_splits)
  moreover from this(1) have "\<exists>ys. traverse f ys = Inr xs"
    by (cases j) (auto simp: invalid_def)
  ultimately show ?thesis
    by (auto simp: traverse_Inr dest!: list_all2_set2)
qed

lemma set_field_Inr: "set_field f k kvs = Inr (Some (Some x)) \<Longrightarrow> \<exists>j. f j = Inr x"
  by (auto simp: set_field_def split: option.splits if_splits)

lemma set_field_dump:
  assumes "distinct (map fst fs)" and "map_of fs k = Some (dump_field e v)"
    and "\<And>x. v = Some (Some x) \<Longrightarrow> f (e x) = Inr x \<and> e x \<noteq> JNull"
  shows "set_field f k (items fs) = Inr v"
  using assms by (auto simp: set_field_def dump_field_def map_of_items split: option.splits)

lemma validation_round_trip: "dec_interaction_validation (enc_interaction_validation v) = Inr v"
proof -
  have "traverse (\<lambda>x. as_path_part (enc_path_part x)) (iv_path v) = Inr (iv_path v)"
    by (intro traverse_id) (simp add: list_all_iff, metis as_path_part.simps(1,2) enc_path_part.simps path_part.exhaust)
  then show ?thesis
    by (cases v) (simp add: dec_interaction_validation_def enc_interaction_validation_def strict_fields_def required_def
        as_literal_def as_list_enc_list)
qed

lemma enc_validation_object [simp]: "enc_interaction_validation v \<noteq> JNull"
  by (simp add: enc_interaction_validation_def)

lemma display_eta [simp]: "\<lparr>id_name = id_name d, id_description = id_description d, id_editable = id_editable d,
    id_schema = id_schema d, id_preview = id_preview d, id_truncated = id_truncated d, id_source = id_source d\<rparr> = d"
  by (cases d) simp

lemma item_eta [simp]: "\<lparr>ii_item_id = ii_item_id i, ii_request_id = ii_request_id i, ii_kind = ii_kind i,
    ii_allowed = ii_allowed i, ii_display = ii_display i, ii_validation = ii_validation i\<rparr> = i"
  by (cases i) simp

lemma display_round_trip:
  assumes "dec_interaction_display j = Inr d"
  shows "dec_interaction_display (enc_interaction_display d) = Inr d"
proof -
  let ?fs = "[(''name'', Some (JStr (id_name d))), (''description'', Some (JStr (id_description d))),
      (''editable'', Some (JBool (id_editable d))), (''input_schema'', Some (JObj (id_schema d))),
      (''result_preview'', dump_field JStr (id_preview d)), (''truncated'', dump_field JBool (id_truncated d)),
      (''source'', dump_field JStr (id_source d))]"
  have ok: "id_name d \<noteq> []" "interaction_preview_ok d"
    using assms by (auto simp: dec_interaction_display_def Let_def invalid_def split: if_splits
        dest!: required_Inr as_nonempty_Inr)
  have fs: "distinct (map fst ?fs)" by simp
  have set_fields: "set_field as_str ''result_preview'' (items ?fs) = Inr (id_preview d)"
    "set_field as_bool ''truncated'' (items ?fs) = Inr (id_truncated d)"
    "set_field as_str ''source'' (items ?fs) = Inr (id_source d)"
    using set_field_dump [OF fs, where e = JStr and f = as_str] set_field_dump [OF fs, where e = JBool and f = as_bool]
    by simp_all
  show ?thesis
    unfolding dec_interaction_display_def enc_interaction_display_def
    using ok set_fields by (simp add: strict_items required_items Let_def)
qed

lemma item_round_trip:
  assumes "dec_interaction_item j = Inr i"
  shows "dec_interaction_item (enc_interaction_item i) = Inr i"
proof -
  let ?fs = "[(''item_id'', Some (JStr (ii_item_id i))), (''request_id'', Some (JStr (ii_request_id i))),
      (''kind'', Some (JStr (ii_kind i))), (''allowed_decisions'', Some (enc_list JStr (ii_allowed i))),
      (''display'', Some (enc_interaction_display (ii_display i))),
      (''validation'', dump_field enc_interaction_validation (ii_validation i))]"
  have ok: "ii_item_id i \<noteq> []" "ii_request_id i \<noteq> []" "List.member awaiting_kind_values (ii_kind i)"
    "ii_allowed i \<noteq> [] \<and> (\<forall>x \<in> set (ii_allowed i). List.member allowed_decision_values x)"
    "\<exists>j. dec_interaction_display j = Inr (ii_display i)" "distinct (ii_allowed i)"
    using assms by (auto simp: dec_interaction_item_def invalid_def split: if_splits
        dest!: required_Inr as_nonempty_Inr as_literal_Inr as_nonempty_list_Inr)
  have fs: "distinct (map fst ?fs)" by simp
  have v: "set_field dec_interaction_validation ''validation'' (items ?fs) = Inr (ii_validation i)"
    by (rule set_field_dump [OF fs, where e = enc_interaction_validation]) (simp_all add: validation_round_trip)
  have "traverse (\<lambda>x. as_literal allowed_decision_values (JStr x)) (ii_allowed i) = Inr (ii_allowed i)"
    using ok(4) by (intro traverse_id) (simp add: list_all_iff as_literal_def)
  moreover have "dec_interaction_display (enc_interaction_display (ii_display i)) = Inr (ii_display i)"
    using ok(5) display_round_trip by blast
  ultimately show ?thesis
    unfolding dec_interaction_item_def enc_interaction_item_def
    using ok v by (simp add: strict_items required_items as_literal_def nonempty_list_enc)
qed

lemma group_round_trip:
  assumes "dec_interaction_group j = Inr g"
  shows "dec_interaction_group (enc_interaction_group g) = Inr g"
proof -
  have ok: "ig_group_id g \<noteq> []" "ig_items g \<noteq> [] \<and> (\<forall>i \<in> set (ig_items g). \<exists>j. dec_interaction_item j = Inr i)"
    using assms by (auto simp: dec_interaction_group_def dest!: required_Inr as_nonempty_Inr as_nonempty_list_Inr)
  then have "traverse (\<lambda>i. dec_interaction_item (enc_interaction_item i)) (ig_items g) = Inr (ig_items g)"
    by (intro traverse_id) (auto simp: list_all_iff dest: item_round_trip)
  with ok show ?thesis
    by (cases g) (simp add: dec_interaction_group_def enc_interaction_group_def strict_fields_def required_def nonempty_list_enc)
qed

text \<open>The groups of a decoded pause read back from the head row.\<close>

lemma pause_groups_round_trip:
  assumes "dec_pause j = Inr p"
  shows "traverse dec_interaction_group (map enc_interaction_group (pc_groups p)) = Inr (pc_groups p)"
proof -
  have "\<forall>g \<in> set (pc_groups p). \<exists>j. dec_interaction_group j = Inr g"
    using assms by (auto simp: dec_pause_def dest!: required_Inr as_nonempty_list_Inr)
  then have "\<forall>g \<in> set (pc_groups p). dec_interaction_group (enc_interaction_group g) = Inr g"
    using group_round_trip by blast
  then show ?thesis
    by (simp add: traverse_map traverse_id list_all_iff)
qed

lemma required_plain: "required f k kvs = Inr x \<Longrightarrow> plain (JObj kvs) \<Longrightarrow> \<exists>j. f j = Inr x \<and> plain j"
  by (auto simp: required_def invalid_def list_all_iff dest!: map_of_SomeD split: option.splits)

lemma strict_fields_plain: "strict_fields ks j = Inr kvs \<Longrightarrow> plain j \<Longrightarrow> plain (JObj kvs)"
  by (auto simp: strict_fields_def invalid_def split: json.splits if_splits)

lemma as_nonempty_list_plain:
  assumes "as_nonempty_list f j = Inr xs" and "plain j"
  shows "\<forall>x \<in> set xs. \<exists>i. f i = Inr x \<and> plain i"
proof -
  from assms(1) have "as_list f j = Inr xs"
    by (auto simp: as_nonempty_list_def invalid_def split: if_splits)
  with assms(2) have "\<exists>ys. traverse f ys = Inr xs \<and> list_all plain ys"
    by (cases j) (auto simp: invalid_def)
  then show ?thesis
    by (fastforce simp: traverse_Inr list_all_iff dest: list_all2_set2)
qed

lemma plain_items: "distinct (map fst fs) \<Longrightarrow> list_all (\<lambda>(k, v). case v of None \<Rightarrow> True | Some j \<Rightarrow> plain j) fs
    \<Longrightarrow> plain (JObj (items fs))"
proof (induction fs rule: items.induct)
  case (3 k v fs)
  have "k \<notin> fst ` set (items fs)"
    using 3 fst_items [of fs] by auto
  with 3 show ?case by (simp add: items.simps)
qed (simp_all add: items.simps)

lemma plain_dump: "(\<And>x. plain (e x)) \<Longrightarrow> case dump_field e v of None \<Rightarrow> True | Some j \<Rightarrow> plain j"
  by (simp add: dump_field_def split: option.split)

lemma as_dict_Inr: "as_dict j = Inr kvs \<longleftrightarrow> j = JObj kvs"
  by (cases j) (auto simp: invalid_def)

lemma plain_display:
  assumes "dec_interaction_display j = Inr d" and "plain j"
  shows "plain (enc_interaction_display d)"
proof -
  from assms(1) obtain kvs n ds e sc p t s where fields: "strict_fields [''name'', ''description'', ''editable'',
        ''input_schema'', ''result_preview'', ''truncated'', ''source''] j = Inr kvs"
      and schema: "required as_dict ''input_schema'' kvs = Inr sc"
      and made: "(let d = \<lparr>id_name = n, id_description = ds, id_editable = e, id_schema = sc, id_preview = p,
        id_truncated = t, id_source = s\<rparr> in if \<not> interaction_preview_ok d then invalid else Inr d) = Inr d"
    unfolding dec_interaction_display_def bind_r_eq_Inr by blast
  from made have "id_schema d = sc"
    by (auto simp: Let_def invalid_def split: if_splits)
  with fields schema have "strict_fields [''name'', ''description'', ''editable'', ''input_schema'', ''result_preview'',
      ''truncated'', ''source''] j = Inr kvs" and "required as_dict ''input_schema'' kvs = Inr (id_schema d)"
    by simp_all
  then have "\<exists>v. as_dict v = Inr (id_schema d) \<and> plain v"
    using assms(2) by (meson required_plain strict_fields_plain)
  then have "plain (JObj (id_schema d))"
    by (auto simp only: as_dict_Inr)
  then show ?thesis
    unfolding enc_interaction_display_def
    by (intro plain_items) (simp_all add: plain_dump)
qed

lemma plain_validation: "plain (enc_interaction_validation v)"
proof -
  have "plain (enc_path_part x)" for x
    by (cases x) simp_all
  then show ?thesis
    by (simp add: enc_interaction_validation_def enc_list_def list_all_iff)
qed

lemma plain_item:
  assumes "dec_interaction_item j = Inr i" and "plain j"
  shows "plain (enc_interaction_item i)"
proof -
  from assms(1) obtain kvs a b c e v w where fields: "strict_fields [''item_id'', ''request_id'', ''kind'',
        ''allowed_decisions'', ''display'', ''validation''] j = Inr kvs"
      and display: "required dec_interaction_display ''display'' kvs = Inr v"
      and made: "(if \<not> distinct e then invalid else Inr \<lparr>ii_item_id = a, ii_request_id = b, ii_kind = c, ii_allowed = e,
        ii_display = v, ii_validation = w\<rparr>) = Inr i"
    unfolding dec_interaction_item_def bind_r_eq_Inr by blast
  from made have "ii_display i = v"
    by (auto simp: invalid_def split: if_splits)
  with fields display have "strict_fields [''item_id'', ''request_id'', ''kind'', ''allowed_decisions'', ''display'',
      ''validation''] j = Inr kvs" and "required dec_interaction_display ''display'' kvs = Inr (ii_display i)"
    by simp_all
  then have "plain (enc_interaction_display (ii_display i))"
    using assms(2) by (meson plain_display required_plain strict_fields_plain)
  then show ?thesis
    unfolding enc_interaction_item_def
    by (intro plain_items) (simp_all add: plain_dump plain_validation enc_list_def list_all_iff)
qed

lemma plain_group:
  assumes "dec_interaction_group j = Inr g" and "plain j"
  shows "plain (enc_interaction_group g)"
proof -
  from assms obtain kvs where "strict_fields [''group_id'', ''items''] j = Inr kvs"
    and "required (as_nonempty_list dec_interaction_item) ''items'' kvs = Inr (ig_items g)"
    by (auto simp: dec_interaction_group_def)
  then have "\<forall>i \<in> set (ig_items g). plain (enc_interaction_item i)"
    using assms(2) by (meson plain_item required_plain strict_fields_plain as_nonempty_list_plain)
  then show ?thesis
    by (simp add: enc_interaction_group_def enc_list_def list_all_iff)
qed

text \<open>A decoded pause compares equal to itself.\<close>

lemma pause_groups_py_eq:
  assumes "dec_pause j = Inr p" and "plain j"
  shows "py_eq (enc_list enc_interaction_group (pc_groups p)) (enc_list enc_interaction_group (pc_groups p))"
proof -
  from assms obtain kvs where "strict_fields [''format'', ''groups'', ''locator''] j = Inr kvs"
    and "required (as_nonempty_list dec_interaction_group) ''groups'' kvs = Inr (pc_groups p)"
    by (auto simp: dec_pause_def)
  then have "\<forall>g \<in> set (pc_groups p). plain (enc_interaction_group g)"
    using assms(2) by (meson plain_group required_plain strict_fields_plain as_nonempty_list_plain)
  then show ?thesis
    by (intro py_eq_refl) (simp add: enc_list_def list_all_iff)
qed

section \<open>Text that fits\<close>

lemma canonical_fits:
  assumes "text_bound v \<le> interaction_limit" and "printable v"
  shows "canonical_interaction_bytes v = Inr (dumps_compact False (sort_json v))"
proof -
  have "utf8_length (dumps_compact False (sort_json v)) \<le> interaction_limit"
    using text_le [of "sort_json v"] assms(1) by (simp add: dumps_compact_def size_bound_sort)
  moreover have "dumps_compact False (sort_json v) \<noteq> []"
    by (rule dumps_head [OF printable_sort_json [OF assms(2)], of False "'',''" "'':''"]) (simp add: dumps_compact_def)
  then have "1 \<le> utf8_length (dumps_compact False (sort_json v))"
    by (cases "dumps_compact False (sort_json v)") auto
  ultimately show ?thesis
    by (simp add: canonical_interaction_bytes_def byte_limit_ok_def Let_def)
qed

end
