(* ===== verification/Resume_Refinement.thy ===== *)
theory Resume_Refinement
  imports Resume_Codecs
begin

text \<open>
  The stored interaction refines the domain state machine of \<open>Interactions\<close>: what a transaction of
  \<open>Run_Resume\<close> and \<open>Run_Reconcile\<close> returns is what the next reader decodes from the rows, and the
  decoded state makes one transition of the domain.
\<close>

section \<open>Decoded objects are well formed\<close>

lemma pause_snapshot_eta [simp]: "\<lparr>ps_ref = ps_ref p, ps_bytes = ps_bytes p, ps_digest = ps_digest p\<rparr> = p"
  by (cases p) simp

lemma interaction_state_eta [simp]: "\<lparr>interaction_revision = interaction_revision s, pause_revision = pause_revision s,
    pause_ref = pause_ref s, phase = phase s, groups = groups s, intent = intent s\<rparr> = s"
  by (cases s) simp

lemma map_sum_Some_Inr [simp]: "map_sum id Some m = Inr y \<longleftrightarrow> (\<exists>x. m = Inr x \<and> y = Some x)"
  by (cases m) auto

lemma traverse_list_all: "traverse f xs = Inr ys \<Longrightarrow> (\<And>x y. f x = Inr y \<Longrightarrow> p y) \<Longrightarrow> list_all p ys"
  by (auto simp: traverse_Inr list_all_iff dest: list_all2_set2)

lemma resume_intent_eta [simp]: "\<lparr>ri_command_id = ri_command_id i, ri_pause_revision = ri_pause_revision i,
    ri_pause_ref = ri_pause_ref i, ri_groups = ri_groups i, ri_status = ri_status i, ri_attempt_id = ri_attempt_id i\<rparr> = i"
  by (cases i) simp

lemma pending_of_ok: "pending_of i = Inr p \<Longrightarrow> pending_item_ok p"
  by (auto simp: pending_of_def pending_item_ok_def split: option.splits)

lemma groups_of_ok:
  assumes "groups_of p = Inr gs"
  shows "list_all pending_group_ok gs"
proof -
  have "pending_group_ok g" if "bind_r (traverse pending_of (ig_items h)) (\<lambda>its.
      construct pending_group_check \<lparr>pg_group_id = ig_group_id h, pg_items = its\<rparr>) = Inr g" for h g
    using that by (auto simp: pending_group_ok_def intro: traverse_list_all pending_of_ok)
  with assms show ?thesis
    unfolding groups_of_def by (rule traverse_list_all)
qed

lemma decision_of_ok: "decision_of d = Inr x \<Longrightarrow> decision_ok x"
  by (auto simp: decision_of_def decision_ok_def)

lemma decoded_submission_ok:
  assumes "decode_resume_command sha body digest r s cmd = Inr sub"
  shows "submission_ok sub \<and> sub_command_id sub = cmd"
  using assms
  by (auto simp: decode_resume_command_def submission_ok_def list_all_iff traverse_Inr decision_of_ok
      dest: list_all2_set2 split: option.splits if_splits)

lemma stored_to_group_ok:
  assumes "traverse stored_to_group stored = Inr gs"
  shows "list_all decision_group_ok gs"
proof -
  have item: "decision_ok d" if "stored_to_decision x = Inr d" for x d
    using that by (auto simp: stored_to_decision_def decision_ok_def split: option.splits if_splits prod.splits)
  have "decision_group_ok g" if "stored_to_group x = Inr g" for x g
    using that by (auto simp: stored_to_group_def decision_group_ok_def intro: traverse_list_all item)
  then show ?thesis
    using assms by (rule traverse_list_all [rotated])
qed

section \<open>The intent a command row stores\<close>

text \<open>The part of a row that does not change after the acceptance.\<close>

definition intent_source ::
  "(string \<Rightarrow> string) \<Rightarrow> run_request \<Rightarrow> string \<Rightarrow> command_row \<Rightarrow> int \<Rightarrow> string \<Rightarrow> pause_collection
    \<Rightarrow> decision_group list \<Rightarrow> bool" where
  "intent_source sha q cmd c revision ref p gs \<longleftrightarrow> cc_pause_revision c = Some revision \<and> cc_pause_ref c = Some ref
     \<and> (\<exists>decided digest snap collection accepted ps. cc_decisions c = Some decided \<and> cc_decisions_digest c = Some digest
        \<and> cc_snapshot c = Some snap \<and> cc_collection c = Some collection \<and> cc_accepted_revision c = Some accepted
        \<and> cc_accepted_source c \<noteq> None \<and> cc_accepted_at c \<noteq> None \<and> row_snapshot ref snap collection = Inr ps
        \<and> decode_pause_snapshot sha ps = Inr p
        \<and> accepted_groups sha q cmd c revision ref accepted p decided digest = Inr gs)"

lemma stored_intent_iff:
  "stored_intent sha q cmd c = Inr i \<longleftrightarrow> (\<exists>p s st. intent_source sha q cmd c (ri_pause_revision i) (ri_pause_ref i) p (ri_groups i)
     \<and> cc_resume_status c = Some s \<and> intent_status_of s = Inr st \<and> attempt_error c st = None \<and> plan_agrees c p = Inr ()
     \<and> resume_intent_check i = None \<and> ri_status i = st \<and> cc_attempt c = ri_attempt_id i \<and> ri_command_id i = cmd)"
  (is "?l \<longleftrightarrow> ?r")
proof
  assume ?l
  then show ?r
    unfolding stored_intent_def by (auto simp: intent_source_def split: option.splits)
next
  assume ?r
  then show ?l
    unfolding stored_intent_def by (auto simp: intent_source_def)
qed

lemma intent_source_cong:
  assumes "cc_body d = cc_body c" "cc_digest d = cc_digest c" "cc_pause_revision d = cc_pause_revision c"
    "cc_pause_ref d = cc_pause_ref c" "cc_decisions d = cc_decisions c" "cc_decisions_digest d = cc_decisions_digest c"
    "cc_snapshot d = cc_snapshot c" "cc_collection d = cc_collection c" "cc_accepted_revision d = cc_accepted_revision c"
    "cc_accepted_source d = cc_accepted_source c" "cc_accepted_at d = cc_accepted_at c"
  shows "intent_source sha q cmd d = intent_source sha q cmd c"
  using assms by (simp add: intent_source_def accepted_groups_def fun_eq_iff)

lemma stored_intent_ok:
  assumes "stored_intent sha q cmd c = Inr i"
  shows "resume_intent_ok i"
proof -
  have "list_all decision_group_ok (ri_groups i)"
    using assms by (auto simp: stored_intent_iff intent_source_def accepted_groups_def dest: stored_to_group_ok split: if_splits)
  with assms show ?thesis
    by (auto simp: stored_intent_iff resume_intent_ok_def)
qed

lemma status_value_of [simp]: "intent_status_of (status_value s) = Inr s"
  by (cases s) (simp_all add: intent_status_of_def)

lemma attempt_error_cong:
  "cc_attempt d = cc_attempt c \<Longrightarrow> cc_attempt_generation d = cc_attempt_generation c \<Longrightarrow> cc_plan d = cc_plan c
    \<Longrightarrow> cc_started_at d = cc_started_at c \<Longrightarrow> attempt_error d = attempt_error c"
  by (simp add: attempt_error_def fun_eq_iff)

lemma plan_agrees_cong:
  "cc_plan d = cc_plan c \<Longrightarrow> cc_attempt d = cc_attempt c \<Longrightarrow> plan_agrees d = plan_agrees c"
  by (rule ext) (simp add: plan_agrees_def split: option.split)

text \<open>Only the status of a settled row changes.\<close>

lemma attempt_error_status:
  assumes "attempt_error c st0 = None" and "resume_intent_check (i\<lparr>ri_status := st\<rparr>) = None" and "cc_attempt c = ri_attempt_id i"
  shows "attempt_error c st = None"
  using assms by (auto simp: attempt_error_def Let_def resume_intent_check_def)

lemma stored_intent_status:
  assumes "stored_intent sha q cmd c = Inr i" and "resume_intent_check (i\<lparr>ri_status := st\<rparr>) = None"
    and "d = c\<lparr>cc_resume_status := Some (status_value st), cc_updated := n\<rparr>"
  shows "stored_intent sha q cmd d = Inr (i\<lparr>ri_status := st\<rparr>)"
proof -
  have "attempt_error d = attempt_error c" "plan_agrees d = plan_agrees c"
    by (rule attempt_error_cong plan_agrees_cong; simp add: assms(3))+
  moreover have "intent_source sha q cmd d = intent_source sha q cmd c"
    by (rule intent_source_cong) (simp_all add: assms(3))
  moreover
  from assms(1) obtain p s st0 where c: "intent_source sha q cmd c (ri_pause_revision i) (ri_pause_ref i) p (ri_groups i)"
    "attempt_error c st0 = None" "plan_agrees c p = Inr ()" "cc_attempt c = ri_attempt_id i" "ri_command_id i = cmd"
    unfolding stored_intent_iff by blast
  moreover have "attempt_error c st = None"
    by (rule attempt_error_status [OF c(2) assms(2) c(4)])
  moreover have "cc_resume_status d = Some (status_value st)" "cc_attempt d = cc_attempt c"
    using assms(3) by simp_all
  ultimately show ?thesis
    unfolding stored_intent_iff
    by (intro exI [of _ p] exI [of _ "status_value st"] exI [of _ st]) (simp add: assms(2))
qed

lemma stored_intent_result:
  assumes "stored_intent sha q cmd c = Inr i" and "d = c\<lparr>cc_result := k, cc_result_revision := m, cc_result_source := n\<rparr>"
  shows "stored_intent sha q cmd d = Inr i"
proof -
  have "attempt_error d = attempt_error c" "plan_agrees d = plan_agrees c"
    by (rule attempt_error_cong plan_agrees_cong; simp add: assms(2))+
  moreover have "intent_source sha q cmd d = intent_source sha q cmd c"
    by (rule intent_source_cong) (simp_all add: assms(2))
  moreover have "cc_resume_status d = cc_resume_status c" "cc_attempt d = cc_attempt c"
    using assms(2) by simp_all
  ultimately show ?thesis
    using assms(1) unfolding stored_intent_iff by simp
qed

section \<open>Reading the head\<close>

lemma read_interaction_Inr:
  "read_interaction sha q db = Inr (Some sn) \<longleftrightarrow> (\<exists>c gs. run_row q db = Inr (c, gs) \<and> read_snapshot sha q c gs db = Inr sn)"
  by (auto simp: read_interaction_def split: sum.splits exn.splits prod.splits)

lemma run_row_Inr:
  "run_row q db = Inr (c, gs) \<longleftrightarrow> map_of (claims db) (rq_run_id q) = Some c \<and> cl_tenant c = ei_tenant_ref (rq_identity q)
     \<and> cl_request c = Some (request_text q) \<and> object_or_null (cl_ia_snapshot c)
     \<and> traverse dec_interaction_group (cl_ia_groups c) = Inr gs"
  by (auto simp: run_row_def run_row_groups_def split: option.splits if_splits)

text \<open>What a head and its command row decode to.\<close>

definition head_intent ::
  "(string \<Rightarrow> string) \<Rightarrow> run_request \<Rightarrow> string option \<Rightarrow> db \<Rightarrow> resume_intent option \<Rightarrow> bool" where
  "head_intent sha q cmd db i \<longleftrightarrow> (case cmd of None \<Rightarrow> i = None
     | Some k \<Rightarrow> \<exists>row j. stored_command (rq_run_id q) k db = Inr row \<and> stored_intent sha q k row = Inr j \<and> i = Some j)"

lemma read_snapshot_Inr:
  "read_snapshot sha q c gs db = Inr sn \<longleftrightarrow> cl_terminal c = (cl_ia_phase c = PhaseTerminal)
     \<and> (\<exists>pending i. head_pause sha c gs = Inr (sn_pause sn, pending) \<and> head_intent sha q (cl_ia_command c) db i
        \<and> sn_state sn = \<lparr>interaction_revision = cl_ia_revision c, pause_revision = cl_ia_pause_revision c,
            pause_ref = cl_ia_pause_ref c, phase = cl_ia_phase c, groups = pending, intent = i\<rparr>
        \<and> interaction_state_check (sn_state sn) = None \<and> sn_source sn = cl_ia_source c)"
  (is "?l \<longleftrightarrow> ?r")
proof
  assume ?l
  then show ?r
    by (auto simp: read_snapshot_def head_intent_def split: if_splits option.splits sum.splits)
next
  assume ?r
  moreover have "sn = \<lparr>sn_state = sn_state sn, sn_pause = sn_pause sn, sn_source = sn_source sn\<rparr>"
    by simp
  ultimately show ?l
    by (auto simp: read_snapshot_def head_intent_def split: option.splits)
qed

lemma head_pause_ok:
  assumes "head_pause sha c gs = Inr (ps, pending)"
  shows "list_all pending_group_ok pending"
  using assms by (auto simp: head_pause_def dest: groups_of_ok split: if_splits option.splits)

lemma read_state_ok:
  assumes "read_snapshot sha q c gs db = Inr sn"
  shows "interaction_state_ok (sn_state sn)"
  using assms by (auto simp: read_snapshot_Inr interaction_state_ok_def head_intent_def
      dest: head_pause_ok stored_intent_ok split: option.splits)

section \<open>Writing the command row\<close>

lemma update_command_effect:
  assumes "update_command r cmd f db = Inr (u, db')"
  shows "map_of (commands db) (r, cmd) = None \<and> db' = db
    \<or> (\<exists>c. map_of (commands db) (r, cmd) = Some c \<and> command_ok (f c)
        \<and> db' = db\<lparr>commands := update_at (r, cmd) f (commands db)\<rparr>)"
  using assms by (auto simp: update_command_def command_write_error_def split: option.splits)

lemma update_command_row:
  assumes "update_command r cmd f db = Inr (u, db')" and "map_of (commands db) (r, cmd) = Some c"
  shows "command_ok (f c) \<and> map_of (commands db') (r, cmd) = Some (f c) \<and> claims db' = claims db \<and> chat db' = chat db
    \<and> observations db' = observations db \<and> (\<forall>k. k \<noteq> (r, cmd) \<longrightarrow> map_of (commands db') k = map_of (commands db) k)"
  using update_command_effect [OF assms(1)] assms(2) by auto

lemma stored_command_Inr:
  "stored_command r cmd db = Inr c \<longleftrightarrow> map_of (commands db) (r, cmd) = Some c \<and> command_row_check c = None"
  by (auto simp: stored_command_def split: option.splits)

lemma head_intent_Some:
  "head_intent sha q (Some cmd) db i \<longleftrightarrow> (\<exists>row j. map_of (commands db) (rq_run_id q, cmd) = Some row
     \<and> command_row_check row = None \<and> stored_intent sha q cmd row = Inr j \<and> i = Some j)"
  by (simp add: head_intent_def stored_command_Inr)

lemma head_intent_None [simp]: "head_intent sha q None db i \<longleftrightarrow> i = None"
  by (simp add: head_intent_def)

lemma head_intent_id: "head_intent sha q cmd db i \<Longrightarrow> cmd = map_option ri_command_id i"
  by (auto simp: head_intent_def stored_intent_iff split: option.splits)

lemma head_intent_frame:
  "(\<And>k. cmd = Some k \<Longrightarrow> map_of (commands db') (rq_run_id q, k) = map_of (commands db) (rq_run_id q, k))
    \<Longrightarrow> head_intent sha q cmd db' i = head_intent sha q cmd db i"
  by (simp add: head_intent_def stored_command_def split: option.split)

text \<open>The result columns of a row are not part of its intent.\<close>

definition result_only :: "command_row \<Rightarrow> command_row \<Rightarrow> bool" where
  "result_only c d \<longleftrightarrow> d = c\<lparr>cc_result := cc_result d, cc_result_revision := cc_result_revision d,
     cc_result_source := cc_result_source d\<rparr>"

definition results_only :: "db \<Rightarrow> db \<Rightarrow> bool" where
  "results_only db db' \<longleftrightarrow> (\<forall>k. rel_option result_only (map_of (commands db) k) (map_of (commands db') k))"

lemma result_only_refl [simp]: "result_only c c"
  by (simp add: result_only_def)

lemma results_only_refl [simp]: "commands db' = commands db \<Longrightarrow> results_only db db'"
  by (simp add: results_only_def option.rel_refl)

lemma results_only_row:
  assumes "results_only db db'" and "map_of (commands db) k = Some c"
  obtains d where "map_of (commands db') k = Some d" and "result_only c d"
  using assms unfolding results_only_def by (metis option.rel_cases option.distinct(1) option.inject)

lemma write_action_effect:
  assumes "write_action q s index visible k db = Inr (action, db')"
    and "head_intent sha q (map_option ri_command_id (intent s)) db (intent s)"
  shows "claims db' = claims db \<and> results_only db db'
    \<and> head_intent sha q (map_option ri_command_id (intent s)) db' (intent s)"
proof (cases "db' = db")
  case True
  with assms(2) show ?thesis by simp
next
  case False
  from False assms(1) obtain i row kind where i: "intent s = Some i" and "stored_command (rq_run_id q) (ri_command_id i) db = Inr row"
      and "action_result_check \<lparr>ar_command_id = ri_command_id i, ar_pause_revision = ri_pause_revision i, ar_kind = kind\<rparr> = None"
      and u: "update_command (rq_run_id q) (ri_command_id i) (\<lambda>c. c\<lparr>cc_result := Some kind,
         cc_result_revision := Some (interaction_revision s), cc_result_source := Some index\<rparr>) db = Inr ((), db')"
    by (auto simp: write_action_def split: option.splits if_splits)
  let ?k = "(rq_run_id q, ri_command_id i)"
  from i assms(2) obtain c where c: "map_of (commands db) ?k = Some c" "command_row_check c = None"
    "stored_intent sha q (ri_command_id i) c = Inr i"
    by (auto simp: head_intent_Some)
  let ?d = "c\<lparr>cc_result := Some kind, cc_result_revision := Some (interaction_revision s), cc_result_source := Some index\<rparr>"
  note row = update_command_row [OF u c(1)]
  have "List.member result_kinds kind"
    using row by (simp add: command_ok_def command_result_ok_def)
  with c(2) have "command_row_check ?d = None"
    by (simp add: command_row_check_def)
  moreover have "stored_intent sha q (ri_command_id i) ?d = Inr i"
    by (rule stored_intent_result [OF c(3) refl])
  ultimately have "head_intent sha q (map_option ri_command_id (intent s)) db' (intent s)"
    using row i by (simp add: head_intent_Some)
  moreover have "results_only db db'"
    unfolding results_only_def
  proof
    fix k
    show "rel_option result_only (map_of (commands db) k) (map_of (commands db') k)"
    proof (cases "k = ?k")
      case True
      then show ?thesis
        using row c(1) by (simp add: result_only_def)
    next
      case False
      then have "map_of (commands db') k = map_of (commands db) k"
        using row by blast
      then show ?thesis
        by (simp add: option.rel_refl)
    qed
  qed
  ultimately show ?thesis
    using row by simp
qed

section \<open>Writing the head\<close>

text \<open>The head of a claim and its pause, before they are read with the command row.\<close>

definition head_of :: "interaction_state \<Rightarrow> pause_snapshot option \<Rightarrow> pause_collection option \<Rightarrow> bool" where
  "head_of s ps v \<longleftrightarrow> (case (ps, v) of
       (None, None) \<Rightarrow> pause_revision s = 0
     | (Some p, Some c) \<Rightarrow> pause_revision s \<noteq> 0 \<and> pause_ref s = Some (ps_ref p) \<and> pause_snapshot_check p = None
         \<and> (phase s \<in> {PhaseWaiting, PhaseResuming} \<longrightarrow> groups_of c = Inr (groups s))
     | _ \<Rightarrow> False)"

lemma decode_pause_Inr:
  assumes "decode_pause_snapshot sha p = Inr v"
  shows "\<exists>raw. decode_interaction_bytes (ps_bytes p) = Inr raw \<and> dec_pause raw = Inr v"
  using assms by (auto simp: decode_pause_snapshot_def split: if_splits)

lemma shown_groups_read:
  assumes "decode_pause_snapshot sha p = Inr v"
  shows "traverse dec_interaction_group (map enc_interaction_group (shown_groups s (Some v))) = Inr (shown_groups s (Some v))"
  using decode_pause_Inr [OF assms] pause_groups_round_trip by (auto simp: shown_groups_def)

lemma head_pause_written:
  assumes v: "decode_pause_snapshot sha p = Inr v" and snap: "parsed_column (ps_bytes p) = Inr snap"
    and s: "head_of s (Some p) (Some v)" "interaction_state_check s = None"
    and c: "cl_ia_pause_revision c = pause_revision s" "cl_ia_pause_ref c = pause_ref s" "cl_ia_snapshot c = Some snap"
      "cl_ia_digest c = Some (ps_digest p)" "cl_ia_phase c = phase s"
  shows "head_pause sha c (shown_groups s (Some v)) = Inr (Some p, groups s)" and "json_object snap"
proof -
  obtain raw where raw: "decode_interaction_bytes (ps_bytes p) = Inr raw" "dec_pause raw = Inr v"
    using decode_pause_Inr [OF v] by blast
  note bytes = decode_bytes_Inr [OF raw(1)]
  have "snap = raw"
    using bytes(1) snap by simp
  then show "json_object snap"
    using bytes(3) by simp
  have pause: "row_snapshot (ps_ref p) snap (ps_digest p) = Inr p"
    using bytes(2) \<open>snap = raw\<close> s(1) by (simp add: row_snapshot_def head_of_def)
  have groups: "groups s = []" if "phase s \<notin> {PhaseWaiting, PhaseResuming}"
    using s(2) that by (auto simp: interaction_state_check_def)
  show "head_pause sha c (shown_groups s (Some v)) = Inr (Some p, groups s)"
    unfolding head_pause_def c using s(1) pause v groups pause_groups_py_eq [OF raw(2) bytes(4)]
    by (auto simp: head_of_def shown_groups_def)
qed

lemma write_head_Inr:
  assumes "write_head sha uuid us q index s ps visible k db = Inr (sn', db')"
  obtains v snap action db1 where "sn' = \<lparr>sn_state = s, sn_pause = ps, sn_source = (if visible then Some index else None)\<rparr>"
    and "case ps of None \<Rightarrow> v = None \<and> snap = None
      | Some p \<Rightarrow> \<exists>x y. decode_pause_snapshot sha p = Inr x \<and> v = Some x \<and> parsed_column (ps_bytes p) = Inr y \<and> snap = Some y"
    and "write_action q s index visible k db = Inr (action, db1)"
    and "\<forall>c. map_of (claims db1) (rq_run_id q) = Some c \<longrightarrow>
      claims db' = update_at (rq_run_id q) (head_columns us s index visible (shown_groups s v) ps snap) (claims db1)"
    and "commands db' = commands db1"
proof -
  from assms obtain v action db1 snap r db2 where
    a: "sn' = \<lparr>sn_state = s, sn_pause = ps, sn_source = (if visible then Some index else None)\<rparr>"
    and v: "(case ps of None \<Rightarrow> Inr None | Some p \<Rightarrow> map_sum id Some (decode_pause_snapshot sha p)) = Inr v"
    and w: "write_action q s index visible k db = Inr (action, db1)"
    and snap: "(case ps of None \<Rightarrow> Inr None | Some p \<Rightarrow> map_sum id Some (parsed_column (ps_bytes p))) = Inr snap"
    and u: "update_claim (rq_run_id q) (\<lambda>_. True) (head_columns us s index visible (shown_groups s v) ps snap) db1 = Inr (r, db2)"
    and e: "claims db' = claims db2" "commands db' = commands db2"
    by (auto simp: write_head_def Let_def split: if_splits)
  have "case ps of None \<Rightarrow> v = None \<and> snap = None
      | Some p \<Rightarrow> \<exists>x y. decode_pause_snapshot sha p = Inr x \<and> v = Some x \<and> parsed_column (ps_bytes p) = Inr y \<and> snap = Some y"
    using v snap by (cases ps) auto
  moreover have "commands db2 = commands db1"
    using update_claim_effect [OF u] by auto
  moreover have "\<forall>c. map_of (claims db1) (rq_run_id q) = Some c \<longrightarrow>
      claims db' = update_at (rq_run_id q) (head_columns us s index visible (shown_groups s v) ps snap) (claims db1)"
    using update_claim_effect [OF u] e by auto
  ultimately show thesis
    using e by (intro that [where v = v and snap = snap, OF a _ w]) simp_all
qed

definition run_fits :: "run_request \<Rightarrow> claim \<Rightarrow> bool" where
  "run_fits q c \<longleftrightarrow> cl_tenant c = ei_tenant_ref (rq_identity q) \<and> cl_request c = Some (request_text q)"

text \<open>What was written is what the next transaction reads.\<close>

lemma write_head_reads:
  assumes w: "write_head sha uuid us q index s ps visible k db = Inr (sn', db')"
    and c: "map_of (claims db) (rq_run_id q) = Some c" "run_fits q c" "cl_terminal c \<longrightarrow> phase s = PhaseTerminal"
    and s: "interaction_state_check s = None"
    and h: "\<And>v. case ps of None \<Rightarrow> v = None | Some p \<Rightarrow> map_sum id Some (decode_pause_snapshot sha p) = Inr v \<Longrightarrow> head_of s ps v"
    and i: "head_intent sha q (map_option ri_command_id (intent s)) db (intent s)"
  shows "read_interaction sha q db' = Inr (Some sn')" and "results_only db db'"
proof -
  from write_head_Inr [OF w] obtain v snap action db1 where
    sn: "sn' = \<lparr>sn_state = s, sn_pause = ps, sn_source = (if visible then Some index else None)\<rparr>"
    and v: "case ps of None \<Rightarrow> v = None \<and> snap = None
      | Some p \<Rightarrow> \<exists>x y. decode_pause_snapshot sha p = Inr x \<and> v = Some x \<and> parsed_column (ps_bytes p) = Inr y \<and> snap = Some y"
    and a: "write_action q s index visible k db = Inr (action, db1)"
    and cl: "\<forall>c. map_of (claims db1) (rq_run_id q) = Some c \<longrightarrow>
      claims db' = update_at (rq_run_id q) (head_columns us s index visible (shown_groups s v) ps snap) (claims db1)"
    and co: "commands db' = commands db1"
    .
  note act = write_action_effect [OF a i]
  let ?d = "head_columns us s index visible (shown_groups s v) ps snap c"
  have d: "map_of (claims db') (rq_run_id q) = Some ?d"
    using cl act c(1) by simp
  show "results_only db db'"
    using act co by (simp add: results_only_def)
  have pause: "head_pause sha ?d (shown_groups s v) = Inr (ps, groups s)
      \<and> traverse dec_interaction_group (cl_ia_groups ?d) = Inr (shown_groups s v) \<and> object_or_null (cl_ia_snapshot ?d)"
  proof (cases ps)
    case None
    with v h [of None] s have "pause_revision s = 0" "pause_ref s = None" "groups s = []" "v = None" "snap = None"
      by (auto simp: head_of_def interaction_state_check_def)
    with None show ?thesis
      by (simp add: head_pause_def head_columns_def shown_groups_def object_or_null_def)
  next
    case (Some p)
    with v obtain x y where x: "decode_pause_snapshot sha p = Inr x" "v = Some x" "parsed_column (ps_bytes p) = Inr y" "snap = Some y"
      by auto
    have h: "head_of s (Some p) (Some x)"
      using h [of "Some x"] Some x(1) by simp
    show ?thesis
      using head_pause_written [OF x(1,3) h s, of ?d] shown_groups_read [OF x(1)] x Some
      by (simp add: head_columns_def object_or_null_def)
  qed
  have "run_row q db' = Inr (?d, shown_groups s v)"
    unfolding run_row_Inr using d pause c(2) by (simp add: run_fits_def head_columns_def)
  moreover have "head_intent sha q (map_option ri_command_id (intent s)) db' (intent s)"
    using act head_intent_frame [of "map_option ri_command_id (intent s)" db' q db1] co by simp
  then have "read_snapshot sha q ?d (shown_groups s v) db' = Inr sn'"
    unfolding read_snapshot_Inr
    by (intro conjI exI [of _ "groups s"] exI [of _ "intent s"])
      (use pause c(3) s sn in \<open>auto simp: head_columns_def\<close>)
  ultimately show "read_interaction sha q db' = Inr (Some sn')"
    unfolding read_interaction_Inr by blast
qed

end
