(* ===== verification/Resume_Simulation.thy ===== *)
theory Resume_Simulation
  imports Resume_Refinement Run_Reconcile
begin

text \<open>
  The refinement of \<open>PostgresRunInteractions\<close>: the abstract machine \<open>interaction_step\<close> is the
  \<open>InteractionState\<close> of the domain, with the two transitions the store makes on evidence; the
  abstraction of a database is the state its rows decode to. Every committed transaction is one step
  of the machine, or leaves it where it was, and returns the state the next reader decodes.
\<close>

section \<open>The abstract machine\<close>

inductive interaction_step :: "interaction_state \<Rightarrow> interaction_state \<Rightarrow> bool" where
  step_pause: "list_all pending_group_ok gs \<Longrightarrow> pause s ref gs = Inr s' \<Longrightarrow> interaction_step s s'"
| step_accept: "submission_ok sub \<Longrightarrow> accept s sub = Inr s' \<Longrightarrow> interaction_step s s'"
| step_start: "start s c a = Inr s' \<Longrightarrow> interaction_step s s'"
| step_unknown: "unknown s c = Inr s' \<Longrightarrow> interaction_step s s'"
| step_terminal: "terminal s = Inr s' \<Longrightarrow> interaction_step s s'"
| step_observed: "phase s = PhaseResuming \<Longrightarrow> intent s = Some i
    \<Longrightarrow> ri_status i \<in> {DispatchStarted, NativeObserved, UnknownStatus}
    \<Longrightarrow> interaction_step s (s\<lparr>intent := Some (i\<lparr>ri_status := NativeObserved\<rparr>)\<rparr>)"
| step_reported: "phase s = PhaseResuming \<Longrightarrow> intent s = Some i \<Longrightarrow> ri_status i \<in> {DispatchStarted, UnknownStatus}
    \<Longrightarrow> interaction_step s (s\<lparr>intent := Some (i\<lparr>ri_status := UnknownStatus\<rparr>),
          interaction_revision := interaction_revision s + 1\<rparr>)"
| step_consumed: "phase s = PhaseResuming \<Longrightarrow> intent s = Some i \<Longrightarrow> ri_status i = NativeObserved
    \<Longrightarrow> interaction_step s (s\<lparr>phase := PhaseActive, groups := [], intent := Some (i\<lparr>ri_status := Reconciled\<rparr>),
          interaction_revision := interaction_revision s + 1\<rparr>)"

text \<open>While a pause is being resumed, the command row keeps that very pause.\<close>

definition kept_pause :: "command_row \<Rightarrow> pause_snapshot option" where
  "kept_pause c = (case (cc_pause_ref c, cc_snapshot c, cc_collection c) of
      (Some ref, Some snap, Some digest) \<Rightarrow> (case row_snapshot ref snap digest of Inl _ \<Rightarrow> None | Inr ps \<Rightarrow> Some ps)
    | _ \<Rightarrow> None)"

definition round_kept :: "run_request \<Rightarrow> interaction_snapshot \<Rightarrow> db \<Rightarrow> bool" where
  "round_kept q sn db \<longleftrightarrow> (phase (sn_state sn) = PhaseResuming \<longrightarrow>
     (case intent (sn_state sn) of None \<Rightarrow> False | Some i \<Rightarrow>
        (case map_of (commands db) (rq_run_id q, ri_command_id i) of None \<Rightarrow> False
         | Some row \<Rightarrow> kept_pause row = sn_pause sn)))"

definition stored_as :: "(string \<Rightarrow> string) \<Rightarrow> run_request \<Rightarrow> db \<Rightarrow> interaction_snapshot \<Rightarrow> bool" where
  "stored_as sha q db sn \<longleftrightarrow> read_interaction sha q db = Inr (Some sn) \<and> round_kept q sn db"

section \<open>What the locked rows say\<close>

lemma stored_as_row:
  assumes "stored_as sha q db sn" and "run_row q db = Inr (c, gs)"
  shows "read_snapshot sha q c gs db = Inr sn"
  using assms by (auto simp: stored_as_def read_interaction_Inr)

lemma head_facts:
  assumes "read_snapshot sha q c gs db = Inr sn"
  shows "interaction_state_ok (sn_state sn)" and "phase (sn_state sn) = cl_ia_phase c"
    and "cl_terminal c \<longleftrightarrow> phase (sn_state sn) = PhaseTerminal"
    and "cl_ia_command c = map_option ri_command_id (intent (sn_state sn))"
    and "head_intent sha q (map_option ri_command_id (intent (sn_state sn))) db (intent (sn_state sn))"
    and "head_pause sha c gs = Inr (sn_pause sn, groups (sn_state sn))"
    and "interaction_state_check (sn_state sn) = None"
proof -
  note read = assms [unfolded read_snapshot_Inr]
  show "interaction_state_ok (sn_state sn)"
    by (rule read_state_ok [OF assms])
  show "phase (sn_state sn) = cl_ia_phase c" "cl_terminal c \<longleftrightarrow> phase (sn_state sn) = PhaseTerminal"
    "head_pause sha c gs = Inr (sn_pause sn, groups (sn_state sn))" "interaction_state_check (sn_state sn) = None"
    using read by auto
  from read obtain i where "head_intent sha q (cl_ia_command c) db i" "intent (sn_state sn) = i"
    by auto
  then show "cl_ia_command c = map_option ri_command_id (intent (sn_state sn))"
    "head_intent sha q (map_option ri_command_id (intent (sn_state sn))) db (intent (sn_state sn))"
    using head_intent_id by auto
qed

lemma locked_interaction_Inr:
  "locked_interaction sha q db = Inr (c, sn) \<longleftrightarrow> (\<exists>gs. run_row q db = Inr (c, gs) \<and> read_snapshot sha q c gs db = Inr sn)"
  by (auto simp: locked_interaction_def)

lemma locked_command_Inr:
  "locked_command sha q cmd db = Inr (c, row, sn) \<longleftrightarrow> (\<exists>gs. run_row q db = Inr (c, gs) \<and> read_snapshot sha q c gs db = Inr sn)
     \<and> map_of (commands db) (rq_run_id q, cmd) = Some row \<and> command_row_check row = None"
  by (auto simp: locked_command_def stored_command_Inr)

lemma locked_stored_as:
  assumes "stored_as sha q db sn" and "\<exists>gs. run_row q db = Inr (c, gs) \<and> read_snapshot sha q c gs db = Inr sn'"
  shows "sn' = sn"
  using assms stored_as_row by force

text \<open>Lease columns are not part of the interaction.\<close>

lemma read_interaction_lease:
  assumes "map_of (claims db) (rq_run_id q) = Some c" and "map_of (claims db') (rq_run_id q) = Some d"
    and "commands db' = commands db" and f: "d = c\<lparr>cl_owner := w, cl_generation := n, cl_expires := e\<rparr>"
  shows "read_interaction sha q db' = Inr (Some sn) \<longleftrightarrow> read_interaction sha q db = Inr (Some sn)"
proof -
  have "read_snapshot sha q d gs db' = read_snapshot sha q c gs db" for gs
    by (simp add: f assms(3) read_snapshot_def head_pause_def stored_command_def cong: if_cong option.case_cong)
  then show ?thesis
    using assms(1,2) by (auto simp: read_interaction_Inr run_row_Inr f)
qed

lemma lease_update_keeps:
  assumes "update_claim (rq_run_id q) (\<lambda>_. True) f db = Inr (r, db')"
    and "\<And>c. \<exists>w n e. f c = c\<lparr>cl_owner := w, cl_generation := n, cl_expires := e\<rparr>"
  shows "(read_interaction sha q db' = Inr (Some sn) \<longleftrightarrow> read_interaction sha q db = Inr (Some sn)) \<and> commands db' = commands db"
  using update_claim_effect [OF assms(1)]
proof
  assume "\<exists>c. map_of (claims db) (rq_run_id q) = Some c \<and> True \<and> claim_write_error (f c) = None \<and> r = Some (f c)
      \<and> db' = db\<lparr>claims := update_at (rq_run_id q) f (claims db)\<rparr>"
  then obtain c where c: "map_of (claims db) (rq_run_id q) = Some c" "db' = db\<lparr>claims := update_at (rq_run_id q) f (claims db)\<rparr>"
    by blast
  then have d: "map_of (claims db') (rq_run_id q) = Some (f c)" "commands db' = commands db"
    by simp_all
  obtain w n e where "f c = c\<lparr>cl_owner := w, cl_generation := n, cl_expires := e\<rparr>"
    using assms(2) by blast
  from read_interaction_lease [OF c(1) d this] d(2) show ?thesis
    by blast
qed simp

lemma stored_as_lease:
  "(read_interaction sha q db' = Inr (Some sn) \<longleftrightarrow> read_interaction sha q db = Inr (Some sn)) \<Longrightarrow> commands db' = commands db
    \<Longrightarrow> stored_as sha q db' sn = stored_as sha q db sn"
  by (simp add: stored_as_def round_kept_def split: option.split)

lemma release_lease_keeps:
  assumes "release_lease (rq_run_id q) db = Inr (u, db')"
  shows "stored_as sha q db' sn = stored_as sha q db sn"
proof -
  obtain r where u: "update_claim (rq_run_id q) (\<lambda>_. True) (\<lambda>c. c\<lparr>cl_expires := None\<rparr>) db = Inr (r, db')"
    using assms by (auto simp: release_lease_def)
  have "\<exists>w n e. c\<lparr>cl_expires := None\<rparr> = c\<lparr>cl_owner := w, cl_generation := n, cl_expires := e\<rparr>" for c :: claim
    by (intro exI [of _ "cl_owner c"] exI [of _ "cl_generation c"] exI [of _ None]) simp
  from lease_update_keeps [OF u this] show ?thesis
    by (intro stored_as_lease) simp_all
qed

lemma take_resume_keeps:
  assumes "update_claim (rq_run_id q) (\<lambda>_. True) (take_resume e l) db = Inr (r, db')"
  shows "stored_as sha q db' sn = stored_as sha q db sn"
proof -
  have "\<exists>w n e'. take_resume e l c = c\<lparr>cl_owner := w, cl_generation := n, cl_expires := e'\<rparr>" for c
    by (auto simp: take_resume_def)
  from lease_update_keeps [OF assms this] show ?thesis
    by (intro stored_as_lease) simp_all
qed

section \<open>Changing one command row\<close>

definition pauses_kept :: "db \<Rightarrow> db \<Rightarrow> bool" where
  "pauses_kept db db' \<longleftrightarrow> (\<forall>k. map_option kept_pause (map_of (commands db') k) = map_option kept_pause (map_of (commands db) k))"

lemma pauses_kept_trans: "pauses_kept db db' \<Longrightarrow> pauses_kept db' db'' \<Longrightarrow> pauses_kept db db''"
  by (simp add: pauses_kept_def)

lemma pauses_kept_same [simp]: "commands db' = commands db \<Longrightarrow> pauses_kept db db'"
  by (simp add: pauses_kept_def)

lemma pauses_kept_results:
  assumes "results_only db db'"
  shows "pauses_kept db db'"
proof -
  have kept: "kept_pause d = kept_pause c" if r: "result_only c d" for c d
  proof -
    obtain a b e where "d = c\<lparr>cc_result := a, cc_result_revision := b, cc_result_source := e\<rparr>"
      using r unfolding result_only_def by blast
    then show ?thesis
      by (simp add: kept_pause_def)
  qed
  show ?thesis
    unfolding pauses_kept_def
  proof
    fix k
    have "rel_option result_only (map_of (commands db) k) (map_of (commands db') k)"
      using assms by (simp only: results_only_def)
    then show "map_option kept_pause (map_of (commands db') k) = map_option kept_pause (map_of (commands db) k)"
      by (cases rule: option.rel_cases) (simp_all add: kept)
  qed
qed

lemma pauses_kept_update:
  assumes "update_command r cmd f db = Inr (u, db')"
    and "\<And>c. cc_pause_ref (f c) = cc_pause_ref c \<and> cc_snapshot (f c) = cc_snapshot c \<and> cc_collection (f c) = cc_collection c"
  shows "pauses_kept db db'"
proof -
  have "kept_pause (f c) = kept_pause c" for c
    using assms(2) by (simp add: kept_pause_def)
  then show ?thesis
    using update_command_effect [OF assms(1)] by (auto simp: pauses_kept_def)
qed

lemma update_command_claims: "update_command r cmd f db = Inr (u, db') \<Longrightarrow> claims db' = claims db"
  using update_command_effect by fastforce

lemma round_kept_frame:
  assumes "round_kept q sn db" and "pauses_kept db db'"
    and "phase (sn_state sn') = PhaseResuming \<Longrightarrow> phase (sn_state sn) = PhaseResuming \<and> sn_pause sn' = sn_pause sn
      \<and> map_option ri_command_id (intent (sn_state sn')) = map_option ri_command_id (intent (sn_state sn))"
  shows "round_kept q sn' db'"
proof -
  have "map_option kept_pause (map_of (commands db') k) = map_option kept_pause (map_of (commands db) k)" for k
    using assms(2) unfolding pauses_kept_def by blast
  then have row: "(case map_of (commands db') k of None \<Rightarrow> False | Some row \<Rightarrow> kept_pause row = p)
      = (case map_of (commands db) k of None \<Rightarrow> False | Some row \<Rightarrow> kept_pause row = p)" for k p
    by (metis (no_types, lifting) option.case_eq_if option.map_sel option.map_disc_iff)
  show ?thesis
    using assms(1,3) by (auto simp: round_kept_def row split: option.splits)
qed

text \<open>A settled or observed status of the head's own command.\<close>

lemma set_status_head:
  assumes "head_intent sha q (Some (ri_command_id i)) db (Some i)"
    and "update_command (rq_run_id q) (ri_command_id i) (set_status us (status_value st)) db = Inr (u, db')"
    and "resume_intent_check (i\<lparr>ri_status := st\<rparr>) = None"
  shows "head_intent sha q (Some (ri_command_id i)) db' (Some (i\<lparr>ri_status := st\<rparr>))"
proof -
  from assms(1) obtain c where c: "map_of (commands db) (rq_run_id q, ri_command_id i) = Some c" "command_row_check c = None"
    "stored_intent sha q (ri_command_id i) c = Inr i"
    by (auto simp: head_intent_Some)
  have "List.member intent_statuses (status_value st)"
    by (cases st) (simp_all add: intent_statuses_def)
  with c(2) have "command_row_check (set_status us (status_value st) c) = None"
    by (simp add: command_row_check_def set_status_def)
  moreover have "stored_intent sha q (ri_command_id i) (set_status us (status_value st) c) = Inr (i\<lparr>ri_status := st\<rparr>)"
    by (rule stored_intent_status [OF c(3) assms(3)]) (simp add: set_status_def)
  ultimately show ?thesis
    using update_command_row [OF assms(2) c(1)] by (simp add: head_intent_Some)
qed

section \<open>Pausing\<close>

lemma pause_shape:
  assumes ok: "interaction_state_ok s" and p: "phase s \<noteq> PhaseTerminal" and gs: "list_all pending_group_ok gs"
    and run: "pause s ref gs = Inr s'"
  shows "phase s' = PhaseWaiting" and "groups s' = gs" and "pause_ref s' = Some ref" and "pause_revision s' \<noteq> 0"
    and "intent s' = map_option (\<lambda>i. i\<lparr>ri_status := Reconciled\<rparr>) (intent s)"
    and "interaction_state_ok s'"
proof -
  show ok': "interaction_state_ok s'"
    by (rule pause_keeps_ok [OF ok gs run])
  show shape: "phase s' = PhaseWaiting" "groups s' = gs" "pause_ref s' = Some ref"
    using run p by (auto simp: pause_def split: if_splits)
  show "pause_revision s' \<noteq> 0"
    using ok' shape(3) by (simp add: interaction_state_ok_iff)
  have "ri_status i = Reconciled" if "intent s = Some i" "phase s \<noteq> PhaseResuming" for i
    using ok_intent_facts(4) [OF ok that(1,2)] p by (simp add: settled_check_iff)
  then have "i\<lparr>ri_status := Reconciled\<rparr> = i" if "intent s = Some i" "phase s \<noteq> PhaseResuming" for i
    using that by (cases i) simp
  then show "intent s' = map_option (\<lambda>i. i\<lparr>ri_status := Reconciled\<rparr>) (intent s)"
    using run p by (cases "intent s") (auto simp: pause_def split: if_splits)
qed

fun result_snapshot :: "resume_result \<Rightarrow> interaction_snapshot" where
  "result_snapshot (Committed sn) = sn"
| "result_snapshot (Replayed sn _ _) = sn"
| "result_snapshot (AcceptedResume sn _) = sn"
| "result_snapshot (StartedResume sn _) = sn"

lemma active_not_terminal: "active_authority us c l = None \<Longrightarrow> \<not> cl_terminal c"
  by (simp add: active_authority_def lease_live_us_def)

lemma record_pause_refines:
  assumes run: "record_pause sha uuid us us' q l ps db = Inr (res, db')" and st: "stored_as sha q db sn"
    and ps: "pause_snapshot_check ps = None"
  shows "\<exists>sn'. stored_as sha q db' sn' \<and> (sn' = sn \<or> interaction_step (sn_state sn) (sn_state sn')) \<and> result_snapshot res = sn'"
proof -
  from run obtain v c sn1 where v: "decode_pause_snapshot sha ps = Inr v" and l: "locked_interaction sha q db = Inr (c, sn1)"
    and rest: "(if \<not> cl_terminal c \<and> fenced c l \<and> phase (sn_state sn1) = PhaseWaiting \<and> sn_pause sn1 = Some ps
       then Inr (Replayed sn1 (intent (sn_state sn1)) (sn_source sn1), db)
       else guard_r (active_authority us c l)
       (bind_r (groups_of v) (\<lambda>gs.
        bind_r (pause (sn_state sn1) (ps_ref ps) gs) (\<lambda>s.
        bind_r (case intent s of None \<Rightarrow> Inr ((), db)
           | Some i \<Rightarrow> update_command (rq_run_id q) (ri_command_id i) (set_status us ''reconciled'') db) (\<lambda>(_, db).
        bind_r (write_head sha uuid us q (cl_index c) s (Some ps) True None db) (\<lambda>(sn', db).
        guard_r (active_authority us' c l)
        (bind_r (release_lease (rq_run_id q) db) (\<lambda>(_, db). Inr (Committed sn', db))))))))) = Inr (res, db')"
    unfolding record_pause_def by (auto split: if_splits)
  from l have "sn1 = sn"
    using locked_stored_as [OF st] by (simp add: locked_interaction_Inr)
  from l obtain gs0 where read: "run_row q db = Inr (c, gs0)" "read_snapshot sha q c gs0 db = Inr sn"
    unfolding locked_interaction_Inr \<open>sn1 = sn\<close> by blast
  show ?thesis
  proof (cases "db' = db \<and> res = Replayed sn (intent (sn_state sn)) (sn_source sn)")
    case True
    with st show ?thesis by auto
  next
    case False
    with rest \<open>sn1 = sn\<close> obtain gs s db1 sn2 db2 where live: "active_authority us c l = None" and gs: "groups_of v = Inr gs"
      and s: "pause (sn_state sn) (ps_ref ps) gs = Inr s"
      and u: "(case intent s of None \<Rightarrow> Inr ((), db)
           | Some i \<Rightarrow> update_command (rq_run_id q) (ri_command_id i) (set_status us ''reconciled'') db) = Inr ((), db1)"
      and w: "write_head sha uuid us q (cl_index c) s (Some ps) True None db1 = Inr (sn2, db2)"
      and r: "release_lease (rq_run_id q) db2 = Inr ((), db')" and res: "res = Committed sn2"
      by (auto split: if_splits)
    note head = head_facts [OF read(2)]
    have live': "phase (sn_state sn) \<noteq> PhaseTerminal" "\<not> cl_terminal c"
      using active_not_terminal [OF live] head(3) by simp_all
    note shape = pause_shape [OF head(1) live'(1) groups_of_ok [OF gs] s]
    have claims: "claims db1 = claims db"
      using u update_command_claims by (auto split: option.splits)
    have h: "head_intent sha q (map_option ri_command_id (intent s)) db1 (intent s)"
    proof (cases "intent (sn_state sn)")
      case None
      with u shape(5) head(5) show ?thesis by simp
    next
      case (Some i)
      let ?i = "i\<lparr>ri_status := Reconciled\<rparr>"
      have i: "intent s = Some ?i"
        using shape(5) Some by simp
      then have "resume_intent_check ?i = None"
        using ok_intent [OF shape(6)] by (simp add: resume_intent_ok_def)
      with Some i u head(5) show ?thesis
        using set_status_head [where sha = sha and q = q and i = i and db = db and st = Reconciled and db' = db1] by simp
    qed
    have "run_fits q c" "map_of (claims db1) (rq_run_id q) = Some c"
      using read(1) claims by (simp_all add: run_row_Inr run_fits_def)
    moreover have "interaction_state_check s = None"
      using shape(6) by (simp add: interaction_state_ok_def)
    moreover have "head_of s (Some ps) (Some v)"
      using shape gs ps by (simp add: head_of_def)
    ultimately have "read_interaction sha q db2 = Inr (Some sn2)"
      using write_head_reads(1) [OF w _ _ _ _ _ h, of c] live'(2) v by simp
    moreover from w have "sn_state sn2 = s"
      by (rule write_head_Inr) simp
    ultimately have "stored_as sha q db2 sn2"
      using shape(1) by (simp add: stored_as_def round_kept_def)
    then have "stored_as sha q db' sn2"
      by (simp add: release_lease_keeps [OF r])
    moreover have "interaction_step (sn_state sn) s"
      by (rule step_pause [OF groups_of_ok [OF gs] s])
    ultimately show ?thesis
      using res \<open>sn_state sn2 = s\<close> by auto
  qed
qed

section \<open>Accepting\<close>

lemma head_of_read:
  assumes "read_snapshot sha q c gs db = Inr sn"
    and "case sn_pause sn of None \<Rightarrow> v = None | Some p \<Rightarrow> map_sum id Some (decode_pause_snapshot sha p) = Inr v"
  shows "head_of (sn_state sn) (sn_pause sn) v"
proof -
  have rev: "pause_revision (sn_state sn) = cl_ia_pause_revision c" "pause_ref (sn_state sn) = cl_ia_pause_ref c"
    using assms(1) by (auto simp: read_snapshot_Inr)
  note head = head_facts [OF assms(1)]
  show ?thesis
    using head(6) assms(2) unfolding head_of_def rev head(2)
    by (auto simp: head_pause_def row_snapshot_def split: if_splits option.splits)
qed

lemma head_of_decodes:
  assumes "read_snapshot sha q c gs db = Inr sn" and "sn_pause sn = Some p"
  shows "\<exists>v. decode_pause_snapshot sha p = Inr v"
  using head_facts(6) [OF assms(1)] assms(2)
  by (auto simp: head_pause_def split: if_splits option.splits)

lemma head_of_same_pause:
  "head_of s ps v \<Longrightarrow> pause_revision s' = pause_revision s \<Longrightarrow> pause_ref s' = pause_ref s
    \<Longrightarrow> (phase s' \<in> {PhaseWaiting, PhaseResuming} \<Longrightarrow> phase s \<in> {PhaseWaiting, PhaseResuming} \<and> groups s' = groups s)
    \<Longrightarrow> head_of s' ps v"
  by (auto simp: head_of_def split: option.splits)

lemma accept_without_intent:
  assumes "\<And>i. intent s = Some i \<Longrightarrow> ri_command_id i \<noteq> sub_command_id sub"
  shows "accept (s\<lparr>intent := None\<rparr>) sub = accept s sub"
proof -
  have "(case intent s of None \<Rightarrow> False | Some i \<Rightarrow> ri_command_id i = sub_command_id sub) = False"
    using assms by (auto split: option.splits)
  then show ?thesis
    by (simp add: accept_def cong: if_cong)
qed

lemma waiting_without_intent:
  assumes "interaction_state_ok s" and "phase s = PhaseWaiting"
  shows "interaction_state_check (s\<lparr>intent := None\<rparr>) = None"
proof -
  have "interaction_state_ok (s\<lparr>intent := None\<rparr>)"
    using assms by (simp add: interaction_state_ok_iff)
  then show ?thesis
    by (simp add: interaction_state_ok_def)
qed

lemma accepted_row:
  assumes sub: "decode_resume_command sha (cc_body row) (cc_digest row) (rq_run_id q) (rq_session_id q) cmd = Inr sub"
    and s: "interaction_state_ok s" and acc: "accept s sub = Inr s'"
    and fresh: "\<And>i. intent s = Some i \<Longrightarrow> ri_command_id i \<noteq> cmd"
    and i: "intent s' = Some i" and enc: "decision_bytes i = Inr enc"
    and ps: "decode_pause_snapshot sha ps = Inr v" "parsed_column (ps_bytes ps) = Inr snap"
    and head: "head_of s (Some ps) (Some v)"
    and d: "d = accepted_columns us s' enc (sha enc) ps snap index row" "command_ok d"
  shows "stored_intent sha q cmd d = Inr i" and "kept_pause d = Some ps"
proof -
  have subok: "submission_ok sub" "sub_command_id sub = cmd"
    using decoded_submission_ok [OF sub] by simp_all
  have fresh': "\<And>i. intent s = Some i \<Longrightarrow> ri_command_id i \<noteq> sub_command_id sub"
    using fresh subok(2) by simp
  obtain n where wait: "phase s = PhaseWaiting" and rev: "sub_pause_revision sub = pause_revision s"
      "pause_ref s = Some (sub_pause_ref sub)"
    and ni: "i = \<lparr>ri_command_id = sub_command_id sub, ri_pause_revision = sub_pause_revision sub,
              ri_pause_ref = sub_pause_ref sub, ri_groups = n, ri_status = Accepted, ri_attempt_id = None\<rparr>"
      "resume_intent_check i = None"
    and s': "s' = s\<lparr>phase := PhaseResuming, interaction_revision := interaction_revision s + 1, intent := Some i\<rparr>"
    by (rule accept_new_cases [OF acc fresh']) (use i in auto)
  have iok: "resume_intent_ok i"
    using accept_keeps_ok [OF s subok(1) acc] i by (rule ok_intent)
  then have "ri_groups i \<noteq> []" "list_all decision_group_ok (ri_groups i)"
    by (simp_all add: resume_intent_ok_iff)
  from decision_bytes_round_trip [OF enc this] obtain j where
    j: "decode_interaction_bytes enc = Inr j" "dec_decisions j = Inr (map stored_form (ri_groups i))"
      "traverse stored_to_group (map stored_form (ri_groups i)) = Inr (ri_groups i)"
    by blast
  obtain raw where raw: "decode_interaction_bytes (ps_bytes ps) = Inr raw"
    using decode_pause_Inr [OF ps(1)] by blast
  have snap: "snap = raw"
    using decode_bytes_Inr(1) [OF raw] ps(2) by simp
  have ref: "pause_ref s = Some (ps_ref ps)" "pause_snapshot_check ps = None" "groups_of v = Inr (groups s)"
    using head wait by (simp_all add: head_of_def)
  have pause: "row_snapshot (ps_ref ps) snap (ps_digest ps) = Inr ps"
    using decode_bytes_Inr(2) [OF raw] ref(2) snap by (simp add: row_snapshot_def)
  have waiting: "\<lparr>interaction_revision = interaction_revision s' - 1, pause_revision = pause_revision s', pause_ref = Some (ps_ref ps),
      phase = PhaseWaiting, groups = groups s, intent = None\<rparr> = s\<lparr>intent := None\<rparr>"
    using ref(1) wait by (cases s) (simp add: s')
  have "accepted_groups sha q cmd d (pause_revision s') (ps_ref ps) (interaction_revision s') v enc (sha enc) = Inr (ri_groups i)"
    unfolding accepted_groups_def waiting
    using j sub ref(3) acc i accept_without_intent [OF fresh'] waiting_without_intent [OF s wait]
    by (simp add: d(1) accepted_columns_def ref(3) waiting)
  then have "intent_source sha q cmd d (ri_pause_revision i) (ri_pause_ref i) v (ri_groups i)"
    unfolding intent_source_def using pause ps(1) rev ref(1)
    by (simp add: d(1) accepted_columns_def ni(1) s')
  moreover have "cc_attempt d = None \<and> cc_attempt_generation d = None \<and> cc_plan d = None \<and> cc_started_at d = None"
    using d(2) by (auto simp: command_ok_def command_attempt_ok_def d(1) accepted_columns_def split: option.splits)
  then have "attempt_error d Accepted = None" "plan_agrees d v = Inr ()" "cc_attempt d = None"
    by (simp_all add: attempt_error_def plan_agrees_def)
  moreover have "cc_resume_status d = Some (status_value Accepted)"
    by (simp add: d(1) accepted_columns_def)
  ultimately show "stored_intent sha q cmd d = Inr i"
    unfolding stored_intent_iff
    by (intro exI [of _ v] exI [of _ "status_value Accepted"] exI [of _ Accepted]) (use ni subok(2) in \<open>simp add: intent_status_of_def\<close>)
  show "kept_pause d = Some ps"
    using pause ref(1) by (simp add: kept_pause_def d(1) accepted_columns_def s')
qed

lemma round_kept_row:
  assumes "head_intent sha q (Some cmd) db (Some i)" and "intent (sn_state sn) = Some i" and "pauses_kept db db'"
    and "\<And>row. map_of (commands db) (rq_run_id q, cmd) = Some row \<Longrightarrow> kept_pause row = sn_pause sn"
  shows "round_kept q sn db'"
proof -
  from assms(1) obtain row where row: "map_of (commands db) (rq_run_id q, cmd) = Some row"
    by (auto simp: head_intent_Some)
  have cmd: "ri_command_id i = cmd"
    using head_intent_id [OF assms(1)] by simp
  have "map_option kept_pause (map_of (commands db') (rq_run_id q, cmd)) = map_option kept_pause (map_of (commands db) (rq_run_id q, cmd))"
    using assms(3) unfolding pauses_kept_def by blast
  then obtain row' where "map_of (commands db') (rq_run_id q, cmd) = Some row'" "kept_pause row' = kept_pause row"
    using row by auto
  with assms(2,4) row cmd show ?thesis
    by (simp add: round_kept_def)
qed

lemma parsed_pause_object:
  assumes "decode_pause_snapshot sha p = Inr v" and "parsed_column (ps_bytes p) = Inr snap"
  shows "json_object snap"
proof -
  obtain raw where "decode_interaction_bytes (ps_bytes p) = Inr raw"
    using decode_pause_Inr [OF assms(1)] by blast
  with assms(2) show ?thesis
    using decode_bytes_Inr(1,3) by fastforce
qed

lemma read_run_fits:
  "run_row q db = Inr (c, gs) \<Longrightarrow> run_fits q c \<and> map_of (claims db) (rq_run_id q) = Some c"
  by (simp add: run_row_Inr run_fits_def)

lemma accept_new_Inr:
  assumes "accept_new sha uuid us us' ttl q cmd owner sub c sn db = Inr (res, db')"
  obtains s i ps enc l snap db1 sn2 db2 r where "phase (sn_state sn) = PhaseWaiting" "\<not> cl_terminal c"
    and "accept (sn_state sn) sub = Inr s" and "intent s = Some i" and "sn_pause sn = Some ps"
    and "decision_bytes i = Inr enc" and "parsed_column (ps_bytes ps) = Inr snap"
    and "update_command (rq_run_id q) cmd (accepted_columns us s enc (sha enc) ps snap (cl_index c)) db = Inr ((), db1)"
    and "write_head sha uuid us q (cl_index c) s (Some ps) True (Some ''accepted'') db1 = Inr (sn2, db2)"
    and "update_claim (rq_run_id q) (\<lambda>_. True) (take_resume (to_ms us' + ttl) l) db2 = Inr (r, db')"
    and "res = AcceptedResume sn2 l"
proof -
  define rest where "rest s = (case (intent s, sn_pause sn) of (Some i, Some ps) \<Rightarrow>
           bind_r (decision_bytes i) (\<lambda>encoded.
           bind_r (new_fence owner (cl_generation c + 1)) (\<lambda>l.
           bind_r (parsed_column (ps_bytes ps)) (\<lambda>snap.
           bind_r (update_command (rq_run_id q) cmd (accepted_columns us s encoded (sha encoded) ps snap (cl_index c)) db)
             (\<lambda>(_, db).
           bind_r (write_head sha uuid us q (cl_index c) s (Some ps) True (Some ''accepted'') db) (\<lambda>(sn', db).
           bind_r (update_claim (rq_run_id q) (\<lambda>_. True) (take_resume (to_ms us' + ttl) l) db) (\<lambda>(_, db).
           Inr (AcceptedResume sn' l, db)))))))
         | _ \<Rightarrow> Inl InteractionCorrupt)" for s
  from assms obtain s where a: "phase (sn_state sn) = PhaseWaiting" "\<not> cl_terminal c" "accept (sn_state sn) sub = Inr s"
    and r: "rest s = Inr (res, db')"
    unfolding accept_new_def rest_def [symmetric] by (auto split: if_splits)
  obtain i ps where i: "intent s = Some i" "sn_pause sn = Some ps"
    using r by (cases "intent s"; cases "sn_pause sn") (auto simp: rest_def)
  show thesis
    using r that [OF a i] by (auto simp: rest_def i)
qed

lemma accept_resume_refines:
  assumes run: "accept_resume sha uuid us us' ttl q cmd owner db = Inr (res, db')" and st: "stored_as sha q db sn"
  shows "\<exists>sn'. stored_as sha q db' sn' \<and> (sn' = sn \<or> interaction_step (sn_state sn) (sn_state sn')) \<and> result_snapshot res = sn'"
proof -
  from run obtain c row sn1 sub where l: "locked_command sha q cmd db = Inr (c, row, sn1)"
    and sub: "decode_resume_command sha (cc_body row) (cc_digest row) (rq_run_id q) (rq_session_id q) cmd = Inr sub"
    and rest: "(if cc_resume_status row \<noteq> None then
        bind_r (stored_intent sha q cmd row) (\<lambda>original.
        bind_r (verify_replay original sub) (\<lambda>_.
        Inr (Replayed sn1 (Some original) (cc_accepted_source row), db)))
      else accept_new sha uuid us us' ttl q cmd owner sub c sn1 db) = Inr (res, db')"
    unfolding accept_resume_def by (auto split: if_splits)
  from l obtain gs0 where read: "run_row q db = Inr (c, gs0)" "read_snapshot sha q c gs0 db = Inr sn1"
    and row: "map_of (commands db) (rq_run_id q, cmd) = Some row" "command_row_check row = None"
    by (auto simp: locked_command_Inr)
  then have "sn1 = sn"
    using locked_stored_as [OF st] by blast
  note head = head_facts [OF read(2)]
  show ?thesis
  proof (cases "cc_resume_status row")
    case (Some x)
    with rest st \<open>sn1 = sn\<close> show ?thesis by (auto split: if_splits)
  next
    case None
    with rest \<open>sn1 = sn\<close> obtain s i ps enc l snap db1 sn2 db2 r where wait: "phase (sn_state sn) = PhaseWaiting" "\<not> cl_terminal c"
      and acc: "accept (sn_state sn) sub = Inr s" and i: "intent s = Some i" and ps: "sn_pause sn = Some ps"
      and enc: "decision_bytes i = Inr enc" and snap: "parsed_column (ps_bytes ps) = Inr snap"
      and u: "update_command (rq_run_id q) cmd (accepted_columns us s enc (sha enc) ps snap (cl_index c)) db = Inr ((), db1)"
      and w: "write_head sha uuid us q (cl_index c) s (Some ps) True (Some ''accepted'') db1 = Inr (sn2, db2)"
      and t: "update_claim (rq_run_id q) (\<lambda>_. True) (take_resume (to_ms us' + ttl) l) db2 = Inr (r, db')"
      and res: "res = AcceptedResume sn2 l"
      by (auto elim: accept_new_Inr)
    note read = read [unfolded \<open>sn1 = sn\<close>] and head = head [unfolded \<open>sn1 = sn\<close>]
    have fresh: "ri_command_id j \<noteq> cmd" if "intent (sn_state sn) = Some j" for j
      using head(5) that None row(1) by (auto simp: head_intent_Some stored_intent_iff)
    obtain v where v: "decode_pause_snapshot sha ps = Inr v"
      using head_of_decodes [OF read(2) ps] by blast
    have hd: "head_of (sn_state sn) (Some ps) (Some v)"
      using head_of_read [OF read(2), of "Some v"] ps v by simp
    let ?d = "accepted_columns us s enc (sha enc) ps snap (cl_index c) row"
    note d = update_command_row [OF u row(1)]
    have dok: "command_ok ?d"
      using d by blast
    note acc_row = accepted_row [OF sub head(1) acc fresh i enc v snap hd refl dok]
    have check: "command_row_check ?d = None"
      using row(2) parsed_pause_object [OF v snap]
      by (auto simp: command_row_check_def accepted_columns_def intent_statuses_def object_or_null_def)
    have subok: "submission_ok sub \<and> sub_command_id sub = cmd"
      using decoded_submission_ok [OF sub] .
    have cmd: "ri_command_id i = cmd"
      using acc_row(1) unfolding stored_intent_iff by blast
    have h: "head_intent sha q (Some cmd) db1 (Some i)"
      using d check acc_row(1) by (simp add: head_intent_Some)
    have sok: "interaction_state_ok s"
      by (rule accept_keeps_ok [OF head(1) _ acc]) (use subok in simp)
    have same: "pause_revision s = pause_revision (sn_state sn)" "pause_ref s = pause_ref (sn_state sn)"
      "groups s = groups (sn_state sn)"
      using accept_answers_pending_set [OF head(1) _ _ acc] subok fresh by blast+
    have hd': "head_of s (Some ps) (Some v)"
      by (rule head_of_same_pause [OF hd]) (use same wait in simp_all)
    have "read_interaction sha q db2 = Inr (Some sn2)" and only: "results_only db1 db2"
      using write_head_reads [OF w, of c] read_run_fits [OF read(1)] d wait(2) sok v hd' i h cmd
      by (simp_all add: interaction_state_ok_def)
    moreover have sn2: "sn_state sn2 = s" "sn_pause sn2 = Some ps"
      by (rule write_head_Inr [OF w], simp)+
    have "round_kept q sn2 db2"
      by (rule round_kept_row [OF h _ pauses_kept_results [OF only]]) (use sn2 i d acc_row(2) in simp_all)
    ultimately have "stored_as sha q db2 sn2"
      by (simp add: stored_as_def)
    then have "stored_as sha q db' sn2"
      by (simp add: take_resume_keeps [OF t])
    moreover have "interaction_step (sn_state sn) s"
      by (rule step_accept [OF _ acc]) (use subok in simp)
    ultimately show ?thesis
      using res sn2 by auto
  qed
qed

section \<open>Dispatching\<close>

lemma command_only_read:
  assumes "run_row q db = Inr (c, gs)" and "read_snapshot sha q c gs db = Inr sn" and "claims db' = claims db"
    and "head_intent sha q (cl_ia_command c) db' (Some i)" and "interaction_state_ok ((sn_state sn)\<lparr>intent := Some i\<rparr>)"
  shows "read_interaction sha q db' = Inr (Some (sn\<lparr>sn_state := (sn_state sn)\<lparr>intent := Some i\<rparr>\<rparr>))"
proof -
  have "run_row q db' = Inr (c, gs)"
    using assms(1,3) by (simp add: run_row_Inr)
  moreover have "read_snapshot sha q c gs db' = Inr (sn\<lparr>sn_state := (sn_state sn)\<lparr>intent := Some i\<rparr>\<rparr>)"
    using assms(2,4,5) unfolding read_snapshot_Inr by (auto simp: interaction_state_ok_def)
  ultimately show ?thesis
    unfolding read_interaction_Inr by blast
qed

lemma intent_source_pause:
  "intent_source sha q cmd c revision ref p gs \<Longrightarrow> \<exists>ps. kept_pause c = Some ps \<and> decode_pause_snapshot sha ps = Inr p"
  by (auto simp: intent_source_def kept_pause_def)

lemma status_of_value: "intent_status_of s = Inr st \<longleftrightarrow> s = status_value st"
  by (cases st) (auto simp: intent_status_of_def split: if_splits)

lemma start_outcome:
  assumes "start s c a = Inr s'" and "intent s = Some i"
  shows "phase s = PhaseResuming \<and> ri_command_id i = c
    \<and> (ri_status i = DispatchStarted \<and> ri_attempt_id i = Some a \<and> s' = s
       \<or> ri_status i = Accepted \<and> resume_intent_check (i\<lparr>ri_status := DispatchStarted, ri_attempt_id := Some a\<rparr>) = None
         \<and> s' = s\<lparr>intent := Some (i\<lparr>ri_status := DispatchStarted, ri_attempt_id := Some a\<rparr>)\<rparr>)"
  using assms unfolding start_def by (auto simp: unresolved_Inr can_dispatch_def split: option.splits if_splits)

lemma head_row:
  assumes "read_snapshot sha q c gs db = Inr sn" and "intent (sn_state sn) = Some i"
    and "map_of (commands db) (rq_run_id q, ri_command_id i) = Some row"
  shows "stored_intent sha q (ri_command_id i) row = Inr i" and "command_row_check row = None"
  using head_facts(5) [OF assms(1)] assms(2,3) by (auto simp: head_intent_Some)

lemma started_row:
  assumes i: "stored_intent sha q cmd row = Inr i"
    and kept: "kept_pause row = Some ps" "decode_pause_snapshot sha ps = Inr p"
    and plan: "decode_interaction_bytes (dpl_bytes plan) = Inr column" "dec_resume_plan column = Inr v"
      "rp_attempt v = dpl_attempt plan" "locator_targets (pc_locator p) = plan_targets v"
    and ok: "resume_intent_check (i\<lparr>ri_status := DispatchStarted, ri_attempt_id := Some (dpl_attempt plan)\<rparr>) = None"
    and d: "d = started_columns us l plan column row"
  shows "stored_intent sha q cmd d = Inr (i\<lparr>ri_status := DispatchStarted, ri_attempt_id := Some (dpl_attempt plan)\<rparr>)"
proof -
  from i obtain p' where p': "intent_source sha q cmd row (ri_pause_revision i) (ri_pause_ref i) p' (ri_groups i)" "ri_command_id i = cmd"
    unfolding stored_intent_iff by blast
  then have "p' = p"
    using intent_source_pause kept by fastforce
  moreover have "intent_source sha q cmd d = intent_source sha q cmd row"
    by (rule intent_source_cong) (simp_all add: d started_columns_def)
  moreover have "plan_agrees d p = Inr ()"
    using decode_bytes_Inr(2) [OF plan(1)] plan by (simp add: plan_agrees_def d started_columns_def)
  moreover have "attempt_error d DispatchStarted = None"
    by (simp add: attempt_error_def d started_columns_def)
  moreover have "cc_resume_status d = Some (status_value DispatchStarted)" "cc_attempt d = Some (dpl_attempt plan)"
    by (simp_all add: d started_columns_def)
  ultimately show ?thesis
    unfolding stored_intent_iff
    by (intro exI [of _ p] exI [of _ "status_value DispatchStarted"] exI [of _ DispatchStarted])
      (use p' ok in \<open>simp add: intent_status_of_def\<close>)
qed

lemma start_resume_Inr:
  assumes "start_resume sha us q l cmd plan db = Inr (res, db')"
  obtains column v c row sn ps i original where "decode_interaction_bytes (dpl_bytes plan) = Inr column"
    and "dec_resume_plan column = Inr v" and "rp_attempt v = dpl_attempt plan"
    and "locked_command sha q cmd db = Inr (c, row, sn)" and "active_authority us c l = None"
    and "sn_pause sn = Some ps" and "intent (sn_state sn) = Some i" and "ri_command_id i = cmd"
    and "decode_pause_snapshot sha ps = Inr original" and "locator_targets (pc_locator original) = plan_targets v"
    and "(if cc_resume_status row = Some ''dispatch_started'' \<and> cc_attempt row = Some (dpl_attempt plan)
          then bind_r (replays_attempt l plan row) (\<lambda>_. Inr (Replayed sn (Some i) (cc_accepted_source row), db))
          else bind_r (start (sn_state sn) cmd (dpl_attempt plan)) (\<lambda>s.
            bind_r (update_command (rq_run_id q) cmd (started_columns us l plan column) db) (\<lambda>(_, db).
            Inr (StartedResume \<lparr>sn_state = s, sn_pause = Some ps, sn_source = sn_source sn\<rparr> (dpl_attempt plan), db))))
        = Inr (res, db')"
proof -
  from assms obtain column v c row sn where a: "decode_interaction_bytes (dpl_bytes plan) = Inr column"
    "dec_resume_plan column = Inr v" "rp_attempt v = dpl_attempt plan" "locked_command sha q cmd db = Inr (c, row, sn)"
    "active_authority us c l = None"
    and r: "(case (sn_pause sn, intent (sn_state sn)) of (Some ps, Some i) \<Rightarrow>
        if ri_command_id i \<noteq> cmd then Inl (InteractionConflict ''intent_conflict'')
        else bind_r (decode_pause_snapshot sha ps) (\<lambda>original.
          if locator_targets (pc_locator original) \<noteq> plan_targets v then Inl InteractionCorrupt
          else if cc_resume_status row = Some ''dispatch_started'' \<and> cc_attempt row = Some (dpl_attempt plan)
          then bind_r (replays_attempt l plan row) (\<lambda>_. Inr (Replayed sn (Some i) (cc_accepted_source row), db))
          else bind_r (start (sn_state sn) cmd (dpl_attempt plan)) (\<lambda>s.
            bind_r (update_command (rq_run_id q) cmd (started_columns us l plan column) db) (\<lambda>(_, db).
            Inr (StartedResume \<lparr>sn_state = s, sn_pause = Some ps, sn_source = sn_source sn\<rparr> (dpl_attempt plan), db))))
      | _ \<Rightarrow> Inl (InteractionConflict ''intent_conflict'')) = Inr (res, db')"
    unfolding start_resume_def by (auto split: if_splits)
  obtain ps i where i: "sn_pause sn = Some ps" "intent (sn_state sn) = Some i"
    using r by (cases "sn_pause sn"; cases "intent (sn_state sn)") auto
  obtain original where o: "ri_command_id i = cmd" "decode_pause_snapshot sha ps = Inr original"
      "locator_targets (pc_locator original) = plan_targets v"
    using r by (auto simp: i split: if_splits)
  show thesis
    by (rule that [OF a i o]) (use r i o in simp)
qed

lemma start_resume_refines:
  assumes run: "start_resume sha us q l cmd plan db = Inr (res, db')" and st: "stored_as sha q db sn"
  shows "\<exists>sn'. stored_as sha q db' sn' \<and> (sn' = sn \<or> interaction_step (sn_state sn) (sn_state sn')) \<and> result_snapshot res = sn'"
proof (rule start_resume_Inr [OF run])
  fix column v c row sn1 ps i original
  assume plan: "decode_interaction_bytes (dpl_bytes plan) = Inr column" "dec_resume_plan column = Inr v"
      "rp_attempt v = dpl_attempt plan"
    and l: "locked_command sha q cmd db = Inr (c, row, sn1)"
    and ps: "sn_pause sn1 = Some ps" and i: "intent (sn_state sn1) = Some i" and cmd: "ri_command_id i = cmd"
    and original: "decode_pause_snapshot sha ps = Inr original" "locator_targets (pc_locator original) = plan_targets v"
    and rest: "(if cc_resume_status row = Some ''dispatch_started'' \<and> cc_attempt row = Some (dpl_attempt plan)
          then bind_r (replays_attempt l plan row) (\<lambda>_. Inr (Replayed sn1 (Some i) (cc_accepted_source row), db))
          else bind_r (start (sn_state sn1) cmd (dpl_attempt plan)) (\<lambda>s.
            bind_r (update_command (rq_run_id q) cmd (started_columns us l plan column) db) (\<lambda>(_, db).
            Inr (StartedResume \<lparr>sn_state = s, sn_pause = Some ps, sn_source = sn_source sn1\<rparr> (dpl_attempt plan), db))))
        = Inr (res, db')"
  from l obtain gs0 where read: "run_row q db = Inr (c, gs0)" "read_snapshot sha q c gs0 db = Inr sn1"
    and row: "map_of (commands db) (rq_run_id q, cmd) = Some row" "command_row_check row = None"
    by (auto simp: locked_command_Inr)
  then have sn: "sn1 = sn"
    using locked_stored_as [OF st] by blast
  note head = head_facts [OF read(2)]
  show ?thesis
  proof (cases "cc_resume_status row = Some ''dispatch_started'' \<and> cc_attempt row = Some (dpl_attempt plan)")
    case True
    with rest st sn show ?thesis by auto
  next
    case False
    then obtain s where s: "start (sn_state sn1) cmd (dpl_attempt plan) = Inr s"
      and u: "update_command (rq_run_id q) cmd (started_columns us l plan column) db = Inr ((), db')"
      and res: "res = StartedResume \<lparr>sn_state = s, sn_pause = Some ps, sn_source = sn_source sn1\<rparr> (dpl_attempt plan)"
      using rest by auto
    let ?i = "i\<lparr>ri_status := DispatchStarted, ri_attempt_id := Some (dpl_attempt plan)\<rparr>"
    have stored: "stored_intent sha q cmd row = Inr i"
      using head_row(1) [OF read(2) i] row(1) cmd by simp
    have "\<not> (ri_status i = DispatchStarted \<and> ri_attempt_id i = Some (dpl_attempt plan))"
      using False stored by (auto simp: stored_intent_iff status_of_value)
    with start_outcome [OF s i] have out: "phase (sn_state sn1) = PhaseResuming" "resume_intent_check ?i = None"
      "s = (sn_state sn1)\<lparr>intent := Some ?i\<rparr>"
      by auto
    have kept: "kept_pause row = Some ps"
      using st out(1) i row(1) cmd ps by (simp add: stored_as_def round_kept_def sn)
    note d = update_command_row [OF u row(1)]
    have "stored_intent sha q cmd (started_columns us l plan column row) = Inr ?i"
      by (rule started_row [OF stored kept original(1) plan original(2) out(2) refl])
    moreover have "command_row_check (started_columns us l plan column row) = None"
      using row(2) decode_bytes_Inr(3) [OF plan(1)]
      by (simp add: command_row_check_def started_columns_def intent_statuses_def object_or_null_def)
    ultimately have "head_intent sha q (Some cmd) db' (Some ?i)"
      using d by (simp add: head_intent_Some)
    then have "read_interaction sha q db' = Inr (Some (sn1\<lparr>sn_state := s\<rparr>))"
      using command_only_read [OF read] d head(4) i cmd start_keeps_ok [OF head(1) s] out(3) by simp
    moreover have "round_kept q (sn1\<lparr>sn_state := s\<rparr>) db'"
      by (rule round_kept_frame [of q sn db])
        (use st sn out i in \<open>simp_all add: stored_as_def pauses_kept_update [OF u] started_columns_def\<close>)
    moreover have "result_snapshot res = sn1\<lparr>sn_state := s\<rparr>"
      using ps res by (cases sn1) simp
    moreover have "interaction_step (sn_state sn) s"
      using step_start [OF s] sn by simp
    ultimately show ?thesis
      unfolding stored_as_def by (intro exI [of _ "sn1\<lparr>sn_state := s\<rparr>"]) simp
  qed
qed

lemma mark_resume_unknown_refines:
  assumes run: "mark_resume_unknown sha us q l cmd attempt db = Inr (res, db')" and st: "stored_as sha q db sn"
  shows "\<exists>sn'. stored_as sha q db' sn' \<and> (sn' = sn \<or> interaction_step (sn_state sn) (sn_state sn')) \<and> result_snapshot res = sn'"
proof -
  from run obtain c row sn1 s where l: "locked_command sha q cmd db = Inr (c, row, sn1)"
    and s: "unknown (sn_state sn1) cmd = Inr s"
    and rest: "(if s = sn_state sn1 then Inr (Replayed sn1 (intent s) (cc_accepted_source row), db)
        else bind_r (update_command (rq_run_id q) cmd (set_status us ''unknown'') db) (\<lambda>(_, db).
          Inr (Committed \<lparr>sn_state = s, sn_pause = sn_pause sn1, sn_source = sn_source sn1\<rparr>, db))) = Inr (res, db')"
    unfolding mark_resume_unknown_def by (auto split: if_splits)
  from l obtain gs0 where read: "run_row q db = Inr (c, gs0)" "read_snapshot sha q c gs0 db = Inr sn1"
    and row: "map_of (commands db) (rq_run_id q, cmd) = Some row"
    by (auto simp: locked_command_Inr)
  then have sn: "sn1 = sn"
    using locked_stored_as [OF st] by blast
  note head = head_facts [OF read(2)]
  show ?thesis
  proof (cases "s = sn_state sn1")
    case True
    with rest st sn show ?thesis by auto
  next
    case False
    then have u: "update_command (rq_run_id q) cmd (set_status us (status_value UnknownStatus)) db = Inr ((), db')"
      and res: "res = Committed (sn1\<lparr>sn_state := s\<rparr>)"
      using rest by (auto simp: interaction_snapshot.defs split: if_splits)
    from unknown_cases [OF s] False obtain i where i: "intent (sn_state sn1) = Some i" "ri_command_id i = cmd"
      "phase (sn_state sn1) = PhaseResuming" and s': "s = (sn_state sn1)\<lparr>intent := Some (i\<lparr>ri_status := UnknownStatus\<rparr>)\<rparr>"
      by blast
    let ?i = "i\<lparr>ri_status := UnknownStatus\<rparr>"
    have ok: "interaction_state_ok s"
      by (rule unknown_keeps_ok [OF head(1) s])
    then have "resume_intent_check ?i = None"
      using ok_intent [OF ok, of ?i] s' by (simp add: resume_intent_ok_def)
    then have "head_intent sha q (Some cmd) db' (Some ?i)"
      using set_status_head [where i = i and sha = sha and q = q, OF _ _, of db us UnknownStatus "()" db'] head(5) i u by simp
    then have "read_interaction sha q db' = Inr (Some (sn1\<lparr>sn_state := s\<rparr>))"
      using command_only_read [OF read, of db' ?i] update_command_claims [OF u] head(4) i ok s' by simp
    moreover have "round_kept q (sn1\<lparr>sn_state := s\<rparr>) db'"
      by (rule round_kept_frame [of q sn db])
        (use st sn i s' in \<open>simp_all add: stored_as_def pauses_kept_update [OF u] set_status_def\<close>)
    moreover have "interaction_step (sn_state sn) s"
      using step_unknown [OF s] sn by simp
    ultimately show ?thesis
      unfolding stored_as_def by (intro exI [of _ "sn1\<lparr>sn_state := s\<rparr>"]) (simp add: res)
  qed
qed

end
