(* ===== verification/Resume_Settlement.thy ===== *)
theory Resume_Settlement
  imports Resume_Simulation
begin

text \<open>
  The second half of the refinement of \<open>PostgresRunInteractions\<close>: checkpoint observations, probes,
  the reconciliation of a resume and the end of the run.
\<close>

section \<open>Observing\<close>

text \<open>The columns a stored intent is decoded from.\<close>

definition intent_columns :: "command_row \<Rightarrow> (string \<times> string \<times> string option \<times> int option \<times> string option \<times> string option)
    \<times> (string option \<times> json option \<times> string option \<times> int option \<times> int option \<times> int option)
    \<times> (string option \<times> int option \<times> json option \<times> int option)" where
  "intent_columns c = ((cc_body c, cc_digest c, cc_resume_status c, cc_pause_revision c, cc_pause_ref c, cc_decisions c),
     (cc_decisions_digest c, cc_snapshot c, cc_collection c, cc_accepted_revision c, cc_accepted_source c, cc_accepted_at c),
     (cc_attempt c, cc_attempt_generation c, cc_plan c, cc_started_at c))"

lemma stored_intent_columns:
  assumes "intent_columns d = intent_columns c"
  shows "stored_intent sha q cmd d = Inr i \<longleftrightarrow> stored_intent sha q cmd c = Inr i"
proof -
  have "attempt_error d = attempt_error c" "plan_agrees d = plan_agrees c"
    by (rule attempt_error_cong plan_agrees_cong; use assms in \<open>simp add: intent_columns_def\<close>)+
  moreover have "intent_source sha q cmd d = intent_source sha q cmd c"
    by (rule intent_source_cong) (use assms in \<open>simp_all add: intent_columns_def\<close>)
  moreover have "cc_resume_status d = cc_resume_status c" "cc_attempt d = cc_attempt c"
    using assms by (simp_all add: intent_columns_def)
  ultimately show ?thesis
    unfolding stored_intent_iff by simp
qed

lemma kept_pause_columns: "intent_columns d = intent_columns c \<Longrightarrow> kept_pause d = kept_pause c"
  by (simp add: intent_columns_def kept_pause_def)

text \<open>A write that leaves them alone is not seen by the interaction.\<close>

lemma read_same_head:
  assumes "stored_as sha q db sn" and "claims db' = claims db" and "pauses_kept db db'"
    and "\<And>i. intent (sn_state sn) = Some i \<Longrightarrow> head_intent sha q (Some (ri_command_id i)) db (Some i)
      \<Longrightarrow> head_intent sha q (Some (ri_command_id i)) db' (Some i)"
  shows "stored_as sha q db' sn"
proof -
  from assms(1) obtain c gs where read: "run_row q db = Inr (c, gs)" "read_snapshot sha q c gs db = Inr sn"
    unfolding stored_as_def read_interaction_Inr by blast
  note head = head_facts [OF read(2)]
  have "run_row q db' = Inr (c, gs)"
    using read(1) assms(2) by (simp add: run_row_Inr)
  moreover have "head_intent sha q (map_option ri_command_id (intent (sn_state sn))) db' (intent (sn_state sn))"
    using head(5) assms(4) by (cases "intent (sn_state sn)") simp_all
  then have "read_snapshot sha q c gs db' = Inr sn"
    using read(2) head(4) unfolding read_snapshot_Inr by auto
  moreover have "round_kept q sn db'"
    by (rule round_kept_frame [OF _ assms(3)]) (use assms(1) in \<open>auto simp: stored_as_def\<close>)
  ultimately show ?thesis
    unfolding stored_as_def read_interaction_Inr by blast
qed

lemma bystander_update:
  assumes u: "update_command (rq_run_id q) cmd f db = Inr (u, db')" and st: "stored_as sha q db sn"
    and cols: "\<And>c. intent_columns (f c) = intent_columns c"
    and check: "\<And>c. command_ok (f c) \<Longrightarrow> command_row_check c = None \<Longrightarrow> command_row_check (f c) = None"
  shows "stored_as sha q db' sn"
proof (rule read_same_head [OF st update_command_claims [OF u]])
  have "cc_pause_ref (f c) = cc_pause_ref c \<and> cc_snapshot (f c) = cc_snapshot c \<and> cc_collection (f c) = cc_collection c" for c
    using cols [of c] by (simp add: intent_columns_def)
  then show "pauses_kept db db'"
    by (rule pauses_kept_update [OF u])
next
  fix i
  assume h: "head_intent sha q (Some (ri_command_id i)) db (Some i)"
  then obtain c where c: "map_of (commands db) (rq_run_id q, ri_command_id i) = Some c" "command_row_check c = None"
      "stored_intent sha q (ri_command_id i) c = Inr i"
    by (auto simp: head_intent_Some)
  show "head_intent sha q (Some (ri_command_id i)) db' (Some i)"
  proof (cases "ri_command_id i = cmd")
    case True
    then show ?thesis
      using update_command_row [OF u, of c] c check [of c] stored_intent_columns [OF cols] by (simp add: head_intent_Some)
  next
    case False
    then have "map_of (commands db') (rq_run_id q, ri_command_id i) = map_of (commands db) (rq_run_id q, ri_command_id i)"
      using update_command_effect [OF u] by auto
    then show ?thesis
      using h by (simp add: head_intent_Some)
  qed
qed

lemma insert_observation_effect:
  "insert_observation k r db = Inr (u, db') \<Longrightarrow> claims db' = claims db \<and> commands db' = commands db"
  by (auto simp: insert_observation_def split: if_splits)

lemma stored_as_commands:
  "stored_as sha q db sn \<Longrightarrow> claims db' = claims db \<Longrightarrow> commands db' = commands db \<Longrightarrow> stored_as sha q db' sn"
  by (rule read_same_head) (simp_all add: head_intent_Some)

lemma unsettled_resuming:
  assumes "interaction_state_ok s" and "intent s = Some i" and "ri_status i \<notin> {Reconciled, TerminalIntent}"
  shows "phase s = PhaseResuming"
proof (rule ccontr)
  assume "phase s \<noteq> PhaseResuming"
  with ok_intent_facts(4) [OF assms(1,2)] assms(3) show False
    by (auto simp: settled_check_iff split: if_splits)
qed

lemma observed_state_ok:
  assumes "interaction_state_ok s" and "intent s = Some i" and "ri_status i \<in> {DispatchStarted, NativeObserved, UnknownStatus}"
    and "st \<in> {NativeObserved, UnknownStatus}" and "0 \<le> n"
  shows "interaction_state_ok (s\<lparr>intent := Some (i\<lparr>ri_status := st\<rparr>), interaction_revision := interaction_revision s + n\<rparr>)"
proof -
  have p: "phase s = PhaseResuming"
    by (rule unsettled_resuming [OF assms(1,2)]) (use assms(3) in auto)
  have "resuming_check (s\<lparr>intent := Some (i\<lparr>ri_status := st\<rparr>), interaction_revision := interaction_revision s + n\<rparr>) = None"
    using ok_facts(10) [OF assms(1) p] assms(2,4,5) unfolding resuming_check_iff by fastforce
  moreover have "resume_intent_ok (i\<lparr>ri_status := st\<rparr>)"
    using ok_intent [OF assms(1,2)] assms(3,4) by (auto simp: resume_intent_ok_iff)
  ultimately show ?thesis
    using assms(1,2,5) p ok_intent_facts [OF assms(1,2)] by (simp add: interaction_state_ok_iff)
qed

lemma observe_resume_refines:
  assumes run: "observe_resume us (rq_run_id q) cmd row digest db = Inr (u, db')" and st: "stored_as sha q db sn"
    and row: "map_of (commands db) (rq_run_id q, cmd) = Some row"
  shows "\<exists>sn'. stored_as sha q db' sn' \<and> (sn' = sn \<or> interaction_step (sn_state sn) (sn_state sn'))"
proof -
  let ?f = "\<lambda>c. (set_status us ''native_observed'' c)\<lparr>cc_observation := Some digest\<rparr>"
  from run have status: "cc_resume_status row \<in> {Some ''dispatch_started'', Some ''unknown'', Some ''native_observed''}"
    and u: "update_command (rq_run_id q) cmd ?f db = Inr ((), db')"
    by (auto simp: observe_resume_def split: if_splits)
  from st obtain c gs where read: "run_row q db = Inr (c, gs)" "read_snapshot sha q c gs db = Inr sn"
    unfolding stored_as_def read_interaction_Inr by blast
  note head = head_facts [OF read(2)]
  have kept: "pauses_kept db db'"
    by (rule pauses_kept_update [OF u]) (simp add: set_status_def)
  show ?thesis
  proof (cases "\<exists>i. intent (sn_state sn) = Some i \<and> ri_command_id i = cmd")
    case False
    have "stored_as sha q db' sn"
    proof (rule read_same_head [OF st update_command_claims [OF u] kept])
      fix i
      assume i: "intent (sn_state sn) = Some i" and h: "head_intent sha q (Some (ri_command_id i)) db (Some i)"
      have "map_of (commands db') (rq_run_id q, ri_command_id i) = map_of (commands db) (rq_run_id q, ri_command_id i)"
        using update_command_effect [OF u] False i by auto
      then show "head_intent sha q (Some (ri_command_id i)) db' (Some i)"
        using h by (simp add: head_intent_Some)
    qed
    then show ?thesis by blast
  next
    case True
    then obtain i where i: "intent (sn_state sn) = Some i" and cmd: "ri_command_id i = cmd"
      by blast
    note stored = head_row [OF read(2) i row [folded cmd]]
    have old: "ri_status i \<in> {DispatchStarted, NativeObserved, UnknownStatus}"
      using status stored(1) unfolding stored_intent_iff status_of_value by (cases "ri_status i") auto
    let ?i = "i\<lparr>ri_status := NativeObserved\<rparr>" and ?s = "(sn_state sn)\<lparr>intent := Some (i\<lparr>ri_status := NativeObserved\<rparr>)\<rparr>"
    have resuming: "phase (sn_state sn) = PhaseResuming"
      by (rule unsettled_resuming [OF head(1) i]) (use old in auto)
    have ok: "interaction_state_ok ?s"
      using observed_state_ok [OF head(1) i old, of NativeObserved 0] by simp
    have "resume_intent_check ?i = None"
      using ok_intent [OF ok, of ?i] by (simp add: resume_intent_ok_def)
    then have "stored_intent sha q cmd (set_status us ''native_observed'' row) = Inr ?i"
      by (rule stored_intent_status [OF stored(1) [unfolded cmd]]) (simp add: set_status_def)
    moreover have "intent_columns (?f row) = intent_columns (set_status us ''native_observed'' row)"
      by (simp add: intent_columns_def)
    ultimately have "stored_intent sha q cmd (?f row) = Inr ?i"
      using stored_intent_columns by blast
    moreover have "command_row_check (?f row) = None"
      using stored(2) by (simp add: command_row_check_def set_status_def intent_statuses_def)
    ultimately have "head_intent sha q (Some cmd) db' (Some ?i)"
      using update_command_row [OF u row] by (simp add: head_intent_Some)
    then have "read_interaction sha q db' = Inr (Some (sn\<lparr>sn_state := ?s\<rparr>))"
      using command_only_read [OF read, of db' ?i] update_command_claims [OF u] head(4) i cmd ok by simp
    moreover have "round_kept q (sn\<lparr>sn_state := ?s\<rparr>) db'"
      by (rule round_kept_frame [of q sn db]) (use st i kept in \<open>simp_all add: stored_as_def\<close>)
    moreover have "interaction_step (sn_state sn) ?s"
      by (rule step_observed [OF resuming i old])
    ultimately show ?thesis
      unfolding stored_as_def by (intro exI [of _ "sn\<lparr>sn_state := ?s\<rparr>"]) simp
  qed
qed

lemma store_observation_effect:
  assumes "store_observation sha us q l c ob command db = Inr (stored, db')"
  obtains "db' = db"
  | db1 where "claims db1 = claims db" and "commands db1 = commands db" and "db' = db1"
  | db1 cmd row where "claims db1 = claims db" and "commands db1 = commands db" and "command = Some (cmd, row)"
      and "observe_resume us (rq_run_id q) cmd row (co_digest ob) db1 = Inr ((), db')"
      and "\<exists>v. decode_checkpoint_observation sha ob q = Inr v \<and> on_kind v = ''resume''"
proof -
  from assms obtain v where v: "decode_checkpoint_observation sha ob q = Inr v"
    by (auto simp: store_observation_def)
  show thesis
  proof (cases "map_of (observations db) (rq_run_id q, co_digest ob)")
    case (Some r)
    with assms v have "db' = db"
      by (auto simp: store_observation_def split: if_splits)
    then show thesis by (rule that(1))
  next
    case None
    with assms v obtain db1 r where ins: "insert_observation (rq_run_id q, co_digest ob) r db = Inr ((), db1)"
      and rest: "(case command of Some (cmd, row) \<Rightarrow>
             if (fenced c l \<and> lease_live_us us c) \<and> on_kind v = ''resume''
             then observe_resume us (rq_run_id q) cmd row (co_digest ob) db1 else Inr ((), db1)
           | None \<Rightarrow> Inr ((), db1)) = Inr ((), db')"
      by (auto simp: store_observation_def Let_def split: if_splits)
    note same = insert_observation_effect [OF ins]
    show thesis
    proof (cases "db' = db1")
      case True
      with same show thesis by (intro that(2) [of db1]) simp_all
    next
      case False
      with rest obtain cmd row where "command = Some (cmd, row)" "on_kind v = ''resume''"
        "observe_resume us (rq_run_id q) cmd row (co_digest ob) db1 = Inr ((), db')"
        by (auto split: option.splits if_splits)
      with same v show thesis by (intro that(3) [of db1 cmd row]) simp_all
    qed
  qed
qed

lemma store_observation_refines:
  assumes run: "store_observation sha us q l c ob command db = Inr (stored, db')" and st: "stored_as sha q db sn"
    and row: "\<And>cmd row. command = Some (cmd, row) \<Longrightarrow> map_of (commands db) (rq_run_id q, cmd) = Some row"
  shows "\<exists>sn'. stored_as sha q db' sn' \<and> (sn' = sn \<or> interaction_step (sn_state sn) (sn_state sn'))"
  using run
proof (cases rule: store_observation_effect)
  case 1
  with st show ?thesis by blast
next
  case (2 db1)
  with stored_as_commands [OF st] show ?thesis by blast
next
  case (3 db1 cmd r)
  show ?thesis
    by (rule observe_resume_refines [OF 3(4) stored_as_commands [OF st 3(1,2)]]) (use row [OF 3(3)] 3(2) in simp)
qed

lemma record_checkpoint_observation_refines:
  assumes "record_checkpoint_observation sha us q l ob db = Inr (stored, db')" and "stored_as sha q db sn"
  shows "\<exists>sn'. stored_as sha q db' sn' \<and> (sn' = sn \<or> interaction_step (sn_state sn) (sn_state sn'))"
proof -
  from assms(1) obtain c gs command where "store_observation sha us q l c ob command db = Inr (stored, db')"
    and "\<And>cmd row. command = Some (cmd, row) \<Longrightarrow> map_of (commands db) (rq_run_id q, cmd) = Some row"
    unfolding record_checkpoint_observation_def by (auto simp: stored_command_Inr split: option.splits)
  from store_observation_refines [OF this(1) assms(2) this(2)] show ?thesis .
qed

text \<open>Probes never move the interaction.\<close>

lemma reset_reconcile_probe_refines:
  assumes "reset_reconcile_probe us q l cmd attempt db = Inr (u, db')" and "stored_as sha q db sn"
  shows "stored_as sha q db' sn"
proof -
  from assms(1) have "update_command (rq_run_id q) cmd cleared_probe db = Inr (u, db')"
    by (auto simp: reset_reconcile_probe_def split: if_splits)
  then show ?thesis
    by (rule bystander_update [OF _ assms(2)])
      (auto simp: cleared_probe_def intent_columns_def command_row_check_def object_or_null_def)
qed

lemma probe_columns_check:
  assumes "command_ok (probe_columns us n p column c)" and "command_row_check c = None"
  shows "command_row_check (probe_columns us n p column c) = None"
proof -
  have "json_object column"
    using assms(1) by (simp add: command_ok_def command_probe_ok_def probe_columns_def)
  with assms(2) show ?thesis
    by (simp add: command_row_check_def probe_columns_def object_or_null_def)
qed

lemma record_reconcile_probe_Inr:
  assumes "record_reconcile_probe sha us us' us'' q l p db = Inr (res, db')"
  obtains v cmd c row sn stored db1 where "decode_checkpoint_observation sha (qp_observation p) q = Inr v"
    and "on_kind v = ''probe''" and "locked_command sha q cmd db = Inr (c, row, sn)"
    and "cc_resume_status row \<in> {Some ''dispatch_started'', Some ''unknown''}" and "active_authority us c l = None"
    and "store_observation sha us' q l c (qp_observation p) (Some (cmd, row)) db = Inr (stored, db1)"
    and "(if \<not> os_inserted stored
        then Inr (\<lparr>pr_count = cc_probe_count row, pr_exhausted = (cc_probe_count row = 3), pr_snapshot = sn\<rparr>, db1)
        else count_probe us'' q l cmd p c row sn db1) = Inr (res, db')"
proof -
  define rest where "rest cmd = bind_r (locked_command sha q cmd db) (\<lambda>(c, row, sn).
       if cc_resume_status row \<notin> {Some ''dispatch_started'', Some ''unknown''} \<or> cl_ia_command c \<noteq> Some cmd
       then Inl (InteractionConflict ''probe_not_unsettled'')
       else guard_r (active_authority us c l)
       (bind_r (store_observation sha us' q l c (qp_observation p) (Some (cmd, row)) db) (\<lambda>(stored, db).
        if \<not> os_inserted stored
        then Inr (\<lparr>pr_count = cc_probe_count row, pr_exhausted = (cc_probe_count row = 3), pr_snapshot = sn\<rparr>, db)
        else count_probe us'' q l cmd p c row sn db)))" for cmd
  from assms obtain v cmd where v: "decode_checkpoint_observation sha (qp_observation p) q = Inr v" "on_kind v = ''probe''"
    and r: "rest cmd = Inr (res, db')"
    unfolding record_reconcile_probe_def rest_def [symmetric] by (auto split: option.splits if_splits)
  from r obtain c row sn stored db1 where "locked_command sha q cmd db = Inr (c, row, sn)"
    "cc_resume_status row \<in> {Some ''dispatch_started'', Some ''unknown''}" "active_authority us c l = None"
    "store_observation sha us' q l c (qp_observation p) (Some (cmd, row)) db = Inr (stored, db1)"
    "(if \<not> os_inserted stored
        then Inr (\<lparr>pr_count = cc_probe_count row, pr_exhausted = (cc_probe_count row = 3), pr_snapshot = sn\<rparr>, db1)
        else count_probe us'' q l cmd p c row sn db1) = Inr (res, db')"
    unfolding rest_def by (auto split: if_splits)
  from that [OF v this] show thesis .
qed

lemma probe_observation_effect:
  assumes "store_observation sha us q l c ob command db = Inr (stored, db')"
    and "decode_checkpoint_observation sha ob q = Inr v" and "on_kind v = ''probe''"
  shows "claims db' = claims db \<and> commands db' = commands db"
  using assms(1) by (cases rule: store_observation_effect) (use assms(2,3) in auto)

lemma record_reconcile_probe_refines:
  assumes run: "record_reconcile_probe sha us us' us'' q l p db = Inr (res, db')" and st: "stored_as sha q db sn"
  shows "stored_as sha q db' sn"
proof (rule record_reconcile_probe_Inr [OF run])
  fix v cmd c row sn1 stored db1
  assume v: "decode_checkpoint_observation sha (qp_observation p) q = Inr v" "on_kind v = ''probe''"
    and o: "store_observation sha us' q l c (qp_observation p) (Some (cmd, row)) db = Inr (stored, db1)"
    and rest: "(if \<not> os_inserted stored
        then Inr (\<lparr>pr_count = cc_probe_count row, pr_exhausted = (cc_probe_count row = 3), pr_snapshot = sn1\<rparr>, db1)
        else count_probe us'' q l cmd p c row sn1 db1) = Inr (res, db')"
  have st1: "stored_as sha q db1 sn"
    using stored_as_commands [OF st] probe_observation_effect [OF o v] by blast
  show ?thesis
  proof (cases "os_inserted stored")
    case False
    with rest st1 show ?thesis by simp
  next
    case True
    with rest obtain n column where u: "update_command (rq_run_id q) cmd (probe_columns us'' n p column) db1 = Inr ((), db')"
      by (auto simp: count_probe_def Let_def)
    show ?thesis
      by (rule bystander_update [OF u st1]) (simp_all add: probe_columns_check, simp add: probe_columns_def intent_columns_def)
  qed
qed

section \<open>Settling\<close>

lemma settle_resume_Inr:
  assumes "settle_resume sha uuid us us' q l cmd c (s, ps, kind) db = Inr (res, db')" and "intent s = Some j"
  obtains db1 sn2 db2 where "update_command (rq_run_id q) cmd (set_status us (status_value (ri_status j))) db = Inr ((), db1)"
    and "write_head sha uuid us q (cl_index c) s ps True (Some kind) db1 = Inr (sn2, db2)"
    and "(if phase s = PhaseWaiting then release_lease (rq_run_id q) db2 else Inr ((), db2)) = Inr ((), db')"
    and "res = Committed sn2"
proof -
  have f: "(\<lambda>d. d\<lparr>cc_resume_status := map_option (status_value \<circ> ri_status) (intent s), cc_updated := to_ms us\<rparr>)
      = set_status us (status_value (ri_status j))"
    by (simp add: set_status_def assms(2) fun_eq_iff)
  show thesis
    using assms(1) that unfolding settle_resume_def prod.case f by (cases "phase s = PhaseWaiting") auto
qed

lemma settle_resume_refines:
  assumes run: "settle_resume sha uuid us us' q l (ri_command_id i) c (s, ps, kind) db = Inr (res, db')"
    and read: "run_row q db = Inr (c, gs)" "read_snapshot sha q c gs db = Inr sn" and live: "\<not> cl_terminal c"
    and st: "stored_as sha q db sn" and i: "intent (sn_state sn) = Some i" and s: "intent s = Some (i\<lparr>ri_status := status\<rparr>)"
    and ok: "interaction_state_ok s"
    and hd: "\<And>v. case ps of None \<Rightarrow> v = None | Some p \<Rightarrow> map_sum id Some (decode_pause_snapshot sha p) = Inr v \<Longrightarrow> head_of s ps v"
    and same: "phase s = PhaseResuming \<Longrightarrow> phase (sn_state sn) = PhaseResuming \<and> ps = sn_pause sn"
  shows "\<exists>sn'. stored_as sha q db' sn' \<and> sn_state sn' = s \<and> result_snapshot res = sn'"
proof (rule settle_resume_Inr [OF run s])
  fix db1 sn2 db2
  assume u: "update_command (rq_run_id q) (ri_command_id i) (set_status us (status_value (ri_status (i\<lparr>ri_status := status\<rparr>)))) db
      = Inr ((), db1)"
    and w: "write_head sha uuid us q (cl_index c) s ps True (Some kind) db1 = Inr (sn2, db2)"
    and r: "(if phase s = PhaseWaiting then release_lease (rq_run_id q) db2 else Inr ((), db2)) = Inr ((), db')"
    and res: "res = Committed sn2"
  note head = head_facts [OF read(2)]
  have "resume_intent_check (i\<lparr>ri_status := status\<rparr>) = None"
    using ok_intent [OF ok s] by (simp add: resume_intent_ok_def)
  then have h: "head_intent sha q (map_option ri_command_id (intent s)) db1 (intent s)"
    using set_status_head [where sha = sha and q = q and i = i and db = db and st = status and db' = db1] head(5) i u s by simp
  note fits = read_run_fits [OF read(1)]
  have "interaction_state_check s = None"
    using ok by (simp add: interaction_state_ok_def)
  with fits live have read2: "read_interaction sha q db2 = Inr (Some sn2)" and only: "results_only db1 db2"
    using write_head_reads [OF w _ _ _ _ hd h, of c] update_command_claims [OF u] by simp_all
  have sn2: "sn_state sn2 = s" "sn_pause sn2 = ps"
    by (rule write_head_Inr [OF w], simp)+
  have "pauses_kept db db1"
    by (rule pauses_kept_update [OF u]) (simp add: set_status_def)
  then have kept: "pauses_kept db db2"
    using pauses_kept_results [OF only] by (rule pauses_kept_trans)
  have "round_kept q sn2 db2"
    by (rule round_kept_frame [OF _ kept, of q sn]) (use st sn2 same i s in \<open>auto simp: stored_as_def\<close>)
  with read2 have "stored_as sha q db2 sn2"
    by (simp add: stored_as_def)
  then have "stored_as sha q db' sn2"
    using r release_lease_keeps by (auto split: if_splits)
  with sn2 res show ?thesis by auto
qed


section \<open>Reconciling\<close>

lemma reported_ok:
  assumes "unknown_outcome sn i = Inr (s, ps, kind)" and ok: "interaction_state_ok (sn_state sn)" and i: "intent (sn_state sn) = Some i"
    and st: "ri_status i \<in> {DispatchStarted, UnknownStatus}"
  shows "s = (sn_state sn)\<lparr>intent := Some (i\<lparr>ri_status := UnknownStatus\<rparr>),
      interaction_revision := interaction_revision (sn_state sn) + 1\<rparr>" and "ps = sn_pause sn"
    and "interaction_state_ok s" and "interaction_step (sn_state sn) s"
proof -
  show s: "s = (sn_state sn)\<lparr>intent := Some (i\<lparr>ri_status := UnknownStatus\<rparr>),
      interaction_revision := interaction_revision (sn_state sn) + 1\<rparr>" and "ps = sn_pause sn"
    using assms(1) by (auto simp: unknown_outcome_def)
  show "interaction_state_ok s"
    unfolding s by (rule observed_state_ok [OF ok i]) (use st in auto)
  have "phase (sn_state sn) = PhaseResuming"
    by (rule unsettled_resuming [OF ok i]) (use st in auto)
  then show "interaction_step (sn_state sn) s"
    unfolding s using i st by (rule step_reported)
qed

lemma consumed_ok:
  assumes "active_outcome sn i v = Inr (s, ps, kind)" and ok: "interaction_state_ok (sn_state sn)" and i: "intent (sn_state sn) = Some i"
    and st: "ri_status i = NativeObserved"
  shows "s = (sn_state sn)\<lparr>phase := PhaseActive, groups := [], intent := Some (i\<lparr>ri_status := Reconciled\<rparr>),
      interaction_revision := interaction_revision (sn_state sn) + 1\<rparr>" and "ps = sn_pause sn"
    and "interaction_state_ok s" and "interaction_step (sn_state sn) s"
proof -
  from assms(1) have s: "s = (sn_state sn)\<lparr>phase := PhaseActive, groups := [], intent := Some (i\<lparr>ri_status := Reconciled\<rparr>),
      interaction_revision := interaction_revision (sn_state sn) + 1\<rparr>" and "ps = sn_pause sn"
    and check: "resume_intent_check (i\<lparr>ri_status := Reconciled\<rparr>) = None" "interaction_state_check s = None"
    by (auto simp: active_outcome_def split: if_splits)
  then show "s = (sn_state sn)\<lparr>phase := PhaseActive, groups := [], intent := Some (i\<lparr>ri_status := Reconciled\<rparr>),
      interaction_revision := interaction_revision (sn_state sn) + 1\<rparr>" and "ps = sn_pause sn"
    by simp_all
  have "resume_intent_ok (i\<lparr>ri_status := Reconciled\<rparr>)"
    using check(1) ok_intent_groups [OF ok i] by (simp add: resume_intent_ok_def)
  with check(2) show "interaction_state_ok s"
    by (simp add: interaction_state_ok_def s)
  have "phase (sn_state sn) = PhaseResuming"
    by (rule unsettled_resuming [OF ok i]) (use st in auto)
  then show "interaction_step (sn_state sn) s"
    unfolding s using i st by (rule step_consumed)
qed

definition evidence_ok :: "resume_evidence \<Rightarrow> bool" where
  "evidence_ok ev \<longleftrightarrow> (case ev_outcome ev of ConsumedPause _ (Some p) \<Rightarrow> pause_snapshot_check p = None | _ \<Rightarrow> True)"

text \<open>The three ways a reconciliation goes on after its checks.\<close>

lemma reconcile_resume_Inr:
  assumes "reconcile_resume sha uuid us us' q l ev db = Inr (res, db')"
  obtains c row sn i where "locked_command sha q (ev_command ev) db = Inr (c, row, sn)"
      and "stored_intent sha q (ev_command ev) row = Inr i" and "db' = db" and "result_snapshot res = sn"
  | c row sn i s ps kind where "locked_command sha q (ev_command ev) db = Inr (c, row, sn)"
      and "stored_intent sha q (ev_command ev) row = Inr i" and "\<not> cl_terminal c" and "cl_ia_command c = Some (ev_command ev)"
      and "ri_status i \<in> {DispatchStarted, UnknownStatus} \<and> unknown_outcome sn i = Inr (s, ps, kind)
        \<or> ri_status i = NativeObserved \<and> (\<exists>v. active_outcome sn i v = Inr (s, ps, kind))
        \<or> ri_status i = NativeObserved \<and> (\<exists>v p d. ev_outcome ev = ConsumedPause d (Some p) \<and> waiting_outcome sha sn v p = Inr (s, ps, kind))"
      and "settle_resume sha uuid us us' q l (ev_command ev) c (s, ps, kind) db = Inr (res, db')"
proof -
  from assms obtain c row sn where l: "locked_command sha q (ev_command ev) db = Inr (c, row, sn)"
    by (auto simp: reconcile_resume_def)
  with assms obtain i where i: "stored_intent sha q (ev_command ev) row = Inr i"
    by (auto simp: reconcile_resume_def)
  show thesis
  proof (cases "cl_terminal c \<or> ri_status i \<in> {Reconciled, TerminalIntent}")
    case True
    with assms l i have "db' = db \<and> result_snapshot res = sn"
      by (auto simp: reconcile_resume_def split: if_splits)
    with l i show thesis by (intro that(1)) simp_all
  next
    case False
    with assms l i obtain seen where cmd: "cl_ia_command c = Some (ev_command ev)"
      and rest: "(case ev_outcome ev of
          UnknownResume \<Rightarrow>
            if ri_status i \<notin> {DispatchStarted, UnknownStatus} then Inl (InteractionConflict ''not_dispatched'')
            else if cc_result row = Some ''unknown'' then Inr (Replayed sn (Some i) (cc_accepted_source row), db)
            else bind_r (unknown_outcome sn i) (\<lambda>outcome. settle_resume sha uuid us us' q l (ev_command ev) c outcome db)
        | ConsumedPause disposition next_pause \<Rightarrow>
            bind_r (consumed_outcome sha sn i (last_positive seen) disposition next_pause)
              (\<lambda>outcome. settle_resume sha uuid us us' q l (ev_command ev) c outcome db)) = Inr (res, db')"
      by (auto simp: reconcile_resume_def split: if_splits)
    show thesis
    proof (cases "ev_outcome ev")
      case UnknownResume
      show thesis
      proof (cases "cc_result row = Some ''unknown''")
        case True
        with rest UnknownResume have "db' = db \<and> result_snapshot res = sn"
          by (auto split: if_splits)
        with l i show thesis by (intro that(1)) simp_all
      next
        case no: False
        with rest UnknownResume have "ri_status i \<in> {DispatchStarted, UnknownStatus}"
          "bind_r (unknown_outcome sn i) (\<lambda>outcome. settle_resume sha uuid us us' q l (ev_command ev) c outcome db) = Inr (res, db')"
          by (auto split: if_splits)
        then obtain s ps kind where "ri_status i \<in> {DispatchStarted, UnknownStatus}" "unknown_outcome sn i = Inr (s, ps, kind)"
          "settle_resume sha uuid us us' q l (ev_command ev) c (s, ps, kind) db = Inr (res, db')"
          by auto
        with False l i cmd show thesis by (intro that(2) [of c row sn i s ps kind]) blast+
      qed
    next
      case (ConsumedPause d next_pause)
      with rest obtain s ps kind where o: "consumed_outcome sha sn i (last_positive seen) d next_pause = Inr (s, ps, kind)"
        and settle: "settle_resume sha uuid us us' q l (ev_command ev) c (s, ps, kind) db = Inr (res, db')"
        by auto
      from o obtain v where "ri_status i = NativeObserved"
        "(case next_pause of Some p \<Rightarrow> waiting_outcome sha sn v p | None \<Rightarrow> active_outcome sn i v) = Inr (s, ps, kind)"
        by (auto simp: consumed_outcome_def split: option.splits if_splits)
      with False l i cmd settle ConsumedPause show thesis
        by (intro that(2) [of c row sn i s ps kind]) (auto split: option.splits)
    qed
  qed
qed


lemma reconcile_resume_refines:
  assumes run: "reconcile_resume sha uuid us us' q l ev db = Inr (res, db')" and st: "stored_as sha q db sn"
    and ev: "evidence_ok ev"
  shows "\<exists>sn'. stored_as sha q db' sn' \<and> (sn' = sn \<or> interaction_step (sn_state sn) (sn_state sn')) \<and> result_snapshot res = sn'"
  using run
proof (cases rule: reconcile_resume_Inr)
  case (1 c row sn1 i)
  then have "sn1 = sn"
    using locked_stored_as [OF st, of c sn1] by (simp add: locked_command_Inr)
  with 1 st show ?thesis by auto
next
  case (2 c row sn1 i s ps kind)
  from 2(1) obtain gs where read: "run_row q db = Inr (c, gs)" "read_snapshot sha q c gs db = Inr sn1"
    and row: "map_of (commands db) (rq_run_id q, ev_command ev) = Some row"
    by (auto simp: locked_command_Inr)
  then have sn: "sn1 = sn"
    using locked_stored_as [OF st] by blast
  note read = read [unfolded sn] and out = 2(5) [unfolded sn]
  note head = head_facts [OF read(2)]
  obtain j where j: "intent (sn_state sn) = Some j" "ri_command_id j = ev_command ev"
    using head(4) 2(4) by (cases "intent (sn_state sn)") auto
  have "j = i"
    using head_row(1) [OF read(2) j(1)] row 2(2) j(2) by simp
  note i = j [unfolded \<open>j = i\<close>]
  have live: "phase (sn_state sn) \<noteq> PhaseTerminal"
    using head(3) 2(3) by simp
  have hd: "head_of (sn_state sn) (sn_pause sn) v"
    if "case sn_pause sn of None \<Rightarrow> v = None | Some p \<Rightarrow> map_sum id Some (decode_pause_snapshot sha p) = Inr v" for v
    using head_of_read [OF read(2) that] .
  have "\<exists>status. intent s = Some (i\<lparr>ri_status := status\<rparr>) \<and> interaction_state_ok s \<and> interaction_step (sn_state sn) s
    \<and> (\<forall>v. (case ps of None \<Rightarrow> v = None | Some p \<Rightarrow> map_sum id Some (decode_pause_snapshot sha p) = Inr v) \<longrightarrow> head_of s ps v)
    \<and> (phase s = PhaseResuming \<longrightarrow> phase (sn_state sn) = PhaseResuming \<and> ps = sn_pause sn)"
    using out
  proof (elim disjE exE conjE)
    assume u: "ri_status i \<in> {DispatchStarted, UnknownStatus}" "unknown_outcome sn i = Inr (s, ps, kind)"
    note r = reported_ok [OF u(2) head(1) i(1) u(1)]
    show ?thesis
      using r i(1) hd head_of_same_pause [of "sn_state sn" "sn_pause sn" _ s]
      by (intro exI [of _ UnknownStatus]) simp
  next
    fix v
    assume a: "ri_status i = NativeObserved" "active_outcome sn i v = Inr (s, ps, kind)"
    note r = consumed_ok [OF a(2) head(1) i(1) a(1)]
    show ?thesis
      using r i(1) hd head_of_same_pause [of "sn_state sn" "sn_pause sn" _ s]
      by (intro exI [of _ Reconciled]) simp
  next
    fix v p d
    assume w: "ev_outcome ev = ConsumedPause d (Some p)" "waiting_outcome sha sn v p = Inr (s, ps, kind)"
    then obtain x gs where x: "decode_pause_snapshot sha p = Inr x" "groups_of x = Inr gs"
      and p: "pause (sn_state sn) (ps_ref p) gs = Inr s" and ps: "ps = Some p"
      by (auto simp: waiting_outcome_def split: option.splits if_splits)
    note shape = pause_shape [OF head(1) live groups_of_ok [OF x(2)] p]
    have "pause_snapshot_check p = None"
      using ev w(1) by (simp add: evidence_ok_def)
    then have "head_of s ps (Some x)"
      using shape x(2) ps by (simp add: head_of_def)
    then show ?thesis
      using shape i(1) ps x step_pause [OF groups_of_ok [OF x(2)] p] by (intro exI [of _ Reconciled]) simp
  qed
  then obtain status where s: "intent s = Some (i\<lparr>ri_status := status\<rparr>)" "interaction_state_ok s" "interaction_step (sn_state sn) s"
    and hd': "\<And>v. case ps of None \<Rightarrow> v = None | Some p \<Rightarrow> map_sum id Some (decode_pause_snapshot sha p) = Inr v \<Longrightarrow> head_of s ps v"
    and same: "phase s = PhaseResuming \<Longrightarrow> phase (sn_state sn) = PhaseResuming \<and> ps = sn_pause sn"
    by blast
  from settle_resume_refines [OF 2(6) [folded i(2)] read 2(3) st i(1) s(1,2) hd' same] s(3) show ?thesis
    by blast
qed

section \<open>The end of the run\<close>

lemma settle_commands_head:
  assumes "head_intent sha q (Some (ri_command_id i)) db (Some i)"
  shows "head_intent sha q (Some (ri_command_id i)) (settle_commands us (rq_run_id q) db) (Some (i\<lparr>ri_status := TerminalIntent\<rparr>))"
proof -
  from assms obtain c where c: "map_of (commands db) (rq_run_id q, ri_command_id i) = Some c" "command_row_check c = None"
    "stored_intent sha q (ri_command_id i) c = Inr i"
    by (auto simp: head_intent_Some)
  have some: "cc_resume_status c \<noteq> None"
    using c(3) by (auto simp: stored_intent_iff)
  have ok: "resume_intent_check (i\<lparr>ri_status := TerminalIntent\<rparr>) = None"
    using terminal_intent_ok [OF stored_intent_ok [OF c(3)]] by (simp add: resume_intent_ok_def)
  let ?d = "if cc_resume_status c = Some ''terminal'' then c else set_status us ''terminal'' c"
  have "map_of (commands (settle_commands us (rq_run_id q) db)) (rq_run_id q, ri_command_id i) = Some ?d"
    using c(1) some by (simp add: settle_commands_def)
  moreover have "command_row_check ?d = None"
    using c(2) by (simp add: command_row_check_def set_status_def intent_statuses_def)
  moreover have "stored_intent sha q (ri_command_id i) ?d = Inr (i\<lparr>ri_status := TerminalIntent\<rparr>)"
  proof (cases "cc_resume_status c = Some ''terminal''")
    case True
    then have "ri_status i = TerminalIntent"
      using c(3) by (auto simp: stored_intent_iff intent_status_of_def)
    then have "i\<lparr>ri_status := TerminalIntent\<rparr> = i"
      by (cases i) simp
    with True c(3) show ?thesis by simp
  next
    case False
    then show ?thesis
      using stored_intent_status [OF c(3) ok, of "set_status us ''terminal'' c" "to_ms us"] by (simp add: set_status_def)
  qed
  ultimately show ?thesis
    by (simp add: head_intent_Some)
qed

lemma terminal_outcome:
  assumes ok: "interaction_state_ok s" and run: "terminal s = Inr t"
  shows "phase t = PhaseTerminal" and "interaction_state_ok t" and "pause_revision t = pause_revision s"
    and "pause_ref t = pause_ref s" and "intent t = map_option (\<lambda>i. i\<lparr>ri_status := TerminalIntent\<rparr>) (intent s)"
proof -
  show "interaction_state_ok t"
    by (rule terminal_keeps_ok [OF ok run])
  have "phase t = PhaseTerminal \<and> pause_revision t = pause_revision s \<and> pause_ref t = pause_ref s
      \<and> intent t = map_option (\<lambda>i. i\<lparr>ri_status := TerminalIntent\<rparr>) (intent s)"
  proof (cases "phase s = PhaseTerminal")
    case True
    have "map_option (\<lambda>i. i\<lparr>ri_status := TerminalIntent\<rparr>) (intent s) = intent s"
    proof (cases "intent s")
      case (Some i)
      then have "ri_status i = TerminalIntent"
        using ok_intent_facts(4) [OF ok Some] True by (simp add: settled_check_iff)
      with Some show ?thesis by (cases i) simp
    qed simp
    with True run show ?thesis by (simp add: terminal_def)
  next
    case False
    with run show ?thesis by (auto simp: terminal_eq [OF ok] terminal_form_def)
  qed
  then show "phase t = PhaseTerminal" "pause_revision t = pause_revision s" "pause_ref t = pause_ref s"
    "intent t = map_option (\<lambda>i. i\<lparr>ri_status := TerminalIntent\<rparr>) (intent s)"
    by simp_all
qed

lemma terminal_on_cursor_refines:
  assumes run: "terminal_on_cursor sha uuid us q c index visible db = Inr (n, db')"
    and c: "map_of (claims db) (rq_run_id q) = Some d" "run_fits q d"
      "\<And>gs. read_snapshot sha q c gs db = read_snapshot sha q d gs db" "run_row_groups c = run_row_groups d"
    and st: "stored_as sha q db sn"
  shows "\<exists>sn'. stored_as sha q db' sn' \<and> interaction_step (sn_state sn) (sn_state sn') \<and> phase (sn_state sn') = PhaseTerminal"
proof -
  from run obtain gs sn1 s sn2 k where gs: "run_row_groups d = Inr gs" and r: "read_snapshot sha q d gs db = Inr sn1"
    and s: "terminal (sn_state sn1) = Inr s"
    and w: "write_head sha uuid us q index s (sn_pause sn1) visible k (settle_commands us (rq_run_id q) db) = Inr (sn2, db')"
    by (auto simp: terminal_on_cursor_def c(3,4))
  have row: "run_row q db = Inr (d, gs)"
    using c(1,2) gs by (simp add: run_row_def run_fits_def)
  then have sn: "sn1 = sn"
    using locked_stored_as [OF st] r by blast
  note head = head_facts [OF r]
  note t = terminal_outcome [OF head(1) s]
  let ?db = "settle_commands us (rq_run_id q) db"
  have h: "head_intent sha q (map_option ri_command_id (intent s)) ?db (intent s)"
  proof (cases "intent (sn_state sn1)")
    case (Some i)
    then show ?thesis
      using settle_commands_head [of sha q i db us] head(5) t(5) by simp
  qed (simp add: t(5))
  have hd: "head_of s (sn_pause sn1) v"
    if "case sn_pause sn1 of None \<Rightarrow> v = None | Some p \<Rightarrow> map_sum id Some (decode_pause_snapshot sha p) = Inr v" for v
    by (rule head_of_same_pause [OF head_of_read [OF r that]]) (simp_all add: t)
  have "map_of (claims ?db) (rq_run_id q) = Some d"
    using c(1) by (simp add: settle_commands_def)
  then have "read_interaction sha q db' = Inr (Some sn2)"
    using write_head_reads(1) [OF w _ c(2) _ _ hd h] t(1,2) by (simp add: interaction_state_ok_def)
  moreover have "sn_state sn2 = s"
    by (rule write_head_Inr [OF w]) simp
  ultimately show ?thesis
    using t(1) step_terminal [OF s] sn by (intro exI [of _ sn2]) (simp add: stored_as_def round_kept_def)
qed

end
