(* ===== verification/Resume_Contracts.thy ===== *)
theory Resume_Contracts
  imports Resume_Settlement Run_System
begin

text \<open>
  What \<open>PostgresRunInteractions\<close> promises about one run, over any interleaving of its transactions:
  the stored rows follow the interaction machine, a pause is dispatched at most once, and a probe
  counter counts equal probes.
\<close>

section \<open>The operations\<close>

datatype resume_op =
    RecordPause int int lease_fence pause_snapshot
  | AcceptResume int int int string string
  | StartResume int lease_fence string dispatch_plan
  | MarkUnknown int lease_fence string string
  | RecordObservation int lease_fence checkpoint_observation
  | ReconcileResume int int lease_fence resume_evidence
  | ResetProbe int lease_fence string string
  | RecordProbe int int int lease_fence quiescent_probe

fun resume_effect :: "(string \<Rightarrow> string) \<Rightarrow> (string \<Rightarrow> string) \<Rightarrow> run_request \<Rightarrow> resume_op \<Rightarrow> db \<Rightarrow> db" where
  "resume_effect sha uuid q (RecordPause us us' l ps) = committed (record_pause sha uuid us us' q l ps)"
| "resume_effect sha uuid q (AcceptResume us us' ttl cmd owner) = committed (accept_resume sha uuid us us' ttl q cmd owner)"
| "resume_effect sha uuid q (StartResume us l cmd plan) = committed (start_resume sha us q l cmd plan)"
| "resume_effect sha uuid q (MarkUnknown us l cmd attempt) = committed (mark_resume_unknown sha us q l cmd attempt)"
| "resume_effect sha uuid q (RecordObservation us l ob) = committed (record_checkpoint_observation sha us q l ob)"
| "resume_effect sha uuid q (ReconcileResume us us' l ev) = committed (reconcile_resume sha uuid us us' q l ev)"
| "resume_effect sha uuid q (ResetProbe us l cmd attempt) = committed (reset_reconcile_probe us q l cmd attempt)"
| "resume_effect sha uuid q (RecordProbe us us' us'' l p) = committed (record_reconcile_probe sha us us' us'' q l p)"

text \<open>The arguments have passed their own constructors.\<close>

fun resume_op_ok :: "resume_op \<Rightarrow> bool" where
  "resume_op_ok (RecordPause us us' l ps) \<longleftrightarrow> pause_snapshot_check ps = None"
| "resume_op_ok (ReconcileResume us us' l ev) \<longleftrightarrow> evidence_ok ev"
| "resume_op_ok _ \<longleftrightarrow> True"

lemma committed_refines:
  assumes "\<And>res db'. t db = Inr (res, db') \<Longrightarrow> \<exists>sn'. stored_as sha q db' sn' \<and> (sn' = sn \<or> interaction_step (sn_state sn) (sn_state sn'))"
    and "stored_as sha q db sn"
  shows "\<exists>sn'. stored_as sha q (committed t db) sn' \<and> (sn' = sn \<or> interaction_step (sn_state sn) (sn_state sn'))"
  using assms by (cases "t db") (auto simp: committed_def)

lemma stored_interaction_step:
  assumes st: "stored_as sha q db sn" and ok: "resume_op_ok op"
  shows "\<exists>sn'. stored_as sha q (resume_effect sha uuid q op db) sn' \<and> (sn' = sn \<or> interaction_step (sn_state sn) (sn_state sn'))"
proof (cases op)
  case (RecordPause us us' l ps)
  with ok have "pause_snapshot_check ps = None" by simp
  with RecordPause show ?thesis
    using committed_refines [OF _ st, of "record_pause sha uuid us us' q l ps"] record_pause_refines [OF _ st] by fastforce
next
  case (AcceptResume us us' ttl cmd owner)
  then show ?thesis
    using committed_refines [OF _ st, of "accept_resume sha uuid us us' ttl q cmd owner"] accept_resume_refines [OF _ st] by fastforce
next
  case (StartResume us l cmd plan)
  then show ?thesis
    using committed_refines [OF _ st, of "start_resume sha us q l cmd plan"] start_resume_refines [OF _ st] by fastforce
next
  case (MarkUnknown us l cmd attempt)
  then show ?thesis
    using committed_refines [OF _ st, of "mark_resume_unknown sha us q l cmd attempt"] mark_resume_unknown_refines [OF _ st] by fastforce
next
  case (RecordObservation us l ob)
  then show ?thesis
    using committed_refines [OF _ st, of "record_checkpoint_observation sha us q l ob"] record_checkpoint_observation_refines [OF _ st]
    by fastforce
next
  case (ReconcileResume us us' l ev)
  with ok have "evidence_ok ev" by simp
  with ReconcileResume show ?thesis
    using committed_refines [OF _ st, of "reconcile_resume sha uuid us us' q l ev"] reconcile_resume_refines [OF _ st] by fastforce
next
  case (ResetProbe us l cmd attempt)
  then show ?thesis
    using committed_refines [OF _ st, of "reset_reconcile_probe us q l cmd attempt"] reset_reconcile_probe_refines [OF _ st] by fastforce
next
  case (RecordProbe us us' us'' l p)
  then show ?thesis
    using committed_refines [OF _ st, of "record_reconcile_probe sha us us' us'' q l p"] record_reconcile_probe_refines [OF _ st] by fastforce
qed

text \<open>C32: The stored interaction refines the domain's state machine: whatever transaction of the
  repository runs on a database whose rows decode to an interaction, the rows it leaves decode to the
  same snapshot or to one that is a transition of the machine away.\<close>

theorem stored_interaction_refines:
  assumes "stored_as sha q db sn" and "resume_op_ok op"
  shows "\<exists>sn'. stored_as sha q (resume_effect sha uuid q op db) sn' \<and> (sn' = sn \<or> interaction_step (sn_state sn) (sn_state sn'))"
  by (rule stored_interaction_step [OF assms])

lemma interaction_step_ok:
  assumes "interaction_step s t" and ok: "interaction_state_ok s"
  shows "interaction_state_ok t"
  using assms(1)
proof cases
  case (step_pause gs ref)
  then show ?thesis by (intro pause_keeps_ok [OF ok])
next
  case (step_accept sub)
  then show ?thesis by (intro accept_keeps_ok [OF ok])
next
  case (step_start c a)
  then show ?thesis by (intro start_keeps_ok [OF ok])
next
  case (step_unknown c)
  then show ?thesis by (intro unknown_keeps_ok [OF ok])
next
  case step_terminal
  then show ?thesis by (intro terminal_keeps_ok [OF ok])
next
  case (step_observed i)
  then show ?thesis
    using observed_state_ok [OF ok step_observed(3), of NativeObserved 0] by simp
next
  case (step_reported i)
  then show ?thesis
    using observed_state_ok [OF ok step_reported(3), of UnknownStatus 1] by auto
next
  case (step_consumed i)
  have "resume_intent_ok (i\<lparr>ri_status := Reconciled\<rparr>)"
    using ok_intent [OF ok step_consumed(3)] step_consumed(4) by (auto simp: resume_intent_ok_iff)
  then show ?thesis
    using ok ok_intent_facts [OF ok step_consumed(3)] step_consumed
    by (simp add: interaction_state_ok_iff settled_check_iff all_items_def)
qed

section \<open>One dispatch per pause\<close>

text \<open>How the attempt of an intent may change.\<close>

definition attempt_kept :: "interaction_state \<Rightarrow> interaction_state \<Rightarrow> bool" where
  "attempt_kept s t \<longleftrightarrow> pause_revision s \<le> pause_revision t
     \<and> (\<forall>i. intent s = Some i \<longrightarrow> (\<exists>j. intent t = Some j \<and> (ri_pause_revision i < ri_pause_revision j
          \<or> ri_pause_revision i = ri_pause_revision j \<and> (ri_attempt_id i = None \<or> ri_attempt_id i = ri_attempt_id j))))"

lemma attempt_kept_refl [simp]: "attempt_kept s s"
  by (simp add: attempt_kept_def)

lemma attempt_kept_progress: "interaction_progress s t \<Longrightarrow> attempt_kept s t"
  unfolding interaction_progress_def attempt_kept_def intent_succeeds_def by meson

lemma attempt_kept_step:
  assumes "interaction_step s t" and ok: "interaction_state_ok s"
  shows "attempt_kept s t"
  using assms(1)
proof cases
  case (step_pause gs ref)
  then show ?thesis by (intro attempt_kept_progress pause_progress [OF ok])
next
  case (step_accept sub)
  then show ?thesis by (intro attempt_kept_progress accept_progress [OF ok])
next
  case (step_start c a)
  then show ?thesis by (intro attempt_kept_progress start_progress [OF ok])
next
  case (step_unknown c)
  then show ?thesis by (intro attempt_kept_progress unknown_progress)
next
  case step_terminal
  then show ?thesis by (intro attempt_kept_progress terminal_progress [OF ok])
qed (simp_all add: attempt_kept_def)

text \<open>The pause revisions whose dispatch a sequence of transactions starts.\<close>

fun started_pause :: "(string \<Rightarrow> string) \<Rightarrow> run_request \<Rightarrow> resume_op \<Rightarrow> db \<Rightarrow> int list" where
  "started_pause sha q (StartResume us l cmd plan) db = (case start_resume sha us q l cmd plan db of
      Inr (StartedResume sn attempt, _) \<Rightarrow> [pause_revision (sn_state sn)] | _ \<Rightarrow> [])"
| "started_pause sha q _ db = []"

fun started_pauses :: "(string \<Rightarrow> string) \<Rightarrow> (string \<Rightarrow> string) \<Rightarrow> run_request \<Rightarrow> resume_op list \<Rightarrow> db \<Rightarrow> int list" where
  "started_pauses sha uuid q [] db = []"
| "started_pauses sha uuid q (op # ops) db =
     started_pause sha q op db @ started_pauses sha uuid q ops (resume_effect sha uuid q op db)"

lemma started_pause_fresh:
  assumes st: "stored_as sha q db sn" and r: "r \<in> set (started_pause sha q op db)"
  shows "started_pause sha q op db = [r]" and "\<exists>i. intent (sn_state sn) = Some i \<and> ri_pause_revision i = r \<and> ri_attempt_id i = None"
    and "\<exists>sn' i. stored_as sha q (resume_effect sha uuid q op db) sn' \<and> intent (sn_state sn') = Some i
      \<and> ri_pause_revision i = r \<and> ri_attempt_id i \<noteq> None"
proof -
  from r obtain us l cmd plan where op: "op = StartResume us l cmd plan"
    by (cases op) simp_all
  obtain sn' attempt db' where run: "start_resume sha us q l cmd plan db = Inr (StartedResume sn' attempt, db')"
    and rev: "r = pause_revision (sn_state sn')"
    using r by (cases "start_resume sha us q l cmd plan db") (auto simp: op split: resume_result.splits)
  show "started_pause sha q op db = [r]"
    using run rev op by simp
  from start_resume_refines [OF run st] have st': "stored_as sha q db' sn'"
    and step: "sn' = sn \<or> interaction_step (sn_state sn) (sn_state sn')"
    by auto
  obtain column v c row sn1 ps i original where l: "locked_command sha q cmd db = Inr (c, row, sn1)"
    and i1: "intent (sn_state sn1) = Some i" "ri_command_id i = cmd"
    and rest: "(if cc_resume_status row = Some ''dispatch_started'' \<and> cc_attempt row = Some (dpl_attempt plan)
          then bind_r (replays_attempt l plan row) (\<lambda>_. Inr (Replayed sn1 (Some i) (cc_accepted_source row), db))
          else bind_r (start (sn_state sn1) cmd (dpl_attempt plan)) (\<lambda>s.
            bind_r (update_command (rq_run_id q) cmd (started_columns us l plan column) db) (\<lambda>(_, db).
            Inr (StartedResume \<lparr>sn_state = s, sn_pause = Some ps, sn_source = sn_source sn1\<rparr> (dpl_attempt plan), db))))
        = Inr (StartedResume sn' attempt, db')"
    by (rule start_resume_Inr [OF run])
  from l obtain gs where read1: "run_row q db = Inr (c, gs)" "read_snapshot sha q c gs db = Inr sn1"
    and row: "map_of (commands db) (rq_run_id q, cmd) = Some row"
    by (auto simp: locked_command_Inr)
  then have "sn1 = sn"
    using locked_stored_as [OF st] by blast
  note read = read1 [unfolded \<open>sn1 = sn\<close>]
  have no: "\<not> (cc_resume_status row = Some ''dispatch_started'' \<and> cc_attempt row = Some (dpl_attempt plan))"
  proof
    assume "cc_resume_status row = Some ''dispatch_started'' \<and> cc_attempt row = Some (dpl_attempt plan)"
    with rest show False by simp
  qed
  with rest \<open>sn1 = sn\<close> obtain s where s: "start (sn_state sn) cmd (dpl_attempt plan) = Inr s" "sn_state sn' = s"
    by (auto simp del: de_Morgan_conj)
  note i = i1(1) [unfolded \<open>sn1 = sn\<close>] s i1(2)
  note ok = head_facts(1) [OF read(2)]
  have "stored_intent sha q cmd row = Inr i"
    using head_row(1) [OF read(2) i(1)] row i(4) by simp
  with no have "\<not> (ri_status i = DispatchStarted \<and> ri_attempt_id i = Some (dpl_attempt plan))"
    by (auto simp: stored_intent_iff status_of_value)
  with start_outcome [OF i(2,1)] have out: "phase (sn_state sn) = PhaseResuming" "ri_status i = Accepted"
    "s = (sn_state sn)\<lparr>intent := Some (i\<lparr>ri_status := DispatchStarted, ri_attempt_id := Some (dpl_attempt plan)\<rparr>)\<rparr>"
    by auto
  have "ri_pause_revision i = pause_revision (sn_state sn)"
    using ok_facts(10) [OF ok out(1)] i(1) by (simp add: resuming_check_iff)
  then have r: "ri_pause_revision i = r"
    using rev out(3) i(3) by simp
  have "ri_attempt_id i = None"
    using ok_intent [OF ok i(1)] out(2) by (simp add: resume_intent_ok_iff)
  with i(1) r show "\<exists>i. intent (sn_state sn) = Some i \<and> ri_pause_revision i = r \<and> ri_attempt_id i = None"
    by blast
  have "resume_effect sha uuid q op db = db'"
    using op run by simp
  with st' r out(3) i(3) show "\<exists>sn' i. stored_as sha q (resume_effect sha uuid q op db) sn' \<and> intent (sn_state sn') = Some i
      \<and> ri_pause_revision i = r \<and> ri_attempt_id i \<noteq> None"
    by (intro exI [of _ sn'] exI [of _ "i\<lparr>ri_status := DispatchStarted, ri_attempt_id := Some (dpl_attempt plan)\<rparr>"]) simp
qed

lemma stored_state_ok: "stored_as sha q db sn \<Longrightarrow> interaction_state_ok (sn_state sn)"
  by (auto simp: stored_as_def read_interaction_Inr intro: read_state_ok)

text \<open>Which pauses a state can still start: its own if that has no attempt yet, and later ones.\<close>

definition still_to_start :: "interaction_state \<Rightarrow> int \<Rightarrow> bool" where
  "still_to_start s r \<longleftrightarrow> (\<forall>i. intent s = Some i \<longrightarrow>
     (if ri_attempt_id i = None then ri_pause_revision i \<le> r else ri_pause_revision i < r))"

lemma still_to_start_back:
  assumes "attempt_kept s t" and "still_to_start t r"
  shows "still_to_start s r"
  unfolding still_to_start_def
proof (intro allI impI)
  fix i
  assume "intent s = Some i"
  with assms(1) obtain j where "intent t = Some j" "ri_pause_revision i < ri_pause_revision j
      \<or> ri_pause_revision i = ri_pause_revision j \<and> (ri_attempt_id i = None \<or> ri_attempt_id i = ri_attempt_id j)"
    unfolding attempt_kept_def by blast
  with assms(2) show "if ri_attempt_id i = None then ri_pause_revision i \<le> r else ri_pause_revision i < r"
    by (auto simp: still_to_start_def split: if_splits)
qed

lemma started_pauses_later:
  assumes "stored_as sha q db sn" and "list_all resume_op_ok ops"
  shows "list_all (still_to_start (sn_state sn)) (started_pauses sha uuid q ops db)
    \<and> sorted_wrt (<) (started_pauses sha uuid q ops db)"
  using assms
proof (induction ops arbitrary: db sn)
  case (Cons op ops)
  let ?db = "resume_effect sha uuid q op db"
  have ok: "resume_op_ok op" "list_all resume_op_ok ops"
    using Cons.prems(2) by simp_all
  from stored_interaction_step [OF Cons.prems(1) ok(1), of uuid] obtain sn' where sn': "stored_as sha q ?db sn'"
    and step: "sn' = sn \<or> interaction_step (sn_state sn) (sn_state sn')"
    by blast
  have kept: "attempt_kept (sn_state sn) (sn_state sn')"
    using step attempt_kept_step stored_state_ok [OF Cons.prems(1)] by auto
  have rest: "list_all (still_to_start (sn_state sn)) (started_pauses sha uuid q ops ?db)"
    "sorted_wrt (<) (started_pauses sha uuid q ops ?db)"
    using Cons.IH [OF sn' ok(2)] still_to_start_back [OF kept] by (auto simp: list_all_iff)
  show ?case
  proof (cases "started_pause sha q op db")
    case Nil
    with rest show ?thesis by simp
  next
    case (Cons r rs)
    then have r: "r \<in> set (started_pause sha q op db)"
      by simp
    note fresh = started_pause_fresh [OF Cons.prems(1) r]
    from fresh(2) have now: "still_to_start (sn_state sn) r"
      by (auto simp: still_to_start_def)
    from fresh(3) [of uuid] obtain sn2 i where sn2: "stored_as sha q ?db sn2" "intent (sn_state sn2) = Some i"
      "ri_pause_revision i = r" "ri_attempt_id i \<noteq> None"
      by blast
    have "list_all (\<lambda>r'. r < r') (started_pauses sha uuid q ops ?db)"
      using Cons.IH [OF sn2(1) ok(2)] sn2(2-4) by (auto simp: list_all_iff still_to_start_def)
    with now rest fresh(1) show ?thesis
      by (simp add: list_all_iff)
  qed
qed simp


section \<open>Probes\<close>

text \<open>The rows a sequence of probes leaves, each stored as \<open>count_probe\<close> stores it.\<close>

definition probed_row :: "int \<Rightarrow> quiescent_probe \<Rightarrow> command_row \<Rightarrow> command_row result" where
  "probed_row us p row = bind_r (canonical_interaction_bytes (enc_quiescence (qp_quiescence p))) (\<lambda>raw.
     bind_r (parsed_column raw) (\<lambda>column. Inr (probe_columns us (probe_count row p) p column row)))"

fun probed_rows :: "int \<Rightarrow> quiescent_probe list \<Rightarrow> command_row \<Rightarrow> command_row result" where
  "probed_rows us [] row = Inr row"
| "probed_rows us (p # ps) row = bind_r (probed_row us p row) (probed_rows us ps)"

lemma count_probe_row:
  assumes "count_probe us q l cmd p c row sn db = Inr (res, db')" and "map_of (commands db) (rq_run_id q, cmd) = Some row"
  shows "\<exists>row'. probed_row us p row = Inr row' \<and> map_of (commands db') (rq_run_id q, cmd) = Some row'
    \<and> pr_count res = cc_probe_count row' \<and> (pr_exhausted res \<longleftrightarrow> cc_probe_count row' = 3)"
proof -
  from assms(1) obtain raw column where raw: "canonical_interaction_bytes (enc_quiescence (qp_quiescence p)) = Inr raw"
      "parsed_column raw = Inr column"
    and u: "update_command (rq_run_id q) cmd (probe_columns us (probe_count row p) p column) db = Inr ((), db')"
    and res: "pr_count res = probe_count row p" "pr_exhausted res \<longleftrightarrow> probe_count row p = 3"
    by (auto simp: count_probe_def Let_def)
  then have "probed_row us p row = Inr (probe_columns us (probe_count row p) p column row)"
    by (simp add: probed_row_def)
  with update_command_row [OF u assms(2)] res show ?thesis
    by (auto simp: probe_columns_def)
qed

lemma quiescence_column:
  assumes "canonical_interaction_bytes (enc_quiescence a) = Inr raw" and "parsed_column raw = Inr column"
  shows "column = sort_json (enc_quiescence a)"
proof -
  have "decode_interaction_bytes raw = Inr (sort_json (enc_quiescence a))"
    by (rule decode_canonical [OF assms(1)]) (simp_all add: enc_quiescence_def)
  with assms(2) show ?thesis
    using decode_bytes_Inr(1) by fastforce
qed

lemma quiescence_column_eq: "py_eq (sort_json (enc_quiescence a)) (enc_quiescence b) \<longleftrightarrow> a = b"
proof -
  have "sort_json (enc_quiescence a) = JObj [(''invocation_id'', JStr (qs_invocation a)), (''kind'', JStr ''local_drained''),
      (''worker_boot_id'', JStr (qs_boot a))]"
    by (simp add: enc_quiescence_def sort_json_obj sorted_items_def)
  then show ?thesis
    by (cases a; cases b) (auto simp: enc_quiescence_def py_eq.simps same_keys_def)
qed

definition probe_key :: "quiescent_probe \<Rightarrow> string \<times> quiescence" where
  "probe_key p = (qp_progress p, qp_quiescence p)"

text \<open>What the row knows after some probes: the last one, and how many equal ones end the sequence.\<close>

definition counts_tail :: "quiescent_probe list \<Rightarrow> command_row \<Rightarrow> bool" where
  "counts_tail ps row \<longleftrightarrow> 0 \<le> cc_probe_count row \<and> cc_probe_count row \<le> 3
     \<and> (if ps = [] then cc_probe_progress row = None \<and> cc_probe_count row = 0
        else cc_probe_progress row = Some (qp_progress (last ps))
          \<and> cc_probe_quiescence row = Some (sort_json (enc_quiescence (qp_quiescence (last ps))))
          \<and> nat (cc_probe_count row) \<le> length ps
          \<and> (\<forall>p \<in> set (drop (length ps - nat (cc_probe_count row)) ps). probe_key p = probe_key (last ps)))"

lemma probe_count_cases:
  assumes "counts_tail ps row"
  shows "probe_count row p = (if ps = [] then 1 else if probe_key p = probe_key (last ps) then min 3 (cc_probe_count row + 1) else 0)"
  using assms quiescence_column_eq by (auto simp: counts_tail_def probe_count_def probe_key_def)

lemma counts_tail_step:
  assumes tail: "counts_tail ps row" and step: "probed_row us p row = Inr row'"
  shows "counts_tail (ps @ [p]) row'"
proof -
  from step obtain column where column: "column = sort_json (enc_quiescence (qp_quiescence p))"
    and row': "row' = probe_columns us (probe_count row p) p column row"
    by (auto simp: probed_row_def dest: quiescence_column)
  let ?n = "nat (cc_probe_count row)" and ?m = "nat (probe_count row p)"
  have n: "0 \<le> cc_probe_count row" "?n \<le> length ps" "ps = [] \<Longrightarrow> ?n = 0"
    using tail by (auto simp: counts_tail_def split: if_splits)
  have m: "0 \<le> probe_count row p" "probe_count row p \<le> 3" "?m \<le> Suc ?n"
    using n(1,3) by (auto simp: probe_count_cases [OF tail])
  have keys: "probe_key x = probe_key p" if x: "x \<in> set (drop (length (ps @ [p]) - ?m) (ps @ [p]))" for x
  proof (cases "ps = [] \<or> probe_key p \<noteq> probe_key (last ps)")
    case True
    then have "?m \<le> 1"
      by (auto simp: probe_count_cases [OF tail])
    with x show ?thesis by (cases "?m = 0") (auto simp: le_Suc_eq)
  next
    case False
    have "length ps - ?n \<le> length (ps @ [p]) - ?m"
      using m(3) n(2) by auto
    then have "set (drop (length (ps @ [p]) - ?m) ps) \<subseteq> set (drop (length ps - ?n) ps)"
      by (rule set_drop_subset_set_drop)
    moreover have "x = p \<or> x \<in> set (drop (length (ps @ [p]) - ?m) ps)"
      using x by (auto dest: in_set_dropD)
    ultimately show ?thesis
      using False tail by (auto simp: counts_tail_def)
  qed
  have "?m \<le> Suc (length ps)"
    using m(3) n(2) by simp
  with m(1,2) keys show ?thesis
    by (simp add: counts_tail_def row' column probe_columns_def)
qed

lemma counts_tail_rows:
  "probed_rows us ps row = Inr row' \<Longrightarrow> counts_tail qs row \<Longrightarrow> counts_tail (qs @ ps) row'"
proof (induction ps arbitrary: qs row)
  case (Cons p ps)
  then obtain row1 where "probed_row us p row = Inr row1" "probed_rows us ps row1 = Inr row'"
    by auto
  with Cons.IH [of row1 "qs @ [p]"] counts_tail_step [OF Cons.prems(2)] show ?case
    by simp
qed simp


section \<open>Concrete runs\<close>

text \<open>A claimed run has the initial interaction.\<close>

definition initial_snapshot :: interaction_snapshot where
  "initial_snapshot = \<lparr>sn_state = initial_interaction, sn_pause = None, sn_source = None\<rparr>"

lemma fresh_claim_stored:
  assumes "map_of (claims db) (rq_run_id q) = Some (request_claim q owner e)"
  shows "stored_as sha q db initial_snapshot"
proof -
  have "run_row q db = Inr (request_claim q owner e, [])"
    using assms by (simp add: run_row_Inr request_claim_def new_claim_def object_or_null_def)
  moreover have "interaction_state_check initial_interaction = None"
    using initial_interaction_ok by (simp add: interaction_state_ok_def)
  then have "read_snapshot sha q (request_claim q owner e) [] db = Inr initial_snapshot"
    by (simp add: read_snapshot_Inr head_pause_def request_claim_def new_claim_def initial_snapshot_def initial_interaction_def)
  ultimately have "read_interaction sha q db = Inr (Some initial_snapshot)"
    unfolding read_interaction_Inr by blast
  then show ?thesis
    by (simp add: stored_as_def round_kept_def initial_snapshot_def initial_interaction_def)
qed

lemma demo_claimed_stored: "stored_as sha demo_request demo_claimed initial_snapshot"
  by (rule fresh_claim_stored [of _ _ "''w1''" 102]) (simp add: demo_claims)

definition demo_resume_op :: resume_op where
  "demo_resume_op = MarkUnknown 5 (demo_lease 1) ''c1'' ''a1''"

theorem stored_interaction_refines_witness:
  "\<exists>sn. stored_as id demo_request (resume_effect id id demo_request demo_resume_op demo_claimed) sn
     \<and> (sn = initial_snapshot \<or> interaction_step initial_interaction (sn_state sn))"
  using stored_interaction_refines [OF demo_claimed_stored, of demo_resume_op id id]
  by (auto simp: demo_resume_op_def initial_snapshot_def)



definition demo_probe :: quiescent_probe where
  "demo_probe = \<lparr>qp_read_id = ''read1'', qp_observation = \<lparr>co_target = \<lparr>tg_generation = 1, tg_command = Some ''c1'',
     tg_attempt = Some ''a1''\<rparr>, co_kind = ''probe'', co_bytes = ''{}'', co_digest = ''d''\<rparr>, qp_progress = ''p'',
     qp_quiescence = \<lparr>qs_boot = ''b'', qs_invocation = ''i''\<rparr>\<rparr>"


end
