(* ===== verification/Model_Usage.thy ===== *)
theory Model_Usage
  imports Utc_Text Run_Store
begin

text \<open>
  The wire of model-usage evidence: \<open>src/kokoro_agent/protocol/model_usage_v2_generated.py\<close> and the
  historical \<open>model_usage_generated.py\<close>, which differs in the planned binding and the version. One record
  or datatype per class, its \<open>model_dump(mode="json")\<close> as \<open>enc_\<close>, its strict validation as \<open>dec_\<close>, the
  values it admits as \<open>_ok\<close>. Every value survives its canonical text, with the members in any order.
\<close>

named_theorems usage_codec \<open>reading what was printed\<close>
named_theorems usage_dest \<open>what a decoder has checked\<close>

section \<open>Fields\<close>

definition max_json_bytes :: nat where
  "max_json_bytes = 65536"

definition max_json_depth :: nat where
  "max_json_depth = 16"

definition as_checked :: "(string \<Rightarrow> bool) \<Rightarrow> json \<Rightarrow> string result" where
  "as_checked p j = bind_r (as_str j) (\<lambda>s. if p s then Inr s else invalid)"

definition or_null :: "('a \<Rightarrow> json) \<Rightarrow> 'a option \<Rightarrow> json" where
  "or_null e v = (case v of None \<Rightarrow> JNull | Some x \<Rightarrow> e x)"

text \<open>\<open>Opaque\<close>, \<open>Uuid\<close>, \<open>Count\<close>, \<open>Ordinal\<close> and \<open>UtcInstant\<close>; \<open>Digest\<close> is \<open>hex64\<close>.\<close>

definition opaque_ok :: "string \<Rightarrow> bool" where
  "opaque_ok s \<longleftrightarrow> s \<noteq> [] \<and> list_all (\<lambda>c. 32 \<le> (of_char c :: nat) \<and> of_char c \<noteq> (127 :: nat)) s \<and> utf8_length s \<le> 512"

definition uuid_template :: string where
  "uuid_template = ''xxxxxxxx-xxxx-xxxx-xxxx-xxxxxxxxxxxx''"

definition uuid_ok :: "string \<Rightarrow> bool" where
  "uuid_ok s \<longleftrightarrow> list_all2 (\<lambda>t c. if t = CHR ''x'' then List.member ''0123456789abcdef'' c else c = t) uuid_template s"

definition decimal_ok :: "string \<Rightarrow> bool" where
  "decimal_ok s \<longleftrightarrow> length s \<le> 19 \<and> list_all is_digit s \<and> undigits s \<le> 9223372036854775807"

definition ordinal_ok :: "string \<Rightarrow> bool" where
  "ordinal_ok s \<longleftrightarrow> s \<noteq> [] \<and> hd s \<noteq> CHR ''0'' \<and> decimal_ok s"

definition count_ok :: "string \<Rightarrow> bool" where
  "count_ok s \<longleftrightarrow> s = ''0'' \<or> ordinal_ok s"

definition instant_ok :: "string \<Rightarrow> bool" where
  "instant_ok s \<longleftrightarrow> utc_millis s \<noteq> None"

lemma as_checked_str [usage_codec]: "as_checked p (JStr s) = (if p s then Inr s else invalid)"
  by (simp add: as_checked_def)

lemma as_checked_ok [usage_dest]: "as_checked p j = Inr s \<Longrightarrow> p s"
  by (auto simp: as_checked_def invalid_def split: if_splits)

lemma as_literal_str [usage_codec]: "as_literal vs (JStr s) = (if List.member vs s then Inr s else invalid)"
  by (simp add: as_literal_def)

lemma as_literal_ok [usage_dest]: "as_literal vs j = Inr s \<Longrightarrow> s \<in> set vs"
  by (auto simp: as_literal_def invalid_def split: if_splits)

lemma required_ok [usage_dest]: "required f k kvs = Inr x \<Longrightarrow> \<exists>j. map_of kvs k = Some j \<and> f j = Inr x"
  by (auto simp: required_def invalid_def split: option.splits)

lemma nullable_ok [usage_dest]:
  "nullable f k kvs = Inr v \<Longrightarrow> \<exists>j. map_of kvs k = Some j
     \<and> (v = None \<and> j = JNull \<or> (\<exists>x. v = Some x \<and> j \<noteq> JNull \<and> f j = Inr x))"
  by (auto simp: nullable_def optional_def invalid_def split: option.splits if_splits)

lemma strict_ok [usage_dest]:
  "strict_fields ks j = Inr kvs \<Longrightarrow> j = JObj kvs \<and> list_all (\<lambda>(k, v). List.member ks k) kvs"
  by (auto simp: strict_fields_def invalid_def split: json.splits if_splits)

lemma or_null_plain [usage_codec]:
  "integral (or_null e v) \<longleftrightarrow> (case v of None \<Rightarrow> True | Some x \<Rightarrow> integral (e x))"
  "readable (or_null e v) \<longleftrightarrow> (case v of None \<Rightarrow> True | Some x \<Rightarrow> readable (e x))"
  "or_null e v = JNull \<longleftrightarrow> (case v of None \<Rightarrow> True | Some x \<Rightarrow> e x = JNull)"
  "sort_json (or_null e v) = or_null (sort_json \<circ> e) v"
  by (auto simp: or_null_def split: option.split)

lemma enc_list_plain [usage_codec]:
  "integral (enc_list e xs) \<longleftrightarrow> list_all (\<lambda>x. integral (e x)) xs"
  "readable (enc_list e xs) \<longleftrightarrow> list_all (\<lambda>x. readable (e x)) xs"
  by (simp_all add: enc_list_def list.pred_map comp_def)

lemmas usage_sorted [usage_codec] = sorted_fields sort_enc_list as_list_enc_list

section \<open>Identities\<close>

record usage_ref =
  ur_kind :: string
  ur_opaque_ref :: string

definition enc_usage_ref :: "usage_ref \<Rightarrow> json" where
  "enc_usage_ref p = JObj
     [(''kind'', JStr (ur_kind p)),
      (''opaque_ref'', JStr (ur_opaque_ref p))]"

definition dec_usage_ref :: "json \<Rightarrow> usage_ref result" where
  "dec_usage_ref j = bind_r (strict_fields [''kind'', ''opaque_ref''] j) (\<lambda>kvs.
     bind_r (required (as_literal [''user'', ''project'', ''service'']) ''kind'' kvs) (\<lambda>v_kind.
     bind_r (required (as_checked opaque_ok) ''opaque_ref'' kvs) (\<lambda>v_opaque_ref.
     Inr \<lparr>ur_kind = v_kind, ur_opaque_ref = v_opaque_ref\<rparr>)))"

definition usage_ref_ok :: "usage_ref \<Rightarrow> bool" where
  "usage_ref_ok p \<longleftrightarrow> (ur_kind p) \<in> set [''user'', ''project'', ''service'']
     \<and> opaque_ok (ur_opaque_ref p)"

lemma usage_ref_sorted [usage_codec]: "usage_ref_ok p \<Longrightarrow> dec_usage_ref (sort_json (enc_usage_ref p)) = Inr p"
  by (cases p) (auto simp: enc_usage_ref_def dec_usage_ref_def usage_ref_ok_def or_null_def usage_codec split: option.splits)

lemma usage_ref_plain [usage_codec]: "integral (enc_usage_ref p) \<and> readable (enc_usage_ref p) \<and> enc_usage_ref p \<noteq> JNull"
  by (simp add: enc_usage_ref_def usage_codec split: option.split)

lemma usage_ref_dec_ok [usage_dest]: "dec_usage_ref j = Inr p \<Longrightarrow> usage_ref_ok p"
  by (auto simp: dec_usage_ref_def usage_ref_ok_def dest!: usage_dest split: option.split)

record usage_lease =
  ul_owner :: string
  ul_generation :: string

definition enc_usage_lease :: "usage_lease \<Rightarrow> json" where
  "enc_usage_lease p = JObj
     [(''owner'', JStr (ul_owner p)),
      (''generation'', JStr (ul_generation p))]"

definition dec_usage_lease :: "json \<Rightarrow> usage_lease result" where
  "dec_usage_lease j = bind_r (strict_fields [''owner'', ''generation''] j) (\<lambda>kvs.
     bind_r (required (as_checked opaque_ok) ''owner'' kvs) (\<lambda>v_owner.
     bind_r (required (as_checked ordinal_ok) ''generation'' kvs) (\<lambda>v_generation.
     Inr \<lparr>ul_owner = v_owner, ul_generation = v_generation\<rparr>)))"

definition usage_lease_ok :: "usage_lease \<Rightarrow> bool" where
  "usage_lease_ok p \<longleftrightarrow> opaque_ok (ul_owner p)
     \<and> ordinal_ok (ul_generation p)"

lemma usage_lease_sorted [usage_codec]: "usage_lease_ok p \<Longrightarrow> dec_usage_lease (sort_json (enc_usage_lease p)) = Inr p"
  by (cases p) (auto simp: enc_usage_lease_def dec_usage_lease_def usage_lease_ok_def or_null_def usage_codec split: option.splits)

lemma usage_lease_plain [usage_codec]: "integral (enc_usage_lease p) \<and> readable (enc_usage_lease p) \<and> enc_usage_lease p \<noteq> JNull"
  by (simp add: enc_usage_lease_def usage_codec split: option.split)

lemma usage_lease_dec_ok [usage_dest]: "dec_usage_lease j = Inr p \<Longrightarrow> usage_lease_ok p"
  by (auto simp: dec_usage_lease_def usage_lease_ok_def dest!: usage_dest split: option.split)

text \<open>\<open>_peer_path\<close> of the attempt binding, and the looser path of an evidence identity.\<close>

definition path_member_ok :: "string \<Rightarrow> bool" where
  "path_member_ok s \<longleftrightarrow> s \<noteq> [] \<and> utf8_length s \<le> 128"

definition evidence_path_ok :: "string list \<Rightarrow> bool" where
  "evidence_path_ok xs \<longleftrightarrow> length xs \<le> 32 \<and> list_all path_member_ok xs"

definition peer_path_ok :: "string list \<Rightarrow> bool" where
  "peer_path_ok xs \<longleftrightarrow> xs \<noteq> [] \<and> evidence_path_ok xs"

definition as_path :: "(string list \<Rightarrow> bool) \<Rightarrow> json \<Rightarrow> string list result" where
  "as_path p j = bind_r (as_list as_str j) (\<lambda>xs. if p xs then Inr xs else invalid)"

lemma as_path_list [usage_codec]: "as_path p (enc_list JStr xs) = (if p xs then Inr xs else invalid)"
  by (simp add: as_path_def as_list_enc_list traverse_id)

lemma sort_strings [usage_codec]: "sort_json \<circ> JStr = JStr"
  by auto

lemma as_path_ok [usage_dest]: "as_path p j = Inr xs \<Longrightarrow> p xs"
  by (auto simp: as_path_def invalid_def split: if_splits)

record attempt_binding =
  ab_tenant_ref :: string
  ab_actor :: usage_ref
  ab_subject :: usage_ref
  ab_identity_assertion_ref :: string
  ab_run_id :: string
  ab_session_id :: string
  ab_call_id :: string
  ab_attempt_id :: string
  ab_attempt_ordinal :: string
  ab_lease :: usage_lease
  ab_input_digest :: string
  ab_peer_path :: "string list"

definition binding_items :: "attempt_binding \<Rightarrow> (string \<times> json) list" where
  "binding_items b =
     [(''tenant_ref'', JStr (ab_tenant_ref b)), (''actor'', enc_usage_ref (ab_actor b)),
      (''subject'', enc_usage_ref (ab_subject b)), (''identity_assertion_ref'', JStr (ab_identity_assertion_ref b)),
      (''run_id'', JStr (ab_run_id b)), (''session_id'', JStr (ab_session_id b)), (''call_id'', JStr (ab_call_id b)),
      (''attempt_id'', JStr (ab_attempt_id b)), (''attempt_ordinal'', JStr (ab_attempt_ordinal b)),
      (''lease'', enc_usage_lease (ab_lease b)), (''input_digest'', JStr (ab_input_digest b)),
      (''peer_path'', enc_list JStr (ab_peer_path b))]"

definition binding_keys :: "string list" where
  "binding_keys = [''tenant_ref'', ''actor'', ''subject'', ''identity_assertion_ref'', ''run_id'', ''session_id'',
     ''call_id'', ''attempt_id'', ''attempt_ordinal'', ''lease'', ''input_digest'', ''peer_path'']"

definition enc_attempt_binding :: "attempt_binding \<Rightarrow> json" where
  "enc_attempt_binding b = JObj (binding_items b)"

definition dec_binding_items :: "(string list \<Rightarrow> bool) \<Rightarrow> (string \<times> json) list \<Rightarrow> attempt_binding result" where
  "dec_binding_items path_ok kvs =
     bind_r (required (as_checked opaque_ok) ''tenant_ref'' kvs) (\<lambda>v_tenant.
     bind_r (required dec_usage_ref ''actor'' kvs) (\<lambda>v_actor.
     bind_r (required dec_usage_ref ''subject'' kvs) (\<lambda>v_subject.
     bind_r (required (as_checked opaque_ok) ''identity_assertion_ref'' kvs) (\<lambda>v_assertion.
     bind_r (required (as_checked opaque_ok) ''run_id'' kvs) (\<lambda>v_run.
     bind_r (required (as_checked opaque_ok) ''session_id'' kvs) (\<lambda>v_session.
     bind_r (required (as_checked uuid_ok) ''call_id'' kvs) (\<lambda>v_call.
     bind_r (required (as_checked uuid_ok) ''attempt_id'' kvs) (\<lambda>v_attempt.
     bind_r (required (as_checked ordinal_ok) ''attempt_ordinal'' kvs) (\<lambda>v_ordinal.
     bind_r (required dec_usage_lease ''lease'' kvs) (\<lambda>v_lease.
     bind_r (required (as_checked hex64) ''input_digest'' kvs) (\<lambda>v_input.
     bind_r (required (as_path path_ok) ''peer_path'' kvs) (\<lambda>v_path.
     Inr \<lparr>ab_tenant_ref = v_tenant, ab_actor = v_actor, ab_subject = v_subject,
       ab_identity_assertion_ref = v_assertion, ab_run_id = v_run, ab_session_id = v_session, ab_call_id = v_call,
       ab_attempt_id = v_attempt, ab_attempt_ordinal = v_ordinal, ab_lease = v_lease, ab_input_digest = v_input,
       ab_peer_path = v_path\<rparr>))))))))))))"

definition dec_attempt_binding :: "json \<Rightarrow> attempt_binding result" where
  "dec_attempt_binding j = bind_r (strict_fields binding_keys j) (dec_binding_items peer_path_ok)"

definition binding_fields_ok :: "attempt_binding \<Rightarrow> bool" where
  "binding_fields_ok b \<longleftrightarrow> opaque_ok (ab_tenant_ref b) \<and> usage_ref_ok (ab_actor b) \<and> usage_ref_ok (ab_subject b)
     \<and> opaque_ok (ab_identity_assertion_ref b) \<and> opaque_ok (ab_run_id b) \<and> opaque_ok (ab_session_id b)
     \<and> uuid_ok (ab_call_id b) \<and> uuid_ok (ab_attempt_id b) \<and> ordinal_ok (ab_attempt_ordinal b)
     \<and> usage_lease_ok (ab_lease b) \<and> hex64 (ab_input_digest b)"

definition attempt_binding_ok :: "attempt_binding \<Rightarrow> bool" where
  "attempt_binding_ok b \<longleftrightarrow> binding_fields_ok b \<and> peer_path_ok (ab_peer_path b)"

lemma binding_keys_items: "map fst (binding_items b) = binding_keys"
  by (simp add: binding_items_def binding_keys_def)

lemma binding_items_plain [usage_codec]:
  "list_all (\<lambda>(k, v). integral v) (binding_items b)" "list_all (\<lambda>(k, v). readable v) (binding_items b)"
  by (simp_all add: binding_items_def usage_codec)

lemma binding_items_decoded:
  assumes "binding_fields_ok b" and "path_ok (ab_peer_path b)"
    and fields: "\<And>k v. map_of (binding_items b) k = Some v \<Longrightarrow> map_of kvs k = Some (sort_json v)"
  shows "dec_binding_items path_ok kvs = Inr b"
proof -
  note of_key = fields [of "''tenant_ref''"] fields [of "''actor''"] fields [of "''subject''"]
    fields [of "''identity_assertion_ref''"] fields [of "''run_id''"] fields [of "''session_id''"] fields [of "''call_id''"]
    fields [of "''attempt_id''"] fields [of "''attempt_ordinal''"] fields [of "''lease''"] fields [of "''input_digest''"]
    fields [of "''peer_path''"]
  show ?thesis
    using assms(1,2) of_key unfolding binding_items_def binding_fields_ok_def dec_binding_items_def required_def
    by (cases b) (simp add: usage_codec)
qed

lemma binding_keys_distinct: "distinct binding_keys" "''event_id'' \<notin> set binding_keys"
  by (simp_all add: binding_keys_def)

lemma attempt_binding_sorted [usage_codec]:
  assumes "attempt_binding_ok b"
  shows "dec_attempt_binding (sort_json (enc_attempt_binding b)) = Inr b"
proof -
  have "map_of (sort_key fst (sorted_items (binding_items b))) k = Some (sort_json v)"
    if "map_of (binding_items b) k = Some v" for k v
    using that by (simp add: map_of_sort_key keys_sorted_items binding_keys_items binding_keys_distinct map_of_sorted_items)
  then have "dec_binding_items peer_path_ok (sort_key fst (sorted_items (binding_items b))) = Inr b"
    using assms by (intro binding_items_decoded) (auto simp: attempt_binding_ok_def)
  moreover have "strict_fields binding_keys (sort_json (JObj (binding_items b))) = Inr (sort_key fst (sorted_items (binding_items b)))"
    by (rule strict_sorted) (simp only: binding_keys_items order_refl)
  ultimately show ?thesis
    by (simp add: dec_attempt_binding_def enc_attempt_binding_def)
qed

lemma attempt_binding_plain [usage_codec]:
  "integral (enc_attempt_binding b) \<and> readable (enc_attempt_binding b) \<and> enc_attempt_binding b \<noteq> JNull"
  by (simp add: enc_attempt_binding_def usage_codec binding_keys_items binding_keys_distinct)

lemma dec_binding_items_ok [usage_dest]:
  "dec_binding_items path_ok kvs = Inr b \<Longrightarrow> binding_fields_ok b \<and> path_ok (ab_peer_path b)"
  by (auto simp: dec_binding_items_def binding_fields_ok_def dest!: usage_dest)

lemma attempt_binding_dec_ok [usage_dest]: "dec_attempt_binding j = Inr b \<Longrightarrow> attempt_binding_ok b"
  by (auto simp: dec_attempt_binding_def attempt_binding_ok_def dest!: usage_dest)

text \<open>The identity of evidence is the binding with the id of its event.\<close>

record evidence_identity =
  vi_event_id :: string
  vi_binding :: attempt_binding

definition enc_evidence_identity :: "evidence_identity \<Rightarrow> json" where
  "enc_evidence_identity i = JObj ((''event_id'', JStr (vi_event_id i)) # binding_items (vi_binding i))"

definition dec_evidence_identity :: "json \<Rightarrow> evidence_identity result" where
  "dec_evidence_identity j = bind_r (strict_fields (''event_id'' # binding_keys) j) (\<lambda>kvs.
     bind_r (required (as_checked uuid_ok) ''event_id'' kvs) (\<lambda>v_event.
     bind_r (dec_binding_items evidence_path_ok kvs) (\<lambda>v_binding.
     Inr \<lparr>vi_event_id = v_event, vi_binding = v_binding\<rparr>)))"

definition evidence_identity_ok :: "evidence_identity \<Rightarrow> bool" where
  "evidence_identity_ok i \<longleftrightarrow> uuid_ok (vi_event_id i) \<and> binding_fields_ok (vi_binding i)
     \<and> evidence_path_ok (ab_peer_path (vi_binding i))"

lemma evidence_identity_sorted [usage_codec]:
  assumes "evidence_identity_ok i"
  shows "dec_evidence_identity (sort_json (enc_evidence_identity i)) = Inr i"
proof -
  let ?items = "(''event_id'', JStr (vi_event_id i)) # binding_items (vi_binding i)"
  have d: "distinct (map fst ?items)"
    using binding_keys_distinct by (simp add: binding_keys_items)
  have m: "map_of (sort_key fst (sorted_items ?items)) k = Some (sort_json v)" if "map_of ?items k = Some v" for k v
    using that d by (simp add: map_of_sort_key keys_sorted_items map_of_sorted_items)
  have "map_of ?items k = Some v" if "map_of (binding_items (vi_binding i)) k = Some v" for k v
  proof -
    have "k \<in> set (map fst (binding_items (vi_binding i)))"
      using map_of_SomeD [OF that] by force
    then have "k \<noteq> ''event_id''" using binding_keys_distinct(2) by (metis binding_keys_items)
    with that show ?thesis by simp
  qed
  with m have "dec_binding_items evidence_path_ok (sort_key fst (sorted_items ?items)) = Inr (vi_binding i)"
    using assms by (intro binding_items_decoded) (auto simp: evidence_identity_ok_def)
  moreover have "required (as_checked uuid_ok) ''event_id'' (sort_key fst (sorted_items ?items)) = Inr (vi_event_id i)"
    using m [of "''event_id''"] assms by (simp add: required_def evidence_identity_ok_def usage_codec)
  moreover have "strict_fields (''event_id'' # binding_keys) (sort_json (JObj ?items)) = Inr (sort_key fst (sorted_items ?items))"
    by (rule strict_sorted) (simp add: binding_keys_items del: set_map)
  ultimately show ?thesis
    by (simp add: dec_evidence_identity_def enc_evidence_identity_def)
qed

lemma evidence_identity_plain [usage_codec]:
  "integral (enc_evidence_identity i) \<and> readable (enc_evidence_identity i) \<and> enc_evidence_identity i \<noteq> JNull"
  using binding_keys_distinct by (simp add: enc_evidence_identity_def usage_codec binding_keys_items)

lemma evidence_identity_dec_ok [usage_dest]: "dec_evidence_identity j = Inr i \<Longrightarrow> evidence_identity_ok i"
  by (auto simp: dec_evidence_identity_def evidence_identity_ok_def dest!: usage_dest)

section \<open>Planned bindings\<close>

text \<open>
  \<open>PlannedBinding\<close> of version 2.0.0 carries its version and the request model, that of 1.0.0 neither but
  the name at the gateway, in the same place.
\<close>

datatype usage_version = V1 | V2

record planned_binding =
  pb_model :: string
  pb_provider :: string
  pb_revision_id :: string
  pb_provider_model_name :: string
  pb_request_model :: string
  pb_feature_key :: string
  pb_revision :: string
  pb_generation :: string
  pb_tenant_generation :: string
  pb_digest :: string
  pb_label :: "string option"

definition request_model_key :: "usage_version \<Rightarrow> string" where
  "request_model_key ver = (case ver of V1 \<Rightarrow> ''gateway_model_name'' | V2 \<Rightarrow> ''request_model'')"

definition planned_items :: "usage_version \<Rightarrow> planned_binding \<Rightarrow> (string \<times> json) list" where
  "planned_items ver p =
     [(''model'', JStr (pb_model p)), (''provider'', JStr (pb_provider p)), (''revision_id'', JStr (pb_revision_id p)),
      (''provider_model_name'', JStr (pb_provider_model_name p)), (request_model_key ver, JStr (pb_request_model p)),
      (''feature_key'', JStr (pb_feature_key p)), (''revision'', JStr (pb_revision p)),
      (''generation'', JStr (pb_generation p)), (''tenant_generation'', JStr (pb_tenant_generation p)),
      (''digest'', JStr (pb_digest p)), (''label'', or_null JStr (pb_label p))]"

definition enc_planned :: "usage_version \<Rightarrow> planned_binding \<Rightarrow> json" where
  "enc_planned ver p = (case ver of
      V1 \<Rightarrow> JObj (planned_items V1 p)
    | V2 \<Rightarrow> JObj ((''binding_version'', JStr ''2.0.0'') # planned_items V2 p))"

definition planned_keys :: "usage_version \<Rightarrow> string list" where
  "planned_keys ver = [''model'', ''provider'', ''revision_id'', ''provider_model_name'', request_model_key ver,
     ''feature_key'', ''revision'', ''generation'', ''tenant_generation'', ''digest'', ''label'']"

definition dec_planned_items :: "usage_version \<Rightarrow> (string \<times> json) list \<Rightarrow> planned_binding result" where
  "dec_planned_items ver kvs =
     bind_r (required (as_checked opaque_ok) ''model'' kvs) (\<lambda>v_model.
     bind_r (required (as_checked opaque_ok) ''provider'' kvs) (\<lambda>v_provider.
     bind_r (required (as_checked opaque_ok) ''revision_id'' kvs) (\<lambda>v_revision_id.
     bind_r (required (as_checked opaque_ok) ''provider_model_name'' kvs) (\<lambda>v_name.
     bind_r (required (as_checked opaque_ok) (request_model_key ver) kvs) (\<lambda>v_request.
     bind_r (required (as_checked opaque_ok) ''feature_key'' kvs) (\<lambda>v_feature.
     bind_r (required (as_checked ordinal_ok) ''revision'' kvs) (\<lambda>v_revision.
     bind_r (required (as_checked ordinal_ok) ''generation'' kvs) (\<lambda>v_generation.
     bind_r (required (as_checked ordinal_ok) ''tenant_generation'' kvs) (\<lambda>v_tenant.
     bind_r (required (as_checked hex64) ''digest'' kvs) (\<lambda>v_digest.
     bind_r (nullable (as_checked opaque_ok) ''label'' kvs) (\<lambda>v_label.
     Inr \<lparr>pb_model = v_model, pb_provider = v_provider, pb_revision_id = v_revision_id, pb_provider_model_name = v_name,
       pb_request_model = v_request, pb_feature_key = v_feature, pb_revision = v_revision, pb_generation = v_generation,
       pb_tenant_generation = v_tenant, pb_digest = v_digest, pb_label = v_label\<rparr>)))))))))))"

definition dec_planned :: "usage_version \<Rightarrow> json \<Rightarrow> planned_binding result" where
  "dec_planned ver j = (case ver of
      V1 \<Rightarrow> bind_r (strict_fields (planned_keys V1) j) (dec_planned_items V1)
    | V2 \<Rightarrow> bind_r (strict_fields (''binding_version'' # planned_keys V2) j) (\<lambda>kvs.
        bind_r (required (as_literal [''2.0.0'']) ''binding_version'' kvs) (\<lambda>_. dec_planned_items V2 kvs)))"

definition planned_ok :: "planned_binding \<Rightarrow> bool" where
  "planned_ok p \<longleftrightarrow> opaque_ok (pb_model p) \<and> opaque_ok (pb_provider p) \<and> opaque_ok (pb_revision_id p)
     \<and> opaque_ok (pb_provider_model_name p) \<and> opaque_ok (pb_request_model p) \<and> opaque_ok (pb_feature_key p)
     \<and> ordinal_ok (pb_revision p) \<and> ordinal_ok (pb_generation p) \<and> ordinal_ok (pb_tenant_generation p)
     \<and> hex64 (pb_digest p) \<and> (case pb_label p of None \<Rightarrow> True | Some v \<Rightarrow> opaque_ok v)"

lemma planned_sorted [usage_codec]: "planned_ok p \<Longrightarrow> dec_planned ver (sort_json (enc_planned ver p)) = Inr p"
  by (cases p; cases ver)
    (auto simp: enc_planned_def dec_planned_def planned_ok_def planned_items_def planned_keys_def request_model_key_def
      dec_planned_items_def or_null_def usage_codec split: option.splits)

lemma planned_plain [usage_codec]:
  "integral (enc_planned ver p) \<and> readable (enc_planned ver p) \<and> enc_planned ver p \<noteq> JNull"
  by (cases ver) (simp_all add: enc_planned_def planned_items_def request_model_key_def usage_codec split: option.split)

lemma planned_items_ok [usage_dest]: "dec_planned_items ver kvs = Inr p \<Longrightarrow> planned_ok p"
  by (auto simp: dec_planned_items_def planned_ok_def dest!: usage_dest split: option.split)

lemma planned_dec_ok [usage_dest]: "dec_planned ver j = Inr p \<Longrightarrow> planned_ok p"
  by (cases ver) (auto simp: dec_planned_def dest!: planned_items_ok)

section \<open>Observations\<close>

text \<open>The member of an untagged union is decided by its literal \<open>state\<close>.\<close>

datatype attribution =
    UnknownAttribution string
  | VerifiedAttribution string string string string

fun enc_attribution :: "attribution \<Rightarrow> json" where
  "enc_attribution (UnknownAttribution reason) = JObj [(''state'', JStr ''unknown''), (''reason'', JStr reason)]"
| "enc_attribution (VerifiedAttribution provider model evidence digest) = JObj
     [(''state'', JStr ''verified''), (''provider_ref'', JStr provider), (''model_ref'', JStr model),
      (''evidence_ref'', JStr evidence), (''evidence_digest'', JStr digest)]"

definition unknown_reasons :: "string list" where
  "unknown_reasons = [''not_observed'', ''unverified_binding'', ''incomplete_attempt_coverage'']"

definition dec_attribution :: "json \<Rightarrow> attribution result" where
  "dec_attribution j = bind_r (discriminator ''state'' j) (\<lambda>t.
     if t = ''unknown'' then
       bind_r (strict_fields [''state'', ''reason''] j) (\<lambda>kvs.
       bind_r (required (as_literal unknown_reasons) ''reason'' kvs) (\<lambda>r. Inr (UnknownAttribution r)))
     else if t = ''verified'' then
       bind_r (strict_fields [''state'', ''provider_ref'', ''model_ref'', ''evidence_ref'', ''evidence_digest''] j) (\<lambda>kvs.
       bind_r (required (as_checked opaque_ok) ''provider_ref'' kvs) (\<lambda>p.
       bind_r (required (as_checked opaque_ok) ''model_ref'' kvs) (\<lambda>m.
       bind_r (required (as_checked opaque_ok) ''evidence_ref'' kvs) (\<lambda>e.
       bind_r (required (as_checked hex64) ''evidence_digest'' kvs) (\<lambda>d. Inr (VerifiedAttribution p m e d))))))
     else invalid)"

fun attribution_ok :: "attribution \<Rightarrow> bool" where
  "attribution_ok (UnknownAttribution reason) \<longleftrightarrow> reason \<in> set unknown_reasons"
| "attribution_ok (VerifiedAttribution p m e d) \<longleftrightarrow> opaque_ok p \<and> opaque_ok m \<and> opaque_ok e \<and> hex64 d"

lemma discriminator_sorted [usage_codec]:
  "distinct (map fst kvs) \<Longrightarrow> discriminator k (sort_json (JObj kvs))
    = (case map_of kvs k of None \<Rightarrow> invalid | Some v \<Rightarrow> as_str (sort_json v))"
  by (simp add: discriminator_def sort_json_obj required_sorted)

lemma attribution_sorted [usage_codec]: "attribution_ok p \<Longrightarrow> dec_attribution (sort_json (enc_attribution p)) = Inr p"
  by (cases p) (auto simp: dec_attribution_def usage_codec)

lemma attribution_plain [usage_codec]: "integral (enc_attribution p) \<and> readable (enc_attribution p) \<and> enc_attribution p \<noteq> JNull"
  by (cases p) (simp_all add: usage_codec)

lemma attribution_dec_ok [usage_dest]: "dec_attribution j = Inr p \<Longrightarrow> attribution_ok p"
  by (auto simp: dec_attribution_def invalid_def dest!: usage_dest split: if_splits option.split)

datatype authorization =
    NotRequested
  | Requested string string
  | Granted string string

fun enc_authorization :: "authorization \<Rightarrow> json" where
  "enc_authorization NotRequested = JObj [(''state'', JStr ''not_requested'')]"
| "enc_authorization (Requested state request) = JObj [(''state'', JStr state), (''request_ref'', JStr request)]"
| "enc_authorization (Granted request admission) = JObj
     [(''state'', JStr ''granted''), (''request_ref'', JStr request), (''admission_ref'', JStr admission)]"

definition requested_states :: "string list" where
  "requested_states = [''requested_unknown'', ''denied'']"

lemmas [usage_codec] = requested_states_def

definition dec_authorization :: "json \<Rightarrow> authorization result" where
  "dec_authorization j = bind_r (discriminator ''state'' j) (\<lambda>t.
     if t = ''not_requested'' then bind_r (strict_fields [''state''] j) (\<lambda>kvs. Inr NotRequested)
     else if List.member requested_states t then
       bind_r (strict_fields [''state'', ''request_ref''] j) (\<lambda>kvs.
       bind_r (required (as_checked opaque_ok) ''request_ref'' kvs) (\<lambda>r. Inr (Requested t r)))
     else if t = ''granted'' then
       bind_r (strict_fields [''state'', ''request_ref'', ''admission_ref''] j) (\<lambda>kvs.
       bind_r (required (as_checked opaque_ok) ''request_ref'' kvs) (\<lambda>r.
       bind_r (required (as_checked opaque_ok) ''admission_ref'' kvs) (\<lambda>a. Inr (Granted r a))))
     else invalid)"

fun authorization_ok :: "authorization \<Rightarrow> bool" where
  "authorization_ok NotRequested = True"
| "authorization_ok (Requested s r) \<longleftrightarrow> s \<in> set requested_states \<and> opaque_ok r"
| "authorization_ok (Granted r a) \<longleftrightarrow> opaque_ok r \<and> opaque_ok a"

fun authorization_state :: "authorization \<Rightarrow> string" where
  "authorization_state NotRequested = ''not_requested''"
| "authorization_state (Requested s r) = s"
| "authorization_state (Granted r a) = ''granted''"

lemma authorization_sorted [usage_codec]: "authorization_ok p \<Longrightarrow> dec_authorization (sort_json (enc_authorization p)) = Inr p"
  by (cases p) (auto simp: dec_authorization_def usage_codec)

lemma authorization_plain [usage_codec]: "integral (enc_authorization p) \<and> readable (enc_authorization p) \<and> enc_authorization p \<noteq> JNull"
  by (cases p) (simp_all add: usage_codec)

lemma authorization_dec_ok [usage_dest]: "dec_authorization j = Inr p \<Longrightarrow> authorization_ok p"
  by (auto simp: dec_authorization_def invalid_def dest!: usage_dest split: if_splits option.split)

record execution_observation =
  xo_outcome :: string
  xo_seal :: bool
  xo_prepared_at :: string
  xo_dispatch_started_at :: "string option"

definition enc_execution_observation :: "execution_observation \<Rightarrow> json" where
  "enc_execution_observation p = JObj
     [(''outcome'', JStr (xo_outcome p)),
      (''seal'', JBool (xo_seal p)),
      (''prepared_at'', JStr (xo_prepared_at p)),
      (''dispatch_started_at'', or_null JStr (xo_dispatch_started_at p))]"

definition dec_execution_observation :: "json \<Rightarrow> execution_observation result" where
  "dec_execution_observation j = bind_r (strict_fields [''outcome'', ''seal'', ''prepared_at'', ''dispatch_started_at''] j) (\<lambda>kvs.
     bind_r (required (as_literal [''not_dispatched'', ''completed'', ''failed'', ''cancelled'', ''unknown'']) ''outcome'' kvs) (\<lambda>v_outcome.
     bind_r (required as_bool ''seal'' kvs) (\<lambda>v_seal.
     bind_r (required (as_checked instant_ok) ''prepared_at'' kvs) (\<lambda>v_prepared_at.
     bind_r (nullable (as_checked instant_ok) ''dispatch_started_at'' kvs) (\<lambda>v_dispatch_started_at.
     Inr \<lparr>xo_outcome = v_outcome, xo_seal = v_seal, xo_prepared_at = v_prepared_at, xo_dispatch_started_at = v_dispatch_started_at\<rparr>)))))"

definition execution_observation_ok :: "execution_observation \<Rightarrow> bool" where
  "execution_observation_ok p \<longleftrightarrow> (xo_outcome p) \<in> set [''not_dispatched'', ''completed'', ''failed'', ''cancelled'', ''unknown'']
     \<and> instant_ok (xo_prepared_at p)
     \<and> (case xo_dispatch_started_at p of None \<Rightarrow> True | Some v \<Rightarrow> instant_ok v)"

lemma execution_observation_sorted [usage_codec]: "execution_observation_ok p \<Longrightarrow> dec_execution_observation (sort_json (enc_execution_observation p)) = Inr p"
  by (cases p) (auto simp: enc_execution_observation_def dec_execution_observation_def execution_observation_ok_def or_null_def usage_codec split: option.splits)

lemma execution_observation_plain [usage_codec]: "integral (enc_execution_observation p) \<and> readable (enc_execution_observation p) \<and> enc_execution_observation p \<noteq> JNull"
  by (simp add: enc_execution_observation_def usage_codec split: option.split)

lemma execution_observation_dec_ok [usage_dest]: "dec_execution_observation j = Inr p \<Longrightarrow> execution_observation_ok p"
  by (auto simp: dec_execution_observation_def execution_observation_ok_def dest!: usage_dest split: option.split)

datatype count_observation = Reported string | Unreported | Inapplicable

fun enc_count_observation :: "count_observation \<Rightarrow> json" where
  "enc_count_observation (Reported n) = JObj [(''state'', JStr ''reported''), (''count'', JStr n)]"
| "enc_count_observation Unreported = JObj [(''state'', JStr ''unreported'')]"
| "enc_count_observation Inapplicable = JObj [(''state'', JStr ''not_applicable'')]"

definition dec_count_observation :: "json \<Rightarrow> count_observation result" where
  "dec_count_observation j = bind_r (discriminator ''state'' j) (\<lambda>t.
     if t = ''reported'' then
       bind_r (strict_fields [''state'', ''count''] j) (\<lambda>kvs.
       bind_r (required (as_checked count_ok) ''count'' kvs) (\<lambda>n. Inr (Reported n)))
     else if t = ''unreported'' then bind_r (strict_fields [''state''] j) (\<lambda>kvs. Inr Unreported)
     else if t = ''not_applicable'' then bind_r (strict_fields [''state''] j) (\<lambda>kvs. Inr Inapplicable)
     else invalid)"

fun count_observation_ok :: "count_observation \<Rightarrow> bool" where
  "count_observation_ok (Reported n) = count_ok n"
| "count_observation_ok Unreported = True"
| "count_observation_ok Inapplicable = True"

lemma count_observation_sorted [usage_codec]: "count_observation_ok p \<Longrightarrow> dec_count_observation (sort_json (enc_count_observation p)) = Inr p"
  by (cases p) (auto simp: dec_count_observation_def usage_codec)

lemma count_observation_plain [usage_codec]: "integral (enc_count_observation p) \<and> readable (enc_count_observation p) \<and> enc_count_observation p \<noteq> JNull"
  by (cases p) (simp_all add: usage_codec)

lemma count_observation_dec_ok [usage_dest]: "dec_count_observation j = Inr p \<Longrightarrow> count_observation_ok p"
  by (auto simp: dec_count_observation_def invalid_def dest!: usage_dest split: if_splits option.split)

datatype assessment = Supported | Unsupported string

fun enc_assessment :: "assessment \<Rightarrow> json" where
  "enc_assessment Supported = JObj [(''state'', JStr ''supported'')]"
| "enc_assessment (Unsupported reason) = JObj [(''state'', JStr ''unsupported''), (''reason'', JStr reason)]"

definition unsupported_reasons :: "string list" where
  "unsupported_reasons = [''unsupported_usage_category'', ''unsupported_service_tier'', ''unverified_source_semantics'']"

definition dec_assessment :: "json \<Rightarrow> assessment result" where
  "dec_assessment j = bind_r (discriminator ''state'' j) (\<lambda>t.
     if t = ''supported'' then bind_r (strict_fields [''state''] j) (\<lambda>kvs. Inr Supported)
     else if t = ''unsupported'' then
       bind_r (strict_fields [''state'', ''reason''] j) (\<lambda>kvs.
       bind_r (required (as_literal unsupported_reasons) ''reason'' kvs) (\<lambda>r. Inr (Unsupported r)))
     else invalid)"

fun assessment_ok :: "assessment \<Rightarrow> bool" where
  "assessment_ok Supported = True"
| "assessment_ok (Unsupported reason) \<longleftrightarrow> reason \<in> set unsupported_reasons"

lemma assessment_sorted [usage_codec]: "assessment_ok p \<Longrightarrow> dec_assessment (sort_json (enc_assessment p)) = Inr p"
  by (cases p) (auto simp: dec_assessment_def usage_codec)

lemma assessment_plain [usage_codec]: "integral (enc_assessment p) \<and> readable (enc_assessment p) \<and> enc_assessment p \<noteq> JNull"
  by (cases p) (simp_all add: usage_codec)

lemma assessment_dec_ok [usage_dest]: "dec_assessment j = Inr p \<Longrightarrow> assessment_ok p"
  by (auto simp: dec_assessment_def invalid_def dest!: usage_dest split: if_splits option.split)

record token_usage_v1 =
  tk_source_protocol :: string
  tk_input_total :: count_observation
  tk_output_total :: count_observation
  tk_total :: count_observation
  tk_input_cache_read :: count_observation
  tk_input_cache_write :: count_observation
  tk_output_reasoning :: count_observation
  tk_totals_state :: string
  tk_classification_state :: string
  tk_profile_assessment :: assessment

definition enc_token_usage_v1 :: "token_usage_v1 \<Rightarrow> json" where
  "enc_token_usage_v1 p = JObj
     [(''profile_id'', JStr ''token_usage_v1''),
      (''unit'', JStr ''token''),
      (''source_protocol'', JStr (tk_source_protocol p)),
      (''aggregation_mode'', JStr ''final_cumulative''),
      (''input_total'', enc_count_observation (tk_input_total p)),
      (''output_total'', enc_count_observation (tk_output_total p)),
      (''total'', enc_count_observation (tk_total p)),
      (''input_cache_read'', enc_count_observation (tk_input_cache_read p)),
      (''input_cache_write'', enc_count_observation (tk_input_cache_write p)),
      (''output_reasoning'', enc_count_observation (tk_output_reasoning p)),
      (''totals_state'', JStr (tk_totals_state p)),
      (''classification_state'', JStr (tk_classification_state p)),
      (''profile_assessment'', enc_assessment (tk_profile_assessment p))]"

definition dec_token_usage_v1 :: "json \<Rightarrow> token_usage_v1 result" where
  "dec_token_usage_v1 j = bind_r (strict_fields [''profile_id'', ''unit'', ''source_protocol'', ''aggregation_mode'', ''input_total'', ''output_total'', ''total'', ''input_cache_read'', ''input_cache_write'', ''output_reasoning'', ''totals_state'', ''classification_state'', ''profile_assessment''] j) (\<lambda>kvs.
     bind_r (required (as_literal [''token_usage_v1'']) ''profile_id'' kvs) (\<lambda>_.
     bind_r (required (as_literal [''token'']) ''unit'' kvs) (\<lambda>_.
     bind_r (required (as_literal [''openai_chat_completions'', ''ollama_openai_chat_completions'']) ''source_protocol'' kvs) (\<lambda>v_source_protocol.
     bind_r (required (as_literal [''final_cumulative'']) ''aggregation_mode'' kvs) (\<lambda>_.
     bind_r (required dec_count_observation ''input_total'' kvs) (\<lambda>v_input_total.
     bind_r (required dec_count_observation ''output_total'' kvs) (\<lambda>v_output_total.
     bind_r (required dec_count_observation ''total'' kvs) (\<lambda>v_total.
     bind_r (required dec_count_observation ''input_cache_read'' kvs) (\<lambda>v_input_cache_read.
     bind_r (required dec_count_observation ''input_cache_write'' kvs) (\<lambda>v_input_cache_write.
     bind_r (required dec_count_observation ''output_reasoning'' kvs) (\<lambda>v_output_reasoning.
     bind_r (required (as_literal [''known_zero'', ''known_nonzero'', ''unknown'']) ''totals_state'' kvs) (\<lambda>v_totals_state.
     bind_r (required (as_literal [''complete'', ''partial'', ''unknown'']) ''classification_state'' kvs) (\<lambda>v_classification_state.
     bind_r (required dec_assessment ''profile_assessment'' kvs) (\<lambda>v_profile_assessment.
     Inr \<lparr>tk_source_protocol = v_source_protocol, tk_input_total = v_input_total, tk_output_total = v_output_total, tk_total = v_total, tk_input_cache_read = v_input_cache_read, tk_input_cache_write = v_input_cache_write, tk_output_reasoning = v_output_reasoning, tk_totals_state = v_totals_state, tk_classification_state = v_classification_state, tk_profile_assessment = v_profile_assessment\<rparr>))))))))))))))"

definition token_usage_v1_ok :: "token_usage_v1 \<Rightarrow> bool" where
  "token_usage_v1_ok p \<longleftrightarrow> (tk_source_protocol p) \<in> set [''openai_chat_completions'', ''ollama_openai_chat_completions'']
     \<and> count_observation_ok (tk_input_total p)
     \<and> count_observation_ok (tk_output_total p)
     \<and> count_observation_ok (tk_total p)
     \<and> count_observation_ok (tk_input_cache_read p)
     \<and> count_observation_ok (tk_input_cache_write p)
     \<and> count_observation_ok (tk_output_reasoning p)
     \<and> (tk_totals_state p) \<in> set [''known_zero'', ''known_nonzero'', ''unknown'']
     \<and> (tk_classification_state p) \<in> set [''complete'', ''partial'', ''unknown'']
     \<and> assessment_ok (tk_profile_assessment p)"

lemma token_usage_v1_sorted [usage_codec]: "token_usage_v1_ok p \<Longrightarrow> dec_token_usage_v1 (sort_json (enc_token_usage_v1 p)) = Inr p"
  by (cases p) (auto simp: enc_token_usage_v1_def dec_token_usage_v1_def token_usage_v1_ok_def or_null_def usage_codec split: option.splits)

lemma token_usage_v1_plain [usage_codec]: "integral (enc_token_usage_v1 p) \<and> readable (enc_token_usage_v1 p) \<and> enc_token_usage_v1 p \<noteq> JNull"
  by (simp add: enc_token_usage_v1_def usage_codec split: option.split)

lemma token_usage_v1_dec_ok [usage_dest]: "dec_token_usage_v1 j = Inr p \<Longrightarrow> token_usage_v1_ok p"
  by (auto simp: dec_token_usage_v1_def token_usage_v1_ok_def dest!: usage_dest split: option.split)

datatype usage_observation =
    Normalized token_usage_v1 "string option"
  | Unresolved string "string option"

fun enc_usage_observation :: "usage_observation \<Rightarrow> json" where
  "enc_usage_observation (Normalized v raw) = JObj
     [(''state'', JStr ''normalized''), (''value'', enc_token_usage_v1 v), (''raw_usage_digest'', or_null JStr raw)]"
| "enc_usage_observation (Unresolved reason raw) = JObj
     [(''state'', JStr ''unresolved''), (''reason'', JStr reason), (''raw_usage_digest'', or_null JStr raw)]"

definition unresolved_reasons :: "string list" where
  "unresolved_reasons = [''missing_usage'', ''invalid_usage'', ''incomplete_response'', ''unsupported_source'']"

definition dec_usage_observation :: "json \<Rightarrow> usage_observation result" where
  "dec_usage_observation j = bind_r (discriminator ''state'' j) (\<lambda>t.
     if t = ''normalized'' then
       bind_r (strict_fields [''state'', ''value'', ''raw_usage_digest''] j) (\<lambda>kvs.
       bind_r (required dec_token_usage_v1 ''value'' kvs) (\<lambda>v.
       bind_r (nullable (as_checked hex64) ''raw_usage_digest'' kvs) (\<lambda>d. Inr (Normalized v d))))
     else if t = ''unresolved'' then
       bind_r (strict_fields [''state'', ''reason'', ''raw_usage_digest''] j) (\<lambda>kvs.
       bind_r (required (as_literal unresolved_reasons) ''reason'' kvs) (\<lambda>r.
       bind_r (nullable (as_checked hex64) ''raw_usage_digest'' kvs) (\<lambda>d. Inr (Unresolved r d))))
     else invalid)"

fun usage_observation_ok :: "usage_observation \<Rightarrow> bool" where
  "usage_observation_ok (Normalized v d) \<longleftrightarrow> token_usage_v1_ok v \<and> (case d of None \<Rightarrow> True | Some x \<Rightarrow> hex64 x)"
| "usage_observation_ok (Unresolved r d) \<longleftrightarrow> r \<in> set unresolved_reasons \<and> (case d of None \<Rightarrow> True | Some x \<Rightarrow> hex64 x)"

fun usage_state :: "usage_observation \<Rightarrow> string" where
  "usage_state (Normalized v d) = ''normalized''"
| "usage_state (Unresolved r d) = ''unresolved''"

fun raw_usage_digest :: "usage_observation \<Rightarrow> string option" where
  "raw_usage_digest (Normalized v d) = d"
| "raw_usage_digest (Unresolved r d) = d"

lemma usage_observation_sorted [usage_codec]:
  "usage_observation_ok p \<Longrightarrow> dec_usage_observation (sort_json (enc_usage_observation p)) = Inr p"
  by (cases p) (auto simp: dec_usage_observation_def or_null_def usage_codec split: option.splits)

lemma usage_observation_plain [usage_codec]:
  "integral (enc_usage_observation p) \<and> readable (enc_usage_observation p) \<and> enc_usage_observation p \<noteq> JNull"
  by (cases p) (simp_all add: usage_codec split: option.split)

lemma usage_observation_dec_ok [usage_dest]: "dec_usage_observation j = Inr p \<Longrightarrow> usage_observation_ok p"
  by (auto simp: dec_usage_observation_def invalid_def dest!: usage_dest split: if_splits option.split)

section \<open>Evidence\<close>

record predecessor =
  pr_event_id :: string
  pr_digest :: string

definition enc_predecessor :: "predecessor \<Rightarrow> json" where
  "enc_predecessor p = JObj
     [(''event_id'', JStr (pr_event_id p)),
      (''digest'', JStr (pr_digest p))]"

definition dec_predecessor :: "json \<Rightarrow> predecessor result" where
  "dec_predecessor j = bind_r (strict_fields [''event_id'', ''digest''] j) (\<lambda>kvs.
     bind_r (required (as_checked uuid_ok) ''event_id'' kvs) (\<lambda>v_event_id.
     bind_r (required (as_checked hex64) ''digest'' kvs) (\<lambda>v_digest.
     Inr \<lparr>pr_event_id = v_event_id, pr_digest = v_digest\<rparr>)))"

definition predecessor_ok :: "predecessor \<Rightarrow> bool" where
  "predecessor_ok p \<longleftrightarrow> uuid_ok (pr_event_id p)
     \<and> hex64 (pr_digest p)"

lemma predecessor_sorted [usage_codec]: "predecessor_ok p \<Longrightarrow> dec_predecessor (sort_json (enc_predecessor p)) = Inr p"
  by (cases p) (auto simp: enc_predecessor_def dec_predecessor_def predecessor_ok_def or_null_def usage_codec split: option.splits)

lemma predecessor_plain [usage_codec]: "integral (enc_predecessor p) \<and> readable (enc_predecessor p) \<and> enc_predecessor p \<noteq> JNull"
  by (simp add: enc_predecessor_def usage_codec split: option.split)

lemma predecessor_dec_ok [usage_dest]: "dec_predecessor j = Inr p \<Longrightarrow> predecessor_ok p"
  by (auto simp: dec_predecessor_def predecessor_ok_def dest!: usage_dest split: option.split)

record usage_evidence =
  ue_version :: usage_version
  ue_identity :: evidence_identity
  ue_planned :: planned_binding
  ue_actual :: attribution
  ue_authorization :: authorization
  ue_execution :: execution_observation
  ue_usage :: usage_observation
  ue_revision :: string
  ue_predecessor :: "predecessor option"
  ue_observed_at :: string
  ue_digest :: string

fun version_text :: "usage_version \<Rightarrow> string" where
  "version_text V1 = ''1.0.0''"
| "version_text V2 = ''2.0.0''"

text \<open>The facts the digest binds, and the artifact with its digest.\<close>

definition evidence_facts :: "usage_evidence \<Rightarrow> (string \<times> json) list" where
  "evidence_facts e =
     [(''artifact_version'', JStr (version_text (ue_version e))), (''identity'', enc_evidence_identity (ue_identity e)),
      (''planned'', enc_planned (ue_version e) (ue_planned e)), (''actual'', enc_attribution (ue_actual e)),
      (''authorization_observation'', enc_authorization (ue_authorization e)),
      (''execution'', enc_execution_observation (ue_execution e)), (''usage'', enc_usage_observation (ue_usage e)),
      (''revision'', JStr (ue_revision e)), (''predecessor'', or_null enc_predecessor (ue_predecessor e)),
      (''observed_at'', JStr (ue_observed_at e))]"

definition enc_usage_evidence :: "usage_evidence \<Rightarrow> json" where
  "enc_usage_evidence e = JObj (evidence_facts e @ [(''digest'', JStr (ue_digest e))])"

definition dec_usage_evidence :: "usage_version \<Rightarrow> json \<Rightarrow> usage_evidence result" where
  "dec_usage_evidence ver j =
     bind_r (strict_fields [''artifact_version'', ''identity'', ''planned'', ''actual'', ''authorization_observation'',
       ''execution'', ''usage'', ''revision'', ''predecessor'', ''observed_at'', ''digest''] j) (\<lambda>kvs.
     bind_r (required (as_literal [version_text ver]) ''artifact_version'' kvs) (\<lambda>_.
     bind_r (required dec_evidence_identity ''identity'' kvs) (\<lambda>v_identity.
     bind_r (required (dec_planned ver) ''planned'' kvs) (\<lambda>v_planned.
     bind_r (required dec_attribution ''actual'' kvs) (\<lambda>v_actual.
     bind_r (required dec_authorization ''authorization_observation'' kvs) (\<lambda>v_authorization.
     bind_r (required dec_execution_observation ''execution'' kvs) (\<lambda>v_execution.
     bind_r (required dec_usage_observation ''usage'' kvs) (\<lambda>v_usage.
     bind_r (required (as_checked ordinal_ok) ''revision'' kvs) (\<lambda>v_revision.
     bind_r (nullable dec_predecessor ''predecessor'' kvs) (\<lambda>v_predecessor.
     bind_r (required (as_checked instant_ok) ''observed_at'' kvs) (\<lambda>v_observed.
     bind_r (required (as_checked hex64) ''digest'' kvs) (\<lambda>v_digest.
     Inr \<lparr>ue_version = ver, ue_identity = v_identity, ue_planned = v_planned, ue_actual = v_actual,
       ue_authorization = v_authorization, ue_execution = v_execution, ue_usage = v_usage, ue_revision = v_revision,
       ue_predecessor = v_predecessor, ue_observed_at = v_observed, ue_digest = v_digest\<rparr>))))))))))))"

definition usage_evidence_ok :: "usage_evidence \<Rightarrow> bool" where
  "usage_evidence_ok e \<longleftrightarrow> evidence_identity_ok (ue_identity e) \<and> planned_ok (ue_planned e)
     \<and> attribution_ok (ue_actual e) \<and> authorization_ok (ue_authorization e)
     \<and> execution_observation_ok (ue_execution e) \<and> usage_observation_ok (ue_usage e) \<and> ordinal_ok (ue_revision e)
     \<and> (case ue_predecessor e of None \<Rightarrow> True | Some p \<Rightarrow> predecessor_ok p) \<and> instant_ok (ue_observed_at e)
     \<and> hex64 (ue_digest e)"

lemma usage_evidence_sorted [usage_codec]:
  "usage_evidence_ok e \<Longrightarrow> dec_usage_evidence (ue_version e) (sort_json (enc_usage_evidence e)) = Inr e"
  by (cases e) (auto simp: enc_usage_evidence_def evidence_facts_def dec_usage_evidence_def usage_evidence_ok_def or_null_def
      usage_codec split: option.splits)

lemma usage_evidence_plain [usage_codec]:
  "integral (enc_usage_evidence e) \<and> readable (enc_usage_evidence e)" "list_all (\<lambda>(k, v). integral v) (evidence_facts e)"
  by (simp_all add: enc_usage_evidence_def evidence_facts_def usage_codec split: option.split)

lemma usage_evidence_dec_ok [usage_dest]:
  assumes "dec_usage_evidence ver j = Inr e"
  shows "usage_evidence_ok e \<and> ue_version e = ver"
proof -
  from assms obtain kvs where
    "\<exists>j. dec_evidence_identity j = Inr (ue_identity e)" "\<exists>j. dec_planned ver j = Inr (ue_planned e)"
    "\<exists>j. dec_attribution j = Inr (ue_actual e)" "\<exists>j. dec_authorization j = Inr (ue_authorization e)"
    "\<exists>j. dec_execution_observation j = Inr (ue_execution e)" "\<exists>j. dec_usage_observation j = Inr (ue_usage e)"
    "required (as_checked ordinal_ok) ''revision'' kvs = Inr (ue_revision e)"
    "nullable dec_predecessor ''predecessor'' kvs = Inr (ue_predecessor e)"
    "required (as_checked instant_ok) ''observed_at'' kvs = Inr (ue_observed_at e)"
    "required (as_checked hex64) ''digest'' kvs = Inr (ue_digest e)" "ue_version e = ver"
    unfolding dec_usage_evidence_def bind_r_eq_Inr by (fastforce dest: required_ok)
  then show ?thesis
    unfolding usage_evidence_ok_def
    by (auto dest!: required_ok nullable_ok dest: usage_dest split: option.split)
qed

end
