(* ===== verification/Model_Evidence.thy ===== *)
theory Model_Evidence
  imports Model_Usage
begin

text \<open>
  Reading and checking model-usage evidence: \<open>src/kokoro_agent/model/usage_evidence_v2.py\<close> with its
  historical twin \<open>usage_evidence.py\<close> (version \<open>V1\<close> of the definitions), the canonical artifacts of
  \<open>model/call_artifacts.py\<close> and the checks of \<open>model/call_evidence.py\<close> against the frozen columns of an
  attempt. Bytes are the text they encode; \<open>jcs\<close> is \<open>rfc8785.dumps\<close>, \<open>sha\<close> the hex digest of
  \<open>hashlib.sha256\<close>. Instants are milliseconds, the clock of the database microseconds.
\<close>

section \<open>Parsing evidence\<close>

definition control_char :: "char \<Rightarrow> bool" where
  "control_char c \<longleftrightarrow> (of_char c :: nat) < 32 \<or> of_char c = (127 :: nat)"

text \<open>\<open>_tree\<close>: the depth of values and the characters of strings and keys.\<close>

function tree_ok :: "nat \<Rightarrow> json \<Rightarrow> bool" where
  "tree_ok depth v \<longleftrightarrow> depth \<le> max_json_depth \<and> (case v of
      JStr s \<Rightarrow> \<not> list_ex control_char s
    | JObj kvs \<Rightarrow> list_all (\<lambda>(k, w). \<not> list_ex control_char k \<and> tree_ok (Suc depth) w) kvs
    | JList ws \<Rightarrow> list_all (tree_ok (Suc depth)) ws
    | _ \<Rightarrow> True)"
  by pat_completeness auto
termination
  by (relation "measure (\<lambda>(d, v). size v)") (auto simp: less_Suc_eq_le size_list_estimation' dest: size_in_items)

declare tree_ok.simps [simp del]

fun reported_count :: "count_observation \<Rightarrow> int option" where
  "reported_count (Reported n) = Some (int (undigits n))"
| "reported_count _ = None"

definition count_observations :: "token_usage_v1 \<Rightarrow> count_observation list" where
  "count_observations u = [tk_input_total u, tk_output_total u, tk_total u, tk_input_cache_read u,
     tk_input_cache_write u, tk_output_reasoning u]"

definition known_totals :: "token_usage_v1 \<Rightarrow> (int \<times> int \<times> int) option" where
  "known_totals u = (case (reported_count (tk_input_total u), reported_count (tk_output_total u), reported_count (tk_total u)) of
      (Some i, Some n, Some t) \<Rightarrow> Some (i, n, t) | _ \<Rightarrow> None)"

definition totals_knowledge :: "token_usage_v1 \<Rightarrow> string" where
  "totals_knowledge u = (case known_totals u of
      None \<Rightarrow> ''unknown'' | Some (i, n, t) \<Rightarrow> if t = 0 then ''known_zero'' else ''known_nonzero'')"

definition exceeds :: "count_observation \<Rightarrow> count_observation \<Rightarrow> bool" where
  "exceeds child parent = (case (reported_count child, reported_count parent) of (Some c, Some p) \<Rightarrow> p < c | _ \<Rightarrow> False)"

definition validate_usage :: "token_usage_v1 \<Rightarrow> exn option" where
  "validate_usage u = first_error
     [fail_if (List.member (count_observations u) Inapplicable)
        (ValueError ''this source profile has no not-applicable count''),
      fail_if (tk_input_cache_write u \<noteq> Unreported) (ValueError ''cache-write is not verified by this profile''),
      fail_if (tk_source_protocol u = ''ollama_openai_chat_completions''
          \<and> (tk_input_cache_read u \<noteq> Unreported \<or> tk_output_reasoning u \<noteq> Unreported))
        (ValueError ''Ollama detail counts are not verified by this profile''),
      fail_if (case known_totals u of None \<Rightarrow> False | Some (i, n, t) \<Rightarrow> i + n \<noteq> t)
        (ValueError ''token total does not equal input plus output''),
      fail_if (tk_totals_state u \<noteq> totals_knowledge u) (ValueError ''token knowledge disagrees with reported observations''),
      fail_if (exceeds (tk_input_cache_read u) (tk_input_total u) \<or> exceeds (tk_output_reasoning u) (tk_output_total u))
        (ValueError ''token subset exceeds its inclusive total''),
      fail_if (tk_classification_state u \<noteq>
          (if (case tk_profile_assessment u of Unsupported r \<Rightarrow> True | Supported \<Rightarrow> False) \<or> totals_knowledge u = ''unknown''
           then ''unknown'' else ''partial''))
        (ValueError ''classification disagrees with source knowledge'')]"

definition dispatched :: "usage_evidence \<Rightarrow> bool" where
  "dispatched e \<longleftrightarrow> xo_dispatch_started_at (ue_execution e) \<noteq> None"

definition evidence_check :: "usage_evidence \<Rightarrow> exn option" where
  "evidence_check e = first_error
     [fail_if (ue_revision e = ''1'' \<and> ue_predecessor e \<noteq> None) (ValueError ''first revision cannot have a predecessor''),
      fail_if (ue_revision e \<noteq> ''1'' \<and> ue_predecessor e = None) (ValueError ''later revision requires a predecessor''),
      fail_if (case ue_predecessor e of None \<Rightarrow> False
          | Some p \<Rightarrow> pr_event_id p = vi_event_id (ue_identity e) \<or> pr_digest p = ue_digest e)
        (ValueError ''evidence predecessor cannot refer to itself''),
      fail_if (dispatched e \<and> authorization_state (ue_authorization e) \<noteq> ''granted'')
        (ValueError ''dispatched attempt requires its granted observation''),
      fail_if (xo_outcome (ue_execution e) = ''not_dispatched'' \<and> dispatched e)
        (ValueError ''not-dispatched outcome contradicts dispatch observation''),
      fail_if (xo_outcome (ue_execution e) \<in> {''completed'', ''failed''} \<and> \<not> dispatched e)
        (ValueError ''executed outcome requires a dispatch observation''),
      (case ue_usage e of Normalized u d \<Rightarrow> validate_usage u | Unresolved r d \<Rightarrow> None),
      fail_if (usage_state (ue_usage e) = ''normalized'' \<and> \<not> dispatched e)
        (ValueError ''provider usage cannot be attached to an undispatched attempt'')]"

definition evidence_domain :: "usage_version \<Rightarrow> string" where
  "evidence_domain ver = ''kokoro-agent:model-usage-evidence:'' @ (case ver of V1 \<Rightarrow> ''v1'' | V2 \<Rightarrow> ''v2'') @ [char_of (10::nat)]"

definition facts_digest :: "(json \<Rightarrow> string result) \<Rightarrow> (string \<Rightarrow> string) \<Rightarrow> usage_version \<Rightarrow> json \<Rightarrow> string result" where
  "facts_digest jcs sha ver facts = bind_r (jcs facts) (\<lambda>raw. Inr (sha (evidence_domain ver @ raw)))"

definition without_digest :: "json \<Rightarrow> json" where
  "without_digest j = (case j of JObj kvs \<Rightarrow> JObj (filter (\<lambda>(k, v). k \<noteq> ''digest'') kvs) | _ \<Rightarrow> j)"

text \<open>\<open>parse_evidence\<close> of both modules; the original bytes need not be canonical here.\<close>

definition parse_evidence ::
  "(json \<Rightarrow> string result) \<Rightarrow> (string \<Rightarrow> string) \<Rightarrow> usage_version \<Rightarrow> string \<Rightarrow> usage_evidence result" where
  "parse_evidence jcs sha ver raw =
     (if max_json_bytes < utf8_length raw then Inl (ValueError ''evidence JSON exceeds its byte budget'')
      else case loads_unique raw of None \<Rightarrow> Inl (ValueError ''json'') | Some decoded \<Rightarrow>
        if \<not> tree_ok 1 decoded then Inl (ValueError ''evidence nesting exceeds its bound'')
        else if \<not> json_object decoded then invalid
        else bind_r (dec_usage_evidence ver decoded) (\<lambda>evidence.
          guard_r (evidence_check evidence)
          (bind_r (facts_digest jcs sha ver (without_digest decoded)) (\<lambda>expected.
            if ue_digest evidence \<noteq> expected then Inl (ValueError ''evidence digest does not bind its canonical facts'')
            else Inr evidence))))"

section \<open>Successors\<close>

definition knowledge_check :: "usage_evidence \<Rightarrow> usage_evidence \<Rightarrow> exn option" where
  "knowledge_check previous incoming = first_error
     [fail_if (raw_usage_digest (ue_usage previous) \<noteq> None
          \<and> raw_usage_digest (ue_usage previous) \<noteq> raw_usage_digest (ue_usage incoming))
        (ValueError ''observed raw usage digest cannot be replaced or discarded''),
      fail_if ((case ue_actual previous of VerifiedAttribution p m e d \<Rightarrow> True | UnknownAttribution r \<Rightarrow> False)
          \<and> ue_actual incoming \<noteq> ue_actual previous)
        (ValueError ''verified attribution cannot be replaced''),
      fail_if (xo_outcome (ue_execution previous) \<noteq> ''unknown''
          \<and> xo_outcome (ue_execution previous) \<noteq> xo_outcome (ue_execution incoming))
        (ValueError ''known execution outcome cannot be replaced''),
      fail_if (xo_prepared_at (ue_execution previous) \<noteq> xo_prepared_at (ue_execution incoming))
        (ValueError ''original preparation time is immutable''),
      fail_if (dispatched previous
          \<and> xo_dispatch_started_at (ue_execution previous) \<noteq> xo_dispatch_started_at (ue_execution incoming))
        (ValueError ''observed dispatch cannot be replaced''),
      fail_if (xo_seal (ue_execution previous) \<and> \<not> xo_seal (ue_execution incoming))
        (ValueError ''successor cannot unseal an observation''),
      fail_if (authorization_state (ue_authorization previous) \<in> {''granted'', ''denied''}
          \<and> ue_authorization previous \<noteq> ue_authorization incoming)
        (ValueError ''known authorization observation cannot be replaced''),
      fail_if (case ue_authorization previous of
          Requested s r \<Rightarrow> s = ''requested_unknown'' \<and> (case ue_authorization incoming of
              NotRequested \<Rightarrow> True | Requested s' r' \<Rightarrow> r \<noteq> r' | Granted r' a' \<Rightarrow> r \<noteq> r')
        | _ \<Rightarrow> False)
        (ValueError ''authorization request identity cannot be replaced''),
      (case ue_usage previous of
         Unresolved r d \<Rightarrow> None
       | Normalized before d \<Rightarrow> (case ue_usage incoming of
           Unresolved r' d' \<Rightarrow> Some (ValueError ''reported token observations cannot be discarded'')
         | Normalized after d' \<Rightarrow> first_error
             [fail_if (tk_profile_assessment before \<noteq> tk_profile_assessment after)
                (ValueError ''known source profile assessment cannot be replaced''),
              fail_if (tk_source_protocol before \<noteq> tk_source_protocol after)
                (ValueError ''source usage interpretation is immutable''),
              fail_if (list_ex (\<lambda>(x, y). reported_count x \<noteq> None \<and> x \<noteq> y)
                  (zip (count_observations before) (count_observations after)))
                (ValueError ''known token observation conflicts with successor'')]))]"

definition model_dump_json :: "usage_evidence \<Rightarrow> string" where
  "model_dump_json e = dumps_compact False (enc_usage_evidence e)"

definition validate_successor ::
  "(json \<Rightarrow> string result) \<Rightarrow> (string \<Rightarrow> string) \<Rightarrow> usage_evidence \<Rightarrow> usage_evidence \<Rightarrow> unit result" where
  "validate_successor jcs sha previous incoming =
     bind_r (parse_evidence jcs sha V2 (model_dump_json previous)) (\<lambda>_.
     bind_r (parse_evidence jcs sha V2 (model_dump_json incoming)) (\<lambda>_.
     if vi_binding (ue_identity previous) \<noteq> vi_binding (ue_identity incoming) \<or> ue_planned previous \<noteq> ue_planned incoming
     then Inl (ValueError ''usage revision changed its immutable binding'')
     else if ue_revision incoming = ue_revision previous then
       (if incoming \<noteq> previous then Inl (ValueError ''usage revision replay conflicts'') else Inr ())
     else if undigits (ue_revision incoming) \<noteq> undigits (ue_revision previous) + 1
     then Inl (ValueError ''usage revision is not contiguous'')
     else if (case ue_predecessor incoming of None \<Rightarrow> True
         | Some p \<Rightarrow> pr_event_id p \<noteq> vi_event_id (ue_identity previous) \<or> pr_digest p \<noteq> ue_digest previous)
         \<or> vi_event_id (ue_identity incoming) = vi_event_id (ue_identity previous)
     then Inl (ValueError ''usage revision predecessor does not match'')
     else guard_r (knowledge_check previous incoming) (Inr ())))"

section \<open>Canonical artifacts\<close>

text \<open>\<open>_json_value\<close> rejects values nested deeper than 16; the other values of \<open>json\<close> it returns unchanged.\<close>

function within_depth :: "nat \<Rightarrow> json \<Rightarrow> bool" where
  "within_depth depth v \<longleftrightarrow> depth \<le> 16 \<and> (case v of
      JObj kvs \<Rightarrow> list_all (\<lambda>(k, w). within_depth (Suc depth) w) kvs
    | JList ws \<Rightarrow> list_all (within_depth (Suc depth)) ws
    | _ \<Rightarrow> True)"
  by pat_completeness auto
termination
  by (relation "measure (\<lambda>(d, v). size v)") (auto simp: less_Suc_eq_le size_list_estimation' dest: size_in_items)

declare within_depth.simps [simp del]

definition canonical_artifact :: "(json \<Rightarrow> string result) \<Rightarrow> (string \<Rightarrow> string) \<Rightarrow> json \<Rightarrow> (string \<times> string) result" where
  "canonical_artifact jcs sha v =
     (if \<not> within_depth 1 v then Inl (ModelCallInputInvalid ''model-call canonical value is invalid'')
      else bind_r (reraise (ModelCallInputInvalid ''model-call canonical value is invalid'') (jcs v)) (\<lambda>raw.
        if raw = [] \<or> max_json_bytes < utf8_length raw
        then Inl (ModelCallInputInvalid ''model-call canonical value exceeds its bound'')
        else Inr (raw, sha raw)))"

definition encode_planned_artifact where
  "encode_planned_artifact jcs sha planned = canonical_artifact jcs sha (enc_planned V2 planned)"

definition encode_not_requested_artifact where
  "encode_not_requested_artifact jcs sha = canonical_artifact jcs sha (enc_authorization NotRequested)"

definition construct_authorization :: "authorization \<Rightarrow> authorization result" where
  "construct_authorization = construct (\<lambda>a. fail_if (\<not> authorization_ok a) strict_error)"

definition encode_requested_artifact where
  "encode_requested_artifact jcs sha request_ref =
     bind_r (construct_authorization (Requested ''requested_unknown'' request_ref))
       (\<lambda>a. canonical_artifact jcs sha (enc_authorization a))"

definition encode_granted_artifact where
  "encode_granted_artifact jcs sha request_ref admission_ref =
     bind_r (construct_authorization (Granted request_ref admission_ref))
       (\<lambda>a. canonical_artifact jcs sha (enc_authorization a))"

text \<open>\<open>Model.model_validate_json(raw, strict=True)\<close>.\<close>

definition validate_json :: "(json \<Rightarrow> 'a result) \<Rightarrow> string \<Rightarrow> 'a result" where
  "validate_json dec raw = (case loads raw of None \<Rightarrow> Inl (ValidationError ''json'') | Some v \<Rightarrow> dec v)"

definition only_granted :: "json \<Rightarrow> authorization result" where
  "only_granted j = bind_r (dec_authorization j) (\<lambda>a. case a of Granted r m \<Rightarrow> Inr a | _ \<Rightarrow> invalid)"

definition strict_granted_artifact ::
  "(json \<Rightarrow> string result) \<Rightarrow> (string \<Rightarrow> string) \<Rightarrow> string \<Rightarrow> (string \<times> string) result" where
  "strict_granted_artifact jcs sha raw =
     bind_r (reraise (ModelCallInputInvalid ''granted authorization artifact is invalid'') (validate_json only_granted raw))
     (\<lambda>granted. bind_r (canonical_artifact jcs sha (enc_authorization granted)) (\<lambda>(canonical, digest).
       if canonical \<noteq> raw then Inl (ModelCallInputInvalid ''granted authorization artifact is not canonical'')
       else Inr (case granted of Granted r m \<Rightarrow> r | _ \<Rightarrow> [], digest)))"

section \<open>Peer paths\<close>

definition as_object :: "json \<Rightarrow> (string \<times> json) list option" where
  "as_object v = (case v of JObj kvs \<Rightarrow> Some kvs | _ \<Rightarrow> None)"

definition require_object :: "string \<Rightarrow> (string \<times> json) list \<Rightarrow> (string \<times> json) list option" where
  "require_object k kvs = Option.bind (map_of kvs k) as_object"

definition require_list :: "string \<Rightarrow> (string \<times> json) list \<Rightarrow> json list option" where
  "require_list k kvs = (case map_of kvs k of Some (JList xs) \<Rightarrow> Some xs | _ \<Rightarrow> None)"

definition require_string :: "json \<Rightarrow> string option" where
  "require_string v = (case v of JStr s \<Rightarrow> if s = [] then None else Some s | _ \<Rightarrow> None)"

definition require_str :: "string \<Rightarrow> (string \<times> json) list \<Rightarrow> string option" where
  "require_str k kvs = Option.bind (map_of kvs k) require_string"

text \<open>The value of a key in each object of a list; other values are skipped.\<close>

fun collect_keyed :: "string \<Rightarrow> json list \<Rightarrow> (string \<times> (string \<times> json) list) list option" where
  "collect_keyed k [] = Some []"
| "collect_keyed k (v # vs) = (case as_object v of
      None \<Rightarrow> collect_keyed k vs
    | Some item \<Rightarrow> Option.bind (require_str k item) (\<lambda>s. map_option (\<lambda>r. (s, item) # r) (collect_keyed k vs)))"

fun collect_edges :: "json list \<Rightarrow> (string \<times> string) list option" where
  "collect_edges [] = Some []"
| "collect_edges (JList [a, b] # vs) = Option.bind (require_string a) (\<lambda>s. Option.bind (require_string b) (\<lambda>t.
     map_option ((#) (s, t)) (collect_edges vs)))"
| "collect_edges (JList edge # vs) = collect_edges vs"
| "collect_edges (v # vs) = None"

text \<open>The last of several agents with one key is kept, and a repeated key is rejected by the count.\<close>

fun walk_peers :: "(string \<times> (string \<times> json) list) list \<Rightarrow> (string \<times> string) list \<Rightarrow> string \<Rightarrow> string list \<Rightarrow> bool" where
  "walk_peers agents handoffs current [] = True"
| "walk_peers agents handoffs current (target # path) = (case map_of agents current of
      None \<Rightarrow> False
    | Some agent \<Rightarrow> (case Option.bind (require_list ''subagents'' agent) (collect_keyed ''name'') of
        None \<Rightarrow> False
      | Some subagents \<Rightarrow>
          if List.member (map fst subagents) target then walk_peers agents handoffs target path
          else List.member handoffs (current, target) \<and> map_of agents target \<noteq> None
            \<and> walk_peers agents handoffs target path))"

definition recipe_feature :: "json \<Rightarrow> string list \<Rightarrow> string option" where
  "recipe_feature recipe path = Option.bind (as_object recipe) (\<lambda>root.
     if \<not> within_depth 1 recipe then None
     else Option.bind (require_object ''feature'' root) (\<lambda>feature.
       Option.bind (require_list ''agents'' feature) (\<lambda>agent_items.
       Option.bind (collect_keyed ''key'' agent_items) (\<lambda>agents.
       if length (remdups (map fst agents)) \<noteq> length agent_items then None
       else Option.bind (Option.bind (require_list ''handoffs'' feature) collect_edges) (\<lambda>handoffs.
         Option.bind (require_str ''entry_agent'' feature) (\<lambda>entry_agent.
         case path of [] \<Rightarrow> None | first # rest \<Rightarrow>
           if first \<noteq> entry_agent \<or> map_of agents first = None \<or> \<not> walk_peers agents handoffs first rest then None
           else require_str ''key'' feature))))))"

definition recipe_feature_for_peer_path :: "string \<Rightarrow> string list \<Rightarrow> string result" where
  "recipe_feature_for_peer_path recipe_bytes path =
     (case Option.bind (loads recipe_bytes) (\<lambda>recipe. recipe_feature recipe path) of
        None \<Rightarrow> Inl (ModelCallInputInvalid ''peer path is outside the frozen recipe'')
      | Some feature \<Rightarrow> Inr feature)"

section \<open>Frozen attempts\<close>

text \<open>The exceptions of \<open>call_evidence.py\<close>.\<close>

definition conflict :: "'a result" where
  "conflict = Inl (ModelCallIdentityConflict ''model-call'')"

definition input_invalid :: "'a result" where
  "input_invalid = Inl (ModelCallInputInvalid ''model-call evidence'')"

definition frozen_object :: "string \<Rightarrow> json result" where
  "frozen_object raw = (case loads raw of Some (JObj kvs) \<Rightarrow> Inr (JObj kvs) | _ \<Rightarrow> conflict)"

definition frozen_bytes :: "(json \<Rightarrow> string result) \<Rightarrow> (string \<Rightarrow> string) \<Rightarrow> string \<Rightarrow> string \<Rightarrow> unit result" where
  "frozen_bytes jcs sha raw digest =
     (if sha raw \<noteq> digest then conflict
      else bind_r (frozen_object raw) (\<lambda>v. bind_r (jcs v) (\<lambda>again. if again \<noteq> raw then conflict else Inr ())))"

definition frozen_authorization :: "string \<Rightarrow> string \<Rightarrow> authorization result" where
  "frozen_authorization state raw =
     (if state \<notin> {''not_requested'', ''requested_unknown'', ''denied'', ''granted''} then conflict
      else bind_r (reraise (ModelCallIdentityConflict ''model-call'') (validate_json dec_authorization raw)) (\<lambda>a.
        let wanted = (case a of NotRequested \<Rightarrow> state = ''not_requested''
            | Requested s r \<Rightarrow> state \<in> {''requested_unknown'', ''denied''} | Granted r m \<Rightarrow> state = ''granted'') in
        if \<not> wanted \<or> authorization_state a \<noteq> state then conflict else Inr a))"

definition binding_of_row :: "attempt_row \<Rightarrow> attempt_binding \<Rightarrow> bool" where
  "binding_of_row a b \<longleftrightarrow> ab_tenant_ref b = ma_tenant a \<and> ab_run_id b = ma_run a \<and> ab_call_id b = ma_call a
     \<and> ab_attempt_ordinal b = show_int (ma_ordinal a)
     \<and> ul_owner (ab_lease b) = ma_owner a \<and> ul_generation (ab_lease b) = show_int (ma_generation a)"

definition validate_frozen_attempt ::
  "(json \<Rightarrow> string result) \<Rightarrow> (string \<Rightarrow> string) \<Rightarrow> usage_version \<Rightarrow> string \<Rightarrow> attempt_row \<Rightarrow> unit result" where
  "validate_frozen_attempt jcs sha ver attempt_id a =
     (if ma_request_version a \<noteq> 1 \<or> \<not> hex64 (ma_request_digest a) then conflict
      else bind_r (frozen_bytes jcs sha (ma_binding a) (ma_binding_digest a)) (\<lambda>_.
        bind_r (frozen_bytes jcs sha (ma_planned a) (ma_planned_digest a)) (\<lambda>_.
        bind_r (frozen_bytes jcs sha (ma_authorization a) (ma_authorization_digest a)) (\<lambda>_.
        bind_r (reraise (ModelCallIdentityConflict ''model-call'') (validate_json dec_attempt_binding (ma_binding a))) (\<lambda>binding.
        bind_r (reraise (ModelCallIdentityConflict ''model-call'') (validate_json (dec_planned ver) (ma_planned a))) (\<lambda>_.
        bind_r (frozen_authorization (ma_authorization_state a) (ma_authorization a)) (\<lambda>_.
        if \<not> binding_of_row a binding \<or> ab_attempt_id binding \<noteq> attempt_id then conflict else Inr ())))))))"

section \<open>Evidence against an attempt\<close>

record validated_evidence =
  ve_evidence :: usage_evidence
  ve_event_id :: string
  ve_revision :: int
  ve_digest :: string
  ve_observed :: int
  ve_outcome :: string
  ve_usage :: string
  ve_totals :: string
  ve_classification :: string

text \<open>\<open>_utc_instant\<close>; the wire models admit only text that it reads.\<close>

definition utc_instant :: "string \<Rightarrow> int result" where
  "utc_instant s = (case utc_millis s of None \<Rightarrow> input_invalid | Some ms \<Rightarrow> Inr ms)"

definition opt_instant :: "string option \<Rightarrow> int option result" where
  "opt_instant v = (case v of None \<Rightarrow> Inr None | Some s \<Rightarrow> bind_r (utc_instant s) (\<lambda>ms. Inr (Some ms)))"

text \<open>The columns of an attempt that evidence is checked against.\<close>

definition validate_evidence_binding ::
  "(json \<Rightarrow> string result) \<Rightarrow> string \<Rightarrow> usage_evidence \<Rightarrow> attempt_row \<Rightarrow> int \<Rightarrow> validated_evidence result" where
  "validate_evidence_binding jcs raw e a us =
     bind_r (jcs (enc_usage_evidence e)) (\<lambda>canonical.
     if canonical \<noteq> raw then input_invalid
     else let revision = int (undigits (ue_revision e)) in
     if \<not> (1 \<le> revision \<and> revision \<le> 9223372036854775807) \<or> \<not> xo_seal (ue_execution e) then input_invalid
     else bind_r (jcs (enc_attempt_binding (vi_binding (ue_identity e)))) (\<lambda>identity.
     if identity \<noteq> ma_binding a then conflict
     else bind_r (jcs (enc_planned (ue_version e) (ue_planned e))) (\<lambda>planned.
     if planned \<noteq> ma_planned a then conflict
     else bind_r (jcs (enc_authorization (ue_authorization e))) (\<lambda>authorization.
     if authorization \<noteq> ma_authorization a then conflict
     else bind_r (utc_instant (xo_prepared_at (ue_execution e))) (\<lambda>prepared.
     bind_r (opt_instant (xo_dispatch_started_at (ue_execution e))) (\<lambda>dispatch.
     bind_r (utc_instant (ue_observed_at e)) (\<lambda>observed.
     if prepared \<noteq> ma_prepared a \<or> dispatch \<noteq> ma_dispatched a then conflict
     else if observed < ma_prepared a \<or> us < observed * 1000 then input_invalid
     else if (case ma_dispatched a of None \<Rightarrow> False | Some d \<Rightarrow> observed < d) then input_invalid
     else Inr \<lparr>ve_evidence = e, ve_event_id = vi_event_id (ue_identity e), ve_revision = revision,
       ve_digest = ue_digest e, ve_observed = observed, ve_outcome = xo_outcome (ue_execution e),
       ve_usage = usage_state (ue_usage e),
       ve_totals = (case ue_usage e of Normalized u d \<Rightarrow> tk_totals_state u | Unresolved r d \<Rightarrow> ''unknown''),
       ve_classification = (case ue_usage e of Normalized u d \<Rightarrow> tk_classification_state u | Unresolved r d \<Rightarrow> ''unknown'')\<rparr>)))))))"

definition validate_append_evidence ::
  "(json \<Rightarrow> string result) \<Rightarrow> (string \<Rightarrow> string) \<Rightarrow> string \<Rightarrow> attempt_row \<Rightarrow> int \<Rightarrow> validated_evidence result" where
  "validate_append_evidence jcs sha raw a us =
     bind_r (reraise (ModelCallInputInvalid ''model-call evidence'') (parse_evidence jcs sha V2 raw))
       (\<lambda>e. validate_evidence_binding jcs raw e a us)"

text \<open>\<open>parse_stored_evidence\<close>: the version of a sealed artifact selects its reader.\<close>

definition parse_stored_evidence ::
  "(json \<Rightarrow> string result) \<Rightarrow> (string \<Rightarrow> string) \<Rightarrow> string \<Rightarrow> usage_evidence result" where
  "parse_stored_evidence jcs sha raw =
     (if max_json_bytes < utf8_length raw then Inl (ValueError ''stored model evidence exceeds its bound'')
      else case loads raw of
        Some (JObj kvs) \<Rightarrow>
          bind_r (if map_of kvs ''artifact_version'' = Some (JStr ''1.0.0'') then parse_evidence jcs sha V1 raw
            else if map_of kvs ''artifact_version'' = Some (JStr ''2.0.0'') then parse_evidence jcs sha V2 raw
            else Inl (ValueError ''stored model evidence version is unsupported'')) (\<lambda>e.
          if \<not> xo_seal (ue_execution e) then Inl (ValueError ''stored model evidence is not sealed'') else Inr e)
      | _ \<Rightarrow> invalid)"

definition validate_sealed_evidence ::
  "(json \<Rightarrow> string result) \<Rightarrow> (string \<Rightarrow> string) \<Rightarrow> string \<Rightarrow> attempt_row \<Rightarrow> int \<Rightarrow> validated_evidence result" where
  "validate_sealed_evidence jcs sha raw a us =
     bind_r (reraise (ModelCallInputInvalid ''model-call evidence'') (parse_stored_evidence jcs sha raw))
       (\<lambda>e. validate_evidence_binding jcs raw e a us)"

section \<open>Closing an open attempt\<close>

definition closable_state :: "attempt_row \<Rightarrow> bool" where
  "closable_state a \<longleftrightarrow> (ma_status a, ma_authorization_state a) \<in>
     {(''prepared'', ''not_requested''), (''authorization_pending'', ''requested_unknown''), (''authorized'', ''granted''),
      (''dispatch_started'', ''granted'')}"

definition closure_document :: "attempt_row \<Rightarrow> json \<Rightarrow> json \<Rightarrow> json \<Rightarrow> string \<Rightarrow> int \<Rightarrow> json" where
  "closure_document a identity planned authorization event_id observed =
     (let started = (ma_status a = ''dispatch_started'') in JObj
     [(''artifact_version'', JStr ''2.0.0''),
      (''identity'', JObj (AList.update ''event_id'' (JStr event_id) (case identity of JObj kvs \<Rightarrow> kvs | _ \<Rightarrow> []))),
      (''planned'', planned),
      (''actual'', JObj [(''state'', JStr ''unknown''), (''reason'', JStr ''not_observed'')]),
      (''authorization_observation'', authorization),
      (''execution'', JObj
        [(''outcome'', JStr (if started then ''unknown'' else ''not_dispatched'')), (''seal'', JBool True),
         (''prepared_at'', JStr (utc_text (ma_prepared a))),
         (''dispatch_started_at'', or_null (\<lambda>d. JStr (utc_text d)) (ma_dispatched a))]),
      (''usage'', JObj
        [(''state'', JStr ''unresolved''), (''reason'', JStr (if started then ''incomplete_response'' else ''missing_usage'')),
         (''raw_usage_digest'', JNull)]),
      (''revision'', JStr ''1''), (''predecessor'', JNull), (''observed_at'', JStr (utc_text observed))])"

definition with_digest :: "json \<Rightarrow> string \<Rightarrow> json" where
  "with_digest j d = (case j of JObj kvs \<Rightarrow> JObj (kvs @ [(''digest'', JStr d)]) | _ \<Rightarrow> j)"

text \<open>\<open>event_id\<close> is the \<open>uuid4\<close> drawn for this attempt.\<close>

definition build_terminal_closure_evidence ::
  "(json \<Rightarrow> string result) \<Rightarrow> (string \<Rightarrow> string) \<Rightarrow> string \<Rightarrow> string \<Rightarrow> attempt_row \<Rightarrow> int
    \<Rightarrow> (string \<times> validated_evidence) result" where
  "build_terminal_closure_evidence jcs sha event_id attempt_id a us =
     bind_r (validate_frozen_attempt jcs sha V2 attempt_id a) (\<lambda>_.
     if \<not> closable_state a then conflict
     else if (ma_status a = ''dispatch_started'') \<noteq> (ma_dispatched a \<noteq> None) then conflict
     else let observed = to_ms us in
     bind_r (frozen_object (ma_binding a)) (\<lambda>identity.
     bind_r (frozen_object (ma_planned a)) (\<lambda>planned.
     bind_r (frozen_object (ma_authorization a)) (\<lambda>authorization.
     let document = closure_document a identity planned authorization event_id observed in
     bind_r (facts_digest jcs sha V2 document) (\<lambda>digest.
     bind_r (jcs (with_digest document digest)) (\<lambda>raw.
     bind_r (validate_append_evidence jcs sha raw a (observed * 1000)) (\<lambda>artifact. Inr (raw, artifact))))))))"

end
