(* ===== verification/Run_Profiles.thy ===== *)
theory Run_Profiles
  imports Run_Leases
begin

text \<open>
  The static assembly recipe of a run: \<open>src/kokoro_agent/infrastructure/postgres_run_profiles.py\<close>. A worker
  freezes the recipe of the run it leases before any external effect; a later assembly has to present the
  same bytes. Bytes are the text they encode, and a float keeps the text it was written with.
\<close>

record static_recipe =
  sr_bytes :: string
  sr_fingerprint :: string

definition max_static_recipe_bytes :: nat where
  "max_static_recipe_bytes = 8388608"

definition recipe_domain :: string where
  "recipe_domain = ''kokoro-agent:assembly-recipe:1''"

text \<open>\<open>canonical_json\<close> of \<open>src/kokoro_agent/execution/runtime_profile.py\<close>.\<close>

definition canonical_json :: "json \<Rightarrow> string" where
  "canonical_json v = dumps_compact False (sort_json v)"

definition recipe_valid :: "(string \<Rightarrow> string) \<Rightarrow> static_recipe \<Rightarrow> bool" where
  "recipe_valid sha b \<longleftrightarrow> sr_bytes b \<noteq> [] \<and> utf8_length (sr_bytes b) \<le> max_static_recipe_bytes
     \<and> sha (sr_bytes b) = sr_fingerprint b
     \<and> (case loads (sr_bytes b) of
          Some (JObj kvs) \<Rightarrow> map_of kvs ''domain_tag'' = Some (JStr recipe_domain) \<and> canonical_json (JObj kvs) = sr_bytes b
        | _ \<Rightarrow> False)"

definition validate_static_recipe :: "(string \<Rightarrow> string) \<Rightarrow> static_recipe \<Rightarrow> exn option" where
  "validate_static_recipe sha b = fail_if (\<not> recipe_valid sha b) StaticRecipeIncompatible"

definition untouched :: "claim \<Rightarrow> bool" where
  "untouched c \<longleftrightarrow> cl_durable c = 0 \<and> cl_index c = 0 \<and> cl_tokens c = 0 \<and> cl_input c = 0 \<and> cl_output c = 0
     \<and> cl_sandbox_id c = None \<and> cl_sandbox_generation c = None \<and> cl_sandbox_kind c = None \<and> cl_sandbox_ref c = None"

text \<open>True is \<open>"frozen"\<close>, False is \<open>"matched"\<close>.\<close>

definition freeze_or_verify_static_recipe ::
  "(string \<Rightarrow> string) \<Rightarrow> int \<Rightarrow> run_request \<Rightarrow> lease_fence \<Rightarrow> static_recipe \<Rightarrow> bool tx" where
  "freeze_or_verify_static_recipe sha us request lease binding db = guard_r (validate_static_recipe sha binding)
     (case map_of (claims db) (rq_run_id request) of
        None \<Rightarrow> Inl StaticRecipeAuthorityLost
      | Some row \<Rightarrow>
          if cl_tenant row \<noteq> ei_tenant_ref (rq_identity request) \<or> \<not> fenced row lease \<or> \<not> lease_live_us us row
          then Inl StaticRecipeAuthorityLost
          else if cl_request row \<noteq> Some (request_text request) then Inl StaticRecipeIncompatible
          else (case (cl_recipe_bytes row, cl_recipe_fingerprint row) of
              (None, None) \<Rightarrow>
                if \<not> untouched row then Inl StaticRecipeIncompatible
                else bind_r (update_claim (rq_run_id request) (\<lambda>c. cl_tenant c = ei_tenant_ref (rq_identity request))
                    (\<lambda>c. c\<lparr>cl_recipe_bytes := Some (sr_bytes binding), cl_recipe_fingerprint := Some (sr_fingerprint binding)\<rparr>) db)
                  (\<lambda>(r, db). case r of None \<Rightarrow> Inl StaticRecipeAuthorityLost | Some _ \<Rightarrow> Inr (True, db))
            | (Some raw, Some digest) \<Rightarrow>
                guard_r (validate_static_recipe sha \<lparr>sr_bytes = raw, sr_fingerprint = digest\<rparr>)
                (if \<lparr>sr_bytes = raw, sr_fingerprint = digest\<rparr> \<noteq> binding then Inl StaticRecipeIncompatible
                 else Inr (False, db))
            | _ \<Rightarrow> Inl StaticRecipeIncompatible))"

text \<open>A frozen recipe is valid for the run it was frozen in, and a second freeze only matches it.\<close>

lemma freeze_static_recipe_Inr:
  assumes "freeze_or_verify_static_recipe sha us q l b db = Inr (frozen, db')"
  shows "recipe_valid sha b \<and> (\<exists>row. map_of (claims db) (rq_run_id q) = Some row \<and> fenced row l \<and> lease_live_us us row
    \<and> (if frozen then cl_recipe_bytes row = None \<and> untouched row
         \<and> db' = db\<lparr>claims := update_at (rq_run_id q)
             (\<lambda>c. c\<lparr>cl_recipe_bytes := Some (sr_bytes b), cl_recipe_fingerprint := Some (sr_fingerprint b)\<rparr>) (claims db)\<rparr>
       else cl_recipe_bytes row = Some (sr_bytes b) \<and> cl_recipe_fingerprint row = Some (sr_fingerprint b) \<and> db' = db))"
  using assms
  by (auto simp: freeze_or_verify_static_recipe_def validate_static_recipe_def update_claim_def
      split: option.splits if_splits)

end
