(* ===== verification/Model_Calls.thy ===== *)
theory Model_Calls
  imports Model_Evidence Run_Profiles
begin

text \<open>
  The durable life of one model call: \<open>src/kokoro_agent/infrastructure/postgres_model_call_repository.py\<close> and
  the evidence primitives of \<open>postgres_model_call_evidence.py\<close>. An attempt is prepared, asks for and
  receives its authorization, is dispatched once, and is sealed by evidence, which the worker appends or
  the terminal transition of the run supplies. \<open>us\<close> is the clock of the database in microseconds, \<open>jcs\<close>
  is \<open>rfc8785.dumps\<close>, \<open>sha\<close> the hex digest of \<open>hashlib.sha256\<close>.
\<close>

section \<open>Tables\<close>

text \<open>The CHECK constraints of the two tables.\<close>

definition sized :: "string \<Rightarrow> bool" where
  "sized raw \<longleftrightarrow> raw \<noteq> [] \<and> utf8_length raw \<le> 65536"

definition attempt_state_ok :: "attempt_row \<Rightarrow> bool" where
  "attempt_state_ok a \<longleftrightarrow> (let s = ma_status a; z = ma_authorization_state a; started = (ma_dispatched a \<noteq> None) in
     (s, z) \<in> {(''prepared'', ''not_requested''), (''authorization_pending'', ''requested_unknown''), (''authorized'', ''granted'')}
       \<and> \<not> started \<and> ma_revision a = 0
     \<or> (s, z) = (''dispatch_started'', ''granted'') \<and> started \<and> ma_revision a = 0
     \<or> (s, z) = (''authorization_denied'', ''denied'') \<and> \<not> started \<and> 0 < ma_revision a
     \<or> (s, z) \<in> {(''observed'', ''granted''), (''unknown'', ''granted'')} \<and> started \<and> 0 < ma_revision a
     \<or> s = ''not_dispatched'' \<and> z \<in> {''not_requested'', ''requested_unknown'', ''granted''} \<and> \<not> started \<and> 0 < ma_revision a)"

definition attempt_row_ok :: "attempt_row \<Rightarrow> bool" where
  "attempt_row_ok a \<longleftrightarrow> \<not> btrim_empty (ma_tenant a) \<and> ma_run a \<noteq> [] \<and> ma_owner a \<noteq> []
     \<and> 0 < ma_ordinal a \<and> 0 < ma_generation a \<and> ma_request_version a = 1 \<and> hex64 (ma_request_digest a)
     \<and> sized (ma_binding a) \<and> sized (ma_planned a) \<and> sized (ma_authorization a)
     \<and> hex64 (ma_binding_digest a) \<and> hex64 (ma_planned_digest a) \<and> hex64 (ma_authorization_digest a)
     \<and> (case ma_evidence a of None \<Rightarrow> True | Some d \<Rightarrow> hex64 d)
     \<and> (if ma_revision a = 0 then ma_event a = None \<and> ma_evidence a = None \<and> ma_sealed a = None
        else 0 < ma_revision a \<and> ma_event a \<noteq> None \<and> ma_evidence a \<noteq> None \<and> ma_sealed a \<noteq> None)
     \<and> attempt_state_ok a
     \<and> (case ma_dispatched a of None \<Rightarrow> True | Some d \<Rightarrow> ma_prepared a \<le> d)
     \<and> (case ma_sealed a of None \<Rightarrow> True | Some s \<Rightarrow> ma_prepared a \<le> s
          \<and> (case ma_dispatched a of None \<Rightarrow> True | Some d \<Rightarrow> d \<le> s))"

definition evidence_row_ok :: "evidence_row \<Rightarrow> bool" where
  "evidence_row_ok e \<longleftrightarrow> \<not> btrim_empty (me_tenant e) \<and> me_run e \<noteq> [] \<and> 0 < me_revision e \<and> hex64 (me_digest e)
     \<and> (case me_prior_digest e of None \<Rightarrow> True | Some d \<Rightarrow> hex64 d)
     \<and> (if me_revision e = 1 then me_prior_event e = None \<and> me_prior_digest e = None
        else me_prior_event e \<noteq> None \<and> me_prior_digest e \<noteq> None)
     \<and> sized (me_bytes e) \<and> me_sealed e
     \<and> me_outcome e \<in> {''not_dispatched'', ''completed'', ''failed'', ''cancelled'', ''unknown''}
     \<and> me_usage e \<in> {''normalized'', ''unresolved''}
     \<and> me_totals e \<in> {''known_zero'', ''known_nonzero'', ''unknown''}
     \<and> me_classification e \<in> {''complete'', ''partial'', ''unknown''}
     \<and> (me_usage e = ''unresolved'' \<longrightarrow> me_totals e = ''unknown'' \<and> me_classification e = ''unknown'')
     \<and> (me_usage e = ''normalized'' \<longrightarrow>
          me_totals e \<in> {''known_zero'', ''known_nonzero''} \<and> me_classification e = ''partial''
          \<or> me_totals e = ''unknown'' \<and> me_classification e = ''unknown'')
     \<and> (me_outcome e = ''not_dispatched'' \<longrightarrow> me_usage e = ''unresolved'')
     \<and> (me_outcome e = ''unknown'' \<longrightarrow> me_totals e = ''unknown'' \<and> me_classification e = ''unknown'')"

text \<open>A millisecond column rounds the microsecond clock.\<close>

definition round_ms :: "int \<Rightarrow> int" where
  "round_ms us = (us + 500) div 1000"

definition insert_attempt :: "string \<Rightarrow> attempt_row \<Rightarrow> db \<Rightarrow> db result" where
  "insert_attempt attempt_id a db =
     (if \<not> attempt_row_ok a then Inl CheckViolation
      else if list_ex (\<lambda>(i, x). i = attempt_id
          \<or> ma_run x = ma_run a \<and> ma_call x = ma_call a \<and> ma_ordinal x = ma_ordinal a
          \<or> ma_tenant x = ma_tenant a \<and> ma_run x = ma_run a \<and> ma_binding_digest x = ma_binding_digest a)
        (attempts (models db)) then Inl UniqueViolation
      else Inr (db\<lparr>models := (models db)\<lparr>attempts := attempts (models db) @ [(attempt_id, a)]\<rparr>\<rparr>))"

definition update_attempt :: "string \<Rightarrow> (attempt_row \<Rightarrow> attempt_row) \<Rightarrow> db \<Rightarrow> db result" where
  "update_attempt attempt_id f db = (case map_of (attempts (models db)) attempt_id of
      None \<Rightarrow> Inr db
    | Some a \<Rightarrow> if \<not> attempt_row_ok (f a) then Inl CheckViolation
        else Inr (db\<lparr>models := (models db)\<lparr>attempts := update_at attempt_id f (attempts (models db))\<rparr>\<rparr>))"

definition insert_evidence :: "string \<Rightarrow> evidence_row \<Rightarrow> db \<Rightarrow> db result" where
  "insert_evidence event_id e db =
     (if \<not> evidence_row_ok e then Inl CheckViolation
      else if list_ex (\<lambda>(i, x). i = event_id \<or> me_attempt x = me_attempt e
          \<and> (me_revision x = me_revision e \<or> me_digest x = me_digest e)) (evidences (models db)) then Inl UniqueViolation
      else Inr (db\<lparr>models := (models db)\<lparr>evidences := evidences (models db) @ [(event_id, e)]\<rparr>\<rparr>))"

definition evidence_at :: "string \<Rightarrow> int \<Rightarrow> db \<Rightarrow> (string \<times> evidence_row) option" where
  "evidence_at attempt_id revision db =
     List.find (\<lambda>(i, e). me_attempt e = attempt_id \<and> me_revision e = revision) (evidences (models db))"

section \<open>Completeness\<close>

definition run_attempts :: "string \<Rightarrow> db \<Rightarrow> (string \<times> attempt_row) list" where
  "run_attempts run_id db = select_where (\<lambda>_ a. ma_run a = run_id) (attempts (models db))"

definition head_unknown :: "attempt_row \<Rightarrow> (string \<times> evidence_row) option \<Rightarrow> bool" where
  "head_unknown a head = (case head of None \<Rightarrow> True | Some (i, e) \<Rightarrow>
     me_tenant e \<noteq> ma_tenant a \<or> me_run e \<noteq> ma_run a \<or> me_call e \<noteq> ma_call a
     \<or> me_outcome e \<noteq> ''not_dispatched''
       \<and> (me_outcome e = ''unknown'' \<or> me_usage e = ''unresolved'' \<or> me_classification e = ''unknown''))"

definition head_partial :: "(string \<times> evidence_row) option \<Rightarrow> bool" where
  "head_partial head = (case head of None \<Rightarrow> False
     | Some (i, e) \<Rightarrow> me_outcome e \<noteq> ''not_dispatched'' \<and> me_classification e = ''partial'')"

record model_counts =
  mk_attempts :: int
  mk_dispatched :: int
  mk_sealed :: int
  mk_unknown :: int
  mk_completeness :: string

definition completeness_of :: "string \<Rightarrow> db \<Rightarrow> model_counts" where
  "completeness_of run_id db =
     (let rows = run_attempts run_id db;
          head = (\<lambda>i a. evidence_at i (ma_revision a) db);
          attempts = int (length rows);
          sealed = int (length (filter (\<lambda>(i, a). ma_sealed a \<noteq> None) rows));
          unknown = int (length (filter (\<lambda>(i, a). ma_sealed a \<noteq> None \<and> head_unknown a (head i a)) rows));
          partial = int (length (filter (\<lambda>(i, a). head_partial (head i a)) rows)) in
      \<lparr>mk_attempts = attempts, mk_dispatched = int (length (filter (\<lambda>(i, a). ma_dispatched a \<noteq> None) rows)),
       mk_sealed = sealed, mk_unknown = unknown,
       mk_completeness = (if attempts = 0 then ''none'' else if sealed < attempts \<or> 0 < unknown then ''unknown''
         else if 0 < partial then ''partial'' else ''complete'')\<rparr>)"

definition set_counts :: "model_counts \<Rightarrow> claim \<Rightarrow> claim" where
  "set_counts k c = c\<lparr>cl_model_attempts := mk_attempts k, cl_model_dispatched := mk_dispatched k,
     cl_model_sealed := mk_sealed k, cl_model_unknown := mk_unknown k, cl_model_completeness := mk_completeness k\<rparr>"

definition recompute_run_completeness :: "string \<Rightarrow> db \<Rightarrow> db result" where
  "recompute_run_completeness run_id db =
     bind_r (update_claim run_id (\<lambda>_. True) (set_counts (completeness_of run_id db)) db) (\<lambda>(_, db). Inr db)"

section \<open>Commands\<close>

record model_call =
  mc_tenant :: string
  mc_run :: string
  mc_attempt :: string
  mc_lease :: lease_fence
  mc_binding_digest :: string
  mc_planned_digest :: string

record begin_call = model_call +
  bg_request_ref :: string

record grant_call = model_call +
  gr_expected :: string
  gr_request_ref :: string
  gr_admission_ref :: string

record start_call = model_call +
  sd_authorization_digest :: string
  sd_request_ref :: string
  sd_admission_ref :: string

record append_call = model_call +
  ap_authorization_digest :: string
  ap_bytes :: string

record prepare_call =
  pp_request :: run_request
  pp_lease :: lease_fence
  pp_call :: string
  pp_attempt :: string
  pp_planned :: planned_binding
  pp_peer_path :: "string list"
  pp_recipe :: static_recipe
  pp_request_version :: int
  pp_request_digest :: string

record prepared_call =
  rp_ordinal :: int
  rp_binding :: string
  rp_binding_digest :: string
  rp_planned :: string
  rp_planned_digest :: string
  rp_prepared :: int
  rp_replayed :: bool

section \<open>Locks\<close>

definition authority_lost :: "'a result" where
  "authority_lost = Inl (ModelCallAuthorityLost ''model-call'')"

definition claim_of :: "string \<Rightarrow> string \<Rightarrow> db \<Rightarrow> claim option" where
  "claim_of tenant run_id db = (case map_of (claims db) run_id of
      None \<Rightarrow> None | Some c \<Rightarrow> if cl_tenant c = tenant then Some c else None)"

definition attempt_of :: "string \<Rightarrow> string \<Rightarrow> string \<Rightarrow> db \<Rightarrow> attempt_row option" where
  "attempt_of tenant run_id attempt_id db = (case map_of (attempts (models db)) attempt_id of
      None \<Rightarrow> None | Some a \<Rightarrow> if ma_tenant a = tenant \<and> ma_run a = run_id then Some a else None)"

definition leased_by :: "attempt_row \<Rightarrow> lease_fence \<Rightarrow> bool" where
  "leased_by a l \<longleftrightarrow> ma_owner a = lf_owner l \<and> ma_generation a = lf_generation l"

definition lock_attempt ::
  "(json \<Rightarrow> string result) \<Rightarrow> (string \<Rightarrow> string) \<Rightarrow> int \<Rightarrow> 'a model_call_scheme \<Rightarrow> db \<Rightarrow> attempt_row result" where
  "lock_attempt jcs sha us m db = (case claim_of (mc_tenant m) (mc_run m) db of
      None \<Rightarrow> authority_lost
    | Some run \<Rightarrow>
        if \<not> fenced run (mc_lease m) \<or> \<not> lease_live_us us run then authority_lost
        else (case attempt_of (mc_tenant m) (mc_run m) (mc_attempt m) db of
            None \<Rightarrow> authority_lost
          | Some a \<Rightarrow>
              if \<not> leased_by a (mc_lease m) \<or> ma_binding_digest a \<noteq> mc_binding_digest m
                 \<or> ma_planned_digest a \<noteq> mc_planned_digest m then conflict
              else bind_r (validate_frozen_attempt jcs sha V2 (mc_attempt m) a) (\<lambda>_. Inr a)))"

definition require_authorization :: "attempt_row \<Rightarrow> string \<Rightarrow> string \<Rightarrow> exn option" where
  "require_authorization a raw digest =
     fail_if (ma_authorization a \<noteq> raw \<or> ma_authorization_digest a \<noteq> digest) (ModelCallIdentityConflict ''model-call'')"

definition set_authorization :: "string \<Rightarrow> string \<Rightarrow> string \<Rightarrow> string \<Rightarrow> attempt_row \<Rightarrow> attempt_row" where
  "set_authorization raw digest state status a =
     a\<lparr>ma_authorization := raw, ma_authorization_digest := digest, ma_authorization_state := state, ma_status := status\<rparr>"

section \<open>Authorization and dispatch\<close>

text \<open>The result is the recorded authorization and whether this call recorded it.\<close>

definition begin_authorization ::
  "(json \<Rightarrow> string result) \<Rightarrow> (string \<Rightarrow> string) \<Rightarrow> int \<Rightarrow> begin_call \<Rightarrow> (string \<times> string \<times> bool) tx" where
  "begin_authorization jcs sha us m db =
     bind_r (encode_requested_artifact jcs sha (bg_request_ref m)) (\<lambda>(raw, digest).
     bind_r (lock_attempt jcs sha us m db) (\<lambda>a.
     if ma_status a = ''prepared'' then
       bind_r (encode_not_requested_artifact jcs sha) (\<lambda>(initial, initial_digest).
       guard_r (require_authorization a initial initial_digest)
       (bind_r (update_attempt (mc_attempt m)
           (set_authorization raw digest ''requested_unknown'' ''authorization_pending'') db) (\<lambda>db'.
         Inr ((raw, digest, True), db'))))
     else if ma_status a = ''authorization_pending'' then
       guard_r (require_authorization a raw digest) (Inr ((raw, digest, False), db))
     else bind_r (reraise (ModelCallIdentityConflict ''model-call'')
         (strict_granted_artifact jcs sha (ma_authorization a))) (\<lambda>(request_ref, current_digest).
       if request_ref \<noteq> bg_request_ref m \<or> ma_authorization_digest a \<noteq> current_digest then conflict
       else Inr ((ma_authorization a, ma_authorization_digest a, False), db))))"

definition grant_authorization ::
  "(json \<Rightarrow> string result) \<Rightarrow> (string \<Rightarrow> string) \<Rightarrow> int \<Rightarrow> grant_call \<Rightarrow> (string \<times> string \<times> bool) tx" where
  "grant_authorization jcs sha us m db =
     bind_r (encode_granted_artifact jcs sha (gr_request_ref m) (gr_admission_ref m)) (\<lambda>(raw, digest).
     bind_r (lock_attempt jcs sha us m db) (\<lambda>a.
     if ma_status a = ''authorization_pending'' then
       bind_r (encode_requested_artifact jcs sha (gr_request_ref m)) (\<lambda>(requested, requested_digest).
       if ma_authorization a \<noteq> requested \<or> ma_authorization_digest a \<noteq> gr_expected m
          \<or> gr_expected m \<noteq> requested_digest then conflict
       else bind_r (update_attempt (mc_attempt m) (set_authorization raw digest ''granted'' ''authorized'') db) (\<lambda>db'.
         Inr ((raw, digest, True), db')))
     else guard_r (require_authorization a raw digest) (Inr ((raw, digest, False), db))))"

text \<open>The permit: the instant of the dispatch and whether this call started it.\<close>

definition start_dispatch ::
  "(json \<Rightarrow> string result) \<Rightarrow> (string \<Rightarrow> string) \<Rightarrow> int \<Rightarrow> start_call \<Rightarrow> (int \<times> bool) tx" where
  "start_dispatch jcs sha us m db =
     bind_r (encode_granted_artifact jcs sha (sd_request_ref m) (sd_admission_ref m)) (\<lambda>(raw, _).
     bind_r (lock_attempt jcs sha us m db) (\<lambda>a.
     guard_r (require_authorization a raw (sd_authorization_digest m))
     (if ma_status a = ''authorized'' then
        bind_r (update_attempt (mc_attempt m)
            (\<lambda>a. a\<lparr>ma_status := ''dispatch_started'', ma_dispatched := Some (round_ms us)\<rparr>) db) (\<lambda>db'.
        bind_r (recompute_run_completeness (mc_run m) db') (\<lambda>db''. Inr ((round_ms us, True), db'')))
      else (case ma_dispatched a of Some d \<Rightarrow> Inr ((d, False), db) | None \<Rightarrow> authority_lost))))"

section \<open>Preparation\<close>

text \<open>Dataclass and model equality; a trace compares as a dict.\<close>

definition same_run_request :: "run_request \<Rightarrow> run_request \<Rightarrow> bool" where
  "same_run_request q r \<longleftrightarrow> q\<lparr>rq_trace := None\<rparr> = r\<lparr>rq_trace := None\<rparr>
     \<and> (case (rq_trace q, rq_trace r) of
          (None, None) \<Rightarrow> True | (Some a, Some b) \<Rightarrow> py_eq (JObj a) (JObj b) | _ \<Rightarrow> False)"

definition durable_request :: "string option \<Rightarrow> run_request result" where
  "durable_request column = (case column of
      None \<Rightarrow> authority_lost
    | Some s \<Rightarrow> reraise (ModelCallAuthorityLost ''model-call'') (parse_request s))"

text \<open>\<open>encode_attempt_binding\<close> of \<open>call_artifacts.py\<close>, with the constructors that validate.\<close>

definition construct_usage :: "('a \<Rightarrow> bool) \<Rightarrow> 'a \<Rightarrow> 'a result" where
  "construct_usage ok = construct (\<lambda>x. fail_if (\<not> ok x) strict_error)"

definition encode_attempt_binding ::
  "(json \<Rightarrow> string result) \<Rightarrow> (string \<Rightarrow> string) \<Rightarrow> prepare_call \<Rightarrow> run_request \<Rightarrow> int \<Rightarrow> (string \<times> string) result" where
  "encode_attempt_binding jcs sha m request ordinal =
     (let identity = rq_identity request;
          reference = (\<lambda>r. construct_usage usage_ref_ok \<lparr>ur_kind = ir_kind r, ur_opaque_ref = ir_opaque_ref r\<rparr>) in
     bind_r (reference (ei_actor identity)) (\<lambda>actor.
     bind_r (reference (ei_subject identity)) (\<lambda>subject.
     bind_r (construct_usage usage_lease_ok
         \<lparr>ul_owner = lf_owner (pp_lease m), ul_generation = show_int (lf_generation (pp_lease m))\<rparr>) (\<lambda>lease.
     bind_r (canonical_artifact jcs sha (enc_run_input (rq_input request))) (\<lambda>(_, input_digest).
     bind_r (construct_usage attempt_binding_ok
         \<lparr>ab_tenant_ref = ei_tenant_ref identity, ab_actor = actor, ab_subject = subject,
          ab_identity_assertion_ref = ei_assertion_ref identity, ab_run_id = rq_run_id request,
          ab_session_id = rq_session_id request, ab_call_id = pp_call m, ab_attempt_id = pp_attempt m,
          ab_attempt_ordinal = show_int ordinal, ab_lease = lease, ab_input_digest = input_digest,
          ab_peer_path = pp_peer_path m\<rparr>) (\<lambda>binding.
     canonical_artifact jcs sha (enc_attempt_binding binding)))))))"

definition replay_prepared ::
  "attempt_row \<Rightarrow> prepare_call \<Rightarrow> string \<times> string \<Rightarrow> string \<times> string \<Rightarrow> prepared_call result" where
  "replay_prepared a m binding planned =
     (if ma_call a = pp_call m \<and> leased_by a (pp_lease m) \<and> (ma_binding a, ma_binding_digest a) = binding
         \<and> (ma_planned a, ma_planned_digest a) = planned \<and> ma_request_version a = pp_request_version m
         \<and> ma_request_digest a = pp_request_digest m
      then Inr \<lparr>rp_ordinal = ma_ordinal a, rp_binding = fst binding, rp_binding_digest = ma_binding_digest a,
        rp_planned = fst planned, rp_planned_digest = snd planned, rp_prepared = ma_prepared a, rp_replayed = True\<rparr>
      else conflict)"

definition next_ordinal :: "string \<Rightarrow> string \<Rightarrow> db \<Rightarrow> int result" where
  "next_ordinal run_id call_id db =
     (case map (ma_ordinal \<circ> snd) (select_where (\<lambda>_ a. ma_run a = run_id \<and> ma_call a = call_id) (attempts (models db))) of
        [] \<Rightarrow> Inr 1
      | n # ns \<Rightarrow> let maximum = fold max ns n in
          if maximum = 9223372036854775807 then Inl ModelCallOrdinalExhausted else Inr (maximum + 1))"

definition new_attempt :: "prepare_call \<Rightarrow> int \<Rightarrow> string \<times> string \<Rightarrow> string \<times> string \<Rightarrow> string \<times> string \<Rightarrow> int \<Rightarrow> attempt_row" where
  "new_attempt m ordinal binding planned authorization prepared =
     \<lparr>ma_tenant = ei_tenant_ref (rq_identity (pp_request m)), ma_run = rq_run_id (pp_request m), ma_call = pp_call m,
      ma_ordinal = ordinal, ma_owner = lf_owner (pp_lease m), ma_generation = lf_generation (pp_lease m),
      ma_binding = fst binding, ma_binding_digest = snd binding, ma_planned = fst planned,
      ma_planned_digest = snd planned, ma_request_version = pp_request_version m, ma_request_digest = pp_request_digest m,
      ma_authorization = fst authorization, ma_authorization_digest = snd authorization,
      ma_authorization_state = ''not_requested'', ma_status = ''prepared'', ma_prepared = prepared,
      ma_dispatched = None, ma_sealed = None, ma_revision = 0, ma_event = None, ma_evidence = None\<rparr>"

definition prepare_authority ::
  "(string \<Rightarrow> string) \<Rightarrow> int \<Rightarrow> prepare_call \<Rightarrow> db \<Rightarrow> run_request result" where
  "prepare_authority sha us m db =
     (let q = pp_request m; recipe = pp_recipe m in
      case claim_of (ei_tenant_ref (rq_identity q)) (rq_run_id q) db of
        None \<Rightarrow> authority_lost
      | Some run \<Rightarrow>
          if \<not> fenced run (pp_lease m) \<or> \<not> lease_live_us us run then authority_lost
          else bind_r (durable_request (cl_request run)) (\<lambda>durable.
            if \<not> same_run_request durable q then authority_lost
            else if validate_static_recipe sha recipe \<noteq> None then Inl (ModelCallInputInvalid ''model-call recipe is invalid'')
            else if cl_recipe_bytes run \<noteq> Some (sr_bytes recipe) \<or> cl_recipe_fingerprint run \<noteq> Some (sr_fingerprint recipe)
               \<or> sha (sr_bytes recipe) \<noteq> sr_fingerprint recipe then authority_lost
            else bind_r (recipe_feature_for_peer_path (sr_bytes recipe) (pp_peer_path m)) (\<lambda>feature.
              if feature \<noteq> rq_feature_key durable \<or> pb_feature_key (pp_planned m) \<noteq> rq_feature_key durable
              then Inl (ModelCallInputInvalid ''feature differs from durable Run'')
              else Inr durable)))"

definition prepare_locked ::
  "(json \<Rightarrow> string result) \<Rightarrow> (string \<Rightarrow> string) \<Rightarrow> int \<Rightarrow> prepare_call \<Rightarrow> string \<times> string \<Rightarrow> string \<times> string
    \<Rightarrow> prepared_call tx" where
  "prepare_locked jcs sha us m planned authorization db =
     bind_r (prepare_authority sha us m db) (\<lambda>durable.
     case attempt_of (ei_tenant_ref (rq_identity (pp_request m))) (rq_run_id durable) (pp_attempt m) db of
       Some a \<Rightarrow> bind_r (encode_attempt_binding jcs sha m durable (ma_ordinal a)) (\<lambda>binding.
         bind_r (replay_prepared a m binding planned) (\<lambda>r. Inr (r, db)))
     | None \<Rightarrow>
         bind_r (next_ordinal (rq_run_id durable) (pp_call m) db) (\<lambda>ordinal.
         bind_r (encode_attempt_binding jcs sha m durable ordinal) (\<lambda>binding.
         bind_r (insert_attempt (pp_attempt m) (new_attempt m ordinal binding planned authorization (round_ms us)) db) (\<lambda>db'.
         bind_r (recompute_run_completeness (rq_run_id durable) db') (\<lambda>db''.
         Inr (\<lparr>rp_ordinal = ordinal, rp_binding = fst binding, rp_binding_digest = snd binding,
           rp_planned = fst planned, rp_planned_digest = snd planned, rp_prepared = round_ms us, rp_replayed = False\<rparr>,
           db''))))))"

definition same_attempt_scope :: "prepare_call \<Rightarrow> db \<Rightarrow> bool" where
  "same_attempt_scope m db =
     (attempt_of (ei_tenant_ref (rq_identity (pp_request m))) (rq_run_id (pp_request m)) (pp_attempt m) db \<noteq> None)"

text \<open>A unique violation of a concurrent insert is retried once in the same scope.\<close>

definition prepare ::
  "(json \<Rightarrow> string result) \<Rightarrow> (string \<Rightarrow> string) \<Rightarrow> int \<Rightarrow> prepare_call \<Rightarrow> prepared_call tx" where
  "prepare jcs sha us m db =
     bind_r (encode_planned_artifact jcs sha (pp_planned m)) (\<lambda>planned.
     bind_r (encode_not_requested_artifact jcs sha) (\<lambda>authorization.
     let r = prepare_locked jcs sha us m planned authorization db in
     if r = Inl UniqueViolation then
       if same_attempt_scope m db then prepare_locked jcs sha us m planned authorization db else conflict
     else r))"

section \<open>Evidence\<close>

definition lock_evidence_attempt ::
  "(json \<Rightarrow> string result) \<Rightarrow> (string \<Rightarrow> string) \<Rightarrow> int \<Rightarrow> append_call \<Rightarrow> db \<Rightarrow> (attempt_row \<times> bool) result" where
  "lock_evidence_attempt jcs sha us m db = (case claim_of (mc_tenant m) (mc_run m) db of
      None \<Rightarrow> authority_lost
    | Some run \<Rightarrow>
        if \<not> cl_terminal run \<and> (\<not> fenced run (mc_lease m) \<or> \<not> lease_live_us us run) then authority_lost
        else (case attempt_of (mc_tenant m) (mc_run m) (mc_attempt m) db of
            None \<Rightarrow> authority_lost
          | Some a \<Rightarrow>
              if \<not> leased_by a (mc_lease m) \<or> ma_binding_digest a \<noteq> mc_binding_digest m
                 \<or> ma_planned_digest a \<noteq> mc_planned_digest m \<or> ma_authorization_digest a \<noteq> ap_authorization_digest m
              then conflict
              else bind_r (validate_frozen_attempt jcs sha V2 (mc_attempt m) a) (\<lambda>_. Inr (a, cl_terminal run))))"

definition replay_evidence :: "append_call \<Rightarrow> validated_evidence \<Rightarrow> bool \<Rightarrow> db \<Rightarrow> bool result" where
  "replay_evidence m v allow_new db =
     (case List.find (\<lambda>(i, e). me_tenant e = mc_tenant m \<and> me_run e = mc_run m \<and> me_attempt e = mc_attempt m
          \<and> me_revision e = ve_revision v) (evidences (models db)) of
        None \<Rightarrow> if allow_new then conflict else authority_lost
      | Some (i, e) \<Rightarrow>
          if i \<noteq> ve_event_id v \<or> me_bytes e \<noteq> ap_bytes m \<or> me_digest e \<noteq> ve_digest v \<or> me_observed e \<noteq> ve_observed v
          then conflict else Inr True)"

definition evidence_row_of :: "string \<Rightarrow> string \<Rightarrow> string \<Rightarrow> validated_evidence \<Rightarrow> string \<Rightarrow> evidence_row" where
  "evidence_row_of tenant run_id attempt_id v raw =
     \<lparr>me_tenant = tenant, me_run = run_id, me_attempt = attempt_id, me_call = ab_call_id (vi_binding (ue_identity (ve_evidence v))),
      me_revision = ve_revision v, me_prior_event = map_option pr_event_id (ue_predecessor (ve_evidence v)),
      me_prior_digest = map_option pr_digest (ue_predecessor (ve_evidence v)), me_bytes = raw, me_digest = ve_digest v,
      me_outcome = ve_outcome v, me_usage = ve_usage v, me_totals = ve_totals v, me_classification = ve_classification v,
      me_sealed = True, me_observed = ve_observed v\<rparr>"

definition seal_attempt :: "string \<Rightarrow> validated_evidence \<Rightarrow> attempt_row \<Rightarrow> attempt_row" where
  "seal_attempt status v a = a\<lparr>ma_status := status, ma_sealed := Some (ve_observed v), ma_revision := ve_revision v,
     ma_event := Some (ve_event_id v), ma_evidence := Some (ve_digest v)\<rparr>"

definition check_next_revision ::
  "(json \<Rightarrow> string result) \<Rightarrow> (string \<Rightarrow> string) \<Rightarrow> string \<Rightarrow> attempt_row \<Rightarrow> validated_evidence \<Rightarrow> db \<Rightarrow> unit result" where
  "check_next_revision jcs sha attempt_id a v db =
     (if ma_revision a = 0 then
        (if ma_status a \<noteq> ''dispatch_started'' \<or> ve_revision v \<noteq> 1 \<or> ue_predecessor (ve_evidence v) \<noteq> None
         then conflict else Inr ())
      else if ma_status a \<notin> {''observed'', ''unknown''} then conflict
      else (case evidence_at attempt_id (ma_revision a) db of
          None \<Rightarrow> conflict
        | Some (i, e) \<Rightarrow> bind_r (parse_evidence jcs sha V2 (me_bytes e)) (\<lambda>previous.
            reraise (ModelCallIdentityConflict ''model-call'') (validate_successor jcs sha previous (ve_evidence v)))))"

text \<open>True is a replayed receipt.\<close>

definition append_evidence_locked ::
  "(json \<Rightarrow> string result) \<Rightarrow> (string \<Rightarrow> string) \<Rightarrow> append_call \<Rightarrow> attempt_row \<Rightarrow> validated_evidence \<Rightarrow> bool \<Rightarrow> bool tx" where
  "append_evidence_locked jcs sha m a v allow_new db =
     (if ue_version (ve_evidence v) \<noteq> V2 then conflict
      else if ve_revision v \<le> ma_revision a then bind_r (replay_evidence m v allow_new db) (\<lambda>r. Inr (r, db))
      else if \<not> allow_new then authority_lost
      else if ve_revision v \<noteq> ma_revision a + 1 then conflict
      else bind_r (check_next_revision jcs sha (mc_attempt m) a v db) (\<lambda>_.
        bind_r (insert_evidence (ve_event_id v) (evidence_row_of (mc_tenant m) (mc_run m) (mc_attempt m) v (ap_bytes m)) db) (\<lambda>db1.
        bind_r (update_attempt (mc_attempt m)
            (seal_attempt (if ve_outcome v = ''unknown'' then ''unknown'' else ''observed'') v) db1) (\<lambda>db2.
        bind_r (recompute_run_completeness (mc_run m) db2) (\<lambda>db3. Inr (False, db3))))))"

definition append_evidence ::
  "(json \<Rightarrow> string result) \<Rightarrow> (string \<Rightarrow> string) \<Rightarrow> int \<Rightarrow> append_call \<Rightarrow> bool tx" where
  "append_evidence jcs sha us m db =
     bind_r (lock_evidence_attempt jcs sha us m db) (\<lambda>(a, terminal).
     bind_r (validate_append_evidence jcs sha (ap_bytes m) a us) (\<lambda>v.
     append_evidence_locked jcs sha m a v (\<not> terminal) db))"

section \<open>Reading sealed evidence\<close>

record final_evidence =
  fe_version :: string
  fe_tenant :: string
  fe_attempt :: string
  fe_event :: string
  fe_revision :: int
  fe_bytes :: string
  fe_digest :: string
  fe_observed :: int

text \<open>The immutable head against the columns of its attempt; any failure is one error.\<close>

definition check_final ::
  "(json \<Rightarrow> string result) \<Rightarrow> (string \<Rightarrow> string) \<Rightarrow> string \<Rightarrow> attempt_row \<Rightarrow> string \<Rightarrow> evidence_row \<Rightarrow> final_evidence result" where
  "check_final jcs sha attempt_id a event_id e =
     bind_r (parse_stored_evidence jcs sha (me_bytes e)) (\<lambda>artifact.
     bind_r (validate_frozen_attempt jcs sha (ue_version artifact) attempt_id a) (\<lambda>_.
     bind_r (utc_instant (ue_observed_at artifact)) (\<lambda>observed.
     bind_r (jcs (enc_usage_evidence artifact)) (\<lambda>canonical.
     if canonical \<noteq> me_bytes e \<or> \<not> xo_seal (ue_execution artifact) \<or> ma_revision a \<noteq> me_revision e
        \<or> ma_evidence a \<noteq> Some (me_digest e) \<or> ma_tenant a \<noteq> me_tenant e \<or> ma_run a \<noteq> me_run e \<or> attempt_id \<noteq> me_attempt e
        \<or> ma_call a \<noteq> me_call e
        \<or> \<not> (case loads (ma_binding a) of None \<Rightarrow> False | Some v \<Rightarrow> py_eq (enc_attempt_binding (vi_binding (ue_identity artifact))) v)
        \<or> vi_event_id (ue_identity artifact) \<noteq> event_id \<or> int (undigits (ue_revision artifact)) \<noteq> me_revision e
        \<or> ue_digest artifact \<noteq> me_digest e \<or> observed \<noteq> me_observed e
        \<or> \<not> (case loads (ma_planned a) of None \<Rightarrow> False | Some v \<Rightarrow> py_eq (enc_planned (ue_version artifact) (ue_planned artifact)) v)
        \<or> \<not> (case loads (ma_authorization a) of None \<Rightarrow> False | Some v \<Rightarrow> py_eq (enc_authorization (ue_authorization artifact)) v)
        \<or> xo_prepared_at (ue_execution artifact) \<noteq> utc_text (ma_prepared a)
        \<or> xo_dispatch_started_at (ue_execution artifact) \<noteq> map_option utc_text (ma_dispatched a)
     then invalid
     else Inr \<lparr>fe_version = version_text (ue_version artifact), fe_tenant = ma_tenant a, fe_attempt = attempt_id,
       fe_event = event_id, fe_revision = me_revision e, fe_bytes = me_bytes e, fe_digest = me_digest e,
       fe_observed = observed\<rparr>))))"

definition read_final_evidence ::
  "(json \<Rightarrow> string result) \<Rightarrow> (string \<Rightarrow> string) \<Rightarrow> string \<Rightarrow> string \<Rightarrow> string \<Rightarrow> db \<Rightarrow> final_evidence option result" where
  "read_final_evidence jcs sha tenant attempt_id event_id db =
     (case (map_of (attempts (models db)) attempt_id, map_of (evidences (models db)) event_id) of
        (Some a, Some e) \<Rightarrow>
          if ma_tenant a = tenant \<and> ma_event a = Some event_id \<and> ma_sealed a \<noteq> None \<and> me_sealed e
             \<and> me_attempt e = attempt_id \<and> me_tenant e = tenant
          then (case check_final jcs sha attempt_id a event_id e of
              Inl _ \<Rightarrow> Inl ModelCallEvidenceInvariantFailed | Inr f \<Rightarrow> Inr (Some f))
          else Inr None
      | _ \<Rightarrow> Inr None)"

text \<open>\<open>assert_current_producer_ready\<close>: every open attempt has a canonical planned binding of this version.\<close>

definition planned_current :: "(json \<Rightarrow> string result) \<Rightarrow> string \<Rightarrow> bool" where
  "planned_current jcs raw \<longleftrightarrow> utf8_length raw \<le> 65536
     \<and> (case validate_json (dec_planned V2) raw of Inl _ \<Rightarrow> False
        | Inr p \<Rightarrow> (case jcs (enc_planned V2 p) of Inl _ \<Rightarrow> False | Inr again \<Rightarrow> again = raw))"

definition assert_current_producer_ready :: "(json \<Rightarrow> string result) \<Rightarrow> db \<Rightarrow> exn option" where
  "assert_current_producer_ready jcs db = fail_if
     (list_ex (\<lambda>(i, a). ma_sealed a = None \<and> \<not> planned_current jcs (ma_planned a)) (attempts (models db)))
     (RuntimeError ''unsealed legacy model attempts prevent current producer startup'')"

section \<open>Closing the attempts of a terminal run\<close>

definition expected_status :: "attempt_row \<Rightarrow> validated_evidence \<Rightarrow> string" where
  "expected_status a v =
     (if ve_outcome v = ''unknown'' then ''unknown''
      else if ve_outcome v = ''not_dispatched''
      then (if ma_authorization_state a = ''denied'' then ''authorization_denied'' else ''not_dispatched'')
      else ''observed'')"

definition validate_sealed_head ::
  "(json \<Rightarrow> string result) \<Rightarrow> (string \<Rightarrow> string) \<Rightarrow> int \<Rightarrow> string \<Rightarrow> attempt_row \<Rightarrow> db \<Rightarrow> unit result" where
  "validate_sealed_head jcs sha us attempt_id a db =
     (case List.find (\<lambda>(i, e). me_tenant e = ma_tenant a \<and> me_run e = ma_run a \<and> me_attempt e = attempt_id
          \<and> me_revision e = ma_revision a) (evidences (models db)) of
        None \<Rightarrow> conflict
      | Some (i, e) \<Rightarrow>
          bind_r (validate_sealed_evidence jcs sha (me_bytes e) a us) (\<lambda>v.
          bind_r (validate_frozen_attempt jcs sha (ue_version (ve_evidence v)) attempt_id a) (\<lambda>_.
          if me_call e = ma_call a \<and> ve_revision v = ma_revision a
             \<and> map_option pr_event_id (ue_predecessor (ve_evidence v)) = me_prior_event e
             \<and> map_option pr_digest (ue_predecessor (ve_evidence v)) = me_prior_digest e
             \<and> i = ve_event_id v \<and> me_digest e = ve_digest v \<and> ma_event a = Some (ve_event_id v)
             \<and> ma_evidence a = Some (ve_digest v) \<and> ma_status a = expected_status a v
             \<and> me_outcome e = ve_outcome v \<and> me_usage e = ve_usage v \<and> me_totals e = ve_totals v
             \<and> me_classification e = ve_classification v \<and> me_sealed e \<and> me_observed e = ve_observed v
             \<and> ma_sealed a = Some (ve_observed v)
          then Inr () else conflict)))"

text \<open>\<open>fresh\<close> gives the \<open>uuid4\<close> drawn for each attempt.\<close>

definition close_attempt ::
  "(json \<Rightarrow> string result) \<Rightarrow> (string \<Rightarrow> string) \<Rightarrow> (string \<Rightarrow> string) \<Rightarrow> int \<Rightarrow> bool
    \<Rightarrow> string \<times> attempt_row \<Rightarrow> db \<Rightarrow> db result" where
  "close_attempt jcs sha fresh us allow_create ia db = (case ia of (attempt_id, a) \<Rightarrow>
     if 0 < ma_revision a then bind_r (validate_sealed_head jcs sha us attempt_id a db) (\<lambda>_. Inr db)
     else bind_r (validate_frozen_attempt jcs sha V2 attempt_id a) (\<lambda>_.
       if \<not> allow_create then conflict
       else bind_r (build_terminal_closure_evidence jcs sha (fresh attempt_id) attempt_id a us) (\<lambda>(raw, v).
         if ue_predecessor (ve_evidence v) \<noteq> None then conflict
         else bind_r (insert_evidence (ve_event_id v) (evidence_row_of (ma_tenant a) (ma_run a) attempt_id v raw) db) (\<lambda>db1.
           update_attempt attempt_id
             (seal_attempt (if ve_outcome v = ''unknown'' then ''unknown'' else ''not_dispatched'') v) db1))))"

fun close_attempts ::
  "(json \<Rightarrow> string result) \<Rightarrow> (string \<Rightarrow> string) \<Rightarrow> (string \<Rightarrow> string) \<Rightarrow> int \<Rightarrow> bool
    \<Rightarrow> (string \<times> attempt_row) list \<Rightarrow> db \<Rightarrow> db result" where
  "close_attempts jcs sha fresh us allow_create [] db = Inr db"
| "close_attempts jcs sha fresh us allow_create (ia # ias) db =
     bind_r (close_attempt jcs sha fresh us allow_create ia db) (close_attempts jcs sha fresh us allow_create ias)"

definition close_model_call_attempts_for_terminal ::
  "(json \<Rightarrow> string result) \<Rightarrow> (string \<Rightarrow> string) \<Rightarrow> (string \<Rightarrow> string) \<Rightarrow> int \<Rightarrow> string \<Rightarrow> string \<Rightarrow> bool
    \<Rightarrow> db \<Rightarrow> db result" where
  "close_model_call_attempts_for_terminal jcs sha fresh us tenant run_id allow_create db =
     (let rows = sort_key fst (select_where (\<lambda>_ a. ma_tenant a = tenant \<and> ma_run a = run_id) (attempts (models db))) in
      bind_r (close_attempts jcs sha fresh us allow_create rows db) (\<lambda>db1.
      if \<not> allow_create then Inr db1
      else bind_r (if rows = [] then Inr db1 else recompute_run_completeness run_id db1) (\<lambda>db2.
        case map_of (claims db2) run_id of
          None \<Rightarrow> conflict
        | Some c \<Rightarrow> if cl_model_attempts c \<noteq> cl_model_sealed c then conflict else Inr db2)))"

end
