(* ===== verification/Model_Lifecycle.thy ===== *)
theory Model_Lifecycle
  imports Model_Calls Run_System
begin

text \<open>
  The life of a model-call attempt as a state machine. Every operation of the repository changes the two
  tables by writes of four kinds: a prepared attempt is inserted, its authorization recorded, its dispatch
  started, or a piece of evidence appended that seals it. The section headings follow the proof: what the
  operations write, what a write keeps, and the contracts of the repository.
\<close>

section \<open>Writes\<close>

text \<open>The evidence an attempt is sealed with follows the piece it was sealed with before.\<close>

definition follows :: "(json \<Rightarrow> string result) \<Rightarrow> (string \<Rightarrow> string) \<Rightarrow> model_db \<Rightarrow> string \<Rightarrow> attempt_row \<Rightarrow> usage_evidence \<Rightarrow> bool" where
  "follows jcs sha m i a e \<longleftrightarrow> (if ma_revision a = 0 then ue_predecessor e = None
     else (case List.find (\<lambda>(j, x). me_attempt x = i \<and> me_revision x = ma_revision a) (evidences m) of
         None \<Rightarrow> False
       | Some (j, x) \<Rightarrow> (case parse_evidence jcs sha V2 (me_bytes x) of
           Inl _ \<Rightarrow> False | Inr previous \<Rightarrow> validate_successor jcs sha previous e = Inr ())))"

text \<open>The status it gets: of what the worker observed, or of the closing evidence of the terminal transition.\<close>

definition sealing :: "(json \<Rightarrow> string result) \<Rightarrow> (string \<Rightarrow> string) \<Rightarrow> string \<Rightarrow> attempt_row \<Rightarrow> string
    \<Rightarrow> validated_evidence \<Rightarrow> string \<Rightarrow> bool" where
  "sealing jcs sha i a raw v s \<longleftrightarrow> s = expected_status a v
     \<or> (\<exists>event us. build_terminal_closure_evidence jcs sha event i a us = Inr (raw, v))
       \<and> s = (if ve_outcome v = ''unknown'' then ''unknown'' else ''not_dispatched'')"

inductive model_write :: "(json \<Rightarrow> string result) \<Rightarrow> (string \<Rightarrow> string) \<Rightarrow> model_db \<Rightarrow> model_db \<Rightarrow> bool" for jcs sha where
  prepared: "map_of (attempts m) (pp_attempt p) = None \<Longrightarrow> attempt_row_ok (new_attempt p n b l z t)
    \<Longrightarrow> encode_attempt_binding jcs sha p q n = Inr b \<Longrightarrow> encode_planned_artifact jcs sha (pp_planned p) = Inr l
    \<Longrightarrow> encode_not_requested_artifact jcs sha = Inr z
    \<Longrightarrow> rq_run_id q = rq_run_id (pp_request p) \<Longrightarrow> rq_identity q = rq_identity (pp_request p)
    \<Longrightarrow> planned_ok (pp_planned p)
    \<Longrightarrow> model_write jcs sha m (m\<lparr>attempts := attempts m @ [(pp_attempt p, new_attempt p n b l z t)]\<rparr>)"
| requested: "map_of (attempts m) i = Some a \<Longrightarrow> ma_status a = ''prepared''
    \<Longrightarrow> attempt_row_ok (set_authorization raw d ''requested_unknown'' ''authorization_pending'' a)
    \<Longrightarrow> encode_requested_artifact jcs sha r = Inr (raw, d)
    \<Longrightarrow> model_write jcs sha m (m\<lparr>attempts := update_at i (set_authorization raw d ''requested_unknown'' ''authorization_pending'') (attempts m)\<rparr>)"
| granted: "map_of (attempts m) i = Some a \<Longrightarrow> ma_status a = ''authorization_pending''
    \<Longrightarrow> attempt_row_ok (set_authorization raw d ''granted'' ''authorized'' a)
    \<Longrightarrow> encode_granted_artifact jcs sha r admission = Inr (raw, d)
    \<Longrightarrow> model_write jcs sha m (m\<lparr>attempts := update_at i (set_authorization raw d ''granted'' ''authorized'') (attempts m)\<rparr>)"
| started: "map_of (attempts m) i = Some a \<Longrightarrow> ma_status a = ''authorized''
    \<Longrightarrow> attempt_row_ok (a\<lparr>ma_status := ''dispatch_started'', ma_dispatched := Some t\<rparr>)
    \<Longrightarrow> model_write jcs sha m (m\<lparr>attempts := update_at i (\<lambda>a. a\<lparr>ma_status := ''dispatch_started'', ma_dispatched := Some t\<rparr>) (attempts m)\<rparr>)"
| sealed: "map_of (attempts m) i = Some a \<Longrightarrow> validate_append_evidence jcs sha raw a us = Inr v
    \<Longrightarrow> ve_revision v = ma_revision a + 1 \<Longrightarrow> follows jcs sha m i a (ve_evidence v) \<Longrightarrow> sealing jcs sha i a raw v s
    \<Longrightarrow> attempt_row_ok (seal_attempt s v a)
    \<Longrightarrow> evidence_row_ok (evidence_row_of (ma_tenant a) (ma_run a) i v raw)
    \<Longrightarrow> \<forall>(j, e) \<in> set (evidences m). j \<noteq> ve_event_id v
         \<and> \<not> (me_attempt e = i \<and> (me_revision e = ve_revision v \<or> me_digest e = ve_digest v))
    \<Longrightarrow> model_write jcs sha m (m\<lparr>attempts := update_at i (seal_attempt s v) (attempts m),
         evidences := evidences m @ [(ve_event_id v, evidence_row_of (ma_tenant a) (ma_run a) i v raw)]\<rparr>)"

section \<open>What the operations write\<close>

lemma insert_attempt_Inr:
  assumes "insert_attempt i a db = Inr db'"
  shows "attempt_row_ok a \<and> map_of (attempts (models db)) i = None
    \<and> db' = db\<lparr>models := (models db)\<lparr>attempts := attempts (models db) @ [(i, a)]\<rparr>\<rparr>"
proof -
  from assms have "\<not> list_ex (\<lambda>(k, x). k = i \<or> ma_run x = ma_run a \<and> ma_call x = ma_call a \<and> ma_ordinal x = ma_ordinal a
      \<or> ma_tenant x = ma_tenant a \<and> ma_run x = ma_run a \<and> ma_binding_digest x = ma_binding_digest a) (attempts (models db))"
    by (simp add: insert_attempt_def split: if_splits)
  then have "fst kx \<noteq> i" if "kx \<in> set (attempts (models db))" for kx
    using that unfolding list_ex_iff case_prod_beta by blast
  then have "map_of (attempts (models db)) i = None"
    by (auto simp: map_of_eq_None_iff)
  with assms show ?thesis
    by (simp add: insert_attempt_def split: if_splits)
qed

lemma update_attempt_Inr:
  assumes "update_attempt i f db = Inr db'" and "map_of (attempts (models db)) i = Some a"
  shows "attempt_row_ok (f a) \<and> db' = db\<lparr>models := (models db)\<lparr>attempts := update_at i f (attempts (models db))\<rparr>\<rparr>"
  using assms by (auto simp: update_attempt_def split: if_splits)

lemma insert_evidence_Inr:
  assumes "insert_evidence i e db = Inr db'"
  shows "evidence_row_ok e \<and> (\<forall>(j, x) \<in> set (evidences (models db)). j \<noteq> i
      \<and> \<not> (me_attempt x = me_attempt e \<and> (me_revision x = me_revision e \<or> me_digest x = me_digest e)))
    \<and> db' = db\<lparr>models := (models db)\<lparr>evidences := evidences (models db) @ [(i, e)]\<rparr>\<rparr>"
  using assms by (auto simp: insert_evidence_def list_ex_iff split: if_splits)

lemma recompute_Inr:
  assumes "recompute_run_completeness r db = Inr db'"
  shows "models db' = models db
    \<and> db' = db\<lparr>claims := update_at r (set_counts (completeness_of r db)) (claims db)\<rparr>
    \<and> (\<forall>c. map_of (claims db) r = Some c \<longrightarrow> claim_write_error (set_counts (completeness_of r db) c) = None)"
proof -
  obtain y where "update_claim r (\<lambda>_. True) (set_counts (completeness_of r db)) db = Inr (y, db')"
    using assms by (auto simp: recompute_run_completeness_def)
  from update_claim_effect [OF this] show ?thesis
  proof (elim disjE conjE exE)
    assume "case map_of (claims db) r of None \<Rightarrow> True | Some c \<Rightarrow> \<not> True" and db: "db' = db"
    then have "map_of (claims db) r = None" by (auto split: option.splits)
    moreover from this have "update_at r (set_counts (completeness_of r db)) (claims db) = claims db"
      unfolding update_at_def by (intro map_idI) (auto simp: map_of_eq_None_iff image_iff)
    ultimately show ?thesis by (simp add: db)
  qed auto
qed

lemma claim_of_Some: "claim_of tenant r db = Some c \<longleftrightarrow> map_of (claims db) r = Some c \<and> cl_tenant c = tenant"
  by (auto simp: claim_of_def split: option.splits if_splits)

lemma attempt_of_Some: "attempt_of tenant r i db = Some a
    \<longleftrightarrow> map_of (attempts (models db)) i = Some a \<and> ma_tenant a = tenant \<and> ma_run a = r"
  by (auto simp: attempt_of_def split: option.splits if_splits)

lemma lock_attempt_Inr:
  assumes "lock_attempt jcs sha us m db = Inr a"
  shows "map_of (attempts (models db)) (mc_attempt m) = Some a \<and> ma_tenant a = mc_tenant m \<and> ma_run a = mc_run m
    \<and> leased_by a (mc_lease m) \<and> validate_frozen_attempt jcs sha V2 (mc_attempt m) a = Inr ()
    \<and> (\<exists>c. claim_of (mc_tenant m) (mc_run m) db = Some c \<and> fenced c (mc_lease m) \<and> lease_live_us us c)"
  using assms
  by (auto simp: lock_attempt_def authority_lost_def conflict_def attempt_of_Some split: option.splits if_splits)

lemma lock_evidence_Inr:
  assumes "lock_evidence_attempt jcs sha us m db = Inr (a, ended)"
  shows "map_of (attempts (models db)) (mc_attempt m) = Some a \<and> ma_tenant a = mc_tenant m \<and> ma_run a = mc_run m
    \<and> (\<exists>c. claim_of (mc_tenant m) (mc_run m) db = Some c \<and> ended = cl_terminal c
        \<and> (ended \<or> fenced c (mc_lease m) \<and> lease_live_us us c))"
  using assms
  by (auto simp: lock_evidence_attempt_def authority_lost_def conflict_def attempt_of_Some split: option.splits if_splits)

text \<open>An operation that succeeds has read its attempt under the lease, and says what it wrote.\<close>

lemma begin_Inr:
  assumes "begin_authorization jcs sha us m db = Inr ((raw, d, newly), db')"
  shows "\<exists>a. lock_attempt jcs sha us m db = Inr a \<and> (if newly then ma_status a = ''prepared''
      \<and> encode_requested_artifact jcs sha (bg_request_ref m) = Inr (raw, d)
      \<and> update_attempt (mc_attempt m) (set_authorization raw d ''requested_unknown'' ''authorization_pending'') db = Inr db'
    else db' = db)"
  using assms unfolding begin_authorization_def bind_r_eq_Inr by (auto simp: conflict_def split: if_splits)

lemma grant_Inr:
  assumes "grant_authorization jcs sha us m db = Inr ((raw, d, newly), db')"
  shows "\<exists>a. lock_attempt jcs sha us m db = Inr a \<and> (if newly then ma_status a = ''authorization_pending''
      \<and> encode_granted_artifact jcs sha (gr_request_ref m) (gr_admission_ref m) = Inr (raw, d)
      \<and> update_attempt (mc_attempt m) (set_authorization raw d ''granted'' ''authorized'') db = Inr db'
    else db' = db)"
  using assms unfolding grant_authorization_def bind_r_eq_Inr by (auto simp: conflict_def split: if_splits)

lemma start_Inr:
  assumes "start_dispatch jcs sha us m db = Inr ((t, newly), db')"
  shows "\<exists>a. lock_attempt jcs sha us m db = Inr a \<and> (if newly then ma_status a = ''authorized'' \<and> t = round_ms us
      \<and> (\<exists>db1. update_attempt (mc_attempt m) (\<lambda>a. a\<lparr>ma_status := ''dispatch_started'', ma_dispatched := Some t\<rparr>) db = Inr db1
          \<and> recompute_run_completeness (mc_run m) db1 = Inr db')
    else ma_dispatched a = Some t \<and> ma_status a \<noteq> ''authorized'' \<and> db' = db)"
  using assms unfolding start_dispatch_def bind_r_eq_Inr by (auto simp: authority_lost_def split: if_splits option.splits)

lemma begin_writes:
  assumes "begin_authorization jcs sha us m db = Inr ((raw, d, newly), db')"
  shows "if newly then model_write jcs sha (models db) (models db') else db' = db"
proof -
  obtain a where a: "lock_attempt jcs sha us m db = Inr a" and run: "if newly then ma_status a = ''prepared''
      \<and> encode_requested_artifact jcs sha (bg_request_ref m) = Inr (raw, d)
      \<and> update_attempt (mc_attempt m) (set_authorization raw d ''requested_unknown'' ''authorization_pending'') db = Inr db'
    else db' = db" using begin_Inr [OF assms] by blast
  note at = conjunct1 [OF lock_attempt_Inr [OF a]]
  show ?thesis
  proof (cases newly)
    case True
    with run have u: "update_attempt (mc_attempt m) (set_authorization raw d ''requested_unknown'' ''authorization_pending'') db = Inr db'" by simp
    note up = update_attempt_Inr [OF u at]
    have m: "models db' = (models db)\<lparr>attempts := update_at (mc_attempt m)
        (set_authorization raw d ''requested_unknown'' ''authorization_pending'') (attempts (models db))\<rparr>" using up by simp
    show ?thesis
      unfolding m using True run by (auto intro!: model_write.requested [OF at _ conjunct1 [OF up]])
  qed (use run in simp)
qed

lemma grant_writes:
  assumes "grant_authorization jcs sha us m db = Inr ((raw, d, newly), db')"
  shows "if newly then model_write jcs sha (models db) (models db') else db' = db"
proof -
  obtain a where a: "lock_attempt jcs sha us m db = Inr a" and run: "if newly then ma_status a = ''authorization_pending''
      \<and> encode_granted_artifact jcs sha (gr_request_ref m) (gr_admission_ref m) = Inr (raw, d)
      \<and> update_attempt (mc_attempt m) (set_authorization raw d ''granted'' ''authorized'') db = Inr db'
    else db' = db" using grant_Inr [OF assms] by blast
  note at = conjunct1 [OF lock_attempt_Inr [OF a]]
  show ?thesis
  proof (cases newly)
    case True
    with run have u: "update_attempt (mc_attempt m) (set_authorization raw d ''granted'' ''authorized'') db = Inr db'" by simp
    note up = update_attempt_Inr [OF u at]
    have m: "models db' = (models db)\<lparr>attempts := update_at (mc_attempt m)
        (set_authorization raw d ''granted'' ''authorized'') (attempts (models db))\<rparr>" using up by simp
    show ?thesis
      unfolding m using True run by (auto intro!: model_write.granted [OF at _ conjunct1 [OF up]])
  qed (use run in simp)
qed

lemma start_writes:
  assumes "start_dispatch jcs sha us m db = Inr ((t, newly), db')"
  shows "if newly then model_write jcs sha (models db) (models db')
      \<and> (\<exists>a. map_of (attempts (models db')) (mc_attempt m)
          = Some (a\<lparr>ma_status := ''dispatch_started'', ma_dispatched := Some t\<rparr>))
    else db' = db"
proof (cases newly)
  case True
  obtain a db1 where a: "lock_attempt jcs sha us m db = Inr a" and s: "ma_status a = ''authorized''"
    and u: "update_attempt (mc_attempt m) (\<lambda>a. a\<lparr>ma_status := ''dispatch_started'', ma_dispatched := Some t\<rparr>) db = Inr db1"
    and r: "recompute_run_completeness (mc_run m) db1 = Inr db'"
    using start_Inr [OF assms] True by auto
  note at = conjunct1 [OF lock_attempt_Inr [OF a]]
  have up: "attempt_row_ok (a\<lparr>ma_status := ''dispatch_started'', ma_dispatched := Some t\<rparr>)"
    "db1 = db\<lparr>models := (models db)\<lparr>attempts := update_at (mc_attempt m)
      (\<lambda>a. a\<lparr>ma_status := ''dispatch_started'', ma_dispatched := Some t\<rparr>) (attempts (models db))\<rparr>\<rparr>"
    using update_attempt_Inr [OF u at] by blast+
  have m: "models db' = models db1" using recompute_Inr [OF r] by blast
  show ?thesis
    unfolding m up(2) using True model_write.started [OF at s up(1)] at by auto
qed (use start_Inr [OF assms] in auto)

lemma new_attempt_fields [simp]:
  "ma_status (new_attempt m n b p z t) = ''prepared''" "ma_run (new_attempt m n b p z t) = rq_run_id (pp_request m)"
  "ma_tenant (new_attempt m n b p z t) = ei_tenant_ref (rq_identity (pp_request m))"
  "ma_dispatched (new_attempt m n b p z t) = None" "ma_sealed (new_attempt m n b p z t) = None"
  "ma_revision (new_attempt m n b p z t) = 0"
  by (simp_all add: new_attempt_def)

lemma prepare_authority_Inr:
  assumes "prepare_authority sha us m db = Inr durable"
  shows "rq_run_id durable = rq_run_id (pp_request m) \<and> rq_identity durable = rq_identity (pp_request m)
    \<and> (\<exists>c. claim_of (ei_tenant_ref (rq_identity (pp_request m))) (rq_run_id (pp_request m)) db = Some c
        \<and> fenced c (pp_lease m) \<and> lease_live_us us c)"
proof -
  obtain c where c: "claim_of (ei_tenant_ref (rq_identity (pp_request m))) (rq_run_id (pp_request m)) db = Some c"
    "fenced c (pp_lease m)" "lease_live_us us c" and same: "same_run_request durable (pp_request m)"
    using assms by (auto simp: prepare_authority_def authority_lost_def Let_def split: option.splits if_splits)
  from same have "durable\<lparr>rq_trace := None\<rparr> = (pp_request m)\<lparr>rq_trace := None\<rparr>"
    by (simp add: same_run_request_def)
  from arg_cong [OF this, of rq_run_id] arg_cong [OF this, of rq_identity] c show ?thesis by simp
qed

lemma prepare_locked_Inr:
  assumes "prepare_locked jcs sha us m planned authorization db = Inr (r, db')"
  shows "(\<exists>c. claim_of (ei_tenant_ref (rq_identity (pp_request m))) (rq_run_id (pp_request m)) db = Some c
        \<and> fenced c (pp_lease m) \<and> lease_live_us us c)
    \<and> (if rp_replayed r then db' = db
       else \<exists>q b db1. rq_run_id q = rq_run_id (pp_request m) \<and> rq_identity q = rq_identity (pp_request m)
         \<and> encode_attempt_binding jcs sha m q (rp_ordinal r) = Inr b
         \<and> insert_attempt (pp_attempt m) (new_attempt m (rp_ordinal r) b planned authorization (round_ms us)) db = Inr db1
         \<and> recompute_run_completeness (rq_run_id (pp_request m)) db1 = Inr db')"
proof -
  from assms obtain durable where d: "prepare_authority sha us m db = Inr durable"
    and run: "rp_replayed r \<and> db' = db \<or> \<not> rp_replayed r \<and> (\<exists>b db1.
        encode_attempt_binding jcs sha m durable (rp_ordinal r) = Inr b
         \<and> insert_attempt (pp_attempt m) (new_attempt m (rp_ordinal r) b planned authorization (round_ms us)) db = Inr db1
         \<and> recompute_run_completeness (rq_run_id durable) db1 = Inr db')"
    unfolding prepare_locked_def bind_r_eq_Inr
    by (auto simp: replay_prepared_def conflict_def split: option.splits if_splits)
  note q = prepare_authority_Inr [OF d]
  show ?thesis
  proof (cases "rp_replayed r")
    case False
    with run obtain b db1 where "encode_attempt_binding jcs sha m durable (rp_ordinal r) = Inr b"
      "insert_attempt (pp_attempt m) (new_attempt m (rp_ordinal r) b planned authorization (round_ms us)) db = Inr db1"
      "recompute_run_completeness (rq_run_id durable) db1 = Inr db'" by blast
    with q have "\<exists>q b db1. rq_run_id q = rq_run_id (pp_request m) \<and> rq_identity q = rq_identity (pp_request m)
         \<and> encode_attempt_binding jcs sha m q (rp_ordinal r) = Inr b
         \<and> insert_attempt (pp_attempt m) (new_attempt m (rp_ordinal r) b planned authorization (round_ms us)) db = Inr db1
         \<and> recompute_run_completeness (rq_run_id (pp_request m)) db1 = Inr db'"
      by (intro exI [of _ durable] exI [of _ b] exI [of _ db1]) (simp del: split_paired_Ex)
    with q False show ?thesis by (simp del: split_paired_Ex)
  qed (use run q in simp)
qed

lemma prepare_Inr:
  assumes "prepare jcs sha us m db = Inr (r, db')"
  shows "\<exists>planned authorization. prepare_locked jcs sha us m planned authorization db = Inr (r, db')
    \<and> encode_planned_artifact jcs sha (pp_planned m) = Inr planned \<and> encode_not_requested_artifact jcs sha = Inr authorization"
  using assms unfolding prepare_def bind_r_eq_Inr
  by (auto simp: conflict_def Let_def split: if_splits)

lemma prepare_writes:
  assumes "prepare jcs sha us m db = Inr (r, db')" and typed: "planned_ok (pp_planned m)"
  shows "if rp_replayed r then db' = db else model_write jcs sha (models db) (models db')
      \<and> (\<exists>db1. models db1 = models db' \<and> claims db1 = claims db
          \<and> recompute_run_completeness (rq_run_id (pp_request m)) db1 = Inr db')"
proof -
  obtain planned authorization where l: "prepare_locked jcs sha us m planned authorization db = Inr (r, db')"
    and enc: "encode_planned_artifact jcs sha (pp_planned m) = Inr planned" "encode_not_requested_artifact jcs sha = Inr authorization"
    using prepare_Inr [OF assms(1)] by blast
  show ?thesis
  proof (cases "rp_replayed r")
    case True
    then show ?thesis using prepare_locked_Inr [OF l] by simp
  next
    case False
    then obtain q b db1 where q: "encode_attempt_binding jcs sha m q (rp_ordinal r) = Inr b"
        "rq_run_id q = rq_run_id (pp_request m)" "rq_identity q = rq_identity (pp_request m)"
      and i: "insert_attempt (pp_attempt m)
        (new_attempt m (rp_ordinal r) b planned authorization (round_ms us)) db = Inr db1"
      and c: "recompute_run_completeness (rq_run_id (pp_request m)) db1 = Inr db'"
      using prepare_locked_Inr [OF l] by auto
    note ins = insert_attempt_Inr [OF i]
    have m: "models db' = models db1" using recompute_Inr [OF c] by blast
    have db1: "db1 = db\<lparr>models := (models db)\<lparr>attempts := attempts (models db)
        @ [(pp_attempt m, new_attempt m (rp_ordinal r) b planned authorization (round_ms us))]\<rparr>\<rparr>" using ins by blast
    have "model_write jcs sha (models db) (models db1)"
      unfolding db1 using model_write.prepared [OF conjunct1 [OF conjunct2 [OF ins]] conjunct1 [OF ins] q(1) enc q(2,3) typed]
      by simp
    moreover have "models db1 = models db'" using m by simp
    moreover have "claims db1 = claims db" by (simp add: db1)
    ultimately show ?thesis using False c by auto
  qed
qed

lemma parse_evidence_Inr:
  assumes "parse_evidence jcs sha ver raw = Inr e"
  shows "evidence_check e = None" and "usage_evidence_ok e" and "ue_version e = ver"
proof -
  from assms obtain decoded where d: "dec_usage_evidence ver decoded = Inr e" and c: "evidence_check e = None"
    unfolding parse_evidence_def by (auto simp: invalid_def split: if_splits option.splits)
  show "evidence_check e = None" by (rule c)
  from usage_evidence_dec_ok [OF d] show "usage_evidence_ok e" "ue_version e = ver" by blast+
qed

text \<open>What a validated piece of evidence says of its attempt.\<close>

lemma validate_binding_Inr:
  assumes "validate_evidence_binding jcs raw e a us = Inr v"
  shows "ve_evidence v = e \<and> ve_event_id v = vi_event_id (ue_identity e) \<and> ve_revision v = int (undigits (ue_revision e))
    \<and> ve_digest v = ue_digest e \<and> ve_outcome v = xo_outcome (ue_execution e) \<and> ve_usage v = usage_state (ue_usage e)
    \<and> jcs (enc_usage_evidence e) = Inr raw \<and> jcs (enc_attempt_binding (vi_binding (ue_identity e))) = Inr (ma_binding a)
    \<and> jcs (enc_planned (ue_version e) (ue_planned e)) = Inr (ma_planned a)
    \<and> jcs (enc_authorization (ue_authorization e)) = Inr (ma_authorization a)
    \<and> utc_millis (xo_prepared_at (ue_execution e)) = Some (ma_prepared a)
    \<and> map_option utc_millis (xo_dispatch_started_at (ue_execution e)) = map_option Some (ma_dispatched a)
    \<and> utc_millis (ue_observed_at e) = Some (ve_observed v) \<and> xo_seal (ue_execution e) \<and> 1 \<le> ve_revision v
    \<and> ma_prepared a \<le> ve_observed v \<and> ve_observed v * 1000 \<le> us
    \<and> (case ma_dispatched a of None \<Rightarrow> True | Some d \<Rightarrow> d \<le> ve_observed v)"
  using assms unfolding validate_evidence_binding_def bind_r_eq_Inr
  by (auto simp: conflict_def input_invalid_def utc_instant_def opt_instant_def Let_def split: if_splits option.splits)

lemma validate_append_Inr:
  assumes "validate_append_evidence jcs sha raw a us = Inr v"
  shows "parse_evidence jcs sha V2 raw = Inr (ve_evidence v) \<and> validate_evidence_binding jcs raw (ve_evidence v) a us = Inr v"
proof -
  from assms obtain e where e: "parse_evidence jcs sha V2 raw = Inr e" "validate_evidence_binding jcs raw e a us = Inr v"
    by (auto simp: validate_append_evidence_def)
  then have "ve_evidence v = e" using validate_binding_Inr by blast
  with e show ?thesis by simp
qed

lemma seal_writes:
  assumes ins: "insert_evidence (ve_event_id v) (evidence_row_of (ma_tenant a) (ma_run a) i v raw) db = Inr db1"
    and upd: "update_attempt i (seal_attempt s v) db1 = Inr db2"
    and a: "map_of (attempts (models db)) i = Some a" and val: "validate_append_evidence jcs sha raw a us = Inr v"
    and rev: "ve_revision v = ma_revision a + 1" and fol: "follows jcs sha (models db) i a (ve_evidence v)" and s: "sealing jcs sha i a raw v s"
  shows "model_write jcs sha (models db) (models db2)" and "claims db2 = claims db"
    and "attempts (models db2) = update_at i (seal_attempt s v) (attempts (models db))"
    and "evidences (models db2) = evidences (models db) @ [(ve_event_id v, evidence_row_of (ma_tenant a) (ma_run a) i v raw)]"
proof -
  note ev = insert_evidence_Inr [OF ins]
  have db1: "db1 = db\<lparr>models := (models db)\<lparr>evidences := evidences (models db)
      @ [(ve_event_id v, evidence_row_of (ma_tenant a) (ma_run a) i v raw)]\<rparr>\<rparr>" using ev by blast
  have a1: "map_of (attempts (models db1)) i = Some a" by (simp add: db1 a)
  have at: "attempt_row_ok (seal_attempt s v a)"
    and db2: "db2 = db1\<lparr>models := (models db1)\<lparr>attempts := update_at i (seal_attempt s v) (attempts (models db1))\<rparr>\<rparr>"
    using update_attempt_Inr [OF upd a1] by blast+
  have e: "me_attempt (evidence_row_of (ma_tenant a) (ma_run a) i v raw) = i"
    "me_revision (evidence_row_of (ma_tenant a) (ma_run a) i v raw) = ve_revision v"
    "me_digest (evidence_row_of (ma_tenant a) (ma_run a) i v raw) = ve_digest v"
    by (simp_all add: evidence_row_of_def)
  have m2: "models db2 = (models db)\<lparr>attempts := update_at i (seal_attempt s v) (attempts (models db)),
      evidences := evidences (models db) @ [(ve_event_id v, evidence_row_of (ma_tenant a) (ma_run a) i v raw)]\<rparr>"
    by (simp add: db2 db1)
  show "model_write jcs sha (models db) (models db2)"
    unfolding m2 by (rule model_write.sealed [OF a val rev fol s at]) (use ev e in auto)
  show "claims db2 = claims db" by (simp add: db2 db1)
  show "attempts (models db2) = update_at i (seal_attempt s v) (attempts (models db))"
    and "evidences (models db2) = evidences (models db) @ [(ve_event_id v, evidence_row_of (ma_tenant a) (ma_run a) i v raw)]"
    by (simp_all add: m2)
qed

lemma next_follows:
  assumes "check_next_revision jcs sha i a v db = Inr ()"
  shows "follows jcs sha (models db) i a (ve_evidence v)"
proof (cases "ma_revision a = 0")
  case True
  with assms show ?thesis by (auto simp: check_next_revision_def follows_def conflict_def split: if_splits)
next
  case False
  with assms obtain j x where f: "evidence_at i (ma_revision a) db = Some (j, x)"
    by (auto simp: check_next_revision_def conflict_def split: if_splits option.splits)
  with assms False obtain previous where "parse_evidence jcs sha V2 (me_bytes x) = Inr previous"
    "validate_successor jcs sha previous (ve_evidence v) = Inr ()"
    by (auto simp: check_next_revision_def conflict_def split: if_splits)
  with f False show ?thesis by (simp add: follows_def evidence_at_def)
qed

lemma append_Inr:
  assumes "append_evidence jcs sha us m db = Inr (replayed, db')"
  shows "if replayed then db' = db else (\<exists>a v s db1 db2. map_of (attempts (models db)) (mc_attempt m) = Some a
      \<and> ma_tenant a = mc_tenant m \<and> ma_run a = mc_run m
      \<and> (\<exists>c. map_of (claims db) (mc_run m) = Some c \<and> \<not> cl_terminal c \<and> fenced c (mc_lease m) \<and> lease_live_us us c)
      \<and> validate_append_evidence jcs sha (ap_bytes m) a us = Inr v \<and> ve_revision v = ma_revision a + 1
      \<and> s = (if ve_outcome v = ''unknown'' then ''unknown'' else ''observed'')
      \<and> check_next_revision jcs sha (mc_attempt m) a v db = Inr ()
      \<and> insert_evidence (ve_event_id v) (evidence_row_of (ma_tenant a) (ma_run a) (mc_attempt m) v (ap_bytes m)) db = Inr db1
      \<and> update_attempt (mc_attempt m) (seal_attempt s v) db1 = Inr db2
      \<and> recompute_run_completeness (mc_run m) db2 = Inr db')"
proof -
  from assms obtain a ended v where l: "lock_evidence_attempt jcs sha us m db = Inr (a, ended)"
    and v: "validate_append_evidence jcs sha (ap_bytes m) a us = Inr v"
    and run: "append_evidence_locked jcs sha m a v (\<not> ended) db = Inr (replayed, db')"
    unfolding append_evidence_def bind_r_eq_Inr by auto
  note at = lock_evidence_Inr [OF l]
  show ?thesis
  proof (cases replayed)
    case True
    then show ?thesis using run unfolding append_evidence_locked_def bind_r_eq_Inr
      by (auto simp: conflict_def authority_lost_def split: if_splits)
  next
    case False
    have "ve_revision v \<le> ma_revision a \<Longrightarrow> replayed"
      using run by (auto simp: append_evidence_locked_def replay_evidence_def conflict_def authority_lost_def split: if_splits option.splits)
    with False run obtain db1 db2 where "\<not> ended" "ve_revision v = ma_revision a + 1"
      "check_next_revision jcs sha (mc_attempt m) a v db = Inr ()"
      "insert_evidence (ve_event_id v) (evidence_row_of (mc_tenant m) (mc_run m) (mc_attempt m) v (ap_bytes m)) db = Inr db1"
      "update_attempt (mc_attempt m)
            (seal_attempt (if ve_outcome v = ''unknown'' then ''unknown'' else ''observed'') v) db1 = Inr db2"
      "recompute_run_completeness (mc_run m) db2 = Inr db'"
      unfolding append_evidence_locked_def bind_r_eq_Inr
      by (auto simp: conflict_def authority_lost_def split: if_splits)
    with at v False show ?thesis by (auto simp: claim_of_Some)
  qed
qed

text \<open>Both ways of sealing leave the status that the terminal transition expects of the outcome.\<close>

lemma evidence_dispatch:
  assumes "validate_append_evidence jcs sha raw a us = Inr v"
  shows "ve_outcome v = ''not_dispatched'' \<Longrightarrow> ma_dispatched a = None"
    and "ve_outcome v \<in> {''completed'', ''failed''} \<Longrightarrow> ma_dispatched a \<noteq> None"
proof -
  note v = validate_append_Inr [OF assms]
  have "evidence_check (ve_evidence v) = None" using v parse_evidence_Inr by blast
  moreover have "dispatched (ve_evidence v) \<longleftrightarrow> ma_dispatched a \<noteq> None" "ve_outcome v = xo_outcome (ue_execution (ve_evidence v))"
    using validate_binding_Inr [OF conjunct2 [OF v]] by (cases "ma_dispatched a"; auto simp: dispatched_def)+
  ultimately show "ve_outcome v = ''not_dispatched'' \<Longrightarrow> ma_dispatched a = None"
    and "ve_outcome v \<in> {''completed'', ''failed''} \<Longrightarrow> ma_dispatched a \<noteq> None"
    by (auto simp: evidence_check_def)
qed

lemma append_status:
  assumes "check_next_revision jcs sha i a v db = Inr ()" and "validate_append_evidence jcs sha raw a us = Inr v"
    and "attempt_row_ok a"
  shows "expected_status a v = (if ve_outcome v = ''unknown'' then ''unknown'' else ''observed'')"
proof -
  have "ma_status a \<in> {''dispatch_started'', ''observed'', ''unknown''}"
    using assms(1) by (auto simp: check_next_revision_def conflict_def split: if_splits)
  then have "ma_dispatched a \<noteq> None"
    using assms(3) by (auto simp: attempt_row_ok_def attempt_state_ok_def Let_def)
  with evidence_dispatch(1) [OF assms(2)] show ?thesis by (auto simp: expected_status_def)
qed

lemma append_writes:
  assumes "append_evidence jcs sha us m db = Inr (replayed, db')" and rows: "rows_ok attempt_row_ok (attempts (models db))"
  shows "if replayed then db' = db else model_write jcs sha (models db) (models db')"
proof (cases replayed)
  case False
  with append_Inr [OF assms(1)] obtain a v s db1 db2 where a: "map_of (attempts (models db)) (mc_attempt m) = Some a"
    and s: "s = (if ve_outcome v = ''unknown'' then ''unknown'' else ''observed'')"
    and v: "validate_append_evidence jcs sha (ap_bytes m) a us = Inr v" "ve_revision v = ma_revision a + 1"
    and nx: "check_next_revision jcs sha (mc_attempt m) a v db = Inr ()"
    and ins: "insert_evidence (ve_event_id v) (evidence_row_of (ma_tenant a) (ma_run a) (mc_attempt m) v (ap_bytes m)) db = Inr db1"
    and upd: "update_attempt (mc_attempt m) (seal_attempt s v) db1 = Inr db2"
    and rc: "recompute_run_completeness (mc_run m) db2 = Inr db'"
    by auto
  have "models db' = models db2" using recompute_Inr [OF rc] by blast
  moreover have "sealing jcs sha (mc_attempt m) a (ap_bytes m) v s"
    using append_status [OF nx v(1) rows_okD [OF rows a]] s by (simp add: sealing_def)
  ultimately show ?thesis using False seal_writes(1) [OF ins upd a v next_follows [OF nx]] by simp
qed (use append_Inr [OF assms(1)] in simp)

text \<open>An attempt the terminal transition closes was open, and is sealed with its first piece of evidence.\<close>

lemma closure_Inr:
  assumes "build_terminal_closure_evidence jcs sha event i a us = Inr (raw, v)"
  shows "validate_append_evidence jcs sha raw a (to_ms us * 1000) = Inr v \<and> closable_state a
    \<and> (ma_status a = ''dispatch_started'' \<longleftrightarrow> ma_dispatched a \<noteq> None)"
  using assms unfolding build_terminal_closure_evidence_def bind_r_eq_Inr Let_def
  by (auto simp: conflict_def split: if_splits)

lemma first_revision:
  assumes "validate_append_evidence jcs sha raw a us = Inr v" and "ue_predecessor (ve_evidence v) = None"
  shows "ve_revision v = 1"
proof -
  note v = validate_append_Inr [OF assms(1)]
  have "evidence_check (ve_evidence v) = None" using v parse_evidence_Inr by blast
  with assms(2) have "ue_revision (ve_evidence v) = ''1''" by (simp add: evidence_check_def)
  then show ?thesis using validate_binding_Inr [of jcs raw "ve_evidence v" a us v] v by (simp add: undigits_def)
qed

lemma close_attempt_writes:
  assumes run: "close_attempt jcs sha fresh us create (i, a) db = Inr db'"
    and a: "map_of (attempts (models db)) i = Some a" and nn: "0 \<le> ma_revision a"
  shows "if 0 < ma_revision a then db' = db
    else create \<and> model_write jcs sha (models db) (models db') \<and> claims db' = claims db
      \<and> (\<exists>s v raw. ve_revision v = 1 \<and> attempts (models db') = update_at i (seal_attempt s v) (attempts (models db))
          \<and> evidences (models db') = evidences (models db) @ [(ve_event_id v, evidence_row_of (ma_tenant a) (ma_run a) i v raw)])"
proof (cases "0 < ma_revision a")
  case True
  then show ?thesis using run by (auto simp: close_attempt_def)
next
  case False
  with nn have z: "ma_revision a = 0" by simp
  obtain raw v db1 where create and b: "build_terminal_closure_evidence jcs sha (fresh i) i a us = Inr (raw, v)"
    and p: "ue_predecessor (ve_evidence v) = None"
    and ins: "insert_evidence (ve_event_id v) (evidence_row_of (ma_tenant a) (ma_run a) i v raw) db = Inr db1"
    and upd: "update_attempt i (seal_attempt (if ve_outcome v = ''unknown'' then ''unknown'' else ''not_dispatched'') v) db1 = Inr db'"
    using run z unfolding close_attempt_def prod.case bind_r_eq_Inr
    by (auto simp: conflict_def split: if_splits)
  have r1: "ve_revision v = 1" using first_revision [OF conjunct1 [OF closure_Inr [OF b]] p] .
  with z have rev: "ve_revision v = ma_revision a + 1" by simp
  have fol: "follows jcs sha (models db) i a (ve_evidence v)" using z p by (simp add: follows_def)
  have "sealing jcs sha i a raw v (if ve_outcome v = ''unknown'' then ''unknown'' else ''not_dispatched'')"
    using b by (auto simp: sealing_def)
  from seal_writes [OF ins upd a conjunct1 [OF closure_Inr [OF b]] rev fol this] r1 False \<open>create\<close> show ?thesis by auto
qed

lemma close_attempts_writes:
  assumes "close_attempts jcs sha fresh us create ias db = Inr db'"
    and "\<forall>(i, a) \<in> set ias. map_of (attempts (models db)) i = Some a \<and> 0 \<le> ma_revision a" and "distinct (map fst ias)"
  shows "(model_write jcs sha)\<^sup>*\<^sup>* (models db) (models db') \<and> claims db' = claims db
    \<and> (\<forall>(i, a) \<in> set ias. \<exists>a'. map_of (attempts (models db')) i = Some a' \<and> 0 < ma_revision a')
    \<and> (\<forall>i. i \<notin> fst ` set ias \<longrightarrow> map_of (attempts (models db')) i = map_of (attempts (models db)) i)
    \<and> (\<not> create \<longrightarrow> db' = db)"
  using assms
proof (induction ias arbitrary: db)
  case (Cons ia ias)
  obtain i a where ia: "ia = (i, a)" by (cases ia)
  obtain db1 where one: "close_attempt jcs sha fresh us create (i, a) db = Inr db1"
    and rest: "close_attempts jcs sha fresh us create ias db1 = Inr db'"
    using Cons.prems(1) by (auto simp: ia)
  have a: "map_of (attempts (models db)) i = Some a" "0 \<le> ma_revision a" using Cons.prems(2) by (auto simp: ia)
  note w = close_attempt_writes [OF one a]
  have step: "(model_write jcs sha)\<^sup>*\<^sup>* (models db) (models db1) \<and> claims db1 = claims db \<and> (\<not> create \<longrightarrow> db1 = db)
      \<and> (\<exists>a'. map_of (attempts (models db1)) i = Some a' \<and> 0 < ma_revision a')
      \<and> (\<forall>j. j \<noteq> i \<longrightarrow> map_of (attempts (models db1)) j = map_of (attempts (models db)) j)"
    using w a by (auto simp: seal_attempt_def split: if_splits)
  have other: "j \<noteq> i" if "(j, b) \<in> set ias" for j b
    using that Cons.prems(3) by (force simp: ia)
  have "\<forall>(j, b) \<in> set ias. map_of (attempts (models db1)) j = Some b \<and> 0 \<le> ma_revision b"
    using Cons.prems(2) step other by auto
  note ih = Cons.IH [OF rest this]
  have "i \<notin> fst ` set ias" using Cons.prems(3) by (auto simp: ia)
  with ih step Cons.prems(3) show ?case
    by (auto simp: ia intro: rtranclp_trans)
qed simp

section \<open>Steps\<close>

datatype model_op =
    PrepareCall int prepare_call
  | BeginCall int begin_call
  | GrantCall int grant_call
  | StartCall int start_call
  | AppendCall int append_call
  | CloseCalls int "string \<Rightarrow> string" string string
  | FreezeRecipe int run_request lease_fence static_recipe

fun model_effect :: "(json \<Rightarrow> string result) \<Rightarrow> (string \<Rightarrow> string) \<Rightarrow> model_op \<Rightarrow> db \<Rightarrow> db" where
  "model_effect jcs sha (PrepareCall us m) = committed (prepare jcs sha us m)"
| "model_effect jcs sha (BeginCall us m) = committed (begin_authorization jcs sha us m)"
| "model_effect jcs sha (GrantCall us m) = committed (grant_authorization jcs sha us m)"
| "model_effect jcs sha (StartCall us m) = committed (start_dispatch jcs sha us m)"
| "model_effect jcs sha (AppendCall us m) = committed (append_evidence jcs sha us m)"
| "model_effect jcs sha (CloseCalls us fresh tenant r) = committed (\<lambda>db. bind_r
     (close_model_call_attempts_for_terminal jcs sha fresh us tenant r True db) (\<lambda>db'. Inr ((), db')))"
| "model_effect jcs sha (FreezeRecipe us q l b) = committed (freeze_or_verify_static_recipe sha us q l b)"

text \<open>The planned binding of a command is an instance of its wire model.\<close>

fun typed :: "model_op \<Rightarrow> bool" where
  "typed (PrepareCall us m) \<longleftrightarrow> planned_ok (pp_planned m)"
| "typed _ \<longleftrightarrow> True"

inductive model_step :: "(json \<Rightarrow> string result) \<Rightarrow> (string \<Rightarrow> string) \<Rightarrow> db \<Rightarrow> db \<Rightarrow> bool" for jcs sha where
  call: "typed op \<Longrightarrow> model_step jcs sha db (model_effect jcs sha op db)"
| elsewhere: "models db' = models db \<Longrightarrow> model_step jcs sha db db'"

text \<open>
  The second rule is any step of the other components, none of which touches the two tables. What holds of
  one write holds of a step.
\<close>

lemma attempts_nonneg:
  assumes "rows_ok attempt_row_ok rows" and "map_of rows i = Some a"
  shows "0 \<le> ma_revision a"
  using rows_okD [OF assms] by (auto simp: attempt_row_ok_def split: if_splits)

definition open_rows :: "string \<Rightarrow> string \<Rightarrow> db \<Rightarrow> (string \<times> attempt_row) list" where
  "open_rows tenant r db = sort_key fst (select_where (\<lambda>_ a. ma_tenant a = tenant \<and> ma_run a = r) (attempts (models db)))"

lemma open_rows_props:
  assumes "keys_ok (attempts (models db))" and "rows_ok attempt_row_ok (attempts (models db))"
  shows "\<forall>(i, a) \<in> set (open_rows tenant r db). map_of (attempts (models db)) i = Some a \<and> 0 \<le> ma_revision a"
    and "distinct (map fst (open_rows tenant r db))"
    and "(i, a) \<in> set (open_rows tenant r db) \<longleftrightarrow>
      map_of (attempts (models db)) i = Some a \<and> ma_tenant a = tenant \<and> ma_run a = r"
proof -
  have set: "set (open_rows tenant r db)
      = {(i, a). map_of (attempts (models db)) i = Some a \<and> ma_tenant a = tenant \<and> ma_run a = r}"
    using assms(1) by (auto simp: open_rows_def set_select_where map_of_in_table)
  then show "(i, a) \<in> set (open_rows tenant r db) \<longleftrightarrow>
      map_of (attempts (models db)) i = Some a \<and> ma_tenant a = tenant \<and> ma_run a = r" by auto
  from set show "\<forall>(i, a) \<in> set (open_rows tenant r db). map_of (attempts (models db)) i = Some a \<and> 0 \<le> ma_revision a"
    using attempts_nonneg [OF assms(2)] by auto
  show "distinct (map fst (open_rows tenant r db))"
    unfolding open_rows_def using assms(1)
    by (intro distinct_sort_key) (auto simp: keys_ok_def select_where_def distinct_map inj_on_def)
qed

text \<open>Closing seals every attempt of the run.\<close>

lemma close_all_Inr:
  assumes run: "close_model_call_attempts_for_terminal jcs sha fresh us tenant r create db = Inr db'"
    and ok: "keys_ok (attempts (models db))" "rows_ok attempt_row_ok (attempts (models db))"
  shows "(model_write jcs sha)\<^sup>*\<^sup>* (models db) (models db')"
    and "\<forall>i a. map_of (attempts (models db')) i = Some a \<longrightarrow> ma_tenant a = tenant \<and> ma_run a = r \<longrightarrow> 0 < ma_revision a"
    and "\<not> create \<longrightarrow> db' = db"
    and "create \<longrightarrow> (\<exists>db1 c. models db1 = models db' \<and> claims db1 = claims db
        \<and> (db' = db1 \<and> models db1 = models db \<or> recompute_run_completeness r db1 = Inr db')
        \<and> map_of (claims db') r = Some c \<and> cl_model_attempts c = cl_model_sealed c)"
proof -
  let ?rows = "open_rows tenant r db"
  obtain db1 where cl: "close_attempts jcs sha fresh us create ?rows db = Inr db1"
    and fin: "if create then (?rows = [] \<and> db' = db1 \<or> recompute_run_completeness r db1 = Inr db')
        \<and> (\<exists>c. map_of (claims db') r = Some c \<and> cl_model_attempts c = cl_model_sealed c) else db' = db1"
    using run unfolding close_model_call_attempts_for_terminal_def Let_def bind_r_eq_Inr open_rows_def
    by (auto simp: conflict_def split: if_splits option.splits)
  note w = close_attempts_writes [OF cl open_rows_props(1,2) [OF ok]]
  have same: "models db' = models db1"
    using fin recompute_Inr by (auto split: if_splits)
  show "(model_write jcs sha)\<^sup>*\<^sup>* (models db) (models db')" using w same by simp
  show "\<not> create \<longrightarrow> db' = db" using w fin by auto
  show "create \<longrightarrow> (\<exists>db1 c. models db1 = models db' \<and> claims db1 = claims db
        \<and> (db' = db1 \<and> models db1 = models db \<or> recompute_run_completeness r db1 = Inr db')
        \<and> map_of (claims db') r = Some c \<and> cl_model_attempts c = cl_model_sealed c)"
  proof
    assume create
    moreover have "?rows = [] \<Longrightarrow> db1 = db" using cl by simp
    ultimately show "\<exists>db1 c. models db1 = models db' \<and> claims db1 = claims db
        \<and> (db' = db1 \<and> models db1 = models db \<or> recompute_run_completeness r db1 = Inr db')
        \<and> map_of (claims db') r = Some c \<and> cl_model_attempts c = cl_model_sealed c"
      using fin w same by (intro exI [of _ db1]) auto
  qed
  show "\<forall>i a. map_of (attempts (models db')) i = Some a \<longrightarrow> ma_tenant a = tenant \<and> ma_run a = r \<longrightarrow> 0 < ma_revision a"
  proof (intro allI impI)
    fix i a
    assume a: "map_of (attempts (models db')) i = Some a" and t: "ma_tenant a = tenant \<and> ma_run a = r"
    show "0 < ma_revision a"
    proof (cases "i \<in> fst ` set ?rows")
      case True
      then obtain b where "(i, b) \<in> set ?rows" by auto
      with w have "\<exists>a'. map_of (attempts (models db1)) i = Some a' \<and> 0 < ma_revision a'" by fastforce
      with a same show ?thesis by simp
    next
      case False
      with w a same have "map_of (attempts (models db)) i = Some a" by simp
      with t open_rows_props(3) [OF ok] False show ?thesis by (metis fst_conv image_eqI)
    qed
  qed
qed

definition tables_ok :: "model_db \<Rightarrow> bool" where
  "tables_ok m \<longleftrightarrow> keys_ok (attempts m) \<and> rows_ok attempt_row_ok (attempts m)
     \<and> keys_ok (evidences m) \<and> rows_ok evidence_row_ok (evidences m)"

lemma model_write_tables:
  assumes "model_write jcs sha m m'" and "tables_ok m"
  shows "tables_ok m'"
  using assms
proof cases
  case (prepared p n b l z t q)
  with assms(2) show ?thesis
    by (auto simp: tables_ok_def keys_ok_def rows_ok_iff map_of_eq_None_iff)
next
  case (requested i a raw d r)
  with assms(2) show ?thesis
    by (auto simp: tables_ok_def intro: rows_ok_update_one)
next
  case (granted i a raw d r admission)
  with assms(2) show ?thesis
    by (auto simp: tables_ok_def intro: rows_ok_update_one)
next
  case (started i a t)
  with assms(2) show ?thesis
    by (auto simp: tables_ok_def intro: rows_ok_update_one [where f = "\<lambda>a. a\<lparr>ma_status := ''dispatch_started'', ma_dispatched := Some t\<rparr>"])
next
  case (sealed i a raw us v s)
  have "ve_event_id v \<notin> fst ` set (evidences m)" using sealed(9) by auto
  with sealed(8) assms(2) have "keys_ok (evidences m @ [(ve_event_id v, evidence_row_of (ma_tenant a) (ma_run a) i v raw)])
      \<and> rows_ok evidence_row_ok (evidences m @ [(ve_event_id v, evidence_row_of (ma_tenant a) (ma_run a) i v raw)])"
    by (auto simp: tables_ok_def keys_ok_def rows_ok_iff)
  moreover have "rows_ok attempt_row_ok (update_at i (seal_attempt s v) (attempts m))"
    using assms(2) sealed(2,7) by (intro rows_ok_update_one) (auto simp: tables_ok_def)
  ultimately show ?thesis
    using assms(2) by (simp add: sealed(1) tables_ok_def)
qed

lemma committed_writes:
  "(\<And>x db'. t db = Inr (x, db') \<Longrightarrow> (model_write jcs sha)\<^sup>*\<^sup>* (models db) (models db'))
   \<Longrightarrow> (model_write jcs sha)\<^sup>*\<^sup>* (models db) (models (committed t db))"
  by (cases "t db") auto

lemma freeze_models: "freeze_or_verify_static_recipe sha us q l b db = Inr (frozen, db') \<Longrightarrow> models db' = models db"
  by (auto dest!: freeze_static_recipe_Inr split: if_splits)

lemma model_effect_writes:
  assumes "tables_ok (models db)" and "typed op"
  shows "(model_write jcs sha)\<^sup>*\<^sup>* (models db) (models (model_effect jcs sha op db))"
proof -
  have ok: "keys_ok (attempts (models db))" "rows_ok attempt_row_ok (attempts (models db))"
    using assms(1) by (simp_all add: tables_ok_def)
  show ?thesis
    using assms(2) by (cases op) (auto intro!: committed_writes dest!: prepare_writes begin_writes grant_writes start_writes append_writes [OF _ ok(2)]
        close_all_Inr(1) [OF _ ok] freeze_models split: if_splits)
qed

lemma model_step_writes: "model_step jcs sha db db' \<Longrightarrow> tables_ok (models db) \<Longrightarrow> (model_write jcs sha)\<^sup>*\<^sup>* (models db) (models db')"
  by (cases rule: model_step.cases) (auto simp: model_effect_writes)

end
