(* ===== verification/Model_Contracts.thy ===== *)
theory Model_Contracts
  imports Model_Lifecycle Run_Frames
begin

text \<open>
  The contracts of the model-call repository over all interleavings of its transactions with those of
  the run store: attempts only move forward, one of them is dispatched at most once, its evidence is a
  gap-free chain, and its frozen columns always read back.
\<close>

section \<open>Attempts only move forward\<close>

definition attempt_rank :: "string \<Rightarrow> nat" where
  "attempt_rank s = (if s = ''prepared'' then 0 else if s = ''authorization_pending'' then 1
     else if s = ''authorized'' then 2 else if s = ''dispatch_started'' then 3 else 4)"

definition attempt_evolves :: "attempt_row \<Rightarrow> attempt_row \<Rightarrow> bool" where
  "attempt_evolves a b \<longleftrightarrow> ma_tenant b = ma_tenant a \<and> ma_run b = ma_run a \<and> ma_call b = ma_call a
     \<and> ma_ordinal b = ma_ordinal a \<and> ma_owner b = ma_owner a \<and> ma_generation b = ma_generation a
     \<and> ma_binding b = ma_binding a \<and> ma_binding_digest b = ma_binding_digest a
     \<and> ma_planned b = ma_planned a \<and> ma_planned_digest b = ma_planned_digest a \<and> ma_prepared b = ma_prepared a
     \<and> attempt_rank (ma_status a) \<le> attempt_rank (ma_status b) \<and> ma_revision a \<le> ma_revision b
     \<and> (2 \<le> attempt_rank (ma_status a) \<longrightarrow> ma_authorization b = ma_authorization a
          \<and> ma_authorization_digest b = ma_authorization_digest a \<and> ma_authorization_state b = ma_authorization_state a)
     \<and> (3 \<le> attempt_rank (ma_status a) \<longrightarrow> ma_dispatched b = ma_dispatched a)"

definition models_le :: "model_db \<Rightarrow> model_db \<Rightarrow> bool" where
  "models_le m m' \<longleftrightarrow> (\<forall>i a. map_of (attempts m) i = Some a \<longrightarrow>
       (\<exists>b. map_of (attempts m') i = Some b \<and> attempt_evolves a b))
     \<and> (\<exists>es. evidences m' = evidences m @ es)"

lemma attempt_evolves_refl [simp]: "attempt_evolves a a"
  by (simp add: attempt_evolves_def)

lemma attempt_evolves_trans: "attempt_evolves a b \<Longrightarrow> attempt_evolves b c \<Longrightarrow> attempt_evolves a c"
  unfolding attempt_evolves_def by (elim conjE) (intro conjI impI; simp)

lemma models_le_refl [simp]: "models_le m m"
  by (simp add: models_le_def)

lemma models_le_trans:
  assumes "models_le m m'" and "models_le m' m''"
  shows "models_le m m''"
proof -
  have "\<exists>c. map_of (attempts m'') i = Some c \<and> attempt_evolves a c" if "map_of (attempts m) i = Some a" for i a
    using that assms unfolding models_le_def by (meson attempt_evolves_trans)
  with assms show ?thesis by (auto simp: models_le_def)
qed

text \<open>The row an update changes follows the order, and all others stay.\<close>

lemma models_le_update:
  assumes "map_of (attempts m) i = Some a" and "attempt_evolves a (f a)"
    and "attempts m' = update_at i f (attempts m)" and "\<exists>es. evidences m' = evidences m @ es"
  shows "models_le m m'"
  unfolding models_le_def
proof (intro conjI allI impI)
  fix j b
  assume "map_of (attempts m) j = Some b"
  then show "\<exists>c. map_of (attempts m') j = Some c \<and> attempt_evolves b c"
    using assms by (cases "j = i") auto
qed (rule assms)

lemma sealed_attempt_rank: "attempt_row_ok a \<Longrightarrow> 0 < ma_revision a \<Longrightarrow> attempt_rank (ma_status a) = 4"
  by (auto simp: attempt_row_ok_def attempt_state_ok_def Let_def attempt_rank_def)

lemma model_write_le:
  assumes "model_write jcs sha m m'" and "tables_ok m"
  shows "models_le m m'"
  using assms(1)
proof cases
  case (prepared p n b l z t q)
  then show ?thesis
    by (auto simp: models_le_def map_add_Some_iff map_of_eq_None_iff intro: rev_image_eqI)
next
  case (requested i a raw d r)
  then show ?thesis
    by (intro models_le_update [of m i a]) (auto simp: attempt_evolves_def set_authorization_def attempt_rank_def)
next
  case (granted i a raw d r admission)
  then show ?thesis
    by (intro models_le_update [of m i a]) (auto simp: attempt_evolves_def set_authorization_def attempt_rank_def)
next
  case (started i a t)
  then show ?thesis
    by (intro models_le_update [of m i a "\<lambda>a. a\<lparr>ma_status := ''dispatch_started'', ma_dispatched := Some t\<rparr>"])
      (auto simp: attempt_evolves_def attempt_rank_def)
next
  case (sealed i a raw us v s)
  have nn: "0 \<le> ma_revision a" using assms(2) sealed(2) attempts_nonneg by (auto simp: tables_ok_def)
  then have "attempt_rank s = 4" using sealed_attempt_rank [OF sealed(7)] sealed(4) by (simp add: seal_attempt_def)
  then have "attempt_evolves a (seal_attempt s v a)"
    using sealed(4) by (auto simp: attempt_evolves_def seal_attempt_def attempt_rank_def)
  with sealed show ?thesis
    by (intro models_le_update [of m i a]) auto
qed

text \<open>Both facts hold along all interleavings.\<close>

interpretation tables: invariant_steps "model_write jcs sha" tables_ok for jcs sha
  by unfold_locales (rule model_write_tables)

interpretation growth: monotone_steps "\<lambda>m m'. model_write jcs sha m m' \<and> tables_ok m" models_le for jcs sha
  by unfold_locales (auto intro: models_le_trans model_write_le)

lemma writes_le:
  assumes "(model_write jcs sha)\<^sup>*\<^sup>* m m'" and "tables_ok m"
  shows "models_le m m'"
proof -
  have "(\<lambda>m m'. model_write jcs sha m m' \<and> tables_ok m)\<^sup>*\<^sup>* m m'"
    using assms(1)
  proof (induction rule: rtranclp_induct)
    case (step m' m'')
    then have "tables_ok m'" using tables.steps_keep assms(2) by blast
    with step show ?case by (simp add: rtranclp.rtrancl_into_rtrancl)
  qed simp
  then show ?thesis by (rule growth.steps)
qed

lemma model_steps_writes:
  "(model_step jcs sha)\<^sup>*\<^sup>* db db' \<Longrightarrow> tables_ok (models db) \<Longrightarrow> (model_write jcs sha)\<^sup>*\<^sup>* (models db) (models db')"
proof (induction rule: rtranclp_induct)
  case (step db1 db2)
  then have "tables_ok (models db1)" using tables.steps_keep by blast
  with step show ?case using model_step_writes by (blast intro: rtranclp_trans)
qed simp

text \<open>No operation of the run store touches the two tables.\<close>

lemma run_models:
  assumes "run_step sha uuid db db'"
  shows "models db' = models db"
proof -
  have "TModels \<notin> touches op" for op
  proof (cases op)
    case (Worker r l w)
    then show ?thesis by (cases w) auto
  qed auto
  with assms run_effect_frame show ?thesis
    unfolding frame_def run_step_iff by (metis same_table.simps(15))
qed

lemma run_is_model_step: "run_step sha uuid db db' \<Longrightarrow> model_step jcs sha db db'"
  by (rule model_step.elsewhere [OF run_models])

section \<open>One dispatch per attempt\<close>

lemma started_stays:
  assumes "map_of (attempts m) i = Some a" and "3 \<le> attempt_rank (ma_status a)" and "models_le m m'"
  shows "\<exists>b. map_of (attempts m') i = Some b \<and> 3 \<le> attempt_rank (ma_status b) \<and> ma_dispatched b = ma_dispatched a"
proof -
  from assms obtain b where "map_of (attempts m') i = Some b" "attempt_evolves a b" by (auto simp: models_le_def)
  with assms(2) show ?thesis by (auto simp: attempt_evolves_def)
qed

text \<open>C35: An attempt is dispatched at most once. After the call that was told to dispatch, whatever
  transactions of the repository and of the other components interleave, every later call for the
  attempt that returns a permit learns the instant of that dispatch, is not told to dispatch, and
  changes nothing.
\<close>

theorem attempt_dispatched_once:
  assumes "tables_ok (models db)" and "start_dispatch jcs sha us m db = Inr ((t, True), db1)"
    and "(model_step jcs sha)\<^sup>*\<^sup>* db1 db2" and "mc_attempt m2 = mc_attempt m"
    and "start_dispatch jcs sha us2 m2 db2 = Inr ((t2, newly), db3)"
  shows "t2 = t \<and> \<not> newly \<and> db3 = db2"
proof -
  note first = start_writes [OF assms(2), simplified]
  then obtain a where a: "map_of (attempts (models db1)) (mc_attempt m)
      = Some (a\<lparr>ma_status := ''dispatch_started'', ma_dispatched := Some t\<rparr>)" by blast
  have "tables_ok (models db1)" using first assms(1) model_write_tables by blast
  then have "models_le (models db1) (models db2)" using assms(3) model_steps_writes writes_le by blast
  with a obtain b where b: "map_of (attempts (models db2)) (mc_attempt m) = Some b"
    "3 \<le> attempt_rank (ma_status b)" "ma_dispatched b = Some t"
    using started_stays [OF a] by (auto simp: attempt_rank_def)
  from assms(5) obtain c where c: "lock_attempt jcs sha us2 m2 db2 = Inr c"
    and run: "ma_status c = ''authorized'' \<or> \<not> newly \<and> db3 = db2 \<and> ma_dispatched c = Some t2"
    unfolding start_dispatch_def bind_r_eq_Inr by (auto simp: authority_lost_def split: if_splits option.splits)
  have "c = b" using lock_attempt_Inr [OF c] b(1) assms(4) by simp
  with b run show ?thesis by (auto simp: attempt_rank_def)
qed

section \<open>The chain of evidence\<close>

definition pieces :: "string \<Rightarrow> model_db \<Rightarrow> (string \<times> evidence_row) list" where
  "pieces i m = filter (\<lambda>(j, e). me_attempt e = i) (evidences m)"

text \<open>What a piece of evidence owes to the one before it.\<close>

definition succeeds :: "string \<times> evidence_row \<Rightarrow> string \<times> evidence_row \<Rightarrow> bool" where
  "succeeds p q \<longleftrightarrow> me_prior_event (snd q) = Some (fst p) \<and> me_prior_digest (snd q) = Some (me_digest (snd p))
     \<and> (me_outcome (snd p) \<noteq> ''unknown'' \<longrightarrow> me_outcome (snd q) = me_outcome (snd p))
     \<and> (me_usage (snd p) = ''normalized'' \<longrightarrow> me_usage (snd q) = ''normalized'')"

definition heads :: "attempt_row \<Rightarrow> (string \<times> evidence_row) list \<Rightarrow> bool" where
  "heads a ps \<longleftrightarrow> map (me_revision \<circ> snd) ps = [1..ma_revision a] \<and> successively succeeds ps
     \<and> (\<forall>p \<in> set ps. me_tenant (snd p) = ma_tenant a \<and> me_run (snd p) = ma_run a)
     \<and> (ps \<noteq> [] \<longrightarrow> ma_event a = Some (fst (last ps)) \<and> ma_evidence a = Some (me_digest (snd (last ps)))
          \<and> ma_sealed a = Some (me_observed (snd (last ps))))"

text \<open>The columns of a piece are what its bytes say.\<close>

definition reads :: "(json \<Rightarrow> string result) \<Rightarrow> (string \<Rightarrow> string) \<Rightarrow> string \<times> evidence_row \<Rightarrow> bool" where
  "reads jcs sha p \<longleftrightarrow> (case parse_evidence jcs sha V2 (me_bytes (snd p)) of Inl _ \<Rightarrow> False
     | Inr x \<Rightarrow> vi_event_id (ue_identity x) = fst p \<and> ue_digest x = me_digest (snd p)
         \<and> int (undigits (ue_revision x)) = me_revision (snd p) \<and> xo_outcome (ue_execution x) = me_outcome (snd p)
         \<and> usage_state (ue_usage x) = me_usage (snd p) \<and> xo_seal (ue_execution x)
         \<and> jcs (enc_usage_evidence x) = Inr (me_bytes (snd p)))"

definition chained :: "(json \<Rightarrow> string result) \<Rightarrow> (string \<Rightarrow> string) \<Rightarrow> model_db \<Rightarrow> bool" where
  "chained jcs sha m \<longleftrightarrow> tables_ok m \<and> (\<forall>i a. map_of (attempts m) i = Some a \<longrightarrow> heads a (pieces i m))
     \<and> (\<forall>p \<in> set (evidences m). reads jcs sha p \<and> map_of (attempts m) (me_attempt (snd p)) \<noteq> None)"

lemma heads_same:
  "heads a ps \<Longrightarrow> ma_revision b = ma_revision a \<Longrightarrow> ma_tenant b = ma_tenant a \<Longrightarrow> ma_run b = ma_run a
   \<Longrightarrow> ma_event b = ma_event a \<Longrightarrow> ma_evidence b = ma_evidence a \<Longrightarrow> ma_sealed b = ma_sealed a \<Longrightarrow> heads b ps"
  by (simp add: heads_def)

lemma chained_update:
  assumes "chained jcs sha m" and "tables_ok m'" and "map_of (attempts m) i = Some a"
    and "attempts m' = update_at i f (attempts m)" and "evidences m' = evidences m"
    and "heads a (pieces i m) \<Longrightarrow> heads (f a) (pieces i m)"
  shows "chained jcs sha m'"
proof -
  have p: "pieces j m' = pieces j m" for j by (simp add: pieces_def assms(5))
  have "heads b (pieces j m')" if "map_of (attempts m') j = Some b" for j b
    using that assms p by (cases "j = i") (auto simp: chained_def)
  moreover have "map_of (attempts m') j \<noteq> None \<longleftrightarrow> map_of (attempts m) j \<noteq> None" for j
    using assms(3,4) by (cases "j = i") auto
  ultimately show ?thesis using assms(1,2,5) by (simp add: chained_def)
qed

lemma sealed_reads:
  assumes "validate_append_evidence jcs sha raw a us = Inr v"
  shows "reads jcs sha (ve_event_id v, evidence_row_of t r i v raw)"
  using validate_append_Inr [OF assms] validate_binding_Inr [of jcs raw "ve_evidence v" a us v]
  by (simp add: reads_def evidence_row_of_def)

lemma successor_Inr:
  assumes "validate_successor jcs sha p e = Inr ()" and "undigits (ue_revision e) \<noteq> undigits (ue_revision p)"
  shows "\<exists>x. ue_predecessor e = Some x \<and> pr_event_id x = vi_event_id (ue_identity p) \<and> pr_digest x = ue_digest p"
    and "knowledge_check p e = None"
  using assms unfolding validate_successor_def bind_r_eq_Inr
  by (auto split: if_splits option.splits)

lemma knowledge_keeps:
  assumes "knowledge_check p e = None"
  shows "xo_outcome (ue_execution p) \<noteq> ''unknown'' \<Longrightarrow> xo_outcome (ue_execution e) = xo_outcome (ue_execution p)"
    and "usage_state (ue_usage p) = ''normalized'' \<Longrightarrow> usage_state (ue_usage e) = ''normalized''"
  using assms by (auto simp: knowledge_check_def split: usage_observation.splits if_splits)

lemma last_piece:
  assumes "map (me_revision \<circ> snd) ps = [1..r]" and "p \<in> set ps" and "me_revision (snd p) = r"
  shows "last ps = p"
proof -
  have ne: "ps \<noteq> []" using assms(2) by auto
  have "me_revision (snd (last ps)) = last (map (me_revision \<circ> snd) ps)" using ne by (simp add: last_map)
  also have "\<dots> = last [1..r]" using assms(1) by simp
  also have "\<dots> = r"
  proof -
    have "1 \<le> r" using assms(1) ne by (metis map_is_Nil_conv upto_Nil linorder_not_le)
    then show ?thesis by (simp add: upto_rec2)
  qed
  finally have "(me_revision \<circ> snd) (last ps) = (me_revision \<circ> snd) p" using assms(3) by simp
  moreover have "inj_on (me_revision \<circ> snd) (set ps)"
    using assms(1) distinct_map [of "me_revision \<circ> snd" ps] by simp
  ultimately show ?thesis using assms(2) ne last_in_set unfolding inj_on_def by blast
qed

lemma seal_succeeds:
  assumes h: "map (me_revision \<circ> snd) (pieces i m) = [1..ma_revision a]" and ne: "pieces i m \<noteq> []"
    and rd: "\<forall>p \<in> set (evidences m). reads jcs sha p"
    and fol: "follows jcs sha m i a (ve_evidence v)" and val: "validate_append_evidence jcs sha raw a us = Inr v"
    and rev: "ve_revision v = ma_revision a + 1"
  shows "succeeds (last (pieces i m)) (ve_event_id v, evidence_row_of t r i v raw)"
proof -
  have "1 \<le> ma_revision a" using h ne by (metis map_is_Nil_conv upto_Nil linorder_not_le)
  with fol obtain j x where f: "List.find (\<lambda>(j, x). me_attempt x = i \<and> me_revision x = ma_revision a) (evidences m) = Some (j, x)"
    and pv: "case parse_evidence jcs sha V2 (me_bytes x) of Inl _ \<Rightarrow> False | Inr p \<Rightarrow> validate_successor jcs sha p (ve_evidence v) = Inr ()"
    by (auto simp: follows_def split: option.splits)
  from pv obtain previous where p: "parse_evidence jcs sha V2 (me_bytes x) = Inr previous"
    and suc: "validate_successor jcs sha previous (ve_evidence v) = Inr ()"
    by (cases "parse_evidence jcs sha V2 (me_bytes x)") auto
  from f have x: "(j, x) \<in> set (evidences m)" "me_attempt x = i" "me_revision x = ma_revision a"
    unfolding find_Some_iff by (auto simp: set_conv_nth)
  then have last: "last (pieces i m) = (j, x)" by (intro last_piece [OF h]) (auto simp: pieces_def)
  have "reads jcs sha (j, x)" using rd x by blast
  with p have px: "vi_event_id (ue_identity previous) = j" "ue_digest previous = me_digest x"
    "int (undigits (ue_revision previous)) = ma_revision a" "xo_outcome (ue_execution previous) = me_outcome x"
    "usage_state (ue_usage previous) = me_usage x" using x by (simp_all add: reads_def)
  note v = validate_binding_Inr [OF conjunct2 [OF validate_append_Inr [OF val]]]
  have "undigits (ue_revision (ve_evidence v)) \<noteq> undigits (ue_revision previous)" using v rev px by auto
  note s = successor_Inr [OF suc this]
  show ?thesis
    using s(1) px knowledge_keeps [OF s(2)] v by (auto simp: last succeeds_def evidence_row_of_def)
qed

lemma seal_heads:
  assumes c: "chained jcs sha m" and a: "map_of (attempts m) i = Some a"
    and val: "validate_append_evidence jcs sha raw a us = Inr v" and rev: "ve_revision v = ma_revision a + 1"
    and fol: "follows jcs sha m i a (ve_evidence v)"
  shows "heads (seal_attempt s v a) (pieces i m @ [(ve_event_id v, evidence_row_of (ma_tenant a) (ma_run a) i v raw)])"
proof -
  have h: "heads a (pieces i m)" and rd: "\<forall>p \<in> set (evidences m). reads jcs sha p"
    and nn: "0 \<le> ma_revision a" using c a attempts_nonneg by (auto simp: chained_def tables_ok_def)
  have revs: "map (me_revision \<circ> snd) (pieces i m) = [1..ma_revision a]" using h by (simp add: heads_def)
  have "[1..ma_revision a] @ [ma_revision a + 1] = [1..ma_revision a + 1]" using nn upto_rec2 [of 1 "ma_revision a + 1"] by simp
  moreover have "pieces i m \<noteq> [] \<Longrightarrow> succeeds (last (pieces i m)) (ve_event_id v, evidence_row_of (ma_tenant a) (ma_run a) i v raw)"
    by (rule seal_succeeds [OF revs _ rd fol val rev])
  ultimately show ?thesis
    using h revs by (auto simp: heads_def seal_attempt_def evidence_row_of_def rev successively_append_iff)
qed

lemma chained_write:
  assumes c: "chained jcs sha m" and w: "model_write jcs sha m m'"
  shows "chained jcs sha m'"
proof -
  have t: "tables_ok m'" using c w model_write_tables by (auto simp: chained_def)
  from w show ?thesis
  proof cases
    case (prepared p n b l z tt q)
    have "pieces (pp_attempt p) m = []"
      using c prepared(2) by (fastforce simp: chained_def pieces_def filter_empty_conv)
    then have "heads (new_attempt p n b l z tt) (pieces (pp_attempt p) m)" by (simp add: heads_def)
    then show ?thesis using c t prepared(1,2)
      by (auto simp: chained_def pieces_def map_add_Some_iff split: option.splits if_splits)
  next
    case (requested i a raw d r)
    show ?thesis
      by (rule chained_update [OF c t requested(2), where f = "set_authorization raw d ''requested_unknown'' ''authorization_pending''"])
        (auto simp: requested(1) set_authorization_def elim: heads_same)
  next
    case (granted i a raw d r admission)
    show ?thesis
      by (rule chained_update [OF c t granted(2), where f = "set_authorization raw d ''granted'' ''authorized''"])
        (auto simp: granted(1) set_authorization_def elim: heads_same)
  next
    case (started i a tt)
    show ?thesis
      by (rule chained_update [OF c t started(2), where f = "\<lambda>a. a\<lparr>ma_status := ''dispatch_started'', ma_dispatched := Some tt\<rparr>"])
        (auto simp: started(1) elim: heads_same)
  next
    case (sealed i a raw us v s)
    let ?row = "evidence_row_of (ma_tenant a) (ma_run a) i v raw"
    have at: "me_attempt ?row = i" by (simp add: evidence_row_of_def)
    have p: "pieces j m' = (if j = i then pieces i m @ [(ve_event_id v, ?row)] else pieces j m)" for j
      using at by (simp add: pieces_def sealed(1))
    have "heads b (pieces j m')" if "map_of (attempts m') j = Some b" for j b
    proof (cases "j = i")
      case True
      then have "b = seal_attempt s v a" using that sealed(2) by (simp add: sealed(1))
      then show ?thesis using seal_heads [OF c sealed(2,3,4,5)] p True by simp
    next
      case False
      then show ?thesis using that c p by (simp add: sealed(1) chained_def)
    qed
    moreover have "map_of (attempts m') j \<noteq> None \<longleftrightarrow> map_of (attempts m) j \<noteq> None" for j
      using sealed(1,2) by (cases "j = i") auto
    ultimately show ?thesis
      using c t at sealed(2) sealed_reads [OF sealed(3)] by (simp add: chained_def sealed(1))
  qed
qed

interpretation chain: invariant_steps "model_write jcs sha" "chained jcs sha" for jcs sha
  by unfold_locales (rule chained_write)

lemma chained_empty: "attempts m = [] \<Longrightarrow> evidences m = [] \<Longrightarrow> chained jcs sha m"
  by (simp add: chained_def tables_ok_def keys_ok_def rows_ok_def)

text \<open>C36: From an empty store, whatever the transactions of the repository and of the other components do,
  the evidence of an attempt is the gap-free sequence of its revisions 1..n in the order it was written,
  each piece names the event and the digest of the one before and keeps a known outcome and normalized
  usage, and the attempt row points at the last one.
\<close>

theorem evidence_chain:
  assumes "attempts (models db0) = []" and "evidences (models db0) = []"
    and "(model_step jcs sha)\<^sup>*\<^sup>* db0 db" and "map_of (attempts (models db)) i = Some a"
  shows "map (me_revision \<circ> snd) (pieces i (models db)) = [1..ma_revision a]
    \<and> successively succeeds (pieces i (models db))
    \<and> (pieces i (models db) \<noteq> [] \<longrightarrow> (\<exists>j e. last (pieces i (models db)) = (j, e)
         \<and> ma_event a = Some j \<and> ma_evidence a = Some (me_digest e) \<and> ma_sealed a = Some (me_observed e)))"
proof -
  have c: "chained jcs sha (models db0)" by (rule chained_empty [OF assms(1,2)])
  then have "chained jcs sha (models db)"
    using chain.steps_keep model_steps_writes [OF assms(3)] by (auto simp: chained_def)
  with assms(4) have "heads a (pieces i (models db))" by (simp add: chained_def)
  then show ?thesis by (auto simp: heads_def intro: prod.collapse [symmetric])
qed

section \<open>Frozen columns read back\<close>

lemma validate_frozen_iff:
  "validate_frozen_attempt jcs sha ver i a = Inr () \<longleftrightarrow> ma_request_version a = 1 \<and> hex64 (ma_request_digest a)
     \<and> frozen_bytes jcs sha (ma_binding a) (ma_binding_digest a) = Inr ()
     \<and> frozen_bytes jcs sha (ma_planned a) (ma_planned_digest a) = Inr ()
     \<and> frozen_bytes jcs sha (ma_authorization a) (ma_authorization_digest a) = Inr ()
     \<and> (\<exists>b. validate_json dec_attempt_binding (ma_binding a) = Inr b \<and> binding_of_row a b \<and> ab_attempt_id b = i)
     \<and> (\<exists>p. validate_json (dec_planned ver) (ma_planned a) = Inr p)
     \<and> (\<exists>z. frozen_authorization (ma_authorization_state a) (ma_authorization a) = Inr z)"
  unfolding validate_frozen_attempt_def bind_r_eq_Inr
  by (auto simp: conflict_def bind_r_eq_Inr)

lemma canonical_Inr:
  assumes "canonical_artifact jcs sha v = Inr (raw, d)" and law: "rfc8785_law jcs" and v: "integral v" "readable v"
  shows "raw = dumps_compact False (sort_json v)" and "d = sha raw" and "loads raw = Some (sort_json v)"
    and "utf8_length raw \<le> max_json_bytes"
proof -
  have j: "jcs v = Inr (dumps_compact False (sort_json v))" by (rule rfc8785_dumps [OF law v(1)])
  with assms(1) show raw: "raw = dumps_compact False (sort_json v)" and "d = sha raw" "utf8_length raw \<le> max_json_bytes"
    by (auto simp: canonical_artifact_def split: if_splits)
  show "loads raw = Some (sort_json v)"
    unfolding raw by (rule loads_sorted) (simp_all add: v integral_printable)
qed

text \<open>Freezing a value and reading it back.\<close>

lemma frozen_canonical:
  assumes c: "canonical_artifact jcs sha v = Inr (raw, d)" and law: "rfc8785_law jcs"
    and v: "integral v" "readable v" "json_object v"
  shows "frozen_bytes jcs sha raw d = Inr ()" and "validate_json dec raw = dec (sort_json v)"
proof -
  note r = canonical_Inr [OF c law v(1,2)]
  obtain kvs where o: "sort_json v = JObj kvs" using v(3) by (cases v) (auto simp: sort_json_obj)
  have "jcs (sort_json v) = Inr raw"
    using rfc8785_dumps [OF law integral_sort [OF v(1)]] r(1) by simp
  then show "frozen_bytes jcs sha raw d = Inr ()"
    by (simp add: frozen_bytes_def frozen_object_def r(2,3) o)
  show "validate_json dec raw = dec (sort_json v)"
    by (simp add: validate_json_def r(3))
qed

lemma enc_objects [simp]:
  "json_object (enc_attempt_binding b)" "json_object (enc_planned ver p)" "json_object (enc_authorization z)"
  by (simp_all add: enc_attempt_binding_def enc_planned_def split: usage_version.split) (cases z; simp)

lemma encode_binding_Inr:
  assumes "encode_attempt_binding jcs sha p q n = Inr b" and "rq_run_id q = rq_run_id (pp_request p)"
    and "rq_identity q = rq_identity (pp_request p)"
  shows "\<exists>x. attempt_binding_ok x \<and> canonical_artifact jcs sha (enc_attempt_binding x) = Inr b
    \<and> ab_attempt_id x = pp_attempt p \<and> binding_of_row (new_attempt p n b l z t) x"
  using assms unfolding encode_attempt_binding_def Let_def bind_r_eq_Inr
  by (auto simp: construct_usage_def binding_of_row_def new_attempt_def bind_r_eq_Inr)

text \<open>What an attempt row holds: the canonical bytes of a binding, a plan and an authorization of its own.\<close>

definition written_as ::
  "(json \<Rightarrow> string result) \<Rightarrow> (string \<Rightarrow> string) \<Rightarrow> string \<Rightarrow> attempt_row
    \<Rightarrow> attempt_binding \<Rightarrow> planned_binding \<Rightarrow> authorization \<Rightarrow> bool" where
  "written_as jcs sha i a x p z \<longleftrightarrow> attempt_binding_ok x \<and> planned_ok p \<and> authorization_ok z
     \<and> canonical_artifact jcs sha (enc_attempt_binding x) = Inr (ma_binding a, ma_binding_digest a)
     \<and> canonical_artifact jcs sha (enc_planned V2 p) = Inr (ma_planned a, ma_planned_digest a)
     \<and> canonical_artifact jcs sha (enc_authorization z) = Inr (ma_authorization a, ma_authorization_digest a)
     \<and> binding_of_row a x \<and> ab_attempt_id x = i \<and> authorization_state z = ma_authorization_state a
     \<and> (case z of NotRequested \<Rightarrow> True | Requested s r \<Rightarrow> s = ''requested_unknown'' | Granted r m \<Rightarrow> True)
     \<and> ma_request_version a = 1 \<and> hex64 (ma_request_digest a)"

definition written :: "(json \<Rightarrow> string result) \<Rightarrow> (string \<Rightarrow> string) \<Rightarrow> string \<Rightarrow> attempt_row \<Rightarrow> bool" where
  "written jcs sha i a \<longleftrightarrow> (\<exists>x p z. written_as jcs sha i a x p z)"

lemma written_same:
  "written jcs sha i a \<Longrightarrow> written jcs sha i (seal_attempt s v a)"
  "written jcs sha i a \<Longrightarrow> written jcs sha i (a\<lparr>ma_status := s, ma_dispatched := t\<rparr>)"
  by (auto simp: written_def written_as_def seal_attempt_def binding_of_row_def)

lemma written_authorize:
  assumes "written jcs sha i a" and "canonical_artifact jcs sha (enc_authorization z) = Inr (raw, d)"
    and "authorization_ok z" and "z = Requested ''requested_unknown'' r \<and> s = ''requested_unknown'' \<or> z = Granted r m \<and> s = ''granted''"
  shows "written jcs sha i (set_authorization raw d s st a)"
proof -
  obtain x p z' where w: "written_as jcs sha i a x p z'" using assms(1) by (auto simp: written_def)
  have "written_as jcs sha i (set_authorization raw d s st a) x p z"
    using w assms(2-4) by (auto simp: written_as_def set_authorization_def binding_of_row_def)
  then show ?thesis by (auto simp: written_def)
qed

lemma written_new:
  assumes "encode_attempt_binding jcs sha p q n = Inr b" and "rq_run_id q = rq_run_id (pp_request p)"
    and "rq_identity q = rq_identity (pp_request p)" and "encode_planned_artifact jcs sha (pp_planned p) = Inr l"
    and "encode_not_requested_artifact jcs sha = Inr z" and "planned_ok (pp_planned p)"
    and row: "attempt_row_ok (new_attempt p n b l z t)"
  shows "written jcs sha (pp_attempt p) (new_attempt p n b l z t)"
proof -
  obtain x where x: "attempt_binding_ok x" "canonical_artifact jcs sha (enc_attempt_binding x) = Inr (fst b, snd b)"
    "ab_attempt_id x = pp_attempt p" "binding_of_row (new_attempt p n b l z t) x"
    using encode_binding_Inr [OF assms(1-3), of l z t] prod.collapse [of b] by metis
  have "ma_request_version (new_attempt p n b l z t) = 1" "hex64 (ma_request_digest (new_attempt p n b l z t))"
    using row by (simp_all add: attempt_row_ok_def)
  with x assms(4-6) have "written_as jcs sha (pp_attempt p) (new_attempt p n b l z t) x (pp_planned p) NotRequested"
    by (simp add: written_as_def encode_planned_artifact_def encode_not_requested_artifact_def) (simp add: new_attempt_def)
  then show ?thesis by (auto simp: written_def)
qed

text \<open>Under the law of RFC 8785 what was written passes every check of the frozen columns.\<close>

lemma written_frozen:
  assumes w: "written jcs sha i a" and law: "rfc8785_law jcs"
  shows "validate_frozen_attempt jcs sha V2 i a = Inr ()"
proof -
  obtain x p z where w: "written_as jcs sha i a x p z" using w by (auto simp: written_def)
  have c: "canonical_artifact jcs sha (enc_attempt_binding x) = Inr (ma_binding a, ma_binding_digest a)"
    "canonical_artifact jcs sha (enc_planned V2 p) = Inr (ma_planned a, ma_planned_digest a)"
    "canonical_artifact jcs sha (enc_authorization z) = Inr (ma_authorization a, ma_authorization_digest a)"
    and ok: "attempt_binding_ok x" "planned_ok p" "authorization_ok z"
    using w by (simp_all add: written_as_def)
  note bx = frozen_canonical [OF c(1) law _ _ enc_objects(1)] and px = frozen_canonical [OF c(2) law _ _ enc_objects(2)]
    and zx = frozen_canonical [OF c(3) law _ _ enc_objects(3)]
  have z: "validate_json dec_authorization (ma_authorization a) = Inr z"
    by (subst zx(2)) (simp_all add: authorization_sorted [OF ok(3)] authorization_plain del: enc_authorization.simps)
  have "frozen_authorization (ma_authorization_state a) (ma_authorization a) = Inr z"
    using z w by (cases z) (auto simp: frozen_authorization_def reraise_def written_as_def)
  moreover have "validate_json dec_attempt_binding (ma_binding a) = Inr x"
    by (subst bx(2)) (simp_all add: attempt_binding_sorted [OF ok(1)] attempt_binding_plain)
  moreover have "validate_json (dec_planned V2) (ma_planned a) = Inr p"
    by (subst px(2)) (simp_all add: planned_sorted [OF ok(2)] planned_plain)
  moreover have "frozen_bytes jcs sha (ma_binding a) (ma_binding_digest a) = Inr ()"
    "frozen_bytes jcs sha (ma_planned a) (ma_planned_digest a) = Inr ()"
    "frozen_bytes jcs sha (ma_authorization a) (ma_authorization_digest a) = Inr ()"
    using bx(1) px(1) zx(1) by (simp_all add: attempt_binding_plain planned_plain authorization_plain del: enc_authorization.simps)
  ultimately show ?thesis
    using w by (auto simp: validate_frozen_iff written_as_def)
qed

lemma requested_Inr:
  assumes "encode_requested_artifact jcs sha r = Inr (raw, d)"
  shows "canonical_artifact jcs sha (enc_authorization (Requested ''requested_unknown'' r)) = Inr (raw, d)"
    and "authorization_ok (Requested ''requested_unknown'' r)"
  using assms by (auto simp: encode_requested_artifact_def construct_authorization_def bind_r_eq_Inr)

lemma granted_Inr:
  assumes "encode_granted_artifact jcs sha r m = Inr (raw, d)"
  shows "canonical_artifact jcs sha (enc_authorization (Granted r m)) = Inr (raw, d)" and "authorization_ok (Granted r m)"
  using assms by (auto simp: encode_granted_artifact_def construct_authorization_def bind_r_eq_Inr)

definition all_written :: "(json \<Rightarrow> string result) \<Rightarrow> (string \<Rightarrow> string) \<Rightarrow> model_db \<Rightarrow> bool" where
  "all_written jcs sha m \<longleftrightarrow> (\<forall>i a. map_of (attempts m) i = Some a \<longrightarrow> written jcs sha i a)"

lemma all_written_update:
  "all_written jcs sha m \<Longrightarrow> (\<And>a. map_of (attempts m) i = Some a \<Longrightarrow> written jcs sha i (f a))
   \<Longrightarrow> attempts m' = update_at i f (attempts m) \<Longrightarrow> all_written jcs sha m'"
  unfolding all_written_def by (intro allI impI) (case_tac "ia = i"; auto)

lemma all_written_write:
  assumes f: "all_written jcs sha m" and w: "model_write jcs sha m m'"
  shows "all_written jcs sha m'"
  using w
proof cases
  case (prepared p n b l z t q)
  have "written jcs sha (pp_attempt p) (new_attempt p n b l z t)"
    using written_new [OF prepared(4,7,8,5,6,9,3)] .
  with f prepared(1,2) show ?thesis
    by (auto simp: all_written_def map_add_Some_iff split: option.splits if_splits)
next
  case (requested i a raw d r)
  have "written jcs sha i a" using f requested(2) by (simp add: all_written_def)
  from written_authorize [OF this requested_Inr [OF requested(5)]]
  have "written jcs sha i (set_authorization raw d ''requested_unknown'' ''authorization_pending'' a)" by simp
  with requested show ?thesis by (intro all_written_update [OF f, of i]) auto
next
  case (granted i a raw d r admission)
  have "written jcs sha i a" using f granted(2) by (simp add: all_written_def)
  from written_authorize [OF this granted_Inr [OF granted(5)]]
  have "written jcs sha i (set_authorization raw d ''granted'' ''authorized'' a)" by simp
  with granted show ?thesis by (intro all_written_update [OF f, of i]) auto
next
  case (started i a t)
  then show ?thesis
    by (intro all_written_update [OF f, where i = i and f = "\<lambda>a. a\<lparr>ma_status := ''dispatch_started'', ma_dispatched := Some t\<rparr>"])
      (use f in \<open>auto simp: all_written_def intro: written_same\<close>)
next
  case (sealed i a raw us v s)
  then show ?thesis
    by (intro all_written_update [OF f, where i = i and f = "seal_attempt s v"])
      (use f in \<open>auto simp: all_written_def intro: written_same\<close>)
qed

interpretation writing: invariant_steps "model_write jcs sha" "all_written jcs sha" for jcs sha
  by unfold_locales (rule all_written_write)

text \<open>C37: From an empty store, along all interleavings, every stored attempt satisfies its table constraints
  and its frozen columns: binding, plan and authorization are canonical bytes of their digests that read
  back as valid wire models of this very attempt, so no later operation can fail on them; and every stored
  piece of evidence parses to the columns of its row.
\<close>

theorem stored_artifacts_typed:
  assumes "rfc8785_law jcs" and "attempts (models db0) = []" and "evidences (models db0) = []"
    and "(model_step jcs sha)\<^sup>*\<^sup>* db0 db"
  shows "(\<forall>i a. map_of (attempts (models db)) i = Some a \<longrightarrow>
      attempt_row_ok a \<and> validate_frozen_attempt jcs sha V2 i a = Inr ())
    \<and> (\<forall>j e. map_of (evidences (models db)) j = Some e \<longrightarrow> evidence_row_ok e \<and> reads jcs sha (j, e))"
proof -
  have c: "chained jcs sha (models db0)" by (rule chained_empty [OF assms(2,3)])
  then have w: "(model_write jcs sha)\<^sup>*\<^sup>* (models db0) (models db)"
    using model_steps_writes [OF assms(4)] by (simp add: chained_def)
  have "all_written jcs sha (models db0)" by (simp add: all_written_def assms(2))
  then have f: "all_written jcs sha (models db)" by (rule writing.steps_keep [OF w])
  from c have d: "chained jcs sha (models db)" by (rule chain.steps_keep [OF w])
  then have "rows_ok attempt_row_ok (attempts (models db))" "rows_ok evidence_row_ok (evidences (models db))"
    by (simp_all add: chained_def tables_ok_def)
  with f d show ?thesis
    using written_frozen [OF _ assms(1)] by (auto simp: all_written_def chained_def dest: rows_okD map_of_SomeD)
qed

end
