(* ===== verification/Model_Counts.thy ===== *)
theory Model_Counts
  imports Model_Contracts
begin

text \<open>
  The model-call counters of a run. The claim row carries how many attempts the run has, how many were
  dispatched, sealed and are of unknown outcome, and how complete its usage knowledge is; every operation
  of the repository that changes them recomputes the columns, and no operation of the run store touches
  them.
\<close>

section \<open>The composed system\<close>

inductive agent_step ::
  "(json \<Rightarrow> string result) \<Rightarrow> (string \<Rightarrow> string) \<Rightarrow> (string \<Rightarrow> string) \<Rightarrow> db \<Rightarrow> db \<Rightarrow> bool" for jcs sha uuid where
  model: "typed op \<Longrightarrow> agent_step jcs sha uuid db (model_effect jcs sha op db)"
| run: "run_step sha uuid db db' \<Longrightarrow> agent_step jcs sha uuid db db'"

inductive_cases agent_stepE: "agent_step jcs sha uuid db db'"

lemma agent_is_model_step: "agent_step jcs sha uuid db db' \<Longrightarrow> model_step jcs sha db db'"
  by (elim agent_stepE) (auto intro: model_step.call run_is_model_step)

lemma agent_steps_model: "(agent_step jcs sha uuid)\<^sup>*\<^sup>* db db' \<Longrightarrow> (model_step jcs sha)\<^sup>*\<^sup>* db db'"
  by (induction rule: rtranclp_induct) (auto intro: agent_is_model_step rtranclp.rtrancl_into_rtrancl)

section \<open>Counters outside the repository\<close>

definition counts_of :: "claim \<Rightarrow> model_counts" where
  "counts_of c = \<lparr>mk_attempts = cl_model_attempts c, mk_dispatched = cl_model_dispatched c, mk_sealed = cl_model_sealed c,
     mk_unknown = cl_model_unknown c, mk_completeness = cl_model_completeness c\<rparr>"

definition no_counts :: model_counts where
  "no_counts = \<lparr>mk_attempts = 0, mk_dispatched = 0, mk_sealed = 0, mk_unknown = 0, mk_completeness = ''none''\<rparr>"

definition kept_counts :: "claim option \<Rightarrow> claim option \<Rightarrow> bool" where
  "kept_counts before after \<longleftrightarrow> (case after of
     None \<Rightarrow> before = None
   | Some c \<Rightarrow> counts_of c = (case before of None \<Rightarrow> no_counts | Some b \<Rightarrow> counts_of b))"

definition keeps_counts :: "db \<Rightarrow> db \<Rightarrow> bool" where
  "keeps_counts db db' \<longleftrightarrow> (\<forall>r. kept_counts (map_of (claims db) r) (map_of (claims db') r))"

lemma kept_counts_simps [simp]: "kept_counts x x" "kept_counts None (Some c) \<longleftrightarrow> counts_of c = no_counts"
  "kept_counts (Some b) (Some c) \<longleftrightarrow> counts_of c = counts_of b"
  by (auto simp: kept_counts_def split: option.split)

lemma kept_counts_trans: "kept_counts x y \<Longrightarrow> kept_counts y z \<Longrightarrow> kept_counts x z"
  by (auto simp: kept_counts_def split: option.splits)

lemma keeps_counts_same [simp]: "claims db' = claims db \<Longrightarrow> keeps_counts db db'"
  by (auto simp: keeps_counts_def)

lemma keeps_counts_trans: "keeps_counts db db' \<Longrightarrow> keeps_counts db' db'' \<Longrightarrow> keeps_counts db db''"
  unfolding keeps_counts_def using kept_counts_trans by blast

lemma keeps_counts_committed:
  "(\<And>x db'. t db = Inr (x, db') \<Longrightarrow> keeps_counts db db') \<Longrightarrow> keeps_counts db (committed t db)"
  by (auto simp: committed_def split: sum.splits)

lemma keeps_counts_update:
  assumes "update_claim r cond f db = Inr (x, db')" and "\<And>c. counts_of (f c) = counts_of c"
  shows "keeps_counts db db'"
  using update_claim_effect [OF assms(1)]
proof (elim disjE exE conjE)
  fix c
  assume c: "map_of (claims db) r = Some c" "db' = db\<lparr>claims := update_at r f (claims db)\<rparr>"
  then have "map_of (claims db') s = (if s = r then Some (f c) else map_of (claims db) s)" for s by simp
  with c(1) assms(2) show ?thesis by (auto simp: keeps_counts_def)
qed simp

lemma keeps_counts_insert:
  assumes "insert_claim r c db = Inr (x, db')" and "counts_of c = no_counts"
  shows "keeps_counts db db'"
  using insert_claim_effect [OF assms(1)] assms(2)
  by (auto simp: keeps_counts_def)

lemma counts_take_over [simp]: "counts_of (take_over owner e c) = counts_of c"
  by (simp add: counts_of_def take_over_def)

lemma counts_new_claim [simp]: "counts_of (new_claim t q owner e) = no_counts" "counts_of (request_claim p owner e) = no_counts"
  by (simp_all add: counts_of_def no_counts_def new_claim_def request_claim_def)

lemma counts_stage_new:
  assumes "stage_new r e kind t payload c db = Inr (x, db')"
  shows "keeps_counts db db'"
proof -
  obtain y db1 f where "update_claim r (\<lambda>_. True) f db = Inr (y, db1)" "claims db' = claims db1"
    "\<And>c. counts_of (f c) = counts_of c"
    using assms
    by (fastforce simp: stage_new_def Let_def claims_of_updates counts_of_def split: if_splits)
  then show ?thesis
    using keeps_counts_update keeps_counts_same keeps_counts_trans by metis
qed

lemma counts_stage:
  "stage_critical_frame us hex r l kind t payload term e db = Inr (x, db') \<Longrightarrow> keeps_counts db db'"
  by (auto simp: stage_critical_frame_def Let_def split: if_splits option.splits dest: counts_stage_new)

lemma counts_segments: "keeps_counts (db\<lparr>segments := s\<rparr>) db' \<Longrightarrow> keeps_counts db db'"
  by (simp add: keeps_counts_def)

lemma counts_usage: "add_usage us r l i out db = Inr (x, db') \<Longrightarrow> keeps_counts db db'"
  by (auto simp: add_usage_def add_usage_rows_def counts_of_def elim!: counts_segments [OF keeps_counts_update]
      split: if_splits option.splits)

lemma counts_lease_writes:
  "renew now ttl_ms r l db = Inr (b, db') \<Longrightarrow> keeps_counts db db'"
  "lease_pause now r l db = Inr (b, db') \<Longrightarrow> keeps_counts db db'"
  "add_tokens now r l amount db = Inr (n, db') \<Longrightarrow> keeps_counts db db'"
  "reserve_event_index us r l db = Inr (i, db') \<Longrightarrow> keeps_counts db db'"
  "bind_sandbox_id us r l expected sandbox_id kind ref db = Inr (s, db') \<Longrightarrow> keeps_counts db db'"
  by (auto simp: renew_def lease_pause_def add_tokens_def reserve_event_index_def bind_sandbox_id_def counts_of_def
      elim!: keeps_counts_update split: if_splits option.splits)

lemma counts_reclaim:
  assumes "reclaim_rows now ttl_ms owner db = Inr (x, db')"
  shows "keeps_counts db db'"
proof -
  have "claims db' = update_where (\<lambda>_. expired now) (take_over owner (now + ttl_ms)) (claims db)"
    using assms by (auto simp: reclaim_rows_def Let_def)
  then show ?thesis by (auto simp: keeps_counts_def kept_counts_def split: option.splits if_splits)
qed

lemma counts_takeovers:
  "keeps_counts db (snd (adopt now ttl_ms r owner db))"
  "keeps_counts db (snd (try_claim now ttl_ms q owner db))"
  "keeps_counts db (snd (reclaim_expired now ttl_ms owner db))"
  by (auto simp: adopt_def try_claim_def reclaim_expired_def intro!: keeps_counts_committed
      intro: keeps_counts_update keeps_counts_insert counts_reclaim)

lemma counts_claim_dispatch:
  assumes "claim_dispatch now ttl_ms q consumer db = Inr (x, db')"
  shows "keeps_counts db db'"
proof -
  have "keeps_counts db db2" if "insert_claim r c (db\<lparr>dispatches := d\<rparr>) = Inr (y, db2)" "counts_of c = no_counts" for r c d y db2
    using keeps_counts_insert [OF that] by (simp add: keeps_counts_def)
  then show ?thesis
    using assms by (auto simp: claim_dispatch_def split: if_splits option.splits)
qed

lemma frame_counts: "frame ts db db' \<Longrightarrow> TClaims \<notin> ts \<Longrightarrow> keeps_counts db db'"
  by (metis frame_def keeps_counts_same same_table.simps(1))

lemma counts_perform: "keeps_counts db (perform sha uuid r l op db)"
proof (cases "TClaims \<in> worker_touches op")
  case True
  then show ?thesis
    by (cases op) (auto intro!: keeps_counts_committed dest: counts_lease_writes counts_usage counts_stage)
qed (use perform_frame frame_counts in blast)

lemma run_effect_counts: "keeps_counts db (run_effect sha uuid op db)"
proof (cases "TClaims \<in> touches op")
  case True
  then show ?thesis
    by (cases op) (auto simp: counts_perform counts_takeovers intro!: keeps_counts_committed dest: counts_claim_dispatch)
qed (use run_effect_frame frame_counts in blast)

section \<open>What the counters count\<close>

text \<open>The attempts of a run and their evidence are all that its counters depend on.\<close>

definition same_calls :: "string \<Rightarrow> model_db \<Rightarrow> model_db \<Rightarrow> bool" where
  "same_calls r m m' \<longleftrightarrow> select_where (\<lambda>_ a. ma_run a = r) (attempts m') = select_where (\<lambda>_ a. ma_run a = r) (attempts m)
     \<and> (\<forall>i a n. (i, a) \<in> set (select_where (\<lambda>_ a. ma_run a = r) (attempts m)) \<longrightarrow>
          List.find (\<lambda>(j, e). me_attempt e = i \<and> me_revision e = n) (evidences m')
          = List.find (\<lambda>(j, e). me_attempt e = i \<and> me_revision e = n) (evidences m))"

lemma same_calls_refl [simp]: "same_calls r m m"
  by (simp add: same_calls_def)

lemma same_calls_trans: "same_calls r m m' \<Longrightarrow> same_calls r m' m'' \<Longrightarrow> same_calls r m m''"
  by (simp add: same_calls_def)

lemma find_append:
  "List.find P (xs @ ys) = (case List.find P xs of None \<Rightarrow> List.find P ys | Some x \<Rightarrow> Some x)"
  by (induction xs) auto

lemma completeness_same:
  assumes "same_calls r (models db) (models db')"
  shows "completeness_of r db' = completeness_of r db"
proof -
  have rows: "run_attempts r db' = run_attempts r db"
    using assms by (simp add: same_calls_def run_attempts_def)
  have head: "evidence_at i (ma_revision a) db' = evidence_at i (ma_revision a) db" if "(i, a) \<in> set (run_attempts r db)" for i a
    using that assms by (auto simp: same_calls_def run_attempts_def evidence_at_def)
  have same: "filter (\<lambda>(i, a). P a (evidence_at i (ma_revision a) db')) (run_attempts r db)
      = filter (\<lambda>(i, a). P a (evidence_at i (ma_revision a) db)) (run_attempts r db)" for P
    by (rule filter_cong [OF refl]) (clarsimp simp: head)
  note partial = same [of "\<lambda>a. head_partial"] and unknown = same [of "\<lambda>a e. ma_sealed a \<noteq> None \<and> head_unknown a e"]
  show ?thesis
    by (simp only: completeness_of_def rows Let_def partial unknown)
qed

lemma completeness_models: "models db' = models db \<Longrightarrow> completeness_of r db' = completeness_of r db"
  by (rule completeness_same) simp

text \<open>A write to an attempt of another run.\<close>

lemma select_update_other:
  assumes "keys_ok rows" and "map_of rows i = Some a" and "ma_run a \<noteq> r" and "\<And>a. ma_run (f a) = ma_run a"
  shows "select_where (\<lambda>_ a. ma_run a = r) (update_at i f rows) = select_where (\<lambda>_ a. ma_run a = r) rows"
proof -
  have "b = a" if "(i, b) \<in> set rows" for b
    using that assms(1,2) by (metis map_of_in_table option.inject)
  then have "\<forall>x \<in> set rows. fst x = i \<longrightarrow> ma_run (snd x) \<noteq> r" using assms(3) by auto
  then show ?thesis
    unfolding select_where_def update_at_def
    by (induction rows) (simp_all add: assms(4) split_beta)
qed

lemma same_calls_update:
  assumes "keys_ok (attempts m)" and "map_of (attempts m) i = Some a" and "ma_run a \<noteq> r" and "\<And>a. ma_run (f a) = ma_run a"
    and "attempts m' = update_at i f (attempts m)"
    and "evidences m' = evidences m @ es" and "\<forall>(j, e) \<in> set es. me_attempt e = i"
  shows "same_calls r m m'"
proof -
  have "List.find (\<lambda>(j, e). me_attempt e = k \<and> me_revision e = n) (evidences m')
      = List.find (\<lambda>(j, e). me_attempt e = k \<and> me_revision e = n) (evidences m)"
    if "(k, b) \<in> set (select_where (\<lambda>_ a. ma_run a = r) (attempts m))" for k b n
  proof -
    have "map_of (attempts m) k = Some b" "ma_run b = r"
      using that assms(1) by (auto simp: set_select_where map_of_in_table)
    with assms(2,3) have "k \<noteq> i" by auto
    then have "List.find (\<lambda>(j, e). me_attempt e = k \<and> me_revision e = n) es = None"
      using assms(7) by (auto simp: find_None_iff)
    then show ?thesis by (simp add: assms(6) find_append split: option.split)
  qed
  then show ?thesis
    using select_update_other [OF assms(1-4)] by (auto simp: same_calls_def assms(5))
qed

text \<open>Recording an authorization changes no counter at all.\<close>

lemma length_filter_update:
  assumes "\<And>a. P (i, f a) = P (i, a)"
  shows "length (filter P (update_at i f rows)) = length (filter P rows)"
proof -
  have same: "P (k, if k = i then f v else v) = P (k, v)" for k v using assms by simp
  show ?thesis by (induction rows) (simp_all add: update_at_def same split_beta)
qed

lemma set_authorization_fields [simp]:
  "ma_sealed (set_authorization raw d z s a) = ma_sealed a" "ma_dispatched (set_authorization raw d z s a) = ma_dispatched a"
  "ma_revision (set_authorization raw d z s a) = ma_revision a" "ma_run (set_authorization raw d z s a) = ma_run a"
  "ma_tenant (set_authorization raw d z s a) = ma_tenant a" "ma_call (set_authorization raw d z s a) = ma_call a"
  by (simp_all add: set_authorization_def)

lemma head_unknown_authorization [simp]: "head_unknown (set_authorization raw d z s a) x = head_unknown a x"
  by (cases x) (simp_all add: head_unknown_def)

lemma completeness_authorized:
  assumes "attempts (models db') = update_at i (set_authorization raw d z s) (attempts (models db))"
    and "evidences (models db') = evidences (models db)"
  shows "completeness_of r db' = completeness_of r db"
proof -
  have e: "evidence_at j n db' = evidence_at j n db" for j n by (simp add: evidence_at_def assms(2))
  have f: "length (filter P (run_attempts r db')) = length (filter P (run_attempts r db))"
    if "\<And>a. P (i, set_authorization raw d z s a) = P (i, a)" for P
    unfolding run_attempts_def select_where_def assms(1) filter_filter
    by (rule length_filter_update) (use that in auto)
  have n: "length (run_attempts r db') = length (run_attempts r db)" using f [of "\<lambda>_. True"] by simp
  have "length (filter (\<lambda>(i, a). ma_sealed a \<noteq> None) (run_attempts r db')) = length (filter (\<lambda>(i, a). ma_sealed a \<noteq> None) (run_attempts r db))"
    "length (filter (\<lambda>(i, a). ma_dispatched a \<noteq> None) (run_attempts r db')) = length (filter (\<lambda>(i, a). ma_dispatched a \<noteq> None) (run_attempts r db))"
    "length (filter (\<lambda>(i, a). ma_sealed a \<noteq> None \<and> head_unknown a (evidence_at i (ma_revision a) db)) (run_attempts r db'))
     = length (filter (\<lambda>(i, a). ma_sealed a \<noteq> None \<and> head_unknown a (evidence_at i (ma_revision a) db)) (run_attempts r db))"
    "length (filter (\<lambda>(i, a). head_partial (evidence_at i (ma_revision a) db)) (run_attempts r db'))
     = length (filter (\<lambda>(i, a). head_partial (evidence_at i (ma_revision a) db)) (run_attempts r db))"
    by (rule f, simp)+
  note counted = this
  show ?thesis unfolding completeness_of_def Let_def e n counted by (rule refl)
qed

section \<open>Exactness\<close>

definition exact :: "db \<Rightarrow> bool" where
  "exact db \<longleftrightarrow> (\<forall>r c. map_of (claims db) r = Some c \<longrightarrow> counts_of c = completeness_of r db)
     \<and> (\<forall>i a. map_of (attempts (models db)) i = Some a \<longrightarrow> (\<exists>c. claim_of (ma_tenant a) (ma_run a) db = Some c))"

lemma completeness_none:
  assumes "\<And>i a. (i, a) \<in> set (attempts (models db)) \<Longrightarrow> ma_run a \<noteq> r"
  shows "completeness_of r db = no_counts"
proof -
  have "run_attempts r db = []"
    using assms by (auto simp: run_attempts_def select_where_def filter_empty_conv)
  then show ?thesis by (simp add: completeness_of_def no_counts_def Let_def)
qed

lemma exact_run_step:
  assumes "exact db" and "keeps_counts db db'" and "evolves db db'" and "models db' = models db"
    and keys: "keys_ok (attempts (models db))"
  shows "exact db'"
  unfolding exact_def
proof (intro conjI allI impI)
  fix r c'
  assume c': "map_of (claims db') r = Some c'"
  have k: "kept_counts (map_of (claims db) r) (map_of (claims db') r)" using assms(2) by (simp add: keeps_counts_def)
  have "counts_of c' = completeness_of r db"
  proof (cases "map_of (claims db) r")
    case None
    then have "ma_run a \<noteq> r" if "(i, a) \<in> set (attempts (models db))" for i a
      using that assms(1) keys by (fastforce simp: exact_def claim_of_Some map_of_in_table)
    then show ?thesis using k c' None completeness_none by simp
  next
    case (Some c)
    then show ?thesis using k c' assms(1) by (simp add: exact_def)
  qed
  then show "counts_of c' = completeness_of r db'" using completeness_models [OF assms(4)] by simp
next
  fix i a
  assume "map_of (attempts (models db')) i = Some a"
  then have "map_of (attempts (models db)) i = Some a" by (simp add: assms(4))
  then obtain c where "map_of (claims db) (ma_run a) = Some c" "cl_tenant c = ma_tenant a"
    using assms(1) unfolding exact_def claim_of_Some by blast
  then show "\<exists>c. claim_of (ma_tenant a) (ma_run a) db' = Some c"
    using assms(3) unfolding evolves_def claim_evolves_def claim_of_Some by metis
qed

text \<open>Recounting the run that was written.\<close>

lemma exact_recomputed:
  assumes ex: "exact db" and rc: "recompute_run_completeness r db1 = Inr db'" and cl: "claims db1 = claims db"
    and other: "\<And>s. s \<noteq> r \<Longrightarrow> same_calls s (models db) (models db1)"
    and at: "\<And>i a. map_of (attempts (models db1)) i = Some a \<Longrightarrow> \<exists>c. claim_of (ma_tenant a) (ma_run a) db = Some c"
  shows "exact db'"
proof -
  note rec = recompute_Inr [OF rc]
  have m: "models db' = models db1" and c: "claims db' = update_at r (set_counts (completeness_of r db1)) (claims db)"
    using rec by (auto simp: cl)
  show ?thesis
    unfolding exact_def
  proof (intro conjI allI impI)
    fix s d
    assume d: "map_of (claims db') s = Some d"
    show "counts_of d = completeness_of s db'"
    proof (cases "s = r")
      case True
      with d c have "counts_of d = completeness_of r db1"
        by (auto simp: counts_of_def set_counts_def)
      with True completeness_models [OF m] show ?thesis by simp
    next
      case False
      with d c have "map_of (claims db) s = Some d" by simp
      with ex have "counts_of d = completeness_of s db" by (simp add: exact_def)
      also have "\<dots> = completeness_of s db'" using completeness_same [of s db db'] other [OF False] m by simp
      finally show ?thesis .
    qed
  next
    fix i a
    assume "map_of (attempts (models db')) i = Some a"
    with at m obtain b where "claim_of (ma_tenant a) (ma_run a) db = Some b" by metis
    then show "\<exists>b. claim_of (ma_tenant a) (ma_run a) db' = Some b"
      by (cases "ma_run a = r") (auto simp: claim_of_Some c set_counts_def)
  qed
qed

text \<open>The operations that write one attempt.\<close>

lemma run_after_update:
  assumes "exact db" and "map_of (update_at i f (attempts (models db))) j = Some b"
    and "\<And>a. ma_run (f a) = ma_run a \<and> ma_tenant (f a) = ma_tenant a"
  shows "\<exists>c. claim_of (ma_tenant b) (ma_run b) db = Some c"
  using assms by (cases "j = i") (auto simp: exact_def)

lemma exact_prepare:
  assumes ex: "exact db" and "prepare jcs sha us m db = Inr (r, db')"
  shows "exact db'"
proof (cases "rp_replayed r")
  case True
  then show ?thesis using prepare_Inr [OF assms(2)] prepare_locked_Inr ex by fastforce
next
  case False
  obtain l z where l: "prepare_locked jcs sha us m l z db = Inr (r, db')"
    using prepare_Inr [OF assms(2)] by blast
  note at = prepare_locked_Inr [OF l]
  from at False obtain b db1 where ins: "insert_attempt (pp_attempt m)
      (new_attempt m (rp_ordinal r) b l z (round_ms us)) db = Inr db1"
    and rc: "recompute_run_completeness (rq_run_id (pp_request m)) db1 = Inr db'" by auto
  have db1: "db1 = db\<lparr>models := (models db)\<lparr>attempts := attempts (models db)
        @ [(pp_attempt m, new_attempt m (rp_ordinal r) b l z (round_ms us))]\<rparr>\<rparr>" using insert_attempt_Inr [OF ins] by blast
  have cl: "\<exists>c. claim_of (ei_tenant_ref (rq_identity (pp_request m))) (rq_run_id (pp_request m)) db = Some c" using at by blast
  show ?thesis
    by (rule exact_recomputed [OF ex rc])
      (use ex cl in \<open>auto simp: db1 same_calls_def select_where_def map_add_Some_iff exact_def split: if_splits option.splits\<close>)
qed

lemma exact_authorized:
  assumes ex: "exact db" and u: "update_attempt i (set_authorization raw d z s) db = Inr db'"
    and a: "map_of (attempts (models db)) i = Some a"
  shows "exact db'"
proof -
  have db': "db' = db\<lparr>models := (models db)\<lparr>attempts := update_at i (set_authorization raw d z s) (attempts (models db))\<rparr>\<rparr>"
    using update_attempt_Inr [OF u a] by blast
  have "completeness_of r db' = completeness_of r db" for r
    by (rule completeness_authorized) (simp_all add: db')
  moreover have "claim_of t r db' = claim_of t r db" for t r by (simp add: claim_of_def db')
  moreover have "\<exists>c. claim_of (ma_tenant b) (ma_run b) db = Some c" if "map_of (attempts (models db')) j = Some b" for j b
    using that db' by (intro run_after_update [OF ex, where i = i and f = "set_authorization raw d z s" and j = j]) simp_all
  ultimately show ?thesis using ex by (simp add: exact_def db')
qed

lemma exact_update:
  assumes ex: "exact db" and keys: "keys_ok (attempts (models db))" and a: "map_of (attempts (models db)) i = Some a"
    and r: "ma_run a = r" and db1: "attempts (models db1) = update_at i f (attempts (models db))" "claims db1 = claims db"
    and ev: "evidences (models db1) = evidences (models db) @ es" "\<forall>(j, e) \<in> set es. me_attempt e = i"
    and f: "\<And>a. ma_run (f a) = ma_run a \<and> ma_tenant (f a) = ma_tenant a"
    and rc: "recompute_run_completeness r db1 = Inr db'"
  shows "exact db'"
proof (rule exact_recomputed [OF ex rc db1(2)])
  fix s
  assume "s \<noteq> r"
  then show "same_calls s (models db) (models db1)"
    using r f by (intro same_calls_update [OF keys a _ _ db1(1) ev]) auto
next
  fix j b
  assume "map_of (attempts (models db1)) j = Some b"
  then show "\<exists>c. claim_of (ma_tenant b) (ma_run b) db = Some c"
    using run_after_update [OF ex _ f] by (simp add: db1(1))
qed

lemma exact_start:
  assumes ex: "exact db" and keys: "keys_ok (attempts (models db))" and "start_dispatch jcs sha us m db = Inr ((t, newly), db')"
  shows "exact db'"
proof (cases newly)
  case True
  obtain a db1 where a: "lock_attempt jcs sha us m db = Inr a"
    and u: "update_attempt (mc_attempt m) (\<lambda>a. a\<lparr>ma_status := ''dispatch_started'', ma_dispatched := Some t\<rparr>) db = Inr db1"
    and r: "recompute_run_completeness (mc_run m) db1 = Inr db'"
    using start_Inr [OF assms(3)] True by auto
  note at = lock_attempt_Inr [OF a]
  have "db1 = db\<lparr>models := (models db)\<lparr>attempts := update_at (mc_attempt m)
      (\<lambda>a. a\<lparr>ma_status := ''dispatch_started'', ma_dispatched := Some t\<rparr>) (attempts (models db))\<rparr>\<rparr>"
    using update_attempt_Inr [OF u conjunct1 [OF at]] by blast
  then show ?thesis
    using at by (intro exact_update [OF ex keys conjunct1 [OF at] _ _ _ _ _ _ r,
        where es = "[]" and f = "\<lambda>a. a\<lparr>ma_status := ''dispatch_started'', ma_dispatched := Some t\<rparr>"]) auto
qed (use start_Inr [OF assms(3)] ex in auto)

lemma seal_attempt_scope: "ma_run (seal_attempt s v a) = ma_run a \<and> ma_tenant (seal_attempt s v a) = ma_tenant a"
  by (simp add: seal_attempt_def)

lemma exact_append:
  assumes ex: "exact db" and keys: "keys_ok (attempts (models db))" and "append_evidence jcs sha us m db = Inr (replayed, db')"
    and rows: "rows_ok attempt_row_ok (attempts (models db))"
  shows "exact db'"
proof (cases replayed)
  case False
  with append_Inr [OF assms(3)] obtain a v s db1 db2 where a: "map_of (attempts (models db)) (mc_attempt m) = Some a"
    and s: "s = (if ve_outcome v = ''unknown'' then ''unknown'' else ''observed'')"
    and r: "ma_run a = mc_run m"
    and v: "validate_append_evidence jcs sha (ap_bytes m) a us = Inr v" "ve_revision v = ma_revision a + 1"
    and nx: "check_next_revision jcs sha (mc_attempt m) a v db = Inr ()"
    and ins: "insert_evidence (ve_event_id v) (evidence_row_of (ma_tenant a) (ma_run a) (mc_attempt m) v (ap_bytes m)) db = Inr db1"
    and upd: "update_attempt (mc_attempt m) (seal_attempt s v) db1 = Inr db2"
    and rc: "recompute_run_completeness (mc_run m) db2 = Inr db'"
    by auto
  have "s = expected_status a v"
    using append_status [OF nx v(1) rows_okD [OF rows a]] s by simp
  then have "sealing jcs sha (mc_attempt m) a (ap_bytes m) v s" by (simp add: sealing_def)
  note w = seal_writes [OF ins upd a v next_follows [OF nx] this]
  show ?thesis
    by (rule exact_update [OF ex keys a r w(3,2,4) _ seal_attempt_scope rc]) (simp add: evidence_row_of_def)
qed (use append_Inr [OF assms(3)] ex in simp)

text \<open>Closing writes several attempts of one run and recounts once.\<close>

definition within_run :: "string \<Rightarrow> db \<Rightarrow> db \<Rightarrow> bool" where
  "within_run r db db' \<longleftrightarrow> (\<forall>s. s \<noteq> r \<longrightarrow> same_calls s (models db) (models db'))
     \<and> (\<forall>i b. map_of (attempts (models db')) i = Some b \<longrightarrow>
         (\<exists>a. map_of (attempts (models db)) i = Some a \<and> ma_run b = ma_run a \<and> ma_tenant b = ma_tenant a))"

lemma within_run_refl [simp]: "within_run r db db"
  by (simp add: within_run_def)

lemma within_run_trans: "within_run r db db' \<Longrightarrow> within_run r db' db'' \<Longrightarrow> within_run r db db''"
  unfolding within_run_def by (metis same_calls_trans)

lemma close_attempt_within:
  assumes run: "close_attempt jcs sha fresh us create (i, a) db = Inr db'"
    and a: "map_of (attempts (models db)) i = Some a" and t: "tables_ok (models db)"
  shows "within_run (ma_run a) db db'"
proof (cases "0 < ma_revision a")
  case True
  then show ?thesis using run by (auto simp: close_attempt_def)
next
  case False
  have nn: "0 \<le> ma_revision a" using t a attempts_nonneg by (auto simp: tables_ok_def)
  obtain s v raw where at: "attempts (models db') = update_at i (seal_attempt s v) (attempts (models db))"
    and ev: "evidences (models db') = evidences (models db) @ [(ve_event_id v, evidence_row_of (ma_tenant a) (ma_run a) i v raw)]"
    using close_attempt_writes [OF run a nn] False by auto
  have "same_calls s (models db) (models db')" if "s \<noteq> ma_run a" for s
    using that t by (intro same_calls_update [OF _ a _ _ at ev])
      (auto simp: tables_ok_def seal_attempt_scope evidence_row_of_def)
  moreover have "\<exists>b. map_of (attempts (models db)) j = Some b \<and> ma_run c = ma_run b \<and> ma_tenant c = ma_tenant b"
    if "map_of (attempts (models db')) j = Some c" for j c
    using that a by (cases "j = i") (auto simp: at seal_attempt_scope)
  ultimately show ?thesis by (simp add: within_run_def)
qed

lemma close_attempts_within:
  assumes "close_attempts jcs sha fresh us create ias db = Inr db'"
    and "\<forall>(i, a) \<in> set ias. map_of (attempts (models db)) i = Some a \<and> ma_run a = r" and "distinct (map fst ias)"
    and "tables_ok (models db)"
  shows "within_run r db db'"
  using assms
proof (induction ias arbitrary: db)
  case (Cons ia ias)
  obtain i a where ia: "ia = (i, a)" by (cases ia)
  obtain db1 where one: "close_attempt jcs sha fresh us create (i, a) db = Inr db1"
    and rest: "close_attempts jcs sha fresh us create ias db1 = Inr db'"
    using Cons.prems(1) by (auto simp: ia)
  have a: "map_of (attempts (models db)) i = Some a" "ma_run a = r" using Cons.prems(2) by (auto simp: ia)
  have nn: "0 \<le> ma_revision a" using Cons.prems(4) a attempts_nonneg by (auto simp: tables_ok_def)
  note w = close_attempt_writes [OF one a(1) nn]
  have t: "tables_ok (models db1)"
    using w Cons.prems(4) model_write_tables by (auto split: if_splits)
  have same: "map_of (attempts (models db1)) j = map_of (attempts (models db)) j" if "j \<noteq> i" for j
    using w that by (auto split: if_splits)
  have "\<forall>(j, b) \<in> set ias. map_of (attempts (models db1)) j = Some b \<and> ma_run b = r"
  proof -
    have "j \<noteq> i" if "(j, b) \<in> set ias" for j b using that Cons.prems(3) by (force simp: ia)
    moreover have "\<forall>(j, b) \<in> set ias. map_of (attempts (models db)) j = Some b \<and> ma_run b = r" using Cons.prems(2) by simp
    ultimately show ?thesis using same by fastforce
  qed
  from Cons.IH [OF rest this _ t] Cons.prems(3) have "within_run r db1 db'" by (simp add: ia)
  with close_attempt_within [OF one a(1) Cons.prems(4)] a(2) show ?case
    using within_run_trans by blast
qed simp

lemma exact_close:
  assumes ex: "exact db" and t: "tables_ok (models db)"
    and run: "close_model_call_attempts_for_terminal jcs sha fresh us tenant r create db = Inr db'"
  shows "exact db'"
proof -
  have ok: "keys_ok (attempts (models db))" "rows_ok attempt_row_ok (attempts (models db))"
    using t by (simp_all add: tables_ok_def)
  let ?rows = "open_rows tenant r db"
  obtain db1 where cl: "close_attempts jcs sha fresh us create ?rows db = Inr db1"
    and fin: "db' = db1 \<and> (create \<longrightarrow> ?rows = []) \<or> recompute_run_completeness r db1 = Inr db'"
    using run unfolding close_model_call_attempts_for_terminal_def Let_def bind_r_eq_Inr open_rows_def
    by (auto simp: conflict_def split: if_splits option.splits)
  have rows: "\<forall>(i, a) \<in> set ?rows. map_of (attempts (models db)) i = Some a \<and> ma_run a = r"
    using open_rows_props(3) [OF ok] by auto
  have w: "within_run r db db1" by (rule close_attempts_within [OF cl rows open_rows_props(2) [OF ok] t])
  note all = close_attempts_writes [OF cl open_rows_props(1,2) [OF ok]]
  show ?thesis
    using fin
  proof
    assume "db' = db1 \<and> (create \<longrightarrow> ?rows = [])"
    moreover have "?rows = [] \<Longrightarrow> db1 = db" using cl by simp
    ultimately have "db' = db" using all by (cases create) auto
    with ex show ?thesis by simp
  next
    assume rc: "recompute_run_completeness r db1 = Inr db'"
    show ?thesis
    proof (rule exact_recomputed [OF ex rc])
      show "claims db1 = claims db" using all by blast
      show "same_calls s (models db) (models db1)" if "s \<noteq> r" for s using that w by (simp add: within_run_def)
      fix i b
      assume "map_of (attempts (models db1)) i = Some b"
      then obtain a where "map_of (attempts (models db)) i = Some a" "ma_run b = ma_run a" "ma_tenant b = ma_tenant a"
        using w unfolding within_run_def by blast
      with ex show "\<exists>c. claim_of (ma_tenant b) (ma_run b) db = Some c" by (auto simp: exact_def)
    qed
  qed
qed

lemma exact_committed: "exact db \<Longrightarrow> (\<And>x db'. t db = Inr (x, db') \<Longrightarrow> exact db') \<Longrightarrow> exact (committed t db)"
  by (cases "t db") auto

lemma begin_exact: "exact db \<Longrightarrow> begin_authorization jcs sha us m db = Inr (x, db') \<Longrightarrow> exact db'"
proof -
  assume ex: "exact db" and run: "begin_authorization jcs sha us m db = Inr (x, db')"
  obtain raw d newly where x: "x = (raw, d, newly)" by (cases x)
  obtain a where a: "lock_attempt jcs sha us m db = Inr a"
    and u: "newly \<Longrightarrow> update_attempt (mc_attempt m) (set_authorization raw d ''requested_unknown'' ''authorization_pending'') db = Inr db'"
      "\<not> newly \<Longrightarrow> db' = db"
    using begin_Inr [OF run [unfolded x]] by auto
  show "exact db'"
    using exact_authorized [OF ex u(1) conjunct1 [OF lock_attempt_Inr [OF a]]] u(2) ex by (cases newly) auto
qed

lemma grant_exact: "exact db \<Longrightarrow> grant_authorization jcs sha us m db = Inr (x, db') \<Longrightarrow> exact db'"
proof -
  assume ex: "exact db" and run: "grant_authorization jcs sha us m db = Inr (x, db')"
  obtain raw d newly where x: "x = (raw, d, newly)" by (cases x)
  obtain a where a: "lock_attempt jcs sha us m db = Inr a"
    and u: "newly \<Longrightarrow> update_attempt (mc_attempt m) (set_authorization raw d ''granted'' ''authorized'') db = Inr db'"
      "\<not> newly \<Longrightarrow> db' = db"
    using grant_Inr [OF run [unfolded x]] by auto
  show "exact db'"
    using exact_authorized [OF ex u(1) conjunct1 [OF lock_attempt_Inr [OF a]]] u(2) ex by (cases newly) auto
qed

lemma freeze_exact:
  assumes ex: "exact db" and keys: "keys_ok (attempts (models db))"
    and run: "freeze_or_verify_static_recipe sha us q l b db = Inr (frozen, db')"
  shows "exact db'"
proof (rule exact_run_step [OF ex _ _ _ keys])
  note f = freeze_static_recipe_Inr [OF run]
  show "models db' = models db" by (rule freeze_models [OF run])
  show "keeps_counts db db'" using f by (auto simp: keeps_counts_def counts_of_def split: if_splits)
  show "evolves db db'" using f by (auto simp: evolves_def claim_evolves_def split: if_splits)
qed

definition counted :: "db \<Rightarrow> bool" where
  "counted db \<longleftrightarrow> tables_ok (models db) \<and> exact db"

lemma model_effect_exact:
  assumes "counted db" and "typed op"
  shows "counted (model_effect jcs sha op db)"
proof -
  have t: "tables_ok (models db)" and ex: "exact db" and keys: "keys_ok (attempts (models db))"
    and rows: "rows_ok attempt_row_ok (attempts (models db))"
    using assms(1) by (simp_all add: counted_def tables_ok_def)
  have "exact (model_effect jcs sha op db)"
    by (cases op)
      (auto intro!: exact_committed [OF ex] elim: exact_prepare [OF ex] begin_exact [OF ex] grant_exact [OF ex]
        exact_start [OF ex keys] exact_append [OF ex keys _ rows] exact_close [OF ex t]
        freeze_exact [OF ex keys])
  moreover have "tables_ok (models (model_effect jcs sha op db))"
    using tables.steps_keep [OF model_effect_writes [OF t assms(2)] t] .
  ultimately show ?thesis by (simp add: counted_def)
qed

lemma agent_step_counted:
  assumes "counted db" and "agent_step jcs sha uuid db db'"
  shows "counted db'"
  using assms(2)
proof cases
  case (model op)
  then show ?thesis using model_effect_exact assms(1) by simp
next
  case run
  then obtain op where db': "db' = run_effect sha uuid op db" by (auto simp: run_step_iff)
  have m: "models db' = models db" using run run_models by blast
  have "exact db'"
    using exact_run_step [of db db'] assms(1) run_effect_counts run_effect_evolves m
    by (simp add: counted_def tables_ok_def db')
  with m assms(1) show ?thesis by (simp add: counted_def)
qed

interpretation counting: invariant_steps "agent_step jcs sha uuid" counted for jcs sha uuid
  by unfold_locales (rule agent_step_counted)

lemma empty_counted [simp]: "counted empty_db"
  by (simp add: counted_def tables_ok_def exact_def empty_db_def keys_ok_def rows_ok_def)


end
