(* ===== verification/Model_Samples.thy ===== *)
theory Model_Samples
  imports Model_Counts
begin

text \<open>
  A concrete run of the model-call repository, from the empty store: a request is enqueued and claimed, its
  recipe is frozen and an attempt is prepared; and an authorized attempt of the same run. It shows that the
  hypotheses of the contracts hold where the code does its work.
\<close>

section \<open>Canonical text and digests\<close>

definition sample_jcs :: "json \<Rightarrow> string result" where
  "sample_jcs v = Inr (dumps_compact False (sort_json v))"

definition sample_sha :: "string \<Rightarrow> string" where
  "sample_sha s = replicate 64 CHR ''a''"

definition sample_text :: "json \<Rightarrow> string" where
  "sample_text v = dumps_compact False (sort_json v)"

lemma length_utf8: "length s \<le> utf8_length s"
  by (induction s) auto

lemma sample_law: "rfc8785_law sample_jcs"
  by (simp add: rfc8785_law_def sample_jcs_def)

lemma sample_hex [simp]: "hex64 (sample_sha s)"
  by (simp add: sample_sha_def hex64_def list_all_iff)

lemma sample_sized:
  assumes "json_object v" and "text_bound v \<le> 65536"
  shows "sized (sample_text v)"
proof -
  have "utf8_length (sample_text v) \<le> 65536"
    using text_le [of "sort_json v"] assms(2) by (simp add: sample_text_def dumps_compact_def size_bound_sort)
  moreover have "sample_text v \<noteq> []"
    using assms(1) by (cases v) (auto simp: sample_text_def dumps_compact_def sort_json_obj)
  ultimately show ?thesis by (simp add: sized_def)
qed

lemma sample_canonical:
  assumes "json_object v" and "text_bound v \<le> 65536" and "within_depth 1 v"
  shows "canonical_artifact sample_jcs sample_sha v = Inr (sample_text v, sample_sha [])"
  using sample_sized [OF assms(1,2)] assms(3)
  by (simp add: canonical_artifact_def sample_jcs_def sized_def sample_text_def sample_sha_def max_json_bytes_def reraise_def)

lemma within_depth_simps [simp]:
  "within_depth d (JStr s) \<longleftrightarrow> d \<le> 16"
  "within_depth d (JObj kvs) \<longleftrightarrow> d \<le> 16 \<and> list_all (\<lambda>(k, w). within_depth (Suc d) w) kvs"
  "within_depth d (JList ws) \<longleftrightarrow> d \<le> 16 \<and> list_all (within_depth (Suc d)) ws"
  "within_depth d JNull \<longleftrightarrow> d \<le> 16" "within_depth d (JBool b) \<longleftrightarrow> d \<le> 16" "within_depth d (JInt i) \<longleftrightarrow> d \<le> 16"
  by (simp_all add: within_depth.simps [of d])

section \<open>The run\<close>

definition sample_recipe_json :: json where
  "sample_recipe_json = JObj [(''domain_tag'', JStr recipe_domain), (''feature'', JObj
     [(''agents'', JList [JObj [(''key'', JStr ''main''), (''subagents'', JList [JObj [(''name'', JStr ''search'')]])]]),
      (''entry_agent'', JStr ''main''), (''handoffs'', JList []), (''key'', JStr ''chat'')])]"

definition sample_recipe :: static_recipe where
  "sample_recipe = \<lparr>sr_bytes = sample_text sample_recipe_json, sr_fingerprint = sample_sha []\<rparr>"

definition sample_frozen :: db where
  "sample_frozen = model_effect sample_jcs sample_sha (FreezeRecipe 3 demo_request (demo_lease 1) sample_recipe) demo_claimed"

definition sample_claim :: claim where
  "sample_claim = (request_claim demo_request ''w1'' 102)\<lparr>cl_recipe_bytes := Some (sr_bytes sample_recipe),
     cl_recipe_fingerprint := Some (sr_fingerprint sample_recipe)\<rparr>"

lemma sample_recipe_text:
  "loads (sr_bytes sample_recipe) = Some sample_recipe_json" "sort_json sample_recipe_json = sample_recipe_json"
  "recipe_valid sample_sha sample_recipe"
proof -
  show s: "sort_json sample_recipe_json = sample_recipe_json"
    by (simp add: sample_recipe_json_def sort_json_obj sorted_items_def)
  have "printable sample_recipe_json \<and> readable sample_recipe_json"
    by (simp add: sample_recipe_json_def)
  then show l: "loads (sr_bytes sample_recipe) = Some sample_recipe_json"
    using loads_sorted [of sample_recipe_json False] s by (simp add: sample_recipe_def sample_text_def)
  have "sized (sr_bytes sample_recipe)"
    unfolding sample_recipe_def static_recipe.simps
    by (rule sample_sized) (simp_all add: sample_recipe_json_def recipe_domain_def)
  obtain kvs where j: "sample_recipe_json = JObj kvs" and tag: "map_of kvs ''domain_tag'' = Some (JStr recipe_domain)"
    by (simp add: sample_recipe_json_def)
  have "canonical_json sample_recipe_json = sr_bytes sample_recipe"
    by (simp add: canonical_json_def sample_recipe_def sample_text_def)
  moreover have "sample_sha (sr_bytes sample_recipe) = sr_fingerprint sample_recipe"
    by (simp add: sample_recipe_def sample_sha_def)
  moreover have "sized (sr_bytes sample_recipe) \<Longrightarrow> sr_bytes sample_recipe \<noteq> [] \<and> utf8_length (sr_bytes sample_recipe) \<le> max_static_recipe_bytes"
    by (simp add: sized_def max_static_recipe_bytes_def)
  ultimately show "recipe_valid sample_sha sample_recipe"
    using l tag \<open>sized (sr_bytes sample_recipe)\<close> unfolding recipe_valid_def j by simp
qed

lemma sample_recipe_feature: "recipe_feature_for_peer_path (sr_bytes sample_recipe) [''main'', ''search''] = Inr ''chat''"
proof -
  have "recipe_feature sample_recipe_json [''main'', ''search''] = Some ''chat''"
    by (simp add: recipe_feature_def sample_recipe_json_def as_object_def require_object_def require_list_def
        require_str_def require_string_def List.member_iff)
  then show ?thesis by (simp add: recipe_feature_for_peer_path_def sample_recipe_text)
qed

lemma sample_claim_storable: "claim_write_error sample_claim = None"
proof -
  have "length (sr_bytes sample_recipe) \<le> 8388608" "sr_bytes sample_recipe \<noteq> []"
    using sample_recipe_text(3) length_utf8 [of "sr_bytes sample_recipe"] by (auto simp: recipe_valid_def max_static_recipe_bytes_def)
  then show ?thesis
    by (simp add: sample_claim_def claim_write_error_def claim_ok_def claim_interaction_ok_def claim_models_ok_def
        request_claim_def new_claim_def bigint_def btrim_empty_def sample_recipe_def)
qed

lemma sample_frozen:
  "freeze_or_verify_static_recipe sample_sha 3 demo_request (demo_lease 1) sample_recipe demo_claimed = Inr (True, sample_frozen)"
  "claims sample_frozen = [(''r1'', sample_claim)]" "models sample_frozen = models empty_db"
proof -
  let ?f = "\<lambda>c. c\<lparr>cl_recipe_bytes := Some (sr_bytes sample_recipe), cl_recipe_fingerprint := Some (sr_fingerprint sample_recipe)\<rparr>"
  have fields: "cl_tenant (request_claim demo_request ''w1'' 102) = ''t1''"
    "cl_request (request_claim demo_request ''w1'' 102) = Some (request_text demo_request)"
    "cl_recipe_bytes (request_claim demo_request ''w1'' 102) = None" "untouched (request_claim demo_request ''w1'' 102)"
    by (simp_all add: request_claim_def new_claim_def untouched_def)
  have upd: "update_claim ''r1'' (\<lambda>c. cl_tenant c = ''t1'') ?f demo_claimed
      = Inr (Some sample_claim, demo_claimed\<lparr>claims := update_at ''r1'' ?f (claims demo_claimed)\<rparr>)"
    using sample_claim_storable by (simp add: update_claim_def demo_claims fields sample_claim_def)
  have run: "freeze_or_verify_static_recipe sample_sha 3 demo_request (demo_lease 1) sample_recipe demo_claimed
      = Inr (True, demo_claimed\<lparr>claims := update_at ''r1'' ?f (claims demo_claimed)\<rparr>)"
    unfolding freeze_or_verify_static_recipe_def validate_static_recipe_def
    using sample_recipe_text(3) upd fields
    by (simp add: demo_claims fenced_def lease_live_us_def demo_lease_def request_claim_def new_claim_def)
  have m: "models demo_claimed = models empty_db"
    by (simp add: demo_claimed_def empty_db_def enqueue_dispatch_def new_dispatch_def btrim_empty_def committed_def
        claim_dispatch_def insert_claim_def insert_new_def update_at_def lease_fence_check_def new_fence_def
        del: new_fence_Inr)
  from run show "freeze_or_verify_static_recipe sample_sha 3 demo_request (demo_lease 1) sample_recipe demo_claimed = Inr (True, sample_frozen)"
    "claims sample_frozen = [(''r1'', sample_claim)]" "models sample_frozen = models empty_db"
    by (simp_all add: sample_frozen_def committed_def demo_claims update_at_def sample_claim_def m)
qed

section \<open>An attempt\<close>

definition sample_id :: "char \<Rightarrow> string" where
  "sample_id c = ''00000000-0000-4000-8000-00000000000'' @ [c]"

definition sample_planned :: planned_binding where
  "sample_planned = \<lparr>pb_model = ''m'', pb_provider = ''p'', pb_revision_id = ''v1'', pb_provider_model_name = ''n'',
     pb_request_model = ''n'', pb_feature_key = ''chat'', pb_revision = ''1'', pb_generation = ''1'',
     pb_tenant_generation = ''1'', pb_digest = sample_sha [], pb_label = None\<rparr>"

definition sample_prepare :: prepare_call where
  "sample_prepare = \<lparr>pp_request = demo_request, pp_lease = demo_lease 1, pp_call = sample_id CHR ''1'',
     pp_attempt = sample_id CHR ''2'', pp_planned = sample_planned, pp_peer_path = [''main'', ''search''],
     pp_recipe = sample_recipe, pp_request_version = 1, pp_request_digest = sample_sha []\<rparr>"

definition sample_binding :: attempt_binding where
  "sample_binding = \<lparr>ab_tenant_ref = ''t1'', ab_actor = \<lparr>ur_kind = ''user'', ur_opaque_ref = ''u1''\<rparr>,
     ab_subject = \<lparr>ur_kind = ''user'', ur_opaque_ref = ''u1''\<rparr>, ab_identity_assertion_ref = ei_assertion_ref demo_identity,
     ab_run_id = ''r1'', ab_session_id = ''s1'', ab_call_id = sample_id CHR ''1'', ab_attempt_id = sample_id CHR ''2'',
     ab_attempt_ordinal = ''1'', ab_lease = \<lparr>ul_owner = ''w1'', ul_generation = ''1''\<rparr>, ab_input_digest = sample_sha [],
     ab_peer_path = [''main'', ''search'']\<rparr>"

definition sample_frozen_text :: "json \<Rightarrow> string \<times> string" where
  "sample_frozen_text v = (sample_text v, sample_sha [])"

definition sample_attempt :: attempt_row where
  "sample_attempt = new_attempt sample_prepare 1 (sample_frozen_text (enc_attempt_binding sample_binding))
     (sample_frozen_text (enc_planned V2 sample_planned)) (sample_frozen_text (enc_authorization NotRequested)) 4"

lemma sample_id_ok: "c \<in> {CHR ''1'', CHR ''2''} \<Longrightarrow> uuid_ok (sample_id c)"
  by (auto simp: uuid_ok_def uuid_template_def sample_id_def List.member_iff)

lemma sample_values_ok: "planned_ok sample_planned" "attempt_binding_ok sample_binding"
  by (simp_all add: planned_ok_def sample_planned_def attempt_binding_ok_def binding_fields_ok_def sample_binding_def
      opaque_ok_def control_char_def ordinal_ok_def decimal_ok_def is_digit_def usage_ref_ok_def usage_lease_ok_def
      peer_path_ok_def evidence_path_ok_def path_member_ok_def sample_id_ok demo_identity_def undigits_def)

lemma sample_encoded:
  "canonical_artifact sample_jcs sample_sha (enc_planned V2 sample_planned) = Inr (sample_frozen_text (enc_planned V2 sample_planned))"
  "canonical_artifact sample_jcs sample_sha (enc_authorization NotRequested) = Inr (sample_frozen_text (enc_authorization NotRequested))"
  "canonical_artifact sample_jcs sample_sha (enc_attempt_binding sample_binding) = Inr (sample_frozen_text (enc_attempt_binding sample_binding))"
  "canonical_artifact sample_jcs sample_sha (enc_run_input (rq_input demo_request)) = Inr (sample_frozen_text (enc_run_input (rq_input demo_request)))"
  unfolding sample_frozen_text_def
  by (rule sample_canonical; simp add: sample_planned_def enc_planned_def planned_items_def request_model_key_def or_null_def
      sample_sha_def sample_binding_def enc_attempt_binding_def binding_items_def enc_usage_ref_def enc_usage_lease_def enc_list_def
      sample_id_def demo_identity_def demo_request_def enc_run_input_def)+

lemma sample_request_text: "parse_request (request_text demo_request) = Inr demo_request"
proof -
  have "run_request_ok demo_request"
    by (simp add: run_request_ok_def demo_request_def demo_identity_def execution_identity_ok_def identity_ref_ok_def
        identity_kinds_def run_input_ok_def skill_refs_check_def dumps_compact_def)
  moreover have "printable (enc_run_request False demo_request)" "readable (enc_run_request False demo_request)"
    by (simp_all add: enc_run_request_def demo_request_def demo_identity_def items.simps enc_execution_identity_def
        enc_identity_ref_def enc_run_input_def enc_list_def)
  ultimately show ?thesis
    by (simp add: parse_request_def request_text_def loads_dumps run_request_round_trip)
qed

lemma sample_authority: "prepare_authority sample_sha 4000 sample_prepare sample_frozen = Inr demo_request"
proof -
  have c: "claim_of ''t1'' ''r1'' sample_frozen = Some sample_claim"
    by (simp add: claim_of_def sample_frozen) (simp add: sample_claim_def request_claim_def new_claim_def)
  have "fenced sample_claim (demo_lease 1)" "lease_live_us 4000 sample_claim" "cl_request sample_claim = Some (request_text demo_request)"
    by (simp_all add: sample_claim_def fenced_def lease_live_us_def demo_lease_def) (simp add: request_claim_def new_claim_def)
  moreover have "same_run_request demo_request demo_request" "rq_feature_key demo_request = ''chat''"
    by (simp_all add: same_run_request_def demo_request_def)
  moreover have "sample_sha (sr_bytes sample_recipe) = sr_fingerprint sample_recipe"
    by (simp add: sample_recipe_def sample_sha_def)
  moreover have "cl_recipe_bytes sample_claim = Some (sr_bytes sample_recipe)" "cl_recipe_fingerprint sample_claim = Some (sr_fingerprint sample_recipe)"
    by (simp_all add: sample_claim_def)
  ultimately show ?thesis
    using c sample_recipe_text(3) sample_recipe_feature
    by (simp add: prepare_authority_def sample_prepare_def durable_request_def sample_request_text reraise_def
        validate_static_recipe_def sample_planned_def)
qed

lemma sample_binding_encoded:
  "encode_attempt_binding sample_jcs sample_sha sample_prepare demo_request 1 = Inr (sample_frozen_text (enc_attempt_binding sample_binding))"
proof -
  have n: "show_int 1 = ''1''" by code_simp
  have e: "sample_binding = \<lparr>ab_tenant_ref = ''t1'', ab_actor = \<lparr>ur_kind = ''user'', ur_opaque_ref = ''u1''\<rparr>,
     ab_subject = \<lparr>ur_kind = ''user'', ur_opaque_ref = ''u1''\<rparr>, ab_identity_assertion_ref = ''a1'',
     ab_run_id = ''r1'', ab_session_id = ''s1'', ab_call_id = sample_id CHR ''1'', ab_attempt_id = sample_id CHR ''2'',
     ab_attempt_ordinal = show_int 1, ab_lease = \<lparr>ul_owner = ''w1'', ul_generation = show_int 1\<rparr>,
     ab_input_digest = sample_sha [], ab_peer_path = [''main'', ''search'']\<rparr>"
    by (simp add: sample_binding_def n demo_identity_def)
  note b = sample_values_ok(2) [unfolded e] sample_encoded(3) [unfolded e]
  have ref: "usage_ref_ok \<lparr>ur_kind = ''user'', ur_opaque_ref = ''u1''\<rparr>"
    and lease: "usage_lease_ok \<lparr>ul_owner = ''w1'', ul_generation = show_int 1\<rparr>"
    using sample_values_ok(2) by (simp_all add: attempt_binding_ok_def binding_fields_ok_def sample_binding_def n)
  have f: "rq_identity demo_request = demo_identity" "ei_tenant_ref demo_identity = ''t1''" "ei_actor demo_identity = \<lparr>ir_kind = ''user'', ir_opaque_ref = ''u1''\<rparr>"
    "ei_subject demo_identity = \<lparr>ir_kind = ''user'', ir_opaque_ref = ''u1''\<rparr>" "ei_assertion_ref demo_identity = ''a1''"
    by (simp_all add: demo_request_def demo_identity_def)
  show ?thesis
    using ref lease b sample_encoded(4)
    unfolding encode_attempt_binding_def construct_usage_def e
    by (simp add: f sample_prepare_def demo_lease_def sample_frozen_text_def)
qed

section \<open>The prepared run\<close>

definition sample_counts :: model_counts where
  "sample_counts = \<lparr>mk_attempts = 1, mk_dispatched = 0, mk_sealed = 0, mk_unknown = 0, mk_completeness = ''unknown''\<rparr>"

definition sample_prepared :: db where
  "sample_prepared = sample_frozen\<lparr>models := \<lparr>attempts = [(sample_id CHR ''2'', sample_attempt)], evidences = []\<rparr>,
     claims := [(''r1'', set_counts sample_counts sample_claim)]\<rparr>"

lemma sample_attempt_ok: "attempt_row_ok sample_attempt"
proof -
  have "sized (sample_text (enc_planned V2 sample_planned))" "sized (sample_text (enc_authorization NotRequested))"
    "sized (sample_text (enc_attempt_binding sample_binding))"
    by (rule sample_sized; simp add: sample_planned_def enc_planned_def planned_items_def request_model_key_def or_null_def
      sample_sha_def sample_binding_def enc_attempt_binding_def binding_items_def enc_usage_ref_def enc_usage_lease_def enc_list_def
      sample_id_def demo_identity_def)+
  then show ?thesis
    by (simp add: attempt_row_ok_def sample_attempt_def new_attempt_def sample_frozen_text_def attempt_state_ok_def
        sample_prepare_def demo_lease_def btrim_empty_def)
qed

lemma set_counts_storable:
  assumes "claim_write_error c = None" and "claim_models_ok (set_counts k c)"
  shows "claim_write_error (set_counts k c) = None"
proof -
  have same: "claim_interaction_ok (set_counts k c) = claim_interaction_ok c"
    by (simp add: claim_interaction_ok_def set_counts_def cong: option.case_cong prod.case_cong)
  have "claim_ok c" "list_all bigint [cl_generation c, cl_durable c, cl_index c, cl_tokens c, cl_input c, cl_output c]"
    using assms(1) by (simp_all add: claim_write_error_def)
  with assms(2) same show ?thesis
    by (simp add: claim_write_error_def claim_ok_def) (simp add: set_counts_def cong: option.case_cong)
qed

lemma sample_prepare_run:
  "\<exists>p. prepare sample_jcs sample_sha 4000 sample_prepare sample_frozen = Inr (p, sample_prepared)"
proof -
  let ?i = "sample_id CHR ''2''" and ?a = sample_attempt
  let ?m = "\<lparr>attempts = [(?i, ?a)], evidences = []\<rparr>"
  have e: "models sample_frozen = \<lparr>attempts = [], evidences = []\<rparr>"
    by (simp add: sample_frozen empty_db_def)
  have ins: "insert_attempt ?i ?a sample_frozen = Inr (sample_frozen\<lparr>models := ?m\<rparr>)"
    using sample_attempt_ok by (simp add: insert_attempt_def e)
  have "completeness_of ''r1'' (sample_frozen\<lparr>models := ?m\<rparr>) = sample_counts"
    by (simp add: completeness_of_def run_attempts_def select_where_def evidence_at_def sample_attempt_def new_attempt_def
        sample_prepare_def head_unknown_def head_partial_def sample_counts_def Let_def)
  moreover have "claim_write_error (set_counts sample_counts sample_claim) = None"
    by (rule set_counts_storable [OF sample_claim_storable]) (simp add: claim_models_ok_def set_counts_def sample_counts_def)
  ultimately have rec: "recompute_run_completeness ''r1'' (sample_frozen\<lparr>models := ?m\<rparr>) = Inr sample_prepared"
    by (simp add: recompute_run_completeness_def update_claim_def sample_frozen update_at_def sample_prepared_def)
  have f: "pp_planned sample_prepare = sample_planned" "pp_request sample_prepare = demo_request" "pp_attempt sample_prepare = ?i"
    "pp_call sample_prepare = sample_id CHR ''1''"
    by (simp_all add: sample_prepare_def)
  have "attempt_of ''t1'' ''r1'' ?i sample_frozen = None" "next_ordinal ''r1'' (sample_id CHR ''1'') sample_frozen = Inr 1"
    by (simp_all add: attempt_of_def next_ordinal_def select_where_def e)
  moreover have "round_ms 4000 = 4" by (simp add: round_ms_def)
  ultimately show ?thesis
    using sample_encoded(1,2) sample_authority sample_binding_encoded ins rec
    by (simp add: prepare_def encode_planned_artifact_def encode_not_requested_artifact_def prepare_locked_def f
        sample_attempt_def del: enc_authorization.simps)
qed

section \<open>Witnesses\<close>

lemma sample_step: "model_effect sample_jcs sample_sha (PrepareCall 4000 sample_prepare) sample_frozen = sample_prepared"
  using sample_prepare_run by (auto simp: committed_def)

lemma sample_typed: "typed (PrepareCall 4000 sample_prepare)"
  by (simp add: sample_prepare_def sample_values_ok)

lemma sample_reached: "(model_step sample_jcs sample_sha)\<^sup>*\<^sup>* sample_frozen sample_prepared"
  using model_step.call [OF sample_typed, of sample_jcs sample_sha sample_frozen] sample_step by auto

lemma sample_row: "map_of (attempts (models sample_prepared)) (sample_id CHR ''2'') = Some sample_attempt"
  by (simp add: sample_prepared_def)

lemma sample_empty: "attempts (models sample_frozen) = []" "evidences (models sample_frozen) = []"
  by (simp_all add: sample_frozen empty_db_def)

theorem evidence_chain_witness:
  "map_of (attempts (models sample_prepared)) (sample_id CHR ''2'') = Some sample_attempt
   \<and> pieces (sample_id CHR ''2'') (models sample_prepared) = [] \<and> ma_revision sample_attempt = 0"
proof -
  have "map (me_revision \<circ> snd) (pieces (sample_id CHR ''2'') (models sample_prepared)) = [1..ma_revision sample_attempt]"
    using evidence_chain [OF sample_empty sample_reached sample_row] by blast
  then show ?thesis
    using sample_row by (simp add: sample_attempt_def new_attempt_def)
qed

theorem stored_artifacts_typed_witness:
  "validate_frozen_attempt sample_jcs sample_sha V2 (sample_id CHR ''2'') sample_attempt = Inr ()"
  using stored_artifacts_typed [OF sample_law sample_empty sample_reached] sample_row by blast

lemma sample_agent_run: "(agent_step sample_jcs sample_sha id)\<^sup>*\<^sup>* empty_db sample_prepared"
proof -
  let ?e = "run_effect sample_sha id (EnqueueDispatch 1 demo_request ''n'' ''f'') empty_db"
  have c: "demo_claimed = run_effect sample_sha id (ClaimDispatch 2 100 demo_request ''w1'') ?e"
    by (simp add: demo_claimed_def)
  have run: "agent_step sample_jcs sample_sha id db (run_effect sample_sha id op db)" for op db
    by (rule agent_step.run) (auto simp: run_step_iff)
  have "agent_step sample_jcs sample_sha id empty_db ?e" "agent_step sample_jcs sample_sha id ?e demo_claimed"
    unfolding c by (rule run)+
  moreover have "agent_step sample_jcs sample_sha id demo_claimed sample_frozen"
    unfolding sample_frozen_def by (rule agent_step.model) simp
  moreover have "agent_step sample_jcs sample_sha id sample_frozen sample_prepared"
    using agent_step.model [OF sample_typed] sample_step by metis
  ultimately show ?thesis
    by (meson converse_rtranclp_into_rtranclp rtranclp.rtrancl_refl)
qed


text \<open>The same attempt once it is authorized, and its dispatch.\<close>

definition sample_grant :: "string \<times> string" where
  "sample_grant = sample_frozen_text (enc_authorization (Granted ''q'' ''m''))"

definition sample_authorized :: db where
  "sample_authorized = sample_prepared\<lparr>models := \<lparr>attempts = [(sample_id CHR ''2'',
     set_authorization (fst sample_grant) (snd sample_grant) ''granted'' ''authorized'' sample_attempt)], evidences = []\<rparr>\<rparr>"

definition sample_start :: start_call where
  "sample_start = \<lparr>mc_tenant = ''t1'', mc_run = ''r1'', mc_attempt = sample_id CHR ''2'', mc_lease = demo_lease 1,
     mc_binding_digest = sample_sha [], mc_planned_digest = sample_sha [], sd_authorization_digest = sample_sha [],
     sd_request_ref = ''q'', sd_admission_ref = ''m''\<rparr>"

lemma sample_granted:
  "encode_granted_artifact sample_jcs sample_sha ''q'' ''m'' = Inr sample_grant" "sized (fst sample_grant)"
proof -
  have "authorization_ok (Granted ''q'' ''m'')" by (simp add: opaque_ok_def)
  moreover have c: "canonical_artifact sample_jcs sample_sha (enc_authorization (Granted ''q'' ''m'')) = Inr sample_grant"
    unfolding sample_grant_def sample_frozen_text_def by (rule sample_canonical) simp_all
  ultimately show "encode_granted_artifact sample_jcs sample_sha ''q'' ''m'' = Inr sample_grant"
    by (simp add: encode_granted_artifact_def construct_authorization_def construct_def fail_if_def del: enc_authorization.simps)
  show "sized (fst sample_grant)"
    unfolding sample_grant_def sample_frozen_text_def by (simp only: fst_conv, rule sample_sized) simp_all
qed

lemma sample_written: "written sample_jcs sample_sha (sample_id CHR ''2'') sample_attempt"
proof -
  have f: "pp_planned sample_prepare = sample_planned" "pp_attempt sample_prepare = sample_id CHR ''2''"
    "pp_request sample_prepare = demo_request"
    by (simp_all add: sample_prepare_def)
  have "written sample_jcs sample_sha (pp_attempt sample_prepare) sample_attempt"
    unfolding sample_attempt_def
    by (rule written_new [OF sample_binding_encoded])
      (simp_all add: f encode_planned_artifact_def encode_not_requested_artifact_def sample_encoded sample_values_ok
        sample_attempt_ok [unfolded sample_attempt_def] del: enc_authorization.simps)
  then show ?thesis by (simp add: f)
qed

definition sample_dispatched :: db where
  "sample_dispatched = model_effect sample_jcs sample_sha (StartCall 5000 sample_start) sample_authorized"

lemma sample_authorized_row:
  "map_of (attempts (models sample_authorized)) (sample_id CHR ''2'')
     = Some (set_authorization (fst sample_grant) (snd sample_grant) ''granted'' ''authorized'' sample_attempt)"
  "tables_ok (models sample_authorized)"
  "validate_frozen_attempt sample_jcs sample_sha V2 (sample_id CHR ''2'')
     (set_authorization (fst sample_grant) (snd sample_grant) ''granted'' ''authorized'' sample_attempt) = Inr ()"
  "attempt_row_ok (set_authorization (fst sample_grant) (snd sample_grant) ''granted'' ''authorized'' sample_attempt)"
proof -
  have d: "snd sample_grant = sample_sha []" by (simp add: sample_grant_def sample_frozen_text_def)
  show row: "attempt_row_ok (set_authorization (fst sample_grant) (snd sample_grant) ''granted'' ''authorized'' sample_attempt)"
    using sample_attempt_ok sample_granted(2)
    by (simp add: attempt_row_ok_def set_authorization_def attempt_state_ok_def d) (simp add: sample_attempt_def new_attempt_def)
  show "tables_ok (models sample_authorized)"
    using row by (simp add: tables_ok_def keys_ok_def rows_ok_iff sample_authorized_def)
  show "map_of (attempts (models sample_authorized)) (sample_id CHR ''2'')
     = Some (set_authorization (fst sample_grant) (snd sample_grant) ''granted'' ''authorized'' sample_attempt)"
    by (simp add: sample_authorized_def)
  have "canonical_artifact sample_jcs sample_sha (enc_authorization (Granted ''q'' ''m'')) = Inr (fst sample_grant, snd sample_grant)"
    using granted_Inr(1) [of sample_jcs sample_sha "''q''" "''m''" "fst sample_grant" "snd sample_grant"] sample_granted(1) by simp
  then have "written sample_jcs sample_sha (sample_id CHR ''2'')
      (set_authorization (fst sample_grant) (snd sample_grant) ''granted'' ''authorized'' sample_attempt)"
    by (rule written_authorize [OF sample_written, where r = "''q''" and m = "''m''"]) (simp_all add: opaque_ok_def)
  then show "validate_frozen_attempt sample_jcs sample_sha V2 (sample_id CHR ''2'')
     (set_authorization (fst sample_grant) (snd sample_grant) ''granted'' ''authorized'' sample_attempt) = Inr ()"
    by (rule written_frozen [OF _ sample_law])
qed

abbreviation sample_ready :: attempt_row where
  "sample_ready \<equiv> set_authorization (fst sample_grant) (snd sample_grant) ''granted'' ''authorized'' sample_attempt"

abbreviation sample_started :: attempt_row where
  "sample_started \<equiv> sample_ready\<lparr>ma_status := ''dispatch_started'', ma_dispatched := Some 5\<rparr>"

lemma sample_lock:
  assumes c: "map_of (claims db) ''r1'' = Some c" "cl_tenant c = ''t1''" "fenced c (demo_lease 1)" "lease_live_us us c"
    and a: "map_of (attempts (models db)) (sample_id CHR ''2'') = Some a" "ma_tenant a = ''t1''" "ma_run a = ''r1''"
      "leased_by a (demo_lease 1)" "ma_binding_digest a = sample_sha []" "ma_planned_digest a = sample_sha []"
      "validate_frozen_attempt sample_jcs sample_sha V2 (sample_id CHR ''2'') a = Inr ()"
  shows "lock_attempt sample_jcs sample_sha us sample_start db = Inr a"
  using assms by (simp add: lock_attempt_def claim_of_def attempt_of_def sample_start_def)

lemma sample_claim_fields:
  "cl_tenant sample_claim = ''t1''" "fenced sample_claim (demo_lease 1)" "cl_expires sample_claim = Some 102" "\<not> cl_terminal sample_claim"
  by (simp_all add: sample_claim_def fenced_def demo_lease_def) (simp_all add: request_claim_def new_claim_def)

lemma set_counts_lease [simp]:
  "cl_tenant (set_counts k c) = cl_tenant c" "fenced (set_counts k c) l = fenced c l"
  "lease_live_us us (set_counts k c) = lease_live_us us c" "cl_terminal (set_counts k c) = cl_terminal c"
  "cl_expires (set_counts k c) = cl_expires c" "set_counts k (set_counts k' c) = set_counts k c"
  by (simp_all add: set_counts_def fenced_def lease_live_us_def)

lemma sample_ready_fields:
  "ma_tenant sample_ready = ''t1''" "ma_run sample_ready = ''r1''" "leased_by sample_ready (demo_lease 1)"
  "ma_binding_digest sample_ready = sample_sha []" "ma_planned_digest sample_ready = sample_sha []"
  "ma_authorization sample_ready = fst sample_grant" "ma_authorization_digest sample_ready = sample_sha []"
  "ma_status sample_ready = ''authorized''"
  by (simp_all add: set_authorization_def sample_attempt_def new_attempt_def sample_prepare_def leased_by_def demo_lease_def
      sample_frozen_text_def sample_grant_def)

lemma sample_dispatch:
  "start_dispatch sample_jcs sample_sha 5000 sample_start sample_authorized = Inr ((5, True), sample_dispatched)"
  "attempts (models sample_dispatched) = [(sample_id CHR ''2'', sample_started)]"
  "claims sample_dispatched = [(''r1'', set_counts (sample_counts\<lparr>mk_dispatched := 1\<rparr>) sample_claim)]"
proof -
  let ?db = "sample_authorized\<lparr>models := \<lparr>attempts = [(sample_id CHR ''2'', sample_started)], evidences = []\<rparr>\<rparr>"
  let ?k = "sample_counts\<lparr>mk_dispatched := 1\<rparr>"
  let ?final = "?db\<lparr>claims := [(''r1'', set_counts ?k sample_claim)]\<rparr>"
  have lock: "lock_attempt sample_jcs sample_sha 5000 sample_start sample_authorized = Inr sample_ready"
    by (rule sample_lock [OF _ _ _ _ sample_authorized_row(1) sample_ready_fields(1-5) sample_authorized_row(3),
        where c = "set_counts sample_counts sample_claim"])
      (simp_all add: sample_authorized_def sample_prepared_def sample_claim_fields lease_live_us_def)
  have "attempt_row_ok sample_started"
    using sample_authorized_row(4)
    by (simp add: attempt_row_ok_def attempt_state_ok_def set_authorization_def) (simp add: sample_attempt_def new_attempt_def)
  then have upd: "update_attempt (sample_id CHR ''2'') (\<lambda>a. a\<lparr>ma_status := ''dispatch_started'', ma_dispatched := Some 5\<rparr>) sample_authorized
      = Inr ?db"
    by (simp add: update_attempt_def sample_authorized_def update_at_def)
  have "completeness_of ''r1'' ?db = ?k"
    using sample_ready_fields(2)
    by (simp add: completeness_of_def run_attempts_def select_where_def evidence_at_def head_partial_def sample_counts_def Let_def)
      (simp add: set_authorization_def sample_attempt_def new_attempt_def)
  moreover have "claim_write_error (set_counts ?k sample_claim) = None"
    by (rule set_counts_storable [OF sample_claim_storable]) (simp add: claim_models_ok_def set_counts_def sample_counts_def)
  ultimately have rec: "recompute_run_completeness ''r1'' ?db = Inr ?final"
    by (simp add: recompute_run_completeness_def update_claim_def sample_authorized_def sample_prepared_def update_at_def)
  have f: "sd_request_ref sample_start = ''q''" "sd_admission_ref sample_start = ''m''" "mc_attempt sample_start = sample_id CHR ''2''"
    "mc_run sample_start = ''r1''" "sd_authorization_digest sample_start = sample_sha []"
    by (simp_all add: sample_start_def)
  have g: "encode_granted_artifact sample_jcs sample_sha ''q'' ''m'' = Inr (fst sample_grant, snd sample_grant)"
    using sample_granted(1) by simp
  have "round_ms 5000 = 5" by (simp add: round_ms_def)
  then have run: "start_dispatch sample_jcs sample_sha 5000 sample_start sample_authorized = Inr ((5, True), ?final)"
    by (simp add: start_dispatch_def case_prod_unfold f g lock require_authorization_def sample_ready_fields fail_if_def upd rec)
  then have d: "sample_dispatched = ?final" by (simp add: sample_dispatched_def committed_def)
  show "start_dispatch sample_jcs sample_sha 5000 sample_start sample_authorized = Inr ((5, True), sample_dispatched)"
    using run unfolding d .
  show "attempts (models sample_dispatched) = [(sample_id CHR ''2'', sample_started)]"
    "claims sample_dispatched = [(''r1'', set_counts ?k sample_claim)]"
    by (simp_all add: d)
qed

theorem attempt_dispatched_once_witness:
  "start_dispatch sample_jcs sample_sha 6000 sample_start sample_dispatched = Inr ((5, False), sample_dispatched)"
proof -
  have "written sample_jcs sample_sha (sample_id CHR ''2'') sample_ready"
    by (rule written_authorize [OF sample_written, where r = "''q''" and m = "''m''" and z = "Granted ''q'' ''m''"])
      (use sample_granted(1) granted_Inr(1) [of sample_jcs sample_sha "''q''" "''m''" "fst sample_grant" "snd sample_grant"]
        in \<open>simp_all add: opaque_ok_def del: enc_authorization.simps\<close>)
  then have v: "validate_frozen_attempt sample_jcs sample_sha V2 (sample_id CHR ''2'') sample_started = Inr ()"
    by (intro written_frozen [OF written_same(2) sample_law])
  have lock: "lock_attempt sample_jcs sample_sha 6000 sample_start sample_dispatched = Inr sample_started"
    by (rule sample_lock [OF _ _ _ _ _ _ _ _ _ _ v, where c = "set_counts (sample_counts\<lparr>mk_dispatched := 1\<rparr>) sample_claim"])
      (use sample_ready_fields in \<open>simp_all add: sample_dispatch sample_claim_fields lease_live_us_def leased_by_def\<close>)
  have g: "encode_granted_artifact sample_jcs sample_sha ''q'' ''m'' = Inr (fst sample_grant, snd sample_grant)"
    using sample_granted(1) by simp
  obtain t2 newly db3 where run: "start_dispatch sample_jcs sample_sha 6000 sample_start sample_dispatched = Inr ((t2, newly), db3)"
    using lock g sample_ready_fields(6,7)
    by (auto simp: start_dispatch_def case_prod_unfold require_authorization_def fail_if_def sample_start_def)
  from attempt_dispatched_once [OF sample_authorized_row(2) sample_dispatch(1) rtranclp.rtrancl_refl refl run] run
  show ?thesis by simp
qed

end
