(* ===== verification/Run_Terminal.thy ===== *)
theory Run_Terminal
  imports Run_Resume Model_Calls
begin

text \<open>
  The end of a run: \<open>finalize_terminal\<close> of \<open>src/kokoro_agent/infrastructure/postgres_run_leases.py\<close>. One
  transaction decides the outcome of a run under one of three authorities: the worker that holds the
  lease, an admitted cancel command, or a rejected receipt, which quarantines the run. It seals the model
  calls, accounts the usage, ends the interaction, writes the terminal fact to the chat log and the outbox,
  fences the run and queues the cleanup of its sandbox. \<open>us\<close> is the clock of the database at the start,
  \<open>later\<close> its second reading where the usage is accounted, \<open>fresh\<close> gives the event ids of closure evidence.
\<close>

section \<open>Authorities and outcomes\<close>

datatype terminal_authority =
    ExecutionAuthority lease_fence
  | CancelAuthority string string
  | QuarantineAuthority string int

record terminal_outcome =
  to_payload :: agent_payload
  to_usage :: "(int \<times> int) option"

record commit_result =
  tc_status :: string
  tc_lease :: "lease_fence option"
  tc_frames :: "outbox_frame list"

definition stopped :: "string \<Rightarrow> commit_result" where
  "stopped st = \<lparr>tc_status = st, tc_lease = None, tc_frames = []\<rparr>"

fun is_quarantine :: "terminal_authority \<Rightarrow> bool" where
  "is_quarantine (QuarantineAuthority owner seq) = True"
| "is_quarantine _ = False"

fun is_cancel :: "terminal_authority \<Rightarrow> bool" where
  "is_cancel (CancelAuthority owner cmd) = True"
| "is_cancel _ = False"

definition outcome_error :: "terminal_authority \<Rightarrow> terminal_outcome \<Rightarrow> exn option" where
  "outcome_error authority outcome = first_error
     [fail_if (is_quarantine authority \<and> \<not> (to_usage outcome = None \<and> (case to_payload outcome of
          RunFailedP p \<Rightarrow> rf_code p = ''contract_incompatible'' \<and> \<not> rf_retryable p | _ \<Rightarrow> False)))
        (ValueError ''invalid quarantine outcome''),
      fail_if (is_cancel authority \<and> \<not> (to_usage outcome = None \<and> (case to_payload outcome of
          RunCompletedP p \<Rightarrow> rc_status p = ''cancelled'' | _ \<Rightarrow> False)))
        (ValueError ''invalid cancellation outcome'')]"

section \<open>Authority over the run\<close>

text \<open>A rejected receipt of an outbox frame that is still there.\<close>

definition rejected_receipt :: "string \<Rightarrow> (int \<Rightarrow> bool) \<Rightarrow> db \<Rightarrow> bool" where
  "rejected_receipt run_id p db = list_ex (\<lambda>((r, seq), rc). r = run_id \<and> p seq \<and> rcp_status rc = ''rejected''
     \<and> (case map_of (outbox db) (run_id, seq) of None \<Rightarrow> False | Some o' \<Rightarrow> ob_event_id o' = rcp_event_id rc)) (receipts db)"

definition command_status :: "string \<Rightarrow> terminal_authority \<Rightarrow> db \<Rightarrow> string option" where
  "command_status run_id authority db = (case authority of
      CancelAuthority owner cmd \<Rightarrow> map_option cc_status (map_of (commands db) (run_id, cmd))
    | _ \<Rightarrow> None)"

definition authorized :: "string \<Rightarrow> terminal_authority \<Rightarrow> lease_fence \<Rightarrow> claim \<Rightarrow> db \<Rightarrow> bool" where
  "authorized run_id authority lease row db = (case authority of
      ExecutionAuthority l \<Rightarrow> l = lease
    | CancelAuthority owner cmd \<Rightarrow> command_status run_id authority db \<in> {Some ''persisted'', Some ''succeeded''}
    | QuarantineAuthority owner seq \<Rightarrow> rejected_receipt run_id (\<lambda>s. s = seq) db
        \<and> (cl_fence_seq row = None \<or> cl_fence_seq row = Some seq))"

text \<open>What a new outcome needs beyond that; expiry is compared in milliseconds.\<close>

definition may_commit :: "int \<Rightarrow> string \<Rightarrow> terminal_authority \<Rightarrow> claim \<Rightarrow> db \<Rightarrow> bool" where
  "may_commit us run_id authority row db = (case authority of
      ExecutionAuthority l \<Rightarrow> (case cl_expires row of None \<Rightarrow> False | Some e \<Rightarrow> to_ms us < e) \<and> cl_fence_seq row = None
    | CancelAuthority owner cmd \<Rightarrow> command_status run_id authority db = Some ''persisted''
    | QuarantineAuthority owner seq \<Rightarrow> True)"

definition control_event_id :: "(string \<Rightarrow> string) \<Rightarrow> string \<Rightarrow> string \<Rightarrow> string" where
  "control_event_id sha run_id cmd = ''evt_'' @ sha (join [CHR 0x00] [''control'', run_id, cmd])"

text \<open>A completed run reports the usage of all its segments.\<close>

definition with_totals :: "int \<Rightarrow> int \<Rightarrow> agent_payload \<Rightarrow> agent_payload" where
  "with_totals i n payload = (case payload of
      RunCompletedP p \<Rightarrow> if rc_status p = ''completed''
        then RunCompletedP \<lparr>rc_status = ''completed'', rc_token_usage =
          (if i \<noteq> 0 \<or> n \<noteq> 0 then Some \<lparr>tu_input_tokens = i, tu_output_tokens = n\<rparr> else None)\<rparr>
        else payload
    | _ \<Rightarrow> payload)"

section \<open>Replay of a decided run\<close>

definition chat_projection_of ::
  "(string \<Rightarrow> string) \<Rightarrow> (string \<Rightarrow> string) \<Rightarrow> run_request \<Rightarrow> string \<Rightarrow> int \<Rightarrow> int \<Rightarrow> agent_payload \<Rightarrow> chat_projection result" where
  "chat_projection_of sha uuid q run_id index ms payload =
     bind_r (project_chat_fact sha uuid (ei_tenant_ref (rq_identity q)) (sc_namespace (scope_of sha q))
       (rq_session_id q) run_id index (AwareTime (ms * 1000)) payload)
     (\<lambda>p. case p of None \<Rightarrow> Inl AssertionError | Some p \<Rightarrow> Inr p)"

definition retained_frames ::
  "(string \<Rightarrow> string) \<Rightarrow> string \<Rightarrow> terminal_authority \<Rightarrow> db \<Rightarrow> outbox_frame list result" where
  "retained_frames sha run_id authority db =
     (let ids = terminal_event_id sha run_id # (case authority of CancelAuthority owner cmd \<Rightarrow> [control_event_id sha run_id cmd] | _ \<Rightarrow> []) in
      traverse outbox_row_to_frame (sort_key (snd \<circ> fst) (select_where
        (\<lambda>(r, _) o'. r = run_id \<and> ob_status o' = ''queued'' \<and> List.member ids (ob_event_id o')) (outbox db))))"

definition account_usage ::
  "int \<Rightarrow> string \<Rightarrow> lease_fence \<Rightarrow> (int \<times> int) option \<Rightarrow> int \<times> int \<Rightarrow> (int \<times> int) option tx" where
  "account_usage us run_id lease usage totals db = (case usage of
      None \<Rightarrow> Inr (Some totals, db)
    | Some (i, n) \<Rightarrow> add_usage_rows us run_id lease i n db)"

definition terminal_replay ::
  "(json \<Rightarrow> string result) \<Rightarrow> (string \<Rightarrow> string) \<Rightarrow> (string \<Rightarrow> string) \<Rightarrow> (string \<Rightarrow> string) \<Rightarrow> int \<Rightarrow> int
    \<Rightarrow> string \<Rightarrow> run_request \<Rightarrow> claim \<Rightarrow> lease_fence \<Rightarrow> terminal_authority \<Rightarrow> terminal_outcome \<Rightarrow> commit_result tx" where
  "terminal_replay jcs sha uuid fresh us later run_id q row lease authority outcome db =
     bind_r (close_model_call_attempts_for_terminal jcs sha fresh (to_ms us * 1000) (ei_tenant_ref (rq_identity q)) run_id False db)
     (\<lambda>db. if is_cancel authority \<and> command_status run_id authority db \<noteq> Some ''succeeded'' then Inr (stopped ''lost'', db)
      else if is_quarantine authority then
        (if quarantine_audit_matches row (map_option (\<lambda>((_, seq), o'). (seq, o'))
              (List.find (\<lambda>((r, _), o'). r = run_id \<and> ob_event_id o' = terminal_event_id sha run_id) (outbox db)))
              (to_payload outcome)
         then Inr (\<lparr>tc_status = ''replayed'', tc_lease = Some lease, tc_frames = []\<rparr>, db) else Inr (stopped ''lost'', db))
      else bind_r (terminal_chat sha uuid q row db) (\<lambda>fact.
        bind_r (chat_projection_of sha uuid q run_id 0 (to_ms us) (with_totals (cl_input row) (cl_output row) (to_payload outcome))) (\<lambda>p.
        bind_r (if ce_type fact \<noteq> ce_type (cp_event p) then Inr False
                else same_json_text (ce_payload_json fact) (ce_payload_json (cp_event p))) (\<lambda>same.
        if \<not> same then Inr (stopped ''lost'', db)
        else bind_r (account_usage later run_id lease (to_usage outcome) (0, 0) db) (\<lambda>(totals, db).
          if totals = None then Inr (stopped ''lost'', db)
          else bind_r (retained_frames sha run_id authority db) (\<lambda>frames.
            Inr (\<lparr>tc_status = ''replayed'', tc_lease = Some lease, tc_frames = frames\<rparr>, db)))))))"

section \<open>Commit of an outcome\<close>

definition append_fact ::
  "(string \<Rightarrow> string) \<Rightarrow> (string \<Rightarrow> string) \<Rightarrow> run_request \<Rightarrow> string \<Rightarrow> int \<Rightarrow> int \<Rightarrow> agent_payload \<Rightarrow> db \<Rightarrow> db result" where
  "append_fact sha uuid q run_id index ms payload db =
     bind_r (chat_projection_of sha uuid q run_id index ms payload) (\<lambda>p.
     bind_r (append_projection uuid p (chat db)) (\<lambda>(_, chat'). Inr (db\<lparr>chat := chat'\<rparr>)))"

text \<open>Started facts whose chat projection failed are restored before the terminal one.\<close>

fun restore_started ::
  "(string \<Rightarrow> string) \<Rightarrow> (string \<Rightarrow> string) \<Rightarrow> run_request \<Rightarrow> string \<Rightarrow> outbox_row list \<Rightarrow> unit tx" where
  "restore_started sha uuid q run_id [] db = Inr ((), db)"
| "restore_started sha uuid q run_id (o' # os) db = (case ob_index o' of None \<Rightarrow> Inl (ValueError ''index_value'') | Some i \<Rightarrow>
     bind_r (case loads (ob_payload o') of None \<Rightarrow> Inl (ValidationError ''json'') | Some v \<Rightarrow> bind_r (strict_fields [] v) (\<lambda>_. Inr ())) (\<lambda>_.
     bind_r (append_fact sha uuid q run_id i (ob_occurred o') RunStartedP db) (\<lambda>db.
     restore_started sha uuid q run_id os db)))"

definition started_rows :: "string \<Rightarrow> db \<Rightarrow> outbox_row list" where
  "started_rows run_id db = map snd (sort_key (\<lambda>(_, o'). case ob_index o' of None \<Rightarrow> 0 | Some i \<Rightarrow> i)
     (select_where (\<lambda>(r, _) o'. r = run_id \<and> ob_kind o' = ''run.started'' \<and> ob_status o' \<in> {''queued'', ''published''}) (outbox db)))"

definition applied_receipt :: "(string \<Rightarrow> string) \<Rightarrow> string \<Rightarrow> int \<Rightarrow> claim \<Rightarrow> terminal_authority \<Rightarrow> outbox_frame list" where
  "applied_receipt sha run_id now row authority = (case authority of
      CancelAuthority owner cmd \<Rightarrow>
        [\<lparr>fr_run = run_id, fr_seq = cl_durable row + 1, fr_event_id = control_event_id sha run_id cmd,
          fr_kind = ''run.control.receipt'', fr_index = cl_index row, fr_timestamp = now,
          fr_payload = dumps_compact False (enc_payload (RunControlReceiptP \<lparr>rcr_command_id = cmd, rcr_control_status = ''applied''\<rparr>))\<rparr>]
    | _ \<Rightarrow> [])"

definition receipt_error :: "terminal_authority \<Rightarrow> exn option" where
  "receipt_error authority = fail_if (case authority of CancelAuthority owner cmd \<Rightarrow> cmd = [] | _ \<Rightarrow> False) strict_error"

definition terminal_frame :: "(string \<Rightarrow> string) \<Rightarrow> string \<Rightarrow> int \<Rightarrow> int \<Rightarrow> int \<Rightarrow> agent_payload \<Rightarrow> outbox_frame" where
  "terminal_frame sha run_id now seq index payload =
     \<lparr>fr_run = run_id, fr_seq = seq, fr_event_id = terminal_event_id sha run_id,
      fr_kind = (case payload of RunFailedP p \<Rightarrow> ''run.failed'' | _ \<Rightarrow> ''run.completed''), fr_index = index,
      fr_timestamp = now, fr_payload = dumps_compact False (enc_payload payload)\<rparr>"

definition new_lease :: "terminal_authority \<Rightarrow> lease_fence \<Rightarrow> lease_fence result" where
  "new_lease authority lease = (case authority of
      ExecutionAuthority l \<Rightarrow> Inr lease
    | CancelAuthority owner cmd \<Rightarrow> new_fence owner (lf_generation lease + 1)
    | QuarantineAuthority owner seq \<Rightarrow> new_fence owner (lf_generation lease + 1))"

definition supersede_frames :: "string \<Rightarrow> int \<Rightarrow> db \<Rightarrow> db" where
  "supersede_frames run_id fence db = db\<lparr>outbox := update_where
     (\<lambda>(r, seq) o'. r = run_id \<and> fence \<le> seq \<and> ob_status o' \<in> {''queued'', ''published''})
     (\<lambda>o'. o'\<lparr>ob_status := ''superseded'', ob_index := None\<rparr>) (outbox db)\<rparr>"

fun insert_frames :: "outbox_frame list \<Rightarrow> bool \<Rightarrow> db \<Rightarrow> db result" where
  "insert_frames [] superseded db = Inr db"
| "insert_frames (f # fs) superseded db = bind_r (insert_frame f superseded db) (insert_frames fs superseded)"

definition finish_command :: "int \<Rightarrow> string \<Rightarrow> terminal_authority \<Rightarrow> db \<Rightarrow> db" where
  "finish_command now run_id authority db = (case authority of
      CancelAuthority owner cmd \<Rightarrow> db\<lparr>commands := update_where (\<lambda>k _. k = (run_id, cmd))
        (\<lambda>c. c\<lparr>cc_status := ''succeeded'', cc_updated := now\<rparr>) (commands db)\<rparr>
    | _ \<Rightarrow> db)"

definition end_claim :: "int \<Rightarrow> lease_fence \<Rightarrow> int \<Rightarrow> int \<Rightarrow> int \<Rightarrow> claim \<Rightarrow> claim" where
  "end_claim now lease seq index fence c = c\<lparr>cl_terminal := True, cl_terminal_at := Some now, cl_expires := None,
     cl_owner := Some (lf_owner lease), cl_generation := lf_generation lease, cl_durable := seq, cl_index := index,
     cl_fence_seq := Some fence\<rparr>"

text \<open>The sequence number of the terminal frame and where the fence of the run falls.\<close>

definition terminal_seq :: "terminal_authority \<Rightarrow> claim \<Rightarrow> int" where
  "terminal_seq authority row = cl_durable row + (if is_cancel authority then 2 else 1)"

definition terminal_fence :: "terminal_authority \<Rightarrow> claim \<Rightarrow> int" where
  "terminal_fence authority row = (case authority of
      QuarantineAuthority owner rejected \<Rightarrow> rejected | _ \<Rightarrow> terminal_seq authority row)"

definition terminal_frames ::
  "(string \<Rightarrow> string) \<Rightarrow> int \<Rightarrow> string \<Rightarrow> claim \<Rightarrow> terminal_authority \<Rightarrow> int \<Rightarrow> agent_payload \<Rightarrow> outbox_frame list" where
  "terminal_frames sha now run_id row authority index payload =
     applied_receipt sha run_id now row authority @ [terminal_frame sha run_id now (terminal_seq authority row) index payload]"

text \<open>The writes that fence the run, and those that end its interaction before.\<close>

definition end_run ::
  "(string \<Rightarrow> string) \<Rightarrow> int \<Rightarrow> string \<Rightarrow> claim \<Rightarrow> lease_fence \<Rightarrow> terminal_authority \<Rightarrow> int \<Rightarrow> agent_payload
    \<Rightarrow> commit_result tx" where
  "end_run sha now run_id row lease authority index payload db =
     (let frames = terminal_frames sha now run_id row authority index payload; quarantine = is_quarantine authority in
     bind_r (new_lease authority lease) (\<lambda>l.
     bind_r (insert_frames frames quarantine (ensure_receipt_manifest run_id now
         (if quarantine then supersede_frames run_id (terminal_fence authority row) db else db))) (\<lambda>db.
     bind_r (update_claim run_id (\<lambda>_. True)
         (end_claim now l (terminal_seq authority row) (if quarantine then index else index + 1) (terminal_fence authority row))
         (finish_command now run_id authority db)) (\<lambda>(_, db).
     bind_r (queue_bound_sandbox_cleanup sha run_id row now db) (\<lambda>(_, db).
     Inr (\<lparr>tc_status = ''committed'', tc_lease = Some l, tc_frames = (if quarantine then [] else frames)\<rparr>, db))))))"

definition commit_outcome ::
  "(string \<Rightarrow> string) \<Rightarrow> (string \<Rightarrow> string) \<Rightarrow> int \<Rightarrow> string \<Rightarrow> run_request \<Rightarrow> claim \<Rightarrow> lease_fence
    \<Rightarrow> terminal_authority \<Rightarrow> agent_payload \<Rightarrow> commit_result tx" where
  "commit_outcome sha uuid now run_id q row lease authority payload db =
     (let visible = (\<not> is_quarantine authority) in guard_r (receipt_error authority)
     (bind_r (if visible then restore_started sha uuid q run_id (started_rows run_id db) db else Inr ((), db)) (\<lambda>(_, db).
     bind_r (terminal_on_cursor sha uuid (now * 1000) q row
         (cl_index row + (if is_cancel authority then 1 else 0)) visible db) (\<lambda>(index, db).
     bind_r (if visible then append_fact sha uuid q run_id index now payload db else Inr db) (\<lambda>db.
     end_run sha now run_id row lease authority index payload db)))))"

definition terminal_commit ::
  "(json \<Rightarrow> string result) \<Rightarrow> (string \<Rightarrow> string) \<Rightarrow> (string \<Rightarrow> string) \<Rightarrow> (string \<Rightarrow> string) \<Rightarrow> int \<Rightarrow> int
    \<Rightarrow> string \<Rightarrow> run_request \<Rightarrow> claim \<Rightarrow> lease_fence \<Rightarrow> terminal_authority \<Rightarrow> terminal_outcome
    \<Rightarrow> (string \<times> string \<times> string) list \<Rightarrow> commit_result tx" where
  "terminal_commit jcs sha uuid fresh us later run_id q row lease authority outcome snapshot db =
     (if \<not> may_commit us run_id authority row db then Inr (stopped ''lost'', db)
      else if \<not> is_quarantine authority \<and> rejected_receipt run_id (\<lambda>_. True) db then Inr (stopped ''lost'', db)
      else bind_r (if is_quarantine authority then Inr True else delivery_ready sha uuid q snapshot db) (\<lambda>ready.
        if \<not> ready then Inr (stopped ''deferred'', db)
        else bind_r (close_model_call_attempts_for_terminal jcs sha fresh (to_ms us * 1000) (ei_tenant_ref (rq_identity q)) run_id True db)
          (\<lambda>db. bind_r (account_usage later run_id lease (to_usage outcome) (usage_totals row) db) (\<lambda>(totals, db).
            case totals of None \<Rightarrow> Inr (stopped ''lost'', db) | Some (i, n) \<Rightarrow>
              commit_outcome sha uuid (to_ms us) run_id q row lease authority (with_totals i n (to_payload outcome)) db))))"

section \<open>The transaction\<close>

text \<open>An unset owner is the text \<open>None\<close>.\<close>

definition finalize_terminal ::
  "(json \<Rightarrow> string result) \<Rightarrow> (string \<Rightarrow> string) \<Rightarrow> (string \<Rightarrow> string) \<Rightarrow> (string \<Rightarrow> string) \<Rightarrow> int \<Rightarrow> int
    \<Rightarrow> string \<Rightarrow> terminal_authority \<Rightarrow> terminal_outcome \<Rightarrow> (string \<times> string \<times> string) list \<Rightarrow> commit_result tx" where
  "finalize_terminal jcs sha uuid fresh us later run_id authority outcome snapshot db =
     guard_r (outcome_error authority outcome)
     (case map_of (claims db) run_id of
        None \<Rightarrow> Inr (stopped ''lost'', db)
      | Some row \<Rightarrow>
          bind_r (new_fence (case cl_owner row of None \<Rightarrow> ''None'' | Some owner \<Rightarrow> owner) (cl_generation row)) (\<lambda>lease.
          bind_r (case cl_request row of None \<Rightarrow> Inl (ValidationError ''json'') | Some s \<Rightarrow> parse_request s) (\<lambda>q.
          if \<not> authorized run_id authority lease row db then Inr (stopped ''lost'', db)
          else if cl_terminal row then terminal_replay jcs sha uuid fresh us later run_id q row lease authority outcome db
          else terminal_commit jcs sha uuid fresh us later run_id q row lease authority outcome snapshot db)))"

end
