(* ===== verification/Terminal_Contracts.thy ===== *)
theory Terminal_Contracts
  imports Run_Terminal Model_Samples Resume_Contracts
begin

text \<open>
  The contracts of the end of a run over all interleavings of the transactions of the agent: a run is
  decided once, and a committed decision leaves nothing of the run open.
\<close>

section \<open>A claim stays, and stays terminal\<close>

definition keeps_terminal :: "db \<Rightarrow> db \<Rightarrow> bool" where
  "keeps_terminal db db' \<longleftrightarrow> (\<forall>r c. map_of (claims db) r = Some c \<longrightarrow>
     (\<exists>c'. map_of (claims db') r = Some c' \<and> (cl_terminal c \<longrightarrow> cl_terminal c')))"

lemma keeps_terminal_same [simp]: "claims db' = claims db \<Longrightarrow> keeps_terminal db db'"
  by (auto simp: keeps_terminal_def)

lemma keeps_terminal_trans: "keeps_terminal db db' \<Longrightarrow> keeps_terminal db' db'' \<Longrightarrow> keeps_terminal db db''"
  unfolding keeps_terminal_def by meson

lemma evolves_keeps_terminal: "evolves db db' \<Longrightarrow> keeps_terminal db db'"
  unfolding evolves_def claim_evolves_def keeps_terminal_def by meson

lemma update_keeps_terminal:
  assumes "update_claim r cond f db = Inr (x, db')" and "\<And>c. cl_terminal c \<Longrightarrow> cl_terminal (f c)"
  shows "keeps_terminal db db'"
  using update_claim_effect [OF assms(1)]
proof (elim disjE exE conjE)
  fix c
  assume c: "map_of (claims db) r = Some c" "db' = db\<lparr>claims := update_at r f (claims db)\<rparr>"
  then have "map_of (claims db') s = (if s = r then Some (f c) else map_of (claims db) s)" for s by simp
  with c(1) assms(2) show ?thesis by (auto simp: keeps_terminal_def)
qed simp

lemma recompute_keeps_terminal: "recompute_run_completeness r db = Inr db' \<Longrightarrow> keeps_terminal db db'"
  by (auto simp: recompute_run_completeness_def set_counts_def elim!: update_keeps_terminal)

lemma claims_of_writes:
  "insert_attempt i a db = Inr db' \<Longrightarrow> claims db' = claims db"
  "update_attempt i f db = Inr db' \<Longrightarrow> claims db' = claims db"
  "insert_evidence j e db = Inr db' \<Longrightarrow> claims db' = claims db"
  by (auto simp: insert_attempt_def update_attempt_def insert_evidence_def split: if_splits option.splits)

lemma close_attempts_claims:
  "close_attempts jcs sha fresh us create ias db = Inr db' \<Longrightarrow> claims db' = claims db \<and> (\<not> create \<longrightarrow> db' = db)"
proof (induction ias arbitrary: db)
  case (Cons ia ias)
  obtain db1 where one: "close_attempt jcs sha fresh us create ia db = Inr db1"
    and rest: "close_attempts jcs sha fresh us create ias db1 = Inr db'"
    using Cons.prems by auto
  have "claims db1 = claims db \<and> (\<not> create \<longrightarrow> db1 = db)"
    using one unfolding close_attempt_def
    by (auto simp: bind_r_eq_Inr conflict_def split: prod.splits if_splits dest!: claims_of_writes)
  with Cons.IH [OF rest] show ?case by auto
qed simp

lemma close_all_claims:
  assumes "close_model_call_attempts_for_terminal jcs sha fresh us tenant r create db = Inr db'"
  shows "keeps_terminal db db'" and "\<not> create \<Longrightarrow> db' = db"
proof -
  let ?rows = "open_rows tenant r db"
  obtain db1 where cl: "close_attempts jcs sha fresh us create ?rows db = Inr db1"
    and fin: "if create then db' = db1 \<or> recompute_run_completeness r db1 = Inr db' else db' = db1"
    using assms unfolding close_model_call_attempts_for_terminal_def Let_def bind_r_eq_Inr open_rows_def
    by (auto simp: conflict_def split: if_splits option.splits)
  note c = close_attempts_claims [OF cl]
  show "\<not> create \<Longrightarrow> db' = db" using c fin by simp
  have "keeps_terminal db db1" using c by simp
  then show "keeps_terminal db db'"
    using fin recompute_keeps_terminal keeps_terminal_trans by (cases create) auto
qed

lemma committed_keeps_terminal:
  "(\<And>x db'. t db = Inr (x, db') \<Longrightarrow> keeps_terminal db db') \<Longrightarrow> keeps_terminal db (committed t db)"
  by (auto simp: committed_def split: sum.splits)

lemma model_effect_keeps_terminal: "keeps_terminal db (model_effect jcs sha op db)"
proof (cases op)
  case (PrepareCall us m)
  have "keeps_terminal db db'" if "prepare_locked jcs sha us m l z db = Inr (p, db')" for l z p db'
    using that unfolding prepare_locked_def
    by (auto split: option.splits dest!: claims_of_writes(1) recompute_keeps_terminal simp: keeps_terminal_def)
  then have "keeps_terminal db db'" if "prepare jcs sha us m db = Inr (p, db')" for p db'
    using that unfolding prepare_def Let_def by (auto simp: conflict_def split: if_splits)
  with PrepareCall show ?thesis by (auto intro: committed_keeps_terminal)
next
  case (BeginCall us m)
  have "keeps_terminal db db'" if "begin_authorization jcs sha us m db = Inr (x, db')" for x db'
    using that unfolding begin_authorization_def
    by (auto simp: conflict_def split: if_splits prod.splits dest!: claims_of_writes(2))
  with BeginCall show ?thesis by (auto intro: committed_keeps_terminal)
next
  case (GrantCall us m)
  have "keeps_terminal db db'" if "grant_authorization jcs sha us m db = Inr (x, db')" for x db'
    using that unfolding grant_authorization_def
    by (auto simp: conflict_def split: if_splits prod.splits dest!: claims_of_writes(2))
  with GrantCall show ?thesis by (auto intro: committed_keeps_terminal)
next
  case (StartCall us m)
  have "keeps_terminal db db'" if "start_dispatch jcs sha us m db = Inr (x, db')" for x db'
    using that unfolding start_dispatch_def
    by (auto simp: authority_lost_def keeps_terminal_def split: if_splits prod.splits option.splits
        dest!: claims_of_writes(2) recompute_keeps_terminal)
  with StartCall show ?thesis by (auto intro: committed_keeps_terminal)
next
  case (AppendCall us m)
  have "keeps_terminal db db'" if "append_evidence jcs sha us m db = Inr (x, db')" for x db'
    using that unfolding append_evidence_def append_evidence_locked_def
    by (auto simp: conflict_def authority_lost_def keeps_terminal_def split: if_splits prod.splits option.splits
        dest!: claims_of_writes(2,3) recompute_keeps_terminal)
  with AppendCall show ?thesis by (auto intro: committed_keeps_terminal)
next
  case (CloseCalls us fresh tenant r)
  then show ?thesis by (auto intro!: committed_keeps_terminal dest: close_all_claims(1))
next
  case (FreezeRecipe us q l b)
  have "keeps_terminal db db'" if "freeze_or_verify_static_recipe sha us q l b db = Inr (x, db')" for x db'
    using freeze_static_recipe_Inr [OF that] by (auto simp: keeps_terminal_def split: if_splits)
  with FreezeRecipe show ?thesis by (auto intro: committed_keeps_terminal)
qed

section \<open>The transaction\<close>

lemma append_fact_chat: "append_fact sha uuid q r i ms payload db = Inr db' \<Longrightarrow> \<exists>x. db' = db\<lparr>chat := x\<rparr>"
  by (auto simp: append_fact_def)

lemma restore_started_chat:
  "restore_started sha uuid q r os db = Inr (u, db') \<Longrightarrow> \<exists>x. db' = db\<lparr>chat := x\<rparr>"
proof (induction os arbitrary: db)
  case (Cons o' os)
  then obtain db1 i where one: "append_fact sha uuid q r i (ob_occurred o') RunStartedP db = Inr db1"
    and rest: "restore_started sha uuid q r os db1 = Inr (u, db')"
    by (auto split: option.splits)
  from Cons.IH [OF rest] append_fact_chat [OF one] show ?case by auto
qed (auto intro!: exI [of _ "chat db'"])

lemma insert_frames_rest:
  "insert_frames fs s db = Inr db' \<Longrightarrow> claims db' = claims db \<and> commands db' = commands db \<and> models db' = models db
     \<and> cleanups db' = cleanups db"
proof (induction fs arbitrary: db)
  case (Cons f fs)
  then obtain db1 where "insert_frame f s db = Inr db1" "insert_frames fs s db1 = Inr db'" by auto
  with Cons.IH [OF this(2)] show ?case by (auto simp: insert_frame_def insert_outbox_def split: if_splits)
qed simp

lemma insert_frames_last:
  "insert_frames (fs @ [f]) s db = Inr db' \<Longrightarrow> \<exists>o'. map_of (outbox db') (fr_run f, fr_seq f) = Some o'
     \<and> ob_event_id o' = fr_event_id f \<and> ob_kind o' = fr_kind f \<and> ob_payload o' = fr_payload f \<and> ob_occurred o' = fr_timestamp f
     \<and> ob_status o' = (if s then ''superseded'' else ''queued'') \<and> ob_index o' = (if s then None else Some (fr_index f))"
proof (induction fs arbitrary: db)
  case Nil
  then have "map_of (outbox db) (fr_run f, fr_seq f) = None"
    and "outbox db' = outbox db @ [((fr_run f, fr_seq f), \<lparr>ob_event_id = fr_event_id f, ob_kind = fr_kind f,
      ob_status = (if s then ''superseded'' else ''queued''), ob_index = (if s then None else Some (fr_index f)),
      ob_occurred = fr_timestamp f, ob_payload = fr_payload f, ob_published = None\<rparr>)]"
    by (auto simp: insert_frame_def insert_outbox_def list_ex_iff map_of_eq_None_iff split: if_splits)
  then show ?case by (simp add: map_add_def)
qed auto

lemma queue_cleanup_rest:
  "queue_bound_sandbox_cleanup sha r row now db = Inr (u, db') \<Longrightarrow> claims db' = claims db \<and> commands db' = commands db
     \<and> models db' = models db \<and> outbox db' = outbox db"
  by (auto simp: queue_bound_sandbox_cleanup_def insert_sandbox_cleanup_def Let_def split: if_splits option.splits)

lemma write_action_rest:
  assumes "write_action q s index visible k db = Inr (action, db')"
  shows "\<exists>x. db' = db\<lparr>commands := x\<rparr> \<and> (\<forall>key c. map_of x key = Some c \<longrightarrow>
    (\<exists>d. map_of (commands db) key = Some d \<and> cc_resume_status c = cc_resume_status d))"
proof (cases "db' = db")
  case True
  then show ?thesis by (intro exI [of _ "commands db"]) auto
next
  case False
  obtain i where i: "intent s = Some i" using assms False by (auto simp: write_action_def split: option.splits)
  obtain row where "stored_command (rq_run_id q) (ri_command_id i) db = Inr row"
    using assms i by (auto simp: write_action_def)
  with assms False i obtain kind where
    u: "update_command (rq_run_id q) (ri_command_id i) (\<lambda>c. c\<lparr>cc_result := Some kind,
        cc_result_revision := Some (interaction_revision s), cc_result_source := Some index\<rparr>) db = Inr ((), db')"
    by (cases k; cases "cc_result row") (auto simp: write_action_def split: if_splits)
  from update_command_effect [OF u] False have "db' = db\<lparr>commands := update_at (rq_run_id q, ri_command_id i)
      (\<lambda>c. c\<lparr>cc_result := Some kind, cc_result_revision := Some (interaction_revision s), cc_result_source := Some index\<rparr>)
      (commands db)\<rparr>" by auto
  then show ?thesis by (intro exI conjI) (assumption, auto split: if_splits)
qed

lemma queue_cleanup_kept:
  assumes "queue_bound_sandbox_cleanup sha r row now db = Inr (u, db')" and "cl_sandbox_id row = Some sb"
  shows "\<exists>g kind. cl_sandbox_generation row = Some g \<and> cl_sandbox_kind row = Some kind
    \<and> map_of (cleanups db') (sandbox_cleanup_id sha r g kind sb) \<noteq> None"
  using assms
  by (auto simp: queue_bound_sandbox_cleanup_def insert_sandbox_cleanup_def Let_def map_add_def split: if_splits option.splits)

lemma terminal_cursor_Inr:
  assumes run: "terminal_on_cursor sha uuid us q c index visible db = Inr (n, db')"
    and d: "map_of (claims db) (rq_run_id q) = Some d"
  shows "n = index + (if visible then 1 else 0)"
    and "\<exists>s gs ps snap. phase s = PhaseTerminal
      \<and> claims db' = update_at (rq_run_id q) (head_columns us s index visible gs ps snap) (claims db)"
    and "\<forall>cmd x. map_of (commands db') (rq_run_id q, cmd) = Some x \<longrightarrow> cc_resume_status x \<in> {None, Some ''terminal''}"
    and "models db' = models db" and "outbox db' = outbox db" and "cleanups db' = cleanups db" and "manifests db' = manifests db"
proof -
  from run obtain gs sn s sn2 k where r: "read_snapshot sha q c gs db = Inr sn"
    and s: "terminal (sn_state sn) = Inr s"
    and w: "write_head sha uuid us q index s (sn_pause sn) visible k (settle_commands us (rq_run_id q) db) = Inr (sn2, db')"
    and n: "n = index + (if visible then 1 else 0)"
    by (auto simp: terminal_on_cursor_def)
  show "n = index + (if visible then 1 else 0)" by (rule n)
  let ?db = "settle_commands us (rq_run_id q) db"
  have settled: "\<forall>cmd x. map_of (commands ?db) (rq_run_id q, cmd) = Some x \<longrightarrow> cc_resume_status x \<in> {None, Some ''terminal''}"
  proof (intro allI impI)
    fix cmd x
    assume "map_of (commands ?db) (rq_run_id q, cmd) = Some x"
    then obtain y where x: "x = (if cc_resume_status y \<noteq> None \<and> cc_resume_status y \<noteq> Some ''terminal''
        then set_status us ''terminal'' y else y)"
      by (auto simp: settle_commands_def)
    show "cc_resume_status x \<in> {None, Some ''terminal''}" by (simp add: x set_status_def)
  qed
  obtain v snap action db1 where a: "write_action q s index visible k ?db = Inr (action, db1)"
    and c: "\<forall>c. map_of (claims db1) (rq_run_id q) = Some c \<longrightarrow>
      claims db' = update_at (rq_run_id q) (head_columns us s index visible (shown_groups s v) (sn_pause sn) snap) (claims db1)"
    and m: "commands db' = commands db1"
    by (rule write_head_Inr [OF w], rule that)
  obtain x where x: "db1 = ?db\<lparr>commands := x\<rparr>"
    "\<forall>key c. map_of x key = Some c \<longrightarrow> (\<exists>d. map_of (commands ?db) key = Some d \<and> cc_resume_status c = cc_resume_status d)"
    using write_action_rest [OF a] by blast
  have rest: "claims db1 = claims db \<and> models db1 = models db \<and> outbox db1 = outbox db \<and> cleanups db1 = cleanups db \<and> manifests db1 = manifests db"
    by (simp add: x(1) settle_commands_def)
  have "phase s = PhaseTerminal"
    using terminal_outcome(1) [OF head_facts(1) [OF r] s] .
  with rest c d show "\<exists>s gs ps snap. phase s = PhaseTerminal
      \<and> claims db' = update_at (rq_run_id q) (head_columns us s index visible gs ps snap) (claims db)" by metis
  show "\<forall>cmd x. map_of (commands db') (rq_run_id q, cmd) = Some x \<longrightarrow> cc_resume_status x \<in> {None, Some ''terminal''}"
  proof (intro allI impI)
    fix cmd y
    assume "map_of (commands db') (rq_run_id q, cmd) = Some y"
    then have "map_of x (rq_run_id q, cmd) = Some y" by (simp add: m x(1))
    with x(2) obtain z where "map_of (commands ?db) (rq_run_id q, cmd) = Some z" "cc_resume_status y = cc_resume_status z"
      by blast
    with settled show "cc_resume_status y \<in> {None, Some ''terminal''}" by simp
  qed
  have "models db' = models db1 \<and> outbox db' = outbox db1 \<and> cleanups db' = cleanups db1 \<and> manifests db' = manifests db1"
    using w a unfolding write_head_def Let_def
    by (auto dest!: update_claim_effect split: if_splits option.splits)
  with rest show "models db' = models db" "outbox db' = outbox db" "cleanups db' = cleanups db" "manifests db' = manifests db" by simp_all
qed

lemma account_usage_Inr:
  assumes "account_usage us r l usage totals db = Inr (x, db')"
  shows "keeps_terminal db db'" and "models db' = models db" and "commands db' = commands db"
    and "\<And>c. map_of (claims db) r = Some c \<Longrightarrow> cl_terminal c \<Longrightarrow> db' = db"
    and "\<And>s c. map_of (claims db) s = Some c \<Longrightarrow> \<exists>c'. map_of (claims db') s = Some c'
      \<and> cl_model_attempts c' = cl_model_attempts c \<and> cl_model_sealed c' = cl_model_sealed c"
proof -
  have "db' = db \<or> (\<exists>t i n x c. map_of (claims db) r = Some c \<and> \<not> cl_terminal c
      \<and> update_claim r (\<lambda>_. True) (\<lambda>c. c\<lparr>cl_input := cl_input c + i, cl_output := cl_output c + n\<rparr>) (db\<lparr>segments := t\<rparr>) = Inr (x, db'))"
    using assms unfolding account_usage_def add_usage_rows_def
    by (auto split: option.splits if_splits prod.splits; metis)
  then show "keeps_terminal db db'" "models db' = models db" "commands db' = commands db"
    "\<And>c. map_of (claims db) r = Some c \<Longrightarrow> cl_terminal c \<Longrightarrow> db' = db"
    "\<And>s c. map_of (claims db) s = Some c \<Longrightarrow> \<exists>c'. map_of (claims db') s = Some c'
      \<and> cl_model_attempts c' = cl_model_attempts c \<and> cl_model_sealed c' = cl_model_sealed c"
    by (auto dest!: update_claim_effect simp: keeps_terminal_def split: if_splits)
qed

lemma commit_outcome_Inr:
  assumes "commit_outcome sha uuid now r q row lease authority payload db = Inr (res, db')"
  obtains chat1 db2 index chat3 where
    "terminal_on_cursor sha uuid (now * 1000) q row (cl_index row + (if is_cancel authority then 1 else 0))
       (\<not> is_quarantine authority) (db\<lparr>chat := chat1\<rparr>) = Inr (index, db2)"
    and "end_run sha now r row lease authority index payload (db2\<lparr>chat := chat3\<rparr>) = Inr (res, db')"
proof -
  from assms obtain u db1 index db2 db3 where
    one: "(if \<not> is_quarantine authority then restore_started sha uuid q r (started_rows r db) db else Inr ((), db)) = Inr (u, db1)"
    and two: "terminal_on_cursor sha uuid (now * 1000) q row (cl_index row + (if is_cancel authority then 1 else 0))
       (\<not> is_quarantine authority) db1 = Inr (index, db2)"
    and three: "(if \<not> is_quarantine authority then append_fact sha uuid q r index now payload db2 else Inr db2) = Inr db3"
    and last: "end_run sha now r row lease authority index payload db3 = Inr (res, db')"
    unfolding commit_outcome_def Let_def bind_r_eq_Inr guard_r_def
    by (cases "receipt_error authority") (auto simp del: split_paired_Ex)
  have "\<exists>x. db1 = db\<lparr>chat := x\<rparr>"
    using one restore_started_chat by (cases "is_quarantine authority") (auto intro!: exI [of _ "chat db"])
  moreover have "\<exists>x. db3 = db2\<lparr>chat := x\<rparr>"
    using three append_fact_chat by (cases "is_quarantine authority") (auto intro!: exI [of _ "chat db2"])
  ultimately show thesis using that two last by blast
qed

lemma commit_outcome_status:
  "commit_outcome sha uuid now r q row lease authority payload db = Inr (res, db') \<Longrightarrow> tc_status res = ''committed''"
  by (auto simp: commit_outcome_def end_run_def guard_r_def Let_def split: option.splits if_splits)

lemma end_run_Inr:
  assumes "end_run sha now r row lease authority index payload db = Inr (res, db')"
  obtains l db4 x db5 where "new_lease authority lease = Inr l"
    and "insert_frames (terminal_frames sha now r row authority index payload) (is_quarantine authority)
      (ensure_receipt_manifest r now
         (if is_quarantine authority then supersede_frames r (terminal_fence authority row) db else db)) = Inr db4"
    and "update_claim r (\<lambda>_. True) (end_claim now l (terminal_seq authority row)
        (if is_quarantine authority then index else index + 1) (terminal_fence authority row))
      (finish_command now r authority db4) = Inr (x, db5)"
    and "queue_bound_sandbox_cleanup sha r row now db5 = Inr ((), db')"
    and "tc_status res = ''committed''" and "tc_lease res = Some l"
  using assms unfolding end_run_def Let_def bind_r_eq_Inr by (auto simp del: split_paired_Ex)

definition settled_commands :: "string \<Rightarrow> db \<Rightarrow> bool" where
  "settled_commands r db \<longleftrightarrow> (\<forall>cmd x. map_of (commands db) (r, cmd) = Some x \<longrightarrow> cc_resume_status x \<in> {None, Some ''terminal''})"

lemma finish_command_settled: "settled_commands r db \<Longrightarrow> settled_commands r (finish_command now r authority db)"
proof -
  assume s: "settled_commands r db"
  have "cc_resume_status x \<in> {None, Some ''terminal''}"
    if "map_of (commands (finish_command now r authority db)) (r, cmd) = Some x" for cmd x
  proof -
    from that obtain y where "map_of (commands db) (r, cmd) = Some y" "cc_resume_status x = cc_resume_status y"
      by (auto simp: finish_command_def split: terminal_authority.splits if_splits)
    with s show ?thesis by (simp add: settled_commands_def)
  qed
  then show ?thesis by (simp add: settled_commands_def)
qed

lemma finish_command_rest [simp]:
  "claims (finish_command now r authority db) = claims db" "models (finish_command now r authority db) = models db"
  "outbox (finish_command now r authority db) = outbox db" "cleanups (finish_command now r authority db) = cleanups db"
  by (simp_all add: finish_command_def split: terminal_authority.split)

text \<open>What the claim of an ended run says, against the claim its end was decided on.\<close>

definition ended_claim :: "int \<Rightarrow> lease_fence \<Rightarrow> terminal_authority \<Rightarrow> claim \<Rightarrow> claim \<Rightarrow> bool" where
  "ended_claim now l authority row c \<longleftrightarrow> cl_terminal c \<and> cl_terminal_at c = Some now \<and> cl_expires c = None
     \<and> fenced c l \<and> cl_ia_phase c = PhaseTerminal
     \<and> cl_durable c = terminal_seq authority row \<and> cl_fence_seq c = Some (terminal_fence authority row)"

lemma commit_outcome_effect:
  assumes run: "commit_outcome sha uuid now r q row lease authority payload db = Inr (res, db')"
    and q: "rq_run_id q = r" and c: "map_of (claims db) r = Some c"
  shows "\<exists>l c'. tc_status res = ''committed'' \<and> tc_lease res = Some l \<and> new_lease authority lease = Inr l
      \<and> map_of (claims db') r = Some c' \<and> ended_claim now l authority row c'
      \<and> cl_model_attempts c' = cl_model_attempts c \<and> cl_model_sealed c' = cl_model_sealed c"
    and "settled_commands r db'" and "models db' = models db"
    and "\<forall>s. s \<noteq> r \<longrightarrow> map_of (claims db') s = map_of (claims db) s"
    and "\<exists>o'. map_of (outbox db') (r, terminal_seq authority row) = Some o' \<and> ob_event_id o' = terminal_event_id sha r
      \<and> ob_status o' = (if is_quarantine authority then ''superseded'' else ''queued'')"
    and "\<forall>sb. cl_sandbox_id row = Some sb \<longrightarrow> (\<exists>g kind. cl_sandbox_generation row = Some g \<and> cl_sandbox_kind row = Some kind
      \<and> map_of (cleanups db') (sandbox_cleanup_id sha r g kind sb) \<noteq> None)"
proof -
  obtain chat1 db2 index chat3 where
    one: "terminal_on_cursor sha uuid (now * 1000) q row (cl_index row + (if is_cancel authority then 1 else 0))
       (\<not> is_quarantine authority) (db\<lparr>chat := chat1\<rparr>) = Inr (index, db2)"
    and two: "end_run sha now r row lease authority index payload (db2\<lparr>chat := chat3\<rparr>) = Inr (res, db')"
    by (rule commit_outcome_Inr [OF run])
  have "map_of (claims (db\<lparr>chat := chat1\<rparr>)) (rq_run_id q) = Some c" using c q by simp
  note t = terminal_cursor_Inr [OF one this]
  obtain l db4 x db5 where l: "new_lease authority lease = Inr l"
    and ins: "insert_frames (terminal_frames sha now r row authority index payload) (is_quarantine authority)
      (ensure_receipt_manifest r now
         (if is_quarantine authority then supersede_frames r (terminal_fence authority row) (db2\<lparr>chat := chat3\<rparr>) else db2\<lparr>chat := chat3\<rparr>)) = Inr db4"
    and upd: "update_claim r (\<lambda>_. True) (end_claim now l (terminal_seq authority row)
        (if is_quarantine authority then index else index + 1) (terminal_fence authority row))
      (finish_command now r authority db4) = Inr (x, db5)"
    and queue: "queue_bound_sandbox_cleanup sha r row now db5 = Inr ((), db')"
    and res: "tc_status res = ''committed''" "tc_lease res = Some l"
    by (rule end_run_Inr [OF two])
  let ?e = "end_claim now l (terminal_seq authority row) (if is_quarantine authority then index else index + 1) (terminal_fence authority row)"
  have f4: "claims db4 = claims db2 \<and> commands db4 = commands db2 \<and> models db4 = models db2"
    using insert_frames_rest [OF ins] by (simp add: ensure_receipt_manifest_def supersede_frames_def split: if_splits)
  obtain s gs ps snap where s: "phase s = PhaseTerminal" and cl: "claims db2 = update_at r (head_columns (now * 1000) s
      (cl_index row + (if is_cancel authority then 1 else 0)) (\<not> is_quarantine authority) gs ps snap) (claims db)"
    using t(2) q by auto
  let ?h = "head_columns (now * 1000) s (cl_index row + (if is_cancel authority then 1 else 0)) (\<not> is_quarantine authority) gs ps snap c"
  have "map_of (claims (finish_command now r authority db4)) r = Some ?h" using f4 cl c by simp
  then have db5: "db5 = (finish_command now r authority db4)\<lparr>claims := update_at r ?e (claims db4)\<rparr>"
    using update_claim_effect [OF upd] by auto
  note f5 = queue_cleanup_rest [OF queue]
  have c': "map_of (claims db') r = Some (?e ?h)" using f5 f4 cl c by (simp add: db5)
  show "\<exists>l c'. tc_status res = ''committed'' \<and> tc_lease res = Some l \<and> new_lease authority lease = Inr l
      \<and> map_of (claims db') r = Some c' \<and> ended_claim now l authority row c'
      \<and> cl_model_attempts c' = cl_model_attempts c \<and> cl_model_sealed c' = cl_model_sealed c"
    using res l c' s by (simp add: ended_claim_def end_claim_def head_columns_def fenced_def)
  show "\<forall>s. s \<noteq> r \<longrightarrow> map_of (claims db') s = map_of (claims db) s" using f5 f4 cl by (simp add: db5)
  show "models db' = models db" using f5 f4 t(4) by (simp add: db5)
  have "settled_commands r db4" using t(3) f4 q by (simp add: settled_commands_def)
  then have "settled_commands r db5"
    using finish_command_settled [of r db4 now authority] by (simp add: db5 settled_commands_def)
  then show "settled_commands r db'" using f5 by (simp add: settled_commands_def)
  show "\<exists>o'. map_of (outbox db') (r, terminal_seq authority row) = Some o' \<and> ob_event_id o' = terminal_event_id sha r
      \<and> ob_status o' = (if is_quarantine authority then ''superseded'' else ''queued'')"
    using insert_frames_last [OF ins [unfolded terminal_frames_def]] f5 by (auto simp: terminal_frame_def db5)
  show "\<forall>sb. cl_sandbox_id row = Some sb \<longrightarrow> (\<exists>g kind. cl_sandbox_generation row = Some g \<and> cl_sandbox_kind row = Some kind
      \<and> map_of (cleanups db') (sandbox_cleanup_id sha r g kind sb) \<noteq> None)"
    using queue_cleanup_kept [OF queue] by blast
qed

section \<open>Decisions\<close>

lemma stopped_status [simp]: "tc_status (stopped s) = s"
  by (simp add: stopped_def)

lemma terminal_replay_Inr:
  assumes "terminal_replay jcs sha uuid fresh us later r q row lease authority outcome db = Inr (res, db')"
    and "map_of (claims db) r = Some c" and "cl_terminal c"
  shows "db' = db" and "tc_status res \<in> {''replayed'', ''lost''}"
proof -
  have u: "account_usage later r lease (to_usage outcome) (0, 0) db = Inr (x, db1) \<Longrightarrow> db1 = db" for x db1
    using account_usage_Inr(4) assms(2,3) by blast
  from assms(1) obtain db0 where "close_model_call_attempts_for_terminal jcs sha fresh (to_ms us * 1000)
      (ei_tenant_ref (rq_identity q)) r False db = Inr db0"
    unfolding terminal_replay_def by auto
  then have "close_model_call_attempts_for_terminal jcs sha fresh (to_ms us * 1000)
      (ei_tenant_ref (rq_identity q)) r False db = Inr db"
    using close_all_claims(2) by blast
  then show "db' = db" "tc_status res \<in> {''replayed'', ''lost''}"
    using assms(1) unfolding terminal_replay_def
    by (auto split: if_splits dest!: u)
qed

lemma finalize_committed:
  assumes run: "finalize_terminal jcs sha uuid fresh us later r authority outcome snapshot db = Inr (res, db')"
    and com: "tc_status res = ''committed''"
  obtains row lease q db1 i n db2 where "map_of (claims db) r = Some row" and "\<not> cl_terminal row"
    and "new_fence (case cl_owner row of None \<Rightarrow> ''None'' | Some owner \<Rightarrow> owner) (cl_generation row) = Inr lease"
    and "Option.bind (cl_request row) (\<lambda>s. case parse_request s of Inl e \<Rightarrow> None | Inr q \<Rightarrow> Some q) = Some q"
    and "authorized r authority lease row db" and "may_commit us r authority row db"
    and "close_model_call_attempts_for_terminal jcs sha fresh (to_ms us * 1000) (ei_tenant_ref (rq_identity q)) r True db = Inr db1"
    and "account_usage later r lease (to_usage outcome) (usage_totals row) db1 = Inr (Some (i, n), db2)"
    and "commit_outcome sha uuid (to_ms us) r q row lease authority (with_totals i n (to_payload outcome)) db2 = Inr (res, db')"
proof -
  obtain row where row: "map_of (claims db) r = Some row"
    using run com by (auto simp: finalize_terminal_def guard_r_def split: option.splits)
  with run obtain lease q where
    l: "new_fence (case cl_owner row of None \<Rightarrow> ''None'' | Some owner \<Rightarrow> owner) (cl_generation row) = Inr lease"
    and q: "(case cl_request row of None \<Rightarrow> Inl (ValidationError ''json'') | Some s \<Rightarrow> parse_request s) = Inr q"
    and rest: "(if \<not> authorized r authority lease row db then Inr (stopped ''lost'', db)
      else if cl_terminal row then terminal_replay jcs sha uuid fresh us later r q row lease authority outcome db
      else terminal_commit jcs sha uuid fresh us later r q row lease authority outcome snapshot db) = Inr (res, db')"
    unfolding finalize_terminal_def guard_r_def by (cases "outcome_error authority outcome") auto
  have live: "\<not> cl_terminal row" and auth: "authorized r authority lease row db"
    using rest com by (auto dest!: terminal_replay_Inr(2) [OF _ row] split: if_splits)
  from rest live auth have tc: "terminal_commit jcs sha uuid fresh us later r q row lease authority outcome snapshot db = Inr (res, db')"
    by simp
  with com have may: "may_commit us r authority row db"
    and "\<not> (\<not> is_quarantine authority \<and> rejected_receipt r (\<lambda>_. True) db)"
    by (auto simp: terminal_commit_def split: if_splits)
  with tc obtain ready where "(if is_quarantine authority then Inr True else delivery_ready sha uuid q snapshot db) = Inr ready"
    and more: "(if \<not> ready then Inr (stopped ''deferred'', db)
        else bind_r (close_model_call_attempts_for_terminal jcs sha fresh (to_ms us * 1000) (ei_tenant_ref (rq_identity q)) r True db)
          (\<lambda>db. bind_r (account_usage later r lease (to_usage outcome) (usage_totals row) db) (\<lambda>(totals, db).
            case totals of None \<Rightarrow> Inr (stopped ''lost'', db) | Some (i, n) \<Rightarrow>
              commit_outcome sha uuid (to_ms us) r q row lease authority (with_totals i n (to_payload outcome)) db))) = Inr (res, db')"
    unfolding terminal_commit_def by (auto simp del: split_paired_Ex)
  with com have ready by (cases ready) auto
  with more obtain db1 totals db2 where cl: "close_model_call_attempts_for_terminal jcs sha fresh (to_ms us * 1000)
      (ei_tenant_ref (rq_identity q)) r True db = Inr db1"
    and us: "account_usage later r lease (to_usage outcome) (usage_totals row) db1 = Inr (totals, db2)"
    and last: "(case totals of None \<Rightarrow> Inr (stopped ''lost'', db2) | Some (i, n) \<Rightarrow>
      commit_outcome sha uuid (to_ms us) r q row lease authority (with_totals i n (to_payload outcome)) db2) = Inr (res, db')"
    by auto
  from last com obtain i n where "totals = Some (i, n)" by (cases totals) auto
  with that row live l q auth may cl us last show thesis by (auto split: option.splits)
qed

section \<open>The whole agent\<close>

inductive system_step ::
  "(json \<Rightarrow> string result) \<Rightarrow> (string \<Rightarrow> string) \<Rightarrow> (string \<Rightarrow> string) \<Rightarrow> db \<Rightarrow> db \<Rightarrow> bool" for jcs sha uuid where
  agent: "agent_step jcs sha uuid db db' \<Longrightarrow> system_step jcs sha uuid db db'"
| finalize: "system_step jcs sha uuid db
    (committed (finalize_terminal jcs sha uuid fresh us later r authority outcome snapshot) db)"

lemma cursor_keeps_terminal:
  assumes "terminal_on_cursor sha uuid us q c index visible db = Inr (n, db')"
  shows "keeps_terminal db db'"
proof -
  from assms obtain s ps k sn where
    w: "write_head sha uuid us q index s ps visible k (settle_commands us (rq_run_id q) db) = Inr (sn, db')"
    by (auto simp: terminal_on_cursor_def)
  let ?db = "settle_commands us (rq_run_id q) db"
  from w obtain action db1 gs snap y db2 where a: "write_action q s index visible k ?db = Inr (action, db1)"
    and u: "update_claim (rq_run_id q) (\<lambda>_. True) (head_columns us s index visible gs ps snap) db1 = Inr (y, db2)"
    and c: "claims db' = claims db2"
    unfolding write_head_def Let_def by (auto split: if_splits)
  have "claims db1 = claims db" using write_action_rest [OF a] by (auto simp: settle_commands_def)
  then have "keeps_terminal db db1" by simp
  moreover have "keeps_terminal db1 db2" by (rule update_keeps_terminal [OF u]) (simp add: head_columns_def)
  ultimately show ?thesis using c keeps_terminal_trans keeps_terminal_same by metis
qed

lemma commit_keeps_terminal:
  assumes "commit_outcome sha uuid now r q row lease authority payload db = Inr (res, db')"
  shows "keeps_terminal db db'" and "map_of (claims db) r \<noteq> None \<Longrightarrow> \<exists>c. map_of (claims db') r = Some c \<and> cl_terminal c"
proof -
  obtain chat1 db2 index chat3 where
    one: "terminal_on_cursor sha uuid (now * 1000) q row (cl_index row + (if is_cancel authority then 1 else 0))
       (\<not> is_quarantine authority) (db\<lparr>chat := chat1\<rparr>) = Inr (index, db2)"
    and two: "end_run sha now r row lease authority index payload (db2\<lparr>chat := chat3\<rparr>) = Inr (res, db')"
    by (rule commit_outcome_Inr [OF assms])
  obtain l db4 x db5 where
    ins: "insert_frames (terminal_frames sha now r row authority index payload) (is_quarantine authority)
      (ensure_receipt_manifest r now
         (if is_quarantine authority then supersede_frames r (terminal_fence authority row) (db2\<lparr>chat := chat3\<rparr>) else db2\<lparr>chat := chat3\<rparr>)) = Inr db4"
    and upd: "update_claim r (\<lambda>_. True) (end_claim now l (terminal_seq authority row)
        (if is_quarantine authority then index else index + 1) (terminal_fence authority row))
      (finish_command now r authority db4) = Inr (x, db5)"
    and queue: "queue_bound_sandbox_cleanup sha r row now db5 = Inr ((), db')"
    by (rule end_run_Inr [OF two])
  have "claims db4 = claims db2"
    using insert_frames_rest [OF ins] by (simp add: ensure_receipt_manifest_def supersede_frames_def split: if_splits)
  then have "keeps_terminal db2 (finish_command now r authority db4)" by simp
  moreover have "keeps_terminal (finish_command now r authority db4) db5"
    by (rule update_keeps_terminal [OF upd]) (simp add: end_claim_def)
  moreover have "keeps_terminal db5 db'" using queue_cleanup_rest [OF queue] by simp
  moreover have "keeps_terminal db db2"
    using cursor_keeps_terminal [OF one] by (simp add: keeps_terminal_def)
  ultimately have before: "keeps_terminal db (finish_command now r authority db4)" and after: "keeps_terminal db5 db'"
    and last: "keeps_terminal (finish_command now r authority db4) db5"
    by (blast intro: keeps_terminal_trans)+
  then show "keeps_terminal db db'" by (blast intro: keeps_terminal_trans)
  assume "map_of (claims db) r \<noteq> None"
  then obtain c where c: "map_of (claims (finish_command now r authority db4)) r = Some c"
    using before by (auto simp: keeps_terminal_def)
  with update_claim_effect [OF upd] have "\<exists>c. map_of (claims db5) r = Some c \<and> cl_terminal c"
    by (auto simp: end_claim_def)
  with after show "\<exists>c. map_of (claims db') r = Some c \<and> cl_terminal c"
    unfolding keeps_terminal_def by blast
qed

lemma finalize_keeps_terminal:
  assumes run: "finalize_terminal jcs sha uuid fresh us later r authority outcome snapshot db = Inr (res, db')"
  shows "keeps_terminal db db'"
proof (cases "tc_status res = ''committed''")
  case True
  obtain q lease i n db1 db2 row where
    "close_model_call_attempts_for_terminal jcs sha fresh (to_ms us * 1000) (ei_tenant_ref (rq_identity q)) r True db = Inr db1"
    "account_usage later r lease (to_usage outcome) (usage_totals row) db1 = Inr (Some (i, n), db2)"
    "commit_outcome sha uuid (to_ms us) r q row lease authority (with_totals i n (to_payload outcome)) db2 = Inr (res, db')"
    by (rule finalize_committed [OF run True], rule that)
  then show ?thesis
    using close_all_claims(1) account_usage_Inr(1) commit_keeps_terminal(1) keeps_terminal_trans by metis
next
  case False
  have tc: "keeps_terminal db db'"
    if "terminal_commit jcs sha uuid fresh us later r q row lease authority outcome snapshot db = Inr (res, db')" for q row lease
    using that False commit_outcome_status unfolding terminal_commit_def
    by (auto split: if_splits option.splits dest!: close_all_claims(1) account_usage_Inr(1) intro: keeps_terminal_trans)
  show ?thesis
  proof (cases "map_of (claims db) r")
    case None
    then show ?thesis using run by (auto simp: finalize_terminal_def guard_r_def split: option.splits)
  next
    case (Some row)
    with run show ?thesis
      unfolding finalize_terminal_def guard_r_def
      by (cases "outcome_error authority outcome"; cases "cl_terminal row")
        (auto split: if_splits dest: tc terminal_replay_Inr(1) [OF _ Some])
  qed
qed

lemma system_step_keeps_terminal: "system_step jcs sha uuid db db' \<Longrightarrow> keeps_terminal db db'"
proof (induction rule: system_step.induct)
  case (agent db db')
  then show ?case
    by (cases rule: agent_step.cases)
      (auto simp: model_effect_keeps_terminal run_step_iff intro: evolves_keeps_terminal run_effect_evolves)
next
  case (finalize db fresh us later r authority outcome snapshot)
  show ?case by (rule committed_keeps_terminal) (rule finalize_keeps_terminal)
qed

lemma system_steps_keep_terminal: "(system_step jcs sha uuid)\<^sup>*\<^sup>* db db' \<Longrightarrow> keeps_terminal db db'"
  by (induction rule: rtranclp_induct) (auto intro: keeps_terminal_trans system_step_keeps_terminal)

lemma finalize_terminal_run:
  assumes "finalize_terminal jcs sha uuid fresh us later r authority outcome snapshot db = Inr (res, db')"
    and "map_of (claims db) r = Some c" and "cl_terminal c"
  shows "db' = db \<and> tc_status res \<in> {''replayed'', ''lost''}"
proof -
  have "terminal_replay jcs sha uuid fresh us later r q c lease authority outcome db = Inr (res, db')
      \<Longrightarrow> db' = db \<and> tc_status res \<in> {''replayed'', ''lost''}" for q lease
    by (auto dest: terminal_replay_Inr [OF _ assms(2,3)])
  then show ?thesis
    using assms unfolding finalize_terminal_def guard_r_def
    by (cases "outcome_error authority outcome") (auto split: if_splits)
qed

lemma committed_terminal:
  assumes run: "finalize_terminal jcs sha uuid fresh us later r authority outcome snapshot db = Inr (res, db')"
    and com: "tc_status res = ''committed''"
  shows "\<exists>c. map_of (claims db') r = Some c \<and> cl_terminal c"
proof -
  obtain row lease q db1 i n db2 where row: "map_of (claims db) r = Some row"
    and one: "close_model_call_attempts_for_terminal jcs sha fresh (to_ms us * 1000) (ei_tenant_ref (rq_identity q)) r True db = Inr db1"
    and two: "account_usage later r lease (to_usage outcome) (usage_totals row) db1 = Inr (Some (i, n), db2)"
    and three: "commit_outcome sha uuid (to_ms us) r q row lease authority (with_totals i n (to_payload outcome)) db2 = Inr (res, db')"
    by (rule finalize_committed [OF assms], rule that)
  have "keeps_terminal db db2"
    using close_all_claims(1) [OF one] account_usage_Inr(1) [OF two] by (rule keeps_terminal_trans)
  with row have "map_of (claims db2) r \<noteq> None" by (auto simp: keeps_terminal_def)
  then show ?thesis by (rule commit_keeps_terminal(2) [OF three])
qed


text \<open>Nothing of the run is open.\<close>

definition run_closed :: "(string \<Rightarrow> string) \<Rightarrow> string \<Rightarrow> string \<Rightarrow> claim \<Rightarrow> terminal_authority \<Rightarrow> db \<Rightarrow> bool" where
  "run_closed sha tenant r row authority db \<longleftrightarrow> settled_commands r db
     \<and> (\<forall>i a. map_of (attempts (models db)) i = Some a \<longrightarrow> ma_tenant a = tenant \<longrightarrow> ma_run a = r \<longrightarrow> 0 < ma_revision a)
     \<and> (\<exists>o'. map_of (outbox db) (r, terminal_seq authority row) = Some o' \<and> ob_event_id o' = terminal_event_id sha r
          \<and> ob_status o' = (if is_quarantine authority then ''superseded'' else ''queued''))
     \<and> (\<forall>sb. cl_sandbox_id row = Some sb \<longrightarrow> (\<exists>g kind. cl_sandbox_generation row = Some g \<and> cl_sandbox_kind row = Some kind
          \<and> map_of (cleanups db) (sandbox_cleanup_id sha r g kind sb) \<noteq> None))"

definition next_generation :: "terminal_authority \<Rightarrow> int \<Rightarrow> int" where
  "next_generation authority g = (case authority of ExecutionAuthority _ \<Rightarrow> g | _ \<Rightarrow> g + 1)"

text \<open>C40: A committed end leaves nothing of the run open: its claim is terminal and fenced by the lease it
  returns, which is the lease of the worker or one generation newer, its interaction and all resume
  commands are settled, every model-call attempt of the run is sealed and counted, the terminal frame is in
  the outbox under the last sequence number, and a bound sandbox is queued for cleanup.
\<close>

theorem ended_run_closed:
  assumes "finalize_terminal jcs sha uuid fresh us later r authority outcome snapshot db = Inr (res, db')"
    and "tc_status res = ''committed''" and "tables_ok (models db)"
    and "map_of (claims db) r = Some row" and "cl_request row = Some s" and "parse_request s = Inr q" and "rq_run_id q = r"
  shows "\<exists>l c. tc_lease res = Some l \<and> map_of (claims db') r = Some c \<and> ended_claim (to_ms us) l authority row c
      \<and> lf_generation l = next_generation authority (cl_generation row) \<and> cl_model_attempts c = cl_model_sealed c
      \<and> run_closed sha (ei_tenant_ref (rq_identity q)) r row authority db'"
proof -
  obtain row' lease q' db1 i n db2 where row: "map_of (claims db) r = Some row'"
    and l: "new_fence (case cl_owner row' of None \<Rightarrow> ''None'' | Some owner \<Rightarrow> owner) (cl_generation row') = Inr lease"
    and q': "Option.bind (cl_request row') (\<lambda>s. case parse_request s of Inl e \<Rightarrow> None | Inr q \<Rightarrow> Some q) = Some q'"
    and au: "authorized r authority lease row' db"
    and one: "close_model_call_attempts_for_terminal jcs sha fresh (to_ms us * 1000) (ei_tenant_ref (rq_identity q')) r True db = Inr db1"
    and two: "account_usage later r lease (to_usage outcome) (usage_totals row') db1 = Inr (Some (i, n), db2)"
    and three: "commit_outcome sha uuid (to_ms us) r q' row' lease authority (with_totals i n (to_payload outcome)) db2 = Inr (res, db')"
    by (rule finalize_committed [OF assms(1,2)], rule that)
  have row': "row' = row" using row assms(4) by simp
  then have qq: "q' = q" using q' assms(5,6) by simp
  have ok: "keys_ok (attempts (models db))" "rows_ok attempt_row_ok (attempts (models db))"
    using assms(3) by (simp_all add: tables_ok_def)
  obtain c1 where c1: "map_of (claims db1) r = Some c1" "cl_model_attempts c1 = cl_model_sealed c1"
    using close_all_Inr(4) [OF one ok] by auto
  then obtain c2 where c2: "map_of (claims db2) r = Some c2" "cl_model_attempts c2 = cl_model_sealed c2"
    using account_usage_Inr(5) [OF two] by metis
  note e = commit_outcome_effect [OF three [unfolded row' qq] assms(7) c2(1)]
  have gen: "lf_generation l' = next_generation authority (cl_generation row)" if "new_lease authority lease = Inr l'" for l'
    using that l row' by (cases authority) (auto simp: new_lease_def next_generation_def)
  have "models db' = models db1" using e(3) account_usage_Inr(2) [OF two] by simp
  then have "run_closed sha (ei_tenant_ref (rq_identity q)) r row authority db'"
    using e(2,5,6) close_all_Inr(2) [OF one ok] by (simp add: run_closed_def qq)
  with e(1) gen c2(2) show ?thesis by auto
qed

end
