(* ===== verification/Terminal_Samples.thy ===== *)
theory Terminal_Samples
  imports Terminal_Contracts Run_Invariants
begin

text \<open>A run whose rejected event frame ends it in quarantine.\<close>

definition rejected_claim :: claim where
  "rejected_claim = (request_claim demo_request ''w1'' 102)\<lparr>cl_durable := 1, cl_index := 1\<rparr>"

definition rejected_frame :: outbox_row where
  "rejected_frame = \<lparr>ob_event_id = ''e1'', ob_kind = ''run.started'', ob_status = ''published'', ob_index = Some 0,
     ob_occurred = 1, ob_payload = ''{}'', ob_published = Some 2\<rparr>"

definition rejected_run :: db where
  "rejected_run = demo_claimed\<lparr>claims := [(''r1'', rejected_claim)], outbox := [((''r1'', 1), rejected_frame)],
     receipts := [((''r1'', 1), \<lparr>rcp_event_id = ''e1'', rcp_status = ''rejected'', rcp_reason = None\<rparr>)]\<rparr>"

definition quarantine_outcome :: terminal_outcome where
  "quarantine_outcome = \<lparr>to_payload = RunFailedP \<lparr>rf_code = ''contract_incompatible'', rf_retryable = False\<rparr>, to_usage = None\<rparr>"

lemma close_nothing:
  assumes "attempts (models db) = []" and "map_of (claims db) r = Some c" and "cl_model_attempts c = cl_model_sealed c"
  shows "close_model_call_attempts_for_terminal jcs sha fresh us tenant r True db = Inr db"
  using assms by (simp add: close_model_call_attempts_for_terminal_def select_where_def Let_def)

lemma rejected_rest: "models rejected_run = models empty_db" "commands rejected_run = []" "manifests rejected_run = []"
  using demo_claimed_frame [of TModels] demo_claimed_frame [of TCommands] by (simp_all add: rejected_run_def empty_db_def)

lemma rejected_tables: "attempts (models rejected_run) = []" "tables_ok (models rejected_run)"
  by (simp_all add: rejected_rest tables_ok_def keys_ok_def rows_ok_def empty_db_def)

definition ended_interaction :: interaction_state where
  "ended_interaction = initial_interaction\<lparr>interaction_revision := 1, phase := PhaseTerminal\<rparr>"

lemma ended_state: "terminal initial_interaction = Inr ended_interaction"
  unfolding ended_interaction_def by code_simp

definition cursor_claim :: "int \<Rightarrow> claim" where
  "cursor_claim us = head_columns us ended_interaction 1 False [] None None rejected_claim"

lemma cursor_storable: "claim_write_error (cursor_claim us) = None"
  by (simp add: claim_write_error_def claim_ok_def claim_interaction_ok_def claim_models_ok_def cursor_claim_def head_columns_def
      ended_interaction_def initial_interaction_def rejected_claim_def request_claim_def new_claim_def bigint_def btrim_empty_def)

lemma empty_groups_bytes: "canonical_interaction_bytes (enc_list enc_interaction_group []) = Inr ''[]''"
  by (simp add: canonical_interaction_bytes_def enc_list_def dumps_compact_def byte_limit_ok_def interaction_limit_def)

lemma rejected_settled: "settle_commands us r rejected_run = rejected_run"
  by (simp add: settle_commands_def rejected_rest update_where_def)

lemma rejected_head:
  "\<exists>sn. write_head sha uuid us demo_request 1 ended_interaction None False None rejected_run
     = Inr (sn, rejected_run\<lparr>claims := [(''r1'', cursor_claim us)]\<rparr>)"
proof -
  have "write_action demo_request ended_interaction 1 False None rejected_run = Inr (None, rejected_run)"
    by (simp add: write_action_def ended_interaction_def initial_interaction_def)
  moreover have "chat_interaction_check (chat_state_of ended_interaction [] None) = None"
    unfolding ended_interaction_def by code_simp
  moreover have "update_claim ''r1'' (\<lambda>_. True) (head_columns us ended_interaction 1 False [] None None) rejected_run
      = Inr (Some (cursor_claim us), rejected_run\<lparr>claims := [(''r1'', cursor_claim us)]\<rparr>)"
    using cursor_storable [of us] by (simp add: update_claim_def rejected_run_def cursor_claim_def guard_r_def update_at_def)
  ultimately show ?thesis
    by (simp add: write_head_def shown_groups_def construct_def guard_r_def empty_groups_bytes)
qed

lemma rejected_cursor:
  "terminal_on_cursor sha uuid us demo_request rejected_claim 1 False rejected_run
     = Inr (1, rejected_run\<lparr>claims := [(''r1'', cursor_claim us)]\<rparr>)"
proof -
  have "interaction_state_check initial_interaction = None"
    using initial_interaction_ok by (simp add: interaction_state_ok_def)
  then have "read_snapshot sha demo_request rejected_claim [] rejected_run = Inr initial_snapshot"
    by (simp add: read_snapshot_Inr head_pause_def rejected_claim_def request_claim_def new_claim_def initial_snapshot_def initial_interaction_def)
  moreover have "run_row_groups rejected_claim = Inr []"
    by (simp add: run_row_groups_def rejected_claim_def request_claim_def new_claim_def object_or_null_def)
  moreover have "intent initial_interaction = None" by (simp add: initial_interaction_def)
  ultimately show ?thesis
    using rejected_head [of sha uuid us]
    by (auto simp: terminal_on_cursor_def initial_snapshot_def ended_state rejected_settled)
qed

lemma with_no_totals: "with_totals i n (to_payload quarantine_outcome) = to_payload quarantine_outcome"
  by (simp add: with_totals_def quarantine_outcome_def)

definition ended_sample :: claim where
  "ended_sample = end_claim 5 \<lparr>lf_owner = ''w2'', lf_generation = 2\<rparr> 2 1 1 (cursor_claim 5000)"

lemma ended_storable: "claim_write_error ended_sample = None"
  by (simp add: claim_write_error_def claim_ok_def claim_interaction_ok_def claim_models_ok_def ended_sample_def end_claim_def
      cursor_claim_def head_columns_def ended_interaction_def initial_interaction_def rejected_claim_def request_claim_def
      new_claim_def bigint_def btrim_empty_def)

lemma rejected_frames:
  assumes "outbox db = outbox rejected_run"
  shows "\<exists>x. insert_frames (terminal_frames sha now ''r1'' rejected_claim (QuarantineAuthority ''w2'' 1) 1 payload) True
     (ensure_receipt_manifest ''r1'' now (supersede_frames ''r1'' 1 db)) = Inr ((ensure_receipt_manifest ''r1'' now db)\<lparr>outbox := x\<rparr>)"
proof -
  have "outbox db = [((''r1'', 1), rejected_frame)]" using assms by (simp add: rejected_run_def)
  then show ?thesis
    by (simp add: terminal_frames_def applied_receipt_def terminal_frame_def terminal_seq_def insert_frame_def insert_outbox_def
        ensure_receipt_manifest_def supersede_frames_def update_where_def rejected_frame_def terminal_event_id_def
        rejected_claim_def) (rule exI, rule refl)
qed

lemma rejected_ended:
  "\<exists>res db'. commit_outcome sha uuid 5 ''r1'' demo_request rejected_claim (demo_lease 1) (QuarantineAuthority ''w2'' 1)
       (to_payload quarantine_outcome) rejected_run = Inr (res, db') \<and> tc_status res = ''committed''
     \<and> map_of (claims db') ''r1'' = Some ended_sample"
proof -
  let ?au = "QuarantineAuthority ''w2'' 1" and ?db = "rejected_run\<lparr>claims := [(''r1'', cursor_claim 5000)]\<rparr>"
  have lease: "new_lease ?au (demo_lease 1) = Inr \<lparr>lf_owner = ''w2'', lf_generation = 2\<rparr>"
    by (simp add: new_lease_def demo_lease_def)
  have counts: "terminal_seq ?au rejected_claim = 2" "terminal_fence ?au rejected_claim = 1" "cl_index rejected_claim = 1"
    by (simp_all add: terminal_seq_def terminal_fence_def rejected_claim_def)
  obtain x where ins: "insert_frames (terminal_frames sha 5 ''r1'' rejected_claim ?au 1 (to_payload quarantine_outcome)) True
     (ensure_receipt_manifest ''r1'' 5 (supersede_frames ''r1'' 1 ?db)) = Inr ((ensure_receipt_manifest ''r1'' 5 ?db)\<lparr>outbox := x\<rparr>)"
    using rejected_frames [of ?db sha 5] by auto
  let ?d = "(ensure_receipt_manifest ''r1'' 5 ?db)\<lparr>outbox := x\<rparr>"
  have "update_claim ''r1'' (\<lambda>_. True) (end_claim 5 \<lparr>lf_owner = ''w2'', lf_generation = 2\<rparr> 2 1 1) (finish_command 5 ''r1'' ?au ?d)
      = Inr (Some ended_sample, ?d\<lparr>claims := [(''r1'', ended_sample)]\<rparr>)"
    using ended_storable
    by (simp add: update_claim_def finish_command_def ensure_receipt_manifest_def guard_r_def update_at_def ended_sample_def)
  then have "\<exists>res db'. end_run sha 5 ''r1'' rejected_claim (demo_lease 1) ?au 1 (to_payload quarantine_outcome) ?db = Inr (res, db')
      \<and> tc_status res = ''committed'' \<and> map_of (claims db') ''r1'' = Some ended_sample"
    using lease ins counts
    by (simp add: end_run_def queue_bound_sandbox_cleanup_def rejected_claim_def request_claim_def new_claim_def)
  moreover have "receipt_error ?au = None" by (simp add: receipt_error_def fail_if_def)
  ultimately show ?thesis
    by (simp add: commit_outcome_def guard_r_def rejected_cursor counts)
qed

lemma run_rejected:
  "\<exists>res db'. finalize_terminal jcs sha uuid fresh 5000 later ''r1'' (QuarantineAuthority ''w2'' 1) quarantine_outcome snapshot
       rejected_run = Inr (res, db') \<and> tc_status res = ''committed'' \<and> map_of (claims db') ''r1'' = Some ended_sample"
proof -
  let ?au = "QuarantineAuthority ''w2'' 1"
  have row: "map_of (claims rejected_run) ''r1'' = Some rejected_claim" by (simp add: rejected_run_def)
  have f: "cl_owner rejected_claim = Some ''w1''" "cl_generation rejected_claim = 1" "cl_terminal rejected_claim = False"
    "cl_request rejected_claim = Some (request_text demo_request)" "cl_fence_seq rejected_claim = None"
    "cl_model_attempts rejected_claim = cl_model_sealed rejected_claim" "usage_totals rejected_claim = (0, 0)"
    by (simp_all add: rejected_claim_def request_claim_def new_claim_def usage_totals_def)
  have fence: "new_fence ''w1'' 1 = Inr (demo_lease 1)" by (simp add: demo_lease_def)
  have out: "outcome_error ?au quarantine_outcome = None"
    by (simp add: outcome_error_def quarantine_outcome_def fail_if_def)
  have au: "authorized ''r1'' ?au (demo_lease 1) rejected_claim rejected_run"
    by (simp add: authorized_def f rejected_receipt_def) (simp add: rejected_run_def rejected_frame_def)
  have may: "may_commit us ''r1'' ?au rejected_claim rejected_run" for us by (simp add: may_commit_def)
  have use: "account_usage later ''r1'' l (to_usage quarantine_outcome) t rejected_run = Inr (Some t, rejected_run)" for l t
    by (simp add: account_usage_def quarantine_outcome_def)
  have ms: "to_ms 5000 = 5" by (simp add: to_ms_def)
  have close: "close_model_call_attempts_for_terminal jcs sha fresh us tenant ''r1'' True rejected_run = Inr rejected_run" for us tenant
    by (rule close_nothing [OF rejected_tables(1) row f(6)])
  show ?thesis
    using rejected_ended [of sha uuid]
    by (simp add: finalize_terminal_def terminal_commit_def guard_r_def out row f fence sample_request_text au may use ms close with_no_totals)
qed

lemma late_worker:
  assumes "map_of (claims db) ''r1'' = Some ended_sample"
  shows "\<exists>res db'. finalize_terminal jcs sha uuid fresh us later ''r1'' (ExecutionAuthority (demo_lease 1)) quarantine_outcome snapshot db
     = Inr (res, db')"
proof -
  have f: "cl_owner ended_sample = Some ''w2''" "cl_generation ended_sample = 2" "cl_request ended_sample = Some (request_text demo_request)"
    by (simp_all add: ended_sample_def end_claim_def cursor_claim_def head_columns_def rejected_claim_def request_claim_def new_claim_def)
  have "outcome_error (ExecutionAuthority (demo_lease 1)) quarantine_outcome = None"
    by (simp add: outcome_error_def fail_if_def)
  moreover have "\<not> authorized ''r1'' (ExecutionAuthority (demo_lease 1)) \<lparr>lf_owner = ''w2'', lf_generation = 2\<rparr> ended_sample db"
    by (simp add: authorized_def demo_lease_def)
  moreover have "new_fence ''w2'' 2 = Inr \<lparr>lf_owner = ''w2'', lf_generation = 2\<rparr>" by simp
  ultimately show ?thesis using assms sample_request_text by (simp add: finalize_terminal_def guard_r_def f del: new_fence_Inr)
qed


theorem ended_run_closed_witness:
  "\<exists>res db l c. finalize_terminal sample_jcs sample_sha id id 5000 6000 ''r1'' (QuarantineAuthority ''w2'' 1) quarantine_outcome []
       rejected_run = Inr (res, db) \<and> map_of (claims db) ''r1'' = Some c
     \<and> ended_claim 5 l (QuarantineAuthority ''w2'' 1) rejected_claim c \<and> lf_generation l = 2
     \<and> run_closed sample_sha ''t1'' ''r1'' rejected_claim (QuarantineAuthority ''w2'' 1) db"
proof -
  obtain res db where one: "finalize_terminal sample_jcs sample_sha id id 5000 6000 ''r1'' (QuarantineAuthority ''w2'' 1)
      quarantine_outcome [] rejected_run = Inr (res, db)" "tc_status res = ''committed''"
    using run_rejected [of sample_jcs sample_sha id id 6000 "[]"] by blast
  have row: "map_of (claims rejected_run) ''r1'' = Some rejected_claim" "cl_request rejected_claim = Some (request_text demo_request)"
    "cl_generation rejected_claim = 1"
    by (simp_all add: rejected_run_def rejected_claim_def request_claim_def new_claim_def)
  have "next_generation (QuarantineAuthority ''w2'' 1) 1 = 2" "to_ms 5000 = 5" by (simp_all add: next_generation_def to_ms_def)
  then show ?thesis
    using one ended_run_closed [OF one rejected_tables(2) row(1,2) sample_request_text] row(3) by auto
qed

end
