(* ===== verification/Chat_Service.thy ===== *)
theory Chat_Service
  imports Chat_Store Resume_Codecs
begin

text \<open>
  The chat query surface, \<open>src/kokoro_agent/application/chat/\<close>: requests, views and pages (\<open>dto.py\<close>),
  the opaque cursor of the session list, the mappers between instants and wire timestamps
  (\<open>mappers.py\<close>), and the service over the repository (\<open>service.py\<close>). \<open>sha\<close> is the hash of the
  namespace. The cursor text goes through \<open>base64.urlsafe_b64decode\<close>, which skips characters outside
  its alphabet; a cursor whose bytes are no UTF-8 of code points below 256 is refused here.
\<close>

section \<open>The session cursor\<close>

text \<open>\<open>binascii.a2b_base64\<close> without strict mode: \<open>quad\<close>, \<open>left\<close> and \<open>pads\<close> are its loop variables.\<close>

fun a2b_base64 :: "nat \<Rightarrow> nat \<Rightarrow> nat \<Rightarrow> string \<Rightarrow> bytes option" where
  "a2b_base64 quad left pads [] = (if quad = 0 then Some [] else None)"
| "a2b_base64 quad left pads (c # cs) =
     (if c = CHR ''='' then
        (if 2 \<le> quad then (if 4 \<le> quad + pads + 1 then Some [] else a2b_base64 quad left (pads + 1) cs)
         else a2b_base64 quad left pads cs)
      else case base64_value c of
        None \<Rightarrow> a2b_base64 quad left pads cs
      | Some v \<Rightarrow>
          if quad = 0 then a2b_base64 1 v 0 cs
          else if quad = 1 then map_option ((#) (of_nat (left * 4 + v div 16))) (a2b_base64 2 (v mod 16) 0 cs)
          else if quad = 2 then map_option ((#) (of_nat (left * 16 + v div 4))) (a2b_base64 3 (v mod 4) 0 cs)
          else map_option ((#) (of_nat (left * 64 + v))) (a2b_base64 0 0 0 cs))"

fun utf8_decode :: "bytes \<Rightarrow> string option" where
  "utf8_decode [] = Some []"
| "utf8_decode (b # bs) =
     (if unat b < 128 then map_option ((#) (char_of (unat b))) (utf8_decode bs)
      else if unat b = 194 \<or> unat b = 195 then
        (case bs of [] \<Rightarrow> None
         | c # cs \<Rightarrow> if 128 \<le> unat c \<and> unat c < 192
             then map_option ((#) (char_of ((unat b - 192) * 64 + (unat c - 128)))) (utf8_decode cs) else None)
      else None)"

definition url_safe :: "char \<Rightarrow> char" where
  "url_safe c = (if c = CHR ''+'' then CHR ''-'' else if c = CHR ''/'' then CHR ''_'' else c)"

definition url_plain :: "char \<Rightarrow> char" where
  "url_plain c = (if c = CHR ''-'' then CHR ''+'' else if c = CHR ''_'' then CHR ''/'' else c)"

definition strip_pads :: "string \<Rightarrow> string" where
  "strip_pads s = rev (dropWhile (\<lambda>c. c = CHR ''='') (rev s))"

definition enc_session_cursor :: "int \<Rightarrow> string \<Rightarrow> json" where
  "enc_session_cursor updated_at session_id = JObj [(''session_id'', JStr session_id), (''updated_at'', JInt updated_at)]"

definition encode_session_cursor :: "int \<Rightarrow> string \<Rightarrow> string" where
  "encode_session_cursor updated_at session_id =
     strip_pads (map url_safe (b64encode (utf8 (dumps_compact True (enc_session_cursor updated_at session_id)))))"

definition dec_session_cursor :: "json \<Rightarrow> (int \<times> string) result" where
  "dec_session_cursor j = bind_r (strict_fields [''updated_at'', ''session_id''] j) (\<lambda>kvs.
     bind_r (required as_integer ''updated_at'' kvs) (\<lambda>t.
     bind_r (required as_str ''session_id'' kvs) (\<lambda>s.
     if t < 0 \<or> s = [] then invalid else Inr (t, s))))"

definition decode_session_cursor :: "string \<Rightarrow> (int \<times> string) result" where
  "decode_session_cursor value =
     (let padded = value @ replicate ((4 - length value mod 4) mod 4) CHR ''='' in
      if list_ex (\<lambda>c. 128 \<le> (of_char c :: nat)) value then Inl (ValueError ''string argument should contain only ASCII characters'')
      else case Option.bind (Option.bind (a2b_base64 0 0 0 (map url_plain padded)) utf8_decode) loads of
        None \<Rightarrow> Inl (ValueError ''invalid_cursor'')
      | Some j \<Rightarrow> (case dec_session_cursor j of Inl e \<Rightarrow> Inl (ValueError ''invalid_cursor'') | Inr c \<Rightarrow> Inr c))"

lemma byte_of_nat: "n < 256 \<Longrightarrow> unat (of_nat n :: 8 word) = n"
  by (simp add: unat_of_nat)

lemma utf8_decode_two:
  assumes "unat b = 192 + h" and "unat c = 128 + l" and "h = 2 \<or> h = 3" and "l < 64"
  shows "utf8_decode (b # c # bs) = map_option ((#) (char_of (h * 64 + l))) (utf8_decode bs)"
  using assms by auto

lemma utf8_round_trip: "utf8_decode (utf8 s) = Some s"
proof (induction s)
  case (Cons c s)
  let ?n = "of_char c :: nat"
  have n: "?n < 256" by (rule nat_of_char_less_256)
  show ?case
  proof (cases "?n < 128")
    case True
    have "unat (of_nat ?n :: 8 word) = ?n" by (rule byte_of_nat [OF n])
    with True Cons show ?thesis by (simp add: utf8_def Let_def)
  next
    case False
    define h l where hl: "h = ?n div 64" "l = ?n mod 64"
    have n': "?n = h * 64 + l" and l: "l < 64" by (simp_all add: hl)
    have h: "h = 2 \<or> h = 3" using False n by (simp add: n') (use l in linarith)
    have u1: "unat (of_nat (192 + h) :: 8 word) = 192 + h" by (rule byte_of_nat) (use h in auto)
    have u2: "unat (of_nat (128 + l) :: 8 word) = 128 + l" by (rule byte_of_nat) (use l in simp)
    have "utf8 (c # s) = of_nat (192 + h) # of_nat (128 + l) # utf8 s"
      using False by (simp add: utf8_def Let_def hl)
    moreover have "utf8_decode (of_nat (192 + h) # of_nat (128 + l) # utf8 s) = Some (char_of (h * 64 + l) # s)"
      unfolding utf8_decode_two [OF u1 u2 h l] using Cons by simp
    ultimately show ?thesis by (simp add: n' [symmetric])
  qed
qed (simp add: utf8_def)

lemma lenient_bytes:
  fixes i j k l :: nat
  assumes "j < 64" and "k < 64" and "l < 64"
  shows "(i * 64 + j) div 16 = i * 4 + j div 16"
    and "((i * 64 + j) * 64 + k) div 4 div 256 = i * 4 + j div 16"
    and "((i * 64 + j) * 64 + k) div 4 mod 256 = j mod 16 * 16 + k div 4"
    and "(((i * 64 + j) * 64 + k) * 64 + l) div 65536 = i * 4 + j div 16"
    and "(((i * 64 + j) * 64 + k) * 64 + l) div 256 mod 256 = j mod 16 * 16 + k div 4"
    and "(((i * 64 + j) * 64 + k) * 64 + l) mod 256 = k mod 4 * 64 + l"
proof -
  define j1 j0 k1 k0 where d: "j1 = j div 16" "j0 = j mod 16" "k1 = k div 4" "k0 = k mod 4"
  have j: "j = j1 * 16 + j0" "j0 < 16" and k: "k = k1 * 4 + k0" "k0 < 4" "k1 < 16"
    using assms by (simp_all add: d)
  show "(i * 64 + j) div 16 = i * 4 + j div 16" by simp
  have a: "((i * 64 + j) * 64 + k) div 4 = (i * 4 + j1) * 256 + (j0 * 16 + k1)" and small: "j0 * 16 + k1 < 256"
    using j k by simp_all
  have b: "((i * 64 + j) * 64 + k) * 64 + l = ((i * 4 + j1) * 256 + (j0 * 16 + k1)) * 256 + (k0 * 64 + l)"
    and small2: "k0 * 64 + l < 256"
    using j k assms(3) by simp_all
  have c: "(x * 256 + y) div 256 = x" "(x * 256 + y) mod 256 = y" if "y < 256" for x y :: nat
    using that by simp_all
  show "((i * 64 + j) * 64 + k) div 4 div 256 = i * 4 + j div 16"
    "((i * 64 + j) * 64 + k) div 4 mod 256 = j mod 16 * 16 + k div 4"
    unfolding a c [OF small] by (simp_all add: d)
  have e: "x div 65536 = x div 256 div (256::nat)" for x by (simp add: div_mult2_eq [symmetric])
  show "(((i * 64 + j) * 64 + k) * 64 + l) div 65536 = i * 4 + j div 16"
    "(((i * 64 + j) * 64 + k) * 64 + l) div 256 mod 256 = j mod 16 * 16 + k div 4"
    "(((i * 64 + j) * 64 + k) * 64 + l) mod 256 = k mod 4 * 64 + l"
    unfolding b e c [OF small2] c [OF small] by (simp_all add: d)
qed

lemma base64_value_less: "base64_value c = Some i \<Longrightarrow> i < 64"
  by (auto simp: base64_value_def Let_def split: if_splits)

lemma base64_value_pad: "base64_value CHR ''='' = None"
  by (simp add: base64_value_def base64_alphabet_def)

text \<open>On well-formed text the lenient decoder agrees with the strict one.\<close>

lemma lenient_decodes: "b64decode s = Some bs \<Longrightarrow> a2b_base64 0 0 0 s = Some bs"
proof (induction s arbitrary: bs rule: b64decode.induct)
  case (2 p q r s cs)
  then obtain i j where ij: "base64_value p = Some i" "base64_value q = Some j"
    by (auto split: option.splits)
  then have pq: "p \<noteq> CHR ''=''" "q \<noteq> CHR ''=''" using base64_value_pad by auto
  have b: "i < 64" "j < 64" using ij base64_value_less by blast+
  show ?case
  proof (cases "r = CHR ''='' \<and> s = CHR ''=''")
    case True
    with 2(2) ij have "bs = [of_nat ((i * 64 + j) div 16)]" by (auto split: if_splits)
    then show ?thesis using True ij pq lenient_bytes(1) [OF b(2), of 0 0 i] by simp
  next
    case False
    then obtain k where k: "base64_value r = Some k" using 2(2) ij by (auto split: option.splits)
    then have r: "r \<noteq> CHR ''=''" "k < 64" using base64_value_pad base64_value_less by auto
    show ?thesis
    proof (cases "s = CHR ''=''")
      case True
      with 2(2) ij k r have "bs = [of_nat (((i * 64 + j) * 64 + k) div 4 div 256), of_nat (((i * 64 + j) * 64 + k) div 4 mod 256)]"
        by (auto simp: Let_def split: if_splits)
      then show ?thesis using True ij pq k r(1) lenient_bytes(2,3) [OF b(2) r(2), of 0 i] by simp
    next
      case s: False
      then obtain l x where l: "base64_value s = Some l" and x: "b64decode cs = Some x"
        and bs: "bs = of_nat ((((i * 64 + j) * 64 + k) * 64 + l) div 65536)
          # of_nat ((((i * 64 + j) * 64 + k) * 64 + l) div 256 mod 256) # of_nat ((((i * 64 + j) * 64 + k) * 64 + l) mod 256) # x"
        using 2(2) ij k r by (auto simp: Let_def split: option.splits)
      have "a2b_base64 0 0 0 cs = Some x" using 2(1) [OF refl ij _ k s l refl x] r by simp
      then show ?thesis
        using ij pq k r(1) s l lenient_bytes(4,5,6) [OF b(2) r(2) base64_value_less [OF l], of i] bs by simp
    qed
  qed
qed simp_all

text \<open>The text of an encoder ends in at most two pads, and its length is a multiple of four.\<close>

definition base64_text :: "string \<Rightarrow> bool" where
  "base64_text t \<longleftrightarrow> list_all (\<lambda>c. c \<in> set base64_alphabet) t"

lemma base64_char_in: "n < 64 \<Longrightarrow> base64_char n \<in> set base64_alphabet"
  unfolding base64_char_def by (rule nth_mem) (simp add: base64_alphabet_def)

lemma base64_chars: "list_all (\<lambda>n. n < 64) ns \<Longrightarrow> base64_text (map base64_char ns)"
  by (auto simp: base64_text_def list_all_iff base64_char_in)

lemma base64_shape:
  assumes "b64encode bs = map base64_char ns @ replicate k CHR ''=''" and "list_all (\<lambda>n. n < 64) ns" and "k \<le> 2"
    and "(length ns + k) mod 4 = 0"
  shows "\<exists>t k. b64encode bs = t @ replicate k CHR ''='' \<and> base64_text t \<and> k \<le> 2 \<and> (length t + k) mod 4 = 0"
  using assms base64_chars by (metis length_map)

lemma b64encode_shape:
  "\<exists>t k. b64encode bs = t @ replicate k CHR ''='' \<and> base64_text t \<and> k \<le> 2 \<and> (length t + k) mod 4 = 0"
proof (induction bs rule: b64encode.induct)
  case 1
  show ?case by (rule base64_shape [of _ "[]" 0]) simp_all
next
  case (2 a)
  have "unat a * 16 div 64 < 64" using unat_byte [of a] by (simp add: less_mult_imp_div_less)
  then show ?case
    by (intro base64_shape [of _ "[unat a * 16 div 64, unat a * 16 mod 64]" 2]) (simp_all add: Let_def numeral_2_eq_2)
next
  case (3 a b)
  let ?n = "(unat a * 256 + unat b) * 4"
  have "?n div 4096 < 64" using unat_byte [of a] unat_byte [of b] by (simp add: less_mult_imp_div_less)
  then show ?case
    by (intro base64_shape [of _ "[?n div 4096, ?n div 64 mod 64, ?n mod 64]" 1]) (simp_all add: Let_def)
next
  case (4 a b c bs)
  define n where "n = (unat a * 256 + unat b) * 256 + unat c"
  obtain t k where t: "b64encode bs = t @ replicate k CHR ''=''" "base64_text t" "k \<le> 2" "(length t + k) mod 4 = 0"
    using 4 [OF n_def] by (elim exE conjE) (rule that)
  let ?u = "map base64_char [n div 262144, n div 4096 mod 64, n div 64 mod 64, n mod 64]"
  have "n div 262144 < 64"
    using unat_byte [of a] unat_byte [of b] unat_byte [of c] by (simp add: n_def less_mult_imp_div_less)
  then have "base64_text ?u" by (intro base64_chars) simp
  then have "base64_text (?u @ t)" using t(2) by (simp add: base64_text_def)
  moreover have "b64encode (a # b # c # bs) = (?u @ t) @ replicate k CHR ''=''"
    using t(1) by (simp add: n_def Let_def)
  moreover have "(length (?u @ t) + k) mod 4 = 0" using t(4) by simp
  ultimately show ?case using t(3) by (intro exI [of _ "?u @ t"] exI [of _ k] conjI)
qed

lemma plain_safe: "c \<in> set base64_alphabet \<Longrightarrow> url_plain (url_safe c) = c \<and> url_safe c \<noteq> CHR ''='' \<and> (of_char (url_safe c) :: nat) < 128"
proof -
  have "list_all (\<lambda>c. url_plain (url_safe c) = c \<and> url_safe c \<noteq> CHR ''='' \<and> (of_char (url_safe c) :: nat) < 128) base64_alphabet"
    by code_simp
  then show "c \<in> set base64_alphabet \<Longrightarrow> url_plain (url_safe c) = c \<and> url_safe c \<noteq> CHR ''='' \<and> (of_char (url_safe c) :: nat) < 128"
    by (simp add: list_all_iff)
qed

lemma strip_pads_append: "list_all (\<lambda>c. c \<noteq> CHR ''='') t \<Longrightarrow> strip_pads (t @ replicate k CHR ''='') = t"
proof -
  assume t: "list_all (\<lambda>c. c \<noteq> CHR ''='') t"
  have "dropWhile (\<lambda>c. c = CHR ''='') (replicate k CHR ''='' @ rev t) = dropWhile (\<lambda>c. c = CHR ''='') (rev t)"
    by (induction k) simp_all
  moreover have "dropWhile (\<lambda>c. c = CHR ''='') (rev t) = rev t"
    using t by (cases t rule: rev_cases) simp_all
  ultimately show ?thesis by (simp add: strip_pads_def)
qed

lemma pads_needed:
  fixes n k :: nat
  assumes "k \<le> 2" and "(n + k) mod 4 = 0"
  shows "(4 - n mod 4) mod 4 = k"
proof -
  define m where "m = n mod 4"
  have "(m + k) mod 4 = 0" using assms(2) by (simp add: m_def mod_add_left_eq)
  moreover have "m = 0 \<or> m = 1 \<or> m = 2 \<or> m = 3" unfolding m_def by linarith
  moreover have "k = 0 \<or> k = 1 \<or> k = 2" using assms(1) by linarith
  ultimately have "(4 - m) mod 4 = k" by (elim disjE) simp_all
  then show ?thesis by (simp add: m_def)
qed

lemma url_text_round_trip:
  assumes "v = strip_pads (map url_safe (b64encode bs))"
  shows "a2b_base64 0 0 0 (map url_plain (v @ replicate ((4 - length v mod 4) mod 4) CHR ''='')) = Some bs"
    and "\<not> list_ex (\<lambda>c. 128 \<le> (of_char c :: nat)) v"
proof -
  obtain t k where t: "b64encode bs = t @ replicate k CHR ''=''" "base64_text t" "k \<le> 2" "(length t + k) mod 4 = 0"
    using b64encode_shape [of bs] by (elim exE conjE) (rule that)
  have pad: "url_safe CHR ''='' = CHR ''=''" "url_plain CHR ''='' = CHR ''=''" by (simp_all add: url_safe_def url_plain_def)
  have "list_all (\<lambda>c. c \<noteq> CHR ''='') (map url_safe t)"
    using t(2) plain_safe by (auto simp: base64_text_def list_all_iff)
  then have v: "v = map url_safe t" using assms t(1) by (simp add: pad strip_pads_append)
  have "(4 - length t mod 4) mod 4 = k" by (rule pads_needed [OF t(3,4)])
  moreover have "map (url_plain \<circ> url_safe) t = t"
    using t(2) plain_safe by (intro map_idI) (simp add: base64_text_def list_all_iff)
  ultimately have "map url_plain (v @ replicate ((4 - length v mod 4) mod 4) CHR ''='') = b64encode bs"
    by (simp add: v pad t(1))
  then show "a2b_base64 0 0 0 (map url_plain (v @ replicate ((4 - length v mod 4) mod 4) CHR ''='')) = Some bs"
    using lenient_decodes [OF b64_round_trip] by simp
  show "\<not> list_ex (\<lambda>c. 128 \<le> (of_char c :: nat)) v"
    using t(2) plain_safe by (fastforce simp: v base64_text_def list_ex_iff list_all_iff)
qed

theorem session_cursor_round_trip:
  assumes "0 \<le> t" and "s \<noteq> []"
  shows "decode_session_cursor (encode_session_cursor t s) = Inr (t, s)"
proof -
  let ?j = "enc_session_cursor t s"
  have "loads (dumps_compact True ?j) = Some ?j"
    by (rule loads_dumps) (simp_all add: enc_session_cursor_def)
  moreover have "dec_session_cursor ?j = Inr (t, s)"
    using assms by (simp add: dec_session_cursor_def enc_session_cursor_def strict_fields_def required_def)
  ultimately show ?thesis
    unfolding decode_session_cursor_def Let_def
    using url_text_round_trip [OF refl, of "utf8 (dumps_compact True ?j)"]
    by (simp add: encode_session_cursor_def utf8_round_trip)
qed

section \<open>Requests, views and pages\<close>

record chat_query_request =
  cq_identity :: execution_identity
  cq_session :: string
  cq_after :: int
  cq_limit :: int

definition chat_query_check :: "chat_query_request \<Rightarrow> exn option" where
  "chat_query_check q = fail_if (cq_after q < 0 \<or> cq_limit q \<le> 0 \<or> 1000 < cq_limit q) strict_error"

record chat_message_view =
  mv_id :: string
  mv_session :: string
  mv_run :: string
  mv_role :: string
  mv_content :: string
  mv_status :: string
  mv_seq :: int
  mv_created :: int
  mv_updated :: int

record chat_event_view =
  ev_id :: string
  ev_session :: string
  ev_run :: string
  ev_source_index :: int
  ev_message_id :: "string option"
  ev_type :: string
  ev_payload_json :: string
  ev_seq :: int
  ev_created :: int

record chat_history_page =
  hp_messages :: "chat_message_view list"
  hp_next :: int

record chat_replay_page =
  rg_events :: "chat_event_view list"
  rg_next :: int
  rg_watermark :: int

record chat_session_list_request =
  sl_identity :: execution_identity
  sl_project_ref :: "string option"
  sl_cursor :: "string option"
  sl_limit :: int

definition session_list_check :: "chat_session_list_request \<Rightarrow> exn option" where
  "session_list_check q = fail_if (sl_project_ref q = Some [] \<or> sl_limit q \<le> 0 \<or> 100 < sl_limit q) strict_error"

record chat_session_view =
  sv_session :: string
  sv_project_ref :: "string option"
  sv_title :: string
  sv_created :: int
  sv_updated :: int

record chat_session_list_page =
  sp_sessions :: "chat_session_view list"
  sp_next :: "string option"

section \<open>Instants on the wire\<close>

text \<open>
  \<open>int(value.timestamp() * 1000)\<close> is the instant in milliseconds, rounded down; the two roundings of the
  floating-point product are exact for instants from 2004 to 2038.
\<close>

definition utc_to_wire_epoch_millis :: "int \<Rightarrow> int result" where
  "utc_to_wire_epoch_millis us = bind_r (normalize_utc_datetime (AwareTime us)) (\<lambda>t.
     let milliseconds = t div 1000 in
     if milliseconds < 0 then Inl (ValueError ''wire timestamp must be non-negative'') else Inr milliseconds)"

definition chat_session_to_view :: "chat_session_record \<Rightarrow> chat_session_view result" where
  "chat_session_to_view r =
     bind_r (utc_to_wire_epoch_millis (cs_created_at r)) (\<lambda>created.
     bind_r (utc_to_wire_epoch_millis (cs_updated_at r)) (\<lambda>updated.
     Inr \<lparr>sv_session = cs_session r, sv_project_ref = cs_project_ref r, sv_title = cs_title r,
          sv_created = created, sv_updated = updated\<rparr>))"

definition chat_message_to_view :: "chat_message_record \<Rightarrow> chat_message_view result" where
  "chat_message_to_view r =
     bind_r (utc_to_wire_epoch_millis (cm_created_at r)) (\<lambda>created.
     bind_r (utc_to_wire_epoch_millis (cm_updated_at r)) (\<lambda>updated.
     Inr \<lparr>mv_id = cm_id r, mv_session = cm_session r, mv_run = cm_run r, mv_role = cm_role r, mv_content = cm_content r,
          mv_status = cm_status r, mv_seq = cm_seq r, mv_created = created, mv_updated = updated\<rparr>))"

definition chat_event_to_view :: "chat_event_record \<Rightarrow> chat_event_view result" where
  "chat_event_to_view r =
     bind_r (utc_to_wire_epoch_millis (ce_created_at r)) (\<lambda>created.
     Inr \<lparr>ev_id = ce_id r, ev_session = ce_session r, ev_run = ce_run r, ev_source_index = ce_source_index r,
          ev_message_id = ce_message_id r, ev_type = ce_type r, ev_payload_json = ce_payload_json r, ev_seq = ce_seq r,
          ev_created = created\<rparr>)"

section \<open>The service\<close>

definition service_ensure_session ::
  "(string \<Rightarrow> string) \<Rightarrow> (chat_db \<Rightarrow> chat_db) \<Rightarrow> execution_identity \<Rightarrow> string \<Rightarrow> string option \<Rightarrow> string \<Rightarrow> int
    \<Rightarrow> chat_db \<Rightarrow> (chat_session_record \<times> chat_db) result" where
  "service_ensure_session sha other identity session_id project_ref title updated_at db =
     bind_r (epoch_millis_to_utc updated_at) (\<lambda>t.
       ensure_session other (ei_tenant_ref identity) (runtime_namespace sha identity) session_id project_ref title
         (AwareTime t) db)"

text \<open>An empty cursor counts as none.\<close>

definition service_list_sessions ::
  "(string \<Rightarrow> string) \<Rightarrow> chat_session_list_request \<Rightarrow> chat_db \<Rightarrow> chat_session_list_page result" where
  "service_list_sessions sha q db =
     bind_r (case sl_cursor q of None \<Rightarrow> Inr None | Some c \<Rightarrow> if c = [] then Inr None else
        bind_r (decode_session_cursor c) (\<lambda>(t, s). bind_r (epoch_millis_to_utc t) (\<lambda>us. Inr (Some (AwareTime us, s))))) (\<lambda>after.
     bind_r (list_sessions (ei_tenant_ref (sl_identity q)) (runtime_namespace sha (sl_identity q)) (sl_project_ref q) after
         (sl_limit q + 1) db) (\<lambda>records.
     let page = take (nat (sl_limit q)) records; has_more = sl_limit q < int (length records) in
     bind_r (traverse chat_session_to_view page) (\<lambda>views.
     bind_r (if has_more \<and> page \<noteq> [] then bind_r (utc_to_wire_epoch_millis (cs_updated_at (last page)))
         (\<lambda>t. Inr (Some (encode_session_cursor t (cs_session (last page))))) else Inr None) (\<lambda>next_cursor.
     Inr \<lparr>sp_sessions = views, sp_next = next_cursor\<rparr>))))"

definition service_history :: "(string \<Rightarrow> string) \<Rightarrow> chat_query_request \<Rightarrow> chat_db \<Rightarrow> chat_history_page result" where
  "service_history sha q db =
     bind_r (history (ei_tenant_ref (cq_identity q)) (runtime_namespace sha (cq_identity q)) (cq_session q) (cq_after q)
         (cq_limit q) db) (\<lambda>records.
     bind_r (traverse chat_message_to_view records) (\<lambda>messages.
     Inr \<lparr>hp_messages = messages, hp_next = (if messages = [] then cq_after q else mv_seq (last messages))\<rparr>))"

text \<open>The page and the watermark are read in two transactions; \<open>later\<close> is the store the second one sees.\<close>

definition service_replay ::
  "(string \<Rightarrow> string) \<Rightarrow> chat_query_request \<Rightarrow> chat_db \<Rightarrow> chat_db \<Rightarrow> chat_replay_page result" where
  "service_replay sha q later db =
     bind_r (replay (ei_tenant_ref (cq_identity q)) (runtime_namespace sha (cq_identity q)) (cq_session q) (cq_after q)
         (cq_limit q) db) (\<lambda>records.
     bind_r (traverse chat_event_to_view records) (\<lambda>events.
     bind_r (watermark (ei_tenant_ref (cq_identity q)) (runtime_namespace sha (cq_identity q)) (cq_session q) later) (\<lambda>w.
     Inr \<lparr>rg_events = events, rg_next = (if events = [] then cq_after q else ev_seq (last events)), rg_watermark = w\<rparr>)))"

end
