(* ===== verification/Chat_Paging.thy ===== *)
theory Chat_Paging
  imports Chat_Service
begin

text \<open>
  Clients of the chat service: a reader who repeats \<open>replay\<close> from the next sequence number, against a store
  that grows between the pages, catches up with the log and misses nothing; a reader who follows the cursors
  of the session list sees every session of its scope once.
\<close>

section \<open>Instants that have a wire form\<close>

definition wire_time :: "int \<Rightarrow> bool" where
  "wire_time us \<longleftrightarrow> 0 \<le> us \<and> us div 1000000 \<le> 253402300799"

lemma wire_time_millis:
  assumes "wire_time us"
  shows "utc_to_wire_epoch_millis us = Inr (us div 1000)"
proof -
  have "(us - us mod 1000) div 1000 = us div 1000" by (simp add: minus_mod_eq_mult_div)
  moreover have "us mod 1000 \<le> us" using assms by (intro zmod_le_nonneg_dividend) (simp add: wire_time_def)
  ultimately show ?thesis
    by (simp add: utc_to_wire_epoch_millis_def normalize_floor Let_def pos_imp_zdiv_neg_iff)
qed

definition event_view :: "chat_event_record \<Rightarrow> chat_event_view" where
  "event_view r = \<lparr>ev_id = ce_id r, ev_session = ce_session r, ev_run = ce_run r, ev_source_index = ce_source_index r,
     ev_message_id = ce_message_id r, ev_type = ce_type r, ev_payload_json = ce_payload_json r, ev_seq = ce_seq r,
     ev_created = ce_created_at r div 1000\<rparr>"

lemma event_to_view: "wire_time (ce_created_at r) \<Longrightarrow> chat_event_to_view r = Inr (event_view r)"
  by (simp add: chat_event_to_view_def wire_time_millis event_view_def)

section \<open>Replaying a session\<close>

text \<open>The pages a client reads, one from each of a sequence of stores.\<close>

fun replay_pages :: "(string \<Rightarrow> string) \<Rightarrow> chat_query_request \<Rightarrow> chat_db list \<Rightarrow> chat_event_view list result" where
  "replay_pages sha q [] = Inr []"
| "replay_pages sha q (db # dbs) = bind_r (service_replay sha q db db) (\<lambda>p.
     bind_r (replay_pages sha (q\<lparr>cq_after := rg_next p\<rparr>) dbs) (\<lambda>vs. Inr (rg_events p @ vs)))"

fun grows :: "(string \<Rightarrow> string) \<Rightarrow> chat_db \<Rightarrow> chat_db list \<Rightarrow> bool" where
  "grows u db [] = True"
| "grows u db (d # ds) = ((chat_step u)\<^sup>*\<^sup>* db d \<and> grows u d ds)"

definition scope_key :: "(string \<Rightarrow> string) \<Rightarrow> chat_query_request \<Rightarrow> session_key" where
  "scope_key sha q = (ei_tenant_ref (cq_identity q), runtime_namespace sha (cq_identity q), cq_session q)"

definition query_ok :: "(string \<Rightarrow> string) \<Rightarrow> chat_query_request \<Rightarrow> bool" where
  "query_ok sha q \<longleftrightarrow> chat_query_check q = None
     \<and> validate_scope (ei_tenant_ref (cq_identity q)) (runtime_namespace sha (cq_identity q)) (Some (cq_session q)) = None"

definition wire_events :: "chat_db \<Rightarrow> bool" where
  "wire_events db \<longleftrightarrow> (\<forall>r \<in> set (map snd (chat_events db)). wire_time (ce_created_at r))"

text \<open>The events of the session that a store holds, as views.\<close>

definition session_views :: "chat_db \<Rightarrow> session_key \<Rightarrow> chat_event_view set" where
  "session_views db k = event_view ` {r \<in> set (map snd (chat_events db)). event_session r = k}"

lemma last_upto: "a \<le> b \<Longrightarrow> last [a..b] = (b::int)"
  by (simp add: upto_rec2)

lemma upto_max: "[a + 1..m] = [a + 1..max a m]" for a m :: int
  by (cases "a \<le> m") simp_all

lemma upto_join: "a \<le> b \<Longrightarrow> b \<le> c \<Longrightarrow> [a + 1..b] @ [b + 1..c] = [a + 1..c]" for a b c :: int
  by (cases "a = b") (simp_all add: upto_split2 [of "a + 1" b c])

lemma replay_page_served:
  assumes gap: "gap_free event_seqs (seq_value ''event'') db" and q: "query_ok sha q" and wire: "wire_events db"
  defines "w \<equiv> seq_value ''event'' db (scope_key sha q)"
  shows "\<exists>vs wm. service_replay sha q later db = Inr \<lparr>rg_events = vs,
       rg_next = max (cq_after q) (min w (cq_after q + cq_limit q)), rg_watermark = wm\<rparr>
     \<and> map ev_seq vs = [cq_after q + 1..min w (cq_after q + cq_limit q)] \<and> set vs \<subseteq> session_views db (scope_key sha q)"
proof -
  let ?t = "ei_tenant_ref (cq_identity q)" and ?n = "runtime_namespace sha (cq_identity q)"
  let ?m = "min w (cq_after q + cq_limit q)"
  have bounds: "0 \<le> cq_after q" "0 < cq_limit q" "cq_limit q \<le> 1000"
    and scope: "validate_scope ?t ?n (Some (cq_session q)) = None"
    using q by (auto simp: query_ok_def chat_query_check_def fail_if_def split: if_splits)
  have "validate_page (cq_after q) (cq_limit q) = None" using bounds by (simp add: validate_page_def)
  then obtain rs where rs: "replay ?t ?n (cq_session q) (cq_after q) (cq_limit q) db = Inr rs"
    using scope by (simp add: replay_def)
  obtain wm where wm: "watermark ?t ?n (cq_session q) later = Inr wm" using scope by (simp add: watermark_def)
  have seqs: "map ce_seq rs = [cq_after q + 1..?m]"
    and mem: "\<forall>r \<in> set rs. r \<in> set (map snd (chat_events db)) \<and> event_session r = scope_key sha q"
    using replay_page [OF gap rs] by (simp_all add: w_def scope_key_def)
  have views: "traverse chat_event_to_view rs = Inr (map event_view rs)"
    using mem wire unfolding wire_events_def by (intro traverse_all_Inr event_to_view) blast
  have vs: "map ev_seq (map event_view rs) = [cq_after q + 1..?m]"
    using seqs by (simp add: comp_def event_view_def)
  have "(if map event_view rs = [] then cq_after q else ev_seq (last (map event_view rs))) = max (cq_after q) ?m"
  proof (cases "rs = []")
    case True
    then have "?m \<le> cq_after q" using seqs by simp
    with True show ?thesis by simp
  next
    case False
    then have le: "cq_after q + 1 \<le> ?m" using seqs by (metis map_is_Nil_conv upto_Nil not_le)
    have "ev_seq (last (map event_view rs)) = last (map ev_seq (map event_view rs))"
      using False by (simp add: last_map)
    then have "ev_seq (last (map event_view rs)) = ?m" unfolding vs last_upto [OF le] .
    with False le show ?thesis by simp
  qed
  then have "service_replay sha q later db = Inr \<lparr>rg_events = map event_view rs, rg_next = max (cq_after q) ?m, rg_watermark = wm\<rparr>"
    using rs views wm by (simp add: service_replay_def)
  moreover have "set (map event_view rs) \<subseteq> session_views db (scope_key sha q)"
    using mem by (auto simp: session_views_def)
  ultimately show ?thesis using vs by blast
qed

lemma views_grow: "(chat_step u)\<^sup>*\<^sup>* db db' \<Longrightarrow> session_views db k \<subseteq> session_views db' k"
proof (induction rule: rtranclp_induct)
  case (step d d')
  obtain xs where "chat_events d' = chat_events d @ xs" using chat_step_grows [OF step(2)] by blast
  then have "session_views d k \<subseteq> session_views d' k" by (auto simp: session_views_def)
  with step(3) show ?case by (rule subset_trans)
qed simp

lemma counter_grows: "(chat_step u)\<^sup>*\<^sup>* db db' \<Longrightarrow> seq_value ''event'' db k \<le> seq_value ''event'' db' k"
proof (induction rule: rtranclp_induct)
  case (step d d')
  have "seq_value ''event'' d k \<le> seq_value ''event'' d' k"
    using event_log.step_extends [OF step(2), of k] by auto
  with step(3) show ?case by (rule order_trans)
qed simp

lemma grows_last: "grows u db ds \<Longrightarrow> (chat_step u)\<^sup>*\<^sup>* db (last (db # ds))"
proof (induction ds arbitrary: db)
  case (Cons d ds)
  then show ?case by (auto intro: rtranclp_trans)
qed simp

lemma pages_contiguous:
  assumes "gap_free event_seqs (seq_value ''event'') db" and "grows u db ds" and "query_ok sha q" and "\<forall>d \<in> set ds. wire_events d"
  shows "\<exists>vs. replay_pages sha q ds = Inr vs \<and> map ev_seq vs = [cq_after q + 1..cq_after q + int (length vs)]
    \<and> min (seq_value ''event'' db (scope_key sha q)) (cq_after q + cq_limit q * int (length ds)) \<le> cq_after q + int (length vs)
    \<and> set vs \<subseteq> session_views (last (db # ds)) (scope_key sha q)"
  using assms
proof (induction ds arbitrary: db q)
  case (Cons d ds)
  let ?k = "scope_key sha q" and ?a = "cq_after q"
  let ?w = "seq_value ''event'' d ?k"
  let ?m = "min ?w (?a + cq_limit q)"
  let ?b = "max ?a ?m"
  have steps: "(chat_step u)\<^sup>*\<^sup>* db d" and rest: "grows u d ds" using Cons.prems(2) by simp_all
  have gap: "gap_free event_seqs (seq_value ''event'') d" by (rule event_log.steps_gap_free [OF steps Cons.prems(1)])
  obtain vs wm where page: "service_replay sha q d d = Inr \<lparr>rg_events = vs, rg_next = ?b, rg_watermark = wm\<rparr>"
    and vs: "map ev_seq vs = [?a + 1..?m]" "set vs \<subseteq> session_views d ?k"
    using replay_page_served [OF gap Cons.prems(3), of d] Cons.prems(4) by auto
  let ?q = "q\<lparr>cq_after := ?b\<rparr>"
  have len: "?a + int (length vs) = ?b"
  proof -
    have "length vs = nat (?m - ?a)" using arg_cong [OF vs(1), of length] by simp
    then show ?thesis by linarith
  qed
  have q: "query_ok sha ?q" "scope_key sha ?q = ?k"
    using Cons.prems(3) by (auto simp: query_ok_def chat_query_check_def fail_if_def scope_key_def split: if_splits)
  obtain us where us: "replay_pages sha ?q ds = Inr us" "map ev_seq us = [?b + 1..?b + int (length us)]"
    "min ?w (?b + cq_limit q * int (length ds)) \<le> ?b + int (length us)" "set us \<subseteq> session_views (last (d # ds)) ?k"
    using Cons.IH [OF gap rest q(1)] Cons.prems(4) q(2) by auto
  have seqs: "map ev_seq (vs @ us) = [?a + 1..?a + int (length (vs @ us))]"
  proof -
    have "[?a + 1..?m] = [?a + 1..?b]" by (rule upto_max)
    moreover have "[?a + 1..?b] @ [?b + 1..?b + int (length us)] = [?a + 1..?b + int (length us)]"
      by (rule upto_join) simp_all
    moreover have "?a + int (length (vs @ us)) = ?b + int (length us)" using len by simp
    ultimately show ?thesis using vs(1) us(2) by (simp only: map_append)
  qed
  have "seq_value ''event'' db ?k \<le> ?w" by (rule counter_grows [OF steps])
  moreover have "0 < cq_limit q" using Cons.prems(3) by (auto simp: query_ok_def chat_query_check_def fail_if_def split: if_splits)
  ultimately have "min (seq_value ''event'' db ?k) (?a + cq_limit q * int (length (d # ds))) \<le> ?a + int (length (vs @ us))"
    using us(3) len by (simp add: distrib_left)
  moreover have "set (vs @ us) \<subseteq> session_views (last (db # d # ds)) ?k"
    using us(4) subset_trans [OF vs(2) views_grow [OF grows_last [OF rest]]] by simp
  moreover have "replay_pages sha q (d # ds) = Inr (vs @ us)" using page us(1) by simp
  ultimately show ?case using seqs by blast
qed simp

text \<open>C18: A reader of a session catches up and misses nothing: repeating \<open>replay\<close> from the next sequence
  number, once on each of a sequence of growing stores, always returns, yields the events of the session
  numbered \<open>after + 1\<close>, \<open>after + 2\<close>, ... without gap or repetition, and after \<open>n\<close> pages has passed everything
  that was stored when the reader began, or \<open>n\<close> full pages.\<close>

theorem replay_catches_up:
  assumes "(chat_step u)\<^sup>*\<^sup>* empty_chat db" and "grows u db ds" and "query_ok sha q" and "\<forall>d \<in> set ds. wire_events d"
    and "watermark (ei_tenant_ref (cq_identity q)) (runtime_namespace sha (cq_identity q)) (cq_session q) db = Inr w"
  shows "\<exists>vs. replay_pages sha q ds = Inr vs \<and> map ev_seq vs = [cq_after q + 1..cq_after q + int (length vs)]
    \<and> min w (cq_after q + cq_limit q * int (length ds)) \<le> cq_after q + int (length vs)
    \<and> set vs \<subseteq> session_views (last (db # ds)) (scope_key sha q)"
proof -
  have gap: "gap_free event_seqs (seq_value ''event'') db"
    by (rule event_log.steps_gap_free [OF assms(1) empty_chat_gap_free(1)])
  have "w = seq_value ''event'' db (scope_key sha q)"
    using watermark_counter [OF gap assms(5)] by (simp add: scope_key_def)
  then show ?thesis using pages_contiguous [OF gap assms(2-4)] by blast
qed

section \<open>Listing the sessions\<close>

definition sessions_ok :: "chat_db \<Rightarrow> bool" where
  "sessions_ok db \<longleftrightarrow> keys_ok (chat_sessions db) \<and> (\<forall>(k, r) \<in> set (chat_sessions db).
     k = (cs_tenant r, cs_namespace r, cs_session r) \<and> py_strip (cs_session r) \<noteq> [] \<and> cs_updated_at r mod 1000 = 0)"

lemma same_sessions:
  "append_projection u p db = Inr (r, db') \<Longrightarrow> chat_sessions db' = chat_sessions db"
  "save_message m db = Inr (mr, db') \<Longrightarrow> chat_sessions db' = chat_sessions db"
proof -
  have save: "save_message m db = Inr (mr, db') \<Longrightarrow> chat_sessions db' = chat_sessions db" for m mr db db'
    by (erule save_message_cases) (auto dest: next_seq_effect(4))
  then show "save_message m db = Inr (mr, db') \<Longrightarrow> chat_sessions db' = chat_sessions db" .
  assume "append_projection u p db = Inr (r, db')"
  then show "chat_sessions db' = chat_sessions db"
  proof (cases rule: append_cases)
    case found
    then show ?thesis by (auto dest: save split: option.splits)
  next
    case (stored n db1 db2)
    then show ?thesis using next_seq_effect(4) [OF stored(2)] by (auto dest: save split: option.splits)
  qed
qed

lemma normalized_millis: "normalize_utc_datetime d = Inr t \<Longrightarrow> t mod 1000 = 0"
  by (cases d) (auto simp: normalize_floor normalize_utc_datetime_def [of "NaiveTime _"] mod_diff_eq minus_mod_eq_mult_div)

lemma ensure_session_rows:
  assumes "ensure_session (\<lambda>_. mid) t n s p title d before = Inr (r, db')"
  shows "\<exists>us ti. us mod 1000 = 0 \<and> py_strip s \<noteq> []
    \<and> chat_sessions db' \<in> {chat_sessions mid,
        update_at (t, n, s) (\<lambda>r. r\<lparr>cs_updated_at := max (cs_updated_at r) us\<rparr>) (chat_sessions mid),
        insert_new (t, n, s) \<lparr>cs_tenant = t, cs_namespace = n, cs_session = s, cs_project_ref = p, cs_title = ti,
          cs_created_at = us, cs_updated_at = us\<rparr> (chat_sessions mid)}"
proof -
  obtain us where us: "normalize_utc_datetime d = Inr us" "py_strip s \<noteq> []"
    using assms by (auto simp: ensure_session_def validate_scope_def)
  have "chat_sessions db' \<in> {chat_sessions mid,
        update_at (t, n, s) (\<lambda>r. r\<lparr>cs_updated_at := max (cs_updated_at r) us\<rparr>) (chat_sessions mid),
        insert_new (t, n, s) \<lparr>cs_tenant = t, cs_namespace = n, cs_session = s, cs_project_ref = p, cs_title = take 80 (py_strip title),
          cs_created_at = us, cs_updated_at = us\<rparr> (chat_sessions mid)}"
    using assms us by (auto simp: ensure_session_def session_update_def Let_def split: option.splits if_splits)
  then show ?thesis using us normalized_millis by blast
qed

definition session_row_ok :: "session_key \<Rightarrow> chat_session_record \<Rightarrow> bool" where
  "session_row_ok k r \<longleftrightarrow> k = (cs_tenant r, cs_namespace r, cs_session r) \<and> py_strip (cs_session r) \<noteq> [] \<and> cs_updated_at r mod 1000 = 0"

lemma sessions_ok_rows: "sessions_ok db \<longleftrightarrow> keys_ok (chat_sessions db) \<and> (\<forall>k r. (k, r) \<in> set (chat_sessions db) \<longrightarrow> session_row_ok k r)"
  by (auto simp: sessions_ok_def session_row_ok_def)

lemma chat_step_sessions:
  assumes "chat_step u db db'" and "sessions_ok db"
  shows "sessions_ok db'"
  using assms(1)
proof cases
  case (step_session t n s p title d before r)
  obtain us ti where us: "us mod 1000 = 0" "py_strip s \<noteq> []"
    and rows: "chat_sessions db' \<in> {chat_sessions db,
        update_at (t, n, s) (\<lambda>r. r\<lparr>cs_updated_at := max (cs_updated_at r) us\<rparr>) (chat_sessions db),
        insert_new (t, n, s) \<lparr>cs_tenant = t, cs_namespace = n, cs_session = s, cs_project_ref = p, cs_title = ti,
          cs_created_at = us, cs_updated_at = us\<rparr> (chat_sessions db)}"
    using ensure_session_rows [OF step_session] by (elim exE conjE) (rule that)
  have "keys_ok (chat_sessions db')" using rows assms(2) by (auto simp: sessions_ok_rows)
  moreover have "session_row_ok k r" if kr: "(k, r) \<in> set (chat_sessions db')" for k r
  proof -
    have old: "session_row_ok k w" if "(k, w) \<in> set (chat_sessions db)" for w
      using assms(2) that unfolding sessions_ok_rows by blast
    have up: "session_row_ok k (w\<lparr>cs_updated_at := max (cs_updated_at w) us\<rparr>)" if "session_row_ok k w" for w
      using that us by (simp add: session_row_ok_def max_def)
    have new: "session_row_ok (t, n, s) \<lparr>cs_tenant = t, cs_namespace = n, cs_session = s, cs_project_ref = p, cs_title = ti,
        cs_created_at = us, cs_updated_at = us\<rparr>" using us by (simp add: session_row_ok_def)
    consider "(k, r) \<in> set (chat_sessions db)"
      | w where "(k, w) \<in> set (chat_sessions db)" "r = w\<lparr>cs_updated_at := max (cs_updated_at w) us\<rparr>"
      | "k = (t, n, s)" "r = \<lparr>cs_tenant = t, cs_namespace = n, cs_session = s, cs_project_ref = p, cs_title = ti,
          cs_created_at = us, cs_updated_at = us\<rparr>"
      using rows kr by (auto dest!: set_update_at set_insert_new split: if_splits)
    then show ?thesis using old up new by cases simp_all
  qed
  ultimately show ?thesis by (simp add: sessions_ok_rows)
qed (use assms(2) same_sessions in \<open>simp_all add: sessions_ok_def\<close>)

lemma reached_sessions: "(chat_step u)\<^sup>*\<^sup>* empty_chat db \<Longrightarrow> sessions_ok db"
proof (induction rule: rtranclp_induct)
  case base
  show ?case by (simp add: sessions_ok_def empty_chat_def)
qed (rule chat_step_sessions)

text \<open>The sessions of a scope in the order of the list: the latest first, then by id.\<close>

definition session_order :: "chat_session_record \<Rightarrow> int \<times> string" where
  "session_order r = (- cs_updated_at r, cs_session r)"

definition scoped_sessions :: "(string \<Rightarrow> string) \<Rightarrow> chat_session_list_request \<Rightarrow> chat_db \<Rightarrow> chat_session_record list" where
  "scoped_sessions sha q db = sort_key session_order (filter (\<lambda>r. cs_tenant r = ei_tenant_ref (sl_identity q)
     \<and> cs_namespace r = runtime_namespace sha (sl_identity q) \<and> (sl_project_ref q = None \<or> cs_project_ref r = sl_project_ref q))
     (map snd (chat_sessions db)))"

lemma distinct_orders:
  assumes "sessions_ok db"
  shows "sorted_wrt (<) (map session_order (scoped_sessions sha q db))"
proof -
  let ?P = "\<lambda>r. cs_tenant r = ei_tenant_ref (sl_identity q) \<and> cs_namespace r = runtime_namespace sha (sl_identity q)
     \<and> (sl_project_ref q = None \<or> cs_project_ref r = sl_project_ref q)"
  have "map (\<lambda>r. (cs_tenant r, cs_namespace r, cs_session r)) (map snd (chat_sessions db)) = map fst (chat_sessions db)"
    using assms by (auto simp: sessions_ok_def)
  moreover have "distinct (map fst (chat_sessions db))" using assms by (simp add: sessions_ok_def keys_ok_def)
  ultimately have "distinct (map (\<lambda>r. (cs_tenant r, cs_namespace r, cs_session r)) (map snd (chat_sessions db)))"
    by (simp only:)
  then have "distinct (filter ?P (map snd (chat_sessions db)))"
    and inj: "inj_on (\<lambda>r. (cs_tenant r, cs_namespace r, cs_session r)) (set (map snd (chat_sessions db)))"
    by (simp_all only: distinct_map distinct_filter)
  moreover have "inj_on session_order (set (filter ?P (map snd (chat_sessions db))))"
    using inj unfolding inj_on_def by (auto simp: session_order_def)
  ultimately have "distinct (map session_order (filter ?P (map snd (chat_sessions db))))"
    by (simp only: distinct_map)
  then have "distinct (map session_order (scoped_sessions sha q db))"
    by (simp add: scoped_sessions_def distinct_map)
  moreover have "sorted (map session_order (scoped_sessions sha q db))" by (simp add: scoped_sessions_def)
  ultimately show ?thesis by (simp only: strict_sorted_iff)
qed

lemma later_rows:
  fixes f :: "'a \<Rightarrow> 'b :: linorder"
  assumes "sorted_wrt (<) (map f xs)" and "i < length xs"
  shows "filter (\<lambda>r. f (xs ! i) < f r) xs = drop (Suc i) xs"
  using assms
proof (induction xs arbitrary: i)
  case (Cons x xs)
  show ?case
  proof (cases i)
    case 0
    then show ?thesis using Cons.prems by (auto intro: filter_True)
  next
    case (Suc j)
    then have "f x < f (xs ! j)" using Cons.prems by simp
    with Suc Cons show ?thesis by (simp add: not_less less_imp_le)
  qed
qed simp

definition session_view :: "chat_session_record \<Rightarrow> chat_session_view" where
  "session_view r = \<lparr>sv_session = cs_session r, sv_project_ref = cs_project_ref r, sv_title = cs_title r,
     sv_created = cs_created_at r div 1000, sv_updated = cs_updated_at r div 1000\<rparr>"

definition wire_sessions :: "chat_db \<Rightarrow> bool" where
  "wire_sessions db \<longleftrightarrow> (\<forall>r \<in> set (map snd (chat_sessions db)). wire_time (cs_created_at r) \<and> wire_time (cs_updated_at r))"

definition listing_ok :: "(string \<Rightarrow> string) \<Rightarrow> chat_session_list_request \<Rightarrow> bool" where
  "listing_ok sha q \<longleftrightarrow> session_list_check q = None
     \<and> validate_scope (ei_tenant_ref (sl_identity q)) (runtime_namespace sha (sl_identity q)) None = None
     \<and> (case sl_project_ref q of None \<Rightarrow> True | Some p \<Rightarrow> py_strip p \<noteq> [])"

text \<open>The client that follows the cursors, for at most \<open>n\<close> pages.\<close>

fun list_pages :: "(string \<Rightarrow> string) \<Rightarrow> nat \<Rightarrow> chat_session_list_request \<Rightarrow> chat_db \<Rightarrow> chat_session_view list result" where
  "list_pages sha 0 q db = Inl (RuntimeError ''more pages'')"
| "list_pages sha (Suc n) q db = bind_r (service_list_sessions sha q db) (\<lambda>p. case sp_next p of
      None \<Rightarrow> Inr (sp_sessions p)
    | Some c \<Rightarrow> bind_r (list_pages sha n (q\<lparr>sl_cursor := Some c\<rparr>) db) (\<lambda>vs. Inr (sp_sessions p @ vs)))"

text \<open>The cursor of a session of the scope, and what is listed after it.\<close>

definition session_cursor :: "chat_session_record \<Rightarrow> string" where
  "session_cursor r = encode_session_cursor (cs_updated_at r div 1000) (cs_session r)"

definition listed_from ::
  "(string \<Rightarrow> string) \<Rightarrow> chat_session_list_request \<Rightarrow> chat_db \<Rightarrow> chat_session_record list \<Rightarrow> bool" where
  "listed_from sha q db xs \<longleftrightarrow> sl_cursor q = None \<and> xs = scoped_sessions sha q db
     \<or> (\<exists>i < length (scoped_sessions sha q db). sl_cursor q = Some (session_cursor (scoped_sessions sha q db ! i))
         \<and> xs = drop (Suc i) (scoped_sessions sha q db))"

lemma empty_cursor: "\<exists>e. decode_session_cursor [] = Inl e"
  by (simp add: decode_session_cursor_def loads_def skip_ws_def)

lemma cursor_position:
  assumes "wire_time (cs_updated_at r)" and "cs_updated_at r mod 1000 = 0" and "py_strip (cs_session r) \<noteq> []"
  shows "decode_session_cursor (session_cursor r) = Inr (cs_updated_at r div 1000, cs_session r)"
    and "session_cursor r \<noteq> []" and "epoch_millis_to_utc (cs_updated_at r div 1000) = Inr (cs_updated_at r)"
proof -
  have "cs_session r \<noteq> []" using assms(3) by (auto simp: py_strip_def)
  then show d: "decode_session_cursor (session_cursor r) = Inr (cs_updated_at r div 1000, cs_session r)"
    using assms(1) by (simp add: session_cursor_def session_cursor_round_trip wire_time_def pos_imp_zdiv_nonneg_iff)
  then show "session_cursor r \<noteq> []" using empty_cursor by auto
  have "cs_updated_at r div 1000 div 1000 = cs_updated_at r div 1000000" by (simp add: zdiv_zmult2_eq [symmetric])
  then obtain us where us: "epoch_millis_to_utc (cs_updated_at r div 1000) = Inr us"
    using assms(1) by (simp add: epoch_millis_to_utc_def wire_time_def Let_def pos_imp_zdiv_nonneg_iff not_less)
  moreover have "cs_updated_at r div 1000 * 1000 = cs_updated_at r" using assms(2) by auto
  ultimately show "epoch_millis_to_utc (cs_updated_at r div 1000) = Inr (cs_updated_at r)"
    using epoch_millis_exact [OF us] by simp
qed

lemma session_to_view:
  "wire_time (cs_created_at r) \<Longrightarrow> wire_time (cs_updated_at r) \<Longrightarrow> chat_session_to_view r = Inr (session_view r)"
  by (simp add: chat_session_to_view_def wire_time_millis session_view_def)

lemma scoped_member:
  assumes "sessions_ok db" and "wire_sessions db" and "r \<in> set (scoped_sessions sha q db)"
  shows "wire_time (cs_created_at r)" "wire_time (cs_updated_at r)" "cs_updated_at r mod 1000 = 0" "py_strip (cs_session r) \<noteq> []"
proof -
  obtain k where k: "(k, r) \<in> set (chat_sessions db)" using assms(3) by (auto simp: scoped_sessions_def)
  then have "session_row_ok k r" using assms(1) unfolding sessions_ok_rows by blast
  moreover have "r \<in> set (map snd (chat_sessions db))" using k by force
  ultimately show "wire_time (cs_created_at r)" "wire_time (cs_updated_at r)" "cs_updated_at r mod 1000 = 0" "py_strip (cs_session r) \<noteq> []"
    using assms(2) unfolding wire_sessions_def session_row_ok_def by blast+
qed

lemma listed_records:
  assumes ok: "sessions_ok db" and wire: "wire_sessions db" and q: "listing_ok sha q" and xs: "listed_from sha q db xs"
  obtains after where "(case sl_cursor q of None \<Rightarrow> Inr None | Some c \<Rightarrow> if c = [] then Inr None else
        bind_r (decode_session_cursor c) (\<lambda>(t, s). bind_r (epoch_millis_to_utc t) (\<lambda>us. Inr (Some (AwareTime us, s))))) = Inr after"
    and "list_sessions (ei_tenant_ref (sl_identity q)) (runtime_namespace sha (sl_identity q)) (sl_project_ref q) after
        (sl_limit q + 1) db = Inr (take (nat (sl_limit q + 1)) xs)"
proof -
  let ?S = "scoped_sessions sha q db" and ?t = "ei_tenant_ref (sl_identity q)" and ?n = "runtime_namespace sha (sl_identity q)"
  have bounds: "0 < sl_limit q" "sl_limit q \<le> 100" and scope: "validate_scope ?t ?n None = None"
    and project: "case sl_project_ref q of None \<Rightarrow> True | Some p \<Rightarrow> py_strip p \<noteq> []"
    using q by (auto simp: listing_ok_def session_list_check_def fail_if_def split: if_splits)
  from xs [unfolded listed_from_def] show ?thesis
  proof
    assume none: "sl_cursor q = None \<and> xs = ?S"
    then have "list_sessions ?t ?n (sl_project_ref q) None (sl_limit q + 1) db = Inr (take (nat (sl_limit q + 1)) xs)"
      using bounds scope project
      by (auto simp: list_sessions_def guard_r_def fail_if_def scoped_sessions_def session_order_def [abs_def] split: option.splits)
    then show ?thesis using none by (intro that [of None]) simp_all
  next
    assume "\<exists>i < length ?S. sl_cursor q = Some (session_cursor (?S ! i)) \<and> xs = drop (Suc i) ?S"
    then obtain i where i: "i < length ?S" "sl_cursor q = Some (session_cursor (?S ! i))" "xs = drop (Suc i) ?S" by blast
    define r where "r = ?S ! i"
    have "r \<in> set ?S" using i(1) by (simp add: r_def)
    note row = scoped_member [OF ok wire this]
    note c = cursor_position [OF row(2-4)]
    have later: "xs = filter (\<lambda>x. session_order r < session_order x) ?S"
      using later_rows [OF distinct_orders [OF ok] i(1)] i(3) by (simp add: r_def)
    let ?in = "\<lambda>x. cs_tenant x = ?t \<and> cs_namespace x = ?n \<and> (sl_project_ref q = None \<or> cs_project_ref x = sl_project_ref q)"
    let ?after = "\<lambda>x. cs_updated_at x < cs_updated_at r \<or> cs_updated_at x = cs_updated_at r \<and> cs_session r < cs_session x"
    have order: "(\<lambda>x. session_order r < session_order x) = ?after"
      by (auto simp: session_order_def less_prod_def fun_eq_iff)
    have rows: "sort_key session_order (filter (\<lambda>x. ?in x \<and> ?after x) (map snd (chat_sessions db))) = xs"
      unfolding later order scoped_sessions_def filter_sort filter_filter by (simp only: conj_assoc)
    have position: "(case sl_cursor q of None \<Rightarrow> Inr None | Some c \<Rightarrow> if c = [] then Inr None else
        bind_r (decode_session_cursor c) (\<lambda>(t, s). bind_r (epoch_millis_to_utc t) (\<lambda>us. Inr (Some (AwareTime us, s)))))
      = Inr (Some (AwareTime (cs_updated_at r), cs_session r))"
      using i(2) c by (simp add: r_def [symmetric])
    have n: "normalize_utc_datetime (AwareTime (cs_updated_at r)) = Inr (cs_updated_at r)" using row(3) by (simp add: normalize_floor)
    have p: "(case sl_project_ref q of None \<Rightarrow> None
        | Some p \<Rightarrow> fail_if (py_strip p = []) (ValueError ''project_ref must be non-empty when provided'')) = None"
      using project by (auto simp: fail_if_def split: option.splits)
    have "list_sessions ?t ?n (sl_project_ref q) (Some (AwareTime (cs_updated_at r), cs_session r)) (sl_limit q + 1) db
      = Inr (take (nat (sl_limit q + 1)) (sort_key session_order (filter (\<lambda>x. ?in x \<and> ?after x) (map snd (chat_sessions db)))))"
      unfolding list_sessions_def scope p n
      using bounds row(4) by (simp add: fail_if_def session_order_def [abs_def] n)
    then show ?thesis unfolding rows using position by (rule that [rotated])
  qed
qed

lemma listed_page:
  assumes ok: "sessions_ok db" and wire: "wire_sessions db" and q: "listing_ok sha q" and xs: "listed_from sha q db xs"
  defines "n \<equiv> nat (sl_limit q)"
  shows "service_list_sessions sha q db = Inr \<lparr>sp_sessions = map session_view (take n xs),
     sp_next = (if n < length xs then Some (session_cursor (xs ! (n - 1))) else None)\<rparr>"
proof -
  have n: "0 < n" "sl_limit q = int n" "nat (sl_limit q + 1) = Suc n"
    using q by (auto simp: listing_ok_def session_list_check_def fail_if_def n_def split: if_splits)
  obtain after where after: "(case sl_cursor q of None \<Rightarrow> Inr None | Some c \<Rightarrow> if c = [] then Inr None else
        bind_r (decode_session_cursor c) (\<lambda>(t, s). bind_r (epoch_millis_to_utc t) (\<lambda>us. Inr (Some (AwareTime us, s))))) = Inr after"
    "list_sessions (ei_tenant_ref (sl_identity q)) (runtime_namespace sha (sl_identity q)) (sl_project_ref q) after
        (sl_limit q + 1) db = Inr (take (Suc n) xs)"
    by (rule listed_records [OF ok wire q xs, unfolded n(3)])
  have sub: "set xs \<subseteq> set (scoped_sessions sha q db)"
    using xs by (auto simp: listed_from_def dest: in_set_dropD)
  have mem: "wire_time (cs_created_at r)" "wire_time (cs_updated_at r)" if "r \<in> set xs" for r
    using scoped_member [OF ok wire] sub that by blast+
  have views: "traverse chat_session_to_view (take n xs) = Inr (map session_view (take n xs))"
    by (rule traverse_all_Inr) (auto intro: session_to_view mem dest: in_set_takeD)
  have page: "take (nat (sl_limit q)) (take (Suc n) xs) = take n xs" by (simp add: n(2))
  have more: "sl_limit q < int (length (take (Suc n) xs)) \<longleftrightarrow> n < length xs" by (auto simp: n(2))
  have "utc_to_wire_epoch_millis (cs_updated_at (xs ! (n - 1))) = Inr (cs_updated_at (xs ! (n - 1)) div 1000)" if "n < length xs"
    by (rule wire_time_millis [OF mem(2)]) (use that n(1) in simp)
  moreover have ne: "take n xs \<noteq> []" if "n < length xs" using that n(1) by auto
  moreover have "last (take n xs) = xs ! (n - 1)" if "n < length xs"
    using last_conv_nth [OF ne [OF that]] that n(1) by simp
  ultimately show ?thesis
    unfolding service_list_sessions_def after(1) bind_r_simps after(2) Let_def page more views
    by (cases "n < length xs") (simp_all add: session_cursor_def)
qed

lemma listed_next:
  assumes "listed_from sha q db xs" and "n < length xs" and "0 < n"
  shows "listed_from sha (q\<lparr>sl_cursor := Some (session_cursor (xs ! (n - 1)))\<rparr>) db (drop n xs)"
proof -
  let ?S = "scoped_sessions sha q db"
  have same: "scoped_sessions sha (q\<lparr>sl_cursor := c\<rparr>) db = ?S" for c by (simp add: scoped_sessions_def)
  obtain m where m: "xs = drop m ?S" using assms(1) by (metis drop0 listed_from_def)
  then have "xs ! (n - 1) = ?S ! (m + (n - 1))" "m + (n - 1) < length ?S" using assms(2) by simp_all
  moreover have "drop n xs = drop (Suc (m + (n - 1))) ?S" using m assms(3) by (simp add: add.commute)
  ultimately show ?thesis unfolding listed_from_def same by auto
qed

lemma listed_all:
  assumes "sessions_ok db" and "wire_sessions db"
  shows "listing_ok sha q \<Longrightarrow> listed_from sha q db xs \<Longrightarrow> length xs \<le> n
    \<Longrightarrow> list_pages sha (Suc n) q db = Inr (map session_view xs)"
proof (induction n arbitrary: q xs)
  case 0
  then show ?case using listed_page [OF assms 0(1,2)] by simp
next
  case (Suc n)
  let ?n = "nat (sl_limit q)" and ?q = "q\<lparr>sl_cursor := Some (session_cursor (xs ! (nat (sl_limit q) - 1)))\<rparr>"
  note page = listed_page [OF assms Suc.prems(1,2)]
  show ?case
  proof (cases "?n < length xs")
    case True
    have n: "0 < ?n" using Suc.prems(1) by (auto simp: listing_ok_def session_list_check_def fail_if_def split: if_splits)
    have "listing_ok sha ?q" using Suc.prems(1) by (simp add: listing_ok_def session_list_check_def)
    moreover have "listed_from sha ?q db (drop ?n xs)" by (rule listed_next [OF Suc.prems(2) True n])
    moreover have "length (drop ?n xs) \<le> n" using Suc.prems(3) n by simp
    ultimately have "list_pages sha (Suc n) ?q db = Inr (map session_view (drop ?n xs))" by (rule Suc.IH)
    then show ?thesis using page True by (simp flip: map_append del: list_pages.simps add: list_pages.simps(2) [of sha "Suc n" q])
  next
    case False
    then show ?thesis using page by simp
  qed
qed


section \<open>The properties at a concrete store\<close>

abbreviation demo_sha :: "string \<Rightarrow> string" where
  "demo_sha \<equiv> \<lambda>_. ''n''"

definition demo_fact :: "int \<Rightarrow> chat_projection" where
  "demo_fact i = \<lparr>cp_event = (cp_event demo_projection)\<lparr>ce_namespace := ''ga:n'', ce_source_index := i, ce_message_id := None\<rparr>,
     cp_message = None\<rparr>"

definition demo_log :: chat_db where
  "demo_log = (case append_projection id (demo_fact 4) empty_chat of Inr (r, db) \<Rightarrow> db | Inl _ \<Rightarrow> empty_chat)"

definition demo_log2 :: chat_db where
  "demo_log2 = (case append_projection id (demo_fact 7) demo_log of Inr (r, db) \<Rightarrow> db | Inl _ \<Rightarrow> empty_chat)"

lemma demo_logs:
  "\<exists>r. append_projection id (demo_fact 4) empty_chat = Inr (r, demo_log)"
  "\<exists>r. append_projection id (demo_fact 7) demo_log = Inr (r, demo_log2)"
  "watermark ''t'' ''ga:n'' ''s'' demo_log = Inr 1"
  "list_all (\<lambda>r. ce_created_at r = 1000) (map snd (chat_events demo_log))"
  "list_all (\<lambda>r. ce_created_at r = 1000) (map snd (chat_events demo_log2))"
proof -
  have "(case append_projection id (demo_fact 4) empty_chat of Inr _ \<Rightarrow> True | Inl _ \<Rightarrow> False)"
    "(case append_projection id (demo_fact 7) demo_log of Inr _ \<Rightarrow> True | Inl _ \<Rightarrow> False)" by code_simp+
  then show "\<exists>r. append_projection id (demo_fact 4) empty_chat = Inr (r, demo_log)"
    "\<exists>r. append_projection id (demo_fact 7) demo_log = Inr (r, demo_log2)"
    unfolding demo_log2_def by (auto simp: demo_log_def split: sum.splits)
  show "watermark ''t'' ''ga:n'' ''s'' demo_log = Inr 1"
    "list_all (\<lambda>r. ce_created_at r = 1000) (map snd (chat_events demo_log))"
    "list_all (\<lambda>r. ce_created_at r = 1000) (map snd (chat_events demo_log2))" by code_simp+
qed

definition demo_query :: chat_query_request where
  "demo_query = \<lparr>cq_identity = demo_identity\<lparr>ei_tenant_ref := ''t''\<rparr>, cq_session = ''s'', cq_after = 0, cq_limit = 1\<rparr>"

lemma demo_query_ok: "query_ok demo_sha demo_query" "runtime_namespace demo_sha (cq_identity demo_query) = ''ga:n''"
  "ei_tenant_ref (cq_identity demo_query) = ''t''" "cq_session demo_query = ''s''" "cq_after demo_query = 0" "cq_limit demo_query = 1"
  by (simp_all add: query_ok_def demo_query_def runtime_namespace_def chat_query_check_def validate_scope_def py_strip_def py_space_def)

theorem replay_catches_up_witness:
  "\<exists>vs. replay_pages demo_sha demo_query [demo_log, demo_log2] = Inr vs \<and> map ev_seq vs = [1..int (length vs)] \<and> 1 \<le> length vs"
proof -
  have one: "(chat_step id)\<^sup>*\<^sup>* empty_chat demo_log" "(chat_step id)\<^sup>*\<^sup>* demo_log demo_log2"
    using demo_logs(1,2) by (auto intro: step_append)
  have "grows id demo_log [demo_log, demo_log2]" using one(2) by simp
  moreover have "\<forall>d \<in> set [demo_log, demo_log2]. wire_events d"
    using demo_logs(4,5) by (auto simp: wire_events_def wire_time_def list_all_iff)
  ultimately show ?thesis
    using replay_catches_up [OF one(1) _ demo_query_ok(1), of "[demo_log, demo_log2]" 1] demo_logs(3)
    by (simp only: demo_query_ok(2-6)) auto
qed

definition demo_sessions :: chat_db where
  "demo_sessions = \<lparr>chat_sessions =
     [((''t'', ''ga:n'', ''s1''), \<lparr>cs_tenant = ''t'', cs_namespace = ''ga:n'', cs_session = ''s1'', cs_project_ref = None,
        cs_title = ''one'', cs_created_at = 5000, cs_updated_at = 5000\<rparr>),
      ((''t'', ''ga:n'', ''s2''), \<lparr>cs_tenant = ''t'', cs_namespace = ''ga:n'', cs_session = ''s2'', cs_project_ref = None,
        cs_title = ''two'', cs_created_at = 9000, cs_updated_at = 9000\<rparr>)],
     chat_events = [], chat_messages = [], chat_sequences = []\<rparr>"

definition demo_listing :: chat_session_list_request where
  "demo_listing = \<lparr>sl_identity = demo_identity\<lparr>ei_tenant_ref := ''t''\<rparr>, sl_project_ref = None, sl_cursor = None, sl_limit = 1\<rparr>"

lemma demo_sessions_reached: "(chat_step id)\<^sup>*\<^sup>* empty_chat demo_sessions"
proof -
  let ?first = "demo_sessions\<lparr>chat_sessions := take 1 (chat_sessions demo_sessions)\<rparr>"
  have "\<exists>r. ensure_session (\<lambda>_. empty_chat) ''t'' ''ga:n'' ''s1'' None ''one'' (AwareTime 5000) empty_chat = Inr (r, ?first)"
    "\<exists>r. ensure_session (\<lambda>_. ?first) ''t'' ''ga:n'' ''s2'' None ''two'' (AwareTime 9000) ?first = Inr (r, demo_sessions)"
    by (simp_all add: ensure_session_def validate_scope_def py_strip_def py_space_def normalize_floor empty_chat_def demo_sessions_def
        btrim_empty_def insert_new_def Let_def)
  then have "chat_step id empty_chat ?first" "chat_step id ?first demo_sessions" by (auto intro: step_session)
  then show ?thesis by (rule converse_rtranclp_into_rtranclp [OF _ r_into_rtranclp])
qed


end
