(* ===== verification/Spec2Isabelle.thy ===== *)
theory Spec2Isabelle
  imports Prelude Interactions Tables Json Json_Parse Canonical Utc_Text Protocol Control Chat Chat_Store Run_Store
    Run_Leases Run_Dispatch Run_Events Run_Effects Run_Sandbox Run_Fences Run_System Run_Frames Run_Invariants Run_Contracts
    Interaction_Wire Interaction_Codec Interaction_Evidence Run_Interactions Run_Resume Run_Reconcile Resume_Codecs
    Resume_Refinement Resume_Simulation Resume_Settlement Resume_Contracts
    Model_Usage Model_Evidence Run_Profiles Model_Calls Model_Lifecycle Model_Contracts Model_Counts Model_Samples Run_Terminal Terminal_Contracts Terminal_Samples Chat_Service Chat_Paging
begin

text \<open>
  Kokoro Agent runs conversational agents for a platform. A request to start a run arrives on a stream, is
  admitted to a PostgreSQL store and claimed by one of several workers under a lease; the worker executes the
  agent, publishes its events, journals its tools and model calls, may pause for a human decision, and ends the
  run. Several processes work on the same store, so what the code guarantees it guarantees by the order of its
  transactions. This library models that core: the values and wire formats of
  \<open>src/kokoro_agent/domain\<close>, \<open>protocol\<close>, \<open>application\<close> and \<open>model\<close>, and every transaction of the repositories
  in \<open>src/kokoro_agent/infrastructure\<close>, and proves the guarantees for all interleavings.

  How the code is rendered. A Pydantic model is a record with its validation as a list of checks, a tagged union
  a datatype, a raised exception a value of \<open>exn\<close>, a fallible function a sum. A dictionary is an association list in
  insertion order. A table is an association list from primary keys to rows, a transaction a function
  \<open>db \<Rightarrow> (result \<times> db) result\<close> whose failure leaves the store unchanged (\<open>committed\<close>), and a method that works in
  several transactions is a function \<open>db \<Rightarrow> result \<times> db\<close> (\<open>act\<close>). Constraints and unique indexes of
  \<open>database/schema.sql\<close> are tests of the writes. Clock readings and fresh identifiers are arguments. Integers are
  unbounded as in Python, with the ranges of the columns tested where a write is checked.

  \<^bold>\<open>Shared.\<close> \<open>Prelude\<close> (exceptions, results, validation, dictionaries), \<open>Tables\<close> (SQL on association lists, the
  locale \<open>keep_first\<close>), \<open>Json\<close> and \<open>Json_Parse\<close> (\<open>json.dumps\<close>, injective on printable values, and \<open>json.loads\<close>,
  which reads it back), \<open>Canonical\<close> (sorted and RFC 8785 texts), \<open>Utc_Text\<close> (instants as text).

  \<^bold>\<open>Human in the loop.\<close> \<open>Interactions\<close> is \<open>domain/run/interactions.py\<close>: the state of a run's interaction, the
  decisions of a person and the transitions pause, accept, start, unknown, end. \<open>Interaction_Wire\<close>,
  \<open>Interaction_Codec\<close> and \<open>Interaction_Evidence\<close> are the pauses on the wire, the canonical bytes and the
  observations of native checkpoints; \<open>Run_Interactions\<close>, \<open>Run_Resume\<close> and \<open>Run_Reconcile\<close> are the transactions of
  \<open>postgres_run_interactions.py\<close>. \<open>Resume_Codecs\<close>, \<open>Resume_Refinement\<close>, \<open>Resume_Simulation\<close>, \<open>Resume_Settlement\<close> and
  \<open>Resume_Contracts\<close> prove that the stored interaction refines the domain state machine, that a pause is started
  once, and when a resume is given up.

  \<^bold>\<open>Protocol.\<close> \<open>Protocol\<close> is the event union of \<open>protocol/events.py\<close>, \<open>Control\<close> the inbound frames of
  \<open>protocol/control.py\<close> with the resume digest and the private scope of a run. Both have exact strict decoders.

  \<^bold>\<open>Chat.\<close> \<open>Chat\<close> projects events to user-visible facts (\<open>domain/chat\<close>, \<open>execution/failures.py\<close>), \<open>Chat_Store\<close> is
  \<open>postgres_chat_repository.py\<close>, \<open>Chat_Service\<close> the queries of \<open>application/chat\<close> with their cursor, \<open>Chat_Paging\<close> what
  a client gets from them: logs without gaps, a reader that catches up, a listing that is complete and ends.

  \<^bold>\<open>Runs.\<close> \<open>Run_Store\<close> has the tables and the shared primitives of \<open>postgres_run_context.py\<close>; \<open>Run_Leases\<close>,
  \<open>Run_Dispatch\<close> (admission and dispatch), \<open>Run_Events\<close>, \<open>Run_Effects\<close>, \<open>Run_Sandbox\<close>, \<open>Run_Profiles\<close> and
  \<open>Run_Terminal\<close> (\<open>finalize_terminal\<close>) are one repository each. \<open>Run_Fences\<close> proves that a worker whose lease was
  taken over changes nothing; \<open>Run_System\<close> puts the transactions into one transition system (\<open>run_step\<close>, and
  \<open>store_step\<close> with the retention); \<open>Run_Frames\<close>, \<open>Run_Invariants\<close> and \<open>Run_Contracts\<close> prove its invariants and the
  histories of its rows; \<open>Terminal_Contracts\<close> and \<open>Terminal_Samples\<close> that a run is decided once and closed.

  \<^bold>\<open>Model calls.\<close> \<open>Model_Usage\<close> is the wire of usage evidence, \<open>Model_Evidence\<close> its parsing and the artifacts of an
  attempt, \<open>Model_Calls\<close> the repository. \<open>Model_Lifecycle\<close> proves what a transaction may write, \<open>Model_Contracts\<close> and
  \<open>Model_Counts\<close> that an attempt is dispatched once, that its evidence is a chain, that its columns read back and that
  the counters of a run are exact; \<open>agent_step\<close> joins all transactions of the agent. \<open>Model_Samples\<close> runs it.

  \<^bold>\<open>Interfaces.\<close> A lemma that several components need is proved once in a locale: \<open>keep_first\<close> (a table that never
  overwrites), \<open>sequenced_log\<close> (numbering without gaps, for events and messages), \<open>guarded_operation\<close> and
  \<open>fenced_operation\<close> (a write under a lease, for all of them), \<open>monotone_steps\<close> and \<open>invariant_steps\<close> (what every step
  keeps or increases, all of its paths do).

  \<^bold>\<open>Parameters.\<close> SHA-256, UUIDv5 and \<open>rfc8785.dumps\<close> are arguments of the definitions. A hypothesis on them is
  named where it is used: that a hash separates two given texts, or \<open>rfc8785_law\<close>, that a document without floats
  is printed compactly, its members sorted.

  \<^bold>\<open>Bounds.\<close> The parsers recurse on the length of their text, which every call shortens. The base64 decoder, the
  merge loops and the drains are structural. Probes of an unsettled resume are given up at three. No definition
  needs fuel that is not the length of its input.

  \<^bold>\<open>Not modelled, and why.\<close> Texts have code points below 256; bytes are such texts. A float keeps the text it was read
  with, and a JSONB column keeps the value it was given, although PostgreSQL rewrites floats with an exponent.
  \<open>int(timestamp() * 1000)\<close> is exact division, as it is for instants between 2004 and 2038. Retention runs in
  \<open>store_step\<close> and not in \<open>agent_step\<close>, since it removes the rows the contracts of model calls speak about; a run
  identifier used again after it starts from generation one. \<open>encode_final_request_digest\<close> reads objects of the
  agent library. Also outside: the generated RPC code, clients, HTTP routes, sandbox backends, tool bodies, agent
  assembly and the supervision of workers, which are input and output, concurrency of the runtime or foreign
  objects. Whatever order supervisors choose, their calls are paths of \<open>system_step\<close> and, for the transactions of the
  interaction store, sequences of \<open>resume_effect\<close>; the two systems are not joined.
\<close>

end
